(* ===== verification/Json.thy ===== *)
theory Json
  imports Prelude
begin

text \<open>
  \<open>serde_json::Value\<close> as the source uses it. Numbers keep serde's three
  representations (an unsigned or a negative 64-bit integer, or the bits of a double);
  an object is the association list of an order-preserving map, first entry first.
\<close>

datatype json_num = PosInt "64 word" | NegInt "64 word" | Float "64 word"

datatype json =
    JNull
  | JBool bool
  | JNum json_num
  | JString string
  | JArray "json list"
  | JObject "(string \<times> json) list"

text \<open>\<open>Value::get(key)\<close>: the member of an object, nothing for every other value.\<close>

fun json_get :: "json \<Rightarrow> string \<Rightarrow> json option" where
  "json_get (JObject kvs) k = map_of kvs k"
| "json_get _ _ = None"

fun as_bool :: "json \<Rightarrow> bool option" where
  "as_bool (JBool b) = Some b"
| "as_bool _ = None"

fun as_str :: "json \<Rightarrow> string option" where
  "as_str (JString s) = Some s"
| "as_str _ = None"

fun as_array :: "json \<Rightarrow> json list option" where
  "as_array (JArray xs) = Some xs"
| "as_array _ = None"

fun as_object :: "json \<Rightarrow> (string \<times> json) list option" where
  "as_object (JObject kvs) = Some kvs"
| "as_object _ = None"

text \<open>\<open>Value::as_i64\<close>: the integers that fit a signed 64-bit value.\<close>

fun as_i64 :: "json \<Rightarrow> int option" where
  "as_i64 (JNum (PosInt w)) = (if uint w \<le> i64_max then Some (uint w) else None)"
| "as_i64 (JNum (NegInt w)) = Some (sint w)"
| "as_i64 _ = None"

text \<open>The value \<open>serde_json\<close> builds for an \<open>i64\<close>.\<close>

definition json_of_i64 :: "int \<Rightarrow> json" where
  "json_of_i64 n = JNum (if n < 0 then NegInt (word_of_int n) else PosInt (word_of_int n))"

definition i64_ok :: "int \<Rightarrow> bool" where
  "i64_ok n \<longleftrightarrow> - i64_max - 1 \<le> n \<and> n \<le> i64_max"

text \<open>The value built for an \<open>Option\<close>: \<open>null\<close> when absent.\<close>

definition json_of_opt :: "('a \<Rightarrow> json) \<Rightarrow> 'a option \<Rightarrow> json" where
  "json_of_opt f x = (case x of None \<Rightarrow> JNull | Some v \<Rightarrow> f v)"

lemma as_i64_json_of_i64:
  assumes "i64_ok n"
  shows "as_i64 (json_of_i64 n) = Some n"
proof (cases "n < 0")
  case True
  with assms have "sint (word_of_int n :: 64 word) = n"
    by (auto simp: i64_ok_def i64_max_def sint_sbintrunc' signed_take_bit_int_eq_self)
  with True show ?thesis by (simp add: json_of_i64_def)
next
  case False
  with assms have "uint (word_of_int n :: 64 word) = n"
    by (auto simp: i64_ok_def i64_max_def uint_word_of_int take_bit_int_eq_self)
  with False assms show ?thesis by (simp add: json_of_i64_def i64_ok_def)
qed

end
