(* ===== verification/Entities.thy ===== *)
theory Entities
  imports Json
begin

text \<open>
  The identifiers and the durable entities of the control plane
  (\<open>crates/stackhour-domain/src/ids.rs\<close>, \<open>entities.rs\<close>) and the error values of the
  store. A UUID is its 128 bits; a \<open>DateTime<Utc>\<close> is the number of nanoseconds since
  the epoch. Each enumeration has the on-disk spelling \<open>as_str\<close> and the parser
  \<open>from_db\<close>; the locale \<open>token_codec\<close> states what the store relies on, and every
  enumeration is an interpretation of it.
\<close>

type_synonym uuid = "128 word"
type_synonym time = int

subsection \<open>Errors\<close>

datatype sql_error =
    UniqueViolation string      \<comment> \<open>a PRIMARY KEY or UNIQUE column\<close>
  | ConversionFailure string    \<comment> \<open>\<open>rusqlite::Error::FromSqlConversionFailure\<close>\<close>
  | StatementFailed string      \<comment> \<open>I/O, busy, corrupt: whatever SQLite reports\<close>

text \<open>\<open>stackhour_core::Error\<close>; the text of a foreign error is kept as that error.\<close>

datatype error =
    ErrMsg string
  | SqlErr sql_error
  | JsonErr

definition conv_err :: "string \<Rightarrow> sql_error" where
  "conv_err m = ConversionFailure m"

definition sql_err :: "sql_error \<Rightarrow> error" where
  "sql_err e = SqlErr e"

definition unknown :: "string \<Rightarrow> string \<Rightarrow> string" where
  "unknown kind got = ''unknown '' @ kind @ '': '' @ got"

subsection \<open>Identifiers\<close>

datatype task_id = TaskId (task_uuid: uuid)
datatype run_id = RunId (run_uuid: uuid)
datatype event_id = EventId (event_uuid: uuid)
datatype command_id = CommandId (command_uuid: uuid)
datatype approval_id = ApprovalId (approval_uuid: uuid)
datatype node_id = NodeId (node_str: string)

subsection \<open>Node\<close>

datatype connection_status = Connected | Disconnected

fun connection_status_as_str :: "connection_status \<Rightarrow> string" where
  "connection_status_as_str Connected = ''connected''"
| "connection_status_as_str Disconnected = ''disconnected''"

definition connection_status_from_db :: "string \<Rightarrow> (string, connection_status) result" where
  "connection_status_from_db s =
     (if s = ''connected'' then Inr Connected
      else if s = ''disconnected'' then Inr Disconnected
      else Inl (unknown ''connection status'' s))"

record node =
  n_id :: node_id
  n_label :: string
  n_status :: connection_status
  n_software_version :: string
  n_capabilities :: json
  n_last_seen_sequence :: "int option"

subsection \<open>Task\<close>

datatype task_status = Open | Running | TaskCompleted | TaskFailed | TaskInterrupted

fun task_status_as_str :: "task_status \<Rightarrow> string" where
  "task_status_as_str Open = ''open''"
| "task_status_as_str Running = ''running''"
| "task_status_as_str TaskCompleted = ''completed''"
| "task_status_as_str TaskFailed = ''failed''"
| "task_status_as_str TaskInterrupted = ''interrupted''"

definition task_status_from_db :: "string \<Rightarrow> (string, task_status) result" where
  "task_status_from_db s =
     (if s = ''open'' then Inr Open
      else if s = ''running'' then Inr Running
      else if s = ''completed'' then Inr TaskCompleted
      else if s = ''failed'' then Inr TaskFailed
      else if s = ''interrupted'' then Inr TaskInterrupted
      else Inl (unknown ''task status'' s))"

record task =
  t_id :: task_id
  t_title :: string
  t_status :: task_status
  t_created_at :: time

subsection \<open>Run\<close>

datatype access_policy = Supervised | Automatic | FullAccess

fun access_policy_as_str :: "access_policy \<Rightarrow> string" where
  "access_policy_as_str Supervised = ''supervised''"
| "access_policy_as_str Automatic = ''automatic''"
| "access_policy_as_str FullAccess = ''full_access''"

definition access_policy_from_db :: "string \<Rightarrow> (string, access_policy) result" where
  "access_policy_from_db s =
     (if s = ''supervised'' then Inr Supervised
      else if s = ''automatic'' then Inr Automatic
      else if s = ''full_access'' then Inr FullAccess
      else Inl (unknown ''access policy'' s))"

datatype run_status = Started | Interrupted | Completed | Failed

fun run_status_as_str :: "run_status \<Rightarrow> string" where
  "run_status_as_str Started = ''started''"
| "run_status_as_str Interrupted = ''interrupted''"
| "run_status_as_str Completed = ''completed''"
| "run_status_as_str Failed = ''failed''"

definition run_status_from_db :: "string \<Rightarrow> (string, run_status) result" where
  "run_status_from_db s =
     (if s = ''started'' then Inr Started
      else if s = ''interrupted'' then Inr Interrupted
      else if s = ''completed'' then Inr Completed
      else if s = ''failed'' then Inr Failed
      else Inl (unknown ''run status'' s))"

record run =
  r_id :: run_id
  r_task_id :: task_id
  r_node_id :: node_id
  r_engine :: string
  r_model :: "string option"
  r_reasoning_effort :: "string option"
  r_system_prompt :: "string option"
  r_access_policy :: access_policy
  r_workspace_path :: "string option"
  r_status :: run_status
  r_started_at :: time

subsection \<open>Approval\<close>

datatype decision = Pending | Allowed | Denied

fun decision_as_str :: "decision \<Rightarrow> string" where
  "decision_as_str Pending = ''pending''"
| "decision_as_str Allowed = ''allowed''"
| "decision_as_str Denied = ''denied''"

definition decision_from_db :: "string \<Rightarrow> (string, decision) result" where
  "decision_from_db s =
     (if s = ''pending'' then Inr Pending
      else if s = ''allowed'' then Inr Allowed
      else if s = ''denied'' then Inr Denied
      else Inl (unknown ''decision'' s))"

record approval =
  a_id :: approval_id
  a_run_id :: run_id
  a_task_id :: task_id
  a_tool_call_id :: string
  a_scope :: string
  a_options :: "string list"
  a_expires_at :: "time option"
  a_decision :: decision
  a_resolved_by :: "string option"
  a_created_at :: time
  a_resolved_at :: "time option"

definition is_pending :: "approval \<Rightarrow> bool" where
  "is_pending a \<longleftrightarrow> a_decision a = Pending"

definition is_expired :: "approval \<Rightarrow> time \<Rightarrow> bool" where
  "is_expired a now \<longleftrightarrow> is_pending a \<and> (case a_expires_at a of Some exp \<Rightarrow> now \<ge> exp | None \<Rightarrow> False)"

subsection \<open>The contract of an on-disk token\<close>

text \<open>
  What the store relies on: a value is read back from the token it was written as, and
  no other text reads as it.
\<close>

locale token_codec =
  fixes to_token :: "'a \<Rightarrow> string" and of_token :: "string \<Rightarrow> ('e, 'a) result"
  assumes of_to: "of_token (to_token x) = Inr x"
    and to_of: "of_token s = Inr x \<Longrightarrow> s = to_token x"
begin

lemma token_inj: "to_token x = to_token y \<Longrightarrow> x = y"
  by (metis of_to sum.inject(2))

lemma token_eq_iff: "to_token x = to_token y \<longleftrightarrow> x = y"
  by (auto dest: token_inj)

lemma of_token_iff: "of_token s = Inr x \<longleftrightarrow> s = to_token x"
  by (auto simp: of_to dest: to_of)

lemma unknown_token: "(\<exists>e. of_token s = Inl e) \<longleftrightarrow> s \<notin> range to_token"
proof
  assume "\<exists>e. of_token s = Inl e"
  then show "s \<notin> range to_token" by (auto simp: of_to)
next
  assume "s \<notin> range to_token"
  then show "\<exists>e. of_token s = Inl e"
    by (cases "of_token s") (auto dest: to_of)
qed

end

interpretation connection_tok: token_codec connection_status_as_str connection_status_from_db
proof
  show "connection_status_from_db (connection_status_as_str x) = Inr x" for x
    by (cases x) (simp_all add: connection_status_from_db_def)
  show "s = connection_status_as_str x" if "connection_status_from_db s = Inr x" for s x
    using that by (auto simp: connection_status_from_db_def split: if_splits)
qed

interpretation task_tok: token_codec task_status_as_str task_status_from_db
proof
  show "task_status_from_db (task_status_as_str x) = Inr x" for x
    by (cases x) (simp_all add: task_status_from_db_def)
  show "s = task_status_as_str x" if "task_status_from_db s = Inr x" for s x
    using that by (auto simp: task_status_from_db_def split: if_splits)
qed

interpretation policy_tok: token_codec access_policy_as_str access_policy_from_db
proof
  show "access_policy_from_db (access_policy_as_str x) = Inr x" for x
    by (cases x) (simp_all add: access_policy_from_db_def)
  show "s = access_policy_as_str x" if "access_policy_from_db s = Inr x" for s x
    using that by (auto simp: access_policy_from_db_def split: if_splits)
qed

interpretation run_tok: token_codec run_status_as_str run_status_from_db
proof
  show "run_status_from_db (run_status_as_str x) = Inr x" for x
    by (cases x) (simp_all add: run_status_from_db_def)
  show "s = run_status_as_str x" if "run_status_from_db s = Inr x" for s x
    using that by (auto simp: run_status_from_db_def split: if_splits)
qed

interpretation decision_tok: token_codec decision_as_str decision_from_db
proof
  show "decision_from_db (decision_as_str x) = Inr x" for x
    by (cases x) (simp_all add: decision_from_db_def)
  show "s = decision_as_str x" if "decision_from_db s = Inr x" for s x
    using that by (auto simp: decision_from_db_def split: if_splits)
qed

lemmas token_round_trips [token_simps, simp] =
  connection_tok.of_to task_tok.of_to policy_tok.of_to run_tok.of_to decision_tok.of_to

end
