(* ===== verification/Events.thy ===== *)
theory Events
  imports Entities
begin

text \<open>
  The event vocabulary and the rows of the durable log
  (\<open>crates/stackhour-domain/src/event.rs\<close>).
\<close>

definition PROTOCOL_VERSION :: int where
  "PROTOCOL_VERSION = 5"

datatype event_kind =
    TaskCreated
  | RunStarted
  | RunInterrupted
  | RunCompleted
  | RunFailed
  | MessageUser
  | MessageAssistantDelta
  | MessageAssistantCompleted
  | ApprovalRequested
  | ApprovalResolved
  | NodeConnected
  | NodeDisconnected

definition event_kind_ALL :: "event_kind list" where
  "event_kind_ALL =
     [TaskCreated, RunStarted, RunInterrupted, RunCompleted, RunFailed, MessageUser,
      MessageAssistantDelta, MessageAssistantCompleted, ApprovalRequested, ApprovalResolved,
      NodeConnected, NodeDisconnected]"

fun event_kind_as_str :: "event_kind \<Rightarrow> string" where
  "event_kind_as_str TaskCreated = ''task.created''"
| "event_kind_as_str RunStarted = ''run.started''"
| "event_kind_as_str RunInterrupted = ''run.interrupted''"
| "event_kind_as_str RunCompleted = ''run.completed''"
| "event_kind_as_str RunFailed = ''run.failed''"
| "event_kind_as_str MessageUser = ''message.user''"
| "event_kind_as_str MessageAssistantDelta = ''message.assistant.delta''"
| "event_kind_as_str MessageAssistantCompleted = ''message.assistant.completed''"
| "event_kind_as_str ApprovalRequested = ''approval.requested''"
| "event_kind_as_str ApprovalResolved = ''approval.resolved''"
| "event_kind_as_str NodeConnected = ''node.connected''"
| "event_kind_as_str NodeDisconnected = ''node.disconnected''"

definition from_dotted :: "string \<Rightarrow> event_kind option" where
  "from_dotted s = find (\<lambda>k. event_kind_as_str k = s) event_kind_ALL"

record event_draft =
  d_kind :: event_kind
  d_task_id :: task_id
  d_run_id :: "run_id option"
  d_provider_session_id :: "string option"
  d_node_id :: node_id
  d_protocol_version :: int
  d_occurred_at :: time
  d_payload :: json

text \<open>\<open>EventDraft::new\<close>; the clock is an argument.\<close>

definition event_draft_new :: "time \<Rightarrow> event_kind \<Rightarrow> task_id \<Rightarrow> node_id \<Rightarrow> event_draft" where
  "event_draft_new now kind task node =
     \<lparr>d_kind = kind, d_task_id = task, d_run_id = None, d_provider_session_id = None,
      d_node_id = node, d_protocol_version = PROTOCOL_VERSION, d_occurred_at = now,
      d_payload = JNull\<rparr>"

definition with_run :: "event_draft \<Rightarrow> run_id \<Rightarrow> event_draft" where
  "with_run d r = d\<lparr>d_run_id := Some r\<rparr>"

definition with_payload :: "event_draft \<Rightarrow> json \<Rightarrow> event_draft" where
  "with_payload d p = d\<lparr>d_payload := p\<rparr>"

record event =
  e_sequence :: int
  e_event_id :: event_id
  e_command_id :: "command_id option"
  e_kind :: event_kind
  e_task_id :: task_id
  e_run_id :: "run_id option"
  e_provider_session_id :: "string option"
  e_node_id :: node_id
  e_protocol_version :: int
  e_occurred_at :: time
  e_hub_received_at :: time
  e_payload :: json

text \<open>The parser as a fallible function, for the contract of a token.\<close>

definition event_kind_from_db :: "string \<Rightarrow> (string, event_kind) result" where
  "event_kind_from_db s = ok_or (from_dotted s) (''unknown event kind: '' @ s)"

lemma event_kind_ALL_complete: "k \<in> set event_kind_ALL"
  by (cases k) (simp_all add: event_kind_ALL_def)

lemma from_dotted_as_str [token_simps, simp]: "from_dotted (event_kind_as_str k) = Some k"
  by (cases k) (simp_all add: from_dotted_def event_kind_ALL_def)

lemma from_dotted_SomeD: "from_dotted s = Some k \<Longrightarrow> s = event_kind_as_str k"
  by (auto simp: from_dotted_def dest: find_SomeD)

interpretation kind_tok: token_codec event_kind_as_str event_kind_from_db
  by unfold_locales (auto simp: event_kind_from_db_def ok_or_eq_Inr dest: from_dotted_SomeD)

end
