(* ===== verification/Protocol.thy ===== *)
theory Protocol
  imports Events
begin

text \<open>
  The wire messages between clients, the hub and execution nodes
  (\<open>crates/stackhour-domain/src/protocol.rs\<close>): one datatype per message enum, with the
  source's variants and fields in order, and the constructors and accessors the two
  sides share.
\<close>

definition WIRE_PROTOCOL_VERSION :: int where
  "WIRE_PROTOCOL_VERSION = PROTOCOL_VERSION"

subsection \<open>Shared\<close>

datatype protocol_error =
    VersionMismatch int int          \<comment> \<open>client, hub\<close>
  | Unauthenticated
  | UnknownTask task_id
  | UnknownRun run_id
  | NoEligibleNode string "node_id option"   \<comment> \<open>engine, preferred target\<close>
  | UnknownApproval approval_id
  | Expired
  | InvalidRequest string

subsection \<open>Client and hub\<close>

text \<open>The fields of \<open>StartRun\<close> after its two identifiers, shared with the node's work.\<close>

datatype client_command =
    CreateTask command_id string                                     \<comment> \<open>title\<close>
  | SendUserMessage command_id task_id "run_id option" string string \<comment> \<open>text, client message id\<close>
  | StartRun command_id task_id "node_id option" string "string option" "string option"
      "string option" access_policy "string option"
      \<comment> \<open>engine, model, reasoning effort, system prompt, policy, workspace path\<close>
  | InterruptRun command_id run_id
  | ResolveApproval command_id approval_id decision string           \<comment> \<open>actor\<close>

fun command_id_of :: "client_command \<Rightarrow> command_id" where
  "command_id_of (CreateTask c _) = c"
| "command_id_of (SendUserMessage c _ _ _ _) = c"
| "command_id_of (StartRun c _ _ _ _ _ _ _ _) = c"
| "command_id_of (InterruptRun c _) = c"
| "command_id_of (ResolveApproval c _ _ _) = c"

record subscribe =
  s_token :: "string option"
  s_after_sequence :: "int option"

datatype hub_to_client =
    CommandReceipt command_id bool "int option" "event_id option" "protocol_error option"
      \<comment> \<open>accepted, assigned sequence, event id, error\<close>
  | EventDelivery event
  | SubscribeAck "int option" int                                    \<comment> \<open>after, head\<close>
  | ClientHeartbeat

definition accepted :: "command_id \<Rightarrow> int \<Rightarrow> event_id \<Rightarrow> hub_to_client" where
  "accepted c s e = CommandReceipt c True (Some s) (Some e) None"

definition rejected :: "command_id \<Rightarrow> protocol_error \<Rightarrow> hub_to_client" where
  "rejected c e = CommandReceipt c False None None (Some e)"

subsection \<open>Node and hub\<close>

record node_hello =
  h_node_id :: node_id
  h_token :: string
  h_software_version :: string
  h_protocol_version :: int
  h_capabilities :: json
  h_resume_after_sequence :: "int option"

record hub_welcome =
  w_accepted :: bool
  w_protocol_version :: int
  w_error :: "protocol_error option"

definition welcome_accept :: hub_welcome where
  "welcome_accept =
     \<lparr>w_accepted = True, w_protocol_version = WIRE_PROTOCOL_VERSION, w_error = None\<rparr>"

definition welcome_reject :: "protocol_error \<Rightarrow> hub_welcome" where
  "welcome_reject e =
     \<lparr>w_accepted = False, w_protocol_version = WIRE_PROTOCOL_VERSION, w_error = Some e\<rparr>"

definition negotiate :: "int \<Rightarrow> hub_welcome" where
  "negotiate node_version =
     (if node_version = WIRE_PROTOCOL_VERSION then welcome_accept
      else welcome_reject (VersionMismatch node_version WIRE_PROTOCOL_VERSION))"

datatype node_to_hub =
    NodeEvent event_id event_draft
  | CommandAck command_id
  | NodeHeartbeat

datatype node_work =
    WorkStartRun run_id task_id string "string option" "string option" "string option"
      access_policy "string option"
  | WorkSendPrompt task_id run_id string string   \<comment> \<open>text, client message id\<close>
  | WorkInterruptRun run_id
  | WorkUpdate string                             \<comment> \<open>version\<close>

datatype hub_to_node =
    DispatchCommand command_id "time option" node_work
  | ApprovalDecision approval_id decision string
  | CancelCommand command_id
  | EventAck event_id
  | HubHeartbeat

end
