(* ===== verification/Rows.thy ===== *)
theory Rows
  imports Protocol
begin

text \<open>
  The rows of the hub database and their conversion from and to the domain types
  (\<open>crates/stackhour-domain/src/store.rs\<close>, the schema, the \<open>params!\<close> of the inserts and
  the row mappers). Columns hold what SQLite holds: integers, text and NULL. The text
  forms of UUIDs, timestamps, JSON values and node messages come from the crates \<open>uuid\<close>,
  \<open>chrono\<close>, \<open>serde_json\<close> and \<open>serde\<close>'s derived code; they are the parameter \<open>codec\<close>, over an abstract type of JSON text, and
  \<open>codec_ok\<close> names what the store relies on. The byte comparison of the crate
  \<open>constant_time_eq\<close>, which guards the two links, is one more field of it.
\<close>

subsection \<open>The foreign text forms\<close>

record 'j codec =
  uuid_str :: "uuid \<Rightarrow> string"
  uuid_parse :: "string \<Rightarrow> uuid option"
  time_str :: "time \<Rightarrow> string"
  time_parse :: "string \<Rightarrow> time option"
  json_str :: "json \<Rightarrow> 'j"
  json_parse :: "'j \<Rightarrow> json option"
  msg_str :: "hub_to_node \<Rightarrow> 'j"
  msg_parse :: "'j \<Rightarrow> hub_to_node option"
  ct_eq :: "string \<Rightarrow> string \<Rightarrow> bool"

text \<open>The years 0000 to 9999, the range of RFC 3339.\<close>

definition time_ok :: "time \<Rightarrow> bool" where
  "time_ok t \<longleftrightarrow> -62167219200000000000 \<le> t \<and> t < 253402300800000000000"

text \<open>
  The JSON values that \<open>serde_json\<close> can hold and read back: keys of an object are
  distinct, a negative integer is negative, a double is finite, and the nesting stays
  below the parser's recursion limit of 128.
\<close>

fun json_wf :: "nat \<Rightarrow> json \<Rightarrow> bool" where
  "json_wf n (JArray xs) = (0 < n \<and> list_all (json_wf (n - 1)) xs)"
| "json_wf n (JObject kvs) =
     (0 < n \<and> distinct (map fst kvs) \<and> list_all (\<lambda>kv. json_wf (n - 1) (snd kv)) kvs)"
| "json_wf n (JNum (NegInt w)) = (sint w < 0)"
| "json_wf n (JNum (Float w)) = (take_bit 11 (drop_bit 52 w) \<noteq> 2047)"
| "json_wf n _ = True"

definition json_ok :: "json \<Rightarrow> bool" where
  "json_ok j \<longleftrightarrow> json_wf 127 j"

text \<open>A message whose timestamp has an RFC 3339 form.\<close>

fun msg_ok :: "hub_to_node \<Rightarrow> bool" where
  "msg_ok (DispatchCommand _ (Some t) _) = time_ok t"
| "msg_ok _ = True"

definition codec_ok :: "'j codec \<Rightarrow> bool" where
  "codec_ok c \<longleftrightarrow>
     (\<forall>u. uuid_parse c (uuid_str c u) = Some u) \<and>
     (\<forall>t. time_ok t \<longrightarrow> time_parse c (time_str c t) = Some t) \<and>
     (\<forall>s t. time_ok s \<and> time_ok t \<longrightarrow> (time_str c s \<le> time_str c t \<longleftrightarrow> s \<le> t)) \<and>
     (\<forall>j. json_ok j \<longrightarrow> json_parse c (json_str c j) = Some j) \<and>
     (\<forall>m. msg_ok m \<longrightarrow> msg_parse c (msg_str c m) = Some m) \<and>
     (\<forall>a b. ct_eq c a b \<longleftrightarrow> a = b)"

lemma codec_okD:
  assumes "codec_ok c"
  shows "uuid_parse c (uuid_str c u) = Some u"
    and "time_ok t \<Longrightarrow> time_parse c (time_str c t) = Some t"
    and "time_ok s \<Longrightarrow> time_ok t \<Longrightarrow> time_str c s \<le> time_str c t \<longleftrightarrow> s \<le> t"
    and "json_ok j \<Longrightarrow> json_parse c (json_str c j) = Some j"
    and "msg_ok m \<Longrightarrow> msg_parse c (msg_str c m) = Some m"
    and "ct_eq c a b \<longleftrightarrow> a = b"
  using assms by (simp_all add: codec_ok_def)

lemma uuid_str_inj: "codec_ok c \<Longrightarrow> uuid_str c u = uuid_str c v \<longleftrightarrow> u = v"
  by (metis codec_okD(1) option.inject)

definition fmt_time :: "'j codec \<Rightarrow> time \<Rightarrow> string" where
  "fmt_time c t = time_str c t"

definition parse_time :: "'j codec \<Rightarrow> string \<Rightarrow> (sql_error, time) result" where
  "parse_time c s = ok_or (time_parse c s) (conv_err (''bad timestamp '' @ s))"

text \<open>\<open>Uuid::parse_str\<close> behind \<open>FromStr\<close>, and the two column readers built on it.\<close>

definition req_id :: "'j codec \<Rightarrow> (uuid \<Rightarrow> 'i) \<Rightarrow> string \<Rightarrow> (sql_error, 'i) result" where
  "req_id c mk s = ok_or (map_option mk (uuid_parse c s)) (conv_err s)"

definition opt_id :: "'j codec \<Rightarrow> (uuid \<Rightarrow> 'i) \<Rightarrow> string option \<Rightarrow> (sql_error, 'i option) result" where
  "opt_id c mk v =
     (case v of Some s \<Rightarrow> ok_or (map_option (Some \<circ> mk) (uuid_parse c s)) (conv_err s)
      | None \<Rightarrow> Inr None)"

definition task_id_str :: "'j codec \<Rightarrow> task_id \<Rightarrow> string" where
  "task_id_str c i = uuid_str c (task_uuid i)"

definition run_id_str :: "'j codec \<Rightarrow> run_id \<Rightarrow> string" where
  "run_id_str c i = uuid_str c (run_uuid i)"

definition event_id_str :: "'j codec \<Rightarrow> event_id \<Rightarrow> string" where
  "event_id_str c i = uuid_str c (event_uuid i)"

definition command_id_str :: "'j codec \<Rightarrow> command_id \<Rightarrow> string" where
  "command_id_str c i = uuid_str c (command_uuid i)"

definition approval_id_str :: "'j codec \<Rightarrow> approval_id \<Rightarrow> string" where
  "approval_id_str c i = uuid_str c (approval_uuid i)"

lemmas id_str_defs = task_id_str_def run_id_str_def event_id_str_def command_id_str_def
  approval_id_str_def

lemma id_str_inj:
  assumes "codec_ok c"
  shows "task_id_str c a = task_id_str c a' \<longleftrightarrow> a = a'"
    and "run_id_str c b = run_id_str c b' \<longleftrightarrow> b = b'"
    and "event_id_str c e = event_id_str c e' \<longleftrightarrow> e = e'"
    and "command_id_str c d = command_id_str c d' \<longleftrightarrow> d = d'"
    and "approval_id_str c f = approval_id_str c f' \<longleftrightarrow> f = f'"
  using assms
  by (auto simp: id_str_defs uuid_str_inj intro: task_id.expand run_id.expand event_id.expand
      command_id.expand approval_id.expand)

lemma id_round_trips:
  assumes "codec_ok c"
  shows "req_id c TaskId (task_id_str c a) = Inr a"
    and "req_id c RunId (run_id_str c b) = Inr b"
    and "req_id c EventId (event_id_str c e) = Inr e"
    and "req_id c CommandId (command_id_str c d) = Inr d"
    and "req_id c ApprovalId (approval_id_str c f) = Inr f"
    and "opt_id c RunId (map_option (run_id_str c) ob) = Inr ob"
    and "opt_id c CommandId (map_option (command_id_str c) od) = Inr od"
  using assms
  by (cases ob; cases od; simp add: req_id_def opt_id_def id_str_defs codec_okD)+

lemma time_round_trip:
  assumes "codec_ok c" and "time_ok t"
  shows "parse_time c (fmt_time c t) = Inr t"
  using assms by (simp add: parse_time_def fmt_time_def codec_okD)

subsection \<open>Events\<close>

record 'j event_row =
  ev_sequence :: int
  ev_event_id :: string
  ev_command_id :: "string option"
  ev_kind :: string
  ev_task_id :: string
  ev_run_id :: "string option"
  ev_provider_session_id :: "string option"
  ev_node_id :: string
  ev_protocol_version :: int
  ev_occurred_at :: string
  ev_hub_received_at :: string
  ev_payload :: 'j

definition event_row_of ::
  "'j codec \<Rightarrow> int \<Rightarrow> event_id \<Rightarrow> command_id option \<Rightarrow> event_draft \<Rightarrow> time \<Rightarrow> 'j event_row" where
  "event_row_of c sequence eid cid draft received_at =
     \<lparr>ev_sequence = sequence, ev_event_id = event_id_str c eid,
      ev_command_id = map_option (command_id_str c) cid,
      ev_kind = event_kind_as_str (d_kind draft), ev_task_id = task_id_str c (d_task_id draft),
      ev_run_id = map_option (run_id_str c) (d_run_id draft),
      ev_provider_session_id = d_provider_session_id draft,
      ev_node_id = node_str (d_node_id draft), ev_protocol_version = d_protocol_version draft,
      ev_occurred_at = fmt_time c (d_occurred_at draft),
      ev_hub_received_at = fmt_time c received_at, ev_payload = json_str c (d_payload draft)\<rparr>"

definition row_to_event :: "'j codec \<Rightarrow> 'j event_row \<Rightarrow> (sql_error, event) result" where
  "row_to_event c r =
     bind_res (ok_or (from_dotted (ev_kind r)) (conv_err (''unknown event kind: '' @ ev_kind r))) (\<lambda>kind.
     bind_res (ok_or (json_parse c (ev_payload r)) (conv_err ''bad payload'')) (\<lambda>payload.
     bind_res (req_id c EventId (ev_event_id r)) (\<lambda>eid.
     bind_res (opt_id c CommandId (ev_command_id r)) (\<lambda>cid.
     bind_res (req_id c TaskId (ev_task_id r)) (\<lambda>tid.
     bind_res (opt_id c RunId (ev_run_id r)) (\<lambda>rid.
     bind_res (parse_time c (ev_occurred_at r)) (\<lambda>occ.
     bind_res (parse_time c (ev_hub_received_at r)) (\<lambda>recv.
     Inr \<lparr>e_sequence = ev_sequence r, e_event_id = eid, e_command_id = cid, e_kind = kind,
          e_task_id = tid, e_run_id = rid, e_provider_session_id = ev_provider_session_id r,
          e_node_id = NodeId (ev_node_id r), e_protocol_version = ev_protocol_version r,
          e_occurred_at = occ, e_hub_received_at = recv, e_payload = payload\<rparr>))))))))"

text \<open>The event that a stamped draft stands for.\<close>

definition stamp :: "int \<Rightarrow> event_id \<Rightarrow> command_id option \<Rightarrow> event_draft \<Rightarrow> time \<Rightarrow> event" where
  "stamp sequence eid cid d received_at =
     \<lparr>e_sequence = sequence, e_event_id = eid, e_command_id = cid, e_kind = d_kind d,
      e_task_id = d_task_id d, e_run_id = d_run_id d,
      e_provider_session_id = d_provider_session_id d, e_node_id = d_node_id d,
      e_protocol_version = d_protocol_version d, e_occurred_at = d_occurred_at d,
      e_hub_received_at = received_at, e_payload = d_payload d\<rparr>"

definition draft_ok :: "event_draft \<Rightarrow> bool" where
  "draft_ok d \<longleftrightarrow> time_ok (d_occurred_at d) \<and> json_ok (d_payload d)"

lemma row_to_event_of:
  assumes "codec_ok c" and "draft_ok d" and "time_ok recv"
  shows "row_to_event c (event_row_of c s e cid d recv) = Inr (stamp s e cid d recv)"
  using assms
  by (simp add: row_to_event_def event_row_of_def stamp_def draft_ok_def id_round_trips
      time_round_trip codec_okD)

subsection \<open>Tasks\<close>

record task_row =
  tk_task_id :: string
  tk_title :: string
  tk_status :: string
  tk_created_at :: string

definition task_row_of :: "'j codec \<Rightarrow> task \<Rightarrow> task_row" where
  "task_row_of c t =
     \<lparr>tk_task_id = task_id_str c (t_id t), tk_title = t_title t,
      tk_status = task_status_as_str (t_status t), tk_created_at = fmt_time c (t_created_at t)\<rparr>"

definition status_err :: "(string, 'a) result \<Rightarrow> (sql_error, 'a) result" where
  "status_err r = (case r of Inl m \<Rightarrow> Inl (conv_err m) | Inr x \<Rightarrow> Inr x)"

lemma status_err_Inr [simp]: "status_err (Inr x) = Inr x"
  by (simp add: status_err_def)

definition row_to_task :: "'j codec \<Rightarrow> task_row \<Rightarrow> (sql_error, task) result" where
  "row_to_task c r =
     bind_res (req_id c TaskId (tk_task_id r)) (\<lambda>tid.
     bind_res (status_err (task_status_from_db (tk_status r))) (\<lambda>st.
     bind_res (parse_time c (tk_created_at r)) (\<lambda>cr.
     Inr \<lparr>t_id = tid, t_title = tk_title r, t_status = st, t_created_at = cr\<rparr>)))"

lemma row_to_task_of:
  assumes "codec_ok c" and "time_ok (t_created_at t)"
  shows "row_to_task c (task_row_of c t) = Inr t"
  using assms by (simp add: row_to_task_def task_row_of_def id_round_trips time_round_trip)

subsection \<open>Runs\<close>

record run_row =
  rn_run_id :: string
  rn_task_id :: string
  rn_node_id :: string
  rn_engine :: string
  rn_model :: "string option"
  rn_reasoning_effort :: "string option"
  rn_system_prompt :: "string option"
  rn_access_policy :: string
  rn_workspace_path :: "string option"
  rn_status :: string
  rn_started_at :: string

definition run_row_of :: "'j codec \<Rightarrow> run \<Rightarrow> run_row" where
  "run_row_of c r =
     \<lparr>rn_run_id = run_id_str c (r_id r), rn_task_id = task_id_str c (r_task_id r),
      rn_node_id = node_str (r_node_id r), rn_engine = r_engine r, rn_model = r_model r,
      rn_reasoning_effort = r_reasoning_effort r, rn_system_prompt = r_system_prompt r,
      rn_access_policy = access_policy_as_str (r_access_policy r),
      rn_workspace_path = r_workspace_path r, rn_status = run_status_as_str (r_status r),
      rn_started_at = fmt_time c (r_started_at r)\<rparr>"

definition row_to_run :: "'j codec \<Rightarrow> run_row \<Rightarrow> (sql_error, run) result" where
  "row_to_run c r =
     bind_res (req_id c RunId (rn_run_id r)) (\<lambda>rid.
     bind_res (req_id c TaskId (rn_task_id r)) (\<lambda>tid.
     bind_res (status_err (access_policy_from_db (rn_access_policy r))) (\<lambda>pol.
     bind_res (status_err (run_status_from_db (rn_status r))) (\<lambda>st.
     bind_res (parse_time c (rn_started_at r)) (\<lambda>started.
     Inr \<lparr>r_id = rid, r_task_id = tid, r_node_id = NodeId (rn_node_id r),
          r_engine = rn_engine r, r_model = rn_model r,
          r_reasoning_effort = rn_reasoning_effort r, r_system_prompt = rn_system_prompt r,
          r_access_policy = pol, r_workspace_path = rn_workspace_path r, r_status = st,
          r_started_at = started\<rparr>)))))"

lemma row_to_run_of:
  assumes "codec_ok c" and "time_ok (r_started_at r)"
  shows "row_to_run c (run_row_of c r) = Inr r"
  using assms by (simp add: row_to_run_def run_row_of_def id_round_trips time_round_trip)

subsection \<open>Approvals\<close>

record 'j approval_row =
  ap_approval_id :: string
  ap_run_id :: string
  ap_task_id :: string
  ap_tool_call_id :: string
  ap_scope :: string
  ap_options :: 'j
  ap_expires_at :: "string option"
  ap_decision :: string
  ap_resolved_by :: "string option"
  ap_created_at :: string
  ap_resolved_at :: "string option"

text \<open>A \<open>Vec<String>\<close> as JSON text and back.\<close>

definition strings_str :: "'j codec \<Rightarrow> string list \<Rightarrow> 'j" where
  "strings_str c xs = json_str c (JArray (map JString xs))"

definition strings_parse :: "'j codec \<Rightarrow> 'j \<Rightarrow> string list option" where
  "strings_parse c s =
     (case json_parse c s of
        Some (JArray xs) \<Rightarrow>
          (if list_all (\<lambda>x. as_str x \<noteq> None) xs then Some (map (\<lambda>x. the (as_str x)) xs) else None)
      | _ \<Rightarrow> None)"

lemma strings_round_trip: "codec_ok c \<Longrightarrow> strings_parse c (strings_str c xs) = Some xs"
  by (simp add: strings_parse_def strings_str_def codec_okD json_ok_def list_all_iff comp_def)

text \<open>The row \<open>request_approval\<close> inserts: the two resolution columns are NULL.\<close>

definition approval_row_of :: "'j codec \<Rightarrow> approval \<Rightarrow> 'j approval_row" where
  "approval_row_of c a =
     \<lparr>ap_approval_id = approval_id_str c (a_id a), ap_run_id = run_id_str c (a_run_id a),
      ap_task_id = task_id_str c (a_task_id a), ap_tool_call_id = a_tool_call_id a,
      ap_scope = a_scope a, ap_options = strings_str c (a_options a),
      ap_expires_at = map_option (fmt_time c) (a_expires_at a),
      ap_decision = decision_as_str (a_decision a), ap_resolved_by = None,
      ap_created_at = fmt_time c (a_created_at a), ap_resolved_at = None\<rparr>"

definition opt_time :: "'j codec \<Rightarrow> string option \<Rightarrow> (sql_error, time option) result" where
  "opt_time c v =
     (case v of None \<Rightarrow> Inr None | Some s \<Rightarrow> bind_res (parse_time c s) (\<lambda>t. Inr (Some t)))"

definition row_to_approval :: "'j codec \<Rightarrow> 'j approval_row \<Rightarrow> (sql_error, approval) result" where
  "row_to_approval c r =
     bind_res (ok_or (strings_parse c (ap_options r)) (conv_err ''bad options'')) (\<lambda>opts.
     bind_res (req_id c ApprovalId (ap_approval_id r)) (\<lambda>aid.
     bind_res (req_id c RunId (ap_run_id r)) (\<lambda>rid.
     bind_res (req_id c TaskId (ap_task_id r)) (\<lambda>tid.
     bind_res (opt_time c (ap_expires_at r)) (\<lambda>exp.
     bind_res (status_err (decision_from_db (ap_decision r))) (\<lambda>dec.
     bind_res (parse_time c (ap_created_at r)) (\<lambda>cr.
     bind_res (opt_time c (ap_resolved_at r)) (\<lambda>res.
     Inr \<lparr>a_id = aid, a_run_id = rid, a_task_id = tid, a_tool_call_id = ap_tool_call_id r,
          a_scope = ap_scope r, a_options = opts, a_expires_at = exp, a_decision = dec,
          a_resolved_by = ap_resolved_by r, a_created_at = cr, a_resolved_at = res\<rparr>))))))))"

definition opt_time_ok :: "time option \<Rightarrow> bool" where
  "opt_time_ok t = (case t of None \<Rightarrow> True | Some t \<Rightarrow> time_ok t)"

lemma opt_time_round_trip:
  "codec_ok c \<Longrightarrow> opt_time_ok t \<Longrightarrow> opt_time c (map_option (fmt_time c) t) = Inr t"
  by (cases t) (simp_all add: opt_time_def opt_time_ok_def time_round_trip)

subsection \<open>Nodes\<close>

record 'j node_row =
  nd_node_id :: string
  nd_label :: string
  nd_status :: string
  nd_software_version :: string
  nd_capabilities :: 'j
  nd_last_seen_sequence :: "int option"

definition node_row_of :: "'j codec \<Rightarrow> node \<Rightarrow> 'j node_row" where
  "node_row_of c n =
     \<lparr>nd_node_id = node_str (n_id n), nd_label = n_label n,
      nd_status = connection_status_as_str (n_status n),
      nd_software_version = n_software_version n, nd_capabilities = json_str c (n_capabilities n),
      nd_last_seen_sequence = n_last_seen_sequence n\<rparr>"

definition row_to_node :: "'j codec \<Rightarrow> 'j node_row \<Rightarrow> (sql_error, node) result" where
  "row_to_node c r =
     bind_res (ok_or (json_parse c (nd_capabilities r)) (conv_err ''bad capabilities'')) (\<lambda>caps.
     bind_res (status_err (connection_status_from_db (nd_status r))) (\<lambda>st.
     Inr \<lparr>n_id = NodeId (nd_node_id r), n_label = nd_label r, n_status = st,
          n_software_version = nd_software_version r, n_capabilities = caps,
          n_last_seen_sequence = nd_last_seen_sequence r\<rparr>))"

lemma row_to_node_of:
  "codec_ok c \<Longrightarrow> json_ok (n_capabilities n) \<Longrightarrow> row_to_node c (node_row_of c n) = Inr n"
  by (simp add: row_to_node_def node_row_of_def codec_okD)

subsection \<open>Receipts, dispatches, settings and wakes\<close>

record receipt_row =
  rc_command_id :: string
  rc_sequence :: int
  rc_event_id :: string
  rc_received_at :: string

record 'j dispatch_row =
  pd_command_id :: string
  pd_node_id :: string
  pd_message :: 'j
  pd_created_at :: string
  pd_acked_at :: "string option"

record 'j setting_row =
  cs_key :: string
  cs_value :: 'j
  cs_updated_at :: string

record worker_row =
  aw_task_id :: string
  aw_channel :: string
  aw_created_at :: string

record wake_row =
  wk_event_id :: string
  wk_sequence :: int
  wk_channel :: string
  wk_task_id :: string
  wk_run_id :: string
  wk_kind :: string
  wk_created_at :: string
  wk_attempt_count :: int
  wk_next_attempt_at :: string
  wk_last_error :: "string option"
  wk_processed_at :: "string option"

end
