(* ===== verification/Validate.thy ===== *)
theory Validate
  imports Rows "HOL-Library.Sublist"
begin

text \<open>
  The checks that guard what enters the hub (\<open>crates/stackhour-hub/src/lib.rs\<close>): text and
  identifier limits, the assistant and update settings, a run's configuration, the
  engines a node offers, the bearer header, and the argument vector of the installer
  that the hub starts.
\<close>

subsection \<open>Texts\<close>

definition validate_text :: "string \<Rightarrow> string \<Rightarrow> nat \<Rightarrow> (string, unit) result" where
  "validate_text label value limit =
     (if trim_is_empty value then Inl (label @ '' must not be blank'')
      else if length (chars value) > limit \<or> list_ex is_control (chars value) then
        Inl (label @ '' is invalid or longer than '' @ nat_str limit @ '' characters'')
      else Inr ())"

text \<open>\<open>ch.is_ascii_alphanumeric() || matches!(ch, '.' | '_' | '-' | '/' | ':')\<close>.\<close>

definition identifier_char :: "nat \<Rightarrow> bool" where
  "identifier_char ch \<longleftrightarrow>
     is_ascii_alphanumeric ch \<or> ch = 46 \<or> ch = 95 \<or> ch = 45 \<or> ch = 47 \<or> ch = 58"

definition validate_identifier :: "string \<Rightarrow> string \<Rightarrow> (string, unit) result" where
  "validate_identifier label value =
     bind_res (validate_text label value 200) (\<lambda>_.
       if list_ex (\<lambda>ch. \<not> identifier_char ch) (chars value) then
         Inl (label @ '' contains unsupported characters'')
       else Inr ())"

subsection \<open>Settings\<close>

record update_settings =
  automatic :: bool
  interval_hours :: "16 word"
  include_nodes :: bool

definition update_settings_default :: update_settings where
  "update_settings_default = \<lparr>automatic = False, interval_hours = 24, include_nodes = True\<rparr>"

definition update_settings_validate :: "update_settings \<Rightarrow> (string, unit) result" where
  "update_settings_validate s =
     (if \<not> (1 \<le> interval_hours s \<and> interval_hours s \<le> 168) then
        Inl ''interval_hours must be between 1 and 168''
      else Inr ())"

record assistant_settings =
  as_name :: string
  as_personality :: string
  as_engine :: string
  as_claude_model :: "string option"
  as_codex_model :: "string option"
  as_reasoning_effort :: string
  as_workspace :: "string option"
  as_memory_enabled :: bool
  as_memory_command :: "string option"
  as_memory_dir :: "string option"

definition CLAIRE_PERSONALITY :: string where
  "CLAIRE_PERSONALITY =
     ''You are Claire, Nikita's personal operations assistant. '' @
     ''You are warm, composed, candid, lightly witty, and economical with words. You remember context, '' @
     ''take ownership of follow-through, and distinguish clearly between what you know, what you inferred, '' @
     ''and what you changed. You coordinate Stackhour tasks and coding agents; do not pretend work happened '' @
     ''until a durable Stackhour event confirms it.''"

definition assistant_settings_default :: assistant_settings where
  "assistant_settings_default =
     \<lparr>as_name = ''Claire'', as_personality = CLAIRE_PERSONALITY, as_engine = ''claude'',
      as_claude_model = None, as_codex_model = None, as_reasoning_effort = ''high'',
      as_workspace = None, as_memory_enabled = False, as_memory_command = None,
      as_memory_dir = None\<rparr>"

definition assistant_model :: "assistant_settings \<Rightarrow> string option" where
  "assistant_model s =
     (if as_engine s = ''claude'' then as_claude_model s
      else if as_engine s = ''codex'' then as_codex_model s
      else None)"

text \<open>The two loops over labelled optional values, stopping at the first error.\<close>

fun each_some :: "(string \<Rightarrow> string \<Rightarrow> (string, unit) result) \<Rightarrow> (string \<times> string option) list
    \<Rightarrow> (string, unit) result" where
  "each_some f [] = Inr ()"
| "each_some f ((label, None) # rest) = each_some f rest"
| "each_some f ((label, Some v) # rest) = bind_res (f label v) (\<lambda>_. each_some f rest)"

definition validate_path :: "string \<Rightarrow> string \<Rightarrow> (string, unit) result" where
  "validate_path label value =
     bind_res (validate_text label value 1024) (\<lambda>_.
       if \<not> path_is_absolute value then Inl (label @ '' must be an absolute path'') else Inr ())"

definition assistant_settings_validate :: "assistant_settings \<Rightarrow> (string, unit) result" where
  "assistant_settings_validate s =
     bind_res (validate_text ''name'' (as_name s) 40) (\<lambda>_.
     bind_res (validate_text ''personality'' (as_personality s) 16000) (\<lambda>_.
     if as_engine s \<notin> {''claude'', ''codex''} then Inl ''engine must be claude or codex''
     else if as_reasoning_effort s \<notin> {''low'', ''medium'', ''high''} then
       Inl ''reasoning_effort must be low, medium, or high''
     else
     bind_res (each_some validate_identifier
        [(''claude_model'', as_claude_model s), (''codex_model'', as_codex_model s)]) (\<lambda>_.
     bind_res (each_some validate_path
        [(''workspace'', as_workspace s), (''memory_command'', as_memory_command s),
         (''memory_dir'', as_memory_dir s)]) (\<lambda>_.
     if as_memory_enabled s \<and> as_memory_command s = None then
       Inl ''memory_command is required when OptMem is enabled''
     else Inr ()))))"

subsection \<open>Runs and nodes\<close>

definition nul :: char where
  "nul = CHR 0x00"

definition validate_run_configuration ::
  "string \<Rightarrow> string option \<Rightarrow> string option \<Rightarrow> string option \<Rightarrow> string option \<Rightarrow> (string, unit) result" where
  "validate_run_configuration engine model reasoning_effort system_prompt workspace_path =
     bind_res (validate_identifier ''engine'' engine) (\<lambda>_.
     bind_res (case model of None \<Rightarrow> Inr () | Some v \<Rightarrow> validate_identifier ''model'' v) (\<lambda>_.
     bind_res (case reasoning_effort of None \<Rightarrow> Inr ()
        | Some e \<Rightarrow> if e \<notin> {''low'', ''medium'', ''high''} then
            Inl ''reasoning_effort must be low, medium, or high'' else Inr ()) (\<lambda>_.
     bind_res (case system_prompt of None \<Rightarrow> Inr ()
        | Some p \<Rightarrow> if p = [] \<or> length p > 128 * 1024 \<or> nul \<in> set p then
            Inl ''system_prompt is empty, too large, or contains NUL'' else Inr ()) (\<lambda>_.
     case workspace_path of None \<Rightarrow> Inr ()
        | Some p \<Rightarrow> if \<not> path_is_absolute p \<or> nul \<in> set p then
            Inl ''workspace_path must be an absolute path'' else Inr ()))))"

definition node_accepts_engine :: "json \<Rightarrow> string \<Rightarrow> bool" where
  "node_accepts_engine capabilities engine =
     (if Option.bind (json_get capabilities ''accepts_tasks'') as_bool = Some False then False
      else (case Option.bind (json_get capabilities ''engines'') as_array of
              None \<Rightarrow> False
            | Some engines \<Rightarrow> list_ex (\<lambda>value. as_str value = Some engine) engines)
        \<or> Option.bind (json_get capabilities engine) as_bool = Some True)"

text \<open>\<open>HeaderValue::to_str\<close> is the argument \<open>to_str\<close>.\<close>

definition bearer :: "(string \<Rightarrow> string option) \<Rightarrow> string option \<Rightarrow> string option" where
  "bearer to_str authorization =
     (case Option.bind (Option.bind authorization to_str) (strip_prefix ''Bearer '') of
        None \<Rightarrow> None
      | Some token \<Rightarrow> if token = [] then None else Some token)"

subsection \<open>The installer's arguments\<close>

datatype install_mode = Local | Ssh

record install_request =
  i_mode :: install_mode
  i_node_id :: string
  i_hub_url :: string
  i_workspace :: "string option"
  i_claude_bin :: "string option"
  i_codex_bin :: "string option"
  i_host :: "string option"
  i_user :: "string option"
  i_port :: "16 word option"
  i_identity :: "string option"

text \<open>A control character, or one of \<open>' " ` $ ; | &\<close>.\<close>

definition unsafe_char :: "nat \<Rightarrow> bool" where
  "unsafe_char ch \<longleftrightarrow>
     is_control ch \<or> ch = 39 \<or> ch = 34 \<or> ch = 96 \<or> ch = 36 \<or> ch = 59 \<or> ch = 124 \<or> ch = 38"

definition safe_identifier :: "string \<Rightarrow> string \<Rightarrow> (string, unit) result" where
  "safe_identifier label value =
     (if trim_is_empty value \<or> length value > 200 \<or> list_ex unsafe_char (chars value) then
        Inl (label @ '' contains unsafe characters'')
      else Inr ())"

definition option_arg :: "string \<Rightarrow> string \<Rightarrow> string" where
  "option_arg name value = ''--'' @ name @ ''='' @ value"

definition push_option :: "string list \<Rightarrow> string \<Rightarrow> string option \<Rightarrow> string list" where
  "push_option args name value =
     (case value of
        None \<Rightarrow> args
      | Some v \<Rightarrow> if trim_is_empty v then args else args @ [option_arg name v])"

definition install_args :: "install_request \<Rightarrow> (string, string list) result" where
  "install_args r =
     bind_res (safe_identifier ''node id'' (i_node_id r)) (\<lambda>_.
     if \<not> starts_with ''ws://'' (i_hub_url r) \<and> \<not> starts_with ''wss://'' (i_hub_url r) then
       Inl ''hub URL must use ws or wss''
     else
       let args = [''control'', ''install'', (case i_mode r of Local \<Rightarrow> ''node'' | Ssh \<Rightarrow> ''ssh''),
                   option_arg ''hub-url'' (i_hub_url r), option_arg ''id'' (i_node_id r)];
           args = push_option args ''workspace'' (i_workspace r);
           args = push_option args ''claude-bin'' (i_claude_bin r);
           args = push_option args ''codex-bin'' (i_codex_bin r)
       in case i_mode r of
            Local \<Rightarrow> Inr args
          | Ssh \<Rightarrow>
              bind_res (ok_or (i_host r) ''SSH host is required'') (\<lambda>host.
              bind_res (safe_identifier ''SSH host'' host) (\<lambda>_.
              let args = args @ [option_arg ''host'' host] in
              bind_res (case i_user r of
                  None \<Rightarrow> Inr args
                | Some user \<Rightarrow> bind_res (safe_identifier ''SSH user'' user)
                    (\<lambda>_. Inr (args @ [option_arg ''user'' user]))) (\<lambda>args.
              bind_res (case i_port r of
                  None \<Rightarrow> Inr args
                | Some port \<Rightarrow>
                    if port = 0 then Inl ''SSH port must be between 1 and 65535''
                    else Inr (args @ [option_arg ''port'' (nat_str (unat port))])) (\<lambda>args.
              Inr (push_option args ''identity'' (i_identity r)))))))"

text \<open>The version that \<open>schedule_local_update\<close> passes to the service manager.\<close>

definition update_version_char :: "nat \<Rightarrow> bool" where
  "update_version_char ch \<longleftrightarrow> is_ascii_alphanumeric ch \<or> ch = 46 \<or> ch = 45 \<or> ch = 43"

definition check_update_version :: "string \<Rightarrow> (string, unit) result" where
  "check_update_version version =
     (if version = [] \<or> length version > 80 \<or> list_ex (\<lambda>ch. \<not> update_version_char ch) (chars version)
      then Inl ''official update version is invalid'' else Inr ())"

subsection \<open>What the checks let through\<close>

lemma validate_text_ok:
  "validate_text label v n = Inr () \<longleftrightarrow>
     \<not> trim_is_empty v \<and> length (chars v) \<le> n \<and> (\<forall>ch \<in> set (chars v). \<not> is_control ch)"
  by (auto simp: validate_text_def list_ex_iff)

lemma identifier_char_no_control: "identifier_char ch \<Longrightarrow> \<not> is_control ch"
  by (auto simp: identifier_char_def is_ascii_alphanumeric_def is_ascii_digit_def is_control_def)

lemma validate_identifier_ok:
  "validate_identifier label v = Inr () \<longleftrightarrow>
     \<not> trim_is_empty v \<and> length (chars v) \<le> 200 \<and> (\<forall>ch \<in> set (chars v). identifier_char ch)"
  by (auto simp: validate_identifier_def bind_res_eq_Inr validate_text_ok list_ex_iff
      dest: identifier_char_no_control)

lemma safe_identifier_ok:
  "safe_identifier label v = Inr () \<longleftrightarrow>
     \<not> trim_is_empty v \<and> length v \<le> 200 \<and> (\<forall>ch \<in> set (chars v). \<not> unsafe_char ch)"
  by (auto simp: safe_identifier_def list_ex_iff)

text \<open>What a run needs to be dispatched.\<close>

definition run_configuration_ok ::
  "string \<Rightarrow> string option \<Rightarrow> string option \<Rightarrow> string option \<Rightarrow> string option \<Rightarrow> bool" where
  "run_configuration_ok engine model effort prompt path \<longleftrightarrow>
     (\<forall>v. v = engine \<or> model = Some v \<longrightarrow>
        \<not> trim_is_empty v \<and> length (chars v) \<le> 200 \<and> (\<forall>ch \<in> set (chars v). identifier_char ch)) \<and>
     effort \<in> {None, Some ''low'', Some ''medium'', Some ''high''} \<and>
     (\<forall>p. prompt = Some p \<longrightarrow> p \<noteq> [] \<and> length p \<le> 131072 \<and> nul \<notin> set p) \<and>
     (\<forall>p. path = Some p \<longrightarrow> path_is_absolute p \<and> nul \<notin> set p)"

lemma validate_run_configuration_ok:
  "validate_run_configuration engine model effort prompt path = Inr () \<longleftrightarrow>
     run_configuration_ok engine model effort prompt path"
  unfolding validate_run_configuration_def run_configuration_ok_def bind_res_eq_Inr
  by (cases model; cases effort; cases prompt; cases path) (auto simp: validate_identifier_ok)

text \<open>An option as a name and a value.\<close>

definition opt_pair :: "string \<Rightarrow> string option \<Rightarrow> (string \<times> string) list" where
  "opt_pair name value =
     (case value of None \<Rightarrow> [] | Some v \<Rightarrow> if trim_is_empty v then [] else [(name, v)])"

definition to_args :: "(string \<times> string) list \<Rightarrow> string list" where
  "to_args = map (\<lambda>(name, v). option_arg name v)"

lemma to_args_simps [simp]:
  "to_args [] = []" "to_args ((n, v) # xs) = option_arg n v # to_args xs"
  "to_args (xs @ ys) = to_args xs @ to_args ys"
  by (simp_all add: to_args_def)

lemma push_option_eq: "push_option args name value = args @ to_args (opt_pair name value)"
  by (simp add: push_option_def opt_pair_def split: option.splits)

definition user_pair :: "string option \<Rightarrow> (string \<times> string) list" where
  "user_pair user = (case user of None \<Rightarrow> [] | Some u \<Rightarrow> [(''user'', u)])"

definition port_pair :: "16 word option \<Rightarrow> (string \<times> string) list" where
  "port_pair port = (case port of None \<Rightarrow> [] | Some p \<Rightarrow> [(''port'', nat_str (unat p))])"

definition local_pairs :: "install_request \<Rightarrow> (string \<times> string) list" where
  "local_pairs r =
     [(''hub-url'', i_hub_url r), (''id'', i_node_id r)] @ opt_pair ''workspace'' (i_workspace r)
     @ opt_pair ''claude-bin'' (i_claude_bin r) @ opt_pair ''codex-bin'' (i_codex_bin r)"

lemma install_args_Local:
  "i_mode r = Local \<Longrightarrow> install_args r = Inr args \<longleftrightarrow>
     safe_identifier ''node id'' (i_node_id r) = Inr () \<and>
     (starts_with ''ws://'' (i_hub_url r) \<or> starts_with ''wss://'' (i_hub_url r)) \<and>
     args = [''control'', ''install'', ''node''] @ to_args (local_pairs r)"
  by (auto simp: install_args_def bind_res_eq_Inr push_option_eq local_pairs_def Let_def)

lemma install_args_Ssh:
  "i_mode r = Ssh \<Longrightarrow> install_args r = Inr args \<longleftrightarrow>
     safe_identifier ''node id'' (i_node_id r) = Inr () \<and>
     (starts_with ''ws://'' (i_hub_url r) \<or> starts_with ''wss://'' (i_hub_url r)) \<and>
     (\<exists>host. i_host r = Some host \<and> safe_identifier ''SSH host'' host = Inr () \<and>
        (\<forall>u. i_user r = Some u \<longrightarrow> safe_identifier ''SSH user'' u = Inr ()) \<and> i_port r \<noteq> Some 0 \<and>
        args = [''control'', ''install'', ''ssh''] @ to_args (local_pairs r @ [(''host'', host)]
          @ user_pair (i_user r) @ port_pair (i_port r) @ opt_pair ''identity'' (i_identity r)))"
  by (cases "i_user r"; cases "i_port r")
    (auto simp: install_args_def bind_res_eq_Inr ok_or_eq_Inr push_option_eq local_pairs_def Let_def
      user_pair_def port_pair_def)

definition install_option_names :: "string list" where
  "install_option_names =
     [''hub-url'', ''id'', ''workspace'', ''claude-bin'', ''codex-bin'', ''host'', ''user'', ''port'',
      ''identity'']"

lemma subseq_pairs:
  "subseq (map fst (opt_pair n v)) [n]" "subseq (map fst (user_pair u)) [''user'']"
  "subseq (map fst (port_pair p)) [''port'']"
  by (simp_all add: opt_pair_def user_pair_def port_pair_def split: option.splits)

lemma subseq_local_pairs:
  "subseq (map fst (local_pairs r)) [''hub-url'', ''id'', ''workspace'', ''claude-bin'', ''codex-bin'']"
proof -
  have "subseq ([''hub-url'', ''id''] @ map fst (opt_pair ''workspace'' (i_workspace r))
      @ map fst (opt_pair ''claude-bin'' (i_claude_bin r)) @ map fst (opt_pair ''codex-bin'' (i_codex_bin r)))
    ([''hub-url'', ''id''] @ [''workspace''] @ [''claude-bin''] @ [''codex-bin''])"
    by (intro list_emb_append_mono subseq_pairs subseq_order.order_refl)
  then show ?thesis by (simp add: local_pairs_def)
qed

lemma subseq_ssh_pairs:
  "subseq (map fst (local_pairs r @ [(''host'', host)] @ user_pair (i_user r) @ port_pair (i_port r)
      @ opt_pair ''identity'' (i_identity r))) install_option_names"
proof -
  have "subseq (map fst (local_pairs r) @ [''host''] @ map fst (user_pair (i_user r))
      @ map fst (port_pair (i_port r)) @ map fst (opt_pair ''identity'' (i_identity r)))
    ([''hub-url'', ''id'', ''workspace'', ''claude-bin'', ''codex-bin''] @ [''host''] @ [''user'']
      @ [''port''] @ [''identity''])"
    by (intro list_emb_append_mono subseq_pairs subseq_local_pairs subseq_order.order_refl)
  then show ?thesis by (simp add: install_option_names_def)
qed

lemma opt_pair_value: "(name, v) \<in> set (opt_pair n x) \<Longrightarrow> name = n"
  by (auto simp: opt_pair_def split: option.splits if_splits)

text \<open>A value without control characters and without the characters a shell gives meaning to.\<close>

definition shell_inert :: "string \<Rightarrow> bool" where
  "shell_inert v \<longleftrightarrow> \<not> trim_is_empty v \<and> length v \<le> 200 \<and> (\<forall>ch \<in> set (chars v). \<not> unsafe_char ch)"

lemma safe_identifier_inert: "safe_identifier label v = Inr () \<longleftrightarrow> shell_inert v"
  by (simp add: safe_identifier_ok shell_inert_def)

text \<open>The argument vector that the hub hands to its installer keeps its shape whatever the
  request holds: the fixed subcommand, then options of known names, each at most once and in a
  fixed order, each carrying its value inside the same argument, so no value of the request can
  turn into an option or a subcommand. The node id, the host and the user name hold no shell
  metacharacter, and the hub address uses a WebSocket scheme.\<close>

theorem install_args_keep_shape:
  assumes "install_args r = Inr args"
  shows "\<exists>pairs. args = [''control'', ''install'', case i_mode r of Local \<Rightarrow> ''node'' | Ssh \<Rightarrow> ''ssh'']
      @ to_args pairs
    \<and> subseq (map fst pairs) install_option_names
    \<and> (\<forall>(name, v) \<in> set pairs. name \<in> {''id'', ''host'', ''user''} \<longrightarrow> shell_inert v)
    \<and> (\<forall>(name, v) \<in> set pairs. name = ''hub-url'' \<longrightarrow> starts_with ''ws://'' v \<or> starts_with ''wss://'' v)"
proof (cases "i_mode r")
  case Local
  have "subseq (map fst (local_pairs r))
      ([''hub-url'', ''id'', ''workspace'', ''claude-bin'', ''codex-bin''] @ [''host'', ''user'', ''port'', ''identity''])"
    by (rule list_emb_prefix [OF subseq_local_pairs])
  then have "subseq (map fst (local_pairs r)) install_option_names"
    by (simp add: install_option_names_def)
  with assms Local show ?thesis
    by (intro exI [of _ "local_pairs r"])
      (auto simp: install_args_Local safe_identifier_inert local_pairs_def dest: opt_pair_value)
next
  case Ssh
  then obtain host where
    args: "args = [''control'', ''install'', ''ssh''] @ to_args (local_pairs r @ [(''host'', host)]
      @ user_pair (i_user r) @ port_pair (i_port r) @ opt_pair ''identity'' (i_identity r))"
    and safe: "shell_inert (i_node_id r)" "shell_inert host" "\<forall>u. i_user r = Some u \<longrightarrow> shell_inert u"
      "starts_with ''ws://'' (i_hub_url r) \<or> starts_with ''wss://'' (i_hub_url r)"
    using assms by (auto simp: install_args_Ssh safe_identifier_inert)
  let ?pairs = "local_pairs r @ [(''host'', host)] @ user_pair (i_user r) @ port_pair (i_port r)
      @ opt_pair ''identity'' (i_identity r)"
  have "\<forall>(name, v) \<in> set ?pairs. name \<in> {''id'', ''host'', ''user''} \<longrightarrow> shell_inert v"
    using safe(1-3)
    by (auto simp: local_pairs_def user_pair_def port_pair_def dest!: opt_pair_value split: option.splits)
  moreover have "\<forall>(name, v) \<in> set ?pairs. name = ''hub-url'' \<longrightarrow>
      starts_with ''ws://'' v \<or> starts_with ''wss://'' v"
    using safe(4)
    by (auto simp: local_pairs_def user_pair_def port_pair_def dest!: opt_pair_value split: option.splits)
  ultimately show ?thesis
    using args Ssh subseq_ssh_pairs [of r host] by (intro exI [of _ ?pairs]) simp
qed

definition demo_install :: install_request where
  "demo_install =
     \<lparr>i_mode = Ssh, i_node_id = ''dev-box'', i_hub_url = ''wss://hub.example'', i_workspace = None,
      i_claude_bin = None, i_codex_bin = None, i_host = Some ''10.0.0.7'', i_user = Some ''dev'',
      i_port = Some 22, i_identity = None\<rparr>"

lemma demo_install_args:
  "install_args demo_install =
     Inr [''control'', ''install'', ''ssh'', ''--hub-url=wss://hub.example'', ''--id=dev-box'',
          ''--host=10.0.0.7'', ''--user=dev'', ''--port=22'']"
  by code_simp

theorem install_args_keep_shape_witness:
  "\<exists>pairs. [''control'', ''install'', ''ssh'', ''--hub-url=wss://hub.example'', ''--id=dev-box'',
        ''--host=10.0.0.7'', ''--user=dev'', ''--port=22'']
      = [''control'', ''install'', ''ssh''] @ to_args pairs
    \<and> subseq (map fst pairs) install_option_names"
  using install_args_keep_shape [OF demo_install_args] by (auto simp: demo_install_def)

end
