(* ===== verification/Store.thy ===== *)
theory Store
  imports Rows
begin

text \<open>
  The durable store of the hub (\<open>crates/stackhour-domain/src/store.rs\<close>, \<open>struct Hub\<close>).
  The database is one list of rows per table, in rowid order. Every operation of \<open>Hub\<close>
  is one definition over the tables: the SQL text it runs, its early returns and its
  errors. Freshly minted UUIDs and the clock are arguments. SQLite may report a failure
  at any statement: the argument \<open>io\<close> of type \<open>faults\<close> says which statements of the
  call fail, and how. A transaction that is not committed leaves the database as it was.
\<close>

subsection \<open>Statements, faults and transactions\<close>

datatype stmt =
    S_Begin | S_Commit | S_SelectReceipt | S_NextSequence | S_InsertEvent | S_InsertReceipt
  | S_InsertTask | S_InsertRun | S_UpdateTask | S_UpdateRun | S_InsertDispatch
  | S_SelectDispatches | S_AckDispatch | S_Head | S_SelectEvent | S_SelectEvents
  | S_SelectTask | S_SelectRun | S_SelectSetting | S_PutSetting | S_RegisterWorker
  | S_SelectWorker | S_InsertWake | S_SelectWakes | S_CompleteWake | S_SelectWake | S_DeferWake
  | S_InsertApproval | S_SelectApproval | S_UpdateApproval | S_UpsertNode | S_SelectNode
  | S_SelectNodes

type_synonym faults = "stmt \<Rightarrow> sql_error option"

definition no_faults :: faults where
  "no_faults = (\<lambda>_. None)"

definition exec :: "faults \<Rightarrow> stmt \<Rightarrow> (error, 'a) result \<Rightarrow> (error, 'a) result" where
  "exec io st r = (case io st of Some e \<Rightarrow> Inl (sql_err e) | None \<Rightarrow> r)"

text \<open>
  \<open>transaction_with_behavior(Immediate)\<close>, a body, and \<open>commit\<close>. The body returns the
  changed tables, or \<open>None\<close> for a read-only return that drops the transaction.
\<close>

definition transaction ::
  "faults \<Rightarrow> ('s \<Rightarrow> (error, 'a \<times> 's option) result) \<Rightarrow> 's \<Rightarrow> (error, 'a) result \<times> 's" where
  "transaction io body db =
     (case exec io S_Begin (body db) of
        Inl e \<Rightarrow> (Inl e, db)
      | Inr (x, None) \<Rightarrow> (Inr x, db)
      | Inr (x, Some db') \<Rightarrow>
          (case exec io S_Commit (Inr ()) of Inl e \<Rightarrow> (Inl e, db) | Inr _ \<Rightarrow> (Inr x, db')))"

text \<open>A statement that commits on its own.\<close>

definition autocommit :: "(error, 'a \<times> 's) result \<Rightarrow> 's \<Rightarrow> (error, 'a) result \<times> 's" where
  "autocommit r db = (case r of Inl e \<Rightarrow> (Inl e, db) | Inr (x, db') \<Rightarrow> (Inr x, db'))"

definition lift_sql :: "(sql_error, 'a) result \<Rightarrow> (error, 'a) result" where
  "lift_sql r = (case r of Inl e \<Rightarrow> Inl (sql_err e) | Inr x \<Rightarrow> Inr x)"

definition insert_unique :: "string \<Rightarrow> ('r \<Rightarrow> 'k) \<Rightarrow> 'r \<Rightarrow> 'r list \<Rightarrow> (error, 'r list) result" where
  "insert_unique col key r rows =
     (if key r \<in> key ` set rows then Inl (sql_err (UniqueViolation col)) else Inr (rows @ [r]))"

text \<open>\<open>INSERT ... ON CONFLICT(key) DO UPDATE\<close>.\<close>

definition upsert :: "('r \<Rightarrow> 'k) \<Rightarrow> ('r \<Rightarrow> 'r) \<Rightarrow> 'r \<Rightarrow> 'r list \<Rightarrow> 'r list" where
  "upsert key merge r rows =
     (if key r \<in> key ` set rows then map (\<lambda>x. if key x = key r then merge x else x) rows
      else rows @ [r])"

text \<open>\<open>UPDATE ... WHERE\<close>.\<close>

definition update_where :: "('r \<Rightarrow> bool) \<Rightarrow> ('r \<Rightarrow> 'r) \<Rightarrow> 'r list \<Rightarrow> 'r list" where
  "update_where P f rows = map (\<lambda>x. if P x then f x else x) rows"

subsection \<open>The tables\<close>

record 'j hub =
  events :: "'j event_row list"
  command_receipts :: "receipt_row list"
  tasks :: "task_row list"
  runs :: "run_row list"
  approvals :: "'j approval_row list"
  nodes :: "'j node_row list"
  dispatches :: "'j dispatch_row list"
  control_settings :: "'j setting_row list"
  assistant_workers :: "worker_row list"
  assistant_wakes :: "wake_row list"

definition empty_hub :: "'j hub" where
  "empty_hub =
     \<lparr>events = [], command_receipts = [], tasks = [], runs = [], approvals = [], nodes = [],
      dispatches = [], control_settings = [], assistant_workers = [], assistant_wakes = []\<rparr>"

record append_outcome =
  o_sequence :: int
  o_event_id :: event_id
  o_created :: bool

datatype entity_write = EntityNone | EntityTask task | EntityRun run

record pending_dispatch =
  p_command_id :: command_id
  p_node_id :: node_id
  p_message :: hub_to_node
  p_created_at :: time

record assistant_wake =
  k_event_id :: event_id
  k_sequence :: int
  k_channel :: string
  k_task_id :: task_id
  k_run_id :: run_id
  k_kind :: event_kind
  k_attempt_count :: int

subsection \<open>Sequence assignment and row inserts\<close>

definition max_sequence :: "'j event_row list \<Rightarrow> int" where
  "max_sequence rows = (if rows = [] then 0 else Max (set (map ev_sequence rows)))"

text \<open>
  \<open>SELECT COALESCE(MAX(sequence), 0) + 1\<close>: beyond the 64-bit range SQLite yields a real
  number, which the integer column reader refuses.
\<close>

definition next_sequence :: "faults \<Rightarrow> 'j hub \<Rightarrow> (error, int) result" where
  "next_sequence io tx =
     exec io S_NextSequence
       (let n = max_sequence (events tx) + 1 in
        if n \<le> i64_max then Inr n else Inl (sql_err (ConversionFailure ''sequence'')))"

definition insert_event ::
  "'j codec \<Rightarrow> faults \<Rightarrow> int \<Rightarrow> event_id \<Rightarrow> command_id option \<Rightarrow> event_draft \<Rightarrow> time \<Rightarrow> 'j hub
   \<Rightarrow> (error, 'j hub) result" where
  "insert_event c io sequence eid cid draft received_at tx =
     exec io S_InsertEvent
       (let row = event_row_of c sequence eid cid draft received_at in
        if ev_sequence row \<in> ev_sequence ` set (events tx) then
          Inl (sql_err (UniqueViolation ''events.sequence''))
        else
          bind_res (insert_unique ''events.event_id'' ev_event_id row (events tx))
            (\<lambda>rows. Inr (tx\<lparr>events := rows\<rparr>)))"

definition insert_task_row :: "'j codec \<Rightarrow> faults \<Rightarrow> task \<Rightarrow> 'j hub \<Rightarrow> (error, 'j hub) result" where
  "insert_task_row c io task tx =
     exec io S_InsertTask
       (bind_res (insert_unique ''tasks.task_id'' tk_task_id (task_row_of c task) (tasks tx))
          (\<lambda>rows. Inr (tx\<lparr>tasks := rows\<rparr>)))"

definition insert_run_row :: "'j codec \<Rightarrow> faults \<Rightarrow> run \<Rightarrow> 'j hub \<Rightarrow> (error, 'j hub) result" where
  "insert_run_row c io run tx =
     exec io S_InsertRun
       (bind_res (insert_unique ''runs.run_id'' rn_run_id (run_row_of c run) (runs tx))
          (\<lambda>rows. Inr (tx\<lparr>runs := rows\<rparr>)))"

definition set_task_status :: "'j codec \<Rightarrow> task_status \<Rightarrow> task_id \<Rightarrow> 'j hub \<Rightarrow> 'j hub" where
  "set_task_status c st tid tx =
     tx\<lparr>tasks := update_where (\<lambda>r. tk_task_id r = task_id_str c tid)
                   (\<lambda>r. r\<lparr>tk_status := task_status_as_str st\<rparr>) (tasks tx)\<rparr>"

definition set_run_status :: "'j codec \<Rightarrow> run_status \<Rightarrow> run_id \<Rightarrow> 'j hub \<Rightarrow> 'j hub" where
  "set_run_status c st rid tx =
     tx\<lparr>runs := update_where (\<lambda>r. rn_run_id r = run_id_str c rid)
                  (\<lambda>r. r\<lparr>rn_status := run_status_as_str st\<rparr>) (runs tx)\<rparr>"

subsection \<open>Appending a client command\<close>

definition find_receipt :: "'j codec \<Rightarrow> command_id \<Rightarrow> 'j hub \<Rightarrow> receipt_row option" where
  "find_receipt c cid tx = find (\<lambda>r. rc_command_id r = command_id_str c cid) (command_receipts tx)"

definition event_id_from_str :: "'j codec \<Rightarrow> string \<Rightarrow> (error, event_id) result" where
  "event_id_from_str c s = ok_or (map_option EventId (uuid_parse c s)) (ErrMsg s)"

definition insert_receipt ::
  "'j codec \<Rightarrow> faults \<Rightarrow> command_id \<Rightarrow> int \<Rightarrow> event_id \<Rightarrow> time \<Rightarrow> 'j hub \<Rightarrow> (error, 'j hub) result" where
  "insert_receipt c io cid sequence eid received_at tx =
     exec io S_InsertReceipt
       (bind_res (insert_unique ''command_receipts.command_id'' rc_command_id
            \<lparr>rc_command_id = command_id_str c cid, rc_sequence = sequence,
             rc_event_id = event_id_str c eid, rc_received_at = fmt_time c received_at\<rparr>
            (command_receipts tx))
          (\<lambda>rows. Inr (tx\<lparr>command_receipts := rows\<rparr>)))"

fun write_entity :: "'j codec \<Rightarrow> faults \<Rightarrow> entity_write \<Rightarrow> 'j hub \<Rightarrow> (error, 'j hub) result" where
  "write_entity c io EntityNone tx = Inr tx"
| "write_entity c io (EntityTask task) tx = insert_task_row c io task tx"
| "write_entity c io (EntityRun run) tx =
     bind_res (insert_run_row c io run tx) (\<lambda>tx1.
     exec io S_UpdateTask (Inr (set_task_status c Running (r_task_id run) tx1)))"

definition insert_dispatch ::
  "'j codec \<Rightarrow> faults \<Rightarrow> command_id \<Rightarrow> (node_id \<times> hub_to_node) option \<Rightarrow> time \<Rightarrow> 'j hub
   \<Rightarrow> (error, 'j hub) result" where
  "insert_dispatch c io cid dispatch received_at tx =
     (case dispatch of
        None \<Rightarrow> Inr tx
      | Some (node, message) \<Rightarrow>
          exec io S_InsertDispatch
            (bind_res (insert_unique ''pending_dispatches.command_id'' pd_command_id
                 \<lparr>pd_command_id = command_id_str c cid, pd_node_id = node_str node,
                  pd_message = msg_str c message, pd_created_at = fmt_time c received_at,
                  pd_acked_at = None\<rparr>
                 (dispatches tx))
               (\<lambda>rows. Inr (tx\<lparr>dispatches := rows\<rparr>))))"

definition append_command_bundle ::
  "'j codec \<Rightarrow> faults \<Rightarrow> time \<Rightarrow> event_id \<Rightarrow> command_id \<Rightarrow> event_draft \<Rightarrow> entity_write
   \<Rightarrow> (node_id \<times> hub_to_node) option \<Rightarrow> 'j hub \<Rightarrow> (error, append_outcome) result \<times> 'j hub" where
  "append_command_bundle c io received_at fresh cid draft entity dispatch db =
     transaction io (\<lambda>tx.
       bind_res (exec io S_SelectReceipt (Inr (find_receipt c cid tx))) (\<lambda>existing.
       case existing of
         Some r \<Rightarrow>
           bind_res (event_id_from_str c (rc_event_id r)) (\<lambda>eid.
           Inr (\<lparr>o_sequence = rc_sequence r, o_event_id = eid, o_created = False\<rparr>, None))
       | None \<Rightarrow>
           bind_res (next_sequence io tx) (\<lambda>sequence.
           bind_res (insert_event c io sequence fresh (Some cid) draft received_at tx) (\<lambda>tx1.
           bind_res (insert_receipt c io cid sequence fresh received_at tx1) (\<lambda>tx2.
           bind_res (write_entity c io entity tx2) (\<lambda>tx3.
           bind_res (insert_dispatch c io cid dispatch received_at tx3) (\<lambda>tx4.
           Inr (\<lparr>o_sequence = sequence, o_event_id = fresh, o_created = True\<rparr>, Some tx4)))))))) db"

definition append_command_with ::
  "'j codec \<Rightarrow> faults \<Rightarrow> time \<Rightarrow> event_id \<Rightarrow> command_id \<Rightarrow> event_draft \<Rightarrow> entity_write \<Rightarrow> 'j hub
   \<Rightarrow> (error, append_outcome) result \<times> 'j hub" where
  "append_command_with c io now fresh cid draft entity db =
     append_command_bundle c io now fresh cid draft entity None db"

definition append_command ::
  "'j codec \<Rightarrow> faults \<Rightarrow> time \<Rightarrow> event_id \<Rightarrow> command_id \<Rightarrow> event_draft \<Rightarrow> 'j hub
   \<Rightarrow> (error, append_outcome) result \<times> 'j hub" where
  "append_command c io now fresh cid draft db =
     append_command_with c io now fresh cid draft EntityNone db"

definition command_outcome ::
  "'j codec \<Rightarrow> faults \<Rightarrow> command_id \<Rightarrow> 'j hub \<Rightarrow> (error, append_outcome option) result" where
  "command_outcome c io cid db =
     exec io S_SelectReceipt
       (case find_receipt c cid db of
          None \<Rightarrow> Inr None
        | Some r \<Rightarrow>
            lift_sql (bind_res (req_id c EventId (rc_event_id r)) (\<lambda>eid.
              Inr (Some \<lparr>o_sequence = rc_sequence r, o_event_id = eid, o_created = False\<rparr>))))"

subsection \<open>Dispatches\<close>

definition decode_dispatch :: "'j codec \<Rightarrow> 'j dispatch_row \<Rightarrow> (sql_error, pending_dispatch) result" where
  "decode_dispatch c r =
     bind_res (req_id c CommandId (pd_command_id r)) (\<lambda>cid.
     bind_res (ok_or (msg_parse c (pd_message r)) (conv_err ''bad pending dispatch'')) (\<lambda>msg.
     bind_res (parse_time c (pd_created_at r)) (\<lambda>cr.
     Inr \<lparr>p_command_id = cid, p_node_id = NodeId (pd_node_id r), p_message = msg,
          p_created_at = cr\<rparr>)))"

definition pending_dispatches ::
  "'j codec \<Rightarrow> faults \<Rightarrow> node_id \<Rightarrow> 'j hub \<Rightarrow> (error, pending_dispatch list) result" where
  "pending_dispatches c io node db =
     exec io S_SelectDispatches
       (lift_sql (collect_res (decode_dispatch c)
          (filter (\<lambda>r. pd_node_id r = node_str node \<and> pd_acked_at r = None) (dispatches db))))"

text \<open>\<open>UPDATE pending_dispatches SET acked_at\<close> on the rows of a condition, and the count.\<close>

definition ack_where ::
  "'j codec \<Rightarrow> faults \<Rightarrow> time \<Rightarrow> ('j dispatch_row \<Rightarrow> bool) \<Rightarrow> 'j hub \<Rightarrow> (error, bool) result \<times> 'j hub" where
  "ack_where c io now P db =
     autocommit (exec io S_AckDispatch
       (let Q = (\<lambda>r. P r \<and> pd_acked_at r = None);
            changed = length (filter Q (dispatches db))
        in Inr (changed = 1,
             db\<lparr>dispatches := update_where Q (\<lambda>r. r\<lparr>pd_acked_at := Some (fmt_time c now)\<rparr>)
                                (dispatches db)\<rparr>))) db"

definition acknowledge_dispatch ::
  "'j codec \<Rightarrow> faults \<Rightarrow> time \<Rightarrow> command_id \<Rightarrow> 'j hub \<Rightarrow> (error, bool) result \<times> 'j hub" where
  "acknowledge_dispatch c io now cid db =
     ack_where c io now (\<lambda>r. pd_command_id r = command_id_str c cid) db"

definition acknowledge_dispatch_from ::
  "'j codec \<Rightarrow> faults \<Rightarrow> time \<Rightarrow> command_id \<Rightarrow> node_id \<Rightarrow> 'j hub \<Rightarrow> (error, bool) result \<times> 'j hub" where
  "acknowledge_dispatch_from c io now cid node db =
     ack_where c io now (\<lambda>r. pd_command_id r = command_id_str c cid \<and> pd_node_id r = node_str node) db"

subsection \<open>Appending a node event\<close>

definition insert_wake ::
  "'j codec \<Rightarrow> faults \<Rightarrow> event_id \<Rightarrow> int \<Rightarrow> string \<Rightarrow> task_id \<Rightarrow> run_id \<Rightarrow> event_kind \<Rightarrow> time \<Rightarrow> 'j hub
   \<Rightarrow> (error, 'j hub) result" where
  "insert_wake c io eid sequence channel tid rid kind received_at tx =
     exec io S_InsertWake
       (let row = \<lparr>wk_event_id = event_id_str c eid, wk_sequence = sequence, wk_channel = channel,
              wk_task_id = task_id_str c tid, wk_run_id = run_id_str c rid,
              wk_kind = event_kind_as_str kind, wk_created_at = fmt_time c received_at,
              wk_attempt_count = 0, wk_next_attempt_at = fmt_time c received_at,
              wk_last_error = None, wk_processed_at = None\<rparr> in
        if wk_sequence row \<in> wk_sequence ` set (assistant_wakes tx) then
          Inl (sql_err (UniqueViolation ''assistant_wakes.sequence''))
        else
          bind_res (insert_unique ''assistant_wakes.event_id'' wk_event_id row (assistant_wakes tx))
            (\<lambda>rows. Inr (tx\<lparr>assistant_wakes := rows\<rparr>)))"

fun terminal_status :: "event_kind \<Rightarrow> (run_status \<times> task_status \<times> bool) option" where
  "terminal_status RunCompleted = Some (Completed, TaskCompleted, True)"
| "terminal_status RunFailed = Some (Failed, TaskFailed, True)"
| "terminal_status RunInterrupted = Some (Interrupted, TaskInterrupted, False)"
| "terminal_status _ = None"

definition apply_terminal_lifecycle_and_wake ::
  "'j codec \<Rightarrow> faults \<Rightarrow> event_id \<Rightarrow> int \<Rightarrow> event_draft \<Rightarrow> time \<Rightarrow> 'j hub \<Rightarrow> (error, 'j hub) result" where
  "apply_terminal_lifecycle_and_wake c io eid sequence draft received_at tx =
     (case terminal_status (d_kind draft) of
        None \<Rightarrow> Inr tx
      | Some (run_status, task_status, wakes_assistant) \<Rightarrow>
          (case d_run_id draft of
             None \<Rightarrow> Inr tx
           | Some rid \<Rightarrow>
               bind_res (exec io S_UpdateRun (Inr (set_run_status c run_status rid tx))) (\<lambda>tx1.
               bind_res (exec io S_UpdateTask
                           (Inr (set_task_status c task_status (d_task_id draft) tx1))) (\<lambda>tx2.
               if \<not> wakes_assistant then Inr tx2
               else
                 bind_res (exec io S_SelectWorker
                     (Inr (find (\<lambda>r. aw_task_id r = task_id_str c (d_task_id draft))
                             (assistant_workers tx2)))) (\<lambda>worker.
                 case worker of
                   None \<Rightarrow> Inr tx2
                 | Some w \<Rightarrow>
                     insert_wake c io eid sequence (aw_channel w) (d_task_id draft) rid
                       (d_kind draft) received_at tx2)))))"

definition find_event_row :: "'j codec \<Rightarrow> event_id \<Rightarrow> 'j hub \<Rightarrow> 'j event_row option" where
  "find_event_row c eid tx = find (\<lambda>r. ev_event_id r = event_id_str c eid) (events tx)"

definition append_node_event ::
  "'j codec \<Rightarrow> faults \<Rightarrow> time \<Rightarrow> event_id \<Rightarrow> event_draft \<Rightarrow> 'j hub
   \<Rightarrow> (error, append_outcome) result \<times> 'j hub" where
  "append_node_event c io received_at eid draft db =
     transaction io (\<lambda>tx.
       bind_res (exec io S_SelectEvent (Inr (find_event_row c eid tx))) (\<lambda>existing.
       case existing of
         Some r \<Rightarrow>
           Inr (\<lparr>o_sequence = ev_sequence r, o_event_id = eid, o_created = False\<rparr>, None)
       | None \<Rightarrow>
           bind_res (next_sequence io tx) (\<lambda>sequence.
           bind_res (insert_event c io sequence eid None draft received_at tx) (\<lambda>tx1.
           bind_res (apply_terminal_lifecycle_and_wake c io eid sequence draft received_at tx1) (\<lambda>tx2.
           Inr (\<lparr>o_sequence = sequence, o_event_id = eid, o_created = True\<rparr>, Some tx2)))))) db"

subsection \<open>Reading the log\<close>

definition head_sequence :: "faults \<Rightarrow> 'j hub \<Rightarrow> (error, int) result" where
  "head_sequence io db = exec io S_Head (Inr (max_sequence (events db)))"

definition events_after :: "'j codec \<Rightarrow> faults \<Rightarrow> int \<Rightarrow> 'j hub \<Rightarrow> (error, event list) result" where
  "events_after c io after db =
     exec io S_SelectEvents
       (lift_sql (collect_res (row_to_event c)
          (sort_key ev_sequence (filter (\<lambda>r. ev_sequence r > after) (events db)))))"

text \<open>\<open>i64::try_from(limit).unwrap_or(i64::MAX)\<close> as the bound of a \<open>LIMIT\<close>.\<close>

definition limit_rows :: "nat \<Rightarrow> 'r list \<Rightarrow> 'r list" where
  "limit_rows limit rows = take (min limit (nat i64_max)) rows"

definition recent_events :: "'j codec \<Rightarrow> faults \<Rightarrow> nat \<Rightarrow> 'j hub \<Rightarrow> (error, event list) result" where
  "recent_events c io limit db =
     exec io S_SelectEvents
       (bind_res (lift_sql (collect_res (row_to_event c)
            (limit_rows limit (rev (sort_key ev_sequence (events db))))))
          (\<lambda>es. Inr (rev es)))"

definition task_events_tail ::
  "'j codec \<Rightarrow> faults \<Rightarrow> task_id \<Rightarrow> nat \<Rightarrow> 'j hub \<Rightarrow> (error, event list) result" where
  "task_events_tail c io tid limit db =
     exec io S_SelectEvents
       (bind_res (lift_sql (collect_res (row_to_event c)
            (limit_rows limit (rev (sort_key ev_sequence
               (filter (\<lambda>r. ev_task_id r = task_id_str c tid) (events db)))))))
          (\<lambda>es. Inr (rev es)))"

subsection \<open>Tasks and runs\<close>

definition insert_task :: "'j codec \<Rightarrow> faults \<Rightarrow> task \<Rightarrow> 'j hub \<Rightarrow> (error, unit) result \<times> 'j hub" where
  "insert_task c io task db =
     autocommit (bind_res (insert_task_row c io task db) (\<lambda>db'. Inr ((), db'))) db"

definition create_task ::
  "'j codec \<Rightarrow> faults \<Rightarrow> time \<Rightarrow> task_id \<Rightarrow> string \<Rightarrow> 'j hub \<Rightarrow> (error, task) result \<times> 'j hub" where
  "create_task c io now fresh title db =
     (let task = \<lparr>t_id = fresh, t_title = title, t_status = Open, t_created_at = now\<rparr> in
      case insert_task c io task db of
        (Inl e, db') \<Rightarrow> (Inl e, db')
      | (Inr _, db') \<Rightarrow> (Inr task, db'))"

definition get_task :: "'j codec \<Rightarrow> faults \<Rightarrow> task_id \<Rightarrow> 'j hub \<Rightarrow> (error, task option) result" where
  "get_task c io tid db =
     exec io S_SelectTask
       (case find (\<lambda>r. tk_task_id r = task_id_str c tid) (tasks db) of
          None \<Rightarrow> Inr None
        | Some r \<Rightarrow> lift_sql (bind_res (row_to_task c r) (\<lambda>t. Inr (Some t))))"

definition insert_run :: "'j codec \<Rightarrow> faults \<Rightarrow> run \<Rightarrow> 'j hub \<Rightarrow> (error, unit) result \<times> 'j hub" where
  "insert_run c io run db =
     autocommit (bind_res (insert_run_row c io run db) (\<lambda>db'. Inr ((), db'))) db"

definition start_run ::
  "'j codec \<Rightarrow> faults \<Rightarrow> time \<Rightarrow> run_id \<Rightarrow> task_id \<Rightarrow> node_id \<Rightarrow> string \<Rightarrow> access_policy \<Rightarrow> 'j hub
   \<Rightarrow> (error, run) result \<times> 'j hub" where
  "start_run c io now fresh tid node engine policy db =
     (let run = \<lparr>r_id = fresh, r_task_id = tid, r_node_id = node, r_engine = engine,
                 r_model = None, r_reasoning_effort = None, r_system_prompt = None,
                 r_access_policy = policy, r_workspace_path = None, r_status = Started,
                 r_started_at = now\<rparr> in
      case insert_run c io run db of
        (Inl e, db') \<Rightarrow> (Inl e, db')
      | (Inr _, db') \<Rightarrow> (Inr run, db'))"

definition get_run :: "'j codec \<Rightarrow> faults \<Rightarrow> run_id \<Rightarrow> 'j hub \<Rightarrow> (error, run option) result" where
  "get_run c io rid db =
     exec io S_SelectRun
       (case find (\<lambda>r. rn_run_id r = run_id_str c rid) (runs db) of
          None \<Rightarrow> Inr None
        | Some r \<Rightarrow> lift_sql (bind_res (row_to_run c r) (\<lambda>x. Inr (Some x))))"

subsection \<open>Settings\<close>

definition get_setting :: "'j codec \<Rightarrow> faults \<Rightarrow> string \<Rightarrow> 'j hub \<Rightarrow> (error, json option) result" where
  "get_setting c io key db =
     exec io S_SelectSetting
       (case find (\<lambda>r. cs_key r = key) (control_settings db) of
          None \<Rightarrow> Inr None
        | Some r \<Rightarrow>
            ok_or (map_option Some (json_parse c (cs_value r)))
              (ErrMsg (''bad control setting '' @ key)))"

definition put_setting ::
  "'j codec \<Rightarrow> faults \<Rightarrow> time \<Rightarrow> string \<Rightarrow> json \<Rightarrow> 'j hub \<Rightarrow> (error, unit) result \<times> 'j hub" where
  "put_setting c io now key value db =
     autocommit (exec io S_PutSetting
       (let row = \<lparr>cs_key = key, cs_value = json_str c value, cs_updated_at = fmt_time c now\<rparr> in
        Inr ((), db\<lparr>control_settings :=
          upsert cs_key
            (\<lambda>r. r\<lparr>cs_value := cs_value row, cs_updated_at := cs_updated_at row\<rparr>)
            row (control_settings db)\<rparr>))) db"

subsection \<open>Assistant workers and wakes\<close>

definition register_assistant_worker ::
  "'j codec \<Rightarrow> faults \<Rightarrow> time \<Rightarrow> string \<Rightarrow> task_id \<Rightarrow> 'j hub \<Rightarrow> (error, unit) result \<times> 'j hub" where
  "register_assistant_worker c io now channel tid db =
     autocommit (exec io S_RegisterWorker
       (Inr ((), db\<lparr>assistant_workers :=
          upsert aw_task_id (\<lambda>r. r\<lparr>aw_channel := channel\<rparr>)
            \<lparr>aw_task_id = task_id_str c tid, aw_channel = channel, aw_created_at = fmt_time c now\<rparr>
            (assistant_workers db)\<rparr>))) db"

definition decode_wake :: "'j codec \<Rightarrow> wake_row \<Rightarrow> (sql_error, assistant_wake) result" where
  "decode_wake c r =
     bind_res (ok_or (from_dotted (wk_kind r)) (conv_err ''bad assistant wake kind'')) (\<lambda>kind.
     bind_res (req_id c EventId (wk_event_id r)) (\<lambda>eid.
     bind_res (req_id c TaskId (wk_task_id r)) (\<lambda>tid.
     bind_res (req_id c RunId (wk_run_id r)) (\<lambda>rid.
     Inr \<lparr>k_event_id = eid, k_sequence = wk_sequence r, k_channel = wk_channel r,
          k_task_id = tid, k_run_id = rid, k_kind = kind,
          k_attempt_count = wk_attempt_count r\<rparr>))))"

definition pending_assistant_wakes ::
  "'j codec \<Rightarrow> faults \<Rightarrow> time \<Rightarrow> string \<Rightarrow> 'j hub \<Rightarrow> (error, assistant_wake list) result" where
  "pending_assistant_wakes c io now channel db =
     exec io S_SelectWakes
       (lift_sql (collect_res (decode_wake c)
          (sort_key wk_sequence
             (filter (\<lambda>r. wk_channel r = channel \<and> wk_processed_at r = None
                        \<and> wk_next_attempt_at r \<le> fmt_time c now) (assistant_wakes db)))))"

definition wake_open :: "'j codec \<Rightarrow> event_id \<Rightarrow> wake_row \<Rightarrow> bool" where
  "wake_open c eid r \<longleftrightarrow> wk_event_id r = event_id_str c eid \<and> wk_processed_at r = None"

definition complete_assistant_wake ::
  "'j codec \<Rightarrow> faults \<Rightarrow> time \<Rightarrow> event_id \<Rightarrow> 'j hub \<Rightarrow> (error, bool) result \<times> 'j hub" where
  "complete_assistant_wake c io now eid db =
     autocommit (exec io S_CompleteWake
       (let changed = length (filter (wake_open c eid) (assistant_wakes db)) in
        Inr (changed = 1,
          db\<lparr>assistant_wakes :=
            update_where (wake_open c eid) (\<lambda>r. r\<lparr>wk_processed_at := Some (fmt_time c now)\<rparr>)
              (assistant_wakes db)\<rparr>))) db"

text \<open>\<open>5 * 2^clamp(next_attempt - 1, 0, 8)\<close> seconds.\<close>

definition wake_delay_seconds :: "int \<Rightarrow> int" where
  "wake_delay_seconds next_attempt = 5 * 2 ^ nat (max 0 (min 8 (next_attempt - 1)))"

definition defer_assistant_wake ::
  "'j codec \<Rightarrow> faults \<Rightarrow> time \<Rightarrow> event_id \<Rightarrow> string \<Rightarrow> 'j hub \<Rightarrow> (error, bool) result \<times> 'j hub" where
  "defer_assistant_wake c io now eid err db =
     (case exec io S_SelectWake (Inr (find (wake_open c eid) (assistant_wakes db))) of
        Inl e \<Rightarrow> (Inl e, db)
      | Inr None \<Rightarrow> (Inr False, db)
      | Inr (Some r) \<Rightarrow>
          (let next_attempt = wk_attempt_count r + 1;
               next_at = now + wake_delay_seconds next_attempt * 1000000000
           in autocommit (exec io S_DeferWake
                (Inr (True, db\<lparr>assistant_wakes :=
                   update_where (wake_open c eid)
                     (\<lambda>r. r\<lparr>wk_attempt_count := next_attempt, wk_next_attempt_at := fmt_time c next_at,
                             wk_last_error := Some (take_chars 500 err)\<rparr>)
                     (assistant_wakes db)\<rparr>))) db))"

subsection \<open>Approvals\<close>

definition request_approval ::
  "'j codec \<Rightarrow> faults \<Rightarrow> time \<Rightarrow> approval_id \<Rightarrow> run_id \<Rightarrow> task_id \<Rightarrow> string \<Rightarrow> string \<Rightarrow> string list
   \<Rightarrow> time option \<Rightarrow> 'j hub \<Rightarrow> (error, approval) result \<times> 'j hub" where
  "request_approval c io now fresh rid tid tool_call scope options expires_at db =
     (let a = \<lparr>a_id = fresh, a_run_id = rid, a_task_id = tid, a_tool_call_id = tool_call,
               a_scope = scope, a_options = options, a_expires_at = expires_at,
               a_decision = Pending, a_resolved_by = None, a_created_at = now,
               a_resolved_at = None\<rparr> in
      autocommit (exec io S_InsertApproval
        (bind_res (insert_unique ''approvals.approval_id'' ap_approval_id (approval_row_of c a)
             (approvals db))
           (\<lambda>rows. Inr (a, db\<lparr>approvals := rows\<rparr>)))) db)"

definition find_approval :: "'j codec \<Rightarrow> approval_id \<Rightarrow> 'j hub \<Rightarrow> (error, approval option) result" where
  "find_approval c aid db =
     (case find (\<lambda>r. ap_approval_id r = approval_id_str c aid) (approvals db) of
        None \<Rightarrow> Inr None
      | Some r \<Rightarrow> lift_sql (bind_res (row_to_approval c r) (\<lambda>a. Inr (Some a))))"

definition get_approval ::
  "'j codec \<Rightarrow> faults \<Rightarrow> approval_id \<Rightarrow> 'j hub \<Rightarrow> (error, approval option) result" where
  "get_approval c io aid db = exec io S_SelectApproval (find_approval c aid db)"

definition resolve_approval ::
  "'j codec \<Rightarrow> faults \<Rightarrow> approval_id \<Rightarrow> decision \<Rightarrow> string \<Rightarrow> time \<Rightarrow> 'j hub
   \<Rightarrow> (error, approval) result \<times> 'j hub" where
  "resolve_approval c io aid decision actor now db =
     (if decision = Pending then (Inl (ErrMsg ''cannot resolve an approval to pending''), db)
      else transaction io (\<lambda>tx.
        bind_res (exec io S_SelectApproval (find_approval c aid tx)) (\<lambda>found.
        bind_res (ok_or found (ErrMsg (''unknown approval: '' @ approval_id_str c aid))) (\<lambda>current.
        if \<not> is_pending current then Inr (current, None)
        else
          bind_res (exec io S_UpdateApproval
              (Inr (tx\<lparr>approvals :=
                 update_where (\<lambda>r. ap_approval_id r = approval_id_str c aid)
                   (\<lambda>r. r\<lparr>ap_decision := decision_as_str decision, ap_resolved_by := Some actor,
                           ap_resolved_at := Some (fmt_time c now)\<rparr>)
                   (approvals tx)\<rparr>))) (\<lambda>tx1.
          Inr (current\<lparr>a_decision := decision, a_resolved_by := Some actor,
                       a_resolved_at := Some now\<rparr>, Some tx1))))) db)"

subsection \<open>Nodes\<close>

definition upsert_node :: "'j codec \<Rightarrow> faults \<Rightarrow> node \<Rightarrow> 'j hub \<Rightarrow> (error, unit) result \<times> 'j hub" where
  "upsert_node c io node db =
     autocommit (exec io S_UpsertNode
       (Inr ((), db\<lparr>nodes := upsert nd_node_id (\<lambda>_. node_row_of c node) (node_row_of c node)
                              (nodes db)\<rparr>))) db"

definition get_node :: "'j codec \<Rightarrow> faults \<Rightarrow> node_id \<Rightarrow> 'j hub \<Rightarrow> (error, node option) result" where
  "get_node c io nid db =
     exec io S_SelectNode
       (case find (\<lambda>r. nd_node_id r = node_str nid) (nodes db) of
          None \<Rightarrow> Inr None
        | Some r \<Rightarrow> lift_sql (bind_res (row_to_node c r) (\<lambda>n. Inr (Some n))))"

definition list_nodes :: "'j codec \<Rightarrow> faults \<Rightarrow> 'j hub \<Rightarrow> (error, node list) result" where
  "list_nodes c io db =
     exec io S_SelectNodes (lift_sql (collect_res (row_to_node c) (sort_key nd_node_id (nodes db))))"

end
