(* ===== verification/Store_Log.thy ===== *)
theory Store_Log
  imports Store
begin

text \<open>
  The append-only log of the store: the invariant that ties sequences, event ids and
  command receipts together, and what each append path (one keyed by command, one keyed by node
  event) does to the log. The interface \<open>dedup_log\<close> that both of them meet is in the theory Store_Steps.
\<close>

subsection \<open>Inversion of the statement combinators\<close>

lemma exec_eq_Inr [store_simps]: "exec io st r = Inr x \<longleftrightarrow> io st = None \<and> r = Inr x"
  by (cases "io st") (simp_all add: exec_def)

lemma exec_no_faults [simp]: "exec no_faults st r = r"
  by (simp add: exec_def no_faults_def)

lemma transaction_Inr [store_simps]:
  "transaction io body db = (Inr x, db') \<longleftrightarrow>
     io S_Begin = None \<and>
     (body db = Inr (x, None) \<and> db' = db \<or> body db = Inr (x, Some db') \<and> io S_Commit = None)"
  by (cases "body db"; cases "io S_Begin"; cases "io S_Commit")
    (auto simp: transaction_def exec_def split: prod.splits option.splits)

lemma transaction_Inl: "transaction io body db = (Inl e, db') \<Longrightarrow> db' = db"
  by (auto simp: transaction_def split: sum.splits prod.splits option.splits)

lemma autocommit_Inr [store_simps]: "autocommit r db = (Inr x, db') \<longleftrightarrow> r = Inr (x, db')"
  by (cases r) (auto simp: autocommit_def)

lemma autocommit_Inl: "autocommit r db = (Inl e, db') \<Longrightarrow> db' = db"
  by (cases r) (auto simp: autocommit_def)

lemma lift_sql_Inr [simp]: "lift_sql (Inr x) = Inr x"
  by (simp add: lift_sql_def)

lemma lift_sql_eq_Inr [store_simps]: "lift_sql r = Inr x \<longleftrightarrow> r = Inr x"
  by (cases r) (simp_all add: lift_sql_def)

lemma insert_unique_Inr [store_simps]:
  "insert_unique col key r rows = Inr rows' \<longleftrightarrow> key r \<notin> key ` set rows \<and> rows' = rows @ [r]"
  by (auto simp: insert_unique_def)

subsection \<open>Numbered rows\<close>

lemma numbered_image: "numbered f xs \<Longrightarrow> f ` set xs = {1..int (length xs)}"
proof (induction xs rule: rev_induct)
  case Nil
  then show ?case by simp
next
  case (snoc x xs)
  then show ?case by (auto simp: image_Un)
qed

lemma numbered_distinct: "numbered f xs \<Longrightarrow> distinct (map f xs)"
  by (induction xs rule: rev_induct) (auto simp: numbered_image)

lemma max_sequence_numbered:
  assumes "numbered ev_sequence rows"
  shows "max_sequence rows = int (length rows)"
proof (cases "rows = []")
  case False
  then have "int (length rows) \<in> {1..int (length rows)}" by (cases rows) auto
  then have "Max {1..int (length rows)} = int (length rows)" by (intro Max_eqI) auto
  with False show ?thesis
    by (simp add: max_sequence_def numbered_image [OF assms])
qed (simp add: max_sequence_def)

lemma numbered_sorted: "numbered f xs \<Longrightarrow> sorted (map f xs)"
  by (simp add: numbered_def sorted_map del: upt_Suc)

text \<open>The rows after a cursor are a suffix, already in order.\<close>

lemma filter_numbered:
  assumes "numbered f xs" and "0 \<le> n"
  shows "filter (\<lambda>x. f x > n) xs = drop (nat n) xs"
  using assms
proof (induction xs rule: rev_induct)
  case Nil
  then show ?case by simp
next
  case (snoc x xs)
  then show ?case by (cases "nat n \<le> length xs") auto
qed

lemma sort_key_numbered:
  assumes "numbered f xs" and "0 \<le> n"
  shows "sort_key f (filter (\<lambda>x. f x > n) xs) = drop (nat n) xs"
proof -
  have "sorted (map f (drop (nat n) xs))"
    using numbered_sorted [OF assms(1)] by (simp add: drop_map [symmetric] sorted_wrt_drop)
  then show ?thesis
    using filter_numbered [OF assms] by (simp add: sort_key_id_if_sorted)
qed

subsection \<open>The invariant of the log\<close>

text \<open>The receipts that the log's command-originated rows call for, in order.\<close>

definition receipts_of :: "'j event_row list \<Rightarrow> (string \<times> int \<times> string) list" where
  "receipts_of rows =
     map (\<lambda>r. (the (ev_command_id r), ev_sequence r, ev_event_id r))
       (filter (\<lambda>r. ev_command_id r \<noteq> None) rows)"

definition receipt_triple :: "receipt_row \<Rightarrow> string \<times> int \<times> string" where
  "receipt_triple r = (rc_command_id r, rc_sequence r, rc_event_id r)"

definition log_inv :: "'j codec \<Rightarrow> 'j hub \<Rightarrow> bool" where
  "log_inv c db \<longleftrightarrow>
     numbered ev_sequence (events db) \<and>
     distinct (map ev_event_id (events db)) \<and>
     (\<forall>r \<in> set (events db). \<exists>e. row_to_event c r = Inr e \<and> ev_task_id r = task_id_str c (e_task_id e)
        \<and> ev_event_id r = event_id_str c (e_event_id e)) \<and>
     map receipt_triple (command_receipts db) = receipts_of (events db) \<and>
     distinct (map rc_command_id (command_receipts db))"

lemma log_inv_empty [inv_intros]: "log_inv c empty_hub"
  by (simp add: log_inv_def empty_hub_def receipts_of_def)

definition event_log :: "'j codec \<Rightarrow> 'j hub \<Rightarrow> event list" where
  "event_log c db = map (\<lambda>r. projr (row_to_event c r)) (events db)"

lemma row_to_event_sequence: "row_to_event c r = Inr e \<Longrightarrow> e_sequence e = ev_sequence r"
  by (auto simp: row_to_event_def bind_res_eq_Inr)

lemma log_inv_rows:
  assumes "log_inv c db" and "r \<in> set (events db)"
  shows "row_to_event c r = Inr (projr (row_to_event c r))"
  using assms by (force simp: log_inv_def)

lemma log_inv_task:
  assumes "log_inv c db" and "r \<in> set (events db)"
  shows "ev_task_id r = task_id_str c (e_task_id (projr (row_to_event c r)))"
  using assms by (force simp: log_inv_def)

lemma log_inv_event:
  assumes "log_inv c db" and "r \<in> set (events db)"
  shows "ev_event_id r = event_id_str c (e_event_id (projr (row_to_event c r)))"
  using assms by (force simp: log_inv_def)

lemma event_log_ids:
  assumes "log_inv c db"
  shows "map (event_id_str c \<circ> e_event_id) (event_log c db) = map ev_event_id (events db)"
  using log_inv_event [OF assms] by (simp add: event_log_def)

lemma event_log_distinct:
  assumes "log_inv c db"
  shows "distinct (map e_event_id (event_log c db))"
proof -
  have "distinct (map (event_id_str c) (map e_event_id (event_log c db)))"
    using event_log_ids [OF assms] assms by (simp add: log_inv_def)
  then show ?thesis by (simp only: distinct_map)
qed

lemma logged_row:
  assumes "log_inv c db" and "r \<in> set (events db)"
  shows "\<exists>e \<in> set (event_log c db). event_id_str c (e_event_id e) = ev_event_id r"
  using log_inv_event [OF assms] assms(2) by (force simp: event_log_def)

lemma event_log_sequences:
  assumes "log_inv c db"
  shows "map e_sequence (event_log c db) = map ev_sequence (events db)"
  using row_to_event_sequence log_inv_rows [OF assms] by (auto simp: event_log_def)

lemma event_log_numbered: "log_inv c db \<Longrightarrow> numbered e_sequence (event_log c db)"
  using event_log_sequences [of c db]
  by (simp add: log_inv_def numbered_def event_log_def)

lemma collect_event_rows:
  assumes "log_inv c db" and "set rows \<subseteq> set (events db)"
  shows "collect_res (row_to_event c) rows = Inr (map (\<lambda>r. projr (row_to_event c r)) rows)"
  using collect_res_map [of rows "row_to_event c" "\<lambda>r. r" "\<lambda>r. projr (row_to_event c r)"]
    log_inv_rows [OF assms(1)] assms(2) by auto

lemma events_after_log:
  assumes "log_inv c db" and "0 \<le> after" and "io S_SelectEvents = None"
  shows "events_after c io after db = Inr (drop (nat after) (event_log c db))"
proof -
  have "numbered ev_sequence (events db)" using assms(1) by (simp add: log_inv_def)
  then show ?thesis
    using assms collect_event_rows [OF assms(1), of "drop (nat after) (events db)"]
    by (simp add: events_after_def sort_key_numbered exec_def event_log_def drop_map
        set_drop_subset)
qed

subsection \<open>What the inserts leave alone\<close>

lemma insert_event_Inr [store_simps]:
  "insert_event c io s eid cid d recv tx = Inr tx' \<longleftrightarrow>
     io S_InsertEvent = None \<and> s \<notin> ev_sequence ` set (events tx) \<and>
     event_id_str c eid \<notin> ev_event_id ` set (events tx) \<and>
     tx' = tx\<lparr>events := events tx @ [event_row_of c s eid cid d recv]\<rparr>"
  by (auto simp: insert_event_def store_simps bind_res_eq_Inr event_row_of_def Let_def)

lemma insert_receipt_Inr [store_simps]:
  "insert_receipt c io cid s eid recv tx = Inr tx' \<longleftrightarrow>
     io S_InsertReceipt = None \<and>
     command_id_str c cid \<notin> rc_command_id ` set (command_receipts tx) \<and>
     tx' = tx\<lparr>command_receipts := command_receipts tx @
       [\<lparr>rc_command_id = command_id_str c cid, rc_sequence = s, rc_event_id = event_id_str c eid,
         rc_received_at = fmt_time c recv\<rparr>]\<rparr>"
  by (auto simp: insert_receipt_def store_simps bind_res_eq_Inr)

definition same_log :: "'j hub \<Rightarrow> 'j hub \<Rightarrow> bool" where
  "same_log db db' \<longleftrightarrow>
     events db' = events db \<and> command_receipts db' = command_receipts db"

lemma same_log_refl [simp]: "same_log db db"
  by (simp add: same_log_def)

lemma same_log_trans: "same_log a b \<Longrightarrow> same_log b c \<Longrightarrow> same_log a c"
  by (simp add: same_log_def)

lemma same_log_inv: "same_log db db' \<Longrightarrow> log_inv c db' \<longleftrightarrow> log_inv c db"
  by (simp add: same_log_def log_inv_def)

lemma same_log_event_log: "same_log db db' \<Longrightarrow> event_log c db' = event_log c db"
  by (simp add: same_log_def event_log_def)

lemma write_entity_same_log: "write_entity c io entity tx = Inr tx' \<Longrightarrow> same_log tx tx'"
  by (cases entity)
    (auto simp: insert_task_row_def insert_run_row_def set_task_status_def store_simps
      bind_res_eq_Inr same_log_def)

lemma insert_dispatch_same_log: "insert_dispatch c io cid dp recv tx = Inr tx' \<Longrightarrow> same_log tx tx'"
  by (auto simp: insert_dispatch_def store_simps bind_res_eq_Inr same_log_def
      split: option.splits)

lemma terminal_same_log:
  "apply_terminal_lifecycle_and_wake c io eid s d recv tx = Inr tx' \<Longrightarrow> same_log tx tx'"
  by (auto simp: apply_terminal_lifecycle_and_wake_def insert_wake_def set_run_status_def
      set_task_status_def store_simps bind_res_eq_Inr same_log_def Let_def
      split: option.splits if_splits)

lemma next_sequence_Inr:
  assumes "numbered ev_sequence (events tx)"
  shows "next_sequence io tx = Inr s \<longleftrightarrow>
     io S_NextSequence = None \<and> s = int (length (events tx)) + 1 \<and> s \<le> i64_max"
  using assms by (auto simp: next_sequence_def store_simps max_sequence_numbered Let_def)

subsection \<open>The command path\<close>

lemma receipt_in_log:
  assumes "log_inv c db" and "find_receipt c cid db = Some r"
  shows "\<exists>row \<in> set (events db). ev_command_id row = Some (command_id_str c cid) \<and>
     ev_sequence row = rc_sequence r \<and> ev_event_id row = rc_event_id r"
proof -
  have "receipt_triple r \<in> set (receipts_of (events db))"
    using assms find_SomeD [OF assms(2) [unfolded find_receipt_def]]
    by (metis image_eqI log_inv_def list.set_map)
  then show ?thesis
    using find_SomeD [OF assms(2) [unfolded find_receipt_def]]
    by (auto simp: receipts_of_def receipt_triple_def)
qed

text \<open>A successful call either replays a stored receipt or extends the log by one row.\<close>

lemma append_command_cases:
  assumes "append_command_bundle c io now fresh cid d entity dp db = (Inr out, db')"
  obtains
    (replay) r where "find_receipt c cid db = Some r" "db' = db" "\<not> o_created out"
      "o_sequence out = rc_sequence r" "event_id_from_str c (rc_event_id r) = Inr (o_event_id out)"
  | (new) tx2 tx3 where "find_receipt c cid db = None" "o_created out" "o_event_id out = fresh"
      "next_sequence io db = Inr (o_sequence out)"
      "event_id_str c fresh \<notin> ev_event_id ` set (events db)"
      "tx2 = db\<lparr>events := events db @ [event_row_of c (o_sequence out) fresh (Some cid) d now],
               command_receipts := command_receipts db @
                 [\<lparr>rc_command_id = command_id_str c cid, rc_sequence = o_sequence out,
                   rc_event_id = event_id_str c fresh, rc_received_at = fmt_time c now\<rparr>]\<rparr>"
      "write_entity c io entity tx2 = Inr tx3" "insert_dispatch c io cid dp now tx3 = Inr db'"
  using assms
  by (auto simp: append_command_bundle_def store_simps bind_res_eq_Inr split: option.splits)

lemma append_command_error:
  "append_command_bundle c io now fresh cid d entity dp db = (Inl e, db') \<Longrightarrow> db' = db"
  by (simp add: append_command_bundle_def transaction_Inl)

lemma append_command_log:
  assumes "append_command_bundle c io now fresh cid d entity dp db = (Inr out, db')"
    and "find_receipt c cid db = None"
  shows "o_created out" and "o_event_id out = fresh"
    and "event_id_str c fresh \<notin> ev_event_id ` set (events db)"
    and "next_sequence io db = Inr (o_sequence out)"
    and "events db' = events db @ [event_row_of c (o_sequence out) fresh (Some cid) d now]"
    and "command_receipts db' = command_receipts db @
      [\<lparr>rc_command_id = command_id_str c cid, rc_sequence = o_sequence out,
        rc_event_id = event_id_str c fresh, rc_received_at = fmt_time c now\<rparr>]"
  using assms(1)
  by (cases rule: append_command_cases;
      auto simp: assms(2) same_log_def dest!: write_entity_same_log insert_dispatch_same_log)+

lemma find_receipt_None: "find_receipt c cid db = None \<longleftrightarrow>
    command_id_str c cid \<notin> rc_command_id ` set (command_receipts db)"
  by (force simp: find_receipt_def find_None_iff)

lemma append_command_inv [inv_intros]:
  assumes inv: "log_inv c db" and ok: "codec_ok c" "draft_ok d" "time_ok now"
    and call: "append_command_bundle c io now fresh cid d entity dp db = (res, db')"
  shows "log_inv c db'"
proof (cases res)
  case (Inl e)
  with call inv show ?thesis by (auto dest: append_command_error)
next
  case (Inr out)
  note call' = call [unfolded Inr]
  show ?thesis
  proof (cases "find_receipt c cid db")
    case None
    note new = append_command_log [OF call' None]
    have "numbered ev_sequence (events db)" using inv by (simp add: log_inv_def)
    then have seq: "o_sequence out = int (length (events db)) + 1"
      using new(4) by (simp add: next_sequence_Inr)
    have row: "row_to_event c (event_row_of c (o_sequence out) fresh (Some cid) d now)
        = Inr (stamp (o_sequence out) fresh (Some cid) d now)"
      by (rule row_to_event_of [OF ok])
    show ?thesis
      using inv new(3) None seq row unfolding log_inv_def new(5,6)
      by (auto simp: receipts_of_def receipt_triple_def event_row_of_def find_receipt_None stamp_def)
  next
    case (Some r)
    from call' show ?thesis
      by (cases rule: append_command_cases) (use Some inv in auto)
  qed
qed

subsection \<open>The node-event path\<close>

lemma append_node_event_cases:
  assumes "append_node_event c io now eid d db = (Inr out, db')"
  obtains
    (duplicate) r where "find_event_row c eid db = Some r" "db' = db" "\<not> o_created out"
      "o_sequence out = ev_sequence r" "o_event_id out = eid"
  | (new) tx1 where "find_event_row c eid db = None" "o_created out" "o_event_id out = eid"
      "next_sequence io db = Inr (o_sequence out)"
      "event_id_str c eid \<notin> ev_event_id ` set (events db)"
      "tx1 = db\<lparr>events := events db @ [event_row_of c (o_sequence out) eid None d now]\<rparr>"
      "apply_terminal_lifecycle_and_wake c io eid (o_sequence out) d now tx1 = Inr db'"
  using assms
  by (auto simp: append_node_event_def store_simps bind_res_eq_Inr split: option.splits)

lemma append_node_event_error: "append_node_event c io now eid d db = (Inl e, db') \<Longrightarrow> db' = db"
  by (simp add: append_node_event_def transaction_Inl)

lemma append_node_event_log:
  assumes "append_node_event c io now eid d db = (Inr out, db')"
    and "find_event_row c eid db = None"
  shows "o_created out" and "o_event_id out = eid"
    and "event_id_str c eid \<notin> ev_event_id ` set (events db)"
    and "next_sequence io db = Inr (o_sequence out)"
    and "events db' = events db @ [event_row_of c (o_sequence out) eid None d now]"
    and "command_receipts db' = command_receipts db"
  using assms(1)
  by (cases rule: append_node_event_cases;
      auto simp: assms(2) same_log_def dest!: terminal_same_log)+

lemma append_node_event_inv [inv_intros]:
  assumes inv: "log_inv c db" and ok: "codec_ok c" "draft_ok d" "time_ok now"
    and call: "append_node_event c io now eid d db = (res, db')"
  shows "log_inv c db'"
proof (cases res)
  case (Inl e)
  with call inv show ?thesis by (auto dest: append_node_event_error)
next
  case (Inr out)
  note call' = call [unfolded Inr]
  show ?thesis
  proof (cases "find_event_row c eid db")
    case None
    note new = append_node_event_log [OF call' None]
    have "numbered ev_sequence (events db)" using inv by (simp add: log_inv_def)
    then have seq: "o_sequence out = int (length (events db)) + 1"
      using new(4) by (simp add: next_sequence_Inr)
    have row: "row_to_event c (event_row_of c (o_sequence out) eid None d now)
        = Inr (stamp (o_sequence out) eid None d now)"
      by (rule row_to_event_of [OF ok])
    show ?thesis
      using inv new(3) seq row unfolding log_inv_def new(5,6)
      by (auto simp: receipts_of_def event_row_of_def stamp_def)
  next
    case (Some r)
    from call' show ?thesis
      by (cases rule: append_node_event_cases) (use Some inv in auto)
  qed
qed

end
