(* ===== verification/Store_Steps.thy ===== *)
theory Store_Steps
  imports Store_Log
begin

text \<open>
  Runs of the store: every mutating operation of \<open>Hub\<close> as a step, the invariant over
  all tables that every step keeps, and the interface \<open>dedup_log\<close> of an idempotent,
  append-only log with its consequences for any interleaving of operations. The command
  path and the node-event path are its two interpretations.
\<close>

subsection \<open>The interface\<close>

text \<open>
  \<open>append\<close> is keyed; \<open>stored\<close> tells which sequence and event id a key already has;
  \<open>step\<close> is any operation of the same store, by any caller.
\<close>

locale dedup_log =
  fixes inv :: "'s \<Rightarrow> bool"
    and log :: "'s \<Rightarrow> event list"
    and stored :: "'k \<Rightarrow> 's \<Rightarrow> (int \<times> event_id) option"
    and append :: "'k \<Rightarrow> 'd \<Rightarrow> 's \<Rightarrow> (error, append_outcome) result \<times> 's"
    and good :: "'d \<Rightarrow> bool"
    and step :: "'s \<Rightarrow> 's \<Rightarrow> bool"
  assumes step_inv: "inv s \<Longrightarrow> step s s' \<Longrightarrow> inv s'"
    and step_log: "inv s \<Longrightarrow> step s s' \<Longrightarrow> \<exists>es. log s' = log s @ es"
    and step_stored: "inv s \<Longrightarrow> step s s' \<Longrightarrow> stored k s = Some p \<Longrightarrow> stored k s' = Some p"
    and append_step: "good d \<Longrightarrow> append k d s = (r, s') \<Longrightarrow> step s s'"
    and append_fail: "append k d s = (Inl e, s') \<Longrightarrow> s' = s"
    and append_stored: "inv s \<Longrightarrow> stored k s = Some p \<Longrightarrow> append k d s = (Inr out, s') \<Longrightarrow>
          s' = s \<and> p = (o_sequence out, o_event_id out) \<and> \<not> o_created out"
    and append_fresh: "inv s \<Longrightarrow> good d \<Longrightarrow> stored k s = None \<Longrightarrow> append k d s = (Inr out, s') \<Longrightarrow>
          o_created out \<and> o_sequence out = int (length (log s)) + 1 \<and>
          stored k s' = Some (o_sequence out, o_event_id out) \<and>
          (\<exists>e. log s' = log s @ [e] \<and> e_sequence e = o_sequence out \<and> e_event_id e = o_event_id out)"
begin

lemma steps_inv: "step\<^sup>*\<^sup>* s s' \<Longrightarrow> inv s \<Longrightarrow> inv s'"
  by (induction rule: rtranclp_induct) (auto intro: step_inv)

lemma steps_stored: "step\<^sup>*\<^sup>* s s' \<Longrightarrow> inv s \<Longrightarrow> stored k s = Some p \<Longrightarrow> stored k s' = Some p"
proof (induction rule: rtranclp_induct)
  case (step y z)
  then show ?case by (blast intro: step_stored steps_inv)
qed

lemma steps_log: "step\<^sup>*\<^sup>* s s' \<Longrightarrow> inv s \<Longrightarrow> \<exists>es. log s' = log s @ es"
proof (induction rule: rtranclp_induct)
  case base
  show ?case by simp
next
  case (step y z)
  then obtain es fs where "log y = log s @ es" and "log z = log y @ fs"
    by (blast dest: step_log steps_inv)
  then show ?case by simp
qed

text \<open>A key that was accepted once keeps its sequence and event id forever.\<close>

lemma append_remembers:
  assumes "inv s" and "good d" and "append k d s = (Inr out, s')"
  shows "stored k s' = Some (o_sequence out, o_event_id out)"
proof (cases "stored k s")
  case None
  then show ?thesis using append_fresh [OF assms(1,2) None assms(3)] by blast
next
  case (Some p)
  then show ?thesis using append_stored [OF assms(1) Some assms(3)] by auto
qed

lemma replay_is_idempotent:
  assumes "inv s" and "good d" and "append k d s = (Inr out, s1)" and "step\<^sup>*\<^sup>* s1 s2"
    and "append k d' s2 = (Inr out', s3)"
  shows "s3 = s2 \<and> o_sequence out' = o_sequence out \<and> o_event_id out' = o_event_id out
    \<and> \<not> o_created out'"
proof -
  have "inv s1" using step_inv assms(1) append_step [OF assms(2,3)] by blast
  then have "inv s2" and "stored k s2 = Some (o_sequence out, o_event_id out)"
    using steps_inv [OF assms(4)] steps_stored [OF assms(4)] append_remembers [OF assms(1-3)]
    by auto
  then show ?thesis using append_stored [OF _ _ assms(5)] by fastforce
qed

text \<open>Every acceptance of a new key is the next row of the log.\<close>

lemma fresh_extends_by_one:
  assumes "inv s" and "good d" and "stored k s = None" and "append k d s = (Inr out, s')"
  shows "length (log s') = Suc (length (log s))"
    and "o_sequence out = int (length (log s'))"
  using append_fresh [OF assms] by auto

lemma attempts_add_at_most_one:
  assumes "inv s" and "good d" and "append k d s = (r, s')"
  shows "length (log s') \<le> Suc (length (log s))"
proof (cases r)
  case (Inl e)
  then show ?thesis using append_fail assms(3) by fastforce
next
  case (Inr out)
  show ?thesis
  proof (cases "stored k s")
    case None
    with Inr show ?thesis using fresh_extends_by_one(1) assms by fastforce
  next
    case (Some p)
    with Inr show ?thesis using append_stored assms by fastforce
  qed
qed

end

subsection \<open>Steps\<close>

text \<open>A dispatch whose message serializes.\<close>

fun dispatch_ok :: "(node_id \<times> hub_to_node) option \<Rightarrow> bool" where
  "dispatch_ok None = True"
| "dispatch_ok (Some (_, m)) = msg_ok m"

inductive hub_step :: "'j codec \<Rightarrow> 'j hub \<Rightarrow> 'j hub \<Rightarrow> bool" for c where
  step_command: "draft_ok d \<Longrightarrow> time_ok now \<Longrightarrow> dispatch_ok dp \<Longrightarrow>
     append_command_bundle c io now fresh cid d entity dp db = (r, db') \<Longrightarrow> hub_step c db db'"
| step_node_event: "draft_ok d \<Longrightarrow> time_ok now \<Longrightarrow>
     append_node_event c io now eid d db = (r1, db') \<Longrightarrow> hub_step c db db'"
| step_ack: "acknowledge_dispatch c io now cid db = (r2, db') \<Longrightarrow> hub_step c db db'"
| step_ack_from: "acknowledge_dispatch_from c io now cid node db = (r2, db') \<Longrightarrow> hub_step c db db'"
| step_create_task: "create_task c io now tid title db = (r3, db') \<Longrightarrow> hub_step c db db'"
| step_insert_task: "insert_task c io task db = (r4, db') \<Longrightarrow> hub_step c db db'"
| step_start_run: "start_run c io now rid tid node engine policy db = (r5, db') \<Longrightarrow> hub_step c db db'"
| step_insert_run: "insert_run c io run db = (r4, db') \<Longrightarrow> hub_step c db db'"
| step_put_setting: "put_setting c io now key value db = (r4, db') \<Longrightarrow> hub_step c db db'"
| step_register: "register_assistant_worker c io now channel tid db = (r4, db') \<Longrightarrow> hub_step c db db'"
| step_complete_wake: "complete_assistant_wake c io now eid db = (r2, db') \<Longrightarrow> hub_step c db db'"
| step_defer_wake: "defer_assistant_wake c io now eid err db = (r2, db') \<Longrightarrow> hub_step c db db'"
| step_request: "request_approval c io now aid rid tid tool scope opts exp db = (r6, db') \<Longrightarrow>
     hub_step c db db'"
| step_resolve: "resolve_approval c io aid decision actor now db = (r6, db') \<Longrightarrow> hub_step c db db'"
| step_upsert_node: "upsert_node c io node_rec db = (r4, db') \<Longrightarrow> hub_step c db db'"

definition hub_reachable :: "'j codec \<Rightarrow> 'j hub \<Rightarrow> bool" where
  "hub_reachable c db \<longleftrightarrow> (hub_step c)\<^sup>*\<^sup>* empty_hub db"

text \<open>The operations off the log path leave events and receipts alone.\<close>

lemma ack_where_same_log: "ack_where c io now P db = (r, db') \<Longrightarrow> same_log db db'"
  by (cases r)
    (auto simp: ack_where_def store_simps Let_def same_log_def dest!: autocommit_Inl)

lemma insert_task_same_log: "insert_task c io task db = (r, db') \<Longrightarrow> same_log db db'"
  by (cases r)
    (auto simp: insert_task_def insert_task_row_def store_simps bind_res_eq_Inr same_log_def
      dest!: autocommit_Inl)

lemma insert_run_same_log: "insert_run c io run db = (r, db') \<Longrightarrow> same_log db db'"
  by (cases r)
    (auto simp: insert_run_def insert_run_row_def store_simps bind_res_eq_Inr same_log_def
      dest!: autocommit_Inl)

lemma create_task_same_log: "create_task c io now tid title db = (r, db') \<Longrightarrow> same_log db db'"
  by (auto simp: create_task_def Let_def split: prod.splits sum.splits dest: insert_task_same_log)

lemma start_run_same_log:
  "start_run c io now rid tid node engine policy db = (r, db') \<Longrightarrow> same_log db db'"
  by (auto simp: start_run_def Let_def split: prod.splits sum.splits dest: insert_run_same_log)

lemma setting_ops_same_log:
  "put_setting c io now key value db = (r, db') \<Longrightarrow> same_log db db'"
  "register_assistant_worker c io now channel tid db = (r, db') \<Longrightarrow> same_log db db'"
  "upsert_node c io node db = (r, db') \<Longrightarrow> same_log db db'"
  "complete_assistant_wake c io now eid db = (r', db') \<Longrightarrow> same_log db db'"
  by (cases r; cases r';
      auto simp: put_setting_def register_assistant_worker_def upsert_node_def
        complete_assistant_wake_def store_simps Let_def same_log_def dest!: autocommit_Inl)+

lemma defer_same_log: "defer_assistant_wake c io now eid err db = (r, db') \<Longrightarrow> same_log db db'"
  by (cases r)
    (auto simp: defer_assistant_wake_def store_simps Let_def same_log_def
      split: sum.splits option.splits dest!: autocommit_Inl)

lemma request_same_log:
  "request_approval c io now aid rid tid tool scope opts exp db = (r, db') \<Longrightarrow> same_log db db'"
  by (cases r)
    (auto simp: request_approval_def store_simps bind_res_eq_Inr Let_def same_log_def
      dest!: autocommit_Inl)

lemma resolve_same_log:
  "resolve_approval c io aid decision actor now db = (r, db') \<Longrightarrow> same_log db db'"
  by (cases r)
    (auto simp: resolve_approval_def store_simps bind_res_eq_Inr same_log_def
      split: if_splits dest!: transaction_Inl)

lemmas off_log = ack_where_same_log insert_task_same_log insert_run_same_log
  create_task_same_log start_run_same_log setting_ops_same_log defer_same_log
  request_same_log resolve_same_log

subsection \<open>Every step extends the log and keeps its invariant\<close>

definition log_extends :: "'j hub \<Rightarrow> 'j hub \<Rightarrow> bool" where
  "log_extends db db' \<longleftrightarrow>
     (\<exists>es rs. events db' = events db @ es \<and> command_receipts db' = command_receipts db @ rs)"

lemma same_log_extends: "same_log db db' \<Longrightarrow> log_extends db db'"
  by (simp add: same_log_def log_extends_def)

lemma log_extends_refl [simp]: "log_extends db db"
  by (simp add: log_extends_def)

lemma append_command_extends:
  assumes "append_command_bundle c io now fresh cid d entity dp db = (r, db')"
  shows "log_extends db db'"
proof (cases r)
  case (Inl e)
  with assms show ?thesis by (auto dest!: append_command_error)
next
  case (Inr out)
  from assms [unfolded Inr] show ?thesis
    by (cases rule: append_command_cases)
      (auto simp: log_extends_def same_log_def
        dest!: write_entity_same_log insert_dispatch_same_log)
qed

lemma append_node_event_extends:
  assumes "append_node_event c io now eid d db = (r, db')"
  shows "log_extends db db'"
proof (cases r)
  case (Inl e)
  with assms show ?thesis by (auto dest!: append_node_event_error)
next
  case (Inr out)
  from assms [unfolded Inr] show ?thesis
    by (cases rule: append_node_event_cases)
      (auto simp: log_extends_def same_log_def dest!: terminal_same_log)
qed

lemma hub_step_extends: "hub_step c db db' \<Longrightarrow> log_extends db db'"
  by (induction rule: hub_step.induct)
    (auto intro: append_command_extends append_node_event_extends same_log_extends
      dest: off_log simp: acknowledge_dispatch_def acknowledge_dispatch_from_def)

lemma hub_step_log_inv [inv_intros]:
  "hub_step c db db' \<Longrightarrow> codec_ok c \<Longrightarrow> log_inv c db \<Longrightarrow> log_inv c db'"
proof (induction rule: hub_step.induct)
  case step_command
  then show ?case by (blast intro: append_command_inv)
next
  case step_node_event
  then show ?case by (blast intro: append_node_event_inv)
qed (auto simp: acknowledge_dispatch_def acknowledge_dispatch_from_def same_log_inv
    dest!: off_log)

lemma log_extends_event_log: "log_extends db db' \<Longrightarrow> \<exists>es. event_log c db' = event_log c db @ es"
  by (auto simp: log_extends_def event_log_def)

subsection \<open>The two append paths as idempotent logs\<close>

definition stored_command :: "'j codec \<Rightarrow> command_id \<Rightarrow> 'j hub \<Rightarrow> (int \<times> event_id) option" where
  "stored_command c cid db =
     (case find_receipt c cid db of
        None \<Rightarrow> None
      | Some r \<Rightarrow> map_option (\<lambda>u. (rc_sequence r, EventId u)) (uuid_parse c (rc_event_id r)))"

definition stored_event :: "'j codec \<Rightarrow> event_id \<Rightarrow> 'j hub \<Rightarrow> (int \<times> event_id) option" where
  "stored_event c eid db = map_option (\<lambda>r. (ev_sequence r, eid)) (find_event_row c eid db)"

type_synonym 'j command_args =
  "faults \<times> time \<times> event_id \<times> event_draft \<times> entity_write \<times> (node_id \<times> hub_to_node) option"

fun command_append ::
  "'j codec \<Rightarrow> command_id \<Rightarrow> 'j command_args \<Rightarrow> 'j hub \<Rightarrow> (error, append_outcome) result \<times> 'j hub" where
  "command_append c cid (io, now, fresh, d, entity, dp) db =
     append_command_bundle c io now fresh cid d entity dp db"

fun command_good :: "'j command_args \<Rightarrow> bool" where
  "command_good (io, now, fresh, d, entity, dp) = (draft_ok d \<and> time_ok now \<and> dispatch_ok dp)"

fun node_append ::
  "'j codec \<Rightarrow> event_id \<Rightarrow> faults \<times> time \<times> event_draft \<Rightarrow> 'j hub
   \<Rightarrow> (error, append_outcome) result \<times> 'j hub" where
  "node_append c eid (io, now, d) db = append_node_event c io now eid d db"

fun node_good :: "faults \<times> time \<times> event_draft \<Rightarrow> bool" where
  "node_good (io, now, d) = (draft_ok d \<and> time_ok now)"

definition durable_inv :: "'j codec \<Rightarrow> 'j hub \<Rightarrow> bool" where
  "durable_inv c db \<longleftrightarrow> codec_ok c \<and> log_inv c db"

lemma find_receipt_extends:
  "log_extends db db' \<Longrightarrow> find_receipt c cid db = Some r \<Longrightarrow> find_receipt c cid db' = Some r"
  by (auto simp: log_extends_def find_receipt_def find_append)

lemma find_event_row_extends:
  "log_extends db db' \<Longrightarrow> find_event_row c eid db = Some r \<Longrightarrow> find_event_row c eid db' = Some r"
  by (auto simp: log_extends_def find_event_row_def find_append)

lemma stored_command_extends:
  "log_extends db db' \<Longrightarrow> stored_command c cid db = Some p \<Longrightarrow> stored_command c cid db' = Some p"
  by (auto simp: stored_command_def find_receipt_extends split: option.splits)

lemma stored_event_extends:
  "log_extends db db' \<Longrightarrow> stored_event c eid db = Some p \<Longrightarrow> stored_event c eid db' = Some p"
  by (auto simp: stored_event_def find_event_row_extends)

lemma event_log_snoc:
  assumes "row_to_event c row = Inr e" and "events db' = events db @ [row]"
  shows "event_log c db' = event_log c db @ [e]"
  using assms by (simp add: event_log_def)

lemma command_append_fresh:
  assumes inv: "durable_inv c db" and good: "command_good a" and new: "stored_command c cid db = None"
    and call: "command_append c cid a db = (Inr out, db')"
  shows "o_created out \<and> o_sequence out = int (length (event_log c db)) + 1 \<and>
    stored_command c cid db' = Some (o_sequence out, o_event_id out) \<and>
    (\<exists>e. event_log c db' = event_log c db @ [e] \<and> e_sequence e = o_sequence out \<and>
         e_event_id e = o_event_id out)"
proof -
  obtain io now fresh d entity dp where a: "a = (io, now, fresh, d, entity, dp)"
    by (cases a) auto
  have ok: "codec_ok c" "draft_ok d" "time_ok now" and log: "log_inv c db"
    using inv good by (simp_all add: a durable_inv_def)
  have none: "find_receipt c cid db = None"
  proof (rule ccontr)
    assume "find_receipt c cid db \<noteq> None"
    then obtain r where r: "find_receipt c cid db = Some r" by blast
    from call [unfolded a command_append.simps] show False
      by (cases rule: append_command_cases)
        (use r new in \<open>auto simp: stored_command_def event_id_from_str_def ok_or_eq_Inr\<close>)
  qed
  note facts = append_command_log [OF call [unfolded a command_append.simps] none]
  have seq: "o_sequence out = int (length (events db)) + 1"
    using facts(4) log by (simp add: next_sequence_Inr log_inv_def)
  have log': "event_log c db' = event_log c db @ [stamp (o_sequence out) fresh (Some cid) d now]"
    by (rule event_log_snoc [OF row_to_event_of [OF ok] facts(5)])
  show ?thesis
    using facts none seq log' ok
    by (simp add: event_log_def stored_command_def find_receipt_def find_append stamp_def
        event_id_str_def codec_okD)
qed

lemma node_append_fresh:
  assumes inv: "durable_inv c db" and good: "node_good a" and new: "stored_event c eid db = None"
    and call: "node_append c eid a db = (Inr out, db')"
  shows "o_created out \<and> o_sequence out = int (length (event_log c db)) + 1 \<and>
    stored_event c eid db' = Some (o_sequence out, o_event_id out) \<and>
    (\<exists>e. event_log c db' = event_log c db @ [e] \<and> e_sequence e = o_sequence out \<and>
         e_event_id e = o_event_id out)"
proof -
  obtain io now d where a: "a = (io, now, d)" by (cases a) auto
  have ok: "codec_ok c" "draft_ok d" "time_ok now" and log: "log_inv c db"
    using inv good by (simp_all add: a durable_inv_def)
  have none: "find_event_row c eid db = None" using new by (simp add: stored_event_def)
  note facts = append_node_event_log [OF call [unfolded a node_append.simps] none]
  have seq: "o_sequence out = int (length (events db)) + 1"
    using facts(4) log by (simp add: next_sequence_Inr log_inv_def)
  have log': "event_log c db' = event_log c db @ [stamp (o_sequence out) eid None d now]"
    by (rule event_log_snoc [OF row_to_event_of [OF ok] facts(5)])
  show ?thesis
    using facts none seq log'
    by (simp add: event_log_def stored_event_def find_event_row_def find_append stamp_def
        event_row_of_def)
qed

interpretation command_log: dedup_log "durable_inv c" "event_log c" "stored_command c"
  "command_append c" command_good "hub_step c" for c
proof
  show "durable_inv c s'" if "durable_inv c s" "hub_step c s s'" for s s'
    using that by (simp add: durable_inv_def hub_step_log_inv)
  show "\<exists>es. event_log c s' = event_log c s @ es" if "durable_inv c s" "hub_step c s s'" for s s'
    using that by (simp add: hub_step_extends log_extends_event_log)
  show "stored_command c k s' = Some p"
    if "durable_inv c s" "hub_step c s s'" "stored_command c k s = Some p" for s s' k p
    using that by (blast intro: stored_command_extends hub_step_extends)
  show "hub_step c s s'" if "command_good d" "command_append c k d s = (r, s')" for d k s r s'
    using that by (cases d) (auto intro: hub_step.step_command)
  show "s' = s" if "command_append c k d s = (Inl e, s')" for k d s e s'
    using that by (cases d) (auto dest: append_command_error)
  show "s' = s \<and> p = (o_sequence out, o_event_id out) \<and> \<not> o_created out"
    if "durable_inv c s" "stored_command c k s = Some p" "command_append c k d s = (Inr out, s')"
    for s k p d out s'
    using that
    by (cases d) (auto elim!: append_command_cases
        simp: stored_command_def event_id_from_str_def ok_or_eq_Inr split: option.splits)
qed (rule command_append_fresh)

interpretation node_log: dedup_log "durable_inv c" "event_log c" "stored_event c"
  "node_append c" node_good "hub_step c" for c
proof
  show "durable_inv c s'" if "durable_inv c s" "hub_step c s s'" for s s'
    using that by (rule command_log.step_inv)
  show "\<exists>es. event_log c s' = event_log c s @ es" if "durable_inv c s" "hub_step c s s'" for s s'
    using that by (rule command_log.step_log)
  show "stored_event c k s' = Some p"
    if "durable_inv c s" "hub_step c s s'" "stored_event c k s = Some p" for s s' k p
    using that by (blast intro: stored_event_extends hub_step_extends)
  show "hub_step c s s'" if "node_good d" "node_append c k d s = (r, s')" for d k s r s'
    using that by (cases d) (auto intro: hub_step.step_node_event)
  show "s' = s" if "node_append c k d s = (Inl e, s')" for k d s e s'
    using that by (cases d) (auto dest: append_node_event_error)
  show "s' = s \<and> p = (o_sequence out, o_event_id out) \<and> \<not> o_created out"
    if "durable_inv c s" "stored_event c k s = Some p" "node_append c k d s = (Inr out, s')"
    for s k p d out s'
    using that
    by (cases d) (auto elim!: append_node_event_cases simp: stored_event_def)
qed (rule node_append_fresh)

end
