(* ===== verification/Store_Tables.thy ===== *)
theory Store_Tables
  imports Store_Steps
begin

text \<open>
  The invariant over all tables of the store (primary keys, dispatches behind receipts,
  wakes behind events) and what the operations off the log do: entities, dispatches and
  their acknowledgement, approvals, lifecycle updates, wakes.
\<close>

subsection \<open>Keys\<close>

lemma update_where_key [simp]:
  "(\<And>r. key (f r) = key r) \<Longrightarrow> map key (update_where P f rows) = map key rows"
  by (simp add: update_where_def)

lemma update_where_keys [simp]:
  "(\<And>r. key (f r) = key r) \<Longrightarrow> key ` set (update_where P f rows) = key ` set rows"
  by (metis list.set_map update_where_key)

lemma upsert_distinct:
  assumes "distinct (map key rows)" and "\<And>x. key x = key r \<Longrightarrow> key (merge x) = key r"
  shows "distinct (map key (upsert key merge r rows))"
proof -
  have "map key (map (\<lambda>x. if key x = key r then merge x else x) rows) = map key rows"
    using assms(2) by (simp add: comp_def)
  then show ?thesis using assms(1) by (simp add: upsert_def del: map_map)
qed

text \<open>A dispatch is queued only with its command's receipt, a wake only with its event.\<close>

definition dispatches_ok :: "'j dispatch_row list \<Rightarrow> receipt_row list \<Rightarrow> bool" where
  "dispatches_ok ds rs \<longleftrightarrow>
     distinct (map pd_command_id ds) \<and> pd_command_id ` set ds \<subseteq> rc_command_id ` set rs"

definition wakes_ok :: "wake_row list \<Rightarrow> 'j event_row list \<Rightarrow> bool" where
  "wakes_ok ws es \<longleftrightarrow>
     distinct (map wk_event_id ws) \<and>
     (\<lambda>w. (wk_event_id w, wk_sequence w)) ` set ws \<subseteq> (\<lambda>r. (ev_event_id r, ev_sequence r)) ` set es"

lemma dispatches_ok_more [simp]: "dispatches_ok ds rs \<Longrightarrow> dispatches_ok ds (rs @ [r])"
  by (auto simp: dispatches_ok_def)

lemma dispatches_ok_insert [simp]:
  "dispatches_ok (ds @ [d]) rs \<longleftrightarrow> dispatches_ok ds rs \<and> pd_command_id d \<notin> pd_command_id ` set ds \<and>
     pd_command_id d \<in> rc_command_id ` set rs"
  unfolding dispatches_ok_def by auto

lemma dispatches_ok_update [simp]:
  "(\<And>r. pd_command_id (f r) = pd_command_id r) \<Longrightarrow>
     dispatches_ok (update_where P f ds) rs \<longleftrightarrow> dispatches_ok ds rs"
  by (simp add: dispatches_ok_def)

lemma wakes_ok_more [simp]: "wakes_ok ws es \<Longrightarrow> wakes_ok ws (es @ [e])"
  by (auto simp: wakes_ok_def)

lemma wakes_ok_insert:
  "wakes_ok (ws @ [w]) es \<longleftrightarrow> wakes_ok ws es \<and> wk_event_id w \<notin> wk_event_id ` set ws \<and>
     (wk_event_id w, wk_sequence w) \<in> (\<lambda>r. (ev_event_id r, ev_sequence r)) ` set es"
  unfolding wakes_ok_def by auto

lemma wakes_ok_update [simp]:
  assumes "\<And>w. wk_event_id (f w) = wk_event_id w" and "\<And>w. wk_sequence (f w) = wk_sequence w"
  shows "wakes_ok (update_where P f ws) es \<longleftrightarrow> wakes_ok ws es"
  using assms by (simp add: wakes_ok_def)

definition tables_inv :: "'j hub \<Rightarrow> bool" where
  "tables_inv db \<longleftrightarrow>
     distinct (map tk_task_id (tasks db)) \<and>
     distinct (map rn_run_id (runs db)) \<and>
     distinct (map ap_approval_id (approvals db)) \<and>
     distinct (map nd_node_id (nodes db)) \<and>
     distinct (map cs_key (control_settings db)) \<and>
     distinct (map aw_task_id (assistant_workers db)) \<and>
     dispatches_ok (dispatches db) (command_receipts db) \<and>
     wakes_ok (assistant_wakes db) (events db)"

lemma tables_inv_empty [inv_intros]: "tables_inv empty_hub"
  by (simp add: tables_inv_def empty_hub_def dispatches_ok_def wakes_ok_def)

lemma set_task_status_inv [inv_intros]: "tables_inv db \<Longrightarrow> tables_inv (set_task_status c st tid db)"
  by (simp add: tables_inv_def set_task_status_def)

lemma set_run_status_inv [inv_intros]: "tables_inv db \<Longrightarrow> tables_inv (set_run_status c st rid db)"
  by (simp add: tables_inv_def set_run_status_def)

lemma insert_task_row_tables [inv_intros]:
  "insert_task_row c io task db = Inr db' \<Longrightarrow> tables_inv db \<Longrightarrow> tables_inv db'"
  by (auto simp: insert_task_row_def store_simps bind_res_eq_Inr tables_inv_def)

lemma insert_run_row_tables [inv_intros]:
  "insert_run_row c io run db = Inr db' \<Longrightarrow> tables_inv db \<Longrightarrow> tables_inv db'"
  by (auto simp: insert_run_row_def store_simps bind_res_eq_Inr tables_inv_def)

lemma write_entity_tables:
  "write_entity c io entity db = Inr db' \<Longrightarrow> tables_inv db \<Longrightarrow> tables_inv db'"
  by (cases entity)
    (auto simp: bind_res_eq_Inr store_simps intro: insert_task_row_tables insert_run_row_tables
      set_task_status_inv)

lemma insert_dispatch_tables:
  assumes "insert_dispatch c io cid dp recv db = Inr db'" and "tables_inv db"
    and "command_id_str c cid \<in> rc_command_id ` set (command_receipts db)"
  shows "tables_inv db'"
  using assms
  by (auto simp: insert_dispatch_def store_simps bind_res_eq_Inr tables_inv_def
      split: option.splits)

lemma insert_wake_tables:
  assumes "insert_wake c io eid s channel tid rid kind recv db = Inr db'" and "tables_inv db"
    and "(event_id_str c eid, s) \<in> (\<lambda>r. (ev_event_id r, ev_sequence r)) ` set (events db)"
  shows "tables_inv db'"
  using assms
  by (clarsimp simp: insert_wake_def store_simps bind_res_eq_Inr tables_inv_def Let_def wakes_ok_insert
      split: if_splits simp del: image_iff)

lemma terminal_cases:
  assumes "apply_terminal_lifecycle_and_wake c io eid s d recv db = Inr db'"
  obtains
    (none) "db' = db" "terminal_status (d_kind d) = None \<or> d_run_id d = None"
  | (status) rs ts w rid where "terminal_status (d_kind d) = Some (rs, ts, w)" "d_run_id d = Some rid"
      "db' = set_task_status c ts (d_task_id d) (set_run_status c rs rid db)"
      "w \<longrightarrow> find (\<lambda>r. aw_task_id r = task_id_str c (d_task_id d)) (assistant_workers db) = None"
  | (wake) rs ts rid wr where "terminal_status (d_kind d) = Some (rs, ts, True)" "d_run_id d = Some rid"
      "find (\<lambda>r. aw_task_id r = task_id_str c (d_task_id d)) (assistant_workers db) = Some wr"
      "insert_wake c io eid s (aw_channel wr) (d_task_id d) rid (d_kind d) recv
         (set_task_status c ts (d_task_id d) (set_run_status c rs rid db)) = Inr db'"
proof (cases "terminal_status (d_kind d)")
  case None
  with assms show ?thesis by (intro none) (simp_all add: apply_terminal_lifecycle_and_wake_def)
next
  case (Some p)
  then obtain rs ts w where p: "terminal_status (d_kind d) = Some (rs, ts, w)" by (cases p) auto
  show ?thesis
  proof (cases "d_run_id d")
    case None
    with assms p show ?thesis by (intro none) (simp_all add: apply_terminal_lifecycle_and_wake_def)
  next
    case (Some rid)
    let ?tx = "set_task_status c ts (d_task_id d) (set_run_status c rs rid db)"
    let ?worker = "find (\<lambda>r. aw_task_id r = task_id_str c (d_task_id d)) (assistant_workers db)"
    have ws: "assistant_workers ?tx = assistant_workers db"
      by (simp add: set_task_status_def set_run_status_def)
    have run: "if w then (case ?worker of None \<Rightarrow> db' = ?tx
        | Some wr \<Rightarrow> insert_wake c io eid s (aw_channel wr) (d_task_id d) rid (d_kind d) recv ?tx = Inr db')
      else db' = ?tx"
      using assms
      by (cases ?worker)
        (simp_all add: apply_terminal_lifecycle_and_wake_def p Some bind_res_eq_Inr exec_eq_Inr ws
          split: if_splits)
    show ?thesis
    proof (cases "w \<and> ?worker \<noteq> None")
      case True
      then obtain wr where "?worker = Some wr" by blast
      with True run have "insert_wake c io eid s (aw_channel wr) (d_task_id d) rid (d_kind d) recv ?tx
          = Inr db'" by simp
      with p True have "terminal_status (d_kind d) = Some (rs, ts, True)" by simp
      from wake [OF this Some \<open>?worker = Some wr\<close> \<open>insert_wake _ _ _ _ _ _ _ _ _ _ = _\<close>]
      show ?thesis .
    next
      case False
      with run have "db' = ?tx" by (auto split: if_splits)
      with False show ?thesis by (intro status [OF p Some]) auto
    qed
  qed
qed

lemma terminal_tables:
  assumes "apply_terminal_lifecycle_and_wake c io eid s d recv db = Inr db'" and "tables_inv db"
    and "(event_id_str c eid, s) \<in> (\<lambda>r. (ev_event_id r, ev_sequence r)) ` set (events db)"
  shows "tables_inv db'"
  using assms(1)
proof (cases rule: terminal_cases)
  case (wake rs ts rid wr)
  then show ?thesis
    using assms(2,3)
    by (intro insert_wake_tables [OF wake(4)] set_task_status_inv set_run_status_inv)
      (simp_all add: set_task_status_def set_run_status_def)
qed (use assms(2) in \<open>simp_all add: set_task_status_inv set_run_status_inv\<close>)

lemma append_command_tables:
  assumes inv: "tables_inv db"
    and call: "append_command_bundle c io now fresh cid d entity dp db = (r, db')"
  shows "tables_inv db'"
proof (cases r)
  case (Inl e)
  with call inv show ?thesis by (auto dest!: append_command_error)
next
  case (Inr out)
  from call [unfolded Inr] show ?thesis
  proof (cases rule: append_command_cases)
    case (replay r)
    with inv show ?thesis by simp
  next
    case (new tx2 tx3)
    have "tables_inv tx2" using inv by (simp add: new(6) tables_inv_def)
    then have "tables_inv tx3" using new(7) by (rule write_entity_tables [rotated])
    moreover have "command_receipts tx3 = command_receipts tx2"
      using write_entity_same_log [OF new(7)] by (simp add: same_log_def)
    ultimately show ?thesis
      using new(6,8) by (intro insert_dispatch_tables [OF new(8)]) auto
  qed
qed

lemma append_node_event_tables:
  assumes inv: "tables_inv db" and call: "append_node_event c io now eid d db = (r, db')"
  shows "tables_inv db'"
proof (cases r)
  case (Inl e)
  with call inv show ?thesis by (auto dest!: append_node_event_error)
next
  case (Inr out)
  from call [unfolded Inr] show ?thesis
  proof (cases rule: append_node_event_cases)
    case (duplicate r)
    with inv show ?thesis by simp
  next
    case (new tx1)
    have "tables_inv tx1" using inv by (simp add: new(6) tables_inv_def)
    then show ?thesis
      by (rule terminal_tables [OF new(7)]) (simp add: new(6) event_row_of_def)
  qed
qed

lemma ack_where_tables: "ack_where c io now P db = (r, db') \<Longrightarrow> tables_inv db \<Longrightarrow> tables_inv db'"
  by (cases r)
    (auto simp: ack_where_def store_simps Let_def tables_inv_def dest!: autocommit_Inl)

lemma insert_task_tables: "insert_task c io task db = (r, db') \<Longrightarrow> tables_inv db \<Longrightarrow> tables_inv db'"
  by (cases r)
    (auto simp: insert_task_def store_simps bind_res_eq_Inr dest!: autocommit_Inl
      intro: insert_task_row_tables)

lemma insert_run_tables: "insert_run c io run db = (r, db') \<Longrightarrow> tables_inv db \<Longrightarrow> tables_inv db'"
  by (cases r)
    (auto simp: insert_run_def store_simps bind_res_eq_Inr dest!: autocommit_Inl
      intro: insert_run_row_tables)

lemma create_start_tables:
  "create_task c io now tid title db = (r, db') \<Longrightarrow> tables_inv db \<Longrightarrow> tables_inv db'"
  "start_run c io now rid tid node engine policy db = (r', db') \<Longrightarrow> tables_inv db \<Longrightarrow> tables_inv db'"
  by (auto simp: create_task_def start_run_def Let_def split: prod.splits sum.splits
      dest: insert_task_tables insert_run_tables)

lemma setting_ops_tables:
  "put_setting c io now key value db = (r, db') \<Longrightarrow> tables_inv db \<Longrightarrow> tables_inv db'"
  "register_assistant_worker c io now channel tid db = (r, db') \<Longrightarrow> tables_inv db \<Longrightarrow> tables_inv db'"
  "upsert_node c io node db = (r, db') \<Longrightarrow> tables_inv db \<Longrightarrow> tables_inv db'"
  by (cases r;
      auto simp: put_setting_def register_assistant_worker_def upsert_node_def store_simps Let_def
        tables_inv_def dest!: autocommit_Inl intro!: upsert_distinct)+

lemma wake_ops_tables:
  "complete_assistant_wake c io now eid db = (r, db') \<Longrightarrow> tables_inv db \<Longrightarrow> tables_inv db'"
  "defer_assistant_wake c io now eid err db = (r, db') \<Longrightarrow> tables_inv db \<Longrightarrow> tables_inv db'"
  by (cases r;
      auto simp: complete_assistant_wake_def defer_assistant_wake_def store_simps Let_def
        tables_inv_def split: sum.splits option.splits dest!: autocommit_Inl)+

lemma approval_ops_tables:
  "request_approval c io now aid rid tid tool scope opts exp db = (r, db') \<Longrightarrow> tables_inv db \<Longrightarrow>
     tables_inv db'"
  "resolve_approval c io aid decision actor now db = (r, db') \<Longrightarrow> tables_inv db \<Longrightarrow> tables_inv db'"
  by (cases r;
      auto simp: request_approval_def resolve_approval_def store_simps bind_res_eq_Inr Let_def
        tables_inv_def split: if_splits dest!: autocommit_Inl transaction_Inl)+

lemma hub_step_tables [inv_intros]: "hub_step c db db' \<Longrightarrow> tables_inv db \<Longrightarrow> tables_inv db'"
  by (induction rule: hub_step.induct)
    (auto simp: acknowledge_dispatch_def acknowledge_dispatch_from_def
      intro: append_command_tables append_node_event_tables ack_where_tables insert_task_tables
        insert_run_tables create_start_tables setting_ops_tables wake_ops_tables
        approval_ops_tables)

lemma hub_reachable_inv:
  assumes "hub_reachable c db" and "codec_ok c"
  shows "durable_inv c db" and "tables_inv db"
proof -
  have "durable_inv c empty_hub" using assms(2) by (simp add: durable_inv_def log_inv_empty)
  then show "durable_inv c db"
    using assms(1) unfolding hub_reachable_def by (rule command_log.steps_inv [rotated])
  from assms(1) show "tables_inv db"
    unfolding hub_reachable_def
    by (induction rule: rtranclp_induct) (auto intro: tables_inv_empty hub_step_tables)
qed

end
