(* ===== verification/Store_Entities.thy ===== *)
theory Store_Entities
  imports Store_Tables
begin

text \<open>
  The tables beside the log over any run of the store: which operations touch which
  table, that a resolved approval is final, that an acknowledged dispatch stays
  acknowledged and a queued one stays queued until its node acknowledges it, and that a
  task keeps its identity while its status moves.
\<close>

subsection \<open>Rows by key\<close>

definition row_at :: "('r \<Rightarrow> string) \<Rightarrow> string \<Rightarrow> 'r list \<Rightarrow> 'r option" where
  "row_at key k rows = find (\<lambda>r. key r = k) rows"

lemma row_at_update:
  assumes "\<And>r. key (f r) = key r"
  shows "row_at key k (update_where P f rows) =
    map_option (\<lambda>r. if P r then f r else r) (row_at key k rows)"
  using assms by (induction rows) (auto simp: row_at_def update_where_def)

lemma row_at_append: "row_at key k rows = Some r \<Longrightarrow> row_at key k (rows @ rows') = Some r"
  by (simp add: row_at_def find_append)

lemma row_at_new: "k \<notin> key ` set rows \<Longrightarrow> key r = k \<Longrightarrow> row_at key k (rows @ [r]) = Some r"
  by (induction rows) (auto simp: row_at_def)

lemma row_at_SomeD: "row_at key k rows = Some r \<Longrightarrow> r \<in> set rows \<and> key r = k"
  by (auto simp: row_at_def dest: find_SomeD)

lemma row_at_unique:
  "distinct (map key rows) \<Longrightarrow> r \<in> set rows \<Longrightarrow> row_at key (key r) rows = Some r"
  by (simp add: row_at_def find_Some_distinct)

subsection \<open>Which operation touches which table\<close>

lemma entity_frames:
  "write_entity c io entity tx = Inr tx' \<Longrightarrow> approvals tx' = approvals tx \<and> dispatches tx' = dispatches tx"
  by (cases entity)
    (auto simp: insert_task_row_def insert_run_row_def set_task_status_def store_simps bind_res_eq_Inr)

lemma insert_dispatch_frames:
  "insert_dispatch c io cid dp recv tx = Inr tx' \<Longrightarrow> approvals tx' = approvals tx \<and> tasks tx' = tasks tx
    \<and> (\<exists>ds. dispatches tx' = dispatches tx @ ds)"
  by (auto simp: insert_dispatch_def store_simps bind_res_eq_Inr split: option.splits)

lemma terminal_frames:
  "apply_terminal_lifecycle_and_wake c io eid s d recv tx = Inr tx' \<Longrightarrow>
    approvals tx' = approvals tx \<and> dispatches tx' = dispatches tx"
  by (erule terminal_cases)
    (auto simp: insert_wake_def set_run_status_def set_task_status_def store_simps bind_res_eq_Inr
      Let_def split: if_splits)

lemma append_command_frames:
  assumes "append_command_bundle c io now fresh cid d entity dp db = (r, db')"
  shows "approvals db' = approvals db \<and> (\<exists>ds. dispatches db' = dispatches db @ ds)"
proof (cases r)
  case (Inl e)
  with assms show ?thesis by (auto dest!: append_command_error)
next
  case (Inr out)
  from assms [unfolded Inr] show ?thesis
    by (cases rule: append_command_cases) (fastforce dest!: entity_frames insert_dispatch_frames)+
qed

lemma append_node_event_frames:
  assumes "append_node_event c io now eid d db = (r, db')"
  shows "approvals db' = approvals db \<and> dispatches db' = dispatches db"
proof (cases r)
  case (Inl e)
  with assms show ?thesis by (auto dest!: append_node_event_error)
next
  case (Inr out)
  from assms [unfolded Inr] show ?thesis
    by (cases rule: append_node_event_cases) (auto dest!: terminal_frames)
qed

lemma ack_where_frames: "ack_where c io now P db = (r, db') \<Longrightarrow> approvals db' = approvals db"
  by (cases r) (auto simp: ack_where_def store_simps Let_def dest!: autocommit_Inl)

lemma row_ops_frames:
  "insert_task c io task db = (r, db') \<Longrightarrow> approvals db' = approvals db \<and> dispatches db' = dispatches db"
  "insert_run c io run db = (r, db') \<Longrightarrow> approvals db' = approvals db \<and> dispatches db' = dispatches db"
  by (cases r; auto simp: insert_task_def insert_run_def insert_task_row_def insert_run_row_def
      store_simps bind_res_eq_Inr dest!: autocommit_Inl)+

lemma create_start_frames:
  "create_task c io now tid title db = (r, db') \<Longrightarrow>
     approvals db' = approvals db \<and> dispatches db' = dispatches db"
  "start_run c io now rid tid node engine policy db = (r', db') \<Longrightarrow>
     approvals db' = approvals db \<and> dispatches db' = dispatches db"
  by (auto simp: create_task_def start_run_def Let_def split: prod.splits sum.splits
      dest: row_ops_frames)

lemma setting_frames:
  "put_setting c io now key value db = (r, db') \<Longrightarrow>
     approvals db' = approvals db \<and> dispatches db' = dispatches db"
  "register_assistant_worker c io now channel tid db = (r, db') \<Longrightarrow>
     approvals db' = approvals db \<and> dispatches db' = dispatches db"
  "upsert_node c io node db = (r, db') \<Longrightarrow>
     approvals db' = approvals db \<and> dispatches db' = dispatches db"
  by (cases r; auto simp: put_setting_def register_assistant_worker_def upsert_node_def store_simps
      Let_def dest!: autocommit_Inl)+

lemma wake_frames:
  "complete_assistant_wake c io now eid db = (r, db') \<Longrightarrow>
     approvals db' = approvals db \<and> dispatches db' = dispatches db"
  "defer_assistant_wake c io now eid err db = (r, db') \<Longrightarrow>
     approvals db' = approvals db \<and> dispatches db' = dispatches db"
  by (cases r; auto simp: complete_assistant_wake_def defer_assistant_wake_def store_simps Let_def
      split: sum.splits option.splits dest!: autocommit_Inl)+

lemma approval_frames:
  "request_approval c io now aid rid tid tool scope opts exp db = (r, db') \<Longrightarrow>
     dispatches db' = dispatches db \<and> (\<exists>as. approvals db' = approvals db @ as)"
  "resolve_approval c io aid decision actor now db = (r, db') \<Longrightarrow> dispatches db' = dispatches db"
  by (cases r; auto simp: request_approval_def resolve_approval_def store_simps bind_res_eq_Inr
      Let_def split: if_splits dest!: autocommit_Inl transaction_Inl)+

lemmas quiet_frames = append_node_event_frames row_ops_frames create_start_frames setting_frames
  wake_frames

subsection \<open>A resolved approval is final\<close>

lemma resolve_cases:
  assumes "resolve_approval c io aid decision actor now db = (Inr a, db')"
  obtains
    (already) "find_approval c aid db = Inr (Some a)" "\<not> is_pending a" "db' = db" "decision \<noteq> Pending"
  | (now) b where "find_approval c aid db = Inr (Some b)" "is_pending b" "decision \<noteq> Pending"
      "a = b\<lparr>a_decision := decision, a_resolved_by := Some actor, a_resolved_at := Some now\<rparr>"
      "db' = db\<lparr>approvals :=
         update_where (\<lambda>r. ap_approval_id r = approval_id_str c aid)
           (\<lambda>r. r\<lparr>ap_decision := decision_as_str decision, ap_resolved_by := Some actor,
                   ap_resolved_at := Some (fmt_time c now)\<rparr>) (approvals db)\<rparr>"
  using assms
  by (auto simp: resolve_approval_def store_simps bind_res_eq_Inr ok_or_eq_Inr split: if_splits)

lemma find_approval_row:
  "find_approval c aid db = Inr (Some a) \<longleftrightarrow>
    (\<exists>r. row_at ap_approval_id (approval_id_str c aid) (approvals db) = Some r \<and> row_to_approval c r = Inr a)"
  by (auto simp: find_approval_def row_at_def store_simps bind_res_eq_Inr split: option.splits)

lemma row_to_approval_decision:
  "row_to_approval c r = Inr a \<Longrightarrow> decision_from_db (ap_decision r) = Inr (a_decision a)"
  by (auto simp: row_to_approval_def bind_res_eq_Inr status_err_def split: sum.splits)

definition settled :: "string \<Rightarrow> 'j approval_row \<Rightarrow> 'j hub \<Rightarrow> bool" where
  "settled k r db \<longleftrightarrow> row_at ap_approval_id k (approvals db) = Some r \<and> ap_decision r \<noteq> ''pending''"

lemma settled_resolve:
  assumes "settled k r db" and "resolve_approval c io aid decision actor now db = (res, db')"
  shows "settled k r db'"
proof (cases res)
  case (Inl e)
  then have "db' = db" using assms(2)
    by (auto simp: resolve_approval_def split: if_splits dest!: transaction_Inl)
  with assms(1) show ?thesis by simp
next
  case (Inr a)
  from assms(2) [unfolded Inr] show ?thesis
  proof (cases rule: resolve_cases)
    case already
    with assms(1) show ?thesis by simp
  next
    case (now b)
    have "k \<noteq> approval_id_str c aid"
    proof
      assume "k = approval_id_str c aid"
      then have "row_to_approval c r = Inr b"
        using now(1) assms(1) by (auto simp: find_approval_row settled_def)
      then show False
        using now(2) assms(1) decision_tok.to_of [OF row_to_approval_decision]
        by (fastforce simp: settled_def is_pending_def)
    qed
    with assms(1) now(5) show ?thesis
      by (auto simp: settled_def row_at_update dest: row_at_SomeD)
  qed
qed

lemma settled_step: "hub_step c db db' \<Longrightarrow> settled k r db \<Longrightarrow> settled k r db'"
proof (induction rule: hub_step.induct)
  case step_command
  then show ?case by (auto simp: settled_def dest!: append_command_frames)
next
  case step_request
  then show ?case by (auto simp: settled_def row_at_append dest!: approval_frames)
next
  case step_resolve
  then show ?case by (blast intro: settled_resolve)
qed (auto simp: settled_def acknowledge_dispatch_def acknowledge_dispatch_from_def
    dest!: quiet_frames ack_where_frames)

lemma settled_steps: "(hub_step c)\<^sup>*\<^sup>* db db' \<Longrightarrow> settled k r db \<Longrightarrow> settled k r db'"
  by (induction rule: rtranclp_induct) (auto intro: settled_step)

lemma resolve_settles:
  assumes "codec_ok c" and "time_ok now"
    and call: "resolve_approval c io aid decision actor now db = (Inr a, db')"
  shows "\<exists>r. settled (approval_id_str c aid) r db' \<and> row_to_approval c r = Inr a"
  using call
proof (cases rule: resolve_cases)
  case already
  then obtain r where r: "row_at ap_approval_id (approval_id_str c aid) (approvals db) = Some r"
      and a: "row_to_approval c r = Inr a"
    by (auto simp: find_approval_row)
  have "ap_decision r \<noteq> ''pending''"
    using already(2) row_to_approval_decision [OF a] by (auto simp: is_pending_def decision_from_db_def)
  with r a already(3) show ?thesis by (auto simp: settled_def)
next
  case (now b)
  then obtain r where r: "row_at ap_approval_id (approval_id_str c aid) (approvals db) = Some r"
      and b: "row_to_approval c r = Inr b"
    by (auto simp: find_approval_row)
  let ?r = "r\<lparr>ap_decision := decision_as_str decision, ap_resolved_by := Some actor,
              ap_resolved_at := Some (fmt_time c now)\<rparr>"
  have "row_at ap_approval_id (approval_id_str c aid) (approvals db') = Some ?r"
    using r now(5) row_at_SomeD [OF r] by (simp add: row_at_update)
  moreover have "row_to_approval c ?r = Inr a"
    using b now(4) assms(1,2)
    by (auto simp: row_to_approval_def bind_res_eq_Inr opt_time_def time_round_trip)
  moreover have "decision_as_str decision \<noteq> ''pending''"
    using now(3) by (cases decision) auto
  ultimately show ?thesis by (auto simp: settled_def)
qed

lemma settled_get:
  assumes "settled (approval_id_str c aid) r db" and "row_to_approval c r = Inr a"
  shows "find_approval c aid db = Inr (Some a)" and "\<not> is_pending a"
proof -
  show "find_approval c aid db = Inr (Some a)"
    using assms by (auto simp: settled_def find_approval_row)
  show "\<not> is_pending a"
    using assms(1) decision_tok.to_of [OF row_to_approval_decision [OF assms(2)]]
    by (auto simp: settled_def is_pending_def)
qed

subsection \<open>Dispatches\<close>

text \<open>What may happen to one queued dispatch: nothing, or its first acknowledgement.\<close>

definition dispatch_evolves :: "'j dispatch_row \<Rightarrow> 'j dispatch_row \<Rightarrow> bool" where
  "dispatch_evolves r r' \<longleftrightarrow>
     r' = r \<or> pd_acked_at r = None \<and> (\<exists>t. r' = r\<lparr>pd_acked_at := Some t\<rparr>)"

lemma dispatch_evolves_trans:
  "dispatch_evolves r r' \<Longrightarrow> dispatch_evolves r' r'' \<Longrightarrow> dispatch_evolves r r''"
  by (auto simp: dispatch_evolves_def)

lemma ack_where_row:
  assumes "ack_where c io now P db = (res, db')"
    and "row_at pd_command_id k (dispatches db) = Some r"
  shows "\<exists>r'. row_at pd_command_id k (dispatches db') = Some r' \<and> dispatch_evolves r r'"
  using assms
  by (cases res)
    (auto simp: ack_where_def store_simps Let_def row_at_update dispatch_evolves_def
      dest!: autocommit_Inl)

lemma dispatch_step:
  "hub_step c db db' \<Longrightarrow> row_at pd_command_id k (dispatches db) = Some r \<Longrightarrow>
    \<exists>r'. row_at pd_command_id k (dispatches db') = Some r' \<and> dispatch_evolves r r'"
proof (induction rule: hub_step.induct)
  case step_command
  then show ?case
    by (auto simp: row_at_append dispatch_evolves_def dest!: append_command_frames)
next
  case step_ack
  then show ?case unfolding acknowledge_dispatch_def by (rule ack_where_row)
next
  case step_ack_from
  then show ?case unfolding acknowledge_dispatch_from_def by (rule ack_where_row)
qed (auto simp: dispatch_evolves_def dest!: quiet_frames approval_frames)

lemma dispatch_steps:
  "(hub_step c)\<^sup>*\<^sup>* db db' \<Longrightarrow> row_at pd_command_id k (dispatches db) = Some r \<Longrightarrow>
    \<exists>r'. row_at pd_command_id k (dispatches db') = Some r' \<and> dispatch_evolves r r'"
proof (induction rule: rtranclp_induct)
  case base
  then show ?case by (auto simp: dispatch_evolves_def)
next
  case (step y z)
  then show ?case by (blast dest: dispatch_step intro: dispatch_evolves_trans)
qed

text \<open>Every queued row decodes, so a reconnecting node is never refused its queue.\<close>

definition queue_ok :: "'j codec \<Rightarrow> 'j hub \<Rightarrow> bool" where
  "queue_ok c db \<longleftrightarrow>
     (\<forall>r \<in> set (dispatches db). \<exists>p. decode_dispatch c r = Inr p \<and>
        pd_command_id r = command_id_str c (p_command_id p))"

lemma decode_dispatch_acked [simp]:
  "decode_dispatch c (r\<lparr>pd_acked_at := t\<rparr>) = decode_dispatch c r"
  by (simp add: decode_dispatch_def)

lemma queue_ok_ack: "ack_where c io now P db = (res, db') \<Longrightarrow> queue_ok c db \<Longrightarrow> queue_ok c db'"
  by (cases res)
    (auto simp: ack_where_def store_simps Let_def queue_ok_def update_where_def dest!: autocommit_Inl)

lemma decode_dispatch_of:
  assumes "codec_ok c" and "msg_ok m" and "time_ok now"
  shows "decode_dispatch c \<lparr>pd_command_id = command_id_str c cid, pd_node_id = node_str node,
      pd_message = msg_str c m, pd_created_at = fmt_time c now, pd_acked_at = a\<rparr>
    = Inr \<lparr>p_command_id = cid, p_node_id = node, p_message = m, p_created_at = now\<rparr>"
  using assms by (simp add: decode_dispatch_def id_round_trips codec_okD time_round_trip)

lemma queue_ok_command:
  assumes "append_command_bundle c io now fresh cid d entity dp db = (r, db')"
    and "codec_ok c" and "time_ok now" and "dispatch_ok dp" and "queue_ok c db"
  shows "queue_ok c db'"
proof (cases r)
  case (Inl e)
  with assms show ?thesis by (auto dest!: append_command_error)
next
  case (Inr out)
  from assms(1) [unfolded Inr] show ?thesis
  proof (cases rule: append_command_cases)
    case (new tx2 tx3)
    then have "dispatches tx3 = dispatches db" by (auto dest: entity_frames)
    then show ?thesis
      using new(8) assms(2-5) decode_dispatch_of [OF assms(2) _ assms(3)]
      by (cases dp) (auto simp: insert_dispatch_def store_simps bind_res_eq_Inr queue_ok_def)
  qed (use assms in simp)
qed

lemma queue_ok_step: "hub_step c db db' \<Longrightarrow> codec_ok c \<Longrightarrow> queue_ok c db \<Longrightarrow> queue_ok c db'"
proof (induction rule: hub_step.induct)
  case step_command
  then show ?case by (blast intro: queue_ok_command)
next
  case step_ack
  then show ?case unfolding acknowledge_dispatch_def by (blast intro: queue_ok_ack)
next
  case step_ack_from
  then show ?case unfolding acknowledge_dispatch_from_def by (blast intro: queue_ok_ack)
qed (auto simp: queue_ok_def dest!: quiet_frames approval_frames)

lemma queue_ok_empty: "queue_ok c empty_hub"
  by (simp add: queue_ok_def empty_hub_def)

lemma queue_ok_reachable: "hub_reachable c db \<Longrightarrow> codec_ok c \<Longrightarrow> queue_ok c db"
  unfolding hub_reachable_def
  by (induction rule: rtranclp_induct) (auto intro: queue_ok_step queue_ok_empty)

lemma pending_dispatches_eq:
  assumes "queue_ok c db" and "io S_SelectDispatches = None"
  shows "pending_dispatches c io node db =
    Inr (map (\<lambda>r. projr (decode_dispatch c r))
      (filter (\<lambda>r. pd_node_id r = node_str node \<and> pd_acked_at r = None) (dispatches db)))"
proof -
  let ?rows = "filter (\<lambda>r. pd_node_id r = node_str node \<and> pd_acked_at r = None) (dispatches db)"
  have "decode_dispatch c r = Inr (projr (decode_dispatch c r))" if "r \<in> set ?rows" for r
    using assms(1) that by (force simp: queue_ok_def)
  then have "collect_res (decode_dispatch c) ?rows = Inr (map (\<lambda>r. projr (decode_dispatch c r)) ?rows)"
    using collect_res_map [of ?rows "decode_dispatch c" "\<lambda>r. r"] by simp
  then show ?thesis
    using assms(2) by (simp add: pending_dispatches_def exec_def)
qed

lemma append_command_dispatch:
  assumes "append_command_bundle c io now fresh cid d entity (Some (node, m)) db = (Inr out, db')"
    and "o_created out" and "tables_inv db"
  shows "row_at pd_command_id (command_id_str c cid) (dispatches db') =
    Some \<lparr>pd_command_id = command_id_str c cid, pd_node_id = node_str node,
      pd_message = msg_str c m, pd_created_at = fmt_time c now, pd_acked_at = None\<rparr>"
  using assms(1)
proof (cases rule: append_command_cases)
  case (new tx2 tx3)
  then show ?thesis
    by (auto simp: insert_dispatch_def store_simps bind_res_eq_Inr intro!: row_at_new)
qed (use assms(2) in simp)

text \<open>The state of one command's dispatch.\<close>

definition dispatch_acked :: "'j codec \<Rightarrow> command_id \<Rightarrow> 'j hub \<Rightarrow> bool" where
  "dispatch_acked c cid db \<longleftrightarrow>
     (\<exists>r. row_at pd_command_id (command_id_str c cid) (dispatches db) = Some r \<and> pd_acked_at r \<noteq> None)"

definition dispatch_waiting :: "'j codec \<Rightarrow> command_id \<Rightarrow> node_id \<Rightarrow> 'j hub \<Rightarrow> bool" where
  "dispatch_waiting c cid node db \<longleftrightarrow>
     (\<exists>r. row_at pd_command_id (command_id_str c cid) (dispatches db) = Some r \<and>
        pd_node_id r = node_str node \<and> pd_acked_at r = None)"

lemma dispatch_acked_steps:
  "(hub_step c)\<^sup>*\<^sup>* db db' \<Longrightarrow> dispatch_acked c cid db \<Longrightarrow> dispatch_acked c cid db'"
  unfolding dispatch_acked_def by (auto simp: dispatch_evolves_def dest!: dispatch_steps)

lemma pending_dispatch_offered:
  assumes "queue_ok c db" and "codec_ok c" and "distinct (map pd_command_id (dispatches db))"
    and "row_at pd_command_id (command_id_str c cid) (dispatches db) = Some r"
    and "pd_node_id r = node_str node" and "decode_dispatch c r = Inr p"
  shows "\<exists>ps. pending_dispatches c no_faults node db = Inr ps \<and>
     (p \<in> set ps \<longleftrightarrow> pd_acked_at r = None) \<and>
     (\<forall>q \<in> set ps. p_command_id q = cid \<longrightarrow> q = p)"
proof -
  let ?rows = "filter (\<lambda>r. pd_node_id r = node_str node \<and> pd_acked_at r = None) (dispatches db)"
  have r: "r \<in> set (dispatches db)" "pd_command_id r = command_id_str c cid"
    using row_at_SomeD [OF assms(4)] by auto
  have unique: "r' = r" if "r' \<in> set (dispatches db)" and "pd_command_id r' = pd_command_id r" for r'
    using assms(3) r(1) that by (metis distinct_map inj_onD)
  have dec: "decode_dispatch c r' = Inr (projr (decode_dispatch c r')) \<and>
      pd_command_id r' = command_id_str c (p_command_id (projr (decode_dispatch c r')))"
    if "r' \<in> set (dispatches db)" for r'
    using assms(1) that by (force simp: queue_ok_def)
  have "p \<in> set (map (\<lambda>r. projr (decode_dispatch c r)) ?rows) \<longleftrightarrow> pd_acked_at r = None"
  proof
    assume "p \<in> set (map (\<lambda>r. projr (decode_dispatch c r)) ?rows)"
    then obtain r' where r': "r' \<in> set (dispatches db)" "pd_acked_at r' = None"
        "p = projr (decode_dispatch c r')"
      by auto
    have "p_command_id p = cid"
      using dec [OF r(1)] r(2) assms(2,6) by (simp add: id_str_inj)
    then have "pd_command_id r' = pd_command_id r" using dec [OF r'(1)] r'(3) r(2) by simp
    then show "pd_acked_at r = None" using unique [OF r'(1)] r'(2) by simp
  next
    assume "pd_acked_at r = None"
    then show "p \<in> set (map (\<lambda>r. projr (decode_dispatch c r)) ?rows)"
      using r(1) assms(5,6) by force
  qed
  moreover have "q = p" if q: "q \<in> set (map (\<lambda>r. projr (decode_dispatch c r)) ?rows)"
      and qc: "p_command_id q = cid" for q
  proof -
    obtain r' where r': "r' \<in> set (dispatches db)" "q = projr (decode_dispatch c r')"
      using q by auto
    then have "r' = r" using dec [OF r'(1)] qc r(2) by (intro unique) auto
    then show ?thesis using r'(2) assms(6) by simp
  qed
  ultimately show ?thesis
    using pending_dispatches_eq [OF assms(1), of no_faults node] by (simp add: no_faults_def)
qed

lemma filter_key_at_most_one:
  assumes "distinct (map key rows)" and "\<And>r. P r \<Longrightarrow> key r = k"
  shows "length (filter P rows) \<le> 1"
  using assms by (induction rows) (auto simp: filter_empty_conv image_iff)

lemma ack_from_cases:
  assumes "acknowledge_dispatch_from c io now cid node db = (Inr b, db')"
    and "distinct (map pd_command_id (dispatches db))"
  shows "b \<longleftrightarrow> dispatch_waiting c cid node db" and "\<not> b \<Longrightarrow> db' = db" and "b \<Longrightarrow> dispatch_acked c cid db'"
proof -
  let ?Q = "\<lambda>r. (pd_command_id r = command_id_str c cid \<and> pd_node_id r = node_str node)
      \<and> pd_acked_at r = None"
  have b: "b \<longleftrightarrow> length (filter ?Q (dispatches db)) = 1"
      and db': "db' = db\<lparr>dispatches := update_where ?Q (\<lambda>r. r\<lparr>pd_acked_at := Some (fmt_time c now)\<rparr>)
                  (dispatches db)\<rparr>"
    using assms(1)
    by (auto simp: acknowledge_dispatch_from_def ack_where_def store_simps Let_def)
  have one: "dispatch_waiting c cid node db \<longleftrightarrow> (\<exists>r \<in> set (dispatches db). ?Q r)"
    using assms(2) by (auto simp: dispatch_waiting_def dest: row_at_SomeD row_at_unique)
  have "length (filter ?Q (dispatches db)) \<le> 1"
    using assms(2) by (rule filter_key_at_most_one) auto
  then have "length (filter ?Q (dispatches db)) = 1 \<longleftrightarrow> filter ?Q (dispatches db) \<noteq> []"
    by (cases "filter ?Q (dispatches db)") auto
  then have len: "length (filter ?Q (dispatches db)) = 1 \<longleftrightarrow> (\<exists>r \<in> set (dispatches db). ?Q r)"
    unfolding filter_empty_conv by blast
  show bw: "b \<longleftrightarrow> dispatch_waiting c cid node db" using b len one by simp
  show "db' = db" if "\<not> b"
  proof -
    have "update_where ?Q f (dispatches db) = dispatches db" for f
      unfolding update_where_def by (rule map_idI) (use that b len in auto)
    then show ?thesis by (simp add: db')
  qed
  show "dispatch_acked c cid db'" if "b"
  proof -
    obtain r where r: "row_at pd_command_id (command_id_str c cid) (dispatches db) = Some r" "?Q r"
      using \<open>b\<close> bw by (auto simp: dispatch_waiting_def dest: row_at_SomeD)
    then have "row_at pd_command_id (command_id_str c cid) (dispatches db')
        = Some (r\<lparr>pd_acked_at := Some (fmt_time c now)\<rparr>)"
      by (simp add: db' row_at_update)
    then show ?thesis by (simp add: dispatch_acked_def)
  qed
qed

subsection \<open>Runs keep their binding\<close>

text \<open>The run \<open>rid\<close> is stored as a run of task \<open>tid\<close> on \<open>node\<close>.\<close>

definition run_bound :: "'j codec \<Rightarrow> run_id \<Rightarrow> node_id \<Rightarrow> task_id \<Rightarrow> 'j hub \<Rightarrow> bool" where
  "run_bound c rid node tid db \<longleftrightarrow>
     (\<exists>r \<in> set (runs db). rn_run_id r = run_id_str c rid \<and> rn_node_id r = node_str node \<and>
        req_id c TaskId (rn_task_id r) = Inr tid)"

definition keeps_runs :: "'j hub \<Rightarrow> 'j hub \<Rightarrow> bool" where
  "keeps_runs db db' \<longleftrightarrow>
     (\<forall>r \<in> set (runs db). \<exists>r' \<in> set (runs db').
        rn_run_id r' = rn_run_id r \<and> rn_node_id r' = rn_node_id r \<and> rn_task_id r' = rn_task_id r)"

lemma keeps_runs_bound: "keeps_runs db db' \<Longrightarrow> run_bound c rid node tid db \<Longrightarrow> run_bound c rid node tid db'"
  unfolding keeps_runs_def run_bound_def by metis

lemma keeps_runs_same [simp]: "runs db' = runs db \<Longrightarrow> keeps_runs db db'"
  by (auto simp: keeps_runs_def)

lemma keeps_runs_append: "runs db' = runs db @ rs \<Longrightarrow> keeps_runs db db'"
  by (auto simp: keeps_runs_def)

lemma keeps_runs_trans: "keeps_runs a b \<Longrightarrow> keeps_runs b c \<Longrightarrow> keeps_runs a c"
  unfolding keeps_runs_def by metis

lemma keeps_runs_update:
  assumes "runs db' = update_where P f (runs db)"
    and "\<And>r. rn_run_id (f r) = rn_run_id r \<and> rn_node_id (f r) = rn_node_id r \<and> rn_task_id (f r) = rn_task_id r"
  shows "keeps_runs db db'"
  unfolding keeps_runs_def
proof
  fix r
  assume "r \<in> set (runs db)"
  then have "(if P r then f r else r) \<in> set (runs db')"
    unfolding assms(1) update_where_def set_map by (rule imageI)
  then show "\<exists>r' \<in> set (runs db'). rn_run_id r' = rn_run_id r \<and> rn_node_id r' = rn_node_id r
      \<and> rn_task_id r' = rn_task_id r"
    by (rule bexI [rotated]) (simp add: assms(2))
qed

lemma set_status_runs:
  "keeps_runs db (set_run_status c st rid db)" "runs (set_task_status c ts tid db) = runs db"
proof -
  have "runs (set_run_status c st rid db) = update_where (\<lambda>r. rn_run_id r = run_id_str c rid)
      (\<lambda>r. r\<lparr>rn_status := run_status_as_str st\<rparr>) (runs db)"
    by (simp add: set_run_status_def)
  then show "keeps_runs db (set_run_status c st rid db)" by (rule keeps_runs_update) simp
  show "runs (set_task_status c ts tid db) = runs db" by (simp add: set_task_status_def)
qed

lemma write_entity_runs: "write_entity c io entity tx = Inr tx' \<Longrightarrow> keeps_runs tx tx'"
  by (cases entity)
    (auto simp: insert_task_row_def insert_run_row_def set_task_status_def store_simps bind_res_eq_Inr
      intro: keeps_runs_append)

lemma insert_dispatch_runs: "insert_dispatch c io cid dp recv tx = Inr tx' \<Longrightarrow> runs tx' = runs tx"
  by (auto simp: insert_dispatch_def store_simps bind_res_eq_Inr split: option.splits)

lemma insert_wake_runs:
  "insert_wake c io eid s ch tid rid k recv tx = Inr tx' \<Longrightarrow> runs tx' = runs tx"
  by (auto simp: insert_wake_def store_simps bind_res_eq_Inr Let_def split: if_splits)

lemma terminal_runs:
  assumes "apply_terminal_lifecycle_and_wake c io eid s d recv tx = Inr tx'"
  shows "keeps_runs tx tx'"
  using assms
proof (cases rule: terminal_cases)
  case (status rs ts w rid)
  have "keeps_runs tx (set_run_status c rs rid tx)" by (rule set_status_runs)
  then show ?thesis unfolding status(3) by (rule keeps_runs_trans) (simp add: set_status_runs)
next
  case (wake rs ts rid wr)
  have "keeps_runs tx (set_run_status c rs rid tx)" by (rule set_status_runs)
  then show ?thesis
    by (rule keeps_runs_trans) (simp add: insert_wake_runs [OF wake(4)] set_status_runs)
qed simp

lemma append_command_runs:
  assumes "append_command_bundle c io now fresh cid d entity dp db = (r, db')"
  shows "keeps_runs db db'"
proof (cases r)
  case (Inl e)
  with assms show ?thesis by (auto dest!: append_command_error)
next
  case (Inr out)
  from assms [unfolded Inr] show ?thesis
  proof (cases rule: append_command_cases)
    case (new tx2 tx3)
    have "keeps_runs tx2 tx3" by (rule write_entity_runs [OF new(7)])
    then have "keeps_runs db tx3" by (simp add: new(6) keeps_runs_def)
    then show ?thesis by (rule keeps_runs_trans) (simp add: insert_dispatch_runs [OF new(8)])
  qed simp
qed

lemma append_node_event_runs:
  assumes "append_node_event c io now eid d db = (r, db')"
  shows "keeps_runs db db'"
proof (cases r)
  case (Inl e)
  with assms show ?thesis by (auto dest!: append_node_event_error)
next
  case (Inr out)
  from assms [unfolded Inr] show ?thesis
  proof (cases rule: append_node_event_cases)
    case (new tx1)
    then show ?thesis using terminal_runs [OF new(7)] by (simp add: keeps_runs_def)
  qed simp
qed

lemma row_ops_runs:
  "insert_task c io task db = (r, db') \<Longrightarrow> keeps_runs db db'"
  "insert_run c io run db = (r, db') \<Longrightarrow> keeps_runs db db'"
  by (cases r; auto simp: insert_task_def insert_run_def insert_task_row_def insert_run_row_def
      store_simps bind_res_eq_Inr keeps_runs_append dest!: autocommit_Inl)+

lemma create_start_runs:
  "create_task c io now tid title db = (r, db') \<Longrightarrow> keeps_runs db db'"
  "start_run c io now rid tid node engine policy db = (r', db') \<Longrightarrow> keeps_runs db db'"
  by (auto simp: create_task_def start_run_def Let_def split: prod.splits sum.splits
      dest: row_ops_runs)

lemma quiet_ops_runs:
  "ack_where c io now P db = (r0, db') \<Longrightarrow> keeps_runs db db'"
  "put_setting c io now key value db = (r, db') \<Longrightarrow> keeps_runs db db'"
  "register_assistant_worker c io now channel tid db = (r, db') \<Longrightarrow> keeps_runs db db'"
  "upsert_node c io node db = (r, db') \<Longrightarrow> keeps_runs db db'"
  "complete_assistant_wake c io now eid db = (r0, db') \<Longrightarrow> keeps_runs db db'"
  "defer_assistant_wake c io now eid err db = (r0, db') \<Longrightarrow> keeps_runs db db'"
  by (cases r; cases r0; auto simp: ack_where_def put_setting_def register_assistant_worker_def
      upsert_node_def complete_assistant_wake_def defer_assistant_wake_def store_simps Let_def
      split: sum.splits option.splits dest!: autocommit_Inl)+

lemma approval_ops_runs:
  "request_approval c io now aid rid tid tool scope opts exp db = (r, db') \<Longrightarrow> keeps_runs db db'"
  "resolve_approval c io aid decision actor now db = (r, db') \<Longrightarrow> keeps_runs db db'"
  by (cases r; auto simp: request_approval_def resolve_approval_def store_simps bind_res_eq_Inr
      Let_def split: if_splits dest!: autocommit_Inl transaction_Inl)+

lemma hub_step_runs: "hub_step c db db' \<Longrightarrow> keeps_runs db db'"
  by (induction rule: hub_step.induct)
    (auto simp: acknowledge_dispatch_def acknowledge_dispatch_from_def
      intro: append_command_runs append_node_event_runs row_ops_runs create_start_runs quiet_ops_runs
        approval_ops_runs)

lemma hub_steps_bound:
  "(hub_step c)\<^sup>*\<^sup>* db db' \<Longrightarrow> run_bound c' rid node tid db \<Longrightarrow> run_bound c' rid node tid db'"
  by (induction rule: rtranclp_induct) (auto intro: keeps_runs_bound hub_step_runs)

lemma get_run_bound:
  assumes "get_run c io rid db = Inr (Some run)" and "codec_ok c"
  shows "r_id run = rid" and "run_bound c rid (r_node_id run) (r_task_id run) db"
proof -
  obtain r where r: "r \<in> set (runs db)" "rn_run_id r = run_id_str c rid" "row_to_run c r = Inr run"
    using assms(1)
    by (auto simp: get_run_def store_simps bind_res_eq_Inr split: option.splits dest: find_SomeD)
  then show "r_id run = rid"
    using id_round_trips(2) [OF assms(2)] by (auto simp: row_to_run_def bind_res_eq_Inr)
  show "run_bound c rid (r_node_id run) (r_task_id run) db"
    using r unfolding run_bound_def by (intro bexI [of _ r]) (auto simp: row_to_run_def bind_res_eq_Inr)
qed

end
