(* ===== verification/Codec_Example.thy ===== *)
theory Codec_Example
  imports Rows
begin

text \<open>
  A concrete instance of the foreign text forms, used by the witnesses: UUIDs and
  timestamps as fixed-width binary numerals, JSON values and messages as themselves. It
  meets \<open>codec_ok\<close>, so the hypotheses on the parameter \<open>codec\<close> can hold together.
\<close>

fun bits_str :: "nat \<Rightarrow> nat \<Rightarrow> string" where
  "bits_str 0 k = []"
| "bits_str (Suc w) k =
     (if 2 ^ w \<le> k then CHR ''1'' # bits_str w (k - 2 ^ w) else CHR ''0'' # bits_str w k)"

fun bits_val :: "string \<Rightarrow> nat" where
  "bits_val [] = 0"
| "bits_val (b # s) = (if b = CHR ''1'' then 2 ^ length s else 0) + bits_val s"

lemma length_bits_str [simp]: "length (bits_str w k) = w"
  by (induction w arbitrary: k) auto

lemma bits_round_trip: "k < 2 ^ w \<Longrightarrow> bits_val (bits_str w k) = k"
  by (induction w arbitrary: k) auto

lemma bits_str_mono:
  "j < 2 ^ w \<Longrightarrow> k < 2 ^ w \<Longrightarrow> bits_str w j \<le> bits_str w k \<longleftrightarrow> j \<le> k"
proof (induction w arbitrary: j k)
  case 0
  then show ?case by simp
next
  case (Suc w)
  have "\<not> CHR ''1'' < CHR ''0''" and "CHR ''0'' < CHR ''1''" by (simp_all add: less_char_def)
  then show ?case using Suc.prems by (auto simp: Suc.IH)
qed

definition epoch_0000 :: int where
  "epoch_0000 = 62167219200000000000"

definition plain_codec :: "(json + hub_to_node) codec" where
  "plain_codec =
     \<lparr>uuid_str = (\<lambda>u. bits_str 128 (unat u)),
      uuid_parse = (\<lambda>s. if length s = 128 then Some (of_nat (bits_val s)) else None),
      time_str = (\<lambda>t. bits_str 72 (nat (t + epoch_0000))),
      time_parse = (\<lambda>s. if length s = 72 then Some (int (bits_val s) - epoch_0000) else None),
      json_str = Inl,
      json_parse = (\<lambda>x. case x of Inl j \<Rightarrow> Some j | Inr _ \<Rightarrow> None),
      msg_str = Inr,
      msg_parse = (\<lambda>x. case x of Inl _ \<Rightarrow> None | Inr m \<Rightarrow> Some m),
      ct_eq = (=)\<rparr>"

lemma time_ok_bits: "time_ok t \<Longrightarrow> 0 \<le> t + epoch_0000 \<and> nat (t + epoch_0000) < 2 ^ 72"
  by (auto simp: time_ok_def epoch_0000_def)

lemma plain_codec_ok: "codec_ok plain_codec"
proof -
  have "unat u < 2 ^ 128" for u :: uuid
    using unsigned_less [of u] by simp
  then have "uuid_parse plain_codec (uuid_str plain_codec u) = Some u" for u
    by (simp add: plain_codec_def bits_round_trip)
  moreover have "time_parse plain_codec (time_str plain_codec t) = Some t" if "time_ok t" for t
    using time_ok_bits [OF that] by (simp add: plain_codec_def bits_round_trip)
  moreover have "time_str plain_codec s \<le> time_str plain_codec t \<longleftrightarrow> s \<le> t"
    if "time_ok s" and "time_ok t" for s t
  proof -
    have "time_str plain_codec s \<le> time_str plain_codec t
        \<longleftrightarrow> nat (s + epoch_0000) \<le> nat (t + epoch_0000)"
      using time_ok_bits [OF that(1)] time_ok_bits [OF that(2)]
      by (simp add: plain_codec_def bits_str_mono)
    also have "\<dots> \<longleftrightarrow> s \<le> t"
      using time_ok_bits [OF that(1)] time_ok_bits [OF that(2)] by (simp add: nat_le_iff)
    finally show ?thesis .
  qed
  ultimately show ?thesis
    by (simp add: codec_ok_def) (simp add: plain_codec_def)
qed

end
