(* ===== verification/Store_Props.thy ===== *)
theory Store_Props
  imports Store_Entities Codec_Example
begin

text \<open>
  What the durable store promises its callers, over every run of its operations, every
  interleaving of callers and every failing statement: exactly-once acceptance of
  commands and node events, a gapless log, atomic bundles, exact reads, final approval
  decisions and a dispatch queue that forgets nothing before its acknowledgement.
\<close>

subsection \<open>Progress of the append paths\<close>

fun entity_free :: "'j codec \<Rightarrow> entity_write \<Rightarrow> 'j hub \<Rightarrow> bool" where
  "entity_free c EntityNone db = True"
| "entity_free c (EntityTask t) db = (task_id_str c (t_id t) \<notin> tk_task_id ` set (tasks db))"
| "entity_free c (EntityRun r) db = (run_id_str c (r_id r) \<notin> rn_run_id ` set (runs db))"

lemma write_entity_progress:
  assumes "entity_free c entity db"
  shows "\<exists>db'. write_entity c no_faults entity db = Inr db' \<and> dispatches db' = dispatches db"
  using assms
  by (cases entity)
    (auto simp: insert_task_row_def insert_run_row_def insert_unique_def task_row_of_def run_row_of_def
      set_task_status_def)

lemma insert_dispatch_progress:
  assumes "command_id_str c cid \<notin> pd_command_id ` set (dispatches db)"
  shows "\<exists>db'. insert_dispatch c no_faults cid dp now db = Inr db'"
  using assms by (auto simp: insert_dispatch_def insert_unique_def split: option.splits)

lemma append_command_progress:
  assumes log: "log_inv c db" and tabs: "tables_inv db"
    and new: "find_receipt c cid db = None"
    and fresh: "event_id_str c fresh \<notin> ev_event_id ` set (events db)"
    and room: "int (length (events db)) < i64_max" and free: "entity_free c entity db"
  shows "\<exists>out db'. append_command_bundle c no_faults now fresh cid d entity dp db = (Inr out, db')"
proof -
  let ?s = "int (length (events db)) + 1"
  have num: "numbered ev_sequence (events db)" using log by (simp add: log_inv_def)
  then have "next_sequence no_faults db = Inr ?s"
    using room by (simp add: next_sequence_Inr no_faults_def)
  moreover have "insert_event c no_faults ?s fresh (Some cid) d now db
      = Inr (db\<lparr>events := events db @ [event_row_of c ?s fresh (Some cid) d now]\<rparr>)" (is "_ = Inr ?tx1")
    using fresh numbered_image [OF num] by (simp add: insert_event_Inr no_faults_def)
  moreover obtain tx2 where tx2: "insert_receipt c no_faults cid ?s fresh now ?tx1 = Inr tx2"
      and same: "tasks tx2 = tasks db \<and> runs tx2 = runs db \<and> dispatches tx2 = dispatches db"
    using new by (simp add: insert_receipt_Inr find_receipt_None no_faults_def)
  moreover obtain tx3 where "write_entity c no_faults entity tx2 = Inr tx3"
      and d3: "dispatches tx3 = dispatches tx2"
    using write_entity_progress [of c entity tx2] free same by (cases entity) auto
  moreover have "command_id_str c cid \<notin> pd_command_id ` set (dispatches tx3)"
    using tabs new same d3 by (auto simp: tables_inv_def dispatches_ok_def find_receipt_None)
  then obtain tx4 where "insert_dispatch c no_faults cid dp now tx3 = Inr tx4"
    using insert_dispatch_progress by blast
  ultimately show ?thesis
    using new by (simp add: append_command_bundle_def transaction_def)
qed

lemma append_command_replays:
  assumes "stored_command c cid db = Some (s, eid)"
  shows "append_command_bundle c no_faults now fresh cid d entity dp db
    = (Inr \<lparr>o_sequence = s, o_event_id = eid, o_created = False\<rparr>, db)"
  using assms
  by (auto simp: stored_command_def append_command_bundle_def transaction_def event_id_from_str_def
      split: option.splits)

lemma wakes_ok_keys:
  assumes "wakes_ok ws es"
  shows "wk_event_id ` set ws \<subseteq> ev_event_id ` set es" and "wk_sequence ` set ws \<subseteq> ev_sequence ` set es"
proof -
  have sub: "(\<lambda>w. (wk_event_id w, wk_sequence w)) ` set ws
      \<subseteq> (\<lambda>r. (ev_event_id r, ev_sequence r)) ` set es"
    using assms by (simp add: wakes_ok_def)
  show "wk_event_id ` set ws \<subseteq> ev_event_id ` set es"
    using image_mono [OF sub, of fst] by (simp add: image_image)
  show "wk_sequence ` set ws \<subseteq> ev_sequence ` set es"
    using image_mono [OF sub, of snd] by (simp add: image_image)
qed

lemma terminal_progress:
  assumes "event_id_str c eid \<notin> wk_event_id ` set (assistant_wakes tx)"
    and "s \<notin> wk_sequence ` set (assistant_wakes tx)"
  shows "\<exists>tx'. apply_terminal_lifecycle_and_wake c no_faults eid s d recv tx = Inr tx'"
proof -
  have "\<exists>tx'. insert_wake c no_faults eid s ch tid rid k recv
      (set_task_status c ts tid' (set_run_status c rs rid' tx)) = Inr tx'"
    for ch tid rid k ts tid' rs rid'
    using assms
    by (simp add: insert_wake_def insert_unique_def set_task_status_def set_run_status_def)
  then show ?thesis
    by (simp add: apply_terminal_lifecycle_and_wake_def split: option.splits)
qed

text \<open>With a working database every node event is answered, new or not.\<close>

lemma append_node_event_progress:
  assumes log: "log_inv c db" and tabs: "tables_inv db" and room: "int (length (events db)) < i64_max"
  shows "\<exists>out db'. append_node_event c no_faults now eid d db = (Inr out, db')"
proof (cases "find_event_row c eid db")
  case (Some r)
  then show ?thesis by (simp add: append_node_event_def transaction_def)
next
  case None
  let ?s = "int (length (events db)) + 1"
  let ?tx1 = "db\<lparr>events := events db @ [event_row_of c ?s eid None d now]\<rparr>"
  have num: "numbered ev_sequence (events db)" using log by (simp add: log_inv_def)
  have fresh: "event_id_str c eid \<notin> ev_event_id ` set (events db)"
    using None by (force simp: find_event_row_def find_None_iff)
  have "next_sequence no_faults db = Inr ?s"
    using room num by (simp add: next_sequence_Inr no_faults_def)
  moreover have "insert_event c no_faults ?s eid None d now db = Inr ?tx1"
    using fresh numbered_image [OF num] by (simp add: insert_event_Inr no_faults_def)
  moreover have "event_id_str c eid \<notin> wk_event_id ` set (assistant_wakes db)"
      "?s \<notin> wk_sequence ` set (assistant_wakes db)"
    using wakes_ok_keys [of "assistant_wakes db" "events db"] tabs fresh numbered_image [OF num]
    by (auto simp: tables_inv_def)
  then obtain tx2 where "apply_terminal_lifecycle_and_wake c no_faults eid ?s d now ?tx1 = Inr tx2"
    using terminal_progress [of c eid ?tx1 ?s d now] by auto
  ultimately show ?thesis
    using None by (simp add: append_node_event_def transaction_def)
qed

lemma hub_reachable_empty: "hub_reachable c empty_hub"
  by (simp add: hub_reachable_def)

definition demo_draft :: event_draft where
  "demo_draft = event_draft_new 0 TaskCreated (TaskId 1) (NodeId ''node-a'')"

lemma demo_ok: "draft_ok demo_draft" "time_ok 0" "dispatch_ok None"
  by (simp_all add: demo_draft_def event_draft_new_def draft_ok_def time_ok_def json_ok_def)

lemma demo_append:
  "\<exists>out db'. append_command_bundle plain_codec no_faults 0 (EventId e) (CommandId u) d EntityNone dp
     empty_hub = (Inr out, db')"
  by (rule append_command_progress [OF log_inv_empty tables_inv_empty])
    (simp_all add: find_receipt_def empty_hub_def i64_max_def)

lemma demo_state:
  "\<exists>out db1. append_command_bundle plain_codec no_faults 0 (EventId 1) (CommandId 7) demo_draft EntityNone
     None empty_hub = (Inr out, db1) \<and> hub_reachable plain_codec db1 \<and> length (events db1) = 1"
proof -
  obtain out db1 where call: "append_command_bundle plain_codec no_faults 0 (EventId 1) (CommandId 7)
      demo_draft EntityNone None empty_hub = (Inr out, db1)"
    using demo_append by blast
  then have "hub_step plain_codec empty_hub db1" using demo_ok by (blast intro: hub_step.step_command)
  then have "hub_reachable plain_codec db1" by (simp add: hub_reachable_def)
  moreover have "length (events db1) = 1"
    using append_command_log(5) [OF call] by (simp add: find_receipt_def empty_hub_def)
  ultimately show ?thesis using call by blast
qed

lemma demo_node_event:
  "\<exists>out db'. append_node_event plain_codec no_faults now (EventId e) d empty_hub = (Inr out, db')"
  by (rule append_node_event_progress [OF log_inv_empty tables_inv_empty])
    (simp add: empty_hub_def i64_max_def)

subsection \<open>Exactly-once acceptance\<close>

text \<open>C5: a command that the hub once accepted is accepted exactly once. Whatever operations
  of the store any callers ran since, sending the same command id again, with any body,
  changes nothing in the database and returns the first call's sequence and event id.\<close>

theorem command_exactly_once:
  assumes "codec_ok c" and "hub_reachable c db" and "draft_ok d" and "time_ok now" and "dispatch_ok dp"
    and "append_command_bundle c io now fresh cid d entity dp db = (Inr out, db1)"
    and "(hub_step c)\<^sup>*\<^sup>* db1 db2"
    and "append_command_bundle c io' now' fresh' cid d' entity' dp' db2 = (Inr out', db3)"
  shows "db3 = db2 \<and> o_sequence out' = o_sequence out \<and> o_event_id out' = o_event_id out
    \<and> \<not> o_created out'"
proof -
  have "durable_inv c db" using hub_reachable_inv(1) [OF assms(2,1)] .
  then show ?thesis
    using command_log.replay_is_idempotent
      [of c db "(io, now, fresh, d, entity, dp)" cid out db1 db2 "(io', now', fresh', d', entity', dp')"
        out' db3] assms
    by simp
qed

theorem command_exactly_once_witness:
  "\<exists>out db1 out' db3.
     append_command_bundle plain_codec no_faults 0 (EventId 1) (CommandId 7) demo_draft EntityNone None
       empty_hub = (Inr out, db1) \<and>
     append_command_bundle plain_codec no_faults 5 (EventId 2) (CommandId 7) demo_draft EntityNone None
       db1 = (Inr out', db3) \<and>
     db3 = db1 \<and> o_sequence out' = o_sequence out \<and> o_event_id out' = o_event_id out \<and> \<not> o_created out'"
proof -
  obtain out db1 where first: "append_command_bundle plain_codec no_faults 0 (EventId 1) (CommandId 7)
      demo_draft EntityNone None empty_hub = (Inr out, db1)"
    using demo_append by blast
  have "stored_command plain_codec (CommandId 7) db1 = Some (o_sequence out, o_event_id out)"
    using command_log.append_remembers [of plain_codec empty_hub
        "(no_faults, 0, EventId 1, demo_draft, EntityNone, None)" "CommandId 7" out db1] first
      hub_reachable_inv(1) [OF hub_reachable_empty plain_codec_ok] demo_ok
    by simp
  then obtain out' db3 where second: "append_command_bundle plain_codec no_faults 5 (EventId 2)
      (CommandId 7) demo_draft EntityNone None db1 = (Inr out', db3)"
    using append_command_replays by blast
  show ?thesis
    using first second command_exactly_once [OF plain_codec_ok hub_reachable_empty demo_ok
        first rtranclp.rtrancl_refl second]
    by blast
qed

text \<open>An event that a node sends again after a reconnect, under its own event id, is
  stored once: the second append changes no table and answers with the first sequence.\<close>

theorem node_event_exactly_once:
  assumes "codec_ok c" and "hub_reachable c db" and "draft_ok d" and "time_ok now"
    and "append_node_event c io now eid d db = (Inr out, db1)"
    and "(hub_step c)\<^sup>*\<^sup>* db1 db2"
    and "append_node_event c io' now' eid d' db2 = (Inr out', db3)"
  shows "db3 = db2 \<and> o_sequence out' = o_sequence out \<and> o_event_id out' = eid \<and> \<not> o_created out'"
proof -
  have "durable_inv c db" using hub_reachable_inv(1) [OF assms(2,1)] .
  moreover have "o_event_id out = eid"
    using assms(5) by (cases rule: append_node_event_cases) auto
  ultimately show ?thesis
    using node_log.replay_is_idempotent
      [of c db "(io, now, d)" eid out db1 db2 "(io', now', d')" out' db3] assms
    by simp
qed

theorem node_event_exactly_once_witness:
  "\<exists>out db1 out' db3.
     append_node_event plain_codec no_faults 0 (EventId 9) demo_draft empty_hub = (Inr out, db1) \<and>
     append_node_event plain_codec no_faults 3 (EventId 9) demo_draft db1 = (Inr out', db3) \<and>
     db3 = db1 \<and> o_sequence out' = o_sequence out"
proof -
  obtain out db1 where first:
      "append_node_event plain_codec no_faults 0 (EventId 9) demo_draft empty_hub = (Inr out, db1)"
    using demo_node_event by blast
  then have "find_event_row plain_codec (EventId 9) db1 \<noteq> None"
    using append_node_event_log(5) [OF first]
    by (simp add: find_event_row_def empty_hub_def event_row_of_def)
  then obtain out' db3 where second:
      "append_node_event plain_codec no_faults 3 (EventId 9) demo_draft db1 = (Inr out', db3)"
    by (auto simp: append_node_event_def transaction_def)
  show ?thesis
    using first second node_event_exactly_once [OF plain_codec_ok hub_reachable_empty demo_ok(1,2)
        first rtranclp.rtrancl_refl second]
    by blast
qed

text \<open>C21: in every reachable state the log is gapless, numbered 1, 2, 3, ... in row order, its
  event ids are distinct, and the receipts are exactly the command-originated rows, in order,
  with one receipt per command.\<close>

theorem log_gapless:
  assumes "codec_ok c" and "hub_reachable c db"
  shows "map e_sequence (event_log c db) = map int [1..<Suc (length (events db))]
    \<and> distinct (map e_event_id (event_log c db))
    \<and> map receipt_triple (command_receipts db) = receipts_of (events db)
    \<and> distinct (map rc_command_id (command_receipts db))"
proof -
  have inv: "log_inv c db" using hub_reachable_inv(1) [OF assms(2,1)] by (simp add: durable_inv_def)
  then have "numbered e_sequence (event_log c db)" by (rule event_log_numbered)
  then show ?thesis
    using inv event_log_distinct [OF inv] by (simp add: numbered_def log_inv_def event_log_def)
qed

theorem log_gapless_witness:
  "\<exists>db. hub_reachable plain_codec db \<and> length (events db) = 1 \<and>
     map e_sequence (event_log plain_codec db) = [1]"
proof -
  obtain db where db: "hub_reachable plain_codec db" "length (events db) = 1"
    using demo_state by blast
  show ?thesis using db log_gapless [OF plain_codec_ok db(1)] by (intro exI [of _ db]) simp
qed

text \<open>C22: with a working database a new command always gets through: the call returns the next
  sequence, and the log becomes the old log with the stamped draft at its end.\<close>

theorem append_command_refines_log:
  assumes "codec_ok c" and "hub_reachable c db" and "draft_ok d" and "time_ok now"
    and "stored_command c cid db = None"
    and "event_id_str c fresh \<notin> ev_event_id ` set (events db)"
    and "int (length (events db)) < i64_max" and "entity_free c entity db"
  shows "\<exists>db'. append_command_bundle c no_faults now fresh cid d entity dp db
      = (Inr \<lparr>o_sequence = int (length (event_log c db)) + 1, o_event_id = fresh, o_created = True\<rparr>, db')
    \<and> event_log c db' = event_log c db
        @ [stamp (int (length (event_log c db)) + 1) fresh (Some cid) d now]"
proof -
  have inv: "log_inv c db" "tables_inv db"
    using hub_reachable_inv [OF assms(2,1)] by (simp_all add: durable_inv_def)
  have none: "find_receipt c cid db = None"
  proof (cases "find_receipt c cid db")
    case (Some r)
    then obtain row where "row \<in> set (events db)" "ev_event_id row = rc_event_id r"
      using receipt_in_log [OF inv(1)] by blast
    then obtain e where "row_to_event c row = Inr e" using inv(1) by (auto simp: log_inv_def)
    then show ?thesis
      using Some assms(5) \<open>ev_event_id row = rc_event_id r\<close>
      by (auto simp: stored_command_def row_to_event_def bind_res_eq_Inr req_id_def ok_or_eq_Inr)
  qed simp
  obtain out db' where call:
      "append_command_bundle c no_faults now fresh cid d entity dp db = (Inr out, db')"
    using append_command_progress [OF inv none assms(6-8)] by blast
  note new = append_command_log [OF call none]
  have seq: "o_sequence out = int (length (event_log c db)) + 1"
    using new(4) inv(1) by (simp add: next_sequence_Inr log_inv_def event_log_def)
  have "event_log c db' = event_log c db @ [stamp (o_sequence out) fresh (Some cid) d now]"
    using assms(1,3,4) by (rule event_log_snoc [OF row_to_event_of new(5)])
  moreover have "out = \<lparr>o_sequence = o_sequence out, o_event_id = fresh, o_created = True\<rparr>"
    using new(1,2) by (cases out) simp
  ultimately show ?thesis using call seq by metis
qed

theorem append_command_refines_log_witness:
  "\<exists>db'. append_command_bundle plain_codec no_faults 0 (EventId 1) (CommandId 7) demo_draft EntityNone
       None empty_hub = (Inr \<lparr>o_sequence = 1, o_event_id = EventId 1, o_created = True\<rparr>, db')
     \<and> event_log plain_codec db' = [stamp 1 (EventId 1) (Some (CommandId 7)) demo_draft 0]"
  using append_command_refines_log [OF plain_codec_ok hub_reachable_empty demo_ok(1,2),
      of "CommandId 7" "EventId 1" EntityNone None]
  by (simp add: event_log_def stored_command_def find_receipt_def) (simp add: empty_hub_def i64_max_def)

subsection \<open>Atomicity\<close>

text \<open>What a created command leaves behind: its event, its receipt, its entity row and its
  dispatch.\<close>

definition bundle_stored ::
  "'j codec \<Rightarrow> time \<Rightarrow> command_id \<Rightarrow> entity_write \<Rightarrow> (node_id \<times> hub_to_node) option \<Rightarrow> append_outcome
   \<Rightarrow> 'j hub \<Rightarrow> bool" where
  "bundle_stored c now cid entity dp out db \<longleftrightarrow>
     (\<exists>row \<in> set (events db). ev_sequence row = o_sequence out
        \<and> ev_event_id row = event_id_str c (o_event_id out)
        \<and> ev_command_id row = Some (command_id_str c cid))
     \<and> command_id_str c cid \<in> rc_command_id ` set (command_receipts db)
     \<and> (case entity of EntityNone \<Rightarrow> True
        | EntityTask t \<Rightarrow> task_row_of c t \<in> set (tasks db)
        | EntityRun r \<Rightarrow> run_row_of c r \<in> set (runs db)
            \<and> (\<forall>t \<in> set (tasks db). tk_task_id t = task_id_str c (r_task_id r)
                 \<longrightarrow> tk_status t = task_status_as_str Running))
     \<and> (case dp of None \<Rightarrow> True
        | Some (node, m) \<Rightarrow>
            \<lparr>pd_command_id = command_id_str c cid, pd_node_id = node_str node, pd_message = msg_str c m,
             pd_created_at = fmt_time c now, pd_acked_at = None\<rparr> \<in> set (dispatches db))"

lemma insert_dispatch_keeps:
  "insert_dispatch c io cid dp now tx = Inr tx' \<Longrightarrow>
     tasks tx' = tasks tx \<and> runs tx' = runs tx \<and> events tx' = events tx
     \<and> command_receipts tx' = command_receipts tx"
  by (auto simp: insert_dispatch_def store_simps bind_res_eq_Inr split: option.splits)

lemma created_bundle_stored:
  assumes call: "append_command_bundle c io now fresh cid d entity dp db = (Inr out, db')"
  shows "if o_created out then bundle_stored c now cid entity dp out db' else db' = db"
  using call
proof (cases rule: append_command_cases)
  case (new tx2 tx3)
  have keep: "tasks db' = tasks tx3" "runs db' = runs tx3" "events db' = events tx2"
      "command_receipts db' = command_receipts tx2"
    using insert_dispatch_keeps [OF new(8)] write_entity_same_log [OF new(7)]
    by (simp_all add: same_log_def)
  have ent: "case entity of EntityNone \<Rightarrow> True
    | EntityTask t \<Rightarrow> task_row_of c t \<in> set (tasks tx3)
    | EntityRun r \<Rightarrow> run_row_of c r \<in> set (runs tx3)
        \<and> (\<forall>t \<in> set (tasks tx3). tk_task_id t = task_id_str c (r_task_id r)
             \<longrightarrow> tk_status t = task_status_as_str Running)"
    using new(7)
    by (cases entity)
      (auto simp: insert_task_row_def insert_run_row_def set_task_status_def update_where_def
        store_simps bind_res_eq_Inr)
  have "case dp of None \<Rightarrow> True
    | Some (node, m) \<Rightarrow>
        \<lparr>pd_command_id = command_id_str c cid, pd_node_id = node_str node, pd_message = msg_str c m,
         pd_created_at = fmt_time c now, pd_acked_at = None\<rparr> \<in> set (dispatches db')"
    using new(8) by (auto simp: insert_dispatch_def store_simps bind_res_eq_Inr split: option.splits)
  with ent [folded keep(1,2)] show ?thesis
    using new(2,3) by (simp add: bundle_stored_def keep new(6) event_row_of_def)
qed simp

text \<open>C23: a command is all or nothing. Whichever statement fails, begin and commit included,
  the database is the one before the call; and a call that reports a new command has stored
  the event, the receipt, the entity row (with the task of a run marked running) and the
  dispatch together.\<close>

theorem command_bundle_atomic:
  "case append_command_bundle c io now fresh cid d entity dp db of
     (Inl e, db') \<Rightarrow> db' = db
   | (Inr out, db') \<Rightarrow> if o_created out then bundle_stored c now cid entity dp out db' else db' = db"
proof (cases "append_command_bundle c io now fresh cid d entity dp db")
  case (Pair r db')
  then show ?thesis
    using created_bundle_stored append_command_error by (cases r) fastforce+
qed

subsection \<open>Reads\<close>

text \<open>A subscriber that asks for the events after sequence n gets exactly the log's tail:
  every later event, none twice, in order.\<close>

theorem events_after_exact_tail:
  assumes "codec_ok c" and "hub_reachable c db" and "0 \<le> after" and "io S_SelectEvents = None"
  shows "events_after c io after db = Inr (drop (nat after) (event_log c db))"
  using assms hub_reachable_inv(1) [OF assms(2,1)] by (simp add: events_after_log durable_inv_def)

theorem events_after_exact_tail_witness:
  "events_after plain_codec no_faults 3 empty_hub = Inr (drop 3 (event_log plain_codec empty_hub))"
  using events_after_exact_tail [OF plain_codec_ok hub_reachable_empty, of 3 no_faults]
  by (simp add: no_faults_def)

lemma rev_take_rev: "rev (take n (rev xs)) = drop (length xs - n) xs"
  by (simp add: rev_take)

text \<open>The bounded reads return the newest entries, oldest first: the last \<open>limit\<close> events of
  the log, or of one task's part of it.\<close>

theorem bounded_reads_are_newest:
  assumes "codec_ok c" and "hub_reachable c db" and "io S_SelectEvents = None"
    and "int limit \<le> i64_max"
  shows "recent_events c io limit db
      = Inr (drop (length (event_log c db) - limit) (event_log c db))
    \<and> task_events_tail c io tid limit db
      = Inr (let es = filter (\<lambda>e. e_task_id e = tid) (event_log c db) in drop (length es - limit) es)"
proof -
  have inv: "log_inv c db" using hub_reachable_inv(1) [OF assms(2,1)] by (simp add: durable_inv_def)
  have lim: "limit_rows limit rows = take limit rows" for rows :: "'a event_row list"
  proof -
    have "limit \<le> nat i64_max" using assms(4) by linarith
    then show ?thesis by (simp add: limit_rows_def)
  qed
  have sorted: "sorted (map ev_sequence (events db))"
    using inv by (simp add: log_inv_def numbered_sorted)
  have read: "bind_res (lift_sql (collect_res (row_to_event c) (take limit (rev rows)))) (\<lambda>es. Inr (rev es))
      = Inr (drop (length rows - limit) (map (\<lambda>r. projr (row_to_event c r)) rows))"
    if "set rows \<subseteq> set (events db)" for rows
    using collect_event_rows [OF inv, of "take limit (rev rows)"] that set_take_subset [of limit "rev rows"]
    by (simp add: rev_map rev_take_rev drop_map subset_trans)
  let ?mine = "\<lambda>r. ev_task_id r = task_id_str c tid"
  have mine: "map (\<lambda>r. projr (row_to_event c r)) (filter ?mine (events db))
      = filter (\<lambda>e. e_task_id e = tid) (event_log c db)"
    unfolding event_log_def filter_map comp_def
    by (rule arg_cong [of _ _ "map _"], rule filter_cong [OF refl])
      (simp add: log_inv_task [OF inv] id_str_inj [OF assms(1)])
  have "sorted (map ev_sequence (filter ?mine (events db)))"
    using sorted by (rule sorted_filter)
  then have "task_events_tail c io tid limit db
      = Inr (drop (length (filter ?mine (events db)) - limit)
          (map (\<lambda>r. projr (row_to_event c r)) (filter ?mine (events db))))"
    using read [of "filter ?mine (events db)"] assms(3)
    by (simp add: task_events_tail_def exec_def lim sort_key_id_if_sorted del: filter_filter)
  moreover have "length (filter ?mine (events db)) = length (filter (\<lambda>e. e_task_id e = tid) (event_log c db))"
    by (simp add: mine [symmetric])
  moreover have "recent_events c io limit db
      = Inr (drop (length (event_log c db) - limit) (event_log c db))"
    using read [of "events db"] assms(3) sorted
    by (simp add: recent_events_def exec_def lim sort_key_id_if_sorted event_log_def)
  ultimately show ?thesis by (simp add: mine Let_def)
qed

theorem bounded_reads_are_newest_witness:
  "\<exists>db. hub_reachable plain_codec db \<and> length (events db) = 1 \<and>
     recent_events plain_codec no_faults 5 db = Inr (event_log plain_codec db)"
proof -
  obtain db where db: "hub_reachable plain_codec db" "length (events db) = 1"
    using demo_state by blast
  then show ?thesis
    using bounded_reads_are_newest [OF plain_codec_ok db(1), of no_faults 5 "TaskId 1"]
    by (intro exI [of _ db]) (simp add: no_faults_def i64_max_def event_log_def)
qed

subsection \<open>Approvals\<close>

text \<open>C24: the first decision on an approval wins. Once a call has resolved it, no later call by
  any actor and no operation in between changes the outcome: the later call returns the first
  decision, actor and time, and leaves the database alone.\<close>

theorem first_decision_wins:
  assumes "codec_ok c" and "time_ok now"
    and "resolve_approval c io aid decision actor now db = (Inr a, db1)"
    and "(hub_step c)\<^sup>*\<^sup>* db1 db2"
    and "resolve_approval c io' aid decision' actor' now' db2 = (Inr a', db3)"
  shows "a' = a \<and> db3 = db2 \<and> get_approval c no_faults aid db2 = Inr (Some a) \<and> \<not> is_pending a"
proof -
  obtain r where r: "settled (approval_id_str c aid) r db1" "row_to_approval c r = Inr a"
    using resolve_settles [OF assms(1-3)] by blast
  note get = settled_get [OF settled_steps [OF assms(4) r(1)] r(2)]
  from assms(5) have "a' = a \<and> db3 = db2"
    by (cases rule: resolve_cases) (use get in auto)
  with get show ?thesis by (simp add: get_approval_def)
qed

lemma demo_resolve:
  assumes "row_at ap_approval_id (approval_id_str c aid) (approvals db) = Some r"
    and "row_to_approval c r = Inr a" and "decision \<noteq> Pending"
  shows "\<exists>a' db'. resolve_approval c no_faults aid decision actor now db = (Inr a', db')"
proof -
  have "find_approval c aid db = Inr (Some a)" using assms by (simp add: find_approval_row)
  then show ?thesis using assms(3) by (simp add: resolve_approval_def transaction_def)
qed

definition demo_approval :: approval where
  "demo_approval = \<lparr>a_id = ApprovalId 3, a_run_id = RunId 4, a_task_id = TaskId 1,
     a_tool_call_id = ''tool'', a_scope = ''shell'', a_options = [''allow'', ''deny''],
     a_expires_at = None, a_decision = Pending, a_resolved_by = None, a_created_at = 0,
     a_resolved_at = None\<rparr>"

lemma demo_request:
  "request_approval plain_codec no_faults 0 (ApprovalId 3) (RunId 4) (TaskId 1) ''tool'' ''shell''
     [''allow'', ''deny''] None empty_hub
   = (Inr demo_approval, empty_hub\<lparr>approvals := [approval_row_of plain_codec demo_approval]\<rparr>)"
  by (simp add: request_approval_def autocommit_def insert_unique_def empty_hub_def demo_approval_def
      Let_def)

theorem first_decision_wins_witness:
  "\<exists>a db1 a' db3.
     resolve_approval plain_codec no_faults (ApprovalId 3) Allowed ''ann'' 1
       (empty_hub\<lparr>approvals := [approval_row_of plain_codec demo_approval]\<rparr>) = (Inr a, db1) \<and>
     resolve_approval plain_codec no_faults (ApprovalId 3) Denied ''bob'' 2 db1 = (Inr a', db3) \<and>
     a' = a \<and> db3 = db1"
proof -
  let ?r = "approval_row_of plain_codec demo_approval" and ?db = "empty_hub\<lparr>approvals :=
    [approval_row_of plain_codec demo_approval]\<rparr>"
  have row: "row_at ap_approval_id (approval_id_str plain_codec (ApprovalId 3)) (approvals ?db) = Some ?r"
    by (simp add: row_at_def approval_row_of_def demo_approval_def)
  have "row_to_approval plain_codec ?r = Inr demo_approval"
    using demo_ok(2) plain_codec_ok
    by (simp add: row_to_approval_def approval_row_of_def demo_approval_def strings_round_trip
        id_round_trips time_round_trip opt_time_def decision_from_db_def)
  then obtain a db1 where res: "resolve_approval plain_codec no_faults (ApprovalId 3) Allowed ''ann'' 1 ?db
      = (Inr a, db1)"
    using demo_resolve [OF row] by blast
  have t: "time_ok 1" by (simp add: time_ok_def)
  obtain a' db3 where again: "resolve_approval plain_codec no_faults (ApprovalId 3) Denied ''bob'' 2 db1
      = (Inr a', db3)"
    using resolve_settles [OF plain_codec_ok t res] demo_resolve [of plain_codec "ApprovalId 3" db1]
    unfolding settled_def by blast
  show ?thesis
    using res again first_decision_wins [OF plain_codec_ok t res rtranclp.rtrancl_refl again]
    by blast
qed

subsection \<open>The dispatch queue\<close>

lemma decode_dispatch_evolves:
  "dispatch_evolves r r' \<Longrightarrow> decode_dispatch c r' = decode_dispatch c r \<and> pd_node_id r' = pd_node_id r"
  by (auto simp: dispatch_evolves_def)

lemma queued_until_acked:
  assumes "codec_ok c" and "hub_reachable c db" and "draft_ok d" and "time_ok now" and "msg_ok m"
    and "append_command_bundle c io now fresh cid d entity (Some (node, m)) db = (Inr out, db1)"
    and "o_created out" and "(hub_step c)\<^sup>*\<^sup>* db1 db2"
  shows "\<exists>ps. pending_dispatches c no_faults node db2 = Inr ps \<and>
     (\<lparr>p_command_id = cid, p_node_id = node, p_message = m, p_created_at = now\<rparr> \<in> set ps
        \<longleftrightarrow> \<not> dispatch_acked c cid db2) \<and>
     (\<forall>q \<in> set ps. p_command_id q = cid \<longrightarrow> p_message q = m)"
proof -
  have "hub_step c db db1"
    by (rule hub_step.step_command [OF assms(3,4) _ assms(6)]) (simp add: assms(5))
  with assms(2) have "(hub_step c)\<^sup>*\<^sup>* empty_hub db1" by (simp add: hub_reachable_def)
  then have reach: "hub_reachable c db2"
    using assms(8) unfolding hub_reachable_def by (rule rtranclp_trans)
  let ?r = "\<lparr>pd_command_id = command_id_str c cid, pd_node_id = node_str node,
      pd_message = msg_str c m, pd_created_at = fmt_time c now, pd_acked_at = None\<rparr>"
  have "row_at pd_command_id (command_id_str c cid) (dispatches db1) = Some ?r"
    by (rule append_command_dispatch [OF assms(6,7) hub_reachable_inv(2) [OF assms(2,1)]])
  from dispatch_steps [OF assms(8) this]
  obtain r where r: "row_at pd_command_id (command_id_str c cid) (dispatches db2) = Some r"
      and ev: "dispatch_evolves ?r r"
    by (elim exE conjE)
  have dec: "decode_dispatch c r
      = Inr \<lparr>p_command_id = cid, p_node_id = node, p_message = m, p_created_at = now\<rparr>"
    using decode_dispatch_of [OF assms(1,5,4), of cid node] decode_dispatch_evolves [OF ev] by simp
  have node: "pd_node_id r = node_str node" using decode_dispatch_evolves [OF ev] by simp
  have keys: "distinct (map pd_command_id (dispatches db2))"
    using hub_reachable_inv(2) [OF reach assms(1)] by (simp add: tables_inv_def dispatches_ok_def)
  have acked: "dispatch_acked c cid db2 \<longleftrightarrow> pd_acked_at r \<noteq> None"
    using r by (simp add: dispatch_acked_def)
  from pending_dispatch_offered [OF queue_ok_reachable [OF reach assms(1)] assms(1) keys r node dec]
  obtain ps where ps: "pending_dispatches c no_faults node db2 = Inr ps"
      "\<lparr>p_command_id = cid, p_node_id = node, p_message = m, p_created_at = now\<rparr> \<in> set ps
        \<longleftrightarrow> pd_acked_at r = None"
      and all: "\<forall>q \<in> set ps. p_command_id q = cid \<longrightarrow>
        q = \<lparr>p_command_id = cid, p_node_id = node, p_message = m, p_created_at = now\<rparr>"
    by (elim exE conjE)
  have "p_message q = m" if "q \<in> set ps" "p_command_id q = cid" for q
    unfolding all [THEN bspec, OF that(1), THEN mp, OF that(2)] by simp
  with ps show ?thesis by (simp add: acked)
qed

text \<open>A dispatch queued with a command is offered to its node at every reconnect until the
  node's acknowledgement, whatever happens in between, and never after it: the queue read
  succeeds, contains the message under its command id exactly while it is not acknowledged,
  and contains nothing else under that id.\<close>

theorem dispatch_offered_until_acked:
  assumes "codec_ok c" and "hub_reachable c db" and "draft_ok d" and "time_ok now" and "msg_ok m"
    and "append_command_bundle c io now fresh cid d entity (Some (node, m)) db = (Inr out, db1)"
    and "o_created out" and "(hub_step c)\<^sup>*\<^sup>* db1 db2"
  shows "\<exists>ps. pending_dispatches c no_faults node db2 = Inr ps \<and>
     (\<lparr>p_command_id = cid, p_node_id = node, p_message = m, p_created_at = now\<rparr> \<in> set ps
        \<longleftrightarrow> \<not> dispatch_acked c cid db2) \<and>
     (\<forall>q \<in> set ps. p_command_id q = cid \<longrightarrow> p_message q = m)"
  by (rule queued_until_acked [OF assms])

theorem dispatch_offered_until_acked_witness:
  "\<exists>out db1 ps. append_command_bundle plain_codec no_faults 0 (EventId 1) (CommandId 7) demo_draft
       EntityNone (Some (NodeId ''node-a'', HubHeartbeat)) empty_hub = (Inr out, db1) \<and>
     pending_dispatches plain_codec no_faults (NodeId ''node-a'') db1 = Inr ps \<and>
     (\<forall>q \<in> set ps. p_command_id q = CommandId 7 \<longrightarrow> p_message q = HubHeartbeat)"
proof -
  obtain out db1 where call: "append_command_bundle plain_codec no_faults 0 (EventId 1) (CommandId 7)
      demo_draft EntityNone (Some (NodeId ''node-a'', HubHeartbeat)) empty_hub = (Inr out, db1)"
    using demo_append by blast
  have "o_created out"
    using append_command_log(1) [OF call] by (simp add: find_receipt_def empty_hub_def)
  from dispatch_offered_until_acked [OF plain_codec_ok hub_reachable_empty demo_ok(1,2) _ call this
      rtranclp.rtrancl_refl]
  show ?thesis using call by fastforce
qed

text \<open>An acknowledgement counts only from the node that the dispatch was queued for. The
  call answers true exactly when a dispatch of that command was waiting for that very node;
  then the dispatch is acknowledged for good, under every later operation. Otherwise the
  database does not change.\<close>

theorem only_owner_acknowledges:
  assumes "codec_ok c" and "hub_reachable c db"
    and "acknowledge_dispatch_from c io now cid node db = (Inr b, db1)"
    and "(hub_step c)\<^sup>*\<^sup>* db1 db2"
  shows "(b \<longleftrightarrow> dispatch_waiting c cid node db) \<and> (if b then dispatch_acked c cid db2 else db1 = db)"
proof -
  have "distinct (map pd_command_id (dispatches db))"
    using hub_reachable_inv(2) [OF assms(2,1)] by (simp add: tables_inv_def dispatches_ok_def)
  note ack = ack_from_cases [OF assms(3) this]
  show ?thesis using ack dispatch_acked_steps [OF assms(4)] by auto
qed

theorem only_owner_acknowledges_witness:
  "\<exists>b db1. acknowledge_dispatch_from plain_codec no_faults 0 (CommandId 7) (NodeId ''node-a'') empty_hub
      = (Inr b, db1) \<and> \<not> b \<and> db1 = empty_hub"
proof -
  obtain b db1 where call: "acknowledge_dispatch_from plain_codec no_faults 0 (CommandId 7)
      (NodeId ''node-a'') empty_hub = (Inr b, db1)"
    by (simp add: acknowledge_dispatch_from_def ack_where_def autocommit_def Let_def)
  have "\<not> dispatch_waiting plain_codec (CommandId 7) (NodeId ''node-a'') empty_hub"
    by (simp add: dispatch_waiting_def row_at_def empty_hub_def)
  then show ?thesis
    using call only_owner_acknowledges [OF plain_codec_ok hub_reachable_empty call rtranclp.rtrancl_refl]
    by auto
qed

end
