(* ===== verification/Hub_State.thy ===== *)
theory Hub_State
  imports Validate Store_Props
begin

text \<open>
  The shared state of one hub process (\<open>crates/stackhour-hub/src/lib.rs\<close>, \<open>HubState\<close>): the
  durable store, the secrets, the live bus, the registry of connected nodes with their
  outgoing channels, and the cache of run bindings. Every method is one definition; each
  takes the store calls it makes in order, so the argument \<open>v\<close> of type \<open>env\<close> holds, per
  call, the clock readings, the failing statements and the freshly minted ids.

  \<open>nodes\<close> is an association list whose order stands for the iteration order of the hash
  map. A \<open>NodeConnection\<close> is its connection id; \<open>channels\<close> tells, per connection id, the
  messages sent on its channel and not yet taken out, or nothing once the receiver is gone.
  A mutex is held inside one store call only, so a method is a sequence of store calls.
\<close>

subsection \<open>State\<close>

record env =
  v_clock :: "nat \<Rightarrow> time"
  v_io :: "nat \<Rightarrow> faults"
  v_event :: event_id
  v_task :: task_id
  v_run :: run_id

record 'j hub_state =
  hs_hub :: "'j hub"
  node_secret :: string
  client_secret :: string
  hs_events :: "event list"
  hs_nodes :: "(node_id \<times> 64 word) list"
  channels :: "64 word \<Rightarrow> hub_to_node list option"
  next_node_connection_id :: "64 word"
  routing_run :: "run_id \<Rightarrow> (node_id \<times> task_id) option"
  routing_task :: "task_id \<Rightarrow> node_id option"

definition EVENT_BUS_CAPACITY :: nat where
  "EVENT_BUS_CAPACITY = 1024"

definition system_task :: task_id where
  "system_task = TaskId 0"

definition hub_node :: node_id where
  "hub_node = NodeId ''hub''"

definition from_hub :: "'j hub \<Rightarrow> string \<Rightarrow> string \<Rightarrow> 'j hub_state" where
  "from_hub h node_sec client_sec =
     \<lparr>hs_hub = h, node_secret = node_sec, client_secret = client_sec, hs_events = [], hs_nodes = [],
      channels = (\<lambda>_. None), next_node_connection_id = 1, routing_run = (\<lambda>_. None),
      routing_task = (\<lambda>_. None)\<rparr>"

text \<open>\<open>with_hub\<close> around a store operation.\<close>

definition with_hub ::
  "('j hub \<Rightarrow> (error, 'a) result \<times> 'j hub) \<Rightarrow> 'j hub_state \<Rightarrow> (error, 'a) result \<times> 'j hub_state" where
  "with_hub f s = (case f (hs_hub s) of (r, h) \<Rightarrow> (r, s\<lparr>hs_hub := h\<rparr>))"

subsection \<open>Durable append and broadcast\<close>

definition fetch_event :: "'j codec \<Rightarrow> faults \<Rightarrow> 'j hub \<Rightarrow> int \<Rightarrow> (error, event option) result" where
  "fetch_event c io h sequence =
     bind_res (events_after c io (sequence - 1) h) (\<lambda>es. Inr (find (\<lambda>e. e_sequence e = sequence) es))"

definition broadcast_new ::
  "'j codec \<Rightarrow> faults \<Rightarrow> (error, append_outcome) result \<times> 'j hub_state
   \<Rightarrow> (error, append_outcome) result \<times> 'j hub_state" where
  "broadcast_new c io res =
     (case res of
        (Inl e, s) \<Rightarrow> (Inl e, s)
      | (Inr outcome, s) \<Rightarrow>
          if o_created outcome then
            (case fetch_event c io (hs_hub s) (o_sequence outcome) of
               Inl e \<Rightarrow> (Inl e, s)
             | Inr None \<Rightarrow> (Inr outcome, s)
             | Inr (Some ev) \<Rightarrow> (Inr outcome, s\<lparr>hs_events := hs_events s @ [ev]\<rparr>))
          else (Inr outcome, s))"

definition append_and_broadcast_command ::
  "'j codec \<Rightarrow> faults \<Rightarrow> time \<Rightarrow> event_id \<Rightarrow> command_id \<Rightarrow> event_draft \<Rightarrow> entity_write
   \<Rightarrow> (node_id \<times> hub_to_node) option \<Rightarrow> 'j hub_state \<Rightarrow> (error, append_outcome) result \<times> 'j hub_state" where
  "append_and_broadcast_command c io now fresh cid draft entity dispatch s =
     broadcast_new c io (with_hub (append_command_bundle c io now fresh cid draft entity dispatch) s)"

definition append_and_broadcast_node_event ::
  "'j codec \<Rightarrow> faults \<Rightarrow> time \<Rightarrow> event_id \<Rightarrow> event_draft \<Rightarrow> 'j hub_state
   \<Rightarrow> (error, append_outcome) result \<times> 'j hub_state" where
  "append_and_broadcast_node_event c io now eid draft s =
     broadcast_new c io (with_hub (append_node_event c io now eid draft) s)"

definition read_events_after :: "'j codec \<Rightarrow> faults \<Rightarrow> int \<Rightarrow> 'j hub_state \<Rightarrow> (error, event list) result" where
  "read_events_after c io after s = events_after c io after (hs_hub s)"

text \<open>The head sequence and the tail after a cursor, from one read of the whole log.\<close>

definition snapshot ::
  "'j codec \<Rightarrow> faults \<Rightarrow> int \<Rightarrow> 'j hub_state \<Rightarrow> (error, int \<times> event list) result" where
  "snapshot c io after s =
     bind_res (events_after c io 0 (hs_hub s)) (\<lambda>all.
       Inr (if all = [] then 0 else e_sequence (last all), filter (\<lambda>e. e_sequence e > after) all))"

subsection \<open>The node registry and its channels\<close>

definition chan_send :: "64 word \<Rightarrow> hub_to_node \<Rightarrow> 'j hub_state \<Rightarrow> bool \<times> 'j hub_state" where
  "chan_send conn msg s =
     (case channels s conn of
        None \<Rightarrow> (False, s)
      | Some q \<Rightarrow> (True, s\<lparr>channels := (channels s)(conn := Some (q @ [msg]))\<rparr>))"

definition register_node :: "node_id \<Rightarrow> 'j hub_state \<Rightarrow> 64 word \<times> 'j hub_state" where
  "register_node node s =
     (let conn = next_node_connection_id s in
      (conn, s\<lparr>next_node_connection_id := conn + 1,
               hs_nodes := (node, conn) # filter (\<lambda>p. fst p \<noteq> node) (hs_nodes s),
               channels := (channels s)(conn := Some [])\<rparr>))"

definition unregister_node :: "node_id \<Rightarrow> 64 word \<Rightarrow> 'j hub_state \<Rightarrow> bool \<times> 'j hub_state" where
  "unregister_node node conn s =
     (let owns_slot = map_of (hs_nodes s) node = Some conn in
      (owns_slot, if owns_slot then s\<lparr>hs_nodes := filter (\<lambda>p. fst p \<noteq> node) (hs_nodes s)\<rparr> else s))"

definition route_to_node :: "node_id \<Rightarrow> hub_to_node \<Rightarrow> 'j hub_state \<Rightarrow> bool \<times> 'j hub_state" where
  "route_to_node node msg s =
     (case map_of (hs_nodes s) node of
        Some conn \<Rightarrow> chan_send conn msg s
      | None \<Rightarrow> (False, s))"

definition replay_pending :: "'j codec \<Rightarrow> faults \<Rightarrow> node_id \<Rightarrow> 'j hub_state \<Rightarrow> 'j hub_state" where
  "replay_pending c io node s =
     (let pending = (case pending_dispatches c io node (hs_hub s) of Inl _ \<Rightarrow> [] | Inr ps \<Rightarrow> ps)
      in fold (\<lambda>item s. snd (route_to_node node (p_message item) s)) pending s)"

definition hub_acknowledge_dispatch_from ::
  "'j codec \<Rightarrow> faults \<Rightarrow> time \<Rightarrow> node_id \<Rightarrow> command_id \<Rightarrow> 'j hub_state \<Rightarrow> 'j hub_state" where
  "hub_acknowledge_dispatch_from c io now node cid s =
     snd (with_hub (acknowledge_dispatch_from c io now cid node) s)"

text \<open>\<open>dispatch_update_to_nodes\<close>: one message per connected node, the \<open>i\<close>-th with the fresh
  command id \<open>fresh i\<close>, and the count of the sends that reached an open channel.\<close>

fun send_updates ::
  "time \<Rightarrow> (nat \<Rightarrow> command_id) \<Rightarrow> string \<Rightarrow> nat \<Rightarrow> (node_id \<times> 64 word) list \<Rightarrow> 'j hub_state
   \<Rightarrow> nat \<times> 'j hub_state" where
  "send_updates expires_at fresh version i [] s = (0, s)"
| "send_updates expires_at fresh version i ((node, conn) # rest) s =
     (case chan_send conn (DispatchCommand (fresh i) (Some expires_at) (WorkUpdate version)) s of
        (sent, s1) \<Rightarrow>
          (case send_updates expires_at fresh version (Suc i) rest s1 of
             (n, s2) \<Rightarrow> ((if sent then Suc n else n), s2)))"

definition dispatch_update_to_nodes ::
  "time \<Rightarrow> (nat \<Rightarrow> command_id) \<Rightarrow> string \<Rightarrow> 'j hub_state \<Rightarrow> nat \<times> 'j hub_state" where
  "dispatch_update_to_nodes now fresh version s =
     send_updates (now + 600000000000) fresh version 0 (hs_nodes s) s"

subsection \<open>Run bindings\<close>

definition remember_run :: "run_id \<Rightarrow> node_id \<Rightarrow> task_id \<Rightarrow> 'j hub_state \<Rightarrow> 'j hub_state" where
  "remember_run rid node tid s =
     s\<lparr>routing_run := (routing_run s)(rid := Some (node, tid)),
       routing_task := (routing_task s)(tid := Some node)\<rparr>"

definition run_binding_checked ::
  "'j codec \<Rightarrow> faults \<Rightarrow> run_id \<Rightarrow> 'j hub_state \<Rightarrow> (error, (node_id \<times> task_id) option) result \<times> 'j hub_state" where
  "run_binding_checked c io rid s =
     (case routing_run s rid of
        Some b \<Rightarrow> (Inr (Some b), s)
      | None \<Rightarrow>
          (case get_run c io rid (hs_hub s) of
             Inl e \<Rightarrow> (Inl e, s)
           | Inr None \<Rightarrow> (Inr None, s)
           | Inr (Some run) \<Rightarrow>
               (Inr (Some (r_node_id run, r_task_id run)),
                remember_run (r_id run) (r_node_id run) (r_task_id run) s)))"

definition run_binding ::
  "'j codec \<Rightarrow> faults \<Rightarrow> run_id \<Rightarrow> 'j hub_state \<Rightarrow> (node_id \<times> task_id) option \<times> 'j hub_state" where
  "run_binding c io rid s =
     (case run_binding_checked c io rid s of (Inl _, s') \<Rightarrow> (None, s') | (Inr b, s') \<Rightarrow> (b, s'))"

definition node_for_run :: "'j codec \<Rightarrow> faults \<Rightarrow> run_id \<Rightarrow> 'j hub_state \<Rightarrow> node_id option \<times> 'j hub_state" where
  "node_for_run c io rid s = (case run_binding c io rid s of (b, s') \<Rightarrow> (map_option fst b, s'))"

definition node_for_task :: "task_id \<Rightarrow> 'j hub_state \<Rightarrow> node_id option" where
  "node_for_task tid s = routing_task s tid"

definition accepts_node_event ::
  "'j codec \<Rightarrow> faults \<Rightarrow> node_id \<Rightarrow> event_draft \<Rightarrow> 'j hub_state \<Rightarrow> (error, bool) result \<times> 'j hub_state" where
  "accepts_node_event c io authenticated draft s =
     (if d_node_id draft \<noteq> authenticated then (Inr False, s)
      else case d_run_id draft of
        None \<Rightarrow> (Inr False, s)
      | Some rid \<Rightarrow>
          (case run_binding_checked c io rid s of
             (Inl e, s') \<Rightarrow> (Inl e, s')
           | (Inr None, s') \<Rightarrow> (Inr False, s')
           | (Inr (Some (node, tid)), s') \<Rightarrow>
               (Inr (node = authenticated \<and> tid = d_task_id draft), s')))"

definition track_assistant_worker ::
  "'j codec \<Rightarrow> faults \<Rightarrow> faults \<Rightarrow> time \<Rightarrow> string \<Rightarrow> task_id \<Rightarrow> run_id \<Rightarrow> 'j hub_state
   \<Rightarrow> (error, unit) result \<times> 'j hub_state" where
  "track_assistant_worker c io0 io1 now channel tid rid s =
     (case run_binding c io0 rid s of
        (None, s') \<Rightarrow> (Inl (ErrMsg ''cannot track an unknown worker run''), s')
      | (Some (node, bound_task), s') \<Rightarrow>
          if bound_task \<noteq> tid \<or> node = hub_node then
            (Inl (ErrMsg ''assistant worker must be a node-owned run for this task''), s')
          else with_hub (register_assistant_worker c io1 now channel tid) s')"

subsection \<open>Handshakes\<close>

definition negotiate_node :: "'j codec \<Rightarrow> node_hello \<Rightarrow> 'j hub_state \<Rightarrow> hub_welcome" where
  "negotiate_node c hello s =
     (if \<not> ct_eq c (h_token hello) (node_secret s) then welcome_reject Unauthenticated
      else negotiate (h_protocol_version hello))"

definition accepts_client :: "'j codec \<Rightarrow> string option \<Rightarrow> 'j hub_state \<Rightarrow> bool" where
  "accepts_client c token s \<longleftrightarrow>
     client_secret s = [] \<or>
     (case token of None \<Rightarrow> False | Some candidate \<Rightarrow> ct_eq c candidate (client_secret s))"

end
