(* ===== verification/Hub_Commands.thy ===== *)
theory Hub_Commands
  imports Hub_State
begin

text \<open>
  What the hub does with a client's command (\<open>HubState::apply_command_inner\<close> and the methods
  around it): choosing an execution node, turning the command into a draft, an entity and a
  dispatch, appending and broadcasting it, and the assistant's and the workers' entry
  points. Store calls of one command use \<open>v_io v 0\<close> (the receipt lookup), \<open>v_io v 1\<close> (the
  lookup or update of the branch) and \<open>v_io v 2\<close> (the append).
\<close>

subsection \<open>Texts of protocol errors\<close>

fun protocol_error_display :: "'j codec \<Rightarrow> protocol_error \<Rightarrow> string" where
  "protocol_error_display c (VersionMismatch client hub) =
     ''protocol version mismatch: client '' @ int_str client @ '', hub '' @ int_str hub"
| "protocol_error_display c Unauthenticated = ''unauthenticated node''"
| "protocol_error_display c (UnknownTask tid) = ''unknown task: '' @ task_id_str c tid"
| "protocol_error_display c (UnknownRun rid) = ''unknown run: '' @ run_id_str c rid"
| "protocol_error_display c (NoEligibleNode engine (Some node)) =
     ''node '' @ node_str node @ '' is not active and eligible for engine '' @ engine"
| "protocol_error_display c (NoEligibleNode engine None) =
     ''no active node is eligible for engine '' @ engine"
| "protocol_error_display c (UnknownApproval aid) = ''unknown approval: '' @ approval_id_str c aid"
| "protocol_error_display c Expired = ''request expired''"
| "protocol_error_display c (InvalidRequest message) = ''invalid request: '' @ message"

subsection \<open>Scheduling\<close>

definition eligible :: "'j hub_state \<Rightarrow> string \<Rightarrow> node_id option \<Rightarrow> node \<Rightarrow> bool" where
  "eligible s engine preferred node \<longleftrightarrow>
     (case preferred of None \<Rightarrow> True | Some wanted \<Rightarrow> wanted = n_id node)
     \<and> map_of (hs_nodes s) (n_id node) \<noteq> None
     \<and> node_accepts_engine (n_capabilities node) engine"

definition eligible_execution_node ::
  "'j codec \<Rightarrow> faults \<Rightarrow> string \<Rightarrow> node_id option \<Rightarrow> 'j hub_state \<Rightarrow> (protocol_error, node_id) result" where
  "eligible_execution_node c io engine preferred s =
     (case list_nodes c io (hs_hub s) of
        Inl _ \<Rightarrow> Inl (InvalidRequest ''cannot read execution-node registry'')
      | Inr ns \<Rightarrow>
          ok_or (map_option n_id (find (eligible s engine preferred) ns))
            (NoEligibleNode engine preferred))"

definition schedule_execution_node ::
  "'j codec \<Rightarrow> faults \<Rightarrow> string \<Rightarrow> node_id option \<Rightarrow> 'j hub_state \<Rightarrow> (error, node_id) result" where
  "schedule_execution_node c io engine preferred s =
     (case eligible_execution_node c io engine preferred s of
        Inl e \<Rightarrow> Inl (ErrMsg (protocol_error_display c e))
      | Inr node \<Rightarrow> Inr node)"

record node_view =
  nv_id :: string
  nv_label :: string
  nv_status :: string
  nv_software_version :: string
  nv_capabilities :: json
  nv_last_seen_sequence :: "int option"

definition node_view_of :: "'j hub_state \<Rightarrow> node \<Rightarrow> node_view" where
  "node_view_of s node =
     \<lparr>nv_id = node_str (n_id node), nv_label = n_label node,
      nv_status = (if map_of (hs_nodes s) (n_id node) \<noteq> None then ''connected'' else ''disconnected''),
      nv_software_version = n_software_version node, nv_capabilities = n_capabilities node,
      nv_last_seen_sequence = n_last_seen_sequence node\<rparr>"

definition hub_list_nodes :: "'j codec \<Rightarrow> faults \<Rightarrow> 'j hub_state \<Rightarrow> (error, node_view list) result" where
  "hub_list_nodes c io s =
     bind_res (list_nodes c io (hs_hub s)) (\<lambda>ns. Inr (map (node_view_of s) ns))"

subsection \<open>Finishing a command\<close>

record command_effect =
  x_receipt :: hub_to_client
  x_dispatch :: "(node_id \<times> hub_to_node) option"

definition reject_effect :: "command_id \<Rightarrow> protocol_error \<Rightarrow> command_effect" where
  "reject_effect cid e = \<lparr>x_receipt = rejected cid e, x_dispatch = None\<rparr>"

definition finish_with_entity ::
  "'j codec \<Rightarrow> env \<Rightarrow> command_id \<Rightarrow> event_draft \<Rightarrow> (node_id \<times> hub_to_node) option \<Rightarrow> entity_write
   \<Rightarrow> 'j hub_state \<Rightarrow> command_effect \<times> 'j hub_state" where
  "finish_with_entity c v cid draft dispatch entity s =
     (case append_and_broadcast_command c (v_io v 2) (v_clock v 2) (v_event v) cid draft entity dispatch s of
        (Inr outcome, s') \<Rightarrow>
          (\<lparr>x_receipt = accepted cid (o_sequence outcome) (o_event_id outcome),
            x_dispatch = (if o_created outcome then dispatch else None)\<rparr>, s')
      | (Inl _, s') \<Rightarrow>
          (\<lparr>x_receipt = CommandReceipt cid False None None None, x_dispatch = None\<rparr>, s'))"

definition finish ::
  "'j codec \<Rightarrow> env \<Rightarrow> command_id \<Rightarrow> event_draft \<Rightarrow> (node_id \<times> hub_to_node) option
   \<Rightarrow> 'j hub_state \<Rightarrow> command_effect \<times> 'j hub_state" where
  "finish c v cid draft dispatch s = finish_with_entity c v cid draft dispatch EntityNone s"

subsection \<open>The five commands\<close>

definition apply_create_task ::
  "'j codec \<Rightarrow> env \<Rightarrow> command_id \<Rightarrow> string \<Rightarrow> 'j hub_state \<Rightarrow> command_effect \<times> 'j hub_state" where
  "apply_create_task c v cid title s =
     (let task = \<lparr>t_id = v_task v, t_title = title, t_status = Open, t_created_at = v_clock v 0\<rparr>;
          draft = with_payload (event_draft_new (v_clock v 1) TaskCreated (t_id task) hub_node)
                    (JObject [(''title'', JString title)])
      in finish_with_entity c v cid draft None (EntityTask task) s)"

definition apply_send_user_message ::
  "'j codec \<Rightarrow> env \<Rightarrow> command_id \<Rightarrow> task_id \<Rightarrow> run_id option \<Rightarrow> string \<Rightarrow> string \<Rightarrow> 'j hub_state
   \<Rightarrow> command_effect \<times> 'j hub_state" where
  "apply_send_user_message c v cid tid run_id txt client_message_id s =
     (case (case run_id of None \<Rightarrow> (None, s) | Some r \<Rightarrow> node_for_run c (v_io v 1) r s) of
        (by_run, s1) \<Rightarrow>
          let node = (case by_run of Some n \<Rightarrow> Some n | None \<Rightarrow> node_for_task tid s1) in
          if node = Some hub_node then
            (reject_effect cid (InvalidRequest
               ''hub-local assistant messages must be submitted by their owning supervisor''), s1)
          else
            let dispatch = (case (node, run_id) of
                  (Some n, Some r) \<Rightarrow>
                    Some (n, DispatchCommand cid None (WorkSendPrompt tid r txt client_message_id))
                | _ \<Rightarrow> None);
                draft = with_payload
                  (event_draft_new (v_clock v 1) MessageUser tid (case node of Some n \<Rightarrow> n | None \<Rightarrow> hub_node))
                  (JObject [(''text'', JString txt), (''client_message_id'', JString client_message_id)])
            in finish c v cid (draft\<lparr>d_run_id := run_id\<rparr>) dispatch s1)"

definition run_payload ::
  "string \<Rightarrow> string option \<Rightarrow> string option \<Rightarrow> access_policy \<Rightarrow> string option \<Rightarrow> (string \<times> json) list" where
  "run_payload engine model reasoning_effort access_policy workspace_path =
     [(''engine'', JString engine), (''model'', json_of_opt JString model),
      (''reasoning_effort'', json_of_opt JString reasoning_effort),
      (''access_policy'', JString (access_policy_as_str access_policy)),
      (''workspace_path'', json_of_opt JString workspace_path)]"

definition apply_start_run ::
  "'j codec \<Rightarrow> env \<Rightarrow> node_id option \<Rightarrow> command_id \<Rightarrow> task_id \<Rightarrow> node_id option \<Rightarrow> string \<Rightarrow> string option
   \<Rightarrow> string option \<Rightarrow> string option \<Rightarrow> access_policy \<Rightarrow> string option \<Rightarrow> 'j hub_state
   \<Rightarrow> command_effect \<times> 'j hub_state" where
  "apply_start_run c v reserved cid tid target engine model reasoning_effort system_prompt access_policy
       workspace_path s =
     (case validate_run_configuration engine model reasoning_effort system_prompt workspace_path of
        Inl message \<Rightarrow> (reject_effect cid (InvalidRequest message), s)
      | Inr _ \<Rightarrow>
          (case (case reserved of Some n \<Rightarrow> Inr n
                 | None \<Rightarrow> eligible_execution_node c (v_io v 1) engine target s) of
             Inl e \<Rightarrow> (reject_effect cid e, s)
           | Inr node \<Rightarrow>
               let run = \<lparr>r_id = v_run v, r_task_id = tid, r_node_id = node, r_engine = engine,
                     r_model = model, r_reasoning_effort = reasoning_effort,
                     r_system_prompt = system_prompt, r_access_policy = access_policy,
                     r_workspace_path = workspace_path, r_status = Started,
                     r_started_at = v_clock v 0\<rparr>;
                   dispatch = Some (node, DispatchCommand cid None
                     (WorkStartRun (v_run v) tid engine model reasoning_effort system_prompt
                        access_policy workspace_path));
                   draft = with_payload
                     (with_run (event_draft_new (v_clock v 1) RunStarted tid node) (v_run v))
                     (JObject (run_payload engine model reasoning_effort access_policy workspace_path))
               in case finish_with_entity c v cid draft dispatch (EntityRun run) s of
                    (eff, s') \<Rightarrow>
                      (eff, if x_dispatch eff \<noteq> None then remember_run (v_run v) node tid s' else s')))"

definition apply_interrupt_run ::
  "'j codec \<Rightarrow> env \<Rightarrow> command_id \<Rightarrow> run_id \<Rightarrow> 'j hub_state \<Rightarrow> command_effect \<times> 'j hub_state" where
  "apply_interrupt_run c v cid rid s =
     (case run_binding c (v_io v 1) rid s of
        (binding, s1) \<Rightarrow>
          if map_option fst binding = Some hub_node then
            (reject_effect cid (InvalidRequest
               ''hub-local assistant runs must be stopped by their owning supervisor''), s1)
          else
            let node = map_option fst binding;
                tid = (case binding of Some (_, t) \<Rightarrow> t | None \<Rightarrow> system_task);
                dispatch = map_option (\<lambda>n. (n, DispatchCommand cid None (WorkInterruptRun rid))) node;
                draft = with_run
                  (event_draft_new (v_clock v 1) RunInterrupted tid (case node of Some n \<Rightarrow> n | None \<Rightarrow> hub_node))
                  rid
            in finish c v cid draft dispatch s1)"

definition apply_resolve_approval ::
  "'j codec \<Rightarrow> env \<Rightarrow> command_id \<Rightarrow> approval_id \<Rightarrow> decision \<Rightarrow> string \<Rightarrow> 'j hub_state
   \<Rightarrow> command_effect \<times> 'j hub_state" where
  "apply_resolve_approval c v cid aid decision actor s =
     (case with_hub (resolve_approval c (v_io v 1) aid decision actor (v_clock v 0)) s of
        (Inl _, s1) \<Rightarrow> (reject_effect cid (UnknownApproval aid), s1)
      | (Inr a, s1) \<Rightarrow>
          let draft = with_payload (event_draft_new (v_clock v 1) ApprovalResolved (a_task_id a) hub_node)
                (JObject [(''approval_id'', JString (approval_id_str c aid)),
                          (''decision'', JString (decision_as_str (a_decision a))),
                          (''actor'', json_of_opt JString (a_resolved_by a))])
          in finish c v cid (draft\<lparr>d_run_id := Some (a_run_id a)\<rparr>) None s1)"

fun apply_branch ::
  "'j codec \<Rightarrow> env \<Rightarrow> node_id option \<Rightarrow> client_command \<Rightarrow> 'j hub_state \<Rightarrow> command_effect \<times> 'j hub_state" where
  "apply_branch c v reserved (CreateTask cid title) s = apply_create_task c v cid title s"
| "apply_branch c v reserved (SendUserMessage cid tid rid txt cmid) s =
     apply_send_user_message c v cid tid rid txt cmid s"
| "apply_branch c v reserved (StartRun cid tid node engine model effort prompt policy path) s =
     apply_start_run c v reserved cid tid node engine model effort prompt policy path s"
| "apply_branch c v reserved (InterruptRun cid rid) s = apply_interrupt_run c v cid rid s"
| "apply_branch c v reserved (ResolveApproval cid aid decision actor) s =
     apply_resolve_approval c v cid aid decision actor s"

definition apply_command_inner ::
  "'j codec \<Rightarrow> env \<Rightarrow> client_command \<Rightarrow> node_id option \<Rightarrow> 'j hub_state \<Rightarrow> command_effect \<times> 'j hub_state" where
  "apply_command_inner c v cmd reserved s =
     (case command_outcome c (v_io v 0) (command_id_of cmd) (hs_hub s) of
        Inr (Some outcome) \<Rightarrow>
          (\<lparr>x_receipt = accepted (command_id_of cmd) (o_sequence outcome) (o_event_id outcome),
            x_dispatch = None\<rparr>, s)
      | _ \<Rightarrow> apply_branch c v reserved cmd s)"

definition apply_command ::
  "'j codec \<Rightarrow> env \<Rightarrow> client_command \<Rightarrow> 'j hub_state \<Rightarrow> command_effect \<times> 'j hub_state" where
  "apply_command c v cmd s = apply_command_inner c v cmd None s"

definition route_dispatch :: "command_effect \<Rightarrow> 'j hub_state \<Rightarrow> 'j hub_state" where
  "route_dispatch eff s =
     (case x_dispatch eff of None \<Rightarrow> s | Some (node, work) \<Rightarrow> snd (route_to_node node work s))"

definition submit_command ::
  "'j codec \<Rightarrow> env \<Rightarrow> client_command \<Rightarrow> 'j hub_state \<Rightarrow> hub_to_client \<times> 'j hub_state" where
  "submit_command c v cmd s =
     (case apply_command c v cmd s of (eff, s1) \<Rightarrow> (x_receipt eff, route_dispatch eff s1))"

end
