(* ===== verification/Hub_Workers.thy ===== *)
theory Hub_Workers
  imports Hub_Commands
begin

text \<open>
  The methods of \<open>HubState\<close> above single commands: the hub-local assistant's own run, the
  bundle that creates, starts and prompts a worker, and the arrival and departure of a node.
\<close>

subsection \<open>The hub-local assistant\<close>

definition start_hub_assistant_run ::
  "'j codec \<Rightarrow> env \<Rightarrow> command_id \<Rightarrow> task_id \<Rightarrow> string \<Rightarrow> string option \<Rightarrow> string option \<Rightarrow> string
   \<Rightarrow> string option \<Rightarrow> 'j hub_state \<Rightarrow> (error, run_id) result \<times> 'j hub_state" where
  "start_hub_assistant_run c v cid tid engine model reasoning_effort system_prompt workspace_path s =
     (case validate_run_configuration engine model reasoning_effort (Some system_prompt) workspace_path of
        Inl message \<Rightarrow> (Inl (ErrMsg message), s)
      | Inr _ \<Rightarrow>
          let run = \<lparr>r_id = v_run v, r_task_id = tid, r_node_id = hub_node, r_engine = engine,
                r_model = model, r_reasoning_effort = reasoning_effort,
                r_system_prompt = Some system_prompt, r_access_policy = Supervised,
                r_workspace_path = workspace_path, r_status = Started, r_started_at = v_clock v 0\<rparr>;
              draft = with_payload
                (with_run (event_draft_new (v_clock v 1) RunStarted tid hub_node) (v_run v))
                (JObject (run_payload engine model reasoning_effort Supervised workspace_path
                          @ [(''hub_local_assistant'', JBool True)]))
          in case append_and_broadcast_command c (v_io v 2) (v_clock v 2) (v_event v) cid draft
                    (EntityRun run) None s of
               (Inl e, s') \<Rightarrow> (Inl e, s')
             | (Inr _, s') \<Rightarrow> (Inr (v_run v), s'))"

definition append_hub_assistant_message ::
  "'j codec \<Rightarrow> env \<Rightarrow> command_id \<Rightarrow> command_id \<Rightarrow> task_id \<Rightarrow> run_id \<Rightarrow> string \<Rightarrow> 'j hub_state
   \<Rightarrow> (error, unit) result \<times> 'j hub_state" where
  "append_hub_assistant_message c v message_id cid tid rid txt s =
     (let draft = with_payload (event_draft_new (v_clock v 1) MessageUser tid hub_node)
            (JObject [(''text'', JString txt), (''client_message_id'', JString (command_id_str c message_id))])
      in case append_and_broadcast_command c (v_io v 2) (v_clock v 2) (v_event v) cid
                (draft\<lparr>d_run_id := Some rid\<rparr>) EntityNone None s of
           (Inl e, s') \<Rightarrow> (Inl e, s')
         | (Inr _, s') \<Rightarrow> (Inr (), s'))"

definition append_hub_assistant_event ::
  "'j codec \<Rightarrow> env \<Rightarrow> event_kind \<Rightarrow> task_id \<Rightarrow> run_id \<Rightarrow> string option \<Rightarrow> json \<Rightarrow> 'j hub_state
   \<Rightarrow> (error, unit) result \<times> 'j hub_state" where
  "append_hub_assistant_event c v kind tid rid provider_session_id payload s =
     (if kind \<notin> {MessageAssistantCompleted, RunCompleted, RunFailed, RunInterrupted} then
        (Inl (ErrMsg ''unsupported hub-assistant event kind''), s)
      else
        let draft = with_payload (with_run (event_draft_new (v_clock v 1) kind tid hub_node) rid) payload
        in case append_and_broadcast_node_event c (v_io v 2) (v_clock v 2) (v_event v)
                  (draft\<lparr>d_provider_session_id := provider_session_id\<rparr>) s of
             (Inl e, s') \<Rightarrow> (Inl e, s')
           | (Inr _, s') \<Rightarrow> (Inr (), s'))"

subsection \<open>Workers\<close>

text \<open>\<open>format!("{error:?}")\<close> is the argument \<open>dbg\<close>.\<close>

fun receipt_sequence :: "(protocol_error option \<Rightarrow> string) \<Rightarrow> hub_to_client \<Rightarrow> (error, int) result" where
  "receipt_sequence dbg (CommandReceipt _ True (Some sequence) _ _) = Inr sequence"
| "receipt_sequence dbg (CommandReceipt _ _ _ _ err) = Inl (ErrMsg (''hub rejected command: '' @ dbg err))"
| "receipt_sequence dbg _ = Inl (ErrMsg ''hub returned an invalid command receipt'')"

definition route_effect ::
  "(protocol_error option \<Rightarrow> string) \<Rightarrow> command_effect \<Rightarrow> 'j hub_state \<Rightarrow> (error, int) result \<times> 'j hub_state" where
  "route_effect dbg eff s = (receipt_sequence dbg (x_receipt eff), route_dispatch eff s)"

definition event_at ::
  "'j codec \<Rightarrow> faults \<Rightarrow> int \<Rightarrow> 'j hub_state \<Rightarrow> (error, event) result" where
  "event_at c io sequence s =
     bind_res (read_events_after c io (sequence - 1) s) (\<lambda>es.
     ok_or (find (\<lambda>e. e_sequence e = sequence) es) (ErrMsg ''accepted command event is missing''))"

definition event_from_effect ::
  "'j codec \<Rightarrow> faults \<Rightarrow> (protocol_error option \<Rightarrow> string) \<Rightarrow> command_effect \<Rightarrow> 'j hub_state
   \<Rightarrow> (error, event) result \<times> 'j hub_state" where
  "event_from_effect c io dbg eff s =
     (case route_effect dbg eff s of (r, s') \<Rightarrow> (bind_res r (\<lambda>sequence. event_at c io sequence s'), s'))"

definition event_from_effect_without_routing ::
  "'j codec \<Rightarrow> faults \<Rightarrow> (protocol_error option \<Rightarrow> string) \<Rightarrow> command_effect \<Rightarrow> 'j hub_state
   \<Rightarrow> (error, event) result" where
  "event_from_effect_without_routing c io dbg eff s =
     bind_res (receipt_sequence dbg (x_receipt eff)) (\<lambda>sequence. event_at c io sequence s)"

text \<open>One environment per command, the store calls between them, and the minted command ids.\<close>

record worker_env =
  w_create :: env
  w_start :: env
  w_prompt :: env
  w_io :: "nat \<Rightarrow> faults"
  w_clock :: time
  w_cid :: "nat \<Rightarrow> command_id"

definition register_worker_channel ::
  "'j codec \<Rightarrow> worker_env \<Rightarrow> string option \<Rightarrow> task_id \<Rightarrow> 'j hub_state \<Rightarrow> (error, unit) result \<times> 'j hub_state" where
  "register_worker_channel c w channel tid s =
     (case channel of
        None \<Rightarrow> (Inr (), s)
      | Some ch \<Rightarrow> with_hub (register_assistant_worker c (w_io w 2) (w_clock w) ch tid) s)"

definition start_and_prompt ::
  "'j codec \<Rightarrow> (protocol_error option \<Rightarrow> string) \<Rightarrow> worker_env \<Rightarrow> node_id \<Rightarrow> task_id \<Rightarrow> string \<Rightarrow> string
   \<Rightarrow> string option \<Rightarrow> string option \<Rightarrow> string option \<Rightarrow> 'j hub_state
   \<Rightarrow> (error, task_id \<times> run_id) result \<times> 'j hub_state" where
  "start_and_prompt c dbg w node tid prompt engine model reasoning_effort workspace_path s =
     (case apply_command_inner c (w_start w)
             (StartRun (w_cid w 1) tid (Some node) engine model reasoning_effort None Supervised
                workspace_path) (Some node) s of
        (started, s1) \<Rightarrow>
          (case event_from_effect_without_routing c (w_io w 3) dbg started s1 of
             Inl e \<Rightarrow> (Inl e, s1)
           | Inr ev \<Rightarrow>
               (case e_run_id ev of
                  None \<Rightarrow> (Inl (ErrMsg ''hub did not assign a worker run''), s1)
                | Some rid \<Rightarrow>
                    (case route_effect dbg started s1 of
                       (Inl e, s2) \<Rightarrow> (Inl e, s2)
                     | (Inr _, s2) \<Rightarrow>
                         (case apply_command_inner c (w_prompt w)
                                 (SendUserMessage (w_cid w 2) tid (Some rid) prompt
                                    (command_id_str c (w_cid w 3))) None s2 of
                            (prompted, s3) \<Rightarrow>
                              (case route_effect dbg prompted s3 of
                                 (Inl e, s4) \<Rightarrow> (Inl e, s4)
                               | (Inr _, s4) \<Rightarrow> (Inr (tid, rid), s4)))))))"

definition create_worker_task ::
  "'j codec \<Rightarrow> (protocol_error option \<Rightarrow> string) \<Rightarrow> worker_env \<Rightarrow> string \<Rightarrow> string \<Rightarrow> string option
   \<Rightarrow> node_id option \<Rightarrow> string \<Rightarrow> string option \<Rightarrow> string option \<Rightarrow> string option \<Rightarrow> 'j hub_state
   \<Rightarrow> (error, task_id \<times> run_id) result \<times> 'j hub_state" where
  "create_worker_task c dbg w title prompt channel preferred engine model reasoning_effort workspace_path s =
     (case validate_run_configuration engine model reasoning_effort None workspace_path of
        Inl message \<Rightarrow> (Inl (ErrMsg message), s)
      | Inr _ \<Rightarrow>
          (case eligible_execution_node c (w_io w 0) engine preferred s of
             Inl e \<Rightarrow> (Inl (ErrMsg (protocol_error_display c e)), s)
           | Inr node \<Rightarrow>
               (case apply_command_inner c (w_create w) (CreateTask (w_cid w 0) title) None s of
                  (created, s1) \<Rightarrow>
                    (case event_from_effect c (w_io w 1) dbg created s1 of
                       (Inl e, s2) \<Rightarrow> (Inl e, s2)
                     | (Inr ev, s2) \<Rightarrow>
                         (case register_worker_channel c w channel (e_task_id ev) s2 of
                            (Inl e, s3) \<Rightarrow> (Inl e, s3)
                          | (Inr _, s3) \<Rightarrow>
                              start_and_prompt c dbg w node (e_task_id ev) prompt engine model
                                reasoning_effort workspace_path s3)))))"

subsection \<open>Nodes come and go\<close>

definition on_node_connected :: "'j codec \<Rightarrow> env \<Rightarrow> node_hello \<Rightarrow> 'j hub_state \<Rightarrow> 'j hub_state" where
  "on_node_connected c v hello s =
     (let node = \<lparr>n_id = h_node_id hello, n_label = node_str (h_node_id hello), n_status = Connected,
            n_software_version = h_software_version hello, n_capabilities = h_capabilities hello,
            n_last_seen_sequence = h_resume_after_sequence hello\<rparr>;
          s1 = snd (with_hub (upsert_node c (v_io v 0) node) s);
          draft = with_payload (event_draft_new (v_clock v 1) NodeConnected system_task (h_node_id hello))
            (JObject [(''software_version'', JString (h_software_version hello)),
                      (''capabilities'', h_capabilities hello)])
      in snd (append_and_broadcast_node_event c (v_io v 2) (v_clock v 2) (v_event v) draft s1))"

definition mark_disconnected ::
  "'j codec \<Rightarrow> faults \<Rightarrow> faults \<Rightarrow> node_id \<Rightarrow> 'j hub \<Rightarrow> (error, unit) result \<times> 'j hub" where
  "mark_disconnected c io0 io1 node h =
     (case get_node c io0 node h of
        Inl e \<Rightarrow> (Inl e, h)
      | Inr None \<Rightarrow> (Inr (), h)
      | Inr (Some n) \<Rightarrow> upsert_node c io1 (n\<lparr>n_status := Disconnected\<rparr>) h)"

definition on_node_disconnected :: "'j codec \<Rightarrow> env \<Rightarrow> node_id \<Rightarrow> 'j hub_state \<Rightarrow> 'j hub_state" where
  "on_node_disconnected c v node s =
     (let s1 = snd (with_hub (mark_disconnected c (v_io v 0) (v_io v 1) node) s);
          draft = event_draft_new (v_clock v 1) NodeDisconnected system_task node
      in snd (append_and_broadcast_node_event c (v_io v 2) (v_clock v 2) (v_event v) draft s1))"

end
