(* ===== verification/Hub_Inv.thy ===== *)
theory Hub_Inv
  imports Hub_Workers "HOL-Library.Sublist"
begin

text \<open>
  Every method of \<open>HubState\<close>, seen from outside, is a run of store operations; and as long as
  the read after an append succeeds, the live bus receives exactly the events that the log
  gains, in the same order. The relation \<open>hs_rel\<close> carries both facts and composes.
\<close>

subsection \<open>The relation\<close>

definition live_step :: "'j codec \<Rightarrow> 'j hub_state \<Rightarrow> 'j hub_state \<Rightarrow> bool" where
  "live_step c s s' \<longleftrightarrow>
     (\<exists>es. event_log c (hs_hub s') = event_log c (hs_hub s) @ es \<and> hs_events s' = hs_events s @ es)"

text \<open>Whatever fails, the bus carries a subsequence of what the log gains.\<close>

definition bus_step :: "'j codec \<Rightarrow> 'j hub_state \<Rightarrow> 'j hub_state \<Rightarrow> bool" where
  "bus_step c s s' \<longleftrightarrow>
     (\<exists>new es. event_log c (hs_hub s') = event_log c (hs_hub s) @ new \<and> hs_events s' = hs_events s @ es \<and>
       subseq es new)"

lemma live_bus_step: "live_step c s s' \<Longrightarrow> bus_step c s s'"
  by (auto simp: live_step_def bus_step_def)

lemma bus_step_trans: "bus_step c s s' \<Longrightarrow> bus_step c s' s'' \<Longrightarrow> bus_step c s s''"
  unfolding bus_step_def by (metis append.assoc list_emb_append_mono)

text \<open>\<open>P\<close> says which failures may occur.\<close>

definition reads_succeed :: "(faults \<Rightarrow> bool) \<Rightarrow> bool" where
  "reads_succeed P \<longleftrightarrow> (\<forall>io. P io \<longrightarrow> io S_SelectEvents = None)"

text \<open>Every cached binding is the binding of a stored run.\<close>

definition routing_ok :: "'j codec \<Rightarrow> 'j hub_state \<Rightarrow> bool" where
  "routing_ok c s \<longleftrightarrow>
     (\<forall>rid node tid. routing_run s rid = Some (node, tid) \<longrightarrow> run_bound c rid node tid (hs_hub s))"

definition hs_rel :: "'j codec \<Rightarrow> (faults \<Rightarrow> bool) \<Rightarrow> 'j hub_state \<Rightarrow> 'j hub_state \<Rightarrow> bool" where
  "hs_rel c P s s' \<longleftrightarrow>
     (hub_step c)\<^sup>*\<^sup>* (hs_hub s) (hs_hub s') \<and>
     (durable_inv c (hs_hub s) \<and> reads_succeed P \<longrightarrow> live_step c s s') \<and>
     (durable_inv c (hs_hub s) \<longrightarrow> bus_step c s s') \<and>
     (codec_ok c \<and> routing_ok c s \<longrightarrow> routing_ok c s') \<and>
     node_secret s' = node_secret s \<and> client_secret s' = client_secret s"

lemma routing_ok_steps:
  "routing_ok c s \<Longrightarrow> (hub_step c)\<^sup>*\<^sup>* (hs_hub s) (hs_hub s') \<Longrightarrow> routing_run s' = routing_run s \<Longrightarrow>
     routing_ok c s'"
  by (auto simp: routing_ok_def intro: hub_steps_bound)

lemma live_step_trans: "live_step c s s' \<Longrightarrow> live_step c s' s'' \<Longrightarrow> live_step c s s''"
  by (auto simp: live_step_def)

lemma hs_rel_trans:
  assumes "hs_rel c P s s'" and "hs_rel c P s' s''"
  shows "hs_rel c P s s''"
proof -
  have "durable_inv c (hs_hub s) \<Longrightarrow> durable_inv c (hs_hub s')"
    using assms(1) command_log.steps_inv by (auto simp: hs_rel_def)
  then show ?thesis
    using assms by (auto simp: hs_rel_def intro: rtranclp_trans live_step_trans bus_step_trans)
qed

lemma hs_rel_quiet:
  "hs_hub s' = hs_hub s \<Longrightarrow> hs_events s' = hs_events s \<Longrightarrow> node_secret s' = node_secret s \<Longrightarrow>
     client_secret s' = client_secret s \<Longrightarrow> routing_run s' = routing_run s \<Longrightarrow> hs_rel c P s s'"
  by (simp add: hs_rel_def live_step_def bus_step_def routing_ok_def)

lemma hs_rel_refl [simp]: "hs_rel c P s s"
  by (rule hs_rel_quiet) simp_all

lemma hs_rel_with_hub:
  assumes "with_hub f s = (r, s')" and "\<And>r h. f (hs_hub s) = (r, h) \<Longrightarrow> hub_step c (hs_hub s) h"
    and "\<And>r h. f (hs_hub s) = (r, h) \<Longrightarrow> same_log (hs_hub s) h"
  shows "hs_rel c P s s'"
proof -
  obtain h where h: "f (hs_hub s) = (r, h)" "s' = s\<lparr>hs_hub := h\<rparr>"
    using assms(1) by (auto simp: with_hub_def split: prod.splits)
  then show ?thesis
    using assms(2,3) [OF h(1)] same_log_event_log [of "hs_hub s" h c]
    by (auto simp: hs_rel_def live_step_def bus_step_def elim!: routing_ok_steps)
qed

subsection \<open>Append and broadcast\<close>

lemma fetch_event_last:
  assumes "log_inv c h" and "event_log c h = es @ [e]" and "io S_SelectEvents = None"
  shows "fetch_event c io h (int (length es) + 1) = Inr (Some e)"
proof -
  have "numbered e_sequence (es @ [e])"
    using event_log_numbered [OF assms(1)] assms(2) by simp
  then have "e_sequence e = int (length es) + 1" by simp
  then show ?thesis
    using events_after_log [OF assms(1), of "int (length es)" io] assms(2,3)
    by (simp add: fetch_event_def)
qed

lemma broadcast_new_rel:
  assumes call: "f (hs_hub s) = (r, h)" and step: "hub_step c (hs_hub s) h"
    and new: "\<And>out. durable_inv c (hs_hub s) \<Longrightarrow> r = Inr out \<Longrightarrow> o_created out \<Longrightarrow>
      o_sequence out = int (length (event_log c (hs_hub s))) + 1 \<and>
      (\<exists>e. event_log c h = event_log c (hs_hub s) @ [e])"
    and old: "\<And>out. r = Inr out \<Longrightarrow> \<not> o_created out \<Longrightarrow> h = hs_hub s"
    and err: "\<And>e. r = Inl e \<Longrightarrow> h = hs_hub s"
    and P: "P io" and res: "broadcast_new c io (with_hub f s) = (r', s')"
  shows "hs_rel c P s s'"
proof -
  have wh: "with_hub f s = (r, s\<lparr>hs_hub := h\<rparr>)" using call by (simp add: with_hub_def)
  have hub': "hs_hub s' = h" and sec: "node_secret s' = node_secret s" "client_secret s' = client_secret s"
      "routing_run s' = routing_run s"
    using res unfolding wh broadcast_new_def
    by (auto split: sum.splits if_splits option.splits)
  have same: "live_step c s s'" if "\<not> (\<exists>out. r = Inr out \<and> o_created out)"
  proof -
    have "h = hs_hub s" using that old err by (cases r) auto
    moreover have "hs_events s' = hs_events s"
      using res that unfolding wh broadcast_new_def by (auto split: sum.splits)
    ultimately show ?thesis using hub' by (simp add: live_step_def)
  qed
  have new_event: "if io S_SelectEvents = None then live_step c s s' else bus_step c s s'"
    if inv: "durable_inv c (hs_hub s)" and out: "r = Inr out" "o_created out" for out
  proof -
    obtain e where e: "o_sequence out = int (length (event_log c (hs_hub s))) + 1"
        "event_log c h = event_log c (hs_hub s) @ [e]"
      using new [OF inv out] by blast
    have "log_inv c h" using command_log.step_inv [OF inv step] by (simp add: durable_inv_def)
    then have "io S_SelectEvents = None \<Longrightarrow> fetch_event c io h (o_sequence out) = Inr (Some e)"
      using fetch_event_last [OF _ e(2)] e(1) by simp
    moreover have "\<exists>err. fetch_event c io h (o_sequence out) = Inl err" if "io S_SelectEvents \<noteq> None"
      using that by (auto simp: fetch_event_def events_after_def exec_def)
    ultimately show ?thesis
      using res out e(2) unfolding wh broadcast_new_def
      by (cases "io S_SelectEvents") (auto simp: live_step_def bus_step_def)
  qed
  have "live_step c s s'" if inv: "durable_inv c (hs_hub s)" and ok: "reads_succeed P"
    using new_event [OF inv] same ok P by (auto simp: reads_succeed_def)
  moreover have "bus_step c s s'" if inv: "durable_inv c (hs_hub s)"
    using new_event [OF inv] same live_bus_step by (metis)
  ultimately have "(durable_inv c (hs_hub s) \<and> reads_succeed P \<longrightarrow> live_step c s s')"
    and "(durable_inv c (hs_hub s) \<longrightarrow> bus_step c s s')" by blast+
  then show ?thesis using step hub' sec by (auto simp: hs_rel_def elim!: routing_ok_steps)
qed

lemma append_and_broadcast_command_rel:
  assumes "append_and_broadcast_command c io now fresh cid d entity dp s = (r, s')"
    and "draft_ok d" and "time_ok now" and "dispatch_ok dp" and "P io"
  shows "hs_rel c P s s'"
proof -
  let ?f = "append_command_bundle c io now fresh cid d entity dp"
  obtain r0 h where call: "?f (hs_hub s) = (r0, h)" by (cases "?f (hs_hub s)")
  show ?thesis
  proof (rule broadcast_new_rel [where f = ?f and s = s and io = io])
    show "?f (hs_hub s) = (r0, h)" by (rule call)
    show "P io" by fact
    show "hub_step c (hs_hub s) h" using assms(2-4) call by (rule hub_step.step_command)
    show "h = hs_hub s" if "r0 = Inl e" for e
      using call that by (auto dest: append_command_error)
    show "h = hs_hub s" if "r0 = Inr out" "\<not> o_created out" for out
      using call [unfolded that(1)] that(2) by (cases rule: append_command_cases) auto
    show "o_sequence out = int (length (event_log c (hs_hub s))) + 1 \<and>
        (\<exists>e. event_log c h = event_log c (hs_hub s) @ [e])"
      if "durable_inv c (hs_hub s)" "r0 = Inr out" "o_created out" for out
    proof -
      have "stored_command c cid (hs_hub s) = None"
        using call that command_log.append_stored [of c "hs_hub s" cid _ "(io, now, fresh, d, entity, dp)"]
        by (cases "stored_command c cid (hs_hub s)") fastforce+
      then show ?thesis
        using command_log.append_fresh [OF that(1), of "(io, now, fresh, d, entity, dp)" cid out h]
          call that assms(2-4) by auto
    qed
    show "broadcast_new c io (with_hub ?f s) = (r, s')"
      using assms(1) by (simp add: append_and_broadcast_command_def)
  qed
qed

lemma append_and_broadcast_node_event_rel:
  assumes "append_and_broadcast_node_event c io now eid d s = (r, s')"
    and "draft_ok d" and "time_ok now" and "P io"
  shows "hs_rel c P s s'"
proof -
  let ?f = "append_node_event c io now eid d"
  obtain r0 h where call: "?f (hs_hub s) = (r0, h)" by (cases "?f (hs_hub s)")
  show ?thesis
  proof (rule broadcast_new_rel [where f = ?f and s = s and io = io])
    show "?f (hs_hub s) = (r0, h)" by (rule call)
    show "P io" by fact
    show "hub_step c (hs_hub s) h" using assms(2,3) call by (rule hub_step.step_node_event)
    show "h = hs_hub s" if "r0 = Inl e" for e
      using call that by (auto dest: append_node_event_error)
    show "h = hs_hub s" if "r0 = Inr out" "\<not> o_created out" for out
      using call [unfolded that(1)] that(2) by (cases rule: append_node_event_cases) auto
    show "o_sequence out = int (length (event_log c (hs_hub s))) + 1 \<and>
        (\<exists>e. event_log c h = event_log c (hs_hub s) @ [e])"
      if "durable_inv c (hs_hub s)" "r0 = Inr out" "o_created out" for out
    proof -
      have "stored_event c eid (hs_hub s) = None"
        using call that node_log.append_stored [of c "hs_hub s" eid _ "(io, now, d)"]
        by (cases "stored_event c eid (hs_hub s)") fastforce+
      then show ?thesis
        using node_log.append_fresh [OF that(1), of "(io, now, d)" eid out h] call that assms(2,3)
        by auto
    qed
    show "broadcast_new c io (with_hub ?f s) = (r, s')"
      using assms(1) by (simp add: append_and_broadcast_node_event_def)
  qed
qed

subsection \<open>Quiet methods\<close>

lemma route_to_node_rel: "route_to_node node msg s = (b, s') \<Longrightarrow> hs_rel c P s s'"
  by (auto simp: route_to_node_def chan_send_def intro!: hs_rel_quiet split: option.splits)

lemma route_dispatch_rel: "hs_rel c P s (route_dispatch eff s)"
  by (auto simp: route_dispatch_def intro!: route_to_node_rel split: option.splits
      simp: prod_eq_iff)

lemma remember_run_rel:
  assumes "codec_ok c \<Longrightarrow> routing_ok c s \<Longrightarrow> run_bound c rid node tid (hs_hub s)"
  shows "hs_rel c P s (remember_run rid node tid s)"
  using assms by (auto simp: hs_rel_def live_step_def bus_step_def remember_run_def routing_ok_def)

lemma run_binding_checked_rel:
  assumes "run_binding_checked c io rid s = (b, s')"
  shows "hs_rel c P s s'"
proof -
  have "hs_rel c P s (remember_run (r_id run) (r_node_id run) (r_task_id run) s)"
    if "get_run c io rid (hs_hub s) = Inr (Some run)" for run
    using get_run_bound [OF that] by (intro remember_run_rel) simp
  then show ?thesis
    using assms by (auto simp: run_binding_checked_def split: option.splits sum.splits)
qed

lemma run_binding_rel: "run_binding c io rid s = (b, s') \<Longrightarrow> hs_rel c P s s'"
  by (auto simp: run_binding_def split: prod.splits sum.splits dest: run_binding_checked_rel)

lemma node_for_run_rel: "node_for_run c io rid s = (b, s') \<Longrightarrow> hs_rel c P s s'"
  by (auto simp: node_for_run_def split: prod.splits dest: run_binding_rel)

lemma accepts_node_event_rel: "accepts_node_event c io node d s = (b, s') \<Longrightarrow> hs_rel c P s s'"
  by (auto simp: accepts_node_event_def split: if_splits option.splits prod.splits sum.splits
      dest: run_binding_checked_rel)

subsection \<open>Commands\<close>

definition env_ok :: "(faults \<Rightarrow> bool) \<Rightarrow> env \<Rightarrow> bool" where
  "env_ok P v \<longleftrightarrow> (\<forall>i. time_ok (v_clock v i)) \<and> (\<forall>i. P (v_io v i))"

lemma finish_with_entity_rel:
  assumes "finish_with_entity c v cid d dp entity s = (eff, s')"
    and "env_ok P v" and "draft_ok d" and "dispatch_ok dp"
  shows "hs_rel c P s s'"
proof -
  obtain r s1 where call: "append_and_broadcast_command c (v_io v 2) (v_clock v 2) (v_event v) cid d
      entity dp s = (r, s1)"
    by (cases "append_and_broadcast_command c (v_io v 2) (v_clock v 2) (v_event v) cid d entity dp s")
  then have "s' = s1"
    using assms(1) by (auto simp: finish_with_entity_def split: sum.splits)
  then show ?thesis
    using append_and_broadcast_command_rel [OF call assms(3) _ assms(4)] assms(2)
    by (simp add: env_ok_def)
qed

lemma draft_ok_simps [simp]:
  "draft_ok (d\<lparr>d_run_id := r\<rparr>) = draft_ok d"
  "draft_ok (d\<lparr>d_provider_session_id := p\<rparr>) = draft_ok d"
  "draft_ok (with_run d r') = draft_ok d"
  "draft_ok (with_payload d j) \<longleftrightarrow> time_ok (d_occurred_at d) \<and> json_ok j"
  "draft_ok (event_draft_new t k tid node) \<longleftrightarrow> time_ok t"
  "d_occurred_at (event_draft_new t k tid node) = t"
  "d_occurred_at (with_run d r') = d_occurred_at d"
  by (simp_all add: draft_ok_def with_run_def with_payload_def event_draft_new_def json_ok_def)

lemma json_of_opt_wf [simp]: "json_wf n (json_of_opt JString x)"
  by (cases x) (simp_all add: json_of_opt_def)

lemma run_payload_ok [simp]:
  "json_ok (JObject (run_payload e m r a w))"
  "json_ok (JObject (run_payload e m r a w @ [(''hub_local_assistant'', JBool True)]))"
  by (simp_all add: run_payload_def json_ok_def)

lemma apply_create_task_rel:
  "apply_create_task c v cid title s = (eff, s') \<Longrightarrow> env_ok P v \<Longrightarrow> hs_rel c P s s'"
  unfolding apply_create_task_def Let_def
  by (erule finish_with_entity_rel) (simp_all add: env_ok_def json_ok_def)

lemma apply_send_user_message_rel:
  assumes "apply_send_user_message c v cid tid rid txt cmid s = (eff, s')" and ok: "env_ok P v"
  shows "hs_rel c P s s'"
proof -
  obtain by_run s1 where first: "(case rid of None \<Rightarrow> (None, s) | Some r \<Rightarrow> node_for_run c (v_io v 1) r s)
      = (by_run, s1)"
    by fastforce
  have "hs_rel c P s s1"
    using first by (auto split: option.splits dest: node_for_run_rel)
  moreover have "hs_rel c P s1 s'"
    using assms(1) ok unfolding apply_send_user_message_def first prod.case Let_def finish_def
    by (auto split: if_splits option.splits elim!: finish_with_entity_rel
        simp: env_ok_def json_ok_def)
  ultimately show ?thesis by (rule hs_rel_trans)
qed

lemma broadcast_new_Inr:
  "broadcast_new c io (with_hub f s) = (Inr out, s') \<Longrightarrow> f (hs_hub s) = (Inr out, hs_hub s')"
  by (auto simp: broadcast_new_def with_hub_def split: prod.splits sum.splits if_splits option.splits)

lemma finish_created:
  assumes "finish_with_entity c v cid d dp entity s = (eff, s')" and "x_dispatch eff \<noteq> None"
  shows "\<exists>out. append_command_bundle c (v_io v 2) (v_clock v 2) (v_event v) cid d entity dp (hs_hub s)
      = (Inr out, hs_hub s') \<and> o_created out \<and> dp = x_dispatch eff"
  using assms
  by (auto simp: finish_with_entity_def append_and_broadcast_command_def
      split: prod.splits sum.splits if_splits dest: broadcast_new_Inr)

lemma finish_run_bound:
  assumes "finish_with_entity c v cid d dp (EntityRun run) s = (eff, s')" and "x_dispatch eff \<noteq> None"
    and "codec_ok c"
  shows "run_bound c (r_id run) (r_node_id run) (r_task_id run) (hs_hub s')"
proof -
  obtain out where "append_command_bundle c (v_io v 2) (v_clock v 2) (v_event v) cid d (EntityRun run) dp
      (hs_hub s) = (Inr out, hs_hub s')" and "o_created out"
    using finish_created [OF assms(1,2)] by blast
  then have "run_row_of c run \<in> set (runs (hs_hub s'))"
    using created_bundle_stored by (fastforce simp: bundle_stored_def)
  then show ?thesis
    using id_round_trips(1) [OF assms(3)] unfolding run_bound_def
    by (intro bexI [of _ "run_row_of c run"]) (simp_all add: run_row_of_def)
qed

lemma apply_start_run_rel:
  assumes "apply_start_run c v reserved cid tid target engine model effort prompt policy path s = (eff, s')"
    and ok: "env_ok P v"
  shows "hs_rel c P s s'"
proof (cases "validate_run_configuration engine model effort prompt path")
  case (Inl m)
  then show ?thesis using assms(1) by (simp add: apply_start_run_def)
next
  case (Inr u)
  let ?pick = "case reserved of Some n \<Rightarrow> Inr n
    | None \<Rightarrow> eligible_execution_node c (v_io v 1) engine target s"
  show ?thesis
  proof (cases ?pick)
    case (Inl e)
    then show ?thesis using assms(1) Inr by (simp add: apply_start_run_def)
  next
    case node: (Inr node)
    let ?run = "\<lparr>r_id = v_run v, r_task_id = tid, r_node_id = node, r_engine = engine,
        r_model = model, r_reasoning_effort = effort, r_system_prompt = prompt, r_access_policy = policy,
        r_workspace_path = path, r_status = Started, r_started_at = v_clock v 0\<rparr>"
    let ?dp = "Some (node, DispatchCommand cid None
        (WorkStartRun (v_run v) tid engine model effort prompt policy path))"
    let ?d = "with_payload (with_run (event_draft_new (v_clock v 1) RunStarted tid node) (v_run v))
        (JObject (run_payload engine model effort policy path))"
    obtain s1 where fin: "finish_with_entity c v cid ?d ?dp (EntityRun ?run) s = (eff, s1)"
        and s': "s' = (if x_dispatch eff \<noteq> None then remember_run (v_run v) node tid s1 else s1)"
      using assms(1) Inr node by (auto simp: apply_start_run_def Let_def split: prod.splits)
    have "hs_rel c P s s1" by (rule finish_with_entity_rel [OF fin ok]) (use ok in \<open>simp_all add: env_ok_def\<close>)
    moreover have "hs_rel c P s1 s'"
      using finish_run_bound [OF fin] by (auto simp: s' intro!: remember_run_rel)
    ultimately show ?thesis by (rule hs_rel_trans)
  qed
qed

lemma apply_interrupt_run_rel:
  assumes "apply_interrupt_run c v cid rid s = (eff, s')" and ok: "env_ok P v"
  shows "hs_rel c P s s'"
proof -
  obtain b s1 where first: "run_binding c (v_io v 1) rid s = (b, s1)" by fastforce
  have "hs_rel c P s1 s'"
    using assms(1) ok unfolding apply_interrupt_run_def first prod.case Let_def finish_def
    by (cases b) (auto split: if_splits elim!: finish_with_entity_rel simp: env_ok_def)
  then show ?thesis using run_binding_rel [OF first] by (rule hs_rel_trans [rotated])
qed

lemma apply_resolve_approval_rel:
  assumes "apply_resolve_approval c v cid aid decision actor s = (eff, s')" and ok: "env_ok P v"
  shows "hs_rel c P s s'"
proof -
  let ?f = "resolve_approval c (v_io v 1) aid decision actor (v_clock v 0)"
  obtain r s1 where first: "with_hub ?f s = (r, s1)" by fastforce
  have "hs_rel c P s s1"
    by (rule hs_rel_with_hub [OF first]) (auto intro: hub_step.step_resolve resolve_same_log)
  moreover have "hs_rel c P s1 s'"
    using assms(1) ok unfolding apply_resolve_approval_def first prod.case Let_def finish_def
    by (auto split: sum.splits elim!: finish_with_entity_rel simp: env_ok_def json_ok_def)
  ultimately show ?thesis by (rule hs_rel_trans)
qed

lemmas branch_rels = apply_create_task_rel apply_send_user_message_rel apply_start_run_rel
  apply_interrupt_run_rel apply_resolve_approval_rel

lemma apply_branch_rel:
  "apply_branch c v reserved cmd s = (eff, s') \<Longrightarrow> env_ok P v \<Longrightarrow> hs_rel c P s s'"
  by (cases cmd) (auto dest: branch_rels)

lemma apply_command_inner_rel:
  "apply_command_inner c v cmd reserved s = (eff, s') \<Longrightarrow> env_ok P v \<Longrightarrow> hs_rel c P s s'"
  by (auto simp: apply_command_inner_def split: sum.splits option.splits dest: apply_branch_rel)

lemma submit_command_rel:
  assumes "submit_command c v cmd s = (r, s')" and "env_ok P v"
  shows "hs_rel c P s s'"
proof -
  obtain eff s1 where "apply_command_inner c v cmd None s = (eff, s1)" and "s' = route_dispatch eff s1"
    using assms(1) by (auto simp: submit_command_def apply_command_def split: prod.splits)
  then show ?thesis
    using apply_command_inner_rel [OF _ assms(2)] route_dispatch_rel hs_rel_trans by blast
qed

end
