(* ===== verification/Hub_Steps.thy ===== *)
theory Hub_Steps
  imports Hub_Inv
begin

text \<open>
  Runs of the hub process: every state-changing method of \<open>HubState\<close> as a step, by any
  caller, in any order, with any environment. Each step keeps \<open>hs_rel\<close>, so the properties of
  the store hold of every reachable hub, and the live bus follows the log.
\<close>

subsection \<open>The remaining methods\<close>

lemma start_hub_assistant_run_rel:
  assumes "start_hub_assistant_run c v cid tid engine model effort prompt path s = (r, s')"
    and "env_ok P v"
  shows "hs_rel c P s s'"
  using assms
  by (auto simp: start_hub_assistant_run_def Let_def env_ok_def split: sum.splits prod.splits
      elim!: append_and_broadcast_command_rel)

lemma append_hub_assistant_message_rel:
  assumes "append_hub_assistant_message c v mid cid tid rid txt s = (r, s')" and "env_ok P v"
  shows "hs_rel c P s s'"
  using assms
  by (auto simp: append_hub_assistant_message_def Let_def env_ok_def json_ok_def
      split: sum.splits prod.splits elim!: append_and_broadcast_command_rel)

lemma append_hub_assistant_event_rel:
  assumes "append_hub_assistant_event c v kind tid rid sid payload s = (r, s')" and "env_ok P v"
    and "json_ok payload"
  shows "hs_rel c P s s'"
  using assms
  by (auto simp: append_hub_assistant_event_def Let_def env_ok_def
      split: sum.splits prod.splits if_splits elim!: append_and_broadcast_node_event_rel)

lemma track_assistant_worker_rel:
  assumes "track_assistant_worker c io0 io1 now channel tid rid s = (r, s')"
  shows "hs_rel c P s s'"
proof -
  obtain b s1 where first: "run_binding c io0 rid s = (b, s1)" by fastforce
  have reg: "hs_rel c P s1 s2" if "with_hub (register_assistant_worker c io1 now channel tid) s1 = (r2, s2)"
    for r2 s2
    by (rule hs_rel_with_hub [OF that]) (auto intro: hub_step.step_register setting_ops_same_log)
  have "hs_rel c P s1 s'"
    using assms unfolding track_assistant_worker_def first prod.case
    by (auto split: option.splits if_splits dest: reg)
  then show ?thesis using run_binding_rel [OF first] by (rule hs_rel_trans [rotated])
qed

lemma register_worker_channel_rel:
  assumes "register_worker_channel c w channel tid s = (r, s')"
  shows "hs_rel c P s s'"
proof (cases channel)
  case None
  then show ?thesis using assms by (simp add: register_worker_channel_def)
next
  case (Some ch)
  have "with_hub (register_assistant_worker c (w_io w 2) (w_clock w) ch tid) s = (r, s')"
    using assms Some by (simp add: register_worker_channel_def)
  then show ?thesis
    by (rule hs_rel_with_hub) (auto intro: hub_step.step_register setting_ops_same_log)
qed

lemma route_effect_rel: "route_effect dbg eff s = (r, s') \<Longrightarrow> hs_rel c P s s'"
  by (auto simp: route_effect_def route_dispatch_rel)

definition worker_env_ok :: "(faults \<Rightarrow> bool) \<Rightarrow> worker_env \<Rightarrow> bool" where
  "worker_env_ok P w \<longleftrightarrow> env_ok P (w_create w) \<and> env_ok P (w_start w) \<and> env_ok P (w_prompt w)"

lemma start_and_prompt_rel:
  assumes "start_and_prompt c dbg w node tid prompt engine model effort path s = (r, s')"
    and ok: "worker_env_ok P w"
  shows "hs_rel c P s s'"
proof -
  obtain started s1 where a: "apply_command_inner c (w_start w)
      (StartRun (w_cid w 1) tid (Some node) engine model effort None Supervised path) (Some node) s
      = (started, s1)" by fastforce
  obtain r2 s2 where b: "route_effect dbg started s1 = (r2, s2)" by fastforce
  have rel: "hs_rel c P s s1" "hs_rel c P s1 s2"
    using apply_command_inner_rel [OF a] route_effect_rel [OF b] ok by (auto simp: worker_env_ok_def)
  have prompted: "hs_rel c P s2 s4"
    if "apply_command_inner c (w_prompt w) cmd None s2 = (prompted, s3)"
      "route_effect dbg prompted s3 = (r4, s4)" for cmd prompted s3 r4 s4
    by (rule hs_rel_trans [OF apply_command_inner_rel [OF that(1)] route_effect_rel [OF that(2)]])
      (use ok in \<open>simp add: worker_env_ok_def\<close>)
  have "s' = s1 \<or> s' = s2 \<or> hs_rel c P s2 s'"
    using assms(1) unfolding start_and_prompt_def a b prod.case
    by (auto split: sum.splits option.splits prod.splits dest: prompted)
  then show ?thesis using rel hs_rel_trans by blast
qed

lemma create_worker_task_rel:
  assumes "create_worker_task c dbg w title prompt channel preferred engine model effort path s = (r, s')"
    and ok: "worker_env_ok P w"
  shows "hs_rel c P s s'"
proof -
  obtain created s1 where a: "apply_command_inner c (w_create w) (CreateTask (w_cid w 0) title) None s
      = (created, s1)" by fastforce
  obtain r2 s2 where b: "event_from_effect c (w_io w 1) dbg created s1 = (r2, s2)" by fastforce
  have rel: "hs_rel c P s s1" using apply_command_inner_rel [OF a] ok by (simp add: worker_env_ok_def)
  have rel2: "hs_rel c P s1 s2"
    using b by (auto simp: event_from_effect_def split: prod.splits dest: route_effect_rel)
  have rest: "hs_rel c P s2 s4"
    if "register_worker_channel c w channel tid s2 = (Inr u, s3)"
      "start_and_prompt c dbg w node tid prompt engine model effort path s3 = (r4, s4)"
    for tid u s3 node r4 s4
    using register_worker_channel_rel [OF that(1)] start_and_prompt_rel [OF that(2) ok] hs_rel_trans
    by blast
  have "s' = s \<or> s' = s2 \<or> hs_rel c P s2 s'"
    using assms(1) unfolding create_worker_task_def a b prod.case
    by (auto split: sum.splits prod.splits dest: rest register_worker_channel_rel)
  then show ?thesis using rel rel2 hs_rel_trans hs_rel_refl by blast
qed

lemma hub_ack_rel: "hs_rel c P s (hub_acknowledge_dispatch_from c io now node cid s)"
proof -
  obtain r s' where call: "with_hub (acknowledge_dispatch_from c io now cid node) s = (r, s')" by fastforce
  have "hs_rel c P s s'"
    by (rule hs_rel_with_hub [OF call])
      (auto simp: acknowledge_dispatch_from_def intro: hub_step.step_ack_from ack_where_same_log)
  then show ?thesis using call by (simp add: hub_acknowledge_dispatch_from_def)
qed

lemma register_rel: "register_node node s = (conn, s') \<Longrightarrow> hs_rel c P s s'"
  by (rule hs_rel_quiet) (auto simp: register_node_def Let_def)

lemma unregister_rel: "unregister_node node conn s = (b, s') \<Longrightarrow> hs_rel c P s s'"
  by (rule hs_rel_quiet) (auto simp: unregister_node_def Let_def split: if_splits)

lemma replay_pending_rel: "hs_rel c P s (replay_pending c' io node s)"
proof -
  have "hs_rel c P s (fold (\<lambda>item s. snd (route_to_node node (p_message item) s)) ps s)" for ps s
  proof (induction ps arbitrary: s)
    case (Cons p ps)
    have "hs_rel c P s (snd (route_to_node node (p_message p) s))"
      by (rule route_to_node_rel) (simp add: prod_eq_iff)
    then show ?case using Cons.IH hs_rel_trans by fastforce
  qed simp
  then show ?thesis by (simp add: replay_pending_def Let_def)
qed

lemma send_updates_rel: "send_updates t fresh version i ns s = (n, s') \<Longrightarrow> hs_rel c P s s'"
proof (induction ns arbitrary: i n s s')
  case (Cons p ns)
  obtain node conn where p: "p = (node, conn)" by fastforce
  obtain sent s1 where send: "chan_send conn (DispatchCommand (fresh i) (Some t) (WorkUpdate version)) s
      = (sent, s1)" by fastforce
  obtain n2 s2 where rest: "send_updates t fresh version (Suc i) ns s1 = (n2, s2)" by fastforce
  have "hs_rel c P s s1"
    using send by (auto simp: chan_send_def intro!: hs_rel_quiet split: option.splits)
  moreover have "s' = s2" using Cons.prems by (simp add: p send rest)
  ultimately show ?case using Cons.IH [OF rest] hs_rel_trans by blast
qed simp

lemma on_node_connected_rel:
  assumes "env_ok P v" and "json_wf 126 (h_capabilities hello)"
  shows "hs_rel c P s (on_node_connected c v hello s)"
proof -
  let ?node = "\<lparr>n_id = h_node_id hello, n_label = node_str (h_node_id hello), n_status = Connected,
      n_software_version = h_software_version hello, n_capabilities = h_capabilities hello,
      n_last_seen_sequence = h_resume_after_sequence hello\<rparr>"
  let ?draft = "with_payload (event_draft_new (v_clock v 1) NodeConnected system_task (h_node_id hello))
      (JObject [(''software_version'', JString (h_software_version hello)),
                (''capabilities'', h_capabilities hello)])"
  obtain r s1 where a: "with_hub (upsert_node c (v_io v 0) ?node) s = (r, s1)" by fastforce
  obtain r2 s2 where b: "append_and_broadcast_node_event c (v_io v 2) (v_clock v 2) (v_event v) ?draft s1
      = (r2, s2)" by fastforce
  have "hs_rel c P s s1"
    by (rule hs_rel_with_hub [OF a]) (auto intro: hub_step.step_upsert_node setting_ops_same_log)
  moreover have "hs_rel c P s1 s2"
    by (rule append_and_broadcast_node_event_rel [OF b]) (use assms in \<open>simp_all add: env_ok_def json_ok_def\<close>)
  ultimately have "hs_rel c P s s2" by (rule hs_rel_trans)
  then show ?thesis unfolding on_node_connected_def Let_def a snd_conv b .
qed

lemma mark_disconnected_cases:
  assumes "mark_disconnected c io0 io1 node h = (r, h')"
  shows "h' = h \<or> (\<exists>n r. upsert_node c io1 n h = (r, h'))"
  using assms by (auto simp: mark_disconnected_def split: sum.splits option.splits)

lemma on_node_disconnected_rel:
  assumes "env_ok P v"
  shows "hs_rel c P s (on_node_disconnected c v node s)"
proof -
  let ?draft = "event_draft_new (v_clock v 1) NodeDisconnected system_task node"
  obtain r h where h: "mark_disconnected c (v_io v 0) (v_io v 1) node (hs_hub s) = (r, h)" by fastforce
  let ?s1 = "s\<lparr>hs_hub := h\<rparr>"
  obtain r2 s2 where b: "append_and_broadcast_node_event c (v_io v 2) (v_clock v 2) (v_event v) ?draft ?s1
      = (r2, s2)" by fastforce
  have "hs_rel c P s ?s1"
    using mark_disconnected_cases [OF h]
  proof
    assume "\<exists>n r. upsert_node c (v_io v 1) n (hs_hub s) = (r, h)"
    then obtain n r3 where up: "upsert_node c (v_io v 1) n (hs_hub s) = (r3, h)" by blast
    then have "with_hub (upsert_node c (v_io v 1) n) s = (r3, ?s1)" by (simp add: with_hub_def)
    then show ?thesis
      by (rule hs_rel_with_hub) (auto intro: hub_step.step_upsert_node setting_ops_same_log)
  qed simp
  moreover have "hs_rel c P ?s1 s2"
    by (rule append_and_broadcast_node_event_rel [OF b]) (use assms in \<open>simp_all add: env_ok_def\<close>)
  ultimately have "hs_rel c P s s2" by (rule hs_rel_trans)
  then show ?thesis unfolding on_node_disconnected_def with_hub_def h Let_def prod.case snd_conv b .
qed

subsection \<open>Steps of the process\<close>

inductive hs_step :: "'j codec \<Rightarrow> (faults \<Rightarrow> bool) \<Rightarrow> 'j hub_state \<Rightarrow> 'j hub_state \<Rightarrow> bool" for c P where
  hs_submit: "env_ok P v \<Longrightarrow> submit_command c v cmd s = (r0, s') \<Longrightarrow> hs_step c P s s'"
| hs_apply: "env_ok P v \<Longrightarrow> apply_command c v cmd s = (eff, s') \<Longrightarrow> hs_step c P s s'"
| hs_route: "route_to_node node msg s = (b, s') \<Longrightarrow> hs_step c P s s'"
| hs_worker: "worker_env_ok P w \<Longrightarrow>
     create_worker_task c dbg w title prompt channel preferred engine model effort path s = (r1, s') \<Longrightarrow>
     hs_step c P s s'"
| hs_assistant_run: "env_ok P v \<Longrightarrow>
     start_hub_assistant_run c v cid tid engine model effort sysprompt path s = (r2, s') \<Longrightarrow> hs_step c P s s'"
| hs_assistant_message: "env_ok P v \<Longrightarrow>
     append_hub_assistant_message c v mid cid tid rid txt s = (r3, s') \<Longrightarrow> hs_step c P s s'"
| hs_assistant_event: "env_ok P v \<Longrightarrow> json_ok payload \<Longrightarrow>
     append_hub_assistant_event c v kind tid rid sid payload s = (r3, s') \<Longrightarrow> hs_step c P s s'"
| hs_track: "track_assistant_worker c io0 io1 now ch tid rid s = (r3, s') \<Longrightarrow> hs_step c P s s'"
| hs_node_event: "draft_ok d \<Longrightarrow> time_ok now \<Longrightarrow> P io \<Longrightarrow>
     append_and_broadcast_node_event c io now eid d s = (r4, s') \<Longrightarrow> hs_step c P s s'"
| hs_accepts: "accepts_node_event c io node d s = (r5, s') \<Longrightarrow> hs_step c P s s'"
| hs_ack: "s' = hub_acknowledge_dispatch_from c io now node cid s \<Longrightarrow> hs_step c P s s'"
| hs_register: "register_node node s = (conn, s') \<Longrightarrow> hs_step c P s s'"
| hs_unregister: "unregister_node node conn s = (b, s') \<Longrightarrow> hs_step c P s s'"
| hs_connected: "env_ok P v \<Longrightarrow> json_wf 126 (h_capabilities hello) \<Longrightarrow>
     s' = on_node_connected c v hello s \<Longrightarrow> hs_step c P s s'"
| hs_disconnected: "env_ok P v \<Longrightarrow> s' = on_node_disconnected c v node s \<Longrightarrow> hs_step c P s s'"
| hs_replay: "s' = replay_pending c io node s \<Longrightarrow> hs_step c P s s'"
| hs_update: "dispatch_update_to_nodes now fresh version s = (n, s') \<Longrightarrow> hs_step c P s s'"
| hs_take: "channels s conn = Some (msg # q) \<Longrightarrow>
     s' = s\<lparr>channels := (channels s)(conn := Some q)\<rparr> \<Longrightarrow> hs_step c P s s'"
| hs_close: "s' = s\<lparr>channels := (channels s)(conn := None)\<rparr> \<Longrightarrow> hs_step c P s s'"
| hs_setting: "with_hub (put_setting c io now key value) s = (r3, s') \<Longrightarrow> hs_step c P s s'"
| hs_complete_wake: "with_hub (complete_assistant_wake c io now eid) s = (r5, s') \<Longrightarrow> hs_step c P s s'"
| hs_defer_wake: "with_hub (defer_assistant_wake c io now eid err) s = (r5, s') \<Longrightarrow> hs_step c P s s'"

lemma setting_rel: "with_hub (put_setting c io now key value) s = (r, s') \<Longrightarrow> hs_rel c P s s'"
  by (erule hs_rel_with_hub) (auto intro: hub_step.step_put_setting setting_ops_same_log)

lemma wake_rels:
  "with_hub (complete_assistant_wake c io now eid) s = (r, s') \<Longrightarrow> hs_rel c P s s'"
  "with_hub (defer_assistant_wake c io now eid err) s = (r, s') \<Longrightarrow> hs_rel c P s s'"
  by (erule hs_rel_with_hub, (auto intro: hub_step.step_complete_wake hub_step.step_defer_wake
      setting_ops_same_log defer_same_log))+

lemma hs_step_rel: "hs_step c P s s' \<Longrightarrow> hs_rel c P s s'"
proof (induction rule: hs_step.induct)
  case (hs_apply v cmd s eff s')
  then show ?case unfolding apply_command_def by (blast intro: apply_command_inner_rel)
next
  case (hs_update now fresh version s n s')
  then show ?case unfolding dispatch_update_to_nodes_def by (rule send_updates_rel)
next
  case (hs_take s conn msg q s')
  then show ?case by (intro hs_rel_quiet) simp_all
next
  case (hs_close s' s conn)
  then show ?case by (intro hs_rel_quiet) simp_all
next
  case hs_node_event
  then show ?case by (blast intro: append_and_broadcast_node_event_rel)
qed (blast intro: submit_command_rel route_to_node_rel create_worker_task_rel
    start_hub_assistant_run_rel append_hub_assistant_message_rel append_hub_assistant_event_rel
    track_assistant_worker_rel accepts_node_event_rel hub_ack_rel register_rel unregister_rel
    on_node_connected_rel on_node_disconnected_rel replay_pending_rel setting_rel wake_rels)+

lemma hs_steps_rel: "(hs_step c P)\<^sup>*\<^sup>* s s' \<Longrightarrow> hs_rel c P s s'"
  by (induction rule: rtranclp_induct) (auto intro: hs_step_rel hs_rel_trans)

text \<open>A hub process over a store that some earlier runs left behind.\<close>

definition hs_reachable :: "'j codec \<Rightarrow> (faults \<Rightarrow> bool) \<Rightarrow> 'j hub_state \<Rightarrow> 'j hub_state \<Rightarrow> bool" where
  "hs_reachable c P s0 s \<longleftrightarrow>
     (\<exists>h ns cs. hub_reachable c h \<and> s0 = from_hub h ns cs) \<and> (hs_step c P)\<^sup>*\<^sup>* s0 s"

lemma hs_reachable_hub: "hs_reachable c P s0 s \<Longrightarrow> hub_reachable c (hs_hub s)"
  unfolding hs_reachable_def hub_reachable_def
  by (auto simp: from_hub_def hs_rel_def dest!: hs_steps_rel intro: rtranclp_trans)

lemma hs_reachable_bus:
  assumes "hs_reachable c P s0 s" and "codec_ok c" and "reads_succeed P"
  shows "\<exists>es. event_log c (hs_hub s) = event_log c (hs_hub s0) @ es \<and> hs_events s = es"
proof -
  obtain h ns cs where h: "hub_reachable c h" "s0 = from_hub h ns cs"
    using assms(1) by (auto simp: hs_reachable_def)
  have "durable_inv c (hs_hub s0)"
    using hub_reachable_inv(1) [OF h(1) assms(2)] by (simp add: h(2) from_hub_def)
  then show ?thesis
    using assms hs_steps_rel [of c P s0 s]
    by (auto simp: hs_reachable_def hs_rel_def live_step_def h(2) from_hub_def)
qed

lemma hs_reachable_subseq:
  assumes "hs_reachable c P s0 s" and "codec_ok c"
  shows "\<exists>es. event_log c (hs_hub s) = event_log c (hs_hub s0) @ es \<and> subseq (hs_events s) es"
proof -
  obtain h ns cs where h: "hub_reachable c h" "s0 = from_hub h ns cs"
    using assms(1) by (auto simp: hs_reachable_def)
  have "durable_inv c (hs_hub s0)"
    using hub_reachable_inv(1) [OF h(1) assms(2)] by (simp add: h(2) from_hub_def)
  then show ?thesis
    using assms hs_steps_rel [of c P s0 s]
    by (auto simp: hs_reachable_def hs_rel_def bus_step_def h(2) from_hub_def)
qed

end
