(* ===== verification/Hub_Props.thy ===== *)
theory Hub_Props
  imports Hub_Steps
begin

text \<open>
  What a hub process promises its clients and nodes, whatever methods run in between:
  idempotent commands end to end, a live bus that is the tail of the log, dispatches only
  to connected nodes that offer the engine, events only from the node that owns the run.
\<close>

subsection \<open>Idempotent commands\<close>

lemma stored_command_outcome:
  assumes "stored_command c cid db = Some (q, e)" and "io S_SelectReceipt = None"
  shows "command_outcome c io cid db = Inr (Some \<lparr>o_sequence = q, o_event_id = e, o_created = False\<rparr>)"
  using assms
  by (auto simp: stored_command_def command_outcome_def exec_def req_id_def split: option.splits)

lemma command_outcome_stored:
  assumes "command_outcome c io cid db = Inr (Some out)"
  shows "stored_command c cid db = Some (o_sequence out, o_event_id out)"
  using assms
  by (auto simp: command_outcome_def store_simps stored_command_def bind_res_eq_Inr req_id_def ok_or_eq_Inr
      split: option.splits)

lemma finish_accepted_stored:
  assumes fin: "finish_with_entity c v cid d dp entity s = (eff, s')"
    and acc: "x_receipt eff = accepted cid' q e"
    and inv: "durable_inv c (hs_hub s)" and ok: "env_ok P v" "draft_ok d" "dispatch_ok dp"
  shows "cid' = cid \<and> stored_command c cid (hs_hub s') = Some (q, e)"
proof -
  obtain r s1 where app: "append_and_broadcast_command c (v_io v 2) (v_clock v 2) (v_event v) cid d entity
      dp s = (r, s1)" by fastforce
  obtain out where r: "r = Inr out" and out: "cid' = cid" "q = o_sequence out" "e = o_event_id out" "s' = s1"
    using fin acc unfolding finish_with_entity_def app by (cases r) (auto simp: accepted_def)
  have "append_command_bundle c (v_io v 2) (v_clock v 2) (v_event v) cid d entity dp (hs_hub s)
      = (Inr out, hs_hub s')"
    using app unfolding r append_and_broadcast_command_def out(4) by (rule broadcast_new_Inr)
  then show ?thesis
    using command_log.append_remembers [OF inv,
        of "(v_io v 2, v_clock v 2, v_event v, d, entity, dp)" cid out "hs_hub s'"] ok out
    by (simp add: env_ok_def)
qed

lemma reject_not_accepted: "x_receipt (reject_effect cid err) \<noteq> accepted cid' q e"
  by (simp add: reject_effect_def rejected_def accepted_def)

lemma hs_rel_inv: "hs_rel c P s s' \<Longrightarrow> durable_inv c (hs_hub s) \<Longrightarrow> durable_inv c (hs_hub s')"
  using command_log.steps_inv by (auto simp: hs_rel_def)

text \<open>A branch that accepts has appended its draft.\<close>

definition finishes :: "'j codec \<Rightarrow> env \<Rightarrow> command_id \<Rightarrow> command_effect \<Rightarrow> 'j hub_state \<Rightarrow> bool" where
  "finishes c v cid eff s' \<longleftrightarrow>
     (\<exists>d dp entity s1 s2. finish_with_entity c v cid d dp entity s1 = (eff, s2) \<and> hs_hub s2 = hs_hub s' \<and>
        durable_inv c (hs_hub s1) \<and> draft_ok d \<and> dispatch_ok dp)"

lemma finishesI:
  "finish_with_entity c v cid d dp entity s1 = (eff, s2) \<Longrightarrow> hs_hub s2 = hs_hub s' \<Longrightarrow>
     durable_inv c (hs_hub s1) \<Longrightarrow> draft_ok d \<Longrightarrow> dispatch_ok dp \<Longrightarrow> finishes c v cid eff s'"
  unfolding finishes_def by blast

lemma start_run_finishes:
  assumes "apply_start_run c v reserved cid tid target engine model effort prompt policy path s = (eff, s')"
    and "x_receipt eff = accepted cid' q e" and "durable_inv c (hs_hub s)" and "env_ok P v"
  shows "finishes c v cid eff s'"
proof -
  have fin: "finishes c v cid eff' s3"
    if "finish_with_entity c v cid d dp entity s = (eff', s2)" "draft_ok d" "dispatch_ok dp"
      "s3 = (if x_dispatch eff' \<noteq> None then remember_run (v_run v) node tid s2 else s2)"
    for d dp entity eff' s2 s3 node
    using that assms(3) by (intro finishesI [OF that(1)]) (simp_all add: remember_run_def)
  show ?thesis
    using assms unfolding apply_start_run_def Let_def
    by (auto split: sum.splits prod.splits simp: reject_not_accepted env_ok_def intro!: fin)
qed

lemma branch_finishes:
  assumes call: "apply_branch c v reserved cmd s = (eff, s')"
    and acc: "x_receipt eff = accepted cid q e"
    and inv: "durable_inv c (hs_hub s)" and ok: "env_ok P v"
  shows "finishes c v (command_id_of cmd) eff s'"
proof (cases cmd)
  case (CreateTask id title)
  then show ?thesis
    using call inv ok unfolding CreateTask apply_branch.simps apply_create_task_def Let_def
    by (auto intro!: finishesI simp: env_ok_def json_ok_def)
next
  case (SendUserMessage id tid rid msg cmid)
  obtain by_run s1 where first: "(case rid of None \<Rightarrow> (None, s) | Some r \<Rightarrow> node_for_run c (v_io v 1) r s)
      = (by_run, s1)" by fastforce
  have "hs_rel c P s s1" using first by (auto split: option.splits dest: node_for_run_rel)
  then have "durable_inv c (hs_hub s1)" using inv by (rule hs_rel_inv)
  then show ?thesis
    using call acc ok unfolding SendUserMessage apply_branch.simps apply_send_user_message_def first
      prod.case Let_def finish_def
    by (auto split: if_splits option.splits simp: reject_not_accepted env_ok_def json_ok_def
        intro!: finishesI)
next
  case (StartRun id tid target engine model effort prompt policy path)
  then show ?thesis using call start_run_finishes [OF _ acc inv ok] by simp
next
  case (InterruptRun id rid)
  obtain b s1 where first: "run_binding c (v_io v 1) rid s = (b, s1)" by fastforce
  have "durable_inv c (hs_hub s1)" using run_binding_rel [OF first] inv by (rule hs_rel_inv)
  then show ?thesis
    using call acc ok unfolding InterruptRun apply_branch.simps apply_interrupt_run_def first
      prod.case Let_def finish_def
    by (cases b) (auto split: if_splits simp: reject_not_accepted env_ok_def intro!: finishesI)
next
  case (ResolveApproval id aid decision actor)
  let ?f = "resolve_approval c (v_io v 1) aid decision actor (v_clock v 0)"
  obtain r s1 where first: "with_hub ?f s = (r, s1)" by fastforce
  have "hs_rel c P s s1"
    by (rule hs_rel_with_hub [OF first]) (auto intro: hub_step.step_resolve resolve_same_log)
  then have "durable_inv c (hs_hub s1)" using inv by (rule hs_rel_inv)
  then show ?thesis
    using call acc ok unfolding ResolveApproval apply_branch.simps apply_resolve_approval_def first
      prod.case Let_def finish_def
    by (auto split: sum.splits simp: reject_not_accepted env_ok_def json_ok_def intro!: finishesI)
qed

lemma branch_accepted_stored:
  assumes "apply_branch c v reserved cmd s = (eff, s')" and "x_receipt eff = accepted cid q e"
    and "durable_inv c (hs_hub s)" and ok: "env_ok P v"
  shows "cid = command_id_of cmd \<and> stored_command c (command_id_of cmd) (hs_hub s') = Some (q, e)"
  using branch_finishes [OF assms] finish_accepted_stored [OF _ assms(2) _ ok]
  unfolding finishes_def by metis

lemma apply_accepted_stored:
  assumes call: "apply_command c v cmd s = (eff, s')" and acc: "x_receipt eff = accepted cid q e"
    and inv: "durable_inv c (hs_hub s)" and ok: "env_ok P v"
  shows "cid = command_id_of cmd \<and> stored_command c (command_id_of cmd) (hs_hub s') = Some (q, e)"
proof (cases "\<exists>out. command_outcome c (v_io v 0) (command_id_of cmd) (hs_hub s) = Inr (Some out)")
  case True
  then obtain out where out: "command_outcome c (v_io v 0) (command_id_of cmd) (hs_hub s) = Inr (Some out)"
    by blast
  then have "eff = \<lparr>x_receipt = accepted (command_id_of cmd) (o_sequence out) (o_event_id out),
      x_dispatch = None\<rparr>" and "s' = s"
    using call by (simp_all add: apply_command_def apply_command_inner_def)
  then show ?thesis using acc command_outcome_stored [OF out] by (simp add: accepted_def)
next
  case False
  then have "apply_branch c v None cmd s = (eff, s')"
    using call by (auto simp: apply_command_def apply_command_inner_def split: sum.splits option.splits)
  then show ?thesis using branch_accepted_stored [OF _ acc inv ok] by blast
qed

text \<open>A command that is stored and comes again, whatever its body and whatever fails: nothing is appended,
  broadcast or dispatched, and the answer is the stored outcome or no acceptance.\<close>

definition replayed :: "int \<Rightarrow> event_id \<Rightarrow> command_id \<Rightarrow> 'j hub_state \<Rightarrow> command_effect \<Rightarrow> 'j hub_state \<Rightarrow> bool" where
  "replayed q e cid s eff s' \<longleftrightarrow>
     same_log (hs_hub s) (hs_hub s') \<and> hs_events s' = hs_events s \<and> x_dispatch eff = None \<and>
     (x_receipt eff = accepted cid q e \<or> (\<exists>err. x_receipt eff = CommandReceipt cid False None None err))"

lemma replayed_reject:
  "same_log (hs_hub s) (hs_hub s') \<Longrightarrow> hs_events s' = hs_events s \<Longrightarrow> replayed q e cid s (reject_effect cid err) s'"
  by (simp add: replayed_def reject_effect_def rejected_def)

lemma same_log_stored: "same_log h h' \<Longrightarrow> stored_command c cid h' = stored_command c cid h"
  by (simp add: same_log_def stored_command_def find_receipt_def)

lemma append_stored_outcome:
  assumes "stored_command c cid h = Some (q, e)" and "append_command_bundle c io now fresh cid d entity dp h = (r, h')"
  shows "h' = h \<and> (case r of Inl _ \<Rightarrow> True | Inr out \<Rightarrow> o_sequence out = q \<and> o_event_id out = e \<and> \<not> o_created out)"
proof (cases r)
  case (Inl err)
  then show ?thesis using assms(2) append_command_error by auto
next
  case (Inr out)
  from assms(2) [unfolded Inr] show ?thesis
    using assms(1) Inr
    by (cases rule: append_command_cases)
      (auto simp: stored_command_def event_id_from_str_def ok_or_eq_Inr split: option.splits)
qed

lemma finish_replayed:
  assumes "stored_command c cid (hs_hub s) = Some (q, e)" and "finish_with_entity c v cid d dp entity s = (eff, s')"
  shows "replayed q e cid s eff s'" and "hs_hub s' = hs_hub s"
proof -
  let ?f = "append_command_bundle c (v_io v 2) (v_clock v 2) (v_event v) cid d entity dp"
  obtain r h where call: "?f (hs_hub s) = (r, h)" by fastforce
  note out = append_stored_outcome [OF assms(1) call]
  have "append_and_broadcast_command c (v_io v 2) (v_clock v 2) (v_event v) cid d entity dp s = (r, s)"
    using call out by (auto simp: append_and_broadcast_command_def with_hub_def broadcast_new_def split: sum.splits)
  then show "replayed q e cid s eff s'" and "hs_hub s' = hs_hub s"
    using assms(2) out by (auto simp: finish_with_entity_def replayed_def split: sum.splits)
qed

lemma replayed_after_same:
  "hs_hub s1 = hs_hub s \<Longrightarrow> hs_events s1 = hs_events s \<Longrightarrow> replayed q e cid s1 eff s' \<Longrightarrow> replayed q e cid s eff s'"
  by (simp add: replayed_def)

lemma replayed_after:
  "same_log (hs_hub s) (hs_hub s1) \<Longrightarrow> hs_events s1 = hs_events s \<Longrightarrow> replayed q e cid s1 eff s' \<Longrightarrow>
     replayed q e cid s eff s'"
  by (auto simp: replayed_def same_log_def)

lemma binding_same_log:
  "run_binding c io rid s = (b, s') \<Longrightarrow> hs_hub s' = hs_hub s \<and> hs_events s' = hs_events s"
  "node_for_run c io rid s = (n, s') \<Longrightarrow> hs_hub s' = hs_hub s \<and> hs_events s' = hs_events s"
  by (auto simp: run_binding_def run_binding_checked_def node_for_run_def remember_run_def
      split: prod.splits sum.splits option.splits)

lemma branch_replayed:
  assumes st: "stored_command c (command_id_of cmd) (hs_hub s) = Some (q, e)"
    and call: "apply_branch c v reserved cmd s = (eff, s')"
  shows "replayed q e (command_id_of cmd) s eff s'"
proof (cases cmd)
  case (CreateTask cid title)
  then show ?thesis using assms finish_replayed(1) by (simp add: apply_create_task_def Let_def)
next
  case (SendUserMessage cid tid rid msg cmid)
  obtain by_run s1 where first: "(case rid of None \<Rightarrow> (None, s) | Some r \<Rightarrow> node_for_run c (v_io v 1) r s)
      = (by_run, s1)" by fastforce
  have same: "hs_hub s1 = hs_hub s" "hs_events s1 = hs_events s"
    using first by (cases rid; auto dest: binding_same_log(2))+
  have "stored_command c cid (hs_hub s1) = Some (q, e)" using st SendUserMessage same by simp
  from finish_replayed(1) [OF this] show ?thesis
    using call same unfolding SendUserMessage apply_branch.simps apply_send_user_message_def first prod.case Let_def
      finish_def command_id_of.simps
    by (auto simp: replayed_reject split: if_splits intro: replayed_after_same)
next
  case (StartRun cid tid target engine model effort prompt policy path)
  have remember: "replayed q e cid s eff (if b then remember_run rid node tid s2 else s2)" if "replayed q e cid s eff s2"
    for b rid node s2 eff
    using that by (simp add: replayed_def remember_run_def)
  show ?thesis
    using call st finish_replayed(1)
    unfolding StartRun apply_branch.simps apply_start_run_def Let_def command_id_of.simps
    by (auto simp: replayed_reject split: sum.splits prod.splits intro!: remember)
next
  case (InterruptRun cid rid)
  obtain b s1 where first: "run_binding c (v_io v 1) rid s = (b, s1)" by fastforce
  have same: "hs_hub s1 = hs_hub s" "hs_events s1 = hs_events s" using binding_same_log(1) [OF first] by simp_all
  have "stored_command c cid (hs_hub s1) = Some (q, e)" using st InterruptRun same by simp
  from finish_replayed(1) [OF this] show ?thesis
    using call same unfolding InterruptRun apply_branch.simps apply_interrupt_run_def first prod.case Let_def
      finish_def command_id_of.simps
    by (auto simp: replayed_reject split: if_splits intro: replayed_after_same)
next
  case (ResolveApproval cid aid decision actor)
  obtain r s1 where first: "with_hub (resolve_approval c (v_io v 1) aid decision actor (v_clock v 0)) s = (r, s1)"
    by fastforce
  have same: "same_log (hs_hub s) (hs_hub s1)" "hs_events s1 = hs_events s"
    using first by (auto simp: with_hub_def split: prod.splits intro: resolve_same_log)
  have "stored_command c cid (hs_hub s1) = Some (q, e)" using st ResolveApproval same_log_stored [OF same(1)] by simp
  from finish_replayed(1) [OF this] show ?thesis
    using call same unfolding ResolveApproval apply_branch.simps apply_resolve_approval_def first prod.case Let_def
      finish_def command_id_of.simps
    by (auto simp: replayed_reject split: sum.splits intro: replayed_after)
qed

text \<open>C11: a command that a client saw accepted can be sent again at any later time, after any
  activity of the hub, over a new connection or with a changed body, and whatever statement fails: nothing
  is appended to the log, nothing is broadcast and nothing dispatched a second time, and the answer is the
  very same sequence and event id or no acceptance. When the lookup of the receipt succeeds it is the same
  receipt, and the hub does not change at all.\<close>

theorem hub_command_idempotent:
  assumes "codec_ok c" and "hs_reachable c P s0 s" and "env_ok P v"
    and "apply_command c v cmd s = (eff, s1)" and "x_receipt eff = accepted cid q e"
    and "(hs_step c P)\<^sup>*\<^sup>* s1 s2" and "command_id_of cmd' = command_id_of cmd"
    and "apply_command c v' cmd' s2 = (eff', s3)"
  shows "event_log c (hs_hub s3) = event_log c (hs_hub s2) \<and> hs_events s3 = hs_events s2 \<and> x_dispatch eff' = None
    \<and> (x_receipt eff' = accepted cid q e \<or> (\<exists>err. x_receipt eff' = CommandReceipt cid False None None err))
    \<and> (v_io v' 0 S_SelectReceipt = None \<longrightarrow>
        eff' = \<lparr>x_receipt = accepted cid q e, x_dispatch = None\<rparr> \<and> s3 = s2)"
proof -
  have inv: "durable_inv c (hs_hub s)"
    using hub_reachable_inv(1) [OF hs_reachable_hub [OF assms(2)] assms(1)] .
  have cid: "cid = command_id_of cmd" and st: "stored_command c (command_id_of cmd) (hs_hub s1) = Some (q, e)"
    using apply_accepted_stored [OF assms(4,5) inv assms(3)] by auto
  have "durable_inv c (hs_hub s1)"
    using apply_command_inner_rel [OF assms(4) [unfolded apply_command_def] assms(3)] inv
    by (rule hs_rel_inv)
  moreover have "(hub_step c)\<^sup>*\<^sup>* (hs_hub s1) (hs_hub s2)"
    using hs_steps_rel [OF assms(6)] by (simp add: hs_rel_def)
  ultimately have stored: "stored_command c (command_id_of cmd') (hs_hub s2) = Some (q, e)"
    using st assms(7) by (auto intro: command_log.steps_stored)
  have found: "out = \<lparr>o_sequence = q, o_event_id = e, o_created = False\<rparr>"
    if "command_outcome c (v_io v' 0) (command_id_of cmd') (hs_hub s2) = Inr (Some out)" for out
    using stored_command_outcome [where io = "v_io v' 0", OF stored] that
    by (cases "v_io v' 0 S_SelectReceipt") (auto simp: command_outcome_def exec_def)
  have "replayed q e cid s2 eff' s3"
  proof (cases "\<exists>out. command_outcome c (v_io v' 0) (command_id_of cmd') (hs_hub s2) = Inr (Some out)")
    case True
    then show ?thesis
      using assms(7,8) cid found by (auto simp: apply_command_def apply_command_inner_def replayed_def)
  next
    case False
    then have "apply_branch c v' None cmd' s2 = (eff', s3)"
      using assms(8) by (auto simp: apply_command_def apply_command_inner_def split: sum.splits option.splits)
    then show ?thesis using branch_replayed [OF stored] cid assms(7) by simp
  qed
  moreover have "eff' = \<lparr>x_receipt = accepted cid q e, x_dispatch = None\<rparr> \<and> s3 = s2"
    if "v_io v' 0 S_SelectReceipt = None"
    using stored_command_outcome [where io = "v_io v' 0", OF stored that] assms(7,8) cid
    by (simp add: apply_command_def apply_command_inner_def)
  ultimately show ?thesis using same_log_event_log by (auto simp: replayed_def)
qed

definition demo_env :: env where
  "demo_env = \<lparr>v_clock = (\<lambda>_. 0), v_io = (\<lambda>_. no_faults), v_event = EventId 1, v_task = TaskId 1,
     v_run = RunId 1\<rparr>"

lemma demo_env_ok: "env_ok (\<lambda>io. io = no_faults) demo_env"
  by (simp add: env_ok_def demo_env_def time_ok_def)

definition demo_hub :: "(json + hub_to_node) hub_state" where
  "demo_hub = from_hub empty_hub ''secret'' []"

lemma demo_hub_reachable: "hs_reachable plain_codec P demo_hub demo_hub"
  using hub_reachable_empty [of plain_codec] by (auto simp: hs_reachable_def demo_hub_def)

lemma finish_progress:
  assumes inv: "durable_inv c (hs_hub s)" "tables_inv (hs_hub s)" and io: "v_io v 2 = no_faults"
    and ok: "draft_ok d" "time_ok (v_clock v 2)" "dispatch_ok dp"
    and new: "find_receipt c cid (hs_hub s) = None"
    and fresh: "event_id_str c (v_event v) \<notin> ev_event_id ` set (events (hs_hub s))"
    and room: "int (length (events (hs_hub s))) < i64_max" and free: "entity_free c entity (hs_hub s)"
  shows "\<exists>eff s'. finish_with_entity c v cid d dp entity s = (eff, s') \<and> x_dispatch eff = dp \<and>
    x_receipt eff = accepted cid (int (length (events (hs_hub s))) + 1) (v_event v)"
proof -
  let ?f = "append_command_bundle c no_faults (v_clock v 2) (v_event v) cid d entity dp"
  have log: "log_inv c (hs_hub s)" using inv(1) by (simp add: durable_inv_def)
  obtain out h where call: "?f (hs_hub s) = (Inr out, h)"
    using append_command_progress [OF log inv(2) new fresh room free] by blast
  note facts = append_command_log [OF call new]
  have seq: "o_sequence out = int (length (events (hs_hub s))) + 1"
    using facts(4) log by (simp add: next_sequence_Inr log_inv_def)
  have "log_inv c h"
    using append_command_inv [OF log _ ok(1,2) call] inv(1) by (simp add: durable_inv_def)
  moreover have "event_log c h = event_log c (hs_hub s)
      @ [stamp (o_sequence out) (v_event v) (Some cid) d (v_clock v 2)]"
    using inv(1) ok by (intro event_log_snoc [OF row_to_event_of facts(5)]) (simp_all add: durable_inv_def)
  ultimately have "\<exists>e. fetch_event c no_faults h (o_sequence out) = Inr (Some e)"
    using fetch_event_last [of c h _ _ no_faults] seq by (auto simp: event_log_def no_faults_def)
  then show ?thesis
    using call facts(1,2) seq
    by (auto simp: finish_with_entity_def append_and_broadcast_command_def broadcast_new_def with_hub_def io)
qed

lemma demo_create:
  "\<exists>eff s1. apply_command plain_codec demo_env (CreateTask (CommandId 7) ''demo'') demo_hub = (eff, s1)
    \<and> x_receipt eff = accepted (CommandId 7) 1 (EventId 1)"
proof -
  have inv: "durable_inv plain_codec (hs_hub demo_hub)" "tables_inv (hs_hub demo_hub)"
    using hub_reachable_inv [OF hub_reachable_empty plain_codec_ok]
    by (simp_all add: demo_hub_def from_hub_def)
  have "command_outcome plain_codec no_faults (CommandId 7) (hs_hub demo_hub) = Inr None"
    by (simp add: command_outcome_def demo_hub_def from_hub_def find_receipt_def empty_hub_def)
  then have "apply_command plain_codec demo_env (CreateTask (CommandId 7) ''demo'') demo_hub
      = apply_create_task plain_codec demo_env (CommandId 7) ''demo'' demo_hub"
    by (simp add: apply_command_def apply_command_inner_def demo_env_def)
  moreover
  let ?d = "with_payload (event_draft_new 0 TaskCreated (TaskId 1) hub_node) (JObject [(''title'', JString ''demo'')])"
    and ?t = "\<lparr>t_id = TaskId 1, t_title = ''demo'', t_status = Open, t_created_at = 0\<rparr>"
  have "apply_create_task plain_codec demo_env (CommandId 7) ''demo'' demo_hub
      = finish_with_entity plain_codec demo_env (CommandId 7) ?d None (EntityTask ?t) demo_hub"
    by (simp add: apply_create_task_def demo_env_def)
  moreover have "events (hs_hub demo_hub) = []" "tasks (hs_hub demo_hub) = []"
      "command_receipts (hs_hub demo_hub) = []"
    by (simp_all add: demo_hub_def from_hub_def empty_hub_def)
  then have "\<exists>eff s'. finish_with_entity plain_codec demo_env (CommandId 7) ?d None (EntityTask ?t) demo_hub
      = (eff, s') \<and> x_dispatch eff = None \<and>
      x_receipt eff = accepted (CommandId 7) (int (length (events (hs_hub demo_hub))) + 1) (v_event demo_env)"
    by (intro finish_progress [OF inv])
      (simp_all add: demo_env_def json_ok_def time_ok_def find_receipt_def i64_max_def)
  ultimately show ?thesis
    using \<open>events (hs_hub demo_hub) = []\<close> by (simp add: demo_env_def) blast
qed

theorem hub_command_idempotent_witness:
  "\<exists>eff s1. apply_command plain_codec demo_env (CreateTask (CommandId 7) ''demo'') demo_hub = (eff, s1)
    \<and> apply_command plain_codec demo_env (CreateTask (CommandId 7) ''other'') s1
      = (\<lparr>x_receipt = accepted (CommandId 7) 1 (EventId 1), x_dispatch = None\<rparr>, s1)"
proof -
  obtain eff s1 where first: "apply_command plain_codec demo_env (CreateTask (CommandId 7) ''demo'') demo_hub
      = (eff, s1)" "x_receipt eff = accepted (CommandId 7) 1 (EventId 1)"
    using demo_create by blast
  obtain eff' s3 where again: "apply_command plain_codec demo_env (CreateTask (CommandId 7) ''other'') s1 = (eff', s3)"
    by fastforce
  have "eff' = \<lparr>x_receipt = accepted (CommandId 7) 1 (EventId 1), x_dispatch = None\<rparr> \<and> s3 = s1"
    using hub_command_idempotent [OF plain_codec_ok demo_hub_reachable demo_env_ok first rtranclp.rtrancl_refl _ again]
    by (simp add: demo_env_def no_faults_def)
  with first again show ?thesis by blast
qed

subsection \<open>The live bus\<close>

text \<open>C25: as long as the read behind an append succeeds, what the hub has broadcast since it
  started is exactly what the durable log gained since then: every event once, in sequence
  order, nothing else, whatever mix of clients, nodes and workers caused it.\<close>

theorem live_bus_is_log_tail:
  assumes "codec_ok c" and "hs_reachable c P s0 s" and "reads_succeed P"
  shows "event_log c (hs_hub s) = event_log c (hs_hub s0) @ hs_events s"
  using hs_reachable_bus [OF assms(2,1,3)] by auto

lemma demo_create_log:
  assumes call: "apply_command plain_codec demo_env (CreateTask (CommandId 7) ''demo'') demo_hub = (eff, s)"
    and acc: "x_receipt eff = accepted (CommandId 7) 1 (EventId 1)"
  shows "\<exists>e. event_log plain_codec (hs_hub s) = [e]"
proof -
  have "command_outcome plain_codec no_faults (CommandId 7) (hs_hub demo_hub) = Inr None"
    by (simp add: command_outcome_def demo_hub_def from_hub_def find_receipt_def empty_hub_def)
  then obtain d entity where fin: "finish_with_entity plain_codec demo_env (CommandId 7) d None entity demo_hub
      = (eff, s)"
    using call by (auto simp: apply_command_def apply_command_inner_def apply_create_task_def demo_env_def Let_def)
  obtain r s1 where app: "append_and_broadcast_command plain_codec no_faults 0 (EventId 1) (CommandId 7) d
      entity None demo_hub = (r, s1)" by fastforce
  obtain out where r: "r = Inr out" and "s = s1"
    using fin acc app by (cases r) (auto simp: finish_with_entity_def accepted_def demo_env_def)
  have "append_command_bundle plain_codec no_faults 0 (EventId 1) (CommandId 7) d entity None
      (hs_hub demo_hub) = (Inr out, hs_hub s)"
    using app unfolding r append_and_broadcast_command_def \<open>s = s1\<close> by (rule broadcast_new_Inr)
  from append_command_log(5) [OF this] show ?thesis
    by (simp add: event_log_def demo_hub_def from_hub_def empty_hub_def find_receipt_def)
qed

theorem live_bus_is_log_tail_witness:
  "\<exists>s. hs_reachable plain_codec (\<lambda>io. io = no_faults) demo_hub s \<and> hs_events s \<noteq> []
    \<and> event_log plain_codec (hs_hub s) = hs_events s"
proof -
  obtain eff s1 where first: "apply_command plain_codec demo_env (CreateTask (CommandId 7) ''demo'') demo_hub
      = (eff, s1)" "x_receipt eff = accepted (CommandId 7) 1 (EventId 1)"
    using demo_create by blast
  have reach: "hs_reachable plain_codec (\<lambda>io. io = no_faults) demo_hub s1"
    using demo_hub_reachable hs_step.hs_apply [OF demo_env_ok first(1)] by (auto simp: hs_reachable_def)
  have "event_log plain_codec (hs_hub s1) = event_log plain_codec (hs_hub demo_hub) @ hs_events s1"
    by (rule live_bus_is_log_tail [OF plain_codec_ok reach]) (simp add: reads_succeed_def no_faults_def)
  then show ?thesis
    using reach demo_create_log [OF first]
    by (intro exI [of _ s1]) (auto simp: event_log_def demo_hub_def from_hub_def empty_hub_def)
qed

text \<open>C26: when a command is new, its append commits, and only the read that fetches the event for the
  broadcast fails, then the client is told that the command was not accepted although the log has grown by its
  event and its receipt is stored; nothing is dispatched at once; and whatever the hub does later, the live bus
  never carries that event.\<close>

theorem read_failure_hides_event:
  assumes "codec_ok c" and "hs_reachable c P s0 s" and "env_ok P v" and "draft_ok d" and "dispatch_ok dp"
    and "stored_command c cid (hs_hub s) = None"
    and "append_command_bundle c (v_io v 2) (v_clock v 2) (v_event v) cid d entity dp (hs_hub s) = (Inr out, h)"
    and "v_io v 2 S_SelectEvents = Some err"
    and "finish_with_entity c v cid d dp entity s = (eff, s1)" and "(hs_step c P)\<^sup>*\<^sup>* s1 s2"
  shows "x_receipt eff = CommandReceipt cid False None None None \<and> x_dispatch eff = None
    \<and> length (event_log c (hs_hub s1)) = Suc (length (event_log c (hs_hub s)))
    \<and> stored_command c cid (hs_hub s1) = Some (o_sequence out, o_event_id out)
    \<and> o_sequence out \<notin> e_sequence ` set (hs_events s2)"
proof -
  have reach: "hub_reachable c (hs_hub s)" by (rule hs_reachable_hub [OF assms(2)])
  have inv: "durable_inv c (hs_hub s)" by (rule hub_reachable_inv(1) [OF reach assms(1)])
  have new: "o_created out" "stored_command c cid h = Some (o_sequence out, o_event_id out)"
      "\<exists>e. event_log c h = event_log c (hs_hub s) @ [e]" "o_sequence out = int (length (event_log c (hs_hub s))) + 1"
    using command_log.append_fresh [OF inv, of "(v_io v 2, v_clock v 2, v_event v, d, entity, dp)" cid out h] assms
    by (auto simp: env_ok_def)
  have "fetch_event c (v_io v 2) h (o_sequence out) = Inl (sql_err err)"
    using assms(8) by (simp add: fetch_event_def events_after_def exec_def)
  then have ends: "eff = \<lparr>x_receipt = CommandReceipt cid False None None None, x_dispatch = None\<rparr>"
      "hs_hub s1 = h" "hs_events s1 = hs_events s"
    using assms(7,9) new by (auto simp: finish_with_entity_def append_and_broadcast_command_def broadcast_new_def with_hub_def)
  have "hs_rel c P s s1" by (rule finish_with_entity_rel [OF assms(9) assms(3)]) (use assms(4,5) in simp_all)
  then have inv1: "durable_inv c (hs_hub s1)" using inv by (rule hs_rel_inv)
  note later = hs_steps_rel [OF assms(10)]
  obtain more es where grown: "event_log c (hs_hub s2) = event_log c (hs_hub s1) @ more"
      "hs_events s2 = hs_events s1 @ es" "subseq es more"
    using later inv1 by (auto simp: hs_rel_def bus_step_def)
  have "log_inv c (hs_hub s2)" using hs_rel_inv [OF later inv1] by (simp add: durable_inv_def)
  then have num: "numbered e_sequence (event_log c (hs_hub s1) @ more)"
    using event_log_numbered grown(1) by metis
  let ?n = "length (event_log c (hs_hub s))"
  have size: "length (event_log c (hs_hub s1)) = Suc ?n" using new(3) ends(2) by auto
  have beyond: "e_sequence e > int ?n + 1" if "e \<in> set more" for e
  proof -
    from that obtain i where "i < length more" "e = more ! i" by (auto simp: in_set_conv_nth)
    then show ?thesis using numbered_nth [OF num, of "Suc ?n + i"] size by (simp add: nth_append)
  qed
  have before: "e_sequence e \<le> int ?n" if "e \<in> set (event_log c (hs_hub s))" for e
  proof -
    have "numbered e_sequence (event_log c (hs_hub s))"
      using inv by (auto simp: durable_inv_def intro: event_log_numbered)
    from numbered_nth [OF this] that show ?thesis by (auto simp: in_set_conv_nth)
  qed
  have subset: "set xs \<subseteq> set ys" if "subseq xs ys" for xs ys :: "event list"
    using that by (induction rule: list_emb.induct) auto
  have "o_sequence out \<notin> e_sequence ` set (hs_events s)"
    using hs_reachable_subseq [OF assms(2,1)] subset before new(4) by fastforce
  moreover have "o_sequence out \<notin> e_sequence ` set es"
    using subset [OF grown(3)] beyond new(4) by force
  ultimately have "o_sequence out \<notin> e_sequence ` set (hs_events s2)"
    using grown(2) ends(3) by auto
  then show ?thesis using ends size new(2) by simp
qed

definition select_events_fail :: faults where
  "select_events_fail = no_faults(S_SelectEvents := Some (StatementFailed ''disk I/O error''))"

lemma exec_other: "st \<noteq> S_SelectEvents \<Longrightarrow> exec select_events_fail st r = r"
  by (simp add: select_events_fail_def exec_def no_faults_def)

lemma append_command_other_fault:
  "append_command_bundle c select_events_fail now fresh cid d EntityNone None db
   = append_command_bundle c no_faults now fresh cid d EntityNone None db"
  by (cases "find_receipt c cid db")
    (simp_all add: append_command_bundle_def transaction_def exec_other next_sequence_def insert_event_def
      insert_receipt_def insert_dispatch_def split: sum.splits option.splits prod.splits)

theorem read_failure_hides_event_witness:
  "\<exists>eff s1. finish_with_entity plain_codec (demo_env\<lparr>v_io := (\<lambda>_. select_events_fail)\<rparr>) (CommandId 7) demo_draft
       None EntityNone demo_hub = (eff, s1)
    \<and> x_receipt eff = CommandReceipt (CommandId 7) False None None None
    \<and> length (event_log plain_codec (hs_hub s1)) = 1 \<and> hs_events s1 = []"
proof -
  let ?v = "demo_env\<lparr>v_io := (\<lambda>_. select_events_fail)\<rparr>"
  obtain eff s1 where fin: "finish_with_entity plain_codec ?v (CommandId 7) demo_draft None EntityNone demo_hub = (eff, s1)"
    by fastforce
  obtain out h where call: "append_command_bundle plain_codec select_events_fail 0 (EventId 1) (CommandId 7)
      demo_draft EntityNone None (hs_hub demo_hub) = (Inr out, h)"
    using demo_append [of 1 7 demo_draft None]
    by (auto simp: append_command_other_fault demo_hub_def from_hub_def)
  then have call': "append_command_bundle plain_codec (v_io ?v 2) (v_clock ?v 2) (v_event ?v) (CommandId 7)
      demo_draft EntityNone None (hs_hub demo_hub) = (Inr out, h)" by (simp add: demo_env_def)
  have none: "stored_command plain_codec (CommandId 7) (hs_hub demo_hub) = None"
    by (simp add: demo_hub_def from_hub_def stored_command_def find_receipt_def empty_hub_def)
  have fault: "v_io ?v 2 S_SelectEvents = Some (StatementFailed ''disk I/O error'')"
    by (simp add: select_events_fail_def)
  have env: "env_ok (\<lambda>_. True) ?v" by (simp add: env_ok_def demo_env_def time_ok_def)
  have empty: "event_log plain_codec (hs_hub demo_hub) = []" "hs_events demo_hub = []"
    by (simp_all add: demo_hub_def from_hub_def event_log_def empty_hub_def)
  note result = read_failure_hides_event [OF plain_codec_ok demo_hub_reachable env demo_ok(1) demo_ok(3) none call' fault fin
      rtranclp.rtrancl_refl]
  have "hs_events s1 = []"
  proof -
    have "fetch_event plain_codec (v_io ?v 2) h (o_sequence out) = Inl (sql_err (StatementFailed ''disk I/O error''))"
      using fault by (simp add: fetch_event_def events_after_def exec_def)
    then show ?thesis
      using call' fin empty(2)
      by (auto simp: finish_with_entity_def append_and_broadcast_command_def broadcast_new_def with_hub_def split: if_splits)
  qed
  with fin result empty(1) show ?thesis by auto
qed

subsection \<open>Runs and nodes\<close>











lemma run_bound_unique:
  assumes "distinct (map rn_run_id (runs h))" and "run_bound c rid n t h" and "run_bound c rid n' t' h"
  shows "n = n' \<and> t = t'"
proof -
  obtain r where r: "r \<in> set (runs h)" "rn_run_id r = run_id_str c rid" "rn_node_id r = node_str n"
      "req_id c TaskId (rn_task_id r) = Inr t"
    using assms(2) by (auto simp: run_bound_def)
  obtain r' where r': "r' \<in> set (runs h)" "rn_run_id r' = run_id_str c rid" "rn_node_id r' = node_str n'"
      "req_id c TaskId (rn_task_id r') = Inr t'"
    using assms(3) by (auto simp: run_bound_def)
  have "r = r'" using assms(1) r(1,2) r'(1,2) by (metis distinct_map inj_onD)
  then show ?thesis using r r' by (auto intro: node_id.expand)
qed

text \<open>The hub takes an event from a node only for a run that the store binds to that very
  node and to the event's task: an authenticated node can neither speak for another node nor
  write into another node's run or task.\<close>

theorem node_event_needs_owned_run:
  assumes "codec_ok c" and "hs_reachable c P s0 s" and "accepts_node_event c io node d s = (Inr True, s')"
  shows "d_node_id d = node \<and> (\<exists>rid. d_run_id d = Some rid \<and> run_bound c rid node (d_task_id d) (hs_hub s)
    \<and> (\<forall>node' tid'. run_bound c rid node' tid' (hs_hub s) \<longrightarrow> node' = node \<and> tid' = d_task_id d))"
proof -
  obtain h ns cs where "s0 = from_hub h ns cs" using assms(2) by (auto simp: hs_reachable_def)
  then have "routing_ok c s0" by (simp add: routing_ok_def from_hub_def)
  then have rt: "routing_ok c s"
    using assms(1,2) hs_steps_rel [of c P s0 s] by (auto simp: hs_reachable_def hs_rel_def)
  obtain rid where rid: "d_node_id d = node" "d_run_id d = Some rid"
      and "run_binding_checked c io rid s = (Inr (Some (node, d_task_id d)), s')"
    using assms(3) by (auto simp: accepts_node_event_def split: if_splits option.splits prod.splits sum.splits)
  then have bound: "run_bound c rid node (d_task_id d) (hs_hub s)"
    using rt get_run_bound [OF _ assms(1), of io rid "hs_hub s"]
    by (auto simp: run_binding_checked_def routing_ok_def split: option.splits sum.splits)
  have "distinct (map rn_run_id (runs (hs_hub s)))"
    using hub_reachable_inv(2) [OF hs_reachable_hub [OF assms(2)] assms(1)] by (simp add: tables_inv_def)
  then have "node' = node \<and> tid' = d_task_id d" if "run_bound c rid node' tid' (hs_hub s)" for node' tid'
    using run_bound_unique [OF _ that bound] by blast
  with rid bound show ?thesis by blast
qed

definition demo_run :: run where
  "demo_run = \<lparr>r_id = RunId 1, r_task_id = TaskId 1, r_node_id = NodeId ''laptop'', r_engine = ''claude'',
     r_model = None, r_reasoning_effort = None, r_system_prompt = None, r_access_policy = Supervised,
     r_workspace_path = None, r_status = Started, r_started_at = 0\<rparr>"

theorem node_event_needs_owned_run_witness:
  "\<exists>s d s'. hs_reachable plain_codec (\<lambda>_. True) s s
    \<and> accepts_node_event plain_codec no_faults (NodeId ''laptop'') d s = (Inr True, s')
    \<and> run_bound plain_codec (RunId 1) (NodeId ''laptop'') (d_task_id d) (hs_hub s)"
proof -
  let ?h = "empty_hub\<lparr>runs := [run_row_of plain_codec demo_run]\<rparr>"
  let ?s = "from_hub ?h [] []"
  let ?d = "with_run (event_draft_new 0 RunCompleted (TaskId 1) (NodeId ''laptop'')) (RunId 1)"
  have "insert_run plain_codec no_faults demo_run empty_hub = (Inr (), ?h)"
    by (simp add: insert_run_def insert_run_row_def insert_unique_def autocommit_def empty_hub_def)
  then have "hub_reachable plain_codec ?h"
    unfolding hub_reachable_def by (blast intro: hub_step.step_insert_run)
  then have reach: "hs_reachable plain_codec (\<lambda>_. True) ?s ?s" by (auto simp: hs_reachable_def)
  have "row_to_run plain_codec (run_row_of plain_codec demo_run) = Inr demo_run"
    by (rule row_to_run_of [OF plain_codec_ok]) (simp add: demo_run_def time_ok_def)
  then have "get_run plain_codec no_faults (RunId 1) ?h = Inr (Some demo_run)"
    by (simp add: get_run_def) (simp add: demo_run_def run_row_of_def)
  then have acc: "accepts_node_event plain_codec no_faults (NodeId ''laptop'') ?d ?s
      = (Inr True, remember_run (RunId 1) (NodeId ''laptop'') (TaskId 1) ?s)"
    by (simp add: accepts_node_event_def run_binding_checked_def with_run_def event_draft_new_def
        from_hub_def demo_run_def)
  from node_event_needs_owned_run [OF plain_codec_ok reach acc]
  have "run_bound plain_codec (RunId 1) (NodeId ''laptop'') (d_task_id ?d) (hs_hub ?s)"
    by (auto simp: with_run_def)
  with reach acc show ?thesis by blast
qed

end
