(* ===== verification/Client_Link.thy ===== *)
theory Client_Link
  imports Hub_Props
begin

text \<open>
  One client connection (\<open>crates/stackhour-hub/src/lib.rs\<close>, \<open>handle_client\<close>): subscribe to the
  live bus, then \<open>Subscribe\<close>, acknowledgement, catch-up from the log, and the loop over
  incoming frames, live events, lag and heartbeats, interleaved with any activity of the
  hub. The bus receiver is a position in \<open>hs_events\<close>; a lagging receiver may skip ahead to any
  later position at any time, which covers every capacity. \<open>ok\<close> tells which sends succeed.
\<close>

subsection \<open>The link\<close>

record client_link =
  cl_open :: bool
  cl_subscribed :: bool
  cl_pos :: nat
  cl_last_delivered :: int
  cl_out :: "hub_to_client list"

definition client_connect :: "'j hub_state \<Rightarrow> client_link" where
  "client_connect s =
     \<lparr>cl_open = True, cl_subscribed = False, cl_pos = length (hs_events s), cl_last_delivered = 0,
      cl_out = []\<rparr>"

definition client_close :: "client_link \<Rightarrow> client_link" where
  "client_close l = l\<lparr>cl_open := False\<rparr>"

definition client_send :: "bool \<Rightarrow> hub_to_client \<Rightarrow> client_link \<Rightarrow> client_link" where
  "client_send ok m l = (if ok then l\<lparr>cl_out := cl_out l @ [m]\<rparr> else client_close l)"

fun client_send_all :: "(nat \<Rightarrow> bool) \<Rightarrow> hub_to_client list \<Rightarrow> client_link \<Rightarrow> client_link" where
  "client_send_all ok [] l = l"
| "client_send_all ok (m # ms) l =
     (if ok 0 then client_send_all (\<lambda>i. ok (Suc i)) ms (client_send True m l) else client_close l)"

definition client_subscribe ::
  "'j codec \<Rightarrow> faults \<Rightarrow> (nat \<Rightarrow> bool) \<Rightarrow> subscribe \<Rightarrow> 'j hub_state \<Rightarrow> client_link \<Rightarrow> client_link" where
  "client_subscribe c io ok sub s l =
     (if \<not> accepts_client c (s_token sub) s then client_close l
      else
        let after = (case s_after_sequence sub of Some n \<Rightarrow> n | None \<Rightarrow> 0) in
        case snapshot c io after s of
          Inl _ \<Rightarrow> client_close l
        | Inr (head, catch_up) \<Rightarrow>
            (client_send_all ok
               (SubscribeAck (s_after_sequence sub) head # map EventDelivery catch_up) l)
            \<lparr>cl_subscribed := True, cl_last_delivered := head\<rparr>)"

definition client_on_event :: "bool \<Rightarrow> event \<Rightarrow> client_link \<Rightarrow> client_link" where
  "client_on_event ok e l =
     (if e_sequence e > cl_last_delivered l then
        client_send ok (EventDelivery e) (l\<lparr>cl_last_delivered := e_sequence e\<rparr>)
      else l)"

fun client_resync :: "(nat \<Rightarrow> bool) \<Rightarrow> event list \<Rightarrow> client_link \<Rightarrow> client_link" where
  "client_resync ok [] l = l"
| "client_resync ok (e # missed) l =
     (if e_sequence e \<le> cl_last_delivered l then client_resync ok missed l
      else
        let l1 = l\<lparr>cl_last_delivered := e_sequence e\<rparr> in
        if ok 0 then client_resync (\<lambda>i. ok (Suc i)) missed (client_send True (EventDelivery e) l1)
        else client_close l1)"

definition client_on_lagged ::
  "'j codec \<Rightarrow> faults \<Rightarrow> (nat \<Rightarrow> bool) \<Rightarrow> nat \<Rightarrow> 'j hub_state \<Rightarrow> client_link \<Rightarrow> client_link" where
  "client_on_lagged c io ok pos' s l =
     (case events_after c io (cl_last_delivered l) (hs_hub s) of
        Inl _ \<Rightarrow> client_close l
      | Inr missed \<Rightarrow> client_resync ok missed (l\<lparr>cl_pos := pos'\<rparr>))"

definition client_on_command ::
  "'j codec \<Rightarrow> env \<Rightarrow> bool \<Rightarrow> client_command \<Rightarrow> 'j hub_state \<times> client_link \<Rightarrow> 'j hub_state \<times> client_link" where
  "client_on_command c v ok cmd sl =
     (case apply_command c v cmd (fst sl) of
        (eff, s1) \<Rightarrow>
          if ok then (route_dispatch eff s1, client_send True (x_receipt eff) (snd sl))
          else (s1, client_close (snd sl)))"

inductive client_step ::
  "'j codec \<Rightarrow> (faults \<Rightarrow> bool) \<Rightarrow> 'j hub_state \<times> client_link \<Rightarrow> 'j hub_state \<times> client_link \<Rightarrow> bool"
  for c P where
  cs_hub: "hs_step c P s s' \<Longrightarrow> client_step c P (s, l) (s', l)"
| cs_subscribe: "cl_open l \<Longrightarrow> \<not> cl_subscribed l \<Longrightarrow>
     client_step c P (s, l) (s, client_subscribe c io ok sub s l)"
| cs_command: "cl_open l \<Longrightarrow> cl_subscribed l \<Longrightarrow> env_ok P v \<Longrightarrow>
     client_step c P (s, l) (client_on_command c v ok1 cmd (s, l))"
| cs_event: "cl_open l \<Longrightarrow> cl_subscribed l \<Longrightarrow> cl_pos l < length (hs_events s) \<Longrightarrow>
     client_step c P (s, l)
       (s, client_on_event ok1 (hs_events s ! cl_pos l) (l\<lparr>cl_pos := Suc (cl_pos l)\<rparr>))"
| cs_lagged: "cl_open l \<Longrightarrow> cl_subscribed l \<Longrightarrow> cl_pos l \<le> pos' \<Longrightarrow> pos' \<le> length (hs_events s) \<Longrightarrow>
     client_step c P (s, l) (s, client_on_lagged c io ok pos' s l)"
| cs_tick: "cl_open l \<Longrightarrow> cl_subscribed l \<Longrightarrow>
     client_step c P (s, l) (s, client_send ok1 ClientHeartbeat l)"
| cs_drop: "client_step c P (s, l) (s, client_close l)"

subsection \<open>What the client has received\<close>

fun delivery :: "hub_to_client \<Rightarrow> event option" where
  "delivery (EventDelivery e) = Some e"
| "delivery _ = None"

definition delivered :: "client_link \<Rightarrow> event list" where
  "delivered l = List.map_filter delivery (cl_out l)"

lemma map_filter_append: "List.map_filter f (xs @ ys) = List.map_filter f xs @ List.map_filter f ys"
  by (simp add: List.map_filter_def)

lemma delivered_send [simp]:
  "delivered (client_send ok m l) = delivered l @ (if ok then List.map_filter delivery [m] else [])"
  by (simp add: delivered_def client_send_def client_close_def map_filter_append)

lemma delivered_simps [simp]:
  "delivered (l\<lparr>cl_pos := p\<rparr>) = delivered l"
  "delivered (l\<lparr>cl_last_delivered := q\<rparr>) = delivered l"
  "delivered (l\<lparr>cl_subscribed := b\<rparr>) = delivered l"
  "delivered (client_close l) = delivered l"
  by (simp_all add: delivered_def client_close_def)

lemma map_filter_delivery [simp]:
  "List.map_filter delivery [EventDelivery e] = [e]"
  "delivery m = None \<Longrightarrow> List.map_filter delivery [m] = []"
  "List.map_filter delivery (map EventDelivery es) = es"
  by (simp_all add: List.map_filter_def comp_def)

lemma send_all_cases:
  "\<exists>k. cl_out (client_send_all ok ms l) = cl_out l @ take k ms \<and>
     (cl_open (client_send_all ok ms l) \<longrightarrow> cl_open l \<and> k = length ms) \<and>
     cl_pos (client_send_all ok ms l) = cl_pos l"
proof (induction ms arbitrary: ok l)
  case Nil
  then show ?case by simp
next
  case (Cons m ms)
  show ?case
  proof (cases "ok 0")
    case True
    obtain k where "cl_out (client_send_all (\<lambda>i. ok (Suc i)) ms (client_send True m l))
        = cl_out (client_send True m l) @ take k ms"
      "cl_open (client_send_all (\<lambda>i. ok (Suc i)) ms (client_send True m l)) \<longrightarrow>
        cl_open (client_send True m l) \<and> k = length ms"
      "cl_pos (client_send_all (\<lambda>i. ok (Suc i)) ms (client_send True m l)) = cl_pos (client_send True m l)"
      using Cons.IH by blast
    then show ?thesis
      using True by (intro exI [of _ "Suc k"]) (simp add: client_send_def)
  next
    case False
    then show ?thesis by (intro exI [of _ 0]) (simp add: client_close_def)
  qed
qed

text \<open>\<open>ds\<close> is the stretch of the log from position \<open>k\<close> up to position \<open>n\<close>.\<close>

definition seg :: "event list \<Rightarrow> nat \<Rightarrow> event list \<Rightarrow> nat \<Rightarrow> bool" where
  "seg log k ds n \<longleftrightarrow> k \<le> n \<and> n \<le> length log \<and> ds = take (n - k) (drop k log)"

lemma seg_append: "seg log k ds n \<Longrightarrow> seg (log @ es) k ds n"
  by (auto simp: seg_def)

lemma seg_snoc: "seg log k ds n \<Longrightarrow> n < length log \<Longrightarrow> seg log k (ds @ [log ! n]) (Suc n)"
  by (auto simp: seg_def Suc_diff_le take_Suc_conv_app_nth)

lemma seg_split: "seg log k ds n \<Longrightarrow> log = take k log @ ds @ drop n log"
  by (auto simp: seg_def) (metis append_take_drop_id drop_drop le_add_diff_inverse2)

lemma seg_take:
  assumes "k = min m (length log)"
  shows "seg log k (take j (drop m log)) (min (k + j) (length log))"
proof (cases "m \<le> length log")
  case True
  then have "k = m" using assms by simp
  with True show ?thesis by (auto simp: seg_def min_def)
next
  case False
  then show ?thesis using assms by (simp add: seg_def)
qed

text \<open>
  The invariant: after the acknowledgement with cursor \<open>a\<close> and head \<open>head\<close>, what was delivered
  is a stretch of the log that starts at the cursor; an open link has delivered up to
  \<open>last_delivered\<close>, which is past everything the receiver has taken from the bus.
\<close>

definition start_at :: "int option \<Rightarrow> int \<Rightarrow> nat" where
  "start_at a head = min (nat (case a of Some n \<Rightarrow> n | None \<Rightarrow> 0)) (nat head)"

definition link_inv :: "event list \<Rightarrow> nat \<Rightarrow> client_link \<Rightarrow> bool" where
  "link_inv log n0 l \<longleftrightarrow>
     (\<not> cl_subscribed l \<longrightarrow> cl_out l = [] \<and> n0 + cl_pos l \<le> length log) \<and>
     (cl_subscribed l \<longrightarrow> cl_out l = [] \<and> \<not> cl_open l \<or>
       (\<exists>a head rest n. cl_out l = SubscribeAck a head # rest \<and>
          seg log (start_at a head) (delivered l) n \<and>
          (cl_open l \<longrightarrow> cl_last_delivered l = int n \<and> n0 + cl_pos l \<le> n)))"

lemma link_inv_more: "link_inv log n0 l \<Longrightarrow> link_inv (log @ es) n0 l"
  unfolding link_inv_def by (cases "cl_subscribed l") (simp_all, metis seg_append)

lemma link_inv_close: "link_inv log n0 l \<Longrightarrow> link_inv log n0 (client_close l)"
  by (auto simp: link_inv_def delivered_def client_close_def)

text \<open>A frame that is no delivery.\<close>

lemma link_inv_send:
  assumes "link_inv log n0 l" and "cl_open l" and "cl_subscribed l" and "delivery m = None"
  shows "link_inv log n0 (client_send ok m l)"
proof -
  obtain a head rest n where l: "cl_out l = SubscribeAck a head # rest"
      "seg log (start_at a head) (delivered l) n" "cl_last_delivered l = int n \<and> n0 + cl_pos l \<le> n"
    using assms(1-3) by (auto simp: link_inv_def)
  have "delivered (client_send ok m l) = delivered l" using assms(4) by simp
  then show ?thesis
    using l assms(2,3) unfolding link_inv_def by (auto simp: client_send_def client_close_def)
qed

subsection \<open>Deliveries keep the invariant\<close>

lemma filter_numbered_all:
  assumes "numbered f xs"
  shows "filter (\<lambda>x. f x > n) xs = drop (nat n) xs"
proof (cases "0 \<le> n")
  case True
  then show ?thesis by (rule filter_numbered [OF assms])
next
  case False
  have "f x \<ge> 1" if "x \<in> set xs" for x
    using numbered_image [OF assms] that by (metis atLeastAtMost_iff imageI)
  then show ?thesis using False by (fastforce intro: filter_True)
qed

lemma snapshot_log:
  assumes "log_inv c (hs_hub s)" and "snapshot c io after s = Inr (head, catch_up)"
  shows "head = int (length (event_log c (hs_hub s)))"
    and "catch_up = drop (nat after) (event_log c (hs_hub s))"
proof -
  let ?log = "event_log c (hs_hub s)"
  have io: "io S_SelectEvents = None"
    using assms(2) by (auto simp: snapshot_def events_after_def store_simps bind_res_eq_Inr)
  have num: "numbered e_sequence ?log" by (rule event_log_numbered [OF assms(1)])
  have "head = (if ?log = [] then 0 else e_sequence (last ?log))"
      and cu: "catch_up = filter (\<lambda>e. e_sequence e > after) ?log"
    using assms(2) events_after_log [OF assms(1), of 0 io] io by (auto simp: snapshot_def)
  moreover have "e_sequence (last ?log) = int (length ?log)" if "?log \<noteq> []"
    using numbered_nth [OF num, of "length ?log - 1"] that by (simp add: last_conv_nth)
  ultimately show "head = int (length ?log)" by auto
  show "catch_up = drop (nat after) ?log" unfolding cu by (rule filter_numbered_all [OF num])
qed

lemma subscribe_inv:
  assumes inv: "link_inv (event_log c (hs_hub s)) n0 l" and l: "cl_open l" "\<not> cl_subscribed l"
    and log: "log_inv c (hs_hub s)"
  shows "link_inv (event_log c (hs_hub s)) n0 (client_subscribe c io ok sub s l)"
proof (cases "accepts_client c (s_token sub) s")
  case False
  then show ?thesis using link_inv_close [OF inv] by (simp add: client_subscribe_def)
next
  case True
  let ?after = "case s_after_sequence sub of Some n \<Rightarrow> n | None \<Rightarrow> 0"
  let ?log = "event_log c (hs_hub s)"
  show ?thesis
  proof (cases "snapshot c io ?after s")
    case (Inl e)
    then show ?thesis using True link_inv_close [OF inv] by (simp add: client_subscribe_def)
  next
    case (Inr p)
    obtain head catch_up where p: "p = (head, catch_up)" by fastforce
    note snap = snapshot_log [OF log Inr [unfolded p]]
    let ?frames = "SubscribeAck (s_after_sequence sub) head # map EventDelivery catch_up"
    obtain k where k: "cl_out (client_send_all ok ?frames l) = cl_out l @ take k ?frames"
        "cl_open (client_send_all ok ?frames l) \<longrightarrow> k = length ?frames"
        "cl_pos (client_send_all ok ?frames l) = cl_pos l"
      using send_all_cases by blast
    let ?l = "(client_send_all ok ?frames l)\<lparr>cl_subscribed := True, cl_last_delivered := head\<rparr>"
    have res: "client_subscribe c io ok sub s l = ?l"
      using True Inr p by (simp add: client_subscribe_def Let_def)
    have out: "cl_out ?l = take k ?frames" using k(1) inv l(2) by (simp add: link_inv_def)
    show ?thesis
    proof (cases k)
      case 0
      then show ?thesis using k(2) out by (simp add: res link_inv_def)
    next
      case (Suc j)
      let ?n = "min (start_at (s_after_sequence sub) head + j) (length ?log)"
      have ds: "delivered ?l = take j (drop (nat ?after) ?log)"
        using arg_cong [OF out, of "List.map_filter delivery"] Suc
        by (simp add: delivered_def take_map snap(2) List.map_filter_simps del: client_send_all.simps)
      have "seg ?log (start_at (s_after_sequence sub) head) (delivered ?l) ?n"
        unfolding ds by (rule seg_take) (simp add: start_at_def snap(1))
      moreover have "cl_last_delivered ?l = int ?n \<and> n0 + cl_pos ?l \<le> ?n" if "cl_open ?l"
      proof -
        have "j = length catch_up" using k(2) Suc that by simp
        then have "?n = length ?log" using snap by (auto simp: start_at_def min_def)
        then show ?thesis using snap(1) k(3) inv l(2) by (simp add: link_inv_def)
      qed
      ultimately show ?thesis using out Suc by (auto simp: res link_inv_def)
    qed
  qed
qed

lemma on_event_inv:
  assumes inv: "link_inv log n0 l" and l: "cl_open l" "cl_subscribed l"
    and e: "n0 + cl_pos l < length log" "e = log ! (n0 + cl_pos l)" "e_sequence e = int (n0 + cl_pos l) + 1"
  shows "link_inv log n0 (client_on_event ok e (l\<lparr>cl_pos := Suc (cl_pos l)\<rparr>))"
proof -
  obtain a head rest n where o: "cl_out l = SubscribeAck a head # rest"
      and sg: "seg log (start_at a head) (delivered l) n"
      and n: "cl_last_delivered l = int n" "n0 + cl_pos l \<le> n"
    using inv l by (auto simp: link_inv_def)
  show ?thesis
  proof (cases "n = n0 + cl_pos l")
    case True
    have "seg log (start_at a head) (delivered l @ [e]) (Suc n)"
      using seg_snoc [OF sg] e(1,2) True by simp
    then show ?thesis
      using o n l sg True e(3)
      by (cases ok) (auto simp: link_inv_def client_on_event_def client_send_def client_close_def delivered_def
          map_filter_append)
  next
    case False
    then show ?thesis using o n l sg e(3) by (auto simp: link_inv_def client_on_event_def)
  qed
qed

lemma resync_inv:
  assumes "numbered e_sequence log" and "missed = drop n log" and "n \<le> length log"
    and "cl_out l = SubscribeAck a head # rest" and "cl_subscribed l" and "cl_open l"
    and "seg log (start_at a head) (delivered l) n"
    and "cl_last_delivered l = int n" and "n0 + cl_pos l \<le> length log"
  shows "link_inv log n0 (client_resync ok missed l)"
  using assms(2-)
proof (induction missed arbitrary: n l ok rest)
  case Nil
  then have "n = length log" by simp
  with Nil show ?case by (auto simp: link_inv_def)
next
  case (Cons e missed)
  have n: "n < length log" using Cons.prems(1) by (cases "n < length log") auto
  then have e: "e = log ! n" "missed = drop (Suc n) log"
    using Cons.prems(1) by (simp_all add: Cons_nth_drop_Suc [symmetric])
  have seq: "e_sequence e = int (Suc n)" using numbered_nth [OF assms(1) n] e(1) by simp
  have sg: "seg log (start_at a head) (delivered l @ [e]) (Suc n)"
    using seg_snoc [OF Cons.prems(6) n] e(1) by simp
  show ?case
  proof (cases "ok 0")
    case True
    let ?l = "client_send True (EventDelivery e) (l\<lparr>cl_last_delivered := e_sequence e\<rparr>)"
    have "link_inv log n0 (client_resync (\<lambda>i. ok (Suc i)) missed ?l)"
      by (rule Cons.IH [of "Suc n" _ "rest @ [EventDelivery e]"])
        (use Cons.prems e(2) n sg seq in \<open>simp_all add: client_send_def delivered_def map_filter_append\<close>)
    then show ?thesis using True seq Cons.prems(7) by (simp add: Let_def)
  next
    case False
    then have "client_resync ok (e # missed) l = client_close (l\<lparr>cl_last_delivered := e_sequence e\<rparr>)"
      using seq Cons.prems(7) by (simp add: Let_def)
    then show ?thesis
      using Cons.prems(3,4,6) by (auto simp: link_inv_def client_close_def delivered_def)
  qed
qed

lemma on_lagged_inv:
  assumes log: "log_inv c (hs_hub s)" and inv: "link_inv (event_log c (hs_hub s)) n0 l"
    and l: "cl_open l" "cl_subscribed l" and pos: "n0 + pos' \<le> length (event_log c (hs_hub s))"
  shows "link_inv (event_log c (hs_hub s)) n0 (client_on_lagged c io ok pos' s l)"
proof (cases "events_after c io (cl_last_delivered l) (hs_hub s)")
  case (Inl e)
  then show ?thesis using link_inv_close [OF inv] by (simp add: client_on_lagged_def)
next
  case (Inr missed)
  let ?log = "event_log c (hs_hub s)"
  obtain a head rest n where o: "cl_out l = SubscribeAck a head # rest"
      and sg: "seg ?log (start_at a head) (delivered l) n" and n: "cl_last_delivered l = int n"
    using inv l by (auto simp: link_inv_def)
  have "io S_SelectEvents = None" using Inr by (auto simp: events_after_def store_simps)
  then have "missed = drop n ?log"
    using events_after_log [OF log, of "int n" io] Inr n by simp
  then have "link_inv ?log n0 (client_resync ok missed (l\<lparr>cl_pos := pos'\<rparr>))"
    by (rule resync_inv [OF event_log_numbered [OF log]]) (use o sg n l pos in \<open>auto simp: seg_def\<close>)
  then show ?thesis using Inr by (simp add: client_on_lagged_def)
qed

subsection \<open>Runs of a link\<close>

lemma finish_no_delivery: "delivery (x_receipt (fst (finish_with_entity c v cid d dp entity s))) = None"
  by (auto simp: finish_with_entity_def accepted_def split: prod.splits sum.splits)

lemma branch_no_delivery: "delivery (x_receipt (fst (apply_branch c v reserved cmd s))) = None"
proof (cases cmd)
  case (StartRun id tid target engine model effort prompt policy path)
  show ?thesis
    unfolding StartRun apply_branch.simps apply_start_run_def Let_def
    by (simp add: case_prod_beta finish_no_delivery reject_effect_def rejected_def split: sum.splits)
qed (auto simp: apply_create_task_def apply_send_user_message_def apply_interrupt_run_def
    apply_resolve_approval_def finish_def finish_no_delivery reject_effect_def rejected_def Let_def
    split: prod.splits sum.splits if_splits)

lemma receipt_no_delivery: "apply_command c v cmd s = (eff, s') \<Longrightarrow> delivery (x_receipt eff) = None"
  using branch_no_delivery [of c v None cmd s]
  by (auto simp: apply_command_def apply_command_inner_def accepted_def split: sum.splits option.splits)

text \<open>The state of the hub and the link together, over a hub that started at \<open>s0\<close>.\<close>

definition linked :: "'j codec \<Rightarrow> (faults \<Rightarrow> bool) \<Rightarrow> 'j hub_state \<Rightarrow> 'j hub_state \<times> client_link \<Rightarrow> bool" where
  "linked c P s0 sl \<longleftrightarrow>
     hs_reachable c P s0 (fst sl) \<and>
     link_inv (event_log c (hs_hub (fst sl))) (length (event_log c (hs_hub s0))) (snd sl)"

lemma hs_reachable_step: "hs_reachable c P s0 s \<Longrightarrow> hs_step c P s s' \<Longrightarrow> hs_reachable c P s0 s'"
  by (auto simp: hs_reachable_def)

lemma hs_reachable_grows:
  assumes "hs_reachable c P s0 s" and "codec_ok c" and "hs_step c P s s'"
  shows "\<exists>es. event_log c (hs_hub s') = event_log c (hs_hub s) @ es"
proof -
  have "durable_inv c (hs_hub s)"
    using hub_reachable_inv(1) [OF hs_reachable_hub [OF assms(1)] assms(2)] .
  moreover have "(hub_step c)\<^sup>*\<^sup>* (hs_hub s) (hs_hub s')"
    using hs_step_rel [OF assms(3)] by (simp add: hs_rel_def)
  ultimately show ?thesis using command_log.steps_log by blast
qed

lemma linked_hub:
  assumes "linked c P s0 (s, l)" and "codec_ok c" and "hs_step c P s s'"
  shows "linked c P s0 (s', l)"
  using assms hs_reachable_grows [of c P s0 s s'] link_inv_more
  by (auto simp: linked_def intro: hs_reachable_step)

lemma linked_command:
  assumes lk: "linked c P s0 (s, l)" and "codec_ok c" and "env_ok P v" and l: "cl_open l" "cl_subscribed l"
  shows "linked c P s0 (client_on_command c v ok cmd (s, l))"
proof -
  obtain eff s1 where app: "apply_command c v cmd s = (eff, s1)" by fastforce
  have lk1: "linked c P s0 (s1, l)"
    by (rule linked_hub [OF lk assms(2)]) (rule hs_step.hs_apply [OF assms(3) app])
  have lk2: "linked c P s0 (route_dispatch eff s1, l)"
  proof (cases "x_dispatch eff")
    case None
    then show ?thesis using lk1 by (simp add: route_dispatch_def)
  next
    case (Some p)
    then obtain node work where p: "x_dispatch eff = Some (node, work)" by (cases p) auto
    have "hs_step c P s1 (snd (route_to_node node work s1))"
      by (rule hs_step.hs_route [of node work _ "fst (route_to_node node work s1)"]) simp
    then show ?thesis using linked_hub [OF lk1 assms(2)] p by (simp add: route_dispatch_def)
  qed
  have quiet: "delivery (x_receipt eff) = None"
    by (rule receipt_no_delivery [OF app])
  show ?thesis
    using lk1 lk2 l link_inv_close link_inv_send [OF _ l quiet, of _ _ True]
    by (simp add: client_on_command_def app linked_def)
qed

lemma linked_log:
  assumes "hs_reachable c P s0 s" and "codec_ok c" and "reads_succeed P"
  shows "log_inv c (hs_hub s)" and "event_log c (hs_hub s) = event_log c (hs_hub s0) @ hs_events s"
  using hub_reachable_inv(1) [OF hs_reachable_hub [OF assms(1)] assms(2)] hs_reachable_bus [OF assms]
  by (auto simp: durable_inv_def)

lemma linked_step:
  assumes "client_step c P sl sl'" and "linked c P s0 sl" and "codec_ok c" and "reads_succeed P"
  shows "linked c P s0 sl'"
  using assms(1,2)
proof (induction rule: client_step.induct)
  case (cs_hub s s' l)
  then show ?case using linked_hub assms(3) by blast
next
  case (cs_subscribe l s io ok sub)
  have "log_inv c (hs_hub s)"
    using cs_subscribe(3) hub_reachable_inv(1) [OF hs_reachable_hub assms(3)]
    by (auto simp: linked_def durable_inv_def)
  then show ?case using cs_subscribe by (simp add: linked_def) (blast intro: subscribe_inv)
next
  case (cs_command l v s ok1 cmd)
  then show ?case using linked_command assms(3) by blast
next
  case (cs_event l s ok1)
  let ?log = "event_log c (hs_hub s)" and ?base = "event_log c (hs_hub s0)"
  have reach: "hs_reachable c P s0 s" using cs_event(4) by (simp add: linked_def)
  note inv = linked_log(1) [OF reach assms(3,4)] and log = linked_log(2) [OF reach assms(3,4)]
  have e: "hs_events s ! cl_pos l = ?log ! (length ?base + cl_pos l)"
      "length ?base + cl_pos l < length ?log"
    using cs_event(3) by (simp_all add: log nth_append)
  moreover have "e_sequence (hs_events s ! cl_pos l) = int (length ?base + cl_pos l) + 1"
    using numbered_nth [OF event_log_numbered [OF inv] e(2)] e(1) by simp
  ultimately show ?case
    using cs_event on_event_inv [of ?log "length ?base" l "hs_events s ! cl_pos l" ok1]
    by (simp add: linked_def)
next
  case (cs_lagged l pos' s io ok)
  have reach: "hs_reachable c P s0 s" using cs_lagged(5) by (simp add: linked_def)
  note linked_log [OF reach assms(3,4)]
  then show ?case
    using cs_lagged on_lagged_inv [of c s "length (event_log c (hs_hub s0))" l pos' io ok]
    by (simp add: linked_def)
next
  case (cs_tick l s ok1)
  then show ?case using link_inv_send by (simp add: linked_def)
next
  case (cs_drop s l)
  then show ?case using link_inv_close by (simp add: linked_def)
qed

lemma linked_steps:
  "(client_step c P)\<^sup>*\<^sup>* sl sl' \<Longrightarrow> linked c P s0 sl \<Longrightarrow> codec_ok c \<Longrightarrow> reads_succeed P \<Longrightarrow>
     linked c P s0 sl'"
  by (induction rule: rtranclp_induct) (auto intro: linked_step)

lemma linked_connect:
  assumes "hs_reachable c P s0 s" and "codec_ok c" and "reads_succeed P"
  shows "linked c P s0 (s, client_connect s)"
  using hs_reachable_bus [OF assms] assms(1)
  by (auto simp: linked_def link_inv_def client_connect_def delivered_def)

subsection \<open>Order, whatever fails\<close>

lemma numbered_increasing:
  assumes "numbered f xs"
  shows "sorted_wrt (<) (map f xs)"
  unfolding sorted_wrt_iff_nth_less using numbered_nth [OF assms] by simp

lemma subseq_sorted:
  fixes f :: "'a \<Rightarrow> 'b::linorder"
  assumes "sorted_wrt (<) (map f xs)" and "sorted_wrt (<) (map f ds)" and "set ds \<subseteq> set xs"
  shows "subseq ds xs"
  using assms
proof (induction xs arbitrary: ds)
  case (Cons x xs)
  show ?case
  proof (cases ds)
    case ds: (Cons d ds')
    show ?thesis
    proof (cases "d = x")
      case True
      have "x \<notin> set ds'" using Cons.prems(2) ds True by auto
      then have "subseq ds' xs" using Cons ds by (intro Cons.IH) auto
      then show ?thesis using ds True by simp
    next
      case False
      then have "d \<in> set xs" using Cons.prems(3) ds by auto
      then have "f x < f d" using Cons.prems(1) by auto
      then have "x \<notin> set ds" using Cons.prems(2) ds by auto
      then have "subseq ds xs" using Cons by (intro Cons.IH) auto
      then show ?thesis by (rule list_emb_Cons)
    qed
  qed simp
qed simp

lemma set_subseq: "subseq xs ys \<Longrightarrow> set xs \<subseteq> set ys"
  by (induction rule: list_emb.induct) auto

lemma in_tail:
  assumes "numbered f xs" and "x \<in> set xs" and "int k < f x"
  shows "x \<in> set (drop k xs)"
proof -
  obtain i where i: "i < length xs" "x = xs ! i" using assms(2) by (auto simp: in_set_conv_nth)
  then have "f x = int i + 1" using numbered_nth [OF assms(1)] by simp
  then have "k \<le> i" using assms(3) by simp
  with i show ?thesis by (auto simp: in_set_conv_nth intro!: exI [of _ "i - k"])
qed

text \<open>What was delivered is in increasing order and from the log behind the cursor.\<close>

definition ordered_inv :: "event list \<Rightarrow> client_link \<Rightarrow> bool" where
  "ordered_inv log l \<longleftrightarrow>
     (\<not> cl_subscribed l \<longrightarrow> cl_out l = []) \<and>
     (cl_subscribed l \<longrightarrow> cl_out l = [] \<and> \<not> cl_open l \<or>
       (\<exists>a head rest. cl_out l = SubscribeAck a head # rest \<and>
          int (start_at a head) \<le> cl_last_delivered l \<and>
          sorted_wrt (<) (map e_sequence (delivered l)) \<and>
          set (delivered l) \<subseteq> set (drop (start_at a head) log) \<and>
          (\<forall>e \<in> set (delivered l). e_sequence e \<le> cl_last_delivered l)))"

lemma set_drop_more: "set (drop n xs) \<subseteq> set (drop n (xs @ ys))"
  by auto

lemma ordered_more: "ordered_inv log l \<Longrightarrow> ordered_inv (log @ es) l"
  unfolding ordered_inv_def using set_drop_more by (cases "cl_subscribed l") (simp_all, blast)

lemma ordered_close: "ordered_inv log l \<Longrightarrow> ordered_inv log (client_close l)"
  by (auto simp: ordered_inv_def delivered_def client_close_def)

lemma ordered_send:
  assumes "ordered_inv log l" and "cl_open l" and "cl_subscribed l" and "delivery m = None"
  shows "ordered_inv log (client_send ok m l)"
proof -
  have "delivered (client_send ok m l) = delivered l" using assms(4) by simp
  then show ?thesis
    using assms unfolding ordered_inv_def by (auto simp: client_send_def client_close_def)
qed

lemma ordered_deliver:
  assumes "numbered e_sequence log" and "ordered_inv log l" and "cl_open l" and "cl_subscribed l"
    and "e \<in> set log" and "cl_last_delivered l < e_sequence e"
  shows "ordered_inv log (client_send ok (EventDelivery e) (l\<lparr>cl_last_delivered := e_sequence e\<rparr>))"
proof -
  obtain a head rest where o: "cl_out l = SubscribeAck a head # rest" "int (start_at a head) \<le> cl_last_delivered l"
      "sorted_wrt (<) (map e_sequence (delivered l))" "set (delivered l) \<subseteq> set (drop (start_at a head) log)"
      "\<forall>e \<in> set (delivered l). e_sequence e \<le> cl_last_delivered l"
    using assms(2-4) by (auto simp: ordered_inv_def)
  have "e \<in> set (drop (start_at a head) log)"
    by (rule in_tail [OF assms(1,5)]) (use o(2) assms(6) in simp)
  then have next_event: "delivered (l\<lparr>cl_out := cl_out l @ [EventDelivery e], cl_last_delivered := e_sequence e\<rparr>) = delivered l @ [e]"
      "sorted_wrt (<) (map e_sequence (delivered l @ [e]))" "set (delivered l @ [e]) \<subseteq> set (drop (start_at a head) log)"
    using o assms(6) by (auto simp: delivered_def map_filter_append sorted_wrt_append)
  show ?thesis
  proof (cases ok)
    case True
    then show ?thesis
      using o next_event assms(4,6)
      unfolding ordered_inv_def client_send_def by (fastforce simp: delivered_def)
  next
    case False
    then show ?thesis
      using o assms(4,6) unfolding ordered_inv_def client_send_def client_close_def by (fastforce simp: delivered_def)
  qed
qed

lemma ordered_resync:
  assumes "numbered e_sequence log" and "set missed \<subseteq> set log"
    and "ordered_inv log l" and "cl_open l" and "cl_subscribed l"
  shows "ordered_inv log (client_resync ok missed l)"
  using assms(2-)
proof (induction missed arbitrary: ok l)
  case (Cons e missed)
  show ?case
  proof (cases "e_sequence e \<le> cl_last_delivered l")
    case True
    then show ?thesis using Cons by simp
  next
    case False
    let ?l = "client_send (ok 0) (EventDelivery e) (l\<lparr>cl_last_delivered := e_sequence e\<rparr>)"
    have sent: "ordered_inv log ?l"
      by (rule ordered_deliver [OF assms(1)]) (use Cons.prems False in auto)
    show ?thesis
    proof (cases "ok 0")
      case True
      then have "ordered_inv log (client_resync (\<lambda>i. ok (Suc i)) missed ?l)"
        using Cons.prems sent by (intro Cons.IH) (auto simp: client_send_def)
      then show ?thesis using True False by (simp add: Let_def)
    next
      case fails: False
      then show ?thesis using sent False by (simp add: Let_def client_send_def)
    qed
  qed
qed simp

lemma ordered_subscribe:
  assumes inv: "ordered_inv (event_log c (hs_hub s)) l" and l: "cl_open l" "\<not> cl_subscribed l"
    and log: "log_inv c (hs_hub s)"
  shows "ordered_inv (event_log c (hs_hub s)) (client_subscribe c io ok sub s l)"
proof (cases "accepts_client c (s_token sub) s")
  case False
  then show ?thesis using ordered_close [OF inv] by (simp add: client_subscribe_def)
next
  case True
  let ?after = "case s_after_sequence sub of Some n \<Rightarrow> n | None \<Rightarrow> 0"
  let ?log = "event_log c (hs_hub s)"
  show ?thesis
  proof (cases "snapshot c io ?after s")
    case (Inl e)
    then show ?thesis using True ordered_close [OF inv] by (simp add: client_subscribe_def)
  next
    case (Inr p)
    obtain head catch_up where p: "p = (head, catch_up)" by fastforce
    note snap = snapshot_log [OF log Inr [unfolded p]]
    let ?frames = "SubscribeAck (s_after_sequence sub) head # map EventDelivery catch_up"
    obtain k where k: "cl_out (client_send_all ok ?frames l) = cl_out l @ take k ?frames"
        "cl_open (client_send_all ok ?frames l) \<longrightarrow> k = length ?frames"
      using send_all_cases by blast
    let ?l = "(client_send_all ok ?frames l)\<lparr>cl_subscribed := True, cl_last_delivered := head\<rparr>"
    have res: "client_subscribe c io ok sub s l = ?l"
      using True Inr p by (simp add: client_subscribe_def Let_def)
    have out: "cl_out ?l = take k ?frames" using k(1) inv l(2) by (simp add: ordered_inv_def)
    show ?thesis
    proof (cases k)
      case 0
      then show ?thesis using k(2) out by (simp add: res ordered_inv_def)
    next
      case (Suc j)
      have ds: "delivered ?l = take j (drop (nat ?after) ?log)"
        using arg_cong [OF out, of "List.map_filter delivery"] Suc
        by (simp add: delivered_def take_map snap(2) List.map_filter_simps del: client_send_all.simps)
      have num: "numbered e_sequence ?log" by (rule event_log_numbered [OF log])
      have "sorted_wrt (<) (map e_sequence (delivered ?l))"
        using numbered_increasing [OF num] unfolding ds
        by (simp add: take_map [symmetric] drop_map [symmetric] sorted_wrt_take sorted_wrt_drop)
      moreover have "set (delivered ?l) \<subseteq> set (drop (start_at (s_after_sequence sub) head) ?log)"
        using set_take_subset set_drop_subset_set_drop [of "start_at (s_after_sequence sub) head" "nat ?after" ?log]
        unfolding ds start_at_def by fastforce
      moreover have "e_sequence e \<le> head" if "e \<in> set (delivered ?l)" for e
      proof -
        have "e \<in> set (take j (drop (nat ?after) ?log))" using that unfolding ds .
        then have "e \<in> set ?log" by (rule in_set_dropD [OF in_set_takeD])
        then obtain i where "i < length ?log" "e = ?log ! i" by (auto simp: in_set_conv_nth)
        then show ?thesis using numbered_nth [OF num] snap(1) by simp
      qed
      ultimately show ?thesis
        using out Suc snap(1) by (auto simp: res ordered_inv_def start_at_def)
    qed
  qed
qed

definition ordered_link :: "'j codec \<Rightarrow> (faults \<Rightarrow> bool) \<Rightarrow> 'j hub_state \<Rightarrow> 'j hub_state \<times> client_link \<Rightarrow> bool" where
  "ordered_link c P s0 sl \<longleftrightarrow> hs_reachable c P s0 (fst sl) \<and> ordered_inv (event_log c (hs_hub (fst sl))) (snd sl)"

lemma ordered_hub:
  assumes "ordered_link c P s0 (s, l)" and "codec_ok c" and "hs_step c P s s'"
  shows "ordered_link c P s0 (s', l)"
  using assms hs_reachable_grows [of c P s0 s s'] ordered_more
  by (auto simp: ordered_link_def intro: hs_reachable_step)

lemma ordered_command:
  assumes lk: "ordered_link c P s0 (s, l)" and "codec_ok c" and "env_ok P v" and l: "cl_open l" "cl_subscribed l"
  shows "ordered_link c P s0 (client_on_command c v ok cmd (s, l))"
proof -
  obtain eff s1 where app: "apply_command c v cmd s = (eff, s1)" by fastforce
  have lk1: "ordered_link c P s0 (s1, l)"
    by (rule ordered_hub [OF lk assms(2)]) (rule hs_step.hs_apply [OF assms(3) app])
  have lk2: "ordered_link c P s0 (route_dispatch eff s1, l)"
  proof (cases "x_dispatch eff")
    case None
    then show ?thesis using lk1 by (simp add: route_dispatch_def)
  next
    case (Some p)
    then obtain node work where p: "x_dispatch eff = Some (node, work)" by (cases p) auto
    have "hs_step c P s1 (snd (route_to_node node work s1))"
      by (rule hs_step.hs_route [of node work _ "fst (route_to_node node work s1)"]) simp
    then show ?thesis using ordered_hub [OF lk1 assms(2)] p by (simp add: route_dispatch_def)
  qed
  have quiet: "delivery (x_receipt eff) = None"
    by (rule receipt_no_delivery [OF app])
  show ?thesis
    using lk1 lk2 l ordered_close ordered_send [OF _ l quiet, of _ True]
    by (simp add: client_on_command_def app ordered_link_def)
qed

lemma ordered_step:
  assumes "client_step c P sl sl'" and "ordered_link c P s0 sl" and "codec_ok c"
  shows "ordered_link c P s0 sl'"
proof -
  have inv: "log_inv c (hs_hub s)" "numbered e_sequence (event_log c (hs_hub s))"
    "set (hs_events s) \<subseteq> set (event_log c (hs_hub s))" if "hs_reachable c P s0 s" for s
  proof -
    show log: "log_inv c (hs_hub s)"
      using hub_reachable_inv(1) [OF hs_reachable_hub [OF that] assms(3)] by (simp add: durable_inv_def)
    show "numbered e_sequence (event_log c (hs_hub s))" by (rule event_log_numbered [OF log])
    show "set (hs_events s) \<subseteq> set (event_log c (hs_hub s))"
      using hs_reachable_subseq [OF that assms(3)] set_subseq by fastforce
  qed
  show ?thesis
    using assms(1,2)
  proof (induction rule: client_step.induct)
    case (cs_hub s s' l)
    then show ?case using ordered_hub assms(3) by blast
  next
    case (cs_subscribe l s io ok sub)
    then show ?case using inv(1) by (simp add: ordered_link_def) (blast intro: ordered_subscribe)
  next
    case (cs_command l v s ok1 cmd)
    then show ?case using ordered_command assms(3) by blast
  next
    case (cs_event l s ok1)
    let ?e = "hs_events s ! cl_pos l" and ?l = "l\<lparr>cl_pos := Suc (cl_pos l)\<rparr>"
    have reach: "hs_reachable c P s0 s" and before: "ordered_inv (event_log c (hs_hub s)) ?l"
      using cs_event(4) by (simp_all add: ordered_link_def ordered_inv_def)
    have "?e \<in> set (event_log c (hs_hub s))" using inv(3) [OF reach] cs_event(3) nth_mem by blast
    then show ?case
      using ordered_deliver [OF inv(2) [OF reach] before] before cs_event(1,2) reach
      by (simp add: ordered_link_def client_on_event_def)
  next
    case (cs_lagged l pos' s io ok)
    have reach: "hs_reachable c P s0 s" and before: "ordered_inv (event_log c (hs_hub s)) (l\<lparr>cl_pos := pos'\<rparr>)"
      using cs_lagged(5) by (simp_all add: ordered_link_def ordered_inv_def)
    show ?case
    proof (cases "events_after c io (cl_last_delivered l) (hs_hub s)")
      case (Inl e)
      then show ?thesis using cs_lagged(5) ordered_close by (simp add: ordered_link_def client_on_lagged_def)
    next
      case (Inr missed)
      have "0 \<le> cl_last_delivered l" using before cs_lagged(1,2) by (auto simp: ordered_inv_def)
      moreover have "io S_SelectEvents = None" using Inr by (auto simp: events_after_def store_simps)
      ultimately have "missed = drop (nat (cl_last_delivered l)) (event_log c (hs_hub s))"
        using events_after_log [OF inv(1) [OF reach]] Inr by simp
      then have "set missed \<subseteq> set (event_log c (hs_hub s))" by (simp add: set_drop_subset)
      then show ?thesis
        using ordered_resync [OF inv(2) [OF reach] _ before, of missed ok] Inr cs_lagged(1,2) reach
        by (simp add: ordered_link_def client_on_lagged_def)
    qed
  next
    case (cs_tick l s ok1)
    then show ?case using ordered_send by (simp add: ordered_link_def)
  next
    case (cs_drop s l)
    then show ?case using ordered_close by (simp add: ordered_link_def)
  qed
qed

lemma ordered_steps:
  "(client_step c P)\<^sup>*\<^sup>* sl sl' \<Longrightarrow> ordered_link c P s0 sl \<Longrightarrow> codec_ok c \<Longrightarrow> ordered_link c P s0 sl'"
  by (induction rule: rtranclp_induct) (auto intro: ordered_step)

text \<open>C2: what a subscribed client receives, over any interleaving of hub activity, live delivery, bus
  overflow with resynchronization, and failing statements and sends, is a subsequence of the durable log
  behind the cursor it sent (or behind the head, for a cursor beyond it): no event is invented, repeated,
  reordered or older than the cursor. As long as the read behind an append succeeds it is a stretch without
  a gap, and a link that is still open and has emptied its bus receiver has received everything there is.
  (When that read fails, the event is missing from the live stream until the link resynchronizes.)\<close>

theorem client_stream_gapless:
  assumes "codec_ok c" and "hs_reachable c P s0 s"
    and "(client_step c P)\<^sup>*\<^sup>* (s, client_connect s) (s', l)"
    and "cl_out l = SubscribeAck a head # frames"
  shows "subseq (delivered l) (drop (start_at a head) (event_log c (hs_hub s')))
    \<and> (reads_succeed P \<longrightarrow>
        (\<exists>rest. event_log c (hs_hub s') = take (start_at a head) (event_log c (hs_hub s')) @ delivered l @ rest
          \<and> (cl_open l \<and> cl_pos l = length (hs_events s') \<longrightarrow> rest = [])))"
proof -
  have "ordered_link c P s0 (s, client_connect s)"
    using assms(2) by (simp add: ordered_link_def ordered_inv_def client_connect_def)
  then have ol: "ordered_link c P s0 (s', l)" by (rule ordered_steps [OF assms(3) _ assms(1)])
  then have "numbered e_sequence (event_log c (hs_hub s'))"
    using hub_reachable_inv(1) [OF hs_reachable_hub assms(1)]
    by (auto simp: ordered_link_def durable_inv_def intro: event_log_numbered)
  then have "sorted_wrt (<) (map e_sequence (drop (start_at a head) (event_log c (hs_hub s'))))"
    using numbered_increasing by (auto simp: drop_map [symmetric] intro: sorted_wrt_drop)
  then have order: "subseq (delivered l) (drop (start_at a head) (event_log c (hs_hub s')))"
    by (rule subseq_sorted) (use ol assms(4) in \<open>auto simp: ordered_link_def ordered_inv_def\<close>)
  have "\<exists>rest. event_log c (hs_hub s') = take (start_at a head) (event_log c (hs_hub s')) @ delivered l @ rest
      \<and> (cl_open l \<and> cl_pos l = length (hs_events s') \<longrightarrow> rest = [])" if reads: "reads_succeed P"
  proof -
    have lk: "linked c P s0 (s', l)"
      using linked_steps [OF assms(3) linked_connect [OF assms(2,1) reads] assms(1) reads] .
    then have log: "event_log c (hs_hub s') = event_log c (hs_hub s0) @ hs_events s'"
      using hs_reachable_bus [OF _ assms(1) reads] by (auto simp: linked_def)
    have "cl_subscribed l" using lk assms(4) by (auto simp: linked_def link_inv_def)
    then obtain n where n: "seg (event_log c (hs_hub s')) (start_at a head) (delivered l) n"
        and op: "cl_open l \<Longrightarrow> length (event_log c (hs_hub s0)) + cl_pos l \<le> n"
      using lk assms(4) by (auto simp: linked_def link_inv_def)
    have "drop n (event_log c (hs_hub s')) = []" if "cl_open l" "cl_pos l = length (hs_events s')"
      using op [OF that(1)] that(2) log n by (auto simp: seg_def)
    then show ?thesis using seg_split [OF n] by blast
  qed
  with order show ?thesis by blast
qed

lemma send_all_True: "client_send_all (\<lambda>_. True) ms l = l\<lparr>cl_out := cl_out l @ ms\<rparr>"
  by (induction ms arbitrary: l) (simp_all add: client_send_def)

theorem client_stream_gapless_witness:
  "\<exists>s l e. (client_step plain_codec (\<lambda>io. io = no_faults))\<^sup>*\<^sup>* (s, client_connect s) (s, l)
    \<and> cl_out l = [SubscribeAck None 1, EventDelivery e]
    \<and> (\<exists>rest. event_log plain_codec (hs_hub s) = delivered l @ rest)"
proof -
  obtain eff s where first: "apply_command plain_codec demo_env (CreateTask (CommandId 7) ''demo'') demo_hub
      = (eff, s)" "x_receipt eff = accepted (CommandId 7) 1 (EventId 1)"
    using demo_create by blast
  let ?P = "\<lambda>io. io = no_faults"
  have reads: "reads_succeed ?P" by (simp add: reads_succeed_def no_faults_def)
  have reach: "hs_reachable plain_codec ?P demo_hub s"
    using demo_hub_reachable hs_step.hs_apply [OF demo_env_ok first(1)] by (auto simp: hs_reachable_def)
  obtain e where log: "event_log plain_codec (hs_hub s) = [e]"
    using demo_create_log [OF first] by blast
  have snap: "snapshot plain_codec no_faults 0 s = Inr (1, [e])"
    using events_after_log [OF linked_log(1) [OF reach plain_codec_ok reads], of 0 no_faults]
      event_log_numbered [OF linked_log(1) [OF reach plain_codec_ok reads]]
    by (simp add: snapshot_def log no_faults_def numbered_def)
  let ?sub = "\<lparr>s_token = None, s_after_sequence = None\<rparr>"
  let ?l = "client_subscribe plain_codec no_faults (\<lambda>_. True) ?sub s (client_connect s)"
  have sec: "client_secret s = []"
    using hs_steps_rel [of plain_codec ?P demo_hub s] reach
    by (simp add: hs_reachable_def hs_rel_def demo_hub_def from_hub_def)
  have step: "client_step plain_codec ?P (s, client_connect s) (s, ?l)"
    by (rule client_step.cs_subscribe) (simp_all add: client_connect_def)
  have out: "cl_out ?l = SubscribeAck None 1 # [EventDelivery e]"
    using sec by (simp add: client_subscribe_def accepts_client_def snap send_all_True client_connect_def
        del: client_send_all.simps)
  have steps: "(client_step plain_codec ?P)\<^sup>*\<^sup>* (s, client_connect s) (s, ?l)" using step by blast
  have "\<exists>rest. event_log plain_codec (hs_hub s) = delivered ?l @ rest"
    using client_stream_gapless [OF plain_codec_ok reach steps out] reads by (auto simp: start_at_def)
  with steps out show ?thesis by blast
qed

end
