(* ===== verification/F64.thy ===== *)
theory F64
  imports Complex_Main Prelude
begin

text \<open>
  Finite \<open>f64\<close> values as reals. Every arithmetic operation of the sources is the exact
  operation followed by \<open>rnd\<close>, the rounding to the nearest double, which the definitions take
  as an argument. \<open>f64_rounding\<close> is what IEEE 754 says of it on nonnegative results that do not
  overflow: a relative error of at most \<open>2^-53\<close> in the normal range, and no error on multiples
  of the smallest double below it. Every double is such a multiple (\<open>finite_f64\<close>), and so is
  every difference of two of them.
\<close>

definition f64_range :: "real \<Rightarrow> bool" where
  "f64_range x \<longleftrightarrow> 0 \<le> x \<and> x \<le> 2 * 2 ^ 1022 \<and> (1 / 2 ^ 1022 \<le> x \<or> x * 2 ^ 1074 \<in> \<int>)"

definition f64_rounding :: "(real \<Rightarrow> real) \<Rightarrow> bool" where
  "f64_rounding rnd \<longleftrightarrow> (\<forall>x. f64_range x \<longrightarrow> \<bar>rnd x - x\<bar> \<le> x / 2 ^ 53)"

definition finite_f64 :: "real \<Rightarrow> bool" where
  "finite_f64 x \<longleftrightarrow> x * 2 ^ 1074 \<in> \<int> \<and> \<bar>x\<bar> \<le> 2 ^ 1022"

lemma f64_range_0: "f64_range 0"
  unfolding f64_range_def by simp

lemma f64_range_normal:
  assumes "1 / 2 ^ 100 \<le> x" and "x \<le> 2 ^ 100"
  shows "f64_range x"
proof -
  have "1 / 2 ^ 1022 \<le> (1 / 2 ^ 100 :: real)" by (intro divide_left_mono power_increasing) simp_all
  then have lo: "1 / 2 ^ 1022 \<le> x" using assms(1) by (rule order_trans)
  have "(2 :: real) ^ 100 \<le> 2 ^ 1022" by (intro power_increasing) simp_all
  also have "\<dots> \<le> 2 * 2 ^ 1022" using zero_le_power [of "2 :: real" 1022] by (simp only: mult_2) linarith
  finally have hi: "x \<le> 2 * 2 ^ 1022" using assms(2) by (rule order_trans [rotated])
  have "0 \<le> x" by (rule order_trans [OF _ assms(1)]) (intro divide_nonneg_nonneg zero_le_power; rule zero_le_one zero_le_numeral)
  with lo hi show ?thesis unfolding f64_range_def by blast
qed

lemma finite_f64_int:
  assumes "\<bar>k\<bar> \<le> 2 ^ 100"
  shows "finite_f64 (of_int k)"
proof -
  have "\<bar>of_int k\<bar> \<le> (2 ^ 100 :: real)" using assms by (metis of_int_abs of_int_le_numeral_power_cancel_iff)
  also have "\<dots> \<le> 2 ^ 1022" by (intro power_increasing) simp_all
  finally have "\<bar>of_int k\<bar> \<le> (2 ^ 1022 :: real)" .
  moreover have "of_int k * (2 :: real) ^ 1074 \<in> \<int>" by (intro Ints_mult Ints_power Ints_of_int Ints_numeral)
  ultimately show ?thesis unfolding finite_f64_def by blast
qed

lemma f64_range_diff:
  assumes "finite_f64 x" and "finite_f64 y" and "x \<le> y"
  shows "f64_range (y - x)"
proof -
  have "y * 2 ^ 1074 - x * 2 ^ 1074 \<in> \<int>" by (rule Ints_diff; use assms in \<open>unfold finite_f64_def, blast\<close>)
  then have "(y - x) * 2 ^ 1074 \<in> \<int>" by (simp only: left_diff_distrib)
  moreover have "y - x \<le> 2 ^ 1022 + 2 ^ 1022" using assms unfolding finite_f64_def by linarith
  then have "y - x \<le> 2 * 2 ^ 1022" by (simp only: mult_2)
  moreover have "0 \<le> y - x" using assms(3) by linarith
  ultimately show ?thesis unfolding f64_range_def by blast
qed

lemma rounded_le:
  assumes "f64_rounding rnd" and "f64_range x" and "x \<le> b"
  shows "0 \<le> rnd x" and "rnd x \<le> b * (1 + 1 / 2 ^ 53)" and "x / 2 \<le> rnd x"
proof -
  have d: "\<bar>rnd x - x\<bar> \<le> x / 2 ^ 53" using assms(1,2) unfolding f64_rounding_def by blast
  have x: "0 \<le> x" using assms(2) unfolding f64_range_def by blast
  then have "x / 2 ^ 53 \<le> x / 2" by simp
  then show "x / 2 \<le> rnd x" "0 \<le> rnd x" using d x by linarith+
  have "rnd x \<le> x + x / 2 ^ 53" using d by linarith
  also have "\<dots> = x * (1 + 1 / 2 ^ 53)" by (simp add: field_simps)
  also have "\<dots> \<le> b * (1 + 1 / 2 ^ 53)" using assms(3) by (rule mult_right_mono) simp
  finally show "rnd x \<le> b * (1 + 1 / 2 ^ 53)" .
qed

lemma rounding_id: "f64_rounding id"
  unfolding f64_rounding_def f64_range_def by simp

text \<open>Where infinities and NaN can occur, a value is one of these; both zeros are \<open>Finite 0\<close>.
  The flag of an infinity says that it is negative.\<close>

datatype f64_value = Finite real | Infinite bool | NotANumber

text \<open>\<open>Math.round\<close>: to the nearest integer, ties upwards. The difference to the floor of a
  double is exact. \<open>js_round\<close> converts to \<open>i64\<close>, which saturates.\<close>

definition js_round_f64 :: "real \<Rightarrow> int" where
  "js_round_f64 x = (if x - of_int \<lfloor>x\<rfloor> \<ge> 1 / 2 then \<lfloor>x\<rfloor> + 1 else \<lfloor>x\<rfloor>)"

definition js_round :: "real \<Rightarrow> int" where
  "js_round x = max (- (2 ^ 63)) (min (js_round_f64 x) (2 ^ 63 - 1))"

lemma js_round_f64_nearest: "\<bar>of_int (js_round_f64 x) - x\<bar> \<le> 1 / 2"
  unfolding js_round_f64_def by (cases "x - of_int \<lfloor>x\<rfloor> \<ge> 1 / 2") (simp_all add: abs_if, linarith+)

lemma js_round_f64_int [simp]: "js_round_f64 (of_int k) = k"
  by (simp add: js_round_f64_def)

lemma js_round_int: "\<bar>k\<bar> \<le> 2 ^ 53 \<Longrightarrow> js_round (of_int k) = k"
  unfolding js_round_def js_round_f64_int by simp

lemma js_round_f64_mono: "x \<le> y \<Longrightarrow> js_round_f64 x \<le> js_round_f64 y"
  using floor_mono [of x y] by (auto simp: js_round_f64_def)

lemma js_round_mono: "x \<le> y \<Longrightarrow> js_round x \<le> js_round y"
  using js_round_f64_mono [of x y] by (auto simp: js_round_def)

end
