(* ===== verification/Backoff.thy ===== *)
theory Backoff
  imports F64 Protocol
begin

text \<open>
  Reconnection of the execution node (\<open>crates/stackhour-node/src\<close>: \<open>backoff.rs\<close>, \<open>config.rs\<close>
  and the supervisor \<open>run_with_engine\<close> of \<open>lib.rs\<close>): the jittered exponential delay in 64-bit
  arithmetic, one connection attempt up to its end, and the ramp of attempts. A \<open>Duration\<close>
  is its number of nanoseconds.

  The jitter is computed in \<open>f64\<close>, with \<open>rnd\<close> the rounding of the theory F64. \<open>nanos\<close> is the
  sub-second part of the clock.
\<close>

subsection \<open>The delay\<close>

type_synonym duration = nat

definition as_millis :: "duration \<Rightarrow> nat" where
  "as_millis d = d div 1000000"

definition from_millis :: "64 word \<Rightarrow> duration" where
  "from_millis ms = unat ms * 1000000"

definition saturating_sub :: "'a::len word \<Rightarrow> 'a word \<Rightarrow> 'a word" where
  "saturating_sub a b = (if a < b then 0 else a - b)"

definition saturating_add :: "'a::len word \<Rightarrow> 'a word \<Rightarrow> 'a word" where
  "saturating_add a b = (if unat a + unat b < 2 ^ LENGTH('a) then a + b else - 1)"

definition saturating_mul :: "'a::len word \<Rightarrow> 'a word \<Rightarrow> 'a word" where
  "saturating_mul a b = (if unat a * unat b < 2 ^ LENGTH('a) then a * b else - 1)"

definition jitter_fraction :: "(real \<Rightarrow> real) \<Rightarrow> nat \<Rightarrow> real" where
  "jitter_fraction rnd nanos = rnd (real (nanos mod 1000) / 1000)"

text \<open>\<open>as u64\<close> truncates and saturates.\<close>

definition as_u64 :: "real \<Rightarrow> 64 word" where
  "as_u64 x = word_of_int (min (max \<lfloor>x\<rfloor> 0) (2 ^ 64 - 1))"

definition jitter :: "(real \<Rightarrow> real) \<Rightarrow> nat \<Rightarrow> 64 word \<Rightarrow> 64 word" where
  "jitter rnd nanos half = as_u64 (rnd (rnd (real (unat half)) * jitter_fraction rnd nanos))"

definition delay :: "(real \<Rightarrow> real) \<Rightarrow> nat \<Rightarrow> 32 word \<Rightarrow> duration \<Rightarrow> duration \<Rightarrow> duration" where
  "delay rnd nanos attempt base limit =
     (let base_ms = word_of_nat (as_millis base) :: 64 word;
          max_ms = word_of_nat (as_millis limit) :: 64 word
      in if base_ms = 0 \<or> max_ms = 0 then from_millis 0
         else
           let shift = min (saturating_sub attempt 1) 32;
               expo_ms = saturating_mul base_ms (push_bit (unat shift) 1);
               capped = min expo_ms max_ms;
               half = capped div 2
           in from_millis (half + jitter rnd nanos half))"

subsection \<open>Words\<close>

lemma unat_max_word: "unat (- 1 :: 'a::len word) = 2 ^ LENGTH('a) - 1"
  by (simp add: unsigned_minus_1_eq_mask mask_eq_exp_minus_1)

lemma exp_pos: "0 < (2::nat) ^ n"
  by simp

lemma unat_saturating_mul:
  "unat (saturating_mul a b) = min (unat a * unat b) (2 ^ LENGTH('a) - 1)" for a b :: "'a::len word"
proof (cases "unat a * unat b < 2 ^ LENGTH('a)")
  case True
  then show ?thesis by (simp add: saturating_mul_def unat_word_ariths take_bit_nat_eq_self)
next
  case False
  then have "2 ^ LENGTH('a) - 1 \<le> unat a * unat b" by linarith
  with False show ?thesis by (simp add: saturating_mul_def unat_max_word del: One_nat_def)
qed

lemma unat_saturating_sub: "unat (saturating_sub a b) = unat a - unat b"
  by (simp add: saturating_sub_def word_less_nat_alt unat_sub_if_size)

lemma unat_saturating_add:
  "unat (saturating_add a b) = min (unat a + unat b) (2 ^ LENGTH('a) - 1)" for a b :: "'a::len word"
  using exp_pos by (cases "unat a + unat b < 2 ^ LENGTH('a)")
    (auto simp: saturating_add_def unat_max_word unat_word_ariths take_bit_nat_eq_self min_def)

lemma unat_plus_small:
  "unat a + unat b < 2 ^ LENGTH('a) \<Longrightarrow> unat (a + b) = unat a + unat b" for a b :: "'a::len word"
  by (simp add: unat_word_ariths take_bit_nat_eq_self)

lemma unat_min: "unat (min a b) = min (unat a) (unat b)"
  by (simp add: min_def word_le_nat_alt)

lemma unat_push_bit_one:
  assumes "n \<le> 32"
  shows "unat (push_bit n 1 :: 64 word) = 2 ^ n"
proof -
  have "(2::nat) ^ n \<le> 2 ^ 32" using assms by (rule power_increasing) simp
  then have "(2::nat) ^ n < 2 ^ 64" by (rule le_less_trans) simp
  then show ?thesis
    using unat_of_nat [of "2 ^ n", where 'a = 64] by (simp add: push_bit_eq_mult take_bit_nat_eq_self)
qed

subsection \<open>The jitter stays below its bound\<close>

lemma uint_as_u64:
  assumes "0 \<le> \<lfloor>x\<rfloor>" and "\<lfloor>x\<rfloor> < 2 ^ 64"
  shows "uint (as_u64 x) = \<lfloor>x\<rfloor>"
proof -
  have "min (max \<lfloor>x\<rfloor> 0) (2 ^ 64 - 1) = \<lfloor>x\<rfloor>" using assms by linarith
  then show ?thesis using assms by (simp add: as_u64_def unsigned_of_int take_bit_int_eq_self)
qed

lemma u64_le: "real (unat (w :: 64 word)) \<le> 2 ^ 64"
proof -
  have "unat w < 2 ^ LENGTH(64)" by (rule unsigned_less)
  then have "unat w < 2 ^ 64" by (simp only: len_num1 len_bit0 len_bit1) simp
  then have "real (unat w) < 2 ^ 64" by (metis of_nat_less_numeral_power_cancel_iff)
  then show ?thesis by (rule less_imp_le)
qed

lemma u64_f64_range: "f64_range (real (unat (w :: 64 word)))"
proof (cases "unat w = 0")
  case False
  then have "1 \<le> real (unat w)" by linarith
  then show ?thesis
    using order_trans [OF u64_le [of w], of "2 ^ 100"] order_trans [of "1 / 2 ^ 100" 1 "real (unat w)"]
    by (intro f64_range_normal) simp_all
qed (simp only: of_nat_0 f64_range_0 semiring_1_class.of_nat_simps)

lemma fraction_f64_range: "f64_range (real (nanos mod 1000) / 1000)"
proof (cases "nanos mod 1000 = 0")
  case False
  then show ?thesis by (intro f64_range_normal) (simp_all add: field_simps)
qed (simp add: f64_range_0)

lemma fraction_le: "real (nanos mod 1000) / 1000 \<le> 999 / 1000"
  by simp

lemma jitter_f64_range:
  assumes "f64_rounding rnd"
  shows "f64_range (rnd (real (unat (half :: 64 word))) * jitter_fraction rnd nanos)" (is "f64_range (?h * ?f)")
proof (cases "half = 0 \<or> nanos mod 1000 = 0")
  case True
  have "rnd 0 = 0" using rounded_le(1,2) [OF assms f64_range_0 order_refl] by simp
  then show ?thesis using True by (auto simp: jitter_fraction_def f64_range_0)
next
  case False
  note h = rounded_le [OF assms u64_f64_range u64_le, of half]
  note f = rounded_le [OF assms fraction_f64_range fraction_le, folded jitter_fraction_def, of nanos]
  have "1 \<le> unat half" using False by (simp add: Suc_leI unat_gt_0)
  then have "1 \<le> real (unat half)" by linarith
  then have lo: "1 / 2 \<le> ?h" "1 / 2000 \<le> ?f" using h(3) f(3) False by (simp_all add: field_simps)
  have "1 / 2 * (1 / 2000) \<le> ?h * ?f" by (rule mult_mono [OF lo]) (use h f in simp_all)
  moreover have "?h * ?f \<le> (2 ^ 64 * (1 + 1 / 2 ^ 53)) * (999 / 1000 * (1 + 1 / 2 ^ 53))"
    by (rule mult_mono [OF h(2) f(2) _ f(1)]) simp
  ultimately show ?thesis by (intro f64_range_normal) (simp_all add: field_simps)
qed

lemma jitter_le:
  assumes "f64_rounding rnd"
  shows "jitter rnd nanos half \<le> half"
proof -
  let ?u = "1 + 1 / 2 ^ 53 :: real" and ?h = "real (unat half)"
  let ?p = "rnd ?h * jitter_fraction rnd nanos"
  note h = rounded_le [OF assms u64_f64_range order_refl, of half]
  note f = rounded_le [OF assms fraction_f64_range fraction_le, folded jitter_fraction_def, of nanos]
  have p: "0 \<le> ?p" "?p \<le> (?h * ?u) * (999 / 1000 * ?u)"
    by (rule mult_nonneg_nonneg [OF h(1) f(1)])
      (rule mult_mono [OF h(2) f(2) order_trans [OF h(1,2)] f(1)])
  have r: "0 \<le> rnd ?p" "rnd ?p \<le> (?h * ?u) * (999 / 1000 * ?u) * ?u"
    using rounded_le [OF assms jitter_f64_range [OF assms] p(2)] by simp_all
  have "(?h * ?u) * (999 / 1000 * ?u) * ?u = ?h * (?u * (999 / 1000 * ?u) * ?u)" by simp
  also have "\<dots> \<le> ?h * 1" by (rule mult_left_mono [OF _ of_nat_0_le_iff]) (simp add: field_simps)
  finally have "rnd ?p \<le> ?h" using r(2) by linarith
  then have fl: "\<lfloor>rnd ?p\<rfloor> \<le> int (unat half)" by (simp add: floor_le_iff)
  have ge: "0 \<le> \<lfloor>rnd ?p\<rfloor>" using r(1) by simp
  have lt: "int (unat half) < 2 ^ 64"
    using uint_bounded [of half] unfolding uint_nat by (simp only: len_num0 len_num1 len_bit0 len_bit1) simp
  have "uint (jitter rnd nanos half) = \<lfloor>rnd ?p\<rfloor>"
    unfolding jitter_def by (rule uint_as_u64 [OF ge]) (use fl lt in linarith)
  then show ?thesis using fl by (simp add: word_le_def)
qed

subsection \<open>Bounds\<close>

definition capped_ms :: "nat \<Rightarrow> nat \<Rightarrow> nat \<Rightarrow> nat" where
  "capped_ms attempt base_ms max_ms = min (base_ms * 2 ^ min (attempt - 1) 32) max_ms"

text \<open>The delay in 64-bit arithmetic, for settings that fit.\<close>

lemma delay_ms:
  fixes attempt :: "32 word" and base limit :: duration
  assumes r: "f64_rounding rnd" and b: "0 < as_millis base" "as_millis base < 2 ^ 64"
    and m: "0 < as_millis limit" "as_millis limit < 2 ^ 64"
  defines "cap \<equiv> capped_ms (unat attempt) (as_millis base) (as_millis limit)"
  shows "\<exists>j \<le> cap div 2. delay rnd nanos attempt base limit = (cap div 2 + j) * 1000000"
proof -
  let ?b = "word_of_nat (as_millis base) :: 64 word" and ?m = "word_of_nat (as_millis limit) :: 64 word"
  let ?sh = "min (saturating_sub attempt 1) 32"
  let ?c = "min (saturating_mul ?b (push_bit (unat ?sh) 1)) ?m"
  have ub: "unat ?b = as_millis base" and um: "unat ?m = as_millis limit"
    using b m by (simp_all add: unat_of_nat take_bit_nat_eq_self)
  have nz: "?b \<noteq> 0" "?m \<noteq> 0" using ub um b m by auto
  have sh: "unat ?sh = min (unat attempt - 1) 32" by (simp add: unat_min unat_saturating_sub)
  then have "unat ?c = cap"
    using m(2) unat_push_bit_one [of "min (unat attempt - 1) 32"] min_absorb2 [of "as_millis limit" "2 ^ 64 - 1"]
    by (simp add: min.assoc unat_min unat_saturating_mul ub um cap_def capped_ms_def sh [unfolded unat_min])
  then have h: "unat (?c div 2) = cap div 2" by (simp add: unat_div)
  let ?j = "jitter rnd nanos (?c div 2)"
  have j: "unat ?j \<le> cap div 2" using jitter_le [OF r] h by (metis word_le_nat_alt)
  have "cap < 2 ^ 64" using m(2) by (simp add: cap_def capped_ms_def)
  then have "unat (?c div 2 + ?j) = cap div 2 + unat ?j"
    using j h by (subst unat_plus_small) simp_all
  then show ?thesis
    using j nz by (intro exI [of _ "unat ?j"]) (simp add: delay_def Let_def from_millis_def)
qed

subsection \<open>The supervisor\<close>

record node_config =
  nc_hub_url :: string
  nc_node_id :: node_id
  nc_token :: string
  nc_software_version :: string
  nc_capabilities :: json
  nc_heartbeat_interval :: duration
  nc_heartbeat_timeout :: duration
  nc_backoff_base :: duration
  nc_backoff_max :: duration

definition from_secs :: "nat \<Rightarrow> duration" where
  "from_secs n = n * 1000000000"

text \<open>\<open>build_info\<close> is the compile-time version string.\<close>

definition node_config_new :: "string \<Rightarrow> string \<Rightarrow> node_id \<Rightarrow> string \<Rightarrow> node_config" where
  "node_config_new build_info hub_url node token =
     \<lparr>nc_hub_url = hub_url, nc_node_id = node, nc_token = token, nc_software_version = build_info,
      nc_capabilities = JObject [(''engines'', JArray [JString ''claude'', JString ''codex''])],
      nc_heartbeat_interval = from_secs 10, nc_heartbeat_timeout = from_secs 30,
      nc_backoff_base = from_millis 500, nc_backoff_max = from_secs 16\<rparr>"

definition with_capabilities :: "json \<Rightarrow> node_config \<Rightarrow> node_config" where
  "with_capabilities capabilities config = config\<lparr>nc_capabilities := capabilities\<rparr>"

definition with_software_version :: "string \<Rightarrow> node_config \<Rightarrow> node_config" where
  "with_software_version version config = config\<lparr>nc_software_version := version\<rparr>"

definition with_heartbeat :: "duration \<Rightarrow> duration \<Rightarrow> node_config \<Rightarrow> node_config" where
  "with_heartbeat interval timeout config =
     config\<lparr>nc_heartbeat_interval := interval, nc_heartbeat_timeout := timeout\<rparr>"

definition with_backoff :: "duration \<Rightarrow> duration \<Rightarrow> node_config \<Rightarrow> node_config" where
  "with_backoff base limit config = config\<lparr>nc_backoff_base := base, nc_backoff_max := limit\<rparr>"

datatype session_end = Shutdown | Rejected protocol_error | Disconnected bool

text \<open>The first frame of a connection.\<close>

definition hello_of :: "node_config \<Rightarrow> node_hello" where
  "hello_of config =
     \<lparr>h_node_id = nc_node_id config, h_token = nc_token config,
      h_software_version = nc_software_version config, h_protocol_version = WIRE_PROTOCOL_VERSION,
      h_capabilities = nc_capabilities config, h_resume_after_sequence = None\<rparr>"

text \<open>
  \<open>connect_once\<close> by what its waits gave: an operation raced against shutdown is \<open>None\<close> when
  shutdown came first. \<open>dialed\<close> says whether the socket opened, \<open>sent\<close> whether the hello went
  out, \<open>welcome\<close> is the first frame if it parses as a welcome, and \<open>received\<close> the end of the
  receive loop.
\<close>

definition connect_once ::
  "bool option \<Rightarrow> bool \<Rightarrow> hub_welcome option option \<Rightarrow> unit option \<Rightarrow> session_end" where
  "connect_once dialed sent welcome received =
     (case dialed of
        None \<Rightarrow> Shutdown
      | Some False \<Rightarrow> Disconnected False
      | Some True \<Rightarrow>
          if \<not> sent then Disconnected False
          else case welcome of
            None \<Rightarrow> Shutdown
          | Some None \<Rightarrow> Disconnected False
          | Some (Some w) \<Rightarrow>
              if \<not> w_accepted w then
                Rejected (case w_error w of Some err \<Rightarrow> err | None \<Rightarrow> Unauthenticated)
              else case received of None \<Rightarrow> Shutdown | Some _ \<Rightarrow> Disconnected True)"

text \<open>
  \<open>run_with_engine\<close> over the ends of its successive sessions. \<open>nanos i\<close> is the clock at the
  \<open>i\<close>-th delay and \<open>stop i\<close> says whether shutdown fires during it. The result is the list of
  the delays waited, and how the loop ended (nothing while it is still running; \<open>RunErr\<close> is the
  message that names the hub's error).
\<close>

datatype run_end = RunOk | RunErr protocol_error

fun run_with_engine ::
  "(real \<Rightarrow> real) \<Rightarrow> (nat \<Rightarrow> nat) \<Rightarrow> (nat \<Rightarrow> bool) \<Rightarrow> node_config \<Rightarrow> nat \<Rightarrow> 32 word \<Rightarrow> session_end list
   \<Rightarrow> duration list \<times> run_end option" where
  "run_with_engine rnd nanos stop config i attempt [] = ([], None)"
| "run_with_engine rnd nanos stop config i attempt (Shutdown # ends) = ([], Some RunOk)"
| "run_with_engine rnd nanos stop config i attempt (Rejected err # ends) = ([], Some (RunErr err))"
| "run_with_engine rnd nanos stop config i attempt (Disconnected established # ends) =
     (let attempt0 = (if established then 0 else attempt);
          attempt1 = saturating_add attempt0 1;
          d = delay rnd (nanos i) attempt1 (nc_backoff_base config) (nc_backoff_max config)
      in if stop i then ([d], Some RunOk)
         else apfst ((#) d) (run_with_engine rnd nanos stop config (Suc i) attempt1 ends))"

definition backoff_config_ok :: "node_config \<Rightarrow> bool" where
  "backoff_config_ok config \<longleftrightarrow>
     0 < as_millis (nc_backoff_base config) \<and> as_millis (nc_backoff_base config) < 2 ^ 64 \<and>
     0 < as_millis (nc_backoff_max config) \<and> as_millis (nc_backoff_max config) < 2 ^ 64"

text \<open>The specification: which attempt each delay belongs to, and the window of an attempt.\<close>

fun ramp :: "nat \<Rightarrow> session_end list \<Rightarrow> nat list" where
  "ramp n (Disconnected established # ends) =
     (let n' = (if established then 1 else Suc n) in n' # ramp n' ends)"
| "ramp n _ = []"

definition delay_window :: "node_config \<Rightarrow> nat \<Rightarrow> duration \<Rightarrow> bool" where
  "delay_window config n d \<longleftrightarrow>
     (let cap = min (as_millis (nc_backoff_base config) * 2 ^ min (n - 1) 32) (as_millis (nc_backoff_max config))
      in cap div 2 * 1000000 \<le> d \<and> d \<le> cap * 1000000)"

lemma delay_in_cap:
  assumes "f64_rounding rnd" and "backoff_config_ok config"
  defines "cap \<equiv> \<lambda>n. capped_ms n (as_millis (nc_backoff_base config)) (as_millis (nc_backoff_max config))"
  shows "cap (unat attempt) div 2 * 1000000 \<le> delay rnd nanos attempt (nc_backoff_base config) (nc_backoff_max config)"
    and "delay rnd nanos attempt (nc_backoff_base config) (nc_backoff_max config) \<le> cap (unat attempt) * 1000000"
proof -
  obtain j where "j \<le> cap (unat attempt) div 2"
      "delay rnd nanos attempt (nc_backoff_base config) (nc_backoff_max config)
       = (cap (unat attempt) div 2 + j) * 1000000"
    using delay_ms [of rnd "nc_backoff_base config" "nc_backoff_max config" attempt nanos] assms
    by (auto simp: backoff_config_ok_def)
  then show "cap (unat attempt) div 2 * 1000000 \<le> delay rnd nanos attempt (nc_backoff_base config) (nc_backoff_max config)"
    and "delay rnd nanos attempt (nc_backoff_base config) (nc_backoff_max config) \<le> cap (unat attempt) * 1000000"
    by simp_all
qed

text \<open>After \<open>n\<close> failed dials in a row the counter is \<open>n\<close>, or saturated.\<close>

definition counts :: "32 word \<Rightarrow> nat \<Rightarrow> bool" where
  "counts attempt n \<longleftrightarrow> unat attempt = min n (2 ^ 32 - 1)"

lemma counts_Suc: "counts attempt n \<Longrightarrow> counts (saturating_add attempt 1) (Suc n)"
  by (simp add: counts_def unat_saturating_add min_def)

lemma counts_cap:
  assumes "counts attempt n"
  shows "capped_ms (unat attempt) b l = capped_ms n b l"
proof -
  have "min (unat attempt - 1) 32 = min (n - 1) 32"
    using assms unfolding counts_def by (cases "n \<le> 2 ^ 32 - 1") simp_all
  then show ?thesis by (simp add: capped_ms_def)
qed

lemma delay_counted:
  assumes "f64_rounding rnd" and "backoff_config_ok config" and "counts attempt n"
  shows "delay_window config n (delay rnd nanos attempt (nc_backoff_base config) (nc_backoff_max config))"
  using delay_in_cap [OF assms(1,2), where attempt = attempt and nanos = nanos] counts_cap [OF assms(3)]
  by (simp add: delay_window_def capped_ms_def Let_def)

lemma run_ramp:
  assumes "f64_rounding rnd" and "backoff_config_ok config"
  shows "counts attempt n \<Longrightarrow> run_with_engine rnd nanos stop config i attempt ends = (ds, r) \<Longrightarrow>
    list_all2 (delay_window config) (take (length ds) (ramp n ends)) ds"
proof (induction ends arbitrary: i attempt n ds r)
  case (Cons e ends)
  show ?case
  proof (cases e)
    case (Disconnected established)
    let ?a0 = "if established then 0 else attempt" and ?n0 = "if established then 0 else n"
    have "counts ?a0 ?n0" using Cons.prems(1) by (simp add: counts_def)
    then have a1: "counts (saturating_add ?a0 1) (Suc ?n0)" by (rule counts_Suc)
    obtain ds' r' where rest: "run_with_engine rnd nanos stop config (Suc i) (saturating_add ?a0 1) ends = (ds', r')"
      by fastforce
    note IH = Cons.IH [OF a1 rest] and now = delay_counted [OF assms a1, of "nanos i"]
    show ?thesis
      using Cons.prems(2) IH now rest
      by (cases established) (auto simp: Disconnected Let_def split: if_splits)
  qed (use Cons.prems in auto)
qed simp

lemma run_end_cases:
  "run_with_engine rnd nanos stop config i attempt ends = (ds, r) \<Longrightarrow>
     length ds \<le> length (ramp n ends) \<and>
     (r = None \<longrightarrow> length ds = length ends \<and> list_all (\<lambda>e. \<exists>b. e = Disconnected b) ends) \<and>
     (\<forall>err. r = Some (RunErr err) \<longrightarrow> length ds < length ends \<and> ends ! length ds = Rejected err) \<and>
     (r = Some RunOk \<longrightarrow> length ds < length ends \<and> ends ! length ds = Shutdown \<or>
        (\<exists>k. length ds = Suc k \<and> k < length ends \<and> (\<exists>b. ends ! k = Disconnected b) \<and> stop (i + k)))"
proof (induction ends arbitrary: i attempt n ds r)
  case (Cons e ends)
  show ?case
  proof (cases e)
    case (Disconnected established)
    let ?a1 = "saturating_add (if established then 0 else attempt) 1"
    obtain ds' r' where rest: "run_with_engine rnd nanos stop config (Suc i) ?a1 ends = (ds', r')"
      by fastforce
    note IH = Cons.IH [OF rest, of "if established then 1 else Suc n"]
    show ?thesis
    proof (cases "stop i")
      case True
      then show ?thesis using Cons.prems by (auto simp: Disconnected Let_def)
    next
      case False
      then have "ds = delay rnd (nanos i) ?a1 (nc_backoff_base config) (nc_backoff_max config) # ds'" "r = r'"
        using Cons.prems rest by (simp_all add: Disconnected Let_def split: if_splits)
      with IH show ?thesis by (force simp: Disconnected Let_def)
    qed
  qed (use Cons.prems in auto)
qed simp

lemma list_all2_set2: "list_all2 R xs ys \<Longrightarrow> y \<in> set ys \<Longrightarrow> \<exists>x. R x y"
  by (auto simp: list_all2_conv_all_nth in_set_conv_nth)

lemma delay_window_max:
  assumes "delay_window config n d"
  shows "d \<le> as_millis (nc_backoff_max config) * 1000000"
proof -
  have "d \<le> min (as_millis (nc_backoff_base config) * 2 ^ min (n - 1) 32) (as_millis (nc_backoff_max config)) * 1000000"
    using assms unfolding delay_window_def Let_def by (rule conjunct2)
  also have "\<dots> \<le> as_millis (nc_backoff_max config) * 1000000" by (rule mult_le_mono1) (rule min.cobounded2)
  finally show ?thesis .
qed

subsection \<open>Properties\<close>

text \<open>C28: The node's supervisor retries for as long as the hub does not refuse it, and it
  neither hammers the hub nor waits too long, when the base and the cap of its settings are at least
  a millisecond and fit 64 bits. The \<open>k\<close>-th delay lies between half of and the
  full capped exponential \<open>min (base * 2^(n-1)) max\<close>, in milliseconds, where \<open>n\<close> is the number of
  dials since the last session that came up (the exponent stops at 32); no 64-bit operation
  wraps and no rounding of the jitter exceeds its half. While the loop runs it has waited once
  after every session so far, each of which was disconnected. It ends with an error exactly as the
  rejection of the session after the last wait says, and without one only by shutdown: that
  session was shut down, or shutdown came during the last wait.\<close>

theorem backoff_ramp_bounds:
  assumes "f64_rounding rnd" and "backoff_config_ok config"
    and "run_with_engine rnd nanos stop config 0 0 ends = (ds, r)"
  shows "list_all2 (delay_window config) (take (length ds) (ramp 0 ends)) ds
    \<and> (\<forall>d \<in> set ds. d \<le> nc_backoff_max config)
    \<and> (r = None \<longrightarrow> length ds = length ends \<and> list_all (\<lambda>e. \<exists>b. e = Disconnected b) ends)
    \<and> (\<forall>err. r = Some (RunErr err) \<longrightarrow> length ds < length ends \<and> ends ! length ds = Rejected err)
    \<and> (r = Some RunOk \<longrightarrow> length ds < length ends \<and> ends ! length ds = Shutdown \<or>
         (\<exists>k. length ds = Suc k \<and> k < length ends \<and> (\<exists>b. ends ! k = Disconnected b) \<and> stop k))"
proof -
  have w: "list_all2 (delay_window config) (take (length ds) (ramp 0 ends)) ds"
    by (rule run_ramp [OF assms(1,2) _ assms(3)]) (simp add: counts_def)
  have "d \<le> nc_backoff_max config" if d: "d \<in> set ds" for d
  proof -
    obtain n where "delay_window config n d"
      using list_all2_set2 [OF w d] by blast
    then have "d \<le> as_millis (nc_backoff_max config) * 1000000" by (rule delay_window_max)
    also have "\<dots> \<le> nc_backoff_max config" unfolding as_millis_def by (rule div_times_less_eq_dividend)
    finally show ?thesis .
  qed
  then have "\<forall>d \<in> set ds. d \<le> nc_backoff_max config" by blast
  then show ?thesis using w run_end_cases [OF assms(3), of 0] by simp
qed

definition demo_config :: node_config where
  "demo_config = node_config_new ''stackhour-rust/0'' ''ws://hub'' (NodeId ''n'') ''secret''"

theorem backoff_ramp_bounds_witness:
  "f64_rounding id \<and> backoff_config_ok demo_config
   \<and> run_with_engine id (\<lambda>_. 0) (\<lambda>_. False) demo_config 0 0
       [Disconnected False, Disconnected False, Disconnected True, Rejected Unauthenticated]
     = ([250000000, 500000000, 250000000], Some (RunErr Unauthenticated))
   \<and> list_all (\<lambda>d. d \<le> nc_backoff_max demo_config) [250000000, 500000000, 250000000]"
proof -
  have r: "f64_rounding id" by (rule rounding_id)
  have cfg: "backoff_config_ok demo_config"
    by (simp add: backoff_config_ok_def demo_config_def node_config_new_def from_secs_def from_millis_def as_millis_def)
  have run: "run_with_engine id (\<lambda>_. 0) (\<lambda>_. False) demo_config 0 0
       [Disconnected False, Disconnected False, Disconnected True, Rejected Unauthenticated]
     = ([250000000, 500000000, 250000000], Some (RunErr Unauthenticated))"
    by (simp add: demo_config_def node_config_new_def from_secs_def from_millis_def delay_def as_millis_def jitter_def jitter_fraction_def
        as_u64_def saturating_add_def saturating_sub_def saturating_mul_def Let_def min_def)
  show ?thesis
    using backoff_ramp_bounds [OF r cfg run] r cfg run unfolding list_all_iff by blast
qed

end
