(* ===== verification/Node_Link.thy ===== *)
theory Node_Link
  imports Hub_Props Backoff
begin

text \<open>
  One node connection as the hub drives it (\<open>crates/stackhour-hub/src/lib.rs\<close>, \<open>handle_node\<close>):
  the handshake with registration, presence and replay of the queued dispatches; the
  handling of one frame from the node; and the end of the connection. The welcome and the
  close frame are the only frames sent outside the node's channel. The handler holds no lock
  between its calls: \<open>between1\<close> and \<open>between2\<close> are what other handlers do to the hub after the
  registration and after the presence event, in particular routing new dispatches to the node.
\<close>

subsection \<open>The handler\<close>

definition node_handshake ::
  "'j codec \<Rightarrow> env \<Rightarrow> faults \<Rightarrow> bool \<Rightarrow> node_hello
   \<Rightarrow> ('j hub_state \<Rightarrow> 'j hub_state) \<Rightarrow> ('j hub_state \<Rightarrow> 'j hub_state) \<Rightarrow> 'j hub_state
   \<Rightarrow> hub_welcome \<times> 64 word option \<times> 'j hub_state" where
  "node_handshake c v io sent hello between1 between2 s =
     (let welcome = negotiate_node c hello s in
      if \<not> sent \<or> \<not> w_accepted welcome then (welcome, None, s)
      else
        case register_node (h_node_id hello) s of
          (conn, s1) \<Rightarrow>
            (welcome, Some conn,
             replay_pending c io (h_node_id hello) (between2 (on_node_connected c v hello (between1 s1)))))"

fun node_on_message :: "'j codec \<Rightarrow> env \<Rightarrow> node_id \<Rightarrow> node_to_hub \<Rightarrow> 'j hub_state \<Rightarrow> 'j hub_state" where
  "node_on_message c v node (NodeEvent eid draft) s =
     (case accepts_node_event c (v_io v 0) node draft s of
        (Inr False, s1) \<Rightarrow> snd (route_to_node node (EventAck eid) s1)
      | (Inr True, s1) \<Rightarrow>
          (case append_and_broadcast_node_event c (v_io v 2) (v_clock v 2) eid draft s1 of
             (Inr _, s2) \<Rightarrow> snd (route_to_node node (EventAck eid) s2)
           | (Inl _, s2) \<Rightarrow> s2)
      | (Inl _, s1) \<Rightarrow> s1)"
| "node_on_message c v node (CommandAck cid) s =
     hub_acknowledge_dispatch_from c (v_io v 0) (v_clock v 0) node cid s"
| "node_on_message c v node NodeHeartbeat s = s"

text \<open>The receiver of the channel is dropped when the handler returns.\<close>

definition node_disconnect :: "'j codec \<Rightarrow> env \<Rightarrow> node_id \<Rightarrow> 64 word \<Rightarrow> 'j hub_state \<Rightarrow> 'j hub_state" where
  "node_disconnect c v node conn s =
     (case unregister_node node conn s of
        (owned, s1) \<Rightarrow>
          let s2 = (if owned then on_node_disconnected c v node s1 else s1)
          in s2\<lparr>channels := (channels s2)(conn := None)\<rparr>)"

subsection \<open>The handler's calls are steps of the hub\<close>

lemma node_on_message_steps:
  assumes "env_ok P v" and "\<And>eid d. m = NodeEvent eid d \<Longrightarrow> draft_ok d"
  shows "(hs_step c P)\<^sup>*\<^sup>* s (node_on_message c v node m s)"
proof (cases m)
  case (NodeEvent eid d)
  obtain r s1 where acc: "accepts_node_event c (v_io v 0) node d s = (r, s1)" by fastforce
  obtain r2 s2 where app: "append_and_broadcast_node_event c (v_io v 2) (v_clock v 2) eid d s1 = (r2, s2)"
    by fastforce
  have p1: "(hs_step c P)\<^sup>*\<^sup>* s s1" by (rule r_into_rtranclp, rule hs_step.hs_accepts [OF acc])
  have "hs_step c P s1 s2"
    by (rule hs_step.hs_node_event [OF assms(2) [OF NodeEvent] _ _ app]) (use assms(1) in \<open>simp_all add: env_ok_def\<close>)
  then have p2: "(hs_step c P)\<^sup>*\<^sup>* s s2" by (rule rtranclp.rtrancl_into_rtrancl [OF p1])
  have route: "hs_step c P s3 (snd (route_to_node node (EventAck eid) s3))" for s3
    by (rule hs_step.hs_route [of node "EventAck eid" s3 "fst (route_to_node node (EventAck eid) s3)"]) simp
  show ?thesis
    unfolding NodeEvent node_on_message.simps acc prod.case
    by (cases r) (auto simp: app p1 p2 rtranclp.rtrancl_into_rtrancl [OF p1 route]
        rtranclp.rtrancl_into_rtrancl [OF p2 route] split: bool.splits sum.splits)
next
  case (CommandAck cid)
  have "hs_step c P s (node_on_message c v node m s)"
    unfolding CommandAck node_on_message.simps by (rule hs_step.hs_ack) (rule refl)
  then show ?thesis by blast
next
  case NodeHeartbeat
  then show ?thesis by simp
qed

lemma node_handshake_steps:
  assumes "node_handshake c v io sent hello b1 b2 s = (w, conn, s')" and "env_ok P v"
    and "json_wf 126 (h_capabilities hello)"
    and "\<And>s. (hs_step c P)\<^sup>*\<^sup>* s (b1 s)" and "\<And>s. (hs_step c P)\<^sup>*\<^sup>* s (b2 s)"
  shows "(hs_step c P)\<^sup>*\<^sup>* s s'"
proof -
  obtain k s1 where reg: "register_node (h_node_id hello) s = (k, s1)" by fastforce
  have "(hs_step c P)\<^sup>*\<^sup>* s s1" by (rule r_into_rtranclp, rule hs_step.hs_register [OF reg])
  then have "(hs_step c P)\<^sup>*\<^sup>* s (b1 s1)" using assms(4) by (rule rtranclp_trans)
  then have "(hs_step c P)\<^sup>*\<^sup>* s (on_node_connected c v hello (b1 s1))"
    by (rule rtranclp.rtrancl_into_rtrancl) (rule hs_step.hs_connected [OF assms(2,3) refl])
  then have "(hs_step c P)\<^sup>*\<^sup>* s (b2 (on_node_connected c v hello (b1 s1)))" using assms(5) by (rule rtranclp_trans)
  then have "(hs_step c P)\<^sup>*\<^sup>* s (replay_pending c io (h_node_id hello) (b2 (on_node_connected c v hello (b1 s1))))"
    by (rule rtranclp.rtrancl_into_rtrancl) (rule hs_step.hs_replay [OF refl])
  then show ?thesis
    using assms(1) by (auto simp: node_handshake_def reg Let_def split: if_splits)
qed

subsection \<open>Channels\<close>

lemma route_to_node_channel:
  assumes "map_of (hs_nodes s) node = Some conn" and "channels s conn = Some q"
  shows "route_to_node node m s = (True, s\<lparr>channels := (channels s)(conn \<mapsto> q @ [m])\<rparr>)"
  using assms by (simp add: route_to_node_def chan_send_def)

lemma broadcast_frames:
  assumes "broadcast_new c io (with_hub f s) = (r, s')"
  shows "channels s' = channels s \<and> hs_nodes s' = hs_nodes s \<and> hs_hub s' = snd (f (hs_hub s))"
  using assms by (auto simp: broadcast_new_def with_hub_def split: prod.splits sum.splits if_splits option.splits)

lemma on_node_connected_frames:
  "channels (on_node_connected c v hello s) = channels s"
  "hs_nodes (on_node_connected c v hello s) = hs_nodes s"
  "dispatches (hs_hub (on_node_connected c v hello s)) = dispatches (hs_hub s)"
proof -
  let ?node = "\<lparr>n_id = h_node_id hello, n_label = node_str (h_node_id hello), n_status = Connected,
      n_software_version = h_software_version hello, n_capabilities = h_capabilities hello,
      n_last_seen_sequence = h_resume_after_sequence hello\<rparr>"
  let ?draft = "with_payload (event_draft_new (v_clock v 1) NodeConnected system_task (h_node_id hello))
      (JObject [(''software_version'', JString (h_software_version hello)),
                (''capabilities'', h_capabilities hello)])"
  obtain r h1 where up: "upsert_node c (v_io v 0) ?node (hs_hub s) = (r, h1)" by fastforce
  let ?s1 = "s\<lparr>hs_hub := h1\<rparr>"
  obtain r2 s2 where app: "append_and_broadcast_node_event c (v_io v 2) (v_clock v 2) (v_event v) ?draft ?s1
      = (r2, s2)" by fastforce
  obtain r3 h2 where ev: "append_node_event c (v_io v 2) (v_clock v 2) (v_event v) ?draft h1 = (r3, h2)"
    by fastforce
  have res: "on_node_connected c v hello s = s2"
    unfolding on_node_connected_def with_hub_def up Let_def prod.case snd_conv app ..
  note fr = broadcast_frames [OF app [unfolded append_and_broadcast_node_event_def]]
  have "dispatches h1 = dispatches (hs_hub s)" using setting_frames(3) [OF up] by blast
  moreover have "dispatches h2 = dispatches h1" using append_node_event_frames [OF ev] by blast
  ultimately show "channels (on_node_connected c v hello s) = channels s"
    "hs_nodes (on_node_connected c v hello s) = hs_nodes s"
    "dispatches (hs_hub (on_node_connected c v hello s)) = dispatches (hs_hub s)"
    using fr ev by (simp_all add: res)
qed

lemma replay_channel:
  assumes "map_of (hs_nodes s) node = Some conn" and "channels s conn = Some q"
  shows "fold (\<lambda>item s. snd (route_to_node node (p_message item) s)) ps s
    = s\<lparr>channels := (channels s)(conn \<mapsto> q @ map p_message ps)\<rparr>"
  using assms
proof (induction ps arbitrary: s q)
  case Nil
  then show ?case by (simp add: fun_upd_idem)
next
  case (Cons p ps)
  let ?s = "s\<lparr>channels := (channels s)(conn \<mapsto> q @ [p_message p])\<rparr>"
  have "snd (route_to_node node (p_message p) s) = ?s" by (simp add: route_to_node_channel [OF Cons.prems])
  then show ?case using Cons.IH [of ?s "q @ [p_message p]"] Cons.prems(1)
    by (simp del: fun_upd_apply add: fun_upd_same)
qed

lemma map_of_filter_neq: "map_of (filter (\<lambda>p. fst p \<noteq> k) xs) = (map_of xs)(k := None)"
  by (induction xs) (auto simp: fun_eq_iff)

lemma on_node_disconnected_nodes: "hs_nodes (on_node_disconnected c v node s) = hs_nodes s"
proof -
  let ?draft = "event_draft_new (v_clock v 1) NodeDisconnected system_task node"
  obtain r s1 where up: "with_hub (mark_disconnected c (v_io v 0) (v_io v 1) node) s = (r, s1)" by fastforce
  obtain r2 s2 where app: "append_and_broadcast_node_event c (v_io v 2) (v_clock v 2) (v_event v) ?draft s1
      = (r2, s2)" by fastforce
  have "hs_nodes s1 = hs_nodes s" using up by (auto simp: with_hub_def split: prod.splits)
  moreover have "hs_nodes s2 = hs_nodes s1"
    using broadcast_frames [OF app [unfolded append_and_broadcast_node_event_def]] by blast
  ultimately show ?thesis unfolding on_node_disconnected_def Let_def up snd_conv app by simp
qed

text \<open>What the replay leaves behind: the pending dispatches are sent after what the connection's
  channel held already; a failed read sends nothing.\<close>

lemma replay_state:
  assumes "map_of (hs_nodes s) node = Some conn" and "channels s conn = Some q"
  shows "replay_pending c io node s = s\<lparr>channels := (channels s)(conn \<mapsto> q @
    (case pending_dispatches c io node (hs_hub s) of Inr ps \<Rightarrow> map p_message ps | Inl _ \<Rightarrow> []))\<rparr>"
  using assms by (simp add: replay_pending_def replay_channel fun_upd_idem split: sum.split)

lemma pending_dispatches_io:
  "pending_dispatches c io node db =
     (case io S_SelectDispatches of None \<Rightarrow> pending_dispatches c no_faults node db | Some e \<Rightarrow> Inl (sql_err e))"
  by (simp add: pending_dispatches_def exec_def no_faults_def split: option.split)

lemma undisturbed_channel:
  assumes "register_node (h_node_id hello) s = (conn, s1)"
  shows "map_of (hs_nodes (on_node_connected c v hello s1)) (h_node_id hello) = Some conn"
    and "channels (on_node_connected c v hello s1) conn = Some []"
  using assms by (auto simp: on_node_connected_frames register_node_def Let_def)

subsection \<open>Properties\<close>

text \<open>C12: work for a node that is away is not lost. Take a command whose dispatch \<open>m\<close> was queued
  for \<open>node\<close>, any later history of the store, and the next accepted handshake of that node,
  between whose calls other handlers do anything but close or supersede the connection. \<open>q\<close> is
  what they routed to the node meanwhile. The replay appends to \<open>q\<close> the pending dispatches of the
  store, in queue order, and \<open>m\<close> is among them if and only if the node has not acknowledged
  the command (so a dispatch that was routed meanwhile is sent twice); when the read fails, nothing is
  replayed and the store is as before, so that \<open>m\<close> is still pending for the next
  handshake. Undisturbed, the channel holds the replay alone.\<close>

theorem reconnect_replays_queue:
  assumes "codec_ok c" and "hub_reachable c db" and "draft_ok d" and "time_ok now" and "msg_ok m"
    and "append_command_bundle c io now fresh cid d entity (Some (h_node_id hello, m)) db = (Inr out, db1)"
    and "o_created out" and "node_handshake c v io' sent hello between1 between2 s = (w, Some conn, s')"
  defines "seen \<equiv> between2 (on_node_connected c v hello (between1 (snd (register_node (h_node_id hello) s))))"
  assumes "(hub_step c)\<^sup>*\<^sup>* db1 (hs_hub seen)"
    and "map_of (hs_nodes seen) (h_node_id hello) = Some conn" and "channels seen conn = Some q"
  shows "\<exists>ps. pending_dispatches c no_faults (h_node_id hello) (hs_hub seen) = Inr ps
    \<and> (\<lparr>p_command_id = cid, p_node_id = h_node_id hello, p_message = m, p_created_at = now\<rparr> \<in> set ps
        \<longleftrightarrow> \<not> dispatch_acked c cid (hs_hub seen))
    \<and> s' = seen\<lparr>channels := (channels seen)(conn \<mapsto> q @
        (if io' S_SelectDispatches = None then map p_message ps else []))\<rparr>
    \<and> (between1 = id \<and> between2 = id \<longrightarrow> q = [])"
proof -
  let ?node = "h_node_id hello"
  obtain ps where ps: "pending_dispatches c no_faults ?node (hs_hub seen) = Inr ps"
      "\<lparr>p_command_id = cid, p_node_id = ?node, p_message = m, p_created_at = now\<rparr> \<in> set ps
        \<longleftrightarrow> \<not> dispatch_acked c cid (hs_hub seen)"
    using queued_until_acked [OF assms(1-7) assms(10)] by blast
  obtain k s1 where reg: "register_node ?node s = (k, s1)" by fastforce
  have s': "s' = replay_pending c io' ?node seen" and k: "k = conn"
    using assms(8) by (auto simp: node_handshake_def reg seen_def Let_def split: if_splits)
  have "s' = seen\<lparr>channels := (channels seen)(conn \<mapsto> q @ (if io' S_SelectDispatches = None then map p_message ps else []))\<rparr>"
    unfolding s' replay_state [OF assms(11,12)] pending_dispatches_io [of c io'] using ps(1) by (simp split: option.split)
  moreover have "q = []" if "between1 = id" "between2 = id"
    using that undisturbed_channel(2) [OF reg, of c v] assms(12) by (simp add: seen_def reg k)
  ultimately show ?thesis using ps by blast
qed

definition demo_hello :: node_hello where
  "demo_hello = \<lparr>h_node_id = NodeId ''node-a'', h_token = ''secret'', h_software_version = ''1'',
     h_protocol_version = WIRE_PROTOCOL_VERSION, h_capabilities = JObject [], h_resume_after_sequence = None\<rparr>"

theorem reconnect_replays_queue_witness:
  "\<exists>out db1 conn s'. append_command_bundle plain_codec no_faults 0 (EventId 1) (CommandId 7) demo_draft
       EntityNone (Some (NodeId ''node-a'', HubHeartbeat)) empty_hub = (Inr out, db1)
     \<and> node_handshake plain_codec demo_env no_faults True demo_hello id id (from_hub db1 ''secret'' [])
       = (welcome_accept, Some conn, s')
     \<and> channels s' conn \<noteq> None"
proof -
  obtain out db1 where call: "append_command_bundle plain_codec no_faults 0 (EventId 1) (CommandId 7)
      demo_draft EntityNone (Some (h_node_id demo_hello, HubHeartbeat)) empty_hub = (Inr out, db1)"
    using demo_append by blast
  have cr: "o_created out"
    using append_command_log(1) [OF call] by (simp add: find_receipt_def empty_hub_def)
  let ?s = "from_hub db1 ''secret'' []"
  obtain s' where hs: "node_handshake plain_codec demo_env no_faults True demo_hello id id ?s = (welcome_accept, Some 1, s')"
    using codec_okD(6) [OF plain_codec_ok]
    by (simp add: node_handshake_def negotiate_node_def demo_hello_def negotiate_def welcome_accept_def
        from_hub_def register_node_def)
  obtain s1 where reg: "register_node (h_node_id demo_hello) ?s = (1, s1)"
    by (simp add: register_node_def from_hub_def)
  let ?seen = "on_node_connected plain_codec demo_env demo_hello s1"
  have hub: "(hub_step plain_codec)\<^sup>*\<^sup>* db1 (hs_hub ?seen)"
  proof -
    have "json_wf 126 (h_capabilities demo_hello)" by (simp add: demo_hello_def)
    from on_node_connected_rel [OF demo_env_ok this, of plain_codec s1] have "(hub_step plain_codec)\<^sup>*\<^sup>* (hs_hub s1) (hs_hub ?seen)"
      unfolding hs_rel_def by blast
    moreover have "hs_hub s1 = db1" using reg by (auto simp: register_node_def from_hub_def Let_def)
    ultimately show ?thesis by simp
  qed
  have "channels s' 1 \<noteq> None"
    using reconnect_replays_queue [OF plain_codec_ok hub_reachable_empty demo_ok(1,2) _ call cr hs]
      hub undisturbed_channel [OF reg, of plain_codec demo_env]
    by (auto simp: reg)
  with call hs show ?thesis by (auto simp: demo_hello_def)
qed

text \<open>Both ends agree on the outcome of a node's handshake. The hub accepts the hello of a
  configured node if and only if its token is the shared secret; it registers a connection
  exactly then; otherwise its state is untouched and the node's attempt ends in the rejection
  \<open>Unauthenticated\<close>, which stops the supervisor for good.\<close>

theorem node_handshake_agrees:
  assumes "codec_ok c" and "node_handshake c v io True (hello_of config) b1 b2 s = (w, conn, s')"
  shows "if nc_token config = node_secret s
    then conn = Some (next_node_connection_id s)
      \<and> connect_once (Some True) True (Some (Some w)) (Some ()) = Disconnected True
    else conn = None \<and> s' = s
      \<and> connect_once (Some True) True (Some (Some w)) r = Rejected Unauthenticated
      \<and> run_with_engine rnd nanos stop config i attempt
          (connect_once (Some True) True (Some (Some w)) r # ends) = ([], Some (RunErr Unauthenticated))"
  using assms(2) codec_okD(6) [OF assms(1)]
  by (auto simp: node_handshake_def negotiate_node_def hello_of_def negotiate_def welcome_accept_def
      welcome_reject_def connect_once_def register_node_def Let_def split: if_splits)

theorem node_handshake_agrees_witness:
  "\<exists>w s'. node_handshake plain_codec demo_env no_faults True (hello_of demo_config) id id demo_hub
      = (w, Some (next_node_connection_id demo_hub), s')
    \<and> connect_once (Some True) True (Some (Some w)) (Some ()) = Disconnected True"
proof -
  obtain w conn s' where h: "node_handshake plain_codec demo_env no_faults True (hello_of demo_config) id id demo_hub
      = (w, conn, s')" by (metis prod_cases3)
  have "nc_token demo_config = node_secret demo_hub"
    by (simp add: demo_config_def node_config_new_def demo_hub_def from_hub_def)
  then show ?thesis using node_handshake_agrees [OF plain_codec_ok h] h by auto
qed

text \<open>The end of a connection removes the node exactly if that connection still owns the
  node's slot. A connection that was superseded by a reconnect leaves the store, the registry
  and every other channel as they are, so a late close can neither mark the reconnected node
  as gone nor cut it off.\<close>

theorem disconnect_only_own_slot:
  "if map_of (hs_nodes s) node = Some conn
   then map_of (hs_nodes (node_disconnect c v node conn s)) = (map_of (hs_nodes s))(node := None)
   else node_disconnect c v node conn s = s\<lparr>channels := (channels s)(conn := None)\<rparr>"
proof (cases "map_of (hs_nodes s) node = Some conn")
  case True
  let ?s1 = "s\<lparr>hs_nodes := filter (\<lambda>p. fst p \<noteq> node) (hs_nodes s)\<rparr>"
  have un: "unregister_node node conn s = (True, ?s1)" using True by (simp add: unregister_node_def)
  have "hs_nodes (node_disconnect c v node conn s) = filter (\<lambda>p. fst p \<noteq> node) (hs_nodes s)"
    by (simp add: node_disconnect_def un on_node_disconnected_nodes Let_def)
  then show ?thesis using True by (simp add: map_of_filter_neq)
next
  case False
  then show ?thesis by (simp add: node_disconnect_def unregister_node_def)
qed

end
