(* ===== verification/Outbox.thy ===== *)
theory Outbox
  imports Protocol
begin

text \<open>
  The node's outbox (\<open>crates/stackhour-node/src/engine.rs\<close>, \<open>EngineOutbox\<close>): the events that
  the hub has not acknowledged yet, in the order they were emitted, and the channel of the
  current session if there is one. An operation that sends returns the messages and the
  channel it took under the lock; the sends themselves happen later, one by one.
\<close>

subsection \<open>Operations\<close>

record outbox =
  ob_tx :: "nat option"
  pending_events :: "(event_id \<times> node_to_hub) list"

definition outbox_persistent :: outbox where
  "outbox_persistent = \<lparr>ob_tx = None, pending_events = []\<rparr>"

definition attach :: "nat \<Rightarrow> outbox \<Rightarrow> node_to_hub list \<times> outbox" where
  "attach tx ob = (map snd (pending_events ob), ob\<lparr>ob_tx := Some tx\<rparr>)"

definition detach :: "outbox \<Rightarrow> outbox" where
  "detach ob = ob\<lparr>ob_tx := None\<rparr>"

definition resend_pending :: "outbox \<Rightarrow> (nat \<times> node_to_hub list) option" where
  "resend_pending ob = map_option (\<lambda>tx. (tx, map snd (pending_events ob))) (ob_tx ob)"

fun remove_event :: "event_id \<Rightarrow> (event_id \<times> node_to_hub) list \<Rightarrow> (event_id \<times> node_to_hub) list" where
  "remove_event eid [] = []"
| "remove_event eid ((pending, message) # rest) =
     (if pending = eid then rest else (pending, message) # remove_event eid rest)"

definition acknowledge_event :: "event_id \<Rightarrow> outbox \<Rightarrow> outbox" where
  "acknowledge_event eid ob = ob\<lparr>pending_events := remove_event eid (pending_events ob)\<rparr>"

text \<open>\<open>eid\<close> is the freshly minted event id.\<close>

definition emit_draft :: "event_id \<Rightarrow> event_draft \<Rightarrow> outbox \<Rightarrow> (nat \<times> node_to_hub) option \<times> outbox" where
  "emit_draft eid draft ob =
     (let msg = NodeEvent eid draft in
      (map_option (\<lambda>tx. (tx, msg)) (ob_tx ob),
       ob\<lparr>pending_events := pending_events ob @ [(eid, msg)]\<rparr>))"

definition emit ::
  "node_id \<Rightarrow> time \<Rightarrow> event_id \<Rightarrow> event_kind \<Rightarrow> task_id \<Rightarrow> run_id option \<Rightarrow> json \<Rightarrow> outbox
   \<Rightarrow> (nat \<times> node_to_hub) option \<times> outbox" where
  "emit node now eid kind tid rid payload ob =
     (let draft = event_draft_new now kind tid node;
          draft1 = (case rid of Some r \<Rightarrow> with_run draft r | None \<Rightarrow> draft)
      in emit_draft eid (with_payload draft1 payload) ob)"

definition outbox_ack :: "command_id \<Rightarrow> outbox \<Rightarrow> (nat \<times> node_to_hub) option" where
  "outbox_ack cid ob = map_option (\<lambda>tx. (tx, CommandAck cid)) (ob_tx ob)"

subsection \<open>Acknowledged events leave, all others stay in order\<close>

lemma remove_event_set: "set (remove_event eid ps) \<subseteq> set ps"
  by (induction ps) (auto split: if_splits)

lemma remove_event_other: "p \<in> set ps \<Longrightarrow> fst p \<noteq> eid \<Longrightarrow> p \<in> set (remove_event eid ps)"
  by (induction ps) auto

lemma remove_event_filter:
  "distinct (map fst ps) \<Longrightarrow> remove_event eid ps = filter (\<lambda>p. fst p \<noteq> eid) ps"
proof (induction ps)
  case (Cons p ps)
  have "filter (\<lambda>q. fst q \<noteq> fst p) ps = ps"
    using Cons.prems by (intro filter_True ballI) (metis distinct.simps(2) imageI list.set_map list.simps(9))
  then show ?case using Cons by (cases p) auto
qed simp

end
