(* ===== verification/Delivery.thy ===== *)
theory Delivery
  imports Node_Link Outbox
begin

text \<open>
  End to end from a node's outbox to the hub's log. The interface \<open>event_sink\<close> states what
  the outbox relies on in a hub: what handling an event frame may do to the log, and what
  an acknowledgement means. Any number of sessions come and go; frames of a session are
  handled in order, or lost with it; an event is re-sent at every attach and heartbeat.

  \<open>nt_sending\<close> holds the sends that tasks of the node have under way, \<open>nt_wire\<close> the frames a
  session has accepted and the hub has not handled. \<open>nt_acks\<close> are the ids for which the hub
  has routed an acknowledgement to this node, delivered at any later time or never.
  \<open>nt_emitted\<close> and \<open>nt_refused\<close> record the history: the events emitted, and those the hub
  refused as invalid.
\<close>

subsection \<open>The network of one node and the hub\<close>

datatype verdict = Settled | Refused | Unanswered

record 's net =
  nt_hub :: 's
  nt_ob :: outbox
  nt_sending :: "(nat \<times> node_to_hub list) list"
  nt_wire :: "nat \<Rightarrow> node_to_hub list"
  nt_acks :: "event_id set"
  nt_emitted :: "(event_id \<times> event_draft) list"
  nt_refused :: "event_id set"

definition net_init :: "'s \<Rightarrow> 's net" where
  "net_init s = \<lparr>nt_hub = s, nt_ob = outbox_persistent, nt_sending = [], nt_wire = (\<lambda>_. []),
     nt_acks = {}, nt_emitted = [], nt_refused = {}\<rparr>"

definition start_send :: "(nat \<times> node_to_hub list) option \<Rightarrow> 's net \<Rightarrow> 's net" where
  "start_send job n = (case job of None \<Rightarrow> n | Some j \<Rightarrow> n\<lparr>nt_sending := j # nt_sending n\<rparr>)"

definition log_ids :: "event list \<Rightarrow> event_id set" where
  "log_ids es = e_event_id ` set es"

definition net_handled :: "event_id \<Rightarrow> verdict \<Rightarrow> 's \<Rightarrow> 's net \<Rightarrow> 's net" where
  "net_handled eid r s' n =
     n\<lparr>nt_hub := s', nt_acks := (if r = Unanswered then nt_acks n else insert eid (nt_acks n)),
       nt_refused := (if r = Refused then insert eid (nt_refused n) else nt_refused n)\<rparr>"

text \<open>\<open>other\<close> is anything else that happens in the hub, \<open>handle\<close> the hub's handling of an event
  frame. Event ids are minted fresh: no event of the log has the id of a new event, and the
  hub's other activity does not log an event under an id that this node has emitted.\<close>

inductive net_step ::
  "('s \<Rightarrow> event list) \<Rightarrow> ('s \<Rightarrow> 's \<Rightarrow> bool) \<Rightarrow> ('v \<Rightarrow> event_id \<Rightarrow> event_draft \<Rightarrow> 's \<Rightarrow> verdict \<times> 's)
   \<Rightarrow> ('v \<Rightarrow> bool) \<Rightarrow> 's net \<Rightarrow> 's net \<Rightarrow> bool"
  for log other handle good where
  net_other: "other (nt_hub n) s' \<Longrightarrow>
     log_ids (log s') \<inter> fst ` set (nt_emitted n) \<subseteq> log_ids (log (nt_hub n)) \<Longrightarrow>
     net_step log other handle good n (n\<lparr>nt_hub := s'\<rparr>)"
| net_emit: "eid \<notin> fst ` set (nt_emitted n) \<Longrightarrow> eid \<notin> log_ids (log (nt_hub n)) \<Longrightarrow> draft_ok d \<Longrightarrow>
     emit_draft eid d (nt_ob n) = (job, ob') \<Longrightarrow>
     net_step log other handle good n
       (start_send (map_option (\<lambda>(tx, m). (tx, [m])) job)
          (n\<lparr>nt_ob := ob', nt_emitted := (eid, d) # nt_emitted n\<rparr>))"
| net_ack_command: "outbox_ack cid (nt_ob n) = job \<Longrightarrow>
     net_step log other handle good n (start_send (map_option (\<lambda>(tx, m). (tx, [m])) job) n)"
| net_heartbeat: "net_step log other handle good n (start_send (Some (tx, [NodeHeartbeat])) n)"
| net_attach: "attach tx (nt_ob n) = (ms, ob') \<Longrightarrow>
     net_step log other handle good n (start_send (Some (tx, ms)) (n\<lparr>nt_ob := ob'\<rparr>))"
| net_detach: "net_step log other handle good n (n\<lparr>nt_ob := detach (nt_ob n)\<rparr>)"
| net_resend: "net_step log other handle good n (start_send (resend_pending (nt_ob n)) n)"
| net_send: "nt_sending n = js @ (tx, m # ms) # ks \<Longrightarrow>
     net_step log other handle good n
       (n\<lparr>nt_sending := js @ (tx, ms) # ks, nt_wire := (nt_wire n)(tx := nt_wire n tx @ [m])\<rparr>)"
| net_stop: "nt_sending n = js @ j # ks \<Longrightarrow> net_step log other handle good n (n\<lparr>nt_sending := js @ ks\<rparr>)"
| net_lose: "net_step log other handle good n (n\<lparr>nt_wire := (nt_wire n)(tx := [])\<rparr>)"
| net_event: "nt_wire n tx = NodeEvent eid d # q \<Longrightarrow> good v \<Longrightarrow> handle v eid d (nt_hub n) = (r, s') \<Longrightarrow>
     net_step log other handle good n (net_handled eid r s' (n\<lparr>nt_wire := (nt_wire n)(tx := q)\<rparr>))"
| net_frame: "nt_wire n tx = m # q \<Longrightarrow> (\<And>eid d. m \<noteq> NodeEvent eid d) \<Longrightarrow> other (nt_hub n) s' \<Longrightarrow>
     log_ids (log s') \<inter> fst ` set (nt_emitted n) \<subseteq> log_ids (log (nt_hub n)) \<Longrightarrow>
     net_step log other handle good n (n\<lparr>nt_wire := (nt_wire n)(tx := q), nt_hub := s'\<rparr>)"
| net_acked: "eid \<in> nt_acks n \<Longrightarrow>
     net_step log other handle good n (n\<lparr>nt_ob := acknowledge_event eid (nt_ob n)\<rparr>)"

subsection \<open>The invariant\<close>

definition in_flight :: "'s net \<Rightarrow> node_to_hub set" where
  "in_flight n = (\<Union>j \<in> set (nt_sending n). set (snd j)) \<union> (\<Union>tx. set (nt_wire n tx))
     \<union> snd ` set (pending_events (nt_ob n))"

text \<open>Frames carry emitted events only; the emitted ids are distinct.\<close>

definition frames_ok :: "'s net \<Rightarrow> bool" where
  "frames_ok n \<longleftrightarrow> (\<forall>eid d. NodeEvent eid d \<in> in_flight n \<longrightarrow> (eid, d) \<in> set (nt_emitted n))"

definition history_ok :: "'s net \<Rightarrow> bool" where
  "history_ok n \<longleftrightarrow> distinct (map fst (nt_emitted n)) \<and> (\<forall>p \<in> set (nt_emitted n). draft_ok (snd p))"

text \<open>An emitted event is pending until it is acknowledged, and only a logged or refused event is.\<close>

definition kept_ok :: "'s net \<Rightarrow> bool" where
  "kept_ok n \<longleftrightarrow> (\<forall>eid d. (eid, d) \<in> set (nt_emitted n) \<longrightarrow>
     (eid, NodeEvent eid d) \<in> set (pending_events (nt_ob n)) \<or> eid \<in> nt_acks n)"

definition acks_ok :: "event list \<Rightarrow> 's net \<Rightarrow> bool" where
  "acks_ok es n \<longleftrightarrow> nt_acks n \<subseteq> log_ids es \<union> nt_refused n"

text \<open>What the log holds under an emitted id is that event.\<close>

definition content_ok :: "event list \<Rightarrow> 's net \<Rightarrow> bool" where
  "content_ok es n \<longleftrightarrow> (\<forall>e \<in> set es. \<forall>d. (e_event_id e, d) \<in> set (nt_emitted n) \<longrightarrow>
     (\<exists>q t. e = stamp q (e_event_id e) None d t))"

lemma start_send_simps [simp]:
  "nt_hub (start_send job n) = nt_hub n" "nt_ob (start_send job n) = nt_ob n"
  "nt_acks (start_send job n) = nt_acks n" "nt_emitted (start_send job n) = nt_emitted n"
  "nt_refused (start_send job n) = nt_refused n" "nt_wire (start_send job n) = nt_wire n"
  by (simp_all add: start_send_def split: option.splits)

lemma start_send_sending:
  "set (nt_sending (start_send job n)) = set_option job \<union> set (nt_sending n)"
  by (auto simp: start_send_def split: option.splits)

lemma net_handled_simps [simp]:
  "nt_hub (net_handled eid r s' n) = s'" "nt_ob (net_handled eid r s' n) = nt_ob n"
  "nt_emitted (net_handled eid r s' n) = nt_emitted n" "nt_wire (net_handled eid r s' n) = nt_wire n"
  "nt_sending (net_handled eid r s' n) = nt_sending n"
  by (simp_all add: net_handled_def)

lemma frames_ok_step:
  assumes "net_step lg other handle good n n'" and "frames_ok n"
  shows "frames_ok n'"
  using assms
proof (induction rule: net_step.induct)
  case (net_emit eid n d job ob')
  let ?n = "start_send (map_option (\<lambda>(tx, m). (tx, [m])) job) (n\<lparr>nt_ob := ob', nt_emitted := (eid, d) # nt_emitted n\<rparr>)"
  have "in_flight ?n \<subseteq> insert (NodeEvent eid d) (in_flight n)"
    using net_emit.hyps by (auto simp: in_flight_def start_send_sending emit_draft_def Let_def)
  then show ?case using net_emit.prems by (auto simp: frames_ok_def)
next
  case (net_acked eid n)
  have "in_flight (n\<lparr>nt_ob := acknowledge_event eid (nt_ob n)\<rparr>) \<subseteq> in_flight n"
    using remove_event_set [of eid "pending_events (nt_ob n)"]
    by (fastforce simp: in_flight_def acknowledge_event_def)
  then show ?case using net_acked.prems by (auto simp: frames_ok_def)
next
  case (net_send n js tx m ms ks)
  then show ?case by (auto simp: frames_ok_def in_flight_def split: if_splits)
next
  case (net_event n tx eid d q v r s')
  have "nt_wire n tx = NodeEvent eid d # q" by fact
  then have "set q \<subseteq> set (nt_wire n tx)" by auto
  then show ?case using net_event.prems by (fastforce simp: frames_ok_def in_flight_def split: if_splits)
next
  case (net_frame n tx m q s')
  have "set q \<subseteq> set (nt_wire n tx)" using net_frame by auto
  then show ?case using net_frame.prems by (fastforce simp: frames_ok_def in_flight_def split: if_splits)
qed (fastforce simp: frames_ok_def in_flight_def start_send_sending attach_def detach_def resend_pending_def
    outbox_ack_def split: if_splits)+

lemma history_ok_step:
  "net_step lg other handle good n n' \<Longrightarrow> history_ok n \<Longrightarrow> history_ok n'"
  by (induction rule: net_step.induct) (auto simp: history_ok_def)

lemma kept_ok_step:
  assumes "net_step lg other handle good n n'" and "kept_ok n"
  shows "kept_ok n'"
  using assms
proof (induction rule: net_step.induct)
  case (net_emit eid n d job ob')
  then have "pending_events ob' = pending_events (nt_ob n) @ [(eid, NodeEvent eid d)]"
    by (auto simp: emit_draft_def Let_def)
  then show ?case using net_emit.prems by (simp add: kept_ok_def)
next
  case (net_acked eid n)
  then show ?case
    using remove_event_other [of _ "pending_events (nt_ob n)" eid]
    by (fastforce simp: kept_ok_def acknowledge_event_def)
next
  case (net_event n tx eid d q v r s')
  then show ?case by (auto simp: kept_ok_def net_handled_def)
qed (auto simp: kept_ok_def attach_def detach_def)

subsection \<open>What a node's outbox relies on\<close>

locale event_sink =
  fixes inv :: "'s \<Rightarrow> bool"
    and log :: "'s \<Rightarrow> event list"
    and other :: "'s \<Rightarrow> 's \<Rightarrow> bool"
    and handle :: "'v \<Rightarrow> event_id \<Rightarrow> event_draft \<Rightarrow> 's \<Rightarrow> verdict \<times> 's"
    and good :: "'v \<Rightarrow> bool"
  assumes other_inv: "inv s \<Longrightarrow> other s s' \<Longrightarrow> inv s'"
    and other_log: "inv s \<Longrightarrow> other s s' \<Longrightarrow> \<exists>es. log s' = log s @ es"
    and handle_inv: "inv s \<Longrightarrow> good v \<Longrightarrow> draft_ok d \<Longrightarrow> handle v eid d s = (r, s') \<Longrightarrow> inv s'"
    and handle_log: "inv s \<Longrightarrow> good v \<Longrightarrow> draft_ok d \<Longrightarrow> handle v eid d s = (r, s') \<Longrightarrow>
          log s' = log s \<or> (\<exists>q t. log s' = log s @ [stamp q eid None d t])"
    and handle_settled: "inv s \<Longrightarrow> good v \<Longrightarrow> draft_ok d \<Longrightarrow> handle v eid d s = (Settled, s') \<Longrightarrow>
          eid \<in> log_ids (log s')"
    and log_distinct: "inv s \<Longrightarrow> distinct (map e_event_id (log s))"
begin

definition net_inv :: "'s net \<Rightarrow> bool" where
  "net_inv n \<longleftrightarrow> inv (nt_hub n) \<and> frames_ok n \<and> history_ok n \<and> kept_ok n
     \<and> acks_ok (log (nt_hub n)) n \<and> content_ok (log (nt_hub n)) n"

lemma event_frame_ok:
  assumes "net_inv n" and "nt_wire n tx = NodeEvent eid d # q"
  shows "(eid, d) \<in> set (nt_emitted n)" and "draft_ok d"
proof -
  have "NodeEvent eid d \<in> set (nt_wire n tx)" using assms(2) by simp
  then have "NodeEvent eid d \<in> in_flight n" unfolding in_flight_def by blast
  then show "(eid, d) \<in> set (nt_emitted n)" using assms(1) by (simp add: net_inv_def frames_ok_def)
  then show "draft_ok d" using assms(1) by (force simp: net_inv_def history_ok_def)
qed

lemma log_ids_append [simp]: "log_ids (es @ fs) = log_ids es \<union> log_ids fs"
  by (auto simp: log_ids_def)

text \<open>The log grows by events that are none of the node's, or that one event.\<close>

lemma log_grows:
  assumes "acks_ok es n" and "content_ok es n"
    and "log_ids fs \<inter> fst ` set (nt_emitted n) \<subseteq> log_ids es" and "distinct (map e_event_id (es @ fs))"
  shows "acks_ok (es @ fs) n" and "content_ok (es @ fs) n"
proof -
  show "acks_ok (es @ fs) n" using assms(1) by (auto simp: acks_ok_def)
  have "e_event_id e \<notin> fst ` set (nt_emitted n)" if "e \<in> set fs" for e
    using assms(3,4) that by (auto simp: log_ids_def)
  then show "content_ok (es @ fs) n" using assms(2) by (force simp: content_ok_def)
qed

lemma other_keeps:
  assumes "net_inv n" and "other (nt_hub n) s'"
    and "log_ids (log s') \<inter> fst ` set (nt_emitted n) \<subseteq> log_ids (log (nt_hub n))"
  shows "inv s'" and "acks_ok (log s') n" and "content_ok (log s') n"
proof -
  have i: "inv (nt_hub n)" "acks_ok (log (nt_hub n)) n" "content_ok (log (nt_hub n)) n"
    using assms(1) by (simp_all add: net_inv_def)
  show i': "inv s'" by (rule other_inv [OF i(1) assms(2)])
  obtain es where es: "log s' = log (nt_hub n) @ es" using other_log [OF i(1) assms(2)] by blast
  show "acks_ok (log s') n" and "content_ok (log s') n"
    using log_grows [OF i(2,3), of es] assms(3) log_distinct [OF i'] by (auto simp: es)
qed

lemma handle_keeps:
  assumes "net_inv n" and "good v" and wire: "nt_wire n tx = NodeEvent eid d # q"
    and "handle v eid d (nt_hub n) = (r, s')"
  shows "inv s'" and "acks_ok (log s') (net_handled eid r s' n)" and "content_ok (log s') n"
proof -
  note ev = event_frame_ok [OF assms(1) wire]
  have i: "inv (nt_hub n)" "acks_ok (log (nt_hub n)) n" "content_ok (log (nt_hub n)) n" "history_ok n"
    using assms(1) by (simp_all add: net_inv_def)
  show i': "inv s'" by (rule handle_inv [OF i(1) assms(2) ev(2) assms(4)])
  have lg: "log s' = log (nt_hub n) \<or> (\<exists>k t. log s' = log (nt_hub n) @ [stamp k eid None d t])"
    by (rule handle_log [OF i(1) assms(2) ev(2) assms(4)])
  then have "acks_ok (log s') n" using i(2) by (auto simp: acks_ok_def)
  moreover have "eid \<in> log_ids (log s')" if "r = Settled"
    using handle_settled [OF i(1) assms(2) ev(2)] assms(4) that by blast
  ultimately show "acks_ok (log s') (net_handled eid r s' n)"
    by (cases r) (auto simp: acks_ok_def net_handled_def)
  have "d' = d" if "(eid, d') \<in> set (nt_emitted n)" for d'
    using i(4) ev(1) that by (auto simp: history_ok_def dest: eq_key_imp_eq_value)
  then show "content_ok (log s') n" using lg i(3) by (auto simp: content_ok_def stamp_def)
qed

lemma acks_content_same:
  assumes "nt_acks n' = nt_acks n" and "nt_refused n' = nt_refused n" and "nt_emitted n' = nt_emitted n"
  shows "acks_ok es n' = acks_ok es n" and "content_ok es n' = content_ok es n"
  using assms by (simp_all add: acks_ok_def content_ok_def)

lemma net_inv_step:
  assumes "net_step log other handle good n n'" and inv: "net_inv n"
  shows "net_inv n'"
proof -
  have keep: "frames_ok n'" "history_ok n'" "kept_ok n'"
    using inv frames_ok_step [OF assms(1)] history_ok_step [OF assms(1)] kept_ok_step [OF assms(1)]
    by (simp_all add: net_inv_def)
  have i: "inv (nt_hub n)" "acks_ok (log (nt_hub n)) n" "content_ok (log (nt_hub n)) n"
    using inv by (simp_all add: net_inv_def)
  from assms(1) have "inv (nt_hub n') \<and> acks_ok (log (nt_hub n')) n' \<and> content_ok (log (nt_hub n')) n'"
  proof cases
    case (net_other s')
    then show ?thesis using other_keeps [OF inv net_other(2,3)] acks_content_same [of n' n] by simp
  next
    case (net_frame tx m q s')
    then show ?thesis using other_keeps [OF inv net_frame(4,5)] acks_content_same [of n' n] by simp
  next
    case (net_event tx eid d q v r s')
    note h = handle_keeps [OF inv net_event(3,2,4)]
    have "acks_ok (log s') n' = acks_ok (log s') (net_handled eid r s' n)"
      unfolding net_event(1) by (simp add: acks_ok_def net_handled_def)
    moreover have "content_ok (log s') n' = content_ok (log s') n"
      unfolding net_event(1) by (simp add: content_ok_def net_handled_def)
    ultimately show ?thesis using h net_event(1) by simp
  next
    case (net_emit eid d job ob')
    have "e_event_id e \<noteq> eid" if "e \<in> set (log (nt_hub n))" for e
      using net_emit(3) that by (auto simp: log_ids_def)
    then show ?thesis using i unfolding net_emit(1) by (simp add: acks_ok_def content_ok_def)
  qed (use i acks_content_same [of n' n] in simp_all)
  with keep show ?thesis by (simp add: net_inv_def)
qed

lemma net_inv_init: "inv s \<Longrightarrow> net_inv (net_init s)"
  by (simp add: net_inv_def net_init_def frames_ok_def in_flight_def history_ok_def kept_ok_def acks_ok_def
      content_ok_def outbox_persistent_def)

lemma net_inv_steps: "(net_step log other handle good)\<^sup>*\<^sup>* n n' \<Longrightarrow> net_inv n \<Longrightarrow> net_inv n'"
  by (induction rule: rtranclp_induct) (auto intro: net_inv_step)

text \<open>An emitted event is pending, refused or logged; what is logged under its id is that event,
  and it is logged once.\<close>

lemma event_delivery:
  assumes "inv s" and "(net_step log other handle good)\<^sup>*\<^sup>* (net_init s) n"
    and "(eid, d) \<in> set (nt_emitted n)"
  shows "((eid, NodeEvent eid d) \<in> set (pending_events (nt_ob n)) \<or> eid \<in> nt_refused n
      \<or> (\<exists>e \<in> set (log (nt_hub n)). e_event_id e = eid))
    \<and> (\<forall>e \<in> set (log (nt_hub n)). e_event_id e = eid \<longrightarrow> (\<exists>q t. e = stamp q eid None d t))
    \<and> length (filter (\<lambda>e. e_event_id e = eid) (log (nt_hub n))) \<le> 1"
proof (intro conjI)
  have n: "net_inv n" using net_inv_steps [OF assms(2)] net_inv_init [OF assms(1)] by blast
  show "(eid, NodeEvent eid d) \<in> set (pending_events (nt_ob n)) \<or> eid \<in> nt_refused n
      \<or> (\<exists>e \<in> set (log (nt_hub n)). e_event_id e = eid)"
    using n assms(3) by (fastforce simp: net_inv_def kept_ok_def acks_ok_def log_ids_def)
  show "\<forall>e \<in> set (log (nt_hub n)). e_event_id e = eid \<longrightarrow> (\<exists>q t. e = stamp q eid None d t)"
    using n assms(3) by (auto simp: net_inv_def content_ok_def)
  show "length (filter (\<lambda>e. e_event_id e = eid) (log (nt_hub n))) \<le> 1"
    by (rule filter_key_at_most_one [where key = e_event_id and k = eid])
      (use n log_distinct in \<open>simp_all add: net_inv_def\<close>)
qed

end

subsection \<open>The hub is such a sink\<close>

text \<open>Which answer \<open>handle_node\<close> routes for an event frame.\<close>

definition event_verdict :: "'j codec \<Rightarrow> env \<Rightarrow> node_id \<Rightarrow> event_id \<Rightarrow> event_draft \<Rightarrow> 'j hub_state \<Rightarrow> verdict" where
  "event_verdict c v node eid draft s =
     (case accepts_node_event c (v_io v 0) node draft s of
        (Inr False, _) \<Rightarrow> Refused
      | (Inr True, s1) \<Rightarrow>
          (case append_and_broadcast_node_event c (v_io v 2) (v_clock v 2) eid draft s1 of
             (Inr _, _) \<Rightarrow> Settled
           | (Inl _, _) \<Rightarrow> Unanswered)
      | (Inl _, _) \<Rightarrow> Unanswered)"

definition hub_handle ::
  "'j codec \<Rightarrow> node_id \<Rightarrow> env \<Rightarrow> event_id \<Rightarrow> event_draft \<Rightarrow> 'j hub_state \<Rightarrow> verdict \<times> 'j hub_state" where
  "hub_handle c node v eid draft s =
     (event_verdict c v node eid draft s, node_on_message c v node (NodeEvent eid draft) s)"

definition hub_ok :: "'j codec \<Rightarrow> 'j hub_state \<Rightarrow> bool" where
  "hub_ok c s \<longleftrightarrow> durable_inv c (hs_hub s)"

definition hub_log :: "'j codec \<Rightarrow> 'j hub_state \<Rightarrow> event list" where
  "hub_log c s = event_log c (hs_hub s)"

text \<open>An acknowledgement is routed exactly when the verdict is an answer.\<close>

lemma route_to_node_hub: "hs_hub (snd (route_to_node node m s)) = hs_hub s"
  by (simp add: route_to_node_def chan_send_def split: option.splits)

lemma accepts_node_event_hub: "accepts_node_event c io node d s = (r, s1) \<Longrightarrow> hs_hub s1 = hs_hub s"
  by (auto simp: accepts_node_event_def run_binding_checked_def remember_run_def
      split: if_splits option.splits sum.splits prod.splits)

lemma append_node_event_outcome:
  assumes "durable_inv c (hs_hub s)" and "draft_ok d" and "time_ok now"
    and "append_and_broadcast_node_event c io now eid d s = (r, s')"
  shows "event_log c (hs_hub s') = event_log c (hs_hub s)
      \<or> (\<exists>q. event_log c (hs_hub s') = event_log c (hs_hub s) @ [stamp q eid None d now])"
    and "r = Inr out \<Longrightarrow> eid \<in> log_ids (event_log c (hs_hub s'))"
proof -
  let ?h = "hs_hub s"
  obtain r0 h where call: "append_node_event c io now eid d ?h = (r0, h)" by fastforce
  have h: "hs_hub s' = h"
    using broadcast_frames [OF assms(4) [unfolded append_and_broadcast_node_event_def]] call by simp
  have ok: "codec_ok c" "log_inv c ?h" using assms(1) by (simp_all add: durable_inv_def)
  have new: "event_log c h = event_log c ?h @ [stamp (o_sequence o0) eid None d now]"
    if "r0 = Inr o0" "find_event_row c eid ?h = None" for o0
    by (rule event_log_snoc [OF row_to_event_of [OF ok(1) assms(2,3)]
          append_node_event_log(5) [OF call [unfolded that(1)] that(2)]])
  have old: "h = ?h" if "r0 = Inr o0" "find_event_row c eid ?h = Some row" for o0 row
    using call [unfolded that(1)] by (cases rule: append_node_event_cases) (use that in auto)
  have err: "h = ?h" if "r0 = Inl e" for e using call that by (auto dest: append_node_event_error)
  show "event_log c (hs_hub s') = event_log c ?h
      \<or> (\<exists>q. event_log c (hs_hub s') = event_log c ?h @ [stamp q eid None d now])"
    unfolding h using new old err by (cases r0; cases "find_event_row c eid ?h") auto
  assume "r = Inr out"
  then obtain o0 where o0: "r0 = Inr o0"
    using assms(4) call
    by (cases r0) (auto simp: append_and_broadcast_node_event_def broadcast_new_def with_hub_def)
  show "eid \<in> log_ids (event_log c (hs_hub s'))"
  proof (cases "find_event_row c eid ?h")
    case None
    then show ?thesis using new [OF o0] by (simp add: h log_ids_def stamp_def)
  next
    case (Some row)
    then have "row \<in> set (events ?h)" "ev_event_id row = event_id_str c eid"
      by (auto simp: find_event_row_def find_Some_iff)
    then obtain e where "e \<in> set (event_log c ?h)" "event_id_str c (e_event_id e) = event_id_str c eid"
      using logged_row [OF ok(2)] by metis
    then show ?thesis using old [OF o0 Some] id_str_inj [OF ok(1)] by (auto simp: h log_ids_def)
  qed
qed

text \<open>What the handler does to the log, by its verdict.\<close>

lemma hub_handle_log:
  assumes inv: "durable_inv c (hs_hub s)" and v: "env_ok P v" and d: "draft_ok d"
    and call: "hub_handle c node v eid d s = (r, s')"
  shows "event_log c (hs_hub s') = event_log c (hs_hub s)
      \<or> (\<exists>q t. event_log c (hs_hub s') = event_log c (hs_hub s) @ [stamp q eid None d t])"
    and "r = Settled \<Longrightarrow> eid \<in> log_ids (event_log c (hs_hub s'))"
proof -
  obtain ra s1 where acc: "accepts_node_event c (v_io v 0) node d s = (ra, s1)" by fastforce
  obtain rb s2 where app: "append_and_broadcast_node_event c (v_io v 2) (v_clock v 2) eid d s1 = (rb, s2)"
    by fastforce
  have h1: "hs_hub s1 = hs_hub s" by (rule accepts_node_event_hub [OF acc])
  have inv1: "durable_inv c (hs_hub s1)" "time_ok (v_clock v 2)" using inv v h1 by (simp_all add: env_ok_def)
  note out = append_node_event_outcome [OF inv1(1) d inv1(2) app]
  have "hs_hub s' = hs_hub s \<or> hs_hub s' = hs_hub s2"
    using call h1 [symmetric] unfolding hub_handle_def node_on_message.simps acc prod.case app
    by (auto simp: route_to_node_hub split: sum.splits bool.splits)
  then show "event_log c (hs_hub s') = event_log c (hs_hub s)
      \<or> (\<exists>q t. event_log c (hs_hub s') = event_log c (hs_hub s) @ [stamp q eid None d t])"
    using out(1) unfolding h1 by metis
  assume "r = Settled"
  with call have "hs_hub s' = hs_hub s2" and "\<exists>x. rb = Inr x"
    unfolding hub_handle_def event_verdict_def node_on_message.simps acc prod.case app
    by (auto simp: route_to_node_hub split: sum.splits bool.splits)
  with out(2) show "eid \<in> log_ids (event_log c (hs_hub s'))" by auto
qed

lemma hs_rel_durable:
  assumes "hs_rel c P s s'" and "durable_inv c (hs_hub s)"
  shows "durable_inv c (hs_hub s')" and "\<exists>es. event_log c (hs_hub s') = event_log c (hs_hub s) @ es"
proof -
  have "(hub_step c)\<^sup>*\<^sup>* (hs_hub s) (hs_hub s')" using assms(1) by (simp add: hs_rel_def)
  then show "durable_inv c (hs_hub s')" and "\<exists>es. event_log c (hs_hub s') = event_log c (hs_hub s) @ es"
    using assms(2) command_log.steps_inv command_log.steps_log by blast+
qed

interpretation hub_sink: event_sink "hub_ok c" "hub_log c" "hs_step c P" "hub_handle c node" "env_ok P"
  for c P node
proof
  fix s s' :: "'a hub_state"
  assume s: "hub_ok c s"
  show "hub_ok c s'" and "\<exists>es. hub_log c s' = hub_log c s @ es" if "hs_step c P s s'"
    using s hs_rel_durable [OF hs_step_rel [OF that]] by (simp_all add: hub_ok_def hub_log_def)
  show "distinct (map e_event_id (hub_log c s))"
    using s event_log_distinct by (auto simp: hub_ok_def hub_log_def durable_inv_def)
  fix v d eid r
  assume vd: "env_ok P v" "draft_ok d" and call: "hub_handle c node v eid d s = (r, s')"
  have "(hs_step c P)\<^sup>*\<^sup>* s s'"
    using node_on_message_steps [OF vd(1), of "NodeEvent eid d"] vd(2) call by (auto simp: hub_handle_def)
  then show "hub_ok c s'"
    using s hs_rel_durable(1) [OF hs_steps_rel] by (simp add: hub_ok_def)
  show "hub_log c s' = hub_log c s \<or> (\<exists>q t. hub_log c s' = hub_log c s @ [stamp q eid None d t])"
    using hub_handle_log(1) [OF s [unfolded hub_ok_def] vd call] by (simp add: hub_log_def)
next
  fix s s' :: "'a hub_state" and v d eid
  assume "hub_ok c s" "env_ok P v" "draft_ok d" "hub_handle c node v eid d s = (Settled, s')"
  then show "eid \<in> log_ids (hub_log c s')"
    unfolding hub_log_def hub_ok_def by (rule hub_handle_log(2) [OF _ _ _ _ refl])
qed

subsection \<open>Properties\<close>

text \<open>C1: end to end, no event of a node is lost and none is recorded twice. Whatever the
  interleaving of emissions, reconnects, lost sessions, re-sends, late or missing
  acknowledgements, failing store statements and the hub's other activity: every event a
  node has emitted is still in its outbox, or was refused by the hub as not belonging to a run
  of that node, or is in the hub's log; it is there at most once; and what is logged under its
  id is that very event.\<close>

theorem node_event_end_to_end:
  assumes "durable_inv c (hs_hub s)"
    and "(net_step (hub_log c) (hs_step c P) (hub_handle c node) (env_ok P))\<^sup>*\<^sup>* (net_init s) n"
    and "(eid, d) \<in> set (nt_emitted n)"
  shows "((eid, NodeEvent eid d) \<in> set (pending_events (nt_ob n)) \<or> eid \<in> nt_refused n
      \<or> (\<exists>e \<in> set (hub_log c (nt_hub n)). e_event_id e = eid))
    \<and> (\<forall>e \<in> set (hub_log c (nt_hub n)). e_event_id e = eid \<longrightarrow> (\<exists>q t. e = stamp q eid None d t))
    \<and> length (filter (\<lambda>e. e_event_id e = eid) (hub_log c (nt_hub n))) \<le> 1"
  by (rule hub_sink.event_delivery [OF _ assms(2,3)]) (simp add: hub_ok_def assms(1))

text \<open>A node emits one event while it is away; the event is sent on attach, handled and
  acknowledged.\<close>

theorem node_event_end_to_end_witness:
  "\<exists>n. (net_step (hub_log plain_codec) (hs_step plain_codec (\<lambda>io. io = no_faults))
       (hub_handle plain_codec (NodeId ''laptop'')) (env_ok (\<lambda>io. io = no_faults)))\<^sup>*\<^sup>* (net_init demo_hub) n
    \<and> nt_emitted n = [(EventId 1, demo_draft)] \<and> pending_events (nt_ob n) = []
    \<and> (EventId 1 \<in> nt_refused n \<or> (\<exists>e \<in> set (hub_log plain_codec (nt_hub n)). e_event_id e = EventId 1))"
proof -
  let ?step = "net_step (hub_log plain_codec) (hs_step plain_codec (\<lambda>io. io = no_faults))
       (hub_handle plain_codec (NodeId ''laptop'')) (env_ok (\<lambda>io. io = no_faults))"
  let ?m = "NodeEvent (EventId 1) demo_draft"
  let ?n1 = "(net_init demo_hub)\<lparr>nt_ob := \<lparr>ob_tx = None, pending_events = [(EventId 1, ?m)]\<rparr>,
     nt_emitted := [(EventId 1, demo_draft)]\<rparr>"
  have inv: "durable_inv plain_codec (hs_hub demo_hub)"
    using hub_reachable_inv(1) [OF hub_reachable_empty plain_codec_ok] by (simp add: demo_hub_def from_hub_def)
  have "?step (net_init demo_hub) ?n1"
    using net_step.net_emit [of "EventId 1" "net_init demo_hub" "hub_log plain_codec" demo_draft None
        "\<lparr>ob_tx = None, pending_events = [(EventId 1, ?m)]\<rparr>"] demo_ok(1)
    by (simp add: net_init_def outbox_persistent_def emit_draft_def start_send_def log_ids_def hub_log_def
        demo_hub_def from_hub_def event_log_def empty_hub_def)
  moreover
  let ?n2 = "?n1\<lparr>nt_ob := \<lparr>ob_tx = Some 0, pending_events = [(EventId 1, ?m)]\<rparr>, nt_sending := [(0, [?m])]\<rparr>"
  have "?step ?n1 ?n2"
    using net_step.net_attach [of 0 ?n1 "[?m]" "\<lparr>ob_tx = Some 0, pending_events = [(EventId 1, ?m)]\<rparr>"] by (simp add: attach_def start_send_def net_init_def)
  moreover
  let ?n3 = "?n2\<lparr>nt_sending := [(0, [])], nt_wire := (\<lambda>_. [])(0 := [?m])\<rparr>"
  have "?step ?n2 ?n3"
    using net_step.net_send [of ?n2 "[]" 0 ?m "[]" "[]"] by (simp add: net_init_def)
  moreover
  obtain r s' where h: "hub_handle plain_codec (NodeId ''laptop'') demo_env (EventId 1) demo_draft demo_hub = (r, s')"
    by fastforce
  have r: "r \<noteq> Unanswered"
    using h by (simp add: hub_handle_def event_verdict_def accepts_node_event_def demo_draft_def event_draft_new_def)
  let ?n4 = "net_handled (EventId 1) r s' (?n3\<lparr>nt_wire := (\<lambda>_. [])(0 := [])\<rparr>)"
  have "?step ?n3 ?n4"
    using net_step.net_event [where n = ?n3 and tx = 0 and eid = "EventId 1" and d = demo_draft and q = "[]"
        and good = "env_ok (\<lambda>io. io = no_faults)" and v = demo_env and r = r and s' = s'
        and handle = "hub_handle plain_codec (NodeId ''laptop'')"] demo_env_ok h
    by (simp add: net_init_def)
  moreover
  let ?n5 = "?n4\<lparr>nt_ob := acknowledge_event (EventId 1) (nt_ob ?n4)\<rparr>"
  have "?step ?n4 ?n5"
    by (rule net_step.net_acked) (use r in \<open>simp add: net_handled_def\<close>)
  ultimately have steps: "?step\<^sup>*\<^sup>* (net_init demo_hub) ?n5"
    by (meson converse_rtranclp_into_rtranclp rtranclp.rtrancl_refl)
  have em: "nt_emitted ?n5 = [(EventId 1, demo_draft)]" "pending_events (nt_ob ?n5) = []"
    by (simp_all add: acknowledge_event_def)
  from node_event_end_to_end [OF inv steps, of "EventId 1" demo_draft] em
  have "EventId 1 \<in> nt_refused ?n5 \<or> (\<exists>e \<in> set (hub_log plain_codec (nt_hub ?n5)). e_event_id e = EventId 1)"
    by auto
  with steps em show ?thesis by blast
qed

end
