(* ===== verification/Text_Lines.thy ===== *)
theory Text_Lines
  imports Prelude
begin

text \<open>
  The parts of the standard library that the line-oriented files of the tracker rest on:
  UTF-8 validation (\<open>String::from_utf8\<close>, \<open>read_to_string\<close>), its lossy variant
  (\<open>String::from_utf8_lossy\<close>, one U+FFFD per maximal ill-formed part), \<open>split\<close> at newlines and
  \<open>trim\<close>. The lemmas say that all of them respect line boundaries.
\<close>

subsection \<open>UTF-8\<close>

text \<open>The ranges of the continuation bytes that may follow a lead byte.\<close>

definition lead_ranges :: "nat \<Rightarrow> (nat \<times> nat) list option" where
  "lead_ranges b =
     (if b < 128 then Some []
      else if 194 \<le> b \<and> b \<le> 223 then Some [(128, 191)]
      else if 224 \<le> b \<and> b \<le> 239 then
        Some [(if b = 224 then 160 else 128, if b = 237 then 159 else 191), (128, 191)]
      else if 240 \<le> b \<and> b \<le> 244 then
        Some [(if b = 240 then 144 else 128, if b = 244 then 143 else 191), (128, 191), (128, 191)]
      else None)"

text \<open>How many continuation bytes fit, and whether they are all there.\<close>

fun conts :: "(nat \<times> nat) list \<Rightarrow> string \<Rightarrow> bool \<times> nat" where
  "conts [] s = (True, 0)"
| "conts (r # rs) [] = (False, 0)"
| "conts (r # rs) (c # s) =
     (if fst r \<le> byte c \<and> byte c \<le> snd r then (fst (conts rs s), Suc (snd (conts rs s))) else (False, 0))"

definition utf8_chunk :: "char \<Rightarrow> string \<Rightarrow> bool \<times> nat" where
  "utf8_chunk a s = (case lead_ranges (byte a) of None \<Rightarrow> (False, 0) | Some rs \<Rightarrow> conts rs s)"

fun utf8_valid :: "string \<Rightarrow> bool" where
  "utf8_valid [] = True"
| "utf8_valid (a # s) = (fst (utf8_chunk a s) \<and> utf8_valid (drop (snd (utf8_chunk a s)) s))"

definition replacement_character :: string where
  "replacement_character = [CHR 0xEF, CHR 0xBF, CHR 0xBD]"

fun utf8_lossy :: "string \<Rightarrow> string" where
  "utf8_lossy [] = []"
| "utf8_lossy (a # s) =
     (if fst (utf8_chunk a s) then a # take (snd (utf8_chunk a s)) s else replacement_character)
     @ utf8_lossy (drop (snd (utf8_chunk a s)) s)"

subsection \<open>Lines\<close>

abbreviation newline :: char where
  "newline \<equiv> CHR 0x0A"

text \<open>\<open>s.split('\n')\<close>: always at least one part.\<close>

fun split_nl :: "string \<Rightarrow> string list" where
  "split_nl [] = [[]]"
| "split_nl (c # s) =
     (if c = newline then [] # split_nl s
      else (case split_nl s of [] \<Rightarrow> [[c]] | l # ls \<Rightarrow> (c # l) # ls))"

lemma split_nl_nonempty [simp]: "split_nl s \<noteq> []"
  by (cases s) (auto split: list.splits)

lemma split_nl_join [simp]: "split_nl (s @ newline # t) = split_nl s @ split_nl t"
  by (induction s) (auto split: list.splits)

lemma split_nl_single [simp]: "newline \<notin> set s \<Longrightarrow> split_nl s = [s]"
  by (induction s) auto

lemma split_nl_lines:
  "list_all (\<lambda>l. newline \<notin> set l) ls \<Longrightarrow> split_nl (concat (map (\<lambda>l. l @ [newline]) ls) @ t) = ls @ split_nl t"
  by (induction ls) simp_all

text \<open>\<open>trim\<close> strips the white space of both ends, character by character.\<close>

fun char_parts :: "string \<Rightarrow> string list" where
  "char_parts [] = []"
| "char_parts (a # s) = (a # take (char_len a - 1) s) # char_parts (drop (char_len a - 1) s)"

definition trim_matches :: "(nat \<Rightarrow> bool) \<Rightarrow> string \<Rightarrow> string" where
  "trim_matches blank s =
     (let skip = dropWhile (\<lambda>p. blank (decode_char p)) in concat (rev (skip (rev (skip (char_parts s))))))"

definition str_trim :: "string \<Rightarrow> string" where
  "str_trim s = trim_matches is_whitespace s"

subsection \<open>Line boundaries\<close>

lemma byte_newline: "byte newline = 10"
  by (simp add: byte_def)

lemma lead_ranges_high: "lead_ranges b = Some rs \<Longrightarrow> r \<in> set rs \<Longrightarrow> 128 \<le> fst r"
  by (auto simp: lead_ranges_def split: if_splits)

lemma conts_boundary:
  "\<forall>r \<in> set rs. 128 \<le> fst r \<Longrightarrow> conts rs (s @ newline # t) = conts rs s"
  by (induction rs s rule: conts.induct) (auto simp: byte_newline)

lemma conts_extend: "fst (conts rs s) \<Longrightarrow> conts rs (s @ t) = conts rs s"
  by (induction rs s rule: conts.induct) (auto split: if_splits)

lemma conts_length: "snd (conts rs s) \<le> length s"
  by (induction rs s rule: conts.induct) auto

lemma utf8_chunk_boundary [simp]: "utf8_chunk a (s @ newline # t) = utf8_chunk a s"
proof -
  have "conts rs (s @ newline # t) = conts rs s" if "lead_ranges (byte a) = Some rs" for rs
    using lead_ranges_high [OF that] by (intro conts_boundary) blast
  then show ?thesis by (auto simp: utf8_chunk_def split: option.splits)
qed

lemma utf8_chunk_extend: "fst (utf8_chunk a s) \<Longrightarrow> utf8_chunk a (s @ t) = utf8_chunk a s"
  using conts_extend by (auto simp: utf8_chunk_def split: option.splits)

lemma utf8_chunk_length: "snd (utf8_chunk a s) \<le> length s"
  by (auto simp: utf8_chunk_def conts_length split: option.splits)

lemma utf8_chunk_newline [simp]: "utf8_chunk newline s = (True, 0)"
  by (simp add: utf8_chunk_def lead_ranges_def byte_newline)

lemma utf8_valid_append: "utf8_valid s \<Longrightarrow> utf8_valid (s @ t) \<longleftrightarrow> utf8_valid t"
  by (induction s rule: utf8_valid.induct) (auto simp: utf8_chunk_extend utf8_chunk_length)

lemma utf8_valid_lines [simp]: "utf8_valid (s @ newline # t) \<longleftrightarrow> utf8_valid s \<and> utf8_valid t"
  by (induction s rule: utf8_valid.induct) (auto simp: utf8_chunk_length)

lemma utf8_lossy_lines [simp]: "utf8_lossy (s @ newline # t) = utf8_lossy s @ newline # utf8_lossy t"
  by (induction s rule: utf8_lossy.induct) (auto simp: utf8_chunk_length)

lemma conts_high:
  "\<forall>r \<in> set rs. 128 \<le> fst r \<Longrightarrow> newline \<notin> set (take (snd (conts rs s)) s)"
  by (induction rs s rule: conts.induct) (auto simp: byte_newline)

lemma utf8_chunk_high: "newline \<notin> set (take (snd (utf8_chunk a s)) s)"
  using lead_ranges_high [of "byte a"] conts_high by (auto simp: utf8_chunk_def split: option.splits)

text \<open>So decoding line by line gives the lines of the decoded text.\<close>

lemma utf8_lossy_no_newline: "newline \<notin> set s \<Longrightarrow> newline \<notin> set (utf8_lossy s)"
proof (induction s rule: utf8_lossy.induct)
  case (2 a s)
  have "set (drop (snd (utf8_chunk a s)) s) \<subseteq> set s" by (rule set_drop_subset)
  then show ?case
    using 2 utf8_chunk_high [of a s] by (auto simp: replacement_character_def dest: in_set_takeD)
qed simp

lemma newline_cases:
  obtains (none) "newline \<notin> set s" | (some) l t where "s = l @ newline # t" and "newline \<notin> set l"
  using split_list_first [of newline s] by blast

lemma split_nl_lossy: "split_nl (utf8_lossy s) = map utf8_lossy (split_nl s)"
proof (induction "length s" arbitrary: s rule: less_induct)
  case less
  show ?case
  proof (cases s rule: newline_cases)
    case none
    then show ?thesis by (simp add: utf8_lossy_no_newline)
  next
    case (some l t)
    then show ?thesis using less [of t] by (simp add: utf8_lossy_no_newline)
  qed
qed

end
