(* ===== verification/Cli_Engine.thy ===== *)
theory Cli_Engine
  imports Outbox Text_Lines
begin

text \<open>
  The production engine of a node (\<open>CliEngine\<close> in \<open>crates/stackhour-node/src/engine.rs\<close>) and the
  routing of hub messages to it (\<open>handle_hub_message\<close> in \<open>lib.rs\<close>). The child process of a prompt is
  a parameter: it ends with any result, at any time. A job is named by the command that started it.
  The task that the engine spawns for a prompt waits in \<open>cs_tasks\<close> until its process ends. What
  the engine sends and does is the list of its actions; those of one task are in its order.
\<close>

subsection \<open>State\<close>

record cli_config =
  cc_claude_bin :: "string option"
  cc_codex_bin :: "string option"
  cc_default_workspace :: "string option"

record run_spec =
  sp_task_id :: task_id
  sp_engine :: string
  sp_model :: "string option"
  sp_reasoning_effort :: "string option"
  sp_system_prompt :: "string option"
  sp_access_policy :: access_policy
  sp_workspace :: "string option"

record run_request =
  rr_prompt :: string
  rr_session_id :: "string option"
  rr_model :: "string option"
  rr_system_prompt :: "string option"
  rr_effort :: "string option"
  rr_permission_mode :: "string option"
  rr_cwd :: "string option"
  rr_live_status :: bool
  rr_bin :: "string option"

record run_result =
  re_text :: string
  re_session_id :: "string option"
  re_code :: "int option"
  re_error :: "string option"
  re_stderr :: string

record cli_task =
  ct_command :: command_id
  ct_run :: run_id
  ct_spec :: run_spec

record cli_state =
  cs_runs :: "run_id \<Rightarrow> run_spec option"
  cs_sessions :: "run_id \<Rightarrow> string option"
  cs_jobs :: "run_id \<Rightarrow> command_id option"
  cs_command_runs :: "command_id \<Rightarrow> run_id option"
  cs_seen :: "command_id set"
  cs_interrupted :: "run_id set"
  cs_tasks :: "cli_task list"

definition cli_new :: cli_state where
  "cli_new =
     \<lparr>cs_runs = (\<lambda>_. None), cs_sessions = (\<lambda>_. None), cs_jobs = (\<lambda>_. None), cs_command_runs = (\<lambda>_. None),
      cs_seen = {}, cs_interrupted = {}, cs_tasks = []\<rparr>"

datatype node_act =
    ActAck command_id
  | ActEmit event_draft
  | ActSpawn command_id string run_request   \<comment> \<open>the engine definition, by name\<close>
  | ActTerminate command_id
  | ActUpdate string

subsection \<open>Operations\<close>

text \<open>\<open>EngineOutbox::emit\<close> with a run.\<close>

definition run_event :: "node_id \<Rightarrow> time \<Rightarrow> event_kind \<Rightarrow> task_id \<Rightarrow> run_id \<Rightarrow> json \<Rightarrow> node_act" where
  "run_event node now kind task run payload =
     ActEmit (with_payload (with_run (event_draft_new now kind task node) run) payload)"

definition failure :: "string \<Rightarrow> json" where
  "failure e = JObject [(''error'', JString e)]"

definition stop_run :: "run_id \<Rightarrow> cli_state \<Rightarrow> cli_state \<times> node_act list" where
  "stop_run run s =
     (case cs_jobs s run of
        None \<Rightarrow> (s, [])
      | Some job \<Rightarrow> (s\<lparr>cs_interrupted := insert run (cs_interrupted s)\<rparr>, [ActTerminate job]))"

definition permission_mode :: "access_policy \<Rightarrow> string" where
  "permission_mode p = (case p of FullAccess \<Rightarrow> ''bypassPermissions'' | _ \<Rightarrow> ''default'')"

definition start_prompt ::
  "cli_config \<Rightarrow> command_id \<Rightarrow> run_id \<Rightarrow> string \<Rightarrow> run_spec \<Rightarrow> cli_state \<Rightarrow> cli_state \<times> node_act list" where
  "start_prompt cfg cid run text spec s =
     (let req = \<lparr>rr_prompt = text, rr_session_id = cs_sessions s run, rr_model = sp_model spec,
            rr_system_prompt = sp_system_prompt spec, rr_effort = sp_reasoning_effort spec,
            rr_permission_mode = Some (permission_mode (sp_access_policy spec)), rr_cwd = sp_workspace spec,
            rr_live_status = True,
            rr_bin = (if sp_engine spec = ''claude'' then cc_claude_bin cfg
                      else if sp_engine spec = ''codex'' then cc_codex_bin cfg else None)\<rparr>
      in (s\<lparr>cs_jobs := (cs_jobs s)(run \<mapsto> cid), cs_command_runs := (cs_command_runs s)(cid \<mapsto> run),
            cs_tasks := cs_tasks s @ [\<lparr>ct_command = cid, ct_run = run, ct_spec = spec\<rparr>]\<rparr>,
          [ActSpawn cid (sp_engine spec) req, ActAck cid]))"

definition cli_dispatch ::
  "node_id \<Rightarrow> time \<Rightarrow> cli_config \<Rightarrow> command_id \<Rightarrow> node_work \<Rightarrow> cli_state \<Rightarrow> cli_state \<times> node_act list" where
  "cli_dispatch node now cfg cid work s0 =
     (if cid \<in> cs_seen s0 then (s0, [ActAck cid])
      else
        (let s = s0\<lparr>cs_seen := insert cid (cs_seen s0)\<rparr> in
         case work of
           WorkStartRun run task engine model effort system policy workspace \<Rightarrow>
             (let spec = \<lparr>sp_task_id = task, sp_engine = engine, sp_model = model, sp_reasoning_effort = effort,
                    sp_system_prompt = system, sp_access_policy = policy,
                    sp_workspace = (case workspace of Some w \<Rightarrow> Some w | None \<Rightarrow> cc_default_workspace cfg)\<rparr>
              in (s\<lparr>cs_runs := (cs_runs s)(run \<mapsto> spec)\<rparr>, [ActAck cid]))
         | WorkSendPrompt task run text _ \<Rightarrow>
             (case cs_runs s run of
                None \<Rightarrow> (s, [ActAck cid, run_event node now RunFailed task run (failure ''run is not initialized on this node'')])
              | Some spec \<Rightarrow>
                  if sp_engine spec = ''claude'' \<or> sp_engine spec = ''codex'' then start_prompt cfg cid run text spec s
                  else (s, [ActAck cid,
                            run_event node now RunFailed task run (failure (''unsupported engine: '' @ sp_engine spec))]))
         | WorkInterruptRun run \<Rightarrow> (let (s', acts) = stop_run run s in (s', acts @ [ActAck cid]))
         | WorkUpdate version \<Rightarrow> (s, [ActAck cid, ActUpdate version])))"

definition cli_cancel :: "command_id \<Rightarrow> cli_state \<Rightarrow> cli_state \<times> node_act list" where
  "cli_cancel cid s = (case cs_command_runs s cid of Some run \<Rightarrow> stop_run run s | None \<Rightarrow> (s, []))"

text \<open>\<open>{:?}\<close> of an \<open>Option<i32>\<close>.\<close>

definition debug_code :: "int option \<Rightarrow> string" where
  "debug_code code = (case code of None \<Rightarrow> ''None'' | Some c \<Rightarrow> ''Some('' @ int_str c @ '')'')"

definition failure_text :: "run_result \<Rightarrow> string" where
  "failure_text r =
     (case re_error r of
        Some e \<Rightarrow> e
      | None \<Rightarrow>
          (let stderr = str_trim (re_stderr r) in
           if stderr = [] then ''engine exited with code '' @ debug_code (re_code r) else stderr))"

definition code_json :: "int option \<Rightarrow> json" where
  "code_json code = (case code of None \<Rightarrow> JNull | Some c \<Rightarrow> json_of_i64 c)"

text \<open>The events of a task whose process ended with \<open>result\<close>; \<open>None\<close> when its thread died.\<close>

definition outcome_events ::
  "node_id \<Rightarrow> time \<Rightarrow> bool \<Rightarrow> run_id \<Rightarrow> run_spec \<Rightarrow> run_result option \<Rightarrow> node_act list" where
  "outcome_events node now interrupted run spec result =
     (if interrupted then [run_event node now RunInterrupted (sp_task_id spec) run (JObject [])]
      else
        (case result of
           None \<Rightarrow> [run_event node now RunFailed (sp_task_id spec) run (failure ''engine supervisor failed'')]
         | Some r \<Rightarrow>
             if re_code r = Some 0 \<and> re_error r = None then
               [ActEmit ((with_payload (with_run (event_draft_new now MessageAssistantCompleted (sp_task_id spec) node) run)
                    (JObject [(''text'', JString (re_text r))]))\<lparr>d_provider_session_id := re_session_id r\<rparr>),
                run_event node now RunCompleted (sp_task_id spec) run (JObject [])]
             else
               [run_event node now RunFailed (sp_task_id spec) run
                  (JObject [(''error'', JString (failure_text r)), (''code'', code_json (re_code r))])]))"

definition finish_task ::
  "node_id \<Rightarrow> time \<Rightarrow> cli_task \<Rightarrow> run_result option \<Rightarrow> cli_state \<Rightarrow> cli_state \<times> node_act list" where
  "finish_task node now t result s =
     (let run = ct_run t; session = Option.bind result re_session_id in
      (s\<lparr>cs_jobs := (cs_jobs s)(run := None), cs_command_runs := (cs_command_runs s)(ct_command t := None),
         cs_sessions := (case session of Some x \<Rightarrow> (cs_sessions s)(run \<mapsto> x) | None \<Rightarrow> cs_sessions s),
         cs_interrupted := cs_interrupted s - {run}, cs_tasks := remove1 t (cs_tasks s)\<rparr>,
       outcome_events node now (run \<in> cs_interrupted s) run (ct_spec t) result))"

text \<open>A message from the hub. A dispatch that has expired is dropped; \<open>now_secs\<close> is the clock in
  seconds, while a time counts nanoseconds.\<close>

definition handle_hub_message ::
  "node_id \<Rightarrow> time \<Rightarrow> int \<Rightarrow> cli_config \<Rightarrow> hub_to_node \<Rightarrow> cli_state \<times> outbox \<Rightarrow> (cli_state \<times> outbox) \<times> node_act list" where
  "handle_hub_message node now now_secs cfg msg so =
     (case msg of
        DispatchCommand cid expires_at work \<Rightarrow>
          (if (case expires_at of Some e \<Rightarrow> now_secs \<ge> e div 1000000000 | None \<Rightarrow> False) then (so, [])
           else (let (s, acts) = cli_dispatch node now cfg cid work (fst so) in ((s, snd so), acts)))
      | CancelCommand cid \<Rightarrow> (let (s, acts) = cli_cancel cid (fst so) in ((s, snd so), acts))
      | EventAck eid \<Rightarrow> ((fst so, acknowledge_event eid (snd so)), [])
      | _ \<Rightarrow> (so, []))"

subsection \<open>Runs of the engine\<close>

text \<open>\<open>ex_done\<close> collects the commands in the order of their first dispatch, \<open>ex_acts\<close> every action with
  the command it belongs to.\<close>

record cli_run =
  ex_state :: cli_state
  ex_done :: "(command_id \<times> node_work) list"
  ex_acts :: "(command_id \<times> node_act) list"

definition cli_start :: cli_run where
  "cli_start = \<lparr>ex_state = cli_new, ex_done = [], ex_acts = []\<rparr>"

definition ran :: "cli_run \<Rightarrow> command_id \<Rightarrow> (command_id \<times> node_work) list \<Rightarrow> cli_state \<times> node_act list \<Rightarrow> cli_run" where
  "ran x cid fresh r =
     \<lparr>ex_state = fst r, ex_done = ex_done x @ fresh, ex_acts = ex_acts x @ map (\<lambda>a. (cid, a)) (snd r)\<rparr>"

inductive cli_step :: "node_id \<Rightarrow> cli_config \<Rightarrow> cli_run \<Rightarrow> cli_run \<Rightarrow> bool" for node cfg where
  cli_step_dispatch: "cli_step node cfg x
     (ran x cid (if cid \<in> cs_seen (ex_state x) then [] else [(cid, work)]) (cli_dispatch node now cfg cid work (ex_state x)))"
| cli_step_cancel: "cli_step node cfg x (ran x cid [] (cli_cancel cid (ex_state x)))"
| cli_step_finish: "t \<in> set (cs_tasks (ex_state x)) \<Longrightarrow>
     cli_step node cfg x (ran x (ct_command t) [] (finish_task node now t result (ex_state x)))"

text \<open>A prompt ends with one of these.\<close>

definition ends_run :: "node_act \<Rightarrow> bool" where
  "ends_run a = (case a of ActEmit d \<Rightarrow> d_kind d \<in> {RunCompleted, RunFailed, RunInterrupted} | _ \<Rightarrow> False)"

definition spawns :: "node_act \<Rightarrow> bool" where
  "spawns a = (case a of ActSpawn _ _ _ \<Rightarrow> True | _ \<Rightarrow> False)"

definition acts_of :: "command_id \<Rightarrow> (node_act \<Rightarrow> bool) \<Rightarrow> cli_run \<Rightarrow> node_act list" where
  "acts_of cid P x = filter P (map snd (filter (\<lambda>ca. fst ca = cid) (ex_acts x)))"

definition tasks_of :: "command_id \<Rightarrow> cli_state \<Rightarrow> cli_task list" where
  "tasks_of cid s = filter (\<lambda>t. ct_command t = cid) (cs_tasks s)"

definition prompt_of :: "cli_run \<Rightarrow> command_id \<Rightarrow> run_id \<Rightarrow> bool" where
  "prompt_of x cid run \<longleftrightarrow> (\<exists>task text m. (cid, WorkSendPrompt task run text m) \<in> set (ex_done x))"

definition about_run :: "run_id \<Rightarrow> node_act \<Rightarrow> bool" where
  "about_run run a = (case a of ActEmit d \<Rightarrow> d_run_id d = Some run | _ \<Rightarrow> True)"

lemma acts_of_ran: "acts_of cid P (ran x c fresh r) = acts_of cid P x @ (if c = cid then filter P (snd r) else [])"
  by (simp add: acts_of_def ran_def filter_map comp_def)

lemma outcome_ends_once:
  "length (filter ends_run (outcome_events node now i run spec result)) = 1
   \<and> filter spawns (outcome_events node now i run spec result) = []
   \<and> list_all (about_run run) (outcome_events node now i run spec result)"
  by (auto simp: outcome_events_def run_event_def ends_run_def spawns_def about_run_def with_payload_def with_run_def
      event_draft_new_def split: option.splits)

lemma stop_run_quiet:
  "stop_run run s = (s', acts) \<Longrightarrow> filter ends_run acts = [] \<and> filter spawns acts = [] \<and> list_all (about_run r) acts
     \<and> cs_seen s' = cs_seen s \<and> cs_tasks s' = cs_tasks s"
  by (auto simp: stop_run_def ends_run_def spawns_def about_run_def split: option.splits)

text \<open>What one first dispatch adds: a prompt either starts exactly one process and its task, or fails at
  once; nothing else ends or starts anything.\<close>

lemma dispatch_adds:
  assumes "cli_dispatch node now cfg cid work s = (s', acts)" and "cid \<notin> cs_seen s"
  shows "cs_seen s' = insert cid (cs_seen s)
    \<and> (case work of
         WorkSendPrompt task run text m \<Rightarrow>
           (\<exists>spec. cs_tasks s' = cs_tasks s @ [\<lparr>ct_command = cid, ct_run = run, ct_spec = spec\<rparr>]
              \<and> filter ends_run acts = [] \<and> length (filter spawns acts) = 1 \<and> list_all (about_run run) acts)
           \<or> cs_tasks s' = cs_tasks s \<and> length (filter ends_run acts) = 1 \<and> filter spawns acts = [] \<and> list_all (about_run run) acts
       | _ \<Rightarrow> cs_tasks s' = cs_tasks s \<and> filter ends_run acts = [] \<and> filter spawns acts = [])"
  using assms
  by (auto simp: cli_dispatch_def start_prompt_def Let_def run_event_def ends_run_def spawns_def about_run_def with_payload_def
      with_run_def event_draft_new_def stop_run_def split: node_work.splits option.splits if_splits)

text \<open>One command: with \<open>P\<close> the run it prompts, \<open>E\<close> the actions that ended it, \<open>T\<close> its tasks and \<open>S\<close> the processes it
  started. A prompt is either running, once, or has ended, once.\<close>

definition cmd_ok :: "(run_id \<Rightarrow> bool) \<Rightarrow> node_act list \<Rightarrow> cli_task list \<Rightarrow> node_act list \<Rightarrow> bool" where
  "cmd_ok P E T S \<longleftrightarrow>
     length E + length T = (if Ex P then 1 else 0) \<and> length S \<le> (if Ex P then 1 else 0)
     \<and> (\<forall>run. P run \<longrightarrow> list_all (about_run run) E \<and> list_all (\<lambda>t. ct_run t = run) T)"

definition run_inv :: "cli_run \<Rightarrow> bool" where
  "run_inv x \<longleftrightarrow>
     set (map fst (ex_done x)) = cs_seen (ex_state x) \<and> distinct (map fst (ex_done x))
     \<and> (\<forall>cid. cmd_ok (prompt_of x cid) (acts_of cid ends_run x) (tasks_of cid (ex_state x)) (acts_of cid spawns x))"

lemma prompt_ran: "prompt_of (ran x c fresh r) cid run \<longleftrightarrow> prompt_of x cid run \<or> (\<exists>task text m. (cid, WorkSendPrompt task run text m) \<in> set fresh)"
  by (auto simp: prompt_of_def ran_def)

lemma prompt_seen: "run_inv x \<Longrightarrow> prompt_of x cid run \<Longrightarrow> cid \<in> cs_seen (ex_state x)"
  by (force simp: run_inv_def prompt_of_def)

lemma cmd_none: "cmd_ok P E T S \<Longrightarrow> \<not> Ex P \<Longrightarrow> E = [] \<and> T = [] \<and> S = []"
  by (simp add: cmd_ok_def)

lemma list_all_filterI: "list_all P xs \<Longrightarrow> list_all P (filter Q xs)"
  by (simp add: list_all_iff)

text \<open>A step of command \<open>c\<close> keeps the invariant when it does so for \<open>c\<close> and does not touch other tasks.\<close>

lemma run_inv_ran:
  assumes "run_inv x" and "set (map fst (ex_done x @ fresh)) = cs_seen s'" and "distinct (map fst (ex_done x @ fresh))"
    and "\<And>d. d \<noteq> c \<Longrightarrow> tasks_of d s' = tasks_of d (ex_state x)" and "\<forall>w \<in> set fresh. fst w = c"
    and "cmd_ok (prompt_of (ran x c fresh (s', acts)) c) (acts_of c ends_run x @ filter ends_run acts) (tasks_of c s')
        (acts_of c spawns x @ filter spawns acts)"
  shows "run_inv (ran x c fresh (s', acts))"
proof -
  let ?x = "ran x c fresh (s', acts)"
  have "cmd_ok (prompt_of ?x d) (acts_of d ends_run ?x) (tasks_of d (ex_state ?x)) (acts_of d spawns ?x)" for d
  proof (cases "d = c")
    case True
    then show ?thesis using assms(6) by (simp only: acts_of_ran if_True refl) (simp add: ran_def)
  next
    case False
    then have "prompt_of ?x d = prompt_of x d" using assms(5) by (auto simp: prompt_ran fun_eq_iff)
    then show ?thesis
      using assms(1) assms(4) [OF False] False unfolding run_inv_def acts_of_ran by (simp add: ran_def)
  qed
  then show ?thesis using assms(2,3) unfolding run_inv_def by (simp add: ran_def)
qed

lemma run_inv_quiet:
  assumes "run_inv x" and "cs_seen s' = cs_seen (ex_state x)" and "cs_tasks s' = cs_tasks (ex_state x)"
    and "filter ends_run acts = []" and "filter spawns acts = []"
  shows "run_inv (ran x c [] (s', acts))"
proof (rule run_inv_ran [OF assms(1)])
  have "prompt_of (ran x c [] (s', acts)) c = prompt_of x c" by (simp add: prompt_ran fun_eq_iff)
  then show "cmd_ok (prompt_of (ran x c [] (s', acts)) c) (acts_of c ends_run x @ filter ends_run acts) (tasks_of c s')
      (acts_of c spawns x @ filter spawns acts)"
    using assms unfolding run_inv_def by (simp add: tasks_of_def)
qed (use assms in \<open>simp_all add: run_inv_def tasks_of_def\<close>)

lemma run_inv_dispatch:
  assumes inv: "run_inv x" and new: "cid \<notin> cs_seen (ex_state x)"
    and d: "cli_dispatch node now cfg cid work (ex_state x) = (s', acts)"
  shows "run_inv (ran x cid [(cid, work)] (s', acts))"
proof -
  note adds = dispatch_adds [OF d new]
  have none: "\<not> prompt_of x cid run" for run using prompt_seen [OF inv] new by blast
  have zero: "acts_of cid ends_run x = [] \<and> tasks_of cid (ex_state x) = [] \<and> acts_of cid spawns x = []"
    by (rule cmd_none [of "prompt_of x cid"]) (use inv none in \<open>auto simp: run_inv_def\<close>)
  have prompt: "prompt_of (ran x cid [(cid, work)] (s', acts)) cid run \<longleftrightarrow> (\<exists>task text m. work = WorkSendPrompt task run text m)" for run
    using none [of run] by (auto simp: prompt_ran)
  show ?thesis
  proof (rule run_inv_ran [OF inv])
    show "cmd_ok (prompt_of (ran x cid [(cid, work)] (s', acts)) cid) (acts_of cid ends_run x @ filter ends_run acts)
        (tasks_of cid s') (acts_of cid spawns x @ filter spawns acts)"
      unfolding cmd_ok_def prompt using adds zero
      by (cases work) (auto simp: tasks_of_def intro: list_all_filterI)
    show "tasks_of c s' = tasks_of c (ex_state x)" if "c \<noteq> cid" for c
      using adds that by (auto simp: tasks_of_def split: node_work.splits)
  qed (use inv new adds in \<open>auto simp: run_inv_def\<close>)
qed

lemma finish_tasks:
  "cs_tasks (fst (finish_task node now t result s)) = remove1 t (cs_tasks s)"
  "cs_seen (fst (finish_task node now t result s)) = cs_seen s"
  by (simp_all add: finish_task_def Let_def)

lemma run_inv_finish:
  assumes inv: "run_inv x" and t: "t \<in> set (cs_tasks (ex_state x))"
    and f: "finish_task node now t result (ex_state x) = (s', acts)"
  shows "run_inv (ran x (ct_command t) [] (s', acts))"
proof -
  let ?cid = "ct_command t"
  have tasks: "cs_tasks s' = remove1 t (cs_tasks (ex_state x))" and seen: "cs_seen s' = cs_seen (ex_state x)"
    using finish_tasks [of node now t result "ex_state x"] by (simp_all add: f)
  have mem: "t \<in> set (tasks_of ?cid (ex_state x))" using t by (simp add: tasks_of_def)
  have cmd: "cmd_ok (prompt_of x ?cid) (acts_of ?cid ends_run x) (tasks_of ?cid (ex_state x)) (acts_of ?cid spawns x)"
    using inv by (simp add: run_inv_def)
  then obtain run where run: "prompt_of x ?cid run" using cmd_none [OF cmd] mem by fastforce
  have one: "acts_of ?cid ends_run x = []" "tasks_of ?cid (ex_state x) = [t]"
    using cmd run mem by (cases "tasks_of ?cid (ex_state x)"; auto simp: cmd_ok_def split: if_splits)+
  have same: "ct_run t = r" if "prompt_of x ?cid r" for r
    using cmd that one(2) by (simp add: cmd_ok_def)
  have acts: "length (filter ends_run acts) = 1" "filter spawns acts = []" "list_all (about_run (ct_run t)) acts"
    using outcome_ends_once [of node now "ct_run t \<in> cs_interrupted (ex_state x)" "ct_run t" "ct_spec t" result] f
    by (auto simp: finish_task_def Let_def)
  have prompt: "prompt_of (ran x ?cid [] (s', acts)) ?cid = prompt_of x ?cid" by (simp add: prompt_ran fun_eq_iff)
  have "tasks_of ?cid s' = []" using one(2) by (simp add: tasks_of_def tasks filter_remove1)
  then have "cmd_ok (prompt_of (ran x ?cid [] (s', acts)) ?cid) (acts_of ?cid ends_run x @ filter ends_run acts)
      (tasks_of ?cid s') (acts_of ?cid spawns x @ filter spawns acts)"
    using cmd one acts run same unfolding prompt cmd_ok_def by (auto simp: list_all_iff)
  then show ?thesis
    by (rule run_inv_ran [OF inv, rotated 4])
      (use inv seen in \<open>auto simp: run_inv_def tasks_of_def tasks filter_remove1 remove1_idem\<close>)
qed

lemma run_inv_step: "cli_step node cfg x x' \<Longrightarrow> run_inv x \<Longrightarrow> run_inv x'"
proof (induction rule: cli_step.induct)
  case (cli_step_dispatch x cid work now)
  obtain s' acts where d: "cli_dispatch node now cfg cid work (ex_state x) = (s', acts)" by fastforce
  show ?case
  proof (cases "cid \<in> cs_seen (ex_state x)")
    case True
    then have "s' = ex_state x" "acts = [ActAck cid]" using d by (simp_all add: cli_dispatch_def)
    then show ?thesis
      unfolding d using True cli_step_dispatch by (simp add: run_inv_quiet ends_run_def spawns_def)
  next
    case False
    then show ?thesis unfolding d using run_inv_dispatch [OF cli_step_dispatch False d] by simp
  qed
next
  case (cli_step_cancel x cid)
  obtain s' acts where c: "cli_cancel cid (ex_state x) = (s', acts)" by fastforce
  then have "filter ends_run acts = [] \<and> filter spawns acts = [] \<and> cs_seen s' = cs_seen (ex_state x) \<and> cs_tasks s' = cs_tasks (ex_state x)"
    using stop_run_quiet by (auto simp: cli_cancel_def split: option.splits)
  then show ?case unfolding c using cli_step_cancel by (intro run_inv_quiet) auto
next
  case (cli_step_finish t x now result)
  obtain s' acts where f: "finish_task node now t result (ex_state x) = (s', acts)" by fastforce
  show ?case unfolding f using run_inv_finish [OF cli_step_finish(2,1) f] .
qed

lemma run_inv_start: "run_inv cli_start"
  by (simp add: run_inv_def cli_start_def cli_new_def acts_of_def tasks_of_def prompt_of_def cmd_ok_def)

lemma run_inv_run: "(cli_step node cfg)\<^sup>*\<^sup>* cli_start x \<Longrightarrow> run_inv x"
  by (induction rule: rtranclp_induct) (rule run_inv_start, rule run_inv_step)

subsection \<open>Properties\<close>

text \<open>C4: A prompt that the node has been given is answered exactly once, whatever else happens: at every point of
  every sequence of dispatches, redeliveries, cancels, interrupts and process ends, either its one task is
  still running or exactly one of run completed, run failed and run interrupted has been emitted for it, about its own
  run; at most one process was ever started for it; and delivering it again only acknowledges it.\<close>

theorem cli_prompt_exactly_once:
  assumes "(cli_step node cfg)\<^sup>*\<^sup>* cli_start x" and "(cid, WorkSendPrompt task run text m) \<in> set (ex_done x)"
  shows "length (acts_of cid ends_run x) + length (tasks_of cid (ex_state x)) = 1
    \<and> length (acts_of cid spawns x) \<le> 1
    \<and> list_all (about_run run) (acts_of cid ends_run x) \<and> list_all (\<lambda>t. ct_run t = run) (tasks_of cid (ex_state x))
    \<and> cli_dispatch node now cfg cid work (ex_state x) = (ex_state x, [ActAck cid])"
proof -
  have inv: "run_inv x" by (rule run_inv_run [OF assms(1)])
  have run: "prompt_of x cid run" using assms(2) by (auto simp: prompt_of_def)
  have "cid \<in> cs_seen (ex_state x)" by (rule prompt_seen [OF inv run])
  moreover have "cmd_ok (prompt_of x cid) (acts_of cid ends_run x) (tasks_of cid (ex_state x)) (acts_of cid spawns x)"
    using inv by (simp add: run_inv_def)
  ultimately show ?thesis using run by (auto simp: cmd_ok_def cli_dispatch_def split: if_splits)
qed

text \<open>A run on a claude engine, one prompt, its process done.\<close>

definition demo_cli :: cli_config where
  "demo_cli = \<lparr>cc_claude_bin = None, cc_codex_bin = None, cc_default_workspace = None\<rparr>"

definition demo_started :: cli_run where
  "demo_started =
     (let w = WorkStartRun (RunId 7) (TaskId 5) ''claude'' None None None Supervised None
      in ran cli_start (CommandId 1) [(CommandId 1, w)] (cli_dispatch (NodeId ''n'') 0 demo_cli (CommandId 1) w (ex_state cli_start)))"

definition demo_prompted :: cli_run where
  "demo_prompted =
     (let w = WorkSendPrompt (TaskId 5) (RunId 7) ''hi'' ''m''
      in ran demo_started (CommandId 2) [(CommandId 2, w)]
           (cli_dispatch (NodeId ''n'') 0 demo_cli (CommandId 2) w (ex_state demo_started)))"

definition demo_finished :: cli_run where
  "demo_finished =
     ran demo_prompted (CommandId 2) []
       (finish_task (NodeId ''n'') 0 (hd (cs_tasks (ex_state demo_prompted))) None (ex_state demo_prompted))"

lemma demo_seen: "cs_seen (ex_state cli_start) = {}" "cs_seen (ex_state demo_started) = {CommandId 1}"
  by (simp_all add: demo_started_def ran_def cli_dispatch_def cli_start_def cli_new_def)

lemma demo_task:
  "cs_tasks (ex_state demo_prompted) \<noteq> []" "ct_command (hd (cs_tasks (ex_state demo_prompted))) = CommandId 2"
  by (simp_all add: demo_prompted_def demo_started_def ran_def cli_dispatch_def start_prompt_def Let_def cli_start_def cli_new_def)

lemma demo_cli_run: "(cli_step (NodeId ''n'') demo_cli)\<^sup>*\<^sup>* cli_start demo_finished"
proof -
  let ?step = "cli_step (NodeId ''n'') demo_cli"
  have a: "?step cli_start demo_started"
    using cli_step_dispatch [of "NodeId ''n''" demo_cli cli_start "CommandId 1" _ 0] unfolding demo_started_def Let_def demo_seen
    by simp
  have b: "?step demo_started demo_prompted"
    using cli_step_dispatch [of "NodeId ''n''" demo_cli demo_started "CommandId 2" _ 0] unfolding demo_prompted_def Let_def demo_seen
    by simp
  have c: "?step demo_prompted demo_finished"
    using cli_step_finish [of "hd (cs_tasks (ex_state demo_prompted))" demo_prompted "NodeId ''n''" demo_cli 0 None] demo_task
    by (simp add: demo_finished_def)
  show ?thesis
    by (rule converse_rtranclp_into_rtranclp [where r = ?step, OF a]
        converse_rtranclp_into_rtranclp [where r = ?step, OF b] r_into_rtranclp [where r = ?step, OF c])+
qed

theorem cli_prompt_exactly_once_witness:
  "length (acts_of (CommandId 2) ends_run demo_finished) + length (tasks_of (CommandId 2) (ex_state demo_finished)) = 1
    \<and> length (acts_of (CommandId 2) spawns demo_finished) \<le> 1"
proof -
  have "(CommandId 2, WorkSendPrompt (TaskId 5) (RunId 7) ''hi'' ''m'') \<in> set (ex_done demo_finished)"
    by (simp add: demo_finished_def demo_prompted_def ran_def Let_def)
  from cli_prompt_exactly_once [OF demo_cli_run this] show ?thesis by blast
qed

text \<open>A second prompt of a run whose first is still running replaces the run's job; when the first process
  ends, the run has no job any more, so neither an interrupt of the run nor a cancel of the second
  command stops the process that still runs.\<close>

theorem overlapping_prompt_cannot_be_stopped:
  assumes "cs_runs s run = Some spec" and "sp_engine spec = ''claude''" and "cs_tasks s = []"
    and "c1 \<notin> cs_seen s" and "c2 \<notin> cs_seen s" and "c1 \<noteq> c2" and "c3 \<notin> {c1, c2}" and "c3 \<notin> cs_seen s"
    and "s1 = fst (cli_dispatch node now cfg c1 (WorkSendPrompt task run t1 m1) s)"
    and "s2 = fst (cli_dispatch node now cfg c2 (WorkSendPrompt task run t2 m2) s1)"
    and "s3 = fst (finish_task node now \<lparr>ct_command = c1, ct_run = run, ct_spec = spec\<rparr> result s2)"
  shows "tasks_of c2 s3 = [\<lparr>ct_command = c2, ct_run = run, ct_spec = spec\<rparr>]
    \<and> snd (cli_dispatch node now cfg c3 (WorkInterruptRun run) s3) = [ActAck c3]
    \<and> snd (cli_cancel c2 s3) = []"
  using assms
  by (simp add: cli_dispatch_def start_prompt_def finish_task_def stop_run_def cli_cancel_def tasks_of_def Let_def)

text \<open>An interrupt that arrives after the process has ended successfully, and before its task has taken the
  result, discards the answer: the run is reported interrupted and the assistant's message is not sent.\<close>

theorem late_interrupt_discards_answer:
  assumes "cs_jobs s run = Some cid" and "c3 \<notin> cs_seen s" and "re_code r = Some 0" and "re_error r = None"
  shows "snd (finish_task node now \<lparr>ct_command = cid, ct_run = run, ct_spec = spec\<rparr> (Some r)
        (fst (cli_dispatch node now cfg c3 (WorkInterruptRun run) s)))
    = [run_event node now RunInterrupted (sp_task_id spec) run (JObject [])]"
  using assms by (simp add: cli_dispatch_def stop_run_def finish_task_def outcome_events_def Let_def)

end
