(* ===== verification/Str_Ops.thy ===== *)
theory Str_Ops
  imports Text_Lines
begin

text \<open>
  Searching, replacing, splitting and joining of strings as the standard library does it
  (\<open>contains\<close>, \<open>replace\<close>, \<open>split\<close>, \<open>join\<close>, \<open>BufRead::lines\<close>). Patterns are not empty.
\<close>

fun str_contains :: "string \<Rightarrow> string \<Rightarrow> bool" where
  "str_contains p [] = (p = [])"
| "str_contains p (c # s) = (starts_with p (c # s) \<or> str_contains p s)"

text \<open>\<open>s.replace(p, r)\<close>: the matches from the left, not overlapping.\<close>

function str_replace :: "string \<Rightarrow> string \<Rightarrow> string \<Rightarrow> string" where
  "str_replace p r [] = []"
| "str_replace p r (c # s) =
     (if starts_with p (c # s) then r @ str_replace p r (drop (length p - 1) s) else c # str_replace p r s)"
  by pat_completeness auto

termination
  by (relation "measure (\<lambda>(p, r, s). length s)") auto

fun split_char :: "char \<Rightarrow> string \<Rightarrow> string list" where
  "split_char c [] = [[]]"
| "split_char c (x # xs) =
     (if x = c then [] # split_char c xs
      else (case split_char c xs of [] \<Rightarrow> [[x]] | part # parts \<Rightarrow> (x # part) # parts))"

fun str_join :: "string \<Rightarrow> string list \<Rightarrow> string" where
  "str_join sep [] = []"
| "str_join sep [s] = s"
| "str_join sep (s # t # ss) = s @ sep @ str_join sep (t # ss)"

text \<open>\<open>BufRead::lines\<close> up to the first error: the line end is stripped, and a piece that is not UTF-8 is an
  error. What follows the last newline is a line if it is not empty.\<close>

definition strip_cr :: "string \<Rightarrow> string" where
  "strip_cr l = (if l \<noteq> [] \<and> last l = CHR 0x0D then butlast l else l)"

definition buf_lines :: "string \<Rightarrow> string list" where
  "buf_lines s =
     (let parts = split_nl s
      in takeWhile utf8_valid (map strip_cr (butlast parts) @ (if last parts = [] then [] else [last parts])))"

subsection \<open>Facts\<close>

lemma str_contains_iff: "str_contains p s \<longleftrightarrow> (\<exists>a b. s = a @ p @ b)"
proof (induction p s rule: str_contains.induct)
  case (2 p c s)
  have "(\<exists>a b. c # s = a @ p @ b) \<longleftrightarrow> starts_with p (c # s) \<or> (\<exists>a b. s = a @ p @ b)"
    by (auto simp: starts_with_iff Cons_eq_append_conv)
  then show ?case using 2 by simp
qed auto

lemma str_replace_none: "\<not> str_contains p s \<Longrightarrow> str_replace p r s = s"
  by (induction p r s rule: str_replace.induct) auto

lemma str_contains_prefix: "str_contains (p @ q) s \<Longrightarrow> str_contains p s"
  by (auto simp: str_contains_iff)

lemma str_replace_self: "p \<noteq> [] \<Longrightarrow> str_replace p r p = r"
  by (cases p) (auto simp: starts_with_iff)

lemma split_char_nonempty [simp]: "split_char c s \<noteq> []"
  by (cases s) (auto split: list.splits)

lemma str_join_snoc: "ss \<noteq> [] \<Longrightarrow> str_join sep (ss @ [t]) = str_join sep ss @ sep @ t"
proof (induction sep ss rule: str_join.induct)
  case (3 sep s u ss)
  then show ?case by (cases ss) simp_all
qed simp_all

lemma str_join_split_char: "str_join [c] (split_char c s) = s"
proof (induction s)
  case (Cons x s)
  obtain p ps where sp: "split_char c s = p # ps" using split_char_nonempty [of c s] by (cases "split_char c s") blast
  then show ?case using Cons by (cases ps) auto
qed simp

lemma split_char_parts: "list_all (\<lambda>p. c \<notin> set p) (split_char c s)"
  by (induction s) (auto split: list.splits)

lemma split_char_single: "c \<notin> set s \<Longrightarrow> split_char c s = [s]"
  by (induction s) auto

lemma split_char_append: "c \<notin> set s \<Longrightarrow> split_char c (s @ c # t) = s # split_char c t"
  by (induction s) auto

lemma split_char_join: "ss \<noteq> [] \<Longrightarrow> list_all (\<lambda>p. c \<notin> set p) ss \<Longrightarrow> split_char c (str_join [c] ss) = ss"
proof (induction "[c]" ss rule: str_join.induct)
  case (3 s u ss)
  then show ?case by (simp add: split_char_append)
qed (simp_all add: split_char_single)

end
