(* ===== verification/Engine_Argv.thy ===== *)
theory Engine_Argv
  imports Cli_Engine Str_Ops
begin

text \<open>
  The child processes of an execution node: the engine definitions and their argument vectors
  (\<open>crates/stackhour-core/src/engine.rs\<close>), and how a child is fed and its output read
  (\<open>crates/stackhour-node/src/process.rs\<close>). The child itself is a parameter: it either fails to spawn or
  ends with some output and exit code. \<open>parse\<close> is \<open>serde_json::from_str\<close>.
\<close>

subsection \<open>Engine definitions\<close>

datatype stream_kind = ClaudeStreamJson | CodexJsonl | PlainLines

datatype resume_style = FlagArgs "string list" | Subcommand string

datatype prompt_delivery = Stdin | LastArg

record engine_def =
  ed_name :: string
  ed_label :: string
  ed_emoji :: string
  ed_bin :: string
  ed_kind :: stream_kind
  ed_args :: "string list"
  ed_resume :: resume_style
  ed_model_args :: "string list option"
  ed_permission_args :: "string list option"
  ed_system_prompt_args :: "string list option"
  ed_prompt_delivery :: prompt_delivery
  ed_env :: "(string \<times> string) list"
  ed_partial_messages_flag :: "string option"
  ed_effort_args :: "string list option"
  ed_allowed_tools_args :: "string list option"
  ed_disallowed_tools_args :: "string list option"

record argv_vars =
  av_session_id :: "string option"
  av_model :: "string option"
  av_permission_mode :: "string option"
  av_system_prompt :: "string option"
  av_effort :: "string option"
  av_allow_tools :: "string list"
  av_deny_tools :: "string list"
  av_live_status :: bool

definition BYPASS_PERMISSION_MODE :: string where
  "BYPASS_PERMISSION_MODE = ''bypassPermissions''"

definition BYPASS_SANDBOX_FLAG :: string where
  "BYPASS_SANDBOX_FLAG = ''--dangerously-bypass-approvals-and-sandbox''"

definition unwrap_or :: "'a option \<Rightarrow> 'a \<Rightarrow> 'a" where
  "unwrap_or x d = (case x of Some v \<Rightarrow> v | None \<Rightarrow> d)"

definition subst :: "string \<Rightarrow> argv_vars \<Rightarrow> string" where
  "subst template v =
     (let t1 = str_replace ''{{session_id}}'' (unwrap_or (av_session_id v) []) template;
          t2 = str_replace ''{{model}}'' (unwrap_or (av_model v) []) t1;
          t3 = str_replace ''{{permission_mode}}'' (unwrap_or (av_permission_mode v) ''default'') t2;
          t4 = str_replace ''{{system_prompt}}'' (unwrap_or (av_system_prompt v) []) t3;
          t5 = str_replace ''{{effort}}'' (unwrap_or (av_effort v) []) t4;
          t6 = str_replace ''{{allowed_tools}}'' (str_join '','' (av_allow_tools v)) t5
      in str_replace ''{{disallowed_tools}}'' (str_join '','' (av_deny_tools v)) t6)"

definition builtin_claude :: engine_def where
  "builtin_claude =
     \<lparr>ed_name = ''claude'', ed_label = ''Claude'', ed_emoji = [CHR 0xF0, CHR 0x9F, CHR 0xA7, CHR 0xA0], ed_bin = ''claude'',
      ed_kind = ClaudeStreamJson,
      ed_args = [''-p'', ''--output-format'', ''stream-json'', ''--verbose''],
      ed_resume = FlagArgs [''--resume'', ''{{session_id}}''],
      ed_model_args = Some [''--model'', ''{{model}}''],
      ed_permission_args = Some [''--permission-mode'', ''{{permission_mode}}''],
      ed_system_prompt_args = Some [''--append-system-prompt'', ''{{system_prompt}}''],
      ed_prompt_delivery = Stdin, ed_env = [],
      ed_partial_messages_flag = Some ''--include-partial-messages'',
      ed_effort_args = None,
      ed_allowed_tools_args = Some [''--allowedTools'', ''{{allowed_tools}}''],
      ed_disallowed_tools_args = Some [''--disallowedTools'', ''{{disallowed_tools}}'']\<rparr>"

definition builtin_codex :: engine_def where
  "builtin_codex =
     \<lparr>ed_name = ''codex'', ed_label = ''Codex'', ed_emoji = [CHR 0xF0, CHR 0x9F, CHR 0x9B, CHR 0xA0], ed_bin = ''codex'',
      ed_kind = CodexJsonl,
      ed_args = [''exec'', ''--json'', ''--skip-git-repo-check'', ''-''],
      ed_resume = Subcommand ''resume'',
      ed_model_args = Some [''--model'', ''{{model}}''],
      ed_permission_args = Some [''--sandbox'', ''workspace-write''],
      ed_system_prompt_args = None,
      ed_prompt_delivery = Stdin, ed_env = [],
      ed_partial_messages_flag = None,
      ed_effort_args = Some [''-c'', ''model_reasoning_effort='' @ [CHR 0x22] @ ''{{effort}}'' @ [CHR 0x22]],
      ed_allowed_tools_args = None,
      ed_disallowed_tools_args = None\<rparr>"

lemma claude_fields [simp]:
  "ed_kind builtin_claude = ClaudeStreamJson"
  "ed_args builtin_claude = [''-p'', ''--output-format'', ''stream-json'', ''--verbose'']"
  "ed_resume builtin_claude = FlagArgs [''--resume'', ''{{session_id}}'']"
  "ed_model_args builtin_claude = Some [''--model'', ''{{model}}'']"
  "ed_permission_args builtin_claude = Some [''--permission-mode'', ''{{permission_mode}}'']"
  "ed_system_prompt_args builtin_claude = Some [''--append-system-prompt'', ''{{system_prompt}}'']"
  "ed_prompt_delivery builtin_claude = Stdin" "ed_bin builtin_claude = ''claude''"
  "ed_partial_messages_flag builtin_claude = Some ''--include-partial-messages''"
  "ed_effort_args builtin_claude = None"
  by (simp_all add: builtin_claude_def)

lemma codex_fields [simp]:
  "ed_kind builtin_codex = CodexJsonl"
  "ed_args builtin_codex = [''exec'', ''--json'', ''--skip-git-repo-check'', ''-'']"
  "ed_resume builtin_codex = Subcommand ''resume''"
  "ed_model_args builtin_codex = Some [''--model'', ''{{model}}'']"
  "ed_permission_args builtin_codex = Some [''--sandbox'', ''workspace-write'']"
  "ed_system_prompt_args builtin_codex = None"
  "ed_prompt_delivery builtin_codex = Stdin" "ed_bin builtin_codex = ''codex''"
  "ed_partial_messages_flag builtin_codex = None"
  "ed_effort_args builtin_codex = Some [''-c'', ''model_reasoning_effort='' @ [CHR 0x22] @ ''{{effort}}'' @ [CHR 0x22]]"
  by (simp_all add: builtin_codex_def)

definition permission_argv :: "engine_def \<Rightarrow> string option \<Rightarrow> string list" where
  "permission_argv def requested =
     (case ed_permission_args def of
        None \<Rightarrow> []
      | Some template \<Rightarrow>
          (let mode = unwrap_or requested ''default'';
               takes_mode_flag = list_ex (str_contains ''{{permission_mode}}'') template
           in if mode = BYPASS_PERMISSION_MODE \<and> \<not> takes_mode_flag then [BYPASS_SANDBOX_FLAG]
              else
                (let vars = \<lparr>av_session_id = None, av_model = None, av_permission_mode = Some mode, av_system_prompt = None,
                       av_effort = None, av_allow_tools = [], av_deny_tools = [], av_live_status = False\<rparr>
                 in map (\<lambda>a. subst a vars) template)))"

subsection \<open>The argument vector\<close>

definition insert_at :: "nat \<Rightarrow> 'a \<Rightarrow> 'a list \<Rightarrow> 'a list" where
  "insert_at n x xs = take n xs @ x # drop n xs"

definition splice_in :: "string list \<Rightarrow> string list \<times> nat \<Rightarrow> string list \<times> nat" where
  "splice_in items st = foldl (\<lambda>(out, splice) item. (insert_at splice item out, Suc splice)) st items"

definition sentinel_pos :: "string list \<Rightarrow> nat" where
  "sentinel_pos out = (if out \<noteq> [] \<and> last out = ''-'' then length out - 1 else length out)"

text \<open>A template that is spliced in when the definition has one and the variable is set.\<close>

definition splice_opt :: "argv_vars \<Rightarrow> bool \<Rightarrow> string list option \<Rightarrow> string list \<times> nat \<Rightarrow> string list \<times> nat" where
  "splice_opt v given template st =
     (case template of
        Some t \<Rightarrow> if given then splice_in (map (\<lambda>a. subst a v) t) st else st
      | None \<Rightarrow> st)"

definition assemble_argv :: "engine_def \<Rightarrow> argv_vars \<Rightarrow> string list" where
  "assemble_argv def v =
     (let out0 = map (\<lambda>a. subst a v) (ed_args def);
          st0 = (out0, sentinel_pos out0);
          st1 = (if av_live_status v then
                   (case ed_partial_messages_flag def of Some flag \<Rightarrow> splice_in [flag] st0 | None \<Rightarrow> st0)
                 else st0);
          st2 = splice_in (permission_argv def (av_permission_mode v)) st1;
          st3 = splice_opt v (av_system_prompt v \<noteq> None) (ed_system_prompt_args def) st2;
          st4 = splice_opt v (av_model v \<noteq> None) (ed_model_args def) st3;
          st5 = splice_opt v (av_effort v \<noteq> None) (ed_effort_args def) st4;
          st6 = splice_opt v (av_allow_tools v \<noteq> []) (ed_allowed_tools_args def) st5;
          out = fst (splice_opt v (av_deny_tools v \<noteq> []) (ed_disallowed_tools_args def) st6)
      in case av_session_id v of
           None \<Rightarrow> out
         | Some sid \<Rightarrow>
             (case ed_resume def of
                FlagArgs args \<Rightarrow> out @ map (\<lambda>a. subst a v) args
              | Subcommand subword \<Rightarrow>
                  (let out' = insert_at (min 1 (length out)) subword out
                   in insert_at (sentinel_pos out') sid out')))"

subsection \<open>The request of a prompt\<close>

definition SYSTEM_PROMPT_TURN :: string where
  "SYSTEM_PROMPT_TURN =
     ''[System instructions]'' @ [newline] @ ''{{system}}'' @ [newline, newline] @ ''[User message]'' @ [newline] @ ''{{prompt}}''"

definition apply_system_prompt :: "engine_def \<Rightarrow> run_request \<Rightarrow> run_request" where
  "apply_system_prompt def rq =
     (if ed_system_prompt_args def \<noteq> None then rq
      else if rr_session_id rq \<noteq> None \<and> ed_kind def \<noteq> ClaudeStreamJson then rq
      else
        (case rr_system_prompt rq of
           None \<Rightarrow> rq
         | Some system \<Rightarrow>
             (let rq = rq\<lparr>rr_system_prompt := None\<rparr> in
              if trim_is_empty system then rq
              else rq\<lparr>rr_prompt := str_replace ''{{prompt}}'' (rr_prompt rq)
                        (str_replace ''{{system}}'' system SYSTEM_PROMPT_TURN)\<rparr>)))"

definition build_argv :: "engine_def \<Rightarrow> run_request \<Rightarrow> string list" where
  "build_argv def rq =
     (let argv = assemble_argv def
            \<lparr>av_session_id = rr_session_id rq, av_model = rr_model rq, av_permission_mode = rr_permission_mode rq,
             av_system_prompt = rr_system_prompt rq, av_effort = rr_effort rq, av_allow_tools = [], av_deny_tools = [],
             av_live_status = rr_live_status rq\<rparr>
      in if ed_prompt_delivery def = LastArg then argv @ [rr_prompt rq] else argv)"

subsection \<open>The output of a child\<close>

record stream_state =
  ss_kind :: stream_kind
  ss_text :: string
  ss_session_id :: "string option"

definition get_str :: "json \<Rightarrow> string \<Rightarrow> string option" where
  "get_str v k = Option.bind (json_get v k) as_str"

definition claude_text :: "json list \<Rightarrow> string" where
  "claude_text content =
     concat (List.map_filter (\<lambda>item. get_str item ''text'') (filter (\<lambda>item. get_str item ''type'' = Some ''text'') content))"

definition feed_claude :: "json \<Rightarrow> stream_state \<Rightarrow> stream_state" where
  "feed_claude event s0 =
     (let s = (if ss_session_id s0 = None then
                 (case get_str event ''session_id'' of Some sid \<Rightarrow> s0\<lparr>ss_session_id := Some sid\<rparr> | None \<Rightarrow> s0)
               else s0)
      in if get_str event ''type'' = Some ''assistant'' then
           (case Option.bind (Option.bind (json_get event ''message'') (\<lambda>m. json_get m ''content'')) as_array of
              None \<Rightarrow> s
            | Some content \<Rightarrow> (let text = claude_text content in if text \<noteq> [] then s\<lparr>ss_text := text\<rparr> else s))
         else if get_str event ''type'' = Some ''result'' then
           (let s1 = (case get_str event ''session_id'' of Some sid \<Rightarrow> s\<lparr>ss_session_id := Some sid\<rparr> | None \<Rightarrow> s)
            in case get_str event ''result'' of
                 Some r \<Rightarrow> if length (chars r) \<ge> length (chars (ss_text s1)) then s1\<lparr>ss_text := r\<rparr> else s1
               | None \<Rightarrow> s1)
         else s)"

definition feed_codex :: "json \<Rightarrow> stream_state \<Rightarrow> stream_state" where
  "feed_codex event s =
     (let event_type = unwrap_or (get_str event ''type'') [] in
      if event_type = ''thread.started'' then
        (case get_str event ''thread_id'' of Some tid \<Rightarrow> s\<lparr>ss_session_id := Some tid\<rparr> | None \<Rightarrow> s)
      else if event_type \<noteq> ''item.completed'' then s
      else
        (let item = json_get event ''item'' in
         if Option.bind item (\<lambda>v. get_str v ''type'') \<noteq> Some ''agent_message'' then s
         else
           (let message = unwrap_or (Option.bind item (\<lambda>v. get_str v ''text'')) [] in
            if message = [] then s
            else if ss_text s = [] then s\<lparr>ss_text := message\<rparr>
            else s\<lparr>ss_text := ss_text s @ [newline, newline] @ message\<rparr>)))"

definition feed :: "(string \<Rightarrow> json option) \<Rightarrow> string \<Rightarrow> stream_state \<Rightarrow> stream_state" where
  "feed parse line s =
     (if trim_is_empty line then s
      else
        (case ss_kind s of
           PlainLines \<Rightarrow> s\<lparr>ss_text := (if ss_text s = [] then [] else ss_text s @ [newline]) @ line\<rparr>
         | ClaudeStreamJson \<Rightarrow> (case parse line of Some e \<Rightarrow> feed_claude e s | None \<Rightarrow> s)
         | CodexJsonl \<Rightarrow> (case parse line of Some e \<Rightarrow> feed_codex e s | None \<Rightarrow> s)))"

text \<open>The child: the error of the spawn, or its output, its error output and its exit code.\<close>

datatype child = SpawnFailed string | Exited string string "int option"

definition spawn_engine :: "(string \<Rightarrow> json option) \<Rightarrow> engine_def \<Rightarrow> run_request \<Rightarrow> child \<Rightarrow> run_result" where
  "spawn_engine parse def rq0 ch =
     (let rq = apply_system_prompt def rq0 in
      case ch of
        SpawnFailed message \<Rightarrow>
          \<lparr>re_text = [], re_session_id = rr_session_id rq, re_code = None, re_error = Some message, re_stderr = []\<rparr>
      | Exited out err code \<Rightarrow>
          (let s = foldl (\<lambda>s line. feed parse line s)
                 \<lparr>ss_kind = ed_kind def, ss_text = [], ss_session_id = rr_session_id rq\<rparr> (buf_lines out)
           in \<lparr>re_text = ss_text s, re_session_id = ss_session_id s, re_code = code, re_error = None,
               re_stderr = (if utf8_valid err then err else [])\<rparr>))"

text \<open>What is started: the binary, the arguments and what the child reads from its input.\<close>

definition spawn_command :: "engine_def \<Rightarrow> run_request \<Rightarrow> string \<times> string list \<times> string" where
  "spawn_command def rq0 =
     (let rq = apply_system_prompt def rq0
      in (unwrap_or (rr_bin rq) (ed_bin def), build_argv def rq,
          if ed_prompt_delivery def = Stdin then rr_prompt rq else []))"

definition engine_of :: "string \<Rightarrow> engine_def" where
  "engine_of name = (if name = ''claude'' then builtin_claude else builtin_codex)"

subsection \<open>Splicing\<close>

lemma insert_at_spliced:
  "k \<le> length xs \<Longrightarrow> insert_at (k + length items) x (take k xs @ items @ drop k xs) = take k xs @ (items @ [x]) @ drop k xs"
  by (simp add: insert_at_def min_def)

lemma splice_in_eq:
  "k \<le> length out \<Longrightarrow> splice_in items (out, k) = (take k out @ items @ drop k out, k + length items)"
proof (induction items rule: rev_induct)
  case (snoc x xs)
  have "splice_in (xs @ [x]) (out, k) = (case splice_in xs (out, k) of (o1, p) \<Rightarrow> (insert_at p x o1, Suc p))"
    by (simp add: splice_in_def split: prod.splits)
  also have "\<dots> = (insert_at (k + length xs) x (take k out @ xs @ drop k out), Suc (k + length xs))"
    using snoc by simp
  also have "\<dots> = (take k out @ (xs @ [x]) @ drop k out, k + length (xs @ [x]))"
    using insert_at_spliced [OF snoc.prems, of xs x] by simp
  finally show ?case .
qed (simp add: splice_in_def)

lemma splice_in_mid: "splice_in items (a @ b, length a) = ((a @ items) @ b, length (a @ items))"
  by (simp add: splice_in_eq)

subsection \<open>Values without placeholders\<close>

text \<open>A value without two opening braces is passed on as it is.\<close>

definition plain :: "string \<Rightarrow> bool" where
  "plain s \<longleftrightarrow> \<not> str_contains ''{{'' s"

lemma plain_replace: "plain s \<Longrightarrow> str_replace (CHR ''{'' # CHR ''{'' # q) r s = s"
  using str_contains_prefix [of "''{{''" q s] by (intro str_replace_none) (auto simp: plain_def)

lemma plain_quoted: "plain e \<Longrightarrow> plain (e @ [CHR 0x22])"
  unfolding plain_def by (induction e) (auto simp: starts_with_iff Cons_eq_append_conv append_eq_Cons_conv)

lemma subst_plain_template: "plain t \<Longrightarrow> subst t v = t"
  by (simp add: subst_def plain_replace)

lemma plain_fixed:
  "plain ''-p''" "plain ''--output-format''" "plain ''stream-json''" "plain ''--verbose''" "plain ''--resume''" "plain ''--model''"
  "plain ''--permission-mode''" "plain ''--append-system-prompt''" "plain ''exec''" "plain ''--json''"
  "plain ''--skip-git-repo-check''" "plain ''-''" "plain ''--sandbox''" "plain ''workspace-write''" "plain ''-c''"
  by (simp_all add: plain_def starts_with_def)

definition plain_vars :: "argv_vars \<Rightarrow> bool" where
  "plain_vars v \<longleftrightarrow> pred_option plain (av_session_id v) \<and> pred_option plain (av_model v) \<and> pred_option plain (av_permission_mode v)
     \<and> pred_option plain (av_system_prompt v) \<and> pred_option plain (av_effort v)"

lemma subst_placeholders:
  assumes "plain_vars v"
  shows "av_session_id v = Some sid \<Longrightarrow> subst ''{{session_id}}'' v = sid"
    and "av_model v = Some m \<Longrightarrow> subst ''{{model}}'' v = m"
    and "av_permission_mode v = Some pm \<Longrightarrow> subst ''{{permission_mode}}'' v = pm"
    and "av_system_prompt v = Some sp \<Longrightarrow> subst ''{{system_prompt}}'' v = sp"
    and "av_effort v = Some e \<Longrightarrow> subst (''model_reasoning_effort='' @ [CHR 0x22] @ ''{{effort}}'' @ [CHR 0x22]) v
      = ''model_reasoning_effort='' @ [CHR 0x22] @ e @ [CHR 0x22]"
  using assms plain_quoted [of e] by (simp_all add: subst_def plain_vars_def unwrap_or_def plain_replace starts_with_def)

subsection \<open>The argument vector as a concatenation\<close>

text \<open>The insertions all happen in front of the sentinel, one behind the other.\<close>

definition rendered :: "argv_vars \<Rightarrow> bool \<Rightarrow> string list option \<Rightarrow> string list" where
  "rendered v given template = (case template of Some t \<Rightarrow> if given then map (\<lambda>a. subst a v) t else [] | None \<Rightarrow> [])"

definition inserted :: "engine_def \<Rightarrow> argv_vars \<Rightarrow> string list" where
  "inserted def v =
     (if av_live_status v then (case ed_partial_messages_flag def of Some flag \<Rightarrow> [flag] | None \<Rightarrow> []) else [])
     @ permission_argv def (av_permission_mode v)
     @ rendered v (av_system_prompt v \<noteq> None) (ed_system_prompt_args def)
     @ rendered v (av_model v \<noteq> None) (ed_model_args def) @ rendered v (av_effort v \<noteq> None) (ed_effort_args def)
     @ rendered v (av_allow_tools v \<noteq> []) (ed_allowed_tools_args def)
     @ rendered v (av_deny_tools v \<noteq> []) (ed_disallowed_tools_args def)"

lemma splice_opt_mid: "splice_opt v g t (a @ b, length a) = ((a @ rendered v g t) @ b, length (a @ rendered v g t))"
  using splice_in_mid [of _ a b] by (cases t) (simp_all add: splice_opt_def rendered_def)

lemma splice_flag_mid:
  "(if live then (case flag of Some f \<Rightarrow> splice_in [f] (a @ b, length a) | None \<Rightarrow> (a @ b, length a)) else (a @ b, length a))
    = ((a @ (if live then (case flag of Some f \<Rightarrow> [f] | None \<Rightarrow> []) else [])) @ b,
       length (a @ (if live then (case flag of Some f \<Rightarrow> [f] | None \<Rightarrow> []) else [])))"
  using splice_in_mid [of _ a b] by (cases flag) simp_all

lemma assemble_argv_eq:
  assumes "map (\<lambda>a. subst a v) (ed_args def) = pre @ post" and "sentinel_pos (pre @ post) = length pre"
  shows "assemble_argv def v =
    (let out = pre @ inserted def v @ post in
     case av_session_id v of
       None \<Rightarrow> out
     | Some sid \<Rightarrow>
         (case ed_resume def of
            FlagArgs args \<Rightarrow> out @ map (\<lambda>a. subst a v) args
          | Subcommand subword \<Rightarrow>
              (let out' = insert_at (min 1 (length out)) subword out in insert_at (sentinel_pos out') sid out')))"
  unfolding assemble_argv_def Let_def assms splice_flag_mid
  unfolding splice_in_mid splice_opt_mid fst_conv inserted_def
  by (simp only: append_assoc)

subsection \<open>The built-in argument vectors\<close>

definition opt_pair :: "string \<Rightarrow> string option \<Rightarrow> string list" where
  "opt_pair flag x = (case x of Some v \<Rightarrow> [flag, v] | None \<Rightarrow> [])"

lemma rendered_pair:
  "subst flag v = flag \<Longrightarrow> (\<And>y. x = Some y \<Longrightarrow> subst ph v = f y)
    \<Longrightarrow> rendered v (x \<noteq> None) (Some [flag, ph]) = opt_pair flag (map_option f x)"
  by (cases x) (simp_all add: rendered_def opt_pair_def)

definition request_vars :: "run_request \<Rightarrow> argv_vars" where
  "request_vars rq =
     \<lparr>av_session_id = rr_session_id rq, av_model = rr_model rq, av_permission_mode = rr_permission_mode rq,
      av_system_prompt = rr_system_prompt rq, av_effort = rr_effort rq, av_allow_tools = [], av_deny_tools = [],
      av_live_status = rr_live_status rq\<rparr>"

lemma claude_permission:
  assumes "plain mode"
  shows "permission_argv builtin_claude (Some mode) = [''--permission-mode'', mode]"
proof -
  let ?v = "\<lparr>av_session_id = None, av_model = None, av_permission_mode = Some mode, av_system_prompt = None,
    av_effort = None, av_allow_tools = [], av_deny_tools = [], av_live_status = False\<rparr>"
  have "plain_vars ?v" using assms by (simp add: plain_vars_def)
  from subst_placeholders(3) [OF this, of mode] have "subst ''{{permission_mode}}'' ?v = mode" by simp
  then show ?thesis
    by (simp add: permission_argv_def unwrap_or_def Let_def subst_plain_template plain_fixed starts_with_def)
qed

lemma codex_permission:
  "permission_argv builtin_codex (Some mode)
    = (if mode = BYPASS_PERMISSION_MODE then [BYPASS_SANDBOX_FLAG] else [''--sandbox'', ''workspace-write''])"
  by (simp add: permission_argv_def unwrap_or_def Let_def subst_plain_template plain_fixed starts_with_def)

lemma claude_argv:
  assumes plain: "plain_vars (request_vars rq)" and mode: "rr_permission_mode rq = Some mode" and live: "rr_live_status rq"
  shows "build_argv builtin_claude rq =
    [''-p'', ''--output-format'', ''stream-json'', ''--verbose'', ''--include-partial-messages'', ''--permission-mode'', mode]
      @ opt_pair ''--append-system-prompt'' (rr_system_prompt rq) @ opt_pair ''--model'' (rr_model rq)
      @ opt_pair ''--resume'' (rr_session_id rq)"
proof -
  let ?v = "request_vars rq" and ?base = "[''-p'', ''--output-format'', ''stream-json'', ''--verbose'']"
  note subst = subst_placeholders [OF plain] subst_plain_template plain_fixed
  have base: "map (\<lambda>a. subst a ?v) (ed_args builtin_claude) = ?base @ []" "sentinel_pos (?base @ []) = length ?base"
    by (simp_all add: subst sentinel_pos_def)
  have sys: "rendered ?v (av_system_prompt ?v \<noteq> None) (ed_system_prompt_args builtin_claude)
      = opt_pair ''--append-system-prompt'' (av_system_prompt ?v)"
    using rendered_pair [of _ ?v "av_system_prompt ?v" _ id] subst by (simp add: option.map_id)
  have model: "rendered ?v (av_model ?v \<noteq> None) (ed_model_args builtin_claude) = opt_pair ''--model'' (av_model ?v)"
    using rendered_pair [of _ ?v "av_model ?v" _ id] subst by (simp add: option.map_id)
  have rest: "rendered ?v g (ed_effort_args builtin_claude) = []" "av_allow_tools ?v = []" "av_deny_tools ?v = []"
    "rendered ?v ([] \<noteq> []) t = []" for g t
    by (simp_all add: rendered_def request_vars_def split: option.splits)
  have "plain mode" using plain mode by (simp add: plain_vars_def request_vars_def)
  note perm = claude_permission [OF this]
  have ins: "inserted builtin_claude ?v = ''--include-partial-messages'' # ''--permission-mode'' # mode
      # opt_pair ''--append-system-prompt'' (rr_system_prompt rq) @ opt_pair ''--model'' (rr_model rq)"
    unfolding inserted_def sys model rest
    using live mode by (simp add: perm rest request_vars_def)
  show ?thesis
    unfolding build_argv_def request_vars_def [symmetric] assemble_argv_eq [OF base] ins Let_def
    using subst by (cases "rr_session_id rq") (simp_all add: opt_pair_def request_vars_def)
qed

definition effort_pair :: "string option \<Rightarrow> string list" where
  "effort_pair x = opt_pair ''-c'' (map_option (\<lambda>e. ''model_reasoning_effort='' @ [CHR 0x22] @ e @ [CHR 0x22]) x)"

definition sandbox_args :: "string \<Rightarrow> string list" where
  "sandbox_args mode = (if mode = BYPASS_PERMISSION_MODE then [BYPASS_SANDBOX_FLAG] else [''--sandbox'', ''workspace-write''])"

lemma codex_argv:
  assumes plain: "plain_vars (request_vars rq)" and mode: "rr_permission_mode rq = Some mode"
  shows "build_argv builtin_codex rq =
    ''exec'' # (if rr_session_id rq = None then [] else [''resume'']) @ [''--json'', ''--skip-git-repo-check'']
      @ sandbox_args mode @ opt_pair ''--model'' (rr_model rq) @ effort_pair (rr_effort rq)
      @ (case rr_session_id rq of Some sid \<Rightarrow> [sid] | None \<Rightarrow> []) @ [''-'']"
proof -
  let ?v = "request_vars rq" and ?base = "[''exec'', ''--json'', ''--skip-git-repo-check'']"
  note subst = subst_placeholders [OF plain] subst_plain_template plain_fixed
  have base: "map (\<lambda>a. subst a ?v) (ed_args builtin_codex) = ?base @ [''-'']" "sentinel_pos (?base @ [''-'']) = length ?base"
    by (simp_all add: subst sentinel_pos_def)
  have model: "rendered ?v (av_model ?v \<noteq> None) (ed_model_args builtin_codex) = opt_pair ''--model'' (rr_model rq)"
    using rendered_pair [of _ ?v "av_model ?v" _ id] subst by (simp add: option.map_id) (simp add: request_vars_def)
  have effort: "rendered ?v (av_effort ?v \<noteq> None) (ed_effort_args builtin_codex) = effort_pair (rr_effort rq)"
    unfolding effort_pair_def codex_fields
    by (subst rendered_pair [OF subst(6) [OF plain_fixed(15)] subst(5)]) (simp_all add: request_vars_def)
  have rest: "rendered ?v g (ed_system_prompt_args builtin_codex) = []" "av_allow_tools ?v = []" "av_deny_tools ?v = []"
    "rendered ?v ([] \<noteq> []) t = []" for g t
    by (simp_all add: rendered_def request_vars_def split: option.splits)
  have perm: "permission_argv builtin_codex (av_permission_mode ?v) = sandbox_args mode"
    using mode by (simp add: codex_permission sandbox_args_def request_vars_def)
  have ins: "inserted builtin_codex ?v = sandbox_args mode @ opt_pair ''--model'' (rr_model rq) @ effort_pair (rr_effort rq)"
    unfolding inserted_def model effort rest perm by simp
  show ?thesis
    unfolding build_argv_def request_vars_def [symmetric] assemble_argv_eq [OF base] ins Let_def
    by (cases "rr_session_id rq") (simp_all add: request_vars_def insert_at_def sentinel_pos_def numeral_2_eq_2)
qed

subsection \<open>The text a child is given\<close>

lemma str_replace_skip:
  assumes "plain a" and "b = [] \<or> hd b \<noteq> CHR ''{''"
  shows "str_replace (CHR ''{'' # CHR ''{'' # q) r (a @ b) = a @ str_replace (CHR ''{'' # CHR ''{'' # q) r b"
  using assms(1)
proof (induction a)
  case (Cons c a)
  have "\<not> starts_with (CHR ''{'' # CHR ''{'' # q) (c # a @ b)"
    using Cons.prems assms(2) by (cases a; cases b) (auto simp: starts_with_iff plain_def)
  then show ?case using Cons by (simp add: plain_def)
qed simp

lemma codex_turn:
  assumes "plain system"
  shows "str_replace ''{{prompt}}'' prompt (str_replace ''{{system}}'' system SYSTEM_PROMPT_TURN)
    = ''[System instructions]'' @ [newline] @ system @ [newline, newline] @ ''[User message]'' @ [newline] @ prompt"
proof -
  have 1: "str_replace ''{{system}}'' system SYSTEM_PROMPT_TURN
      = ''[System instructions]'' @ [newline] @ system @ [newline, newline] @ ''[User message]'' @ [newline] @ ''{{prompt}}''"
    by (simp add: SYSTEM_PROMPT_TURN_def starts_with_def)
  show ?thesis
    unfolding 1
    using str_replace_skip [OF assms, of "[newline, newline] @ ''[User message]'' @ [newline] @ ''{{prompt}}''" "''prompt}}''" prompt]
    by (simp add: starts_with_def)
qed

subsection \<open>What the codex stream says\<close>

definition events_of :: "(string \<Rightarrow> json option) \<Rightarrow> string list \<Rightarrow> json list" where
  "events_of parse lines = List.map_filter parse (filter (\<lambda>l. \<not> trim_is_empty l) lines)"

definition is_message :: "json \<Rightarrow> bool" where
  "is_message e \<longleftrightarrow> get_str e ''type'' = Some ''item.completed''
     \<and> Option.bind (json_get e ''item'') (\<lambda>v. get_str v ''type'') = Some ''agent_message''"

definition codex_messages :: "json list \<Rightarrow> string list" where
  "codex_messages es =
     filter (\<lambda>m. m \<noteq> []) (map (\<lambda>e. unwrap_or (Option.bind (json_get e ''item'') (\<lambda>v. get_str v ''text'')) []) (filter is_message es))"

definition codex_threads :: "json list \<Rightarrow> string list" where
  "codex_threads es =
     List.map_filter (\<lambda>e. if get_str e ''type'' = Some ''thread.started'' then get_str e ''thread_id'' else None) es"

definition last_or :: "'a option \<Rightarrow> 'a list \<Rightarrow> 'a option" where
  "last_or d xs = (if xs = [] then d else Some (last xs))"

lemma feed_kind [simp]: "ss_kind (feed parse l s) = ss_kind s"
  by (simp add: feed_def feed_claude_def feed_codex_def Let_def split: stream_kind.splits option.splits)

lemma feed_codex_events:
  "ss_kind s = CodexJsonl \<Longrightarrow> foldl (\<lambda>s l. feed parse l s) s ls = foldl (\<lambda>s e. feed_codex e s) s (events_of parse ls)"
proof (induction ls arbitrary: s)
  case (Cons l ls)
  have "foldl (\<lambda>s l. feed parse l s) s (l # ls) = foldl (\<lambda>s e. feed_codex e s) (feed parse l s) (events_of parse ls)"
    using Cons by simp
  then show ?case
    using Cons.prems by (cases "trim_is_empty l"; cases "parse l") (simp_all add: feed_def events_of_def List.map_filter_simps)
qed (simp add: events_of_def List.map_filter_simps)

lemma feed_codex_step:
  "feed_codex e s = s\<lparr>ss_text := (case codex_messages [e] of [] \<Rightarrow> ss_text s
       | m # _ \<Rightarrow> if ss_text s = [] then m else ss_text s @ [newline, newline] @ m),
     ss_session_id := last_or (ss_session_id s) (codex_threads [e])\<rparr>"
  by (cases s; cases "get_str e ''type''"; cases "get_str e ''thread_id''")
    (auto simp: feed_codex_def codex_messages_def codex_threads_def is_message_def unwrap_or_def last_or_def Let_def
      List.map_filter_simps split: option.splits)

lemma codex_snoc:
  "codex_messages (es @ [e]) = codex_messages es @ codex_messages [e]"
  "codex_threads (es @ [e]) = codex_threads es @ codex_threads [e]"
  by (simp_all add: codex_messages_def codex_threads_def List.map_filter_def)

lemma codex_message_one: "codex_messages [e] = [] \<or> (\<exists>m. codex_messages [e] = [m] \<and> m \<noteq> [])"
  by (auto simp: codex_messages_def)

lemma codex_messages_nonempty: "[] \<notin> set (codex_messages es)"
  by (auto simp: codex_messages_def)

lemma str_join_empty: "[] \<notin> set ms \<Longrightarrow> str_join sep ms = [] \<longleftrightarrow> ms = []"
  by (cases ms; cases "tl ms") auto

lemma feed_codex_all:
  "foldl (\<lambda>s e. feed_codex e s) \<lparr>ss_kind = k, ss_text = [], ss_session_id = sid\<rparr> es
    = \<lparr>ss_kind = k, ss_text = str_join [newline, newline] (codex_messages es), ss_session_id = last_or sid (codex_threads es)\<rparr>"
proof (induction es rule: rev_induct)
  case (snoc e es)
  have answer: "str_join [newline, newline] (codex_messages (es @ [e])) =
      (case codex_messages [e] of [] \<Rightarrow> str_join [newline, newline] (codex_messages es)
       | m # _ \<Rightarrow> if str_join [newline, newline] (codex_messages es) = [] then m
                 else str_join [newline, newline] (codex_messages es) @ [newline, newline] @ m)"
    using codex_message_one [of e] str_join_empty [OF codex_messages_nonempty [of es], of "[newline, newline]"]
      str_join_snoc [of "codex_messages es" "[newline, newline]"]
    unfolding codex_snoc by auto
  have session: "last_or (last_or sid (codex_threads es)) (codex_threads [e]) = last_or sid (codex_threads (es @ [e]))"
    unfolding codex_snoc by (simp add: last_or_def)
  show ?case unfolding foldl_append foldl.simps snoc unfolding feed_codex_step answer session [symmetric] by (simp split: list.splits)
qed (simp add: codex_messages_def codex_threads_def last_or_def List.map_filter_simps)

lemma codex_result:
  "spawn_engine parse builtin_codex rq (Exited out err code) =
    \<lparr>re_text = str_join [newline, newline] (codex_messages (events_of parse (buf_lines out))),
     re_session_id = last_or (rr_session_id rq) (codex_threads (events_of parse (buf_lines out))),
     re_code = code, re_error = None, re_stderr = (if utf8_valid err then err else [])\<rparr>"
proof -
  have sid: "rr_session_id (apply_system_prompt builtin_codex rq) = rr_session_id rq"
    by (simp add: apply_system_prompt_def Let_def split: option.splits)
  show ?thesis
    unfolding spawn_engine_def Let_def sid child.case codex_fields
    by (subst (1 2) feed_codex_events) (simp_all add: feed_codex_all)
qed

subsection \<open>Properties\<close>

text \<open>The text a fresh codex process reads: the system prompt, unless it is blank, and the message.\<close>

definition codex_turn_text :: "string option \<Rightarrow> string \<Rightarrow> string" where
  "codex_turn_text system text =
     (case system of
        Some sys \<Rightarrow>
          if trim_is_empty sys then text
          else ''[System instructions]'' @ [newline] @ sys @ [newline, newline] @ ''[User message]'' @ [newline] @ text
      | None \<Rightarrow> text)"

lemma prompt_command:
  assumes "start_prompt cfg cid run text spec s = (s', ActSpawn cid name rq # acts)"
    and "sp_engine spec = ''claude'' \<or> sp_engine spec = ''codex''"
    and "pred_option plain (cs_sessions s run)" and "pred_option plain (sp_model spec)"
    and "pred_option plain (sp_system_prompt spec)" and "pred_option plain (sp_reasoning_effort spec)"
  shows "spawn_command (engine_of name) rq =
    (if sp_engine spec = ''claude'' then
       (unwrap_or (cc_claude_bin cfg) ''claude'',
        [''-p'', ''--output-format'', ''stream-json'', ''--verbose'', ''--include-partial-messages'', ''--permission-mode'',
         if sp_access_policy spec = FullAccess then ''bypassPermissions'' else ''default'']
          @ opt_pair ''--append-system-prompt'' (sp_system_prompt spec) @ opt_pair ''--model'' (sp_model spec)
          @ opt_pair ''--resume'' (cs_sessions s run),
        text)
     else
       (unwrap_or (cc_codex_bin cfg) ''codex'',
        ''exec'' # (if cs_sessions s run = None then [] else [''resume'']) @ [''--json'', ''--skip-git-repo-check'']
          @ (if sp_access_policy spec = FullAccess then [''--dangerously-bypass-approvals-and-sandbox'']
             else [''--sandbox'', ''workspace-write''])
          @ opt_pair ''--model'' (sp_model spec) @ effort_pair (sp_reasoning_effort spec)
          @ (case cs_sessions s run of Some sid \<Rightarrow> [sid] | None \<Rightarrow> []) @ [''-''],
        if cs_sessions s run = None then codex_turn_text (sp_system_prompt spec) text else text))"
proof -
  have rq: "name = sp_engine spec" "rr_prompt rq = text" "rr_session_id rq = cs_sessions s run" "rr_model rq = sp_model spec"
    "rr_system_prompt rq = sp_system_prompt spec" "rr_effort rq = sp_reasoning_effort spec" "rr_live_status rq"
    "rr_permission_mode rq = Some (permission_mode (sp_access_policy spec))"
    "rr_bin rq = (if sp_engine spec = ''claude'' then cc_claude_bin cfg
                  else if sp_engine spec = ''codex'' then cc_codex_bin cfg else None)"
    using assms(1) by (auto simp: start_prompt_def Let_def)
  have mode: "plain (permission_mode p)" for p
    by (cases p) (simp_all add: permission_mode_def plain_def starts_with_def)
  have bypass: "permission_mode p = BYPASS_PERMISSION_MODE \<longleftrightarrow> p = FullAccess" for p
    by (cases p) (simp_all add: permission_mode_def BYPASS_PERMISSION_MODE_def)
  show ?thesis
  proof (cases "sp_engine spec = ''claude''")
    case True
    have same: "apply_system_prompt builtin_claude rq = rq" by (simp add: apply_system_prompt_def)
    have vars: "plain_vars (request_vars rq)" using assms(3-6) mode by (simp add: plain_vars_def request_vars_def rq)
    have pm: "permission_mode p = (if p = FullAccess then ''bypassPermissions'' else ''default'')" for p
      by (cases p) (simp_all add: permission_mode_def)
    show ?thesis
      using True by (simp add: spawn_command_def same engine_of_def claude_argv [OF vars rq(8,7)] rq pm)
  next
    case False
    then have codex: "sp_engine spec = ''codex''" using assms(2) by simp
    let ?rq = "apply_system_prompt builtin_codex rq"
    have same: "rr_session_id ?rq = rr_session_id rq" "rr_model ?rq = rr_model rq" "rr_effort ?rq = rr_effort rq"
      "rr_permission_mode ?rq = rr_permission_mode rq" "rr_bin ?rq = rr_bin rq"
      and sys: "pred_option plain (rr_system_prompt ?rq)"
      using assms(5) by (simp_all add: apply_system_prompt_def Let_def rq split: option.splits)
    have prompt: "rr_prompt ?rq = (if cs_sessions s run = None then codex_turn_text (sp_system_prompt spec) text else text)"
      using assms(5) by (cases "sp_system_prompt spec"; cases "cs_sessions s run")
        (simp_all add: apply_system_prompt_def Let_def rq codex_turn_text_def codex_turn)
    have vars: "plain_vars (request_vars ?rq)" using assms(3-6) sys mode by (simp add: plain_vars_def request_vars_def same rq)
    have pm: "rr_permission_mode ?rq = Some (permission_mode (sp_access_policy spec))" by (simp add: same rq)
    show ?thesis
      using codex by (simp add: spawn_command_def Let_def engine_of_def codex_argv [OF vars pm] same prompt rq sandbox_args_def bypass
          BYPASS_SANDBOX_FLAG_def)
  qed
qed

text \<open>C34: The command line of a prompt is exactly what its run asks for. For values without a placeholder, each of them is
  one argument of its own, in a fixed order; the sandbox of codex is given up, and claude asked to skip its permission
  checks, if and only if the run's access policy is full access; a session is resumed if and only if the run
  has one; the message itself never reaches the command line.\<close>

theorem prompt_starts_exact_command:
  assumes "start_prompt cfg cid run text spec s = (s', ActSpawn cid name rq # acts)"
    and "sp_engine spec = ''claude'' \<or> sp_engine spec = ''codex''"
    and "pred_option plain (cs_sessions s run)" and "pred_option plain (sp_model spec)"
    and "pred_option plain (sp_system_prompt spec)" and "pred_option plain (sp_reasoning_effort spec)"
  shows "spawn_command (engine_of name) rq =
    (if sp_engine spec = ''claude'' then
       (unwrap_or (cc_claude_bin cfg) ''claude'',
        [''-p'', ''--output-format'', ''stream-json'', ''--verbose'', ''--include-partial-messages'', ''--permission-mode'',
         if sp_access_policy spec = FullAccess then ''bypassPermissions'' else ''default'']
          @ opt_pair ''--append-system-prompt'' (sp_system_prompt spec) @ opt_pair ''--model'' (sp_model spec)
          @ opt_pair ''--resume'' (cs_sessions s run),
        text)
     else
       (unwrap_or (cc_codex_bin cfg) ''codex'',
        ''exec'' # (if cs_sessions s run = None then [] else [''resume'']) @ [''--json'', ''--skip-git-repo-check'']
          @ (if sp_access_policy spec = FullAccess then [''--dangerously-bypass-approvals-and-sandbox'']
             else [''--sandbox'', ''workspace-write''])
          @ opt_pair ''--model'' (sp_model spec) @ effort_pair (sp_reasoning_effort spec)
          @ (case cs_sessions s run of Some sid \<Rightarrow> [sid] | None \<Rightarrow> []) @ [''-''],
        if cs_sessions s run = None then codex_turn_text (sp_system_prompt spec) text else text))"
  by (rule prompt_command [OF assms])

text \<open>A codex run with full access that resumes a session.\<close>

definition demo_spec :: run_spec where
  "demo_spec =
     \<lparr>sp_task_id = TaskId 5, sp_engine = ''codex'', sp_model = Some ''m'', sp_reasoning_effort = None, sp_system_prompt = None,
      sp_access_policy = FullAccess, sp_workspace = None\<rparr>"

theorem prompt_starts_exact_command_witness:
  "\<exists>s' rq acts. start_prompt demo_cli (CommandId 2) (RunId 7) ''hi'' demo_spec (cli_new\<lparr>cs_sessions := [RunId 7 \<mapsto> ''t'']\<rparr>)
       = (s', ActSpawn (CommandId 2) ''codex'' rq # acts)
     \<and> spawn_command (engine_of ''codex'') rq =
         (''codex'', [''exec'', ''resume'', ''--json'', ''--skip-git-repo-check'', ''--dangerously-bypass-approvals-and-sandbox'',
            ''--model'', ''m'', ''t'', ''-''], ''hi'')"
proof -
  let ?s = "cli_new\<lparr>cs_sessions := [RunId 7 \<mapsto> ''t'']\<rparr>"
  obtain s' name rq acts where st: "start_prompt demo_cli (CommandId 2) (RunId 7) ''hi'' demo_spec ?s
      = (s', ActSpawn (CommandId 2) name rq # acts)" and name: "name = ''codex''"
    by (simp add: start_prompt_def Let_def demo_spec_def)
  have t: "cs_sessions ?s (RunId 7) = Some ''t''" by (simp add: cli_new_def)
  have "pred_option plain (Some ''t'')" "pred_option plain (Some ''m'')" by (simp_all add: plain_def starts_with_def)
  then have "spawn_command (engine_of name) rq =
      (''codex'', [''exec'', ''resume'', ''--json'', ''--skip-git-repo-check'', ''--dangerously-bypass-approvals-and-sandbox'',
         ''--model'', ''m'', ''t'', ''-''], ''hi'')"
    using prompt_starts_exact_command [OF st] t
    by (simp add: demo_spec_def demo_cli_def unwrap_or_def opt_pair_def effort_pair_def)
  then show ?thesis using st name by blast
qed

text \<open>A codex turn from the process to the hub and to the next turn. When the process of a prompt has exited
  successfully and was not interrupted, the answer the hub gets is every non-empty agent message
  of its output, in order and separated by blank lines, followed by the completion of the run; and the next
  prompt of the run resumes the thread that the output named last.\<close>

theorem codex_turn_to_next_turn:
  fixes parse out err rq t node now s
  defines "es \<equiv> events_of parse (buf_lines out)"
  defines "res \<equiv> finish_task node now t (Some (spawn_engine parse builtin_codex rq (Exited out err (Some 0)))) s"
  assumes "ct_run t \<notin> cs_interrupted s" and "codex_threads es \<noteq> []"
    and "cs_runs s (ct_run t) = Some spec" and "sp_engine spec = ''codex''" and "cid \<notin> cs_seen s"
    and "plain (last (codex_threads es))" and "pred_option plain (sp_model spec)" and "pred_option plain (sp_system_prompt spec)"
    and "pred_option plain (sp_reasoning_effort spec)"
  shows "snd res =
      [ActEmit ((with_payload (with_run (event_draft_new now MessageAssistantCompleted (sp_task_id (ct_spec t)) node) (ct_run t))
          (JObject [(''text'', JString (str_join [newline, newline] (codex_messages es)))]))
         \<lparr>d_provider_session_id := Some (last (codex_threads es))\<rparr>),
       run_event node now RunCompleted (sp_task_id (ct_spec t)) (ct_run t) (JObject [])]
    \<and> (\<exists>rq' args. snd (cli_dispatch node now' cfg cid (WorkSendPrompt task (ct_run t) text m) (fst res))
            = [ActSpawn cid ''codex'' rq', ActAck cid]
          \<and> spawn_command builtin_codex rq' = (unwrap_or (cc_codex_bin cfg) ''codex'', args, text)
          \<and> take 2 args = [''exec'', ''resume''] \<and> drop (length args - 2) args = [last (codex_threads es), ''-''])"
proof -
  let ?tid = "last (codex_threads es)"
  have r: "re_session_id (spawn_engine parse builtin_codex rq (Exited out err (Some 0))) = Some ?tid"
    using assms(4) by (simp add: codex_result es_def last_or_def)
  have first: "snd res =
      [ActEmit ((with_payload (with_run (event_draft_new now MessageAssistantCompleted (sp_task_id (ct_spec t)) node) (ct_run t))
          (JObject [(''text'', JString (str_join [newline, newline] (codex_messages es)))]))
         \<lparr>d_provider_session_id := Some ?tid\<rparr>),
       run_event node now RunCompleted (sp_task_id (ct_spec t)) (ct_run t) (JObject [])]"
    using assms(3) r by (simp add: res_def finish_task_def outcome_events_def Let_def codex_result es_def)
  let ?s1 = "fst res"
  have s1: "cs_sessions ?s1 (ct_run t) = Some ?tid" "cs_runs ?s1 (ct_run t) = Some spec" "cid \<notin> cs_seen ?s1"
    using r assms(5,7) by (simp_all add: res_def finish_task_def Let_def)
  let ?s2 = "?s1\<lparr>cs_seen := insert cid (cs_seen ?s1)\<rparr>"
  obtain s' rq' where st: "start_prompt cfg cid (ct_run t) text spec ?s2 = (s', ActSpawn cid ''codex'' rq' # [ActAck cid])"
    using assms(6) by (simp add: start_prompt_def Let_def)
  have disp: "snd (cli_dispatch node now' cfg cid (WorkSendPrompt task (ct_run t) text m) ?s1) = [ActSpawn cid ''codex'' rq', ActAck cid]"
    using s1 st assms(6) by (simp add: cli_dispatch_def Let_def)
  have sess: "cs_sessions ?s2 (ct_run t) = Some ?tid" using s1(1) by simp
  obtain mid where e: "spawn_command builtin_codex rq' =
      (unwrap_or (cc_codex_bin cfg) ''codex'', ''exec'' # ''resume'' # mid @ [?tid, ''-''], text)"
    using prompt_command [OF st disjI2] assms(6,8-11) sess by (simp add: engine_of_def)
  then show ?thesis
    using first disp
    by (intro conjI exI [of _ rq'] exI [of _ "''exec'' # ''resume'' # mid @ [?tid, ''-'']"]) (simp_all add: numeral_2_eq_2)
qed

text \<open>A parser for the two lines of a demo process.\<close>

definition demo_parse :: "string \<Rightarrow> json option" where
  "demo_parse l =
     (if l = ''started'' then
        Some (JObject [(''type'', JString ''thread.started''), (''thread_id'', JString ''t'')])
      else if l = ''answer'' then
        Some (JObject [(''type'', JString ''item.completed''),
                (''item'', JObject [(''type'', JString ''agent_message''), (''text'', JString ''ok'')])])
      else None)"

definition demo_output :: string where
  "demo_output = ''started'' @ [newline] @ ''answer'' @ [newline]"

lemma demo_events:
  "codex_threads (events_of demo_parse (buf_lines demo_output)) = [''t'']"
  "codex_messages (events_of demo_parse (buf_lines demo_output)) = [''ok'']"
proof -
  have "split_nl demo_output = [''started'', ''answer'', []]" by (simp add: demo_output_def)
  moreover have "utf8_valid ''started''" "utf8_valid ''answer''"
    by (simp_all add: utf8_chunk_def lead_ranges_def byte_def)
  ultimately have "buf_lines demo_output = [''started'', ''answer'']"
    by (simp add: buf_lines_def strip_cr_def)
  then have "events_of demo_parse (buf_lines demo_output) = List.map_filter demo_parse [''started'', ''answer'']"
    by (simp add: events_of_def trim_is_empty_def char_len_def byte_def is_whitespace_def)
  then show "codex_threads (events_of demo_parse (buf_lines demo_output)) = [''t'']"
    and "codex_messages (events_of demo_parse (buf_lines demo_output)) = [''ok'']"
    by (simp_all add: List.map_filter_simps demo_parse_def codex_threads_def codex_messages_def is_message_def get_str_def unwrap_or_def)
qed

definition demo_request :: run_request where
  "demo_request =
     \<lparr>rr_prompt = ''hi'', rr_session_id = None, rr_model = Some ''m'', rr_system_prompt = None, rr_effort = None,
      rr_permission_mode = None, rr_cwd = None, rr_live_status = False, rr_bin = None\<rparr>"

theorem codex_turn_to_next_turn_witness:
  "\<exists>rq' args. snd (cli_dispatch (NodeId ''n'') 0 demo_cli (CommandId 3) (WorkSendPrompt (TaskId 5) (RunId 7) ''go on'' ''x'')
       (fst (finish_task (NodeId ''n'') 0 \<lparr>ct_command = CommandId 2, ct_run = RunId 7, ct_spec = demo_spec\<rparr>
          (Some (spawn_engine demo_parse builtin_codex demo_request (Exited demo_output [] (Some 0))))
          (cli_new\<lparr>cs_runs := [RunId 7 \<mapsto> demo_spec]\<rparr>))))
     = [ActSpawn (CommandId 3) ''codex'' rq', ActAck (CommandId 3)]
   \<and> spawn_command builtin_codex rq' = (''codex'', args, ''go on'') \<and> take 2 args = [''exec'', ''resume'']
   \<and> drop (length args - 2) args = [''t'', ''-'']"
proof -
  let ?s = "cli_new\<lparr>cs_runs := [RunId 7 \<mapsto> demo_spec]\<rparr>"
  let ?t = "\<lparr>ct_command = CommandId 2, ct_run = RunId 7, ct_spec = demo_spec\<rparr>"
  have p: "plain ''t''" "plain ''m''" by (simp_all add: plain_def starts_with_def)
  show ?thesis
    using codex_turn_to_next_turn [of ?t ?s demo_parse demo_output demo_spec "CommandId 3" "NodeId ''n''" 0 demo_request "[]" 0 demo_cli
        "TaskId 5" "''go on''" "''x''"] p
    by (simp add: demo_events cli_new_def demo_spec_def demo_cli_def unwrap_or_def)
qed

text \<open>Text that looks like a placeholder is replaced also where it comes from the user. A system prompt that mentions
  \<open>{{effort}}\<close> reaches claude without it, and in one for codex \<open>{{prompt}}\<close> turns into the user's message, among
  the system instructions.\<close>

theorem placeholders_in_values_are_replaced:
  "subst ''{{system_prompt}}'' \<lparr>av_session_id = None, av_model = None, av_permission_mode = None,
      av_system_prompt = Some ''use {{effort}} sparingly'', av_effort = None, av_allow_tools = [], av_deny_tools = [],
      av_live_status = True\<rparr> = ''use  sparingly''
   \<and> rr_prompt (apply_system_prompt builtin_codex
      \<lparr>rr_prompt = ''hi'', rr_session_id = None, rr_model = None, rr_system_prompt = Some ''say {{prompt}}'', rr_effort = None,
       rr_permission_mode = None, rr_cwd = None, rr_live_status = False, rr_bin = None\<rparr>)
    = ''[System instructions]'' @ [newline] @ ''say hi'' @ [newline, newline] @ ''[User message]'' @ [newline] @ ''hi''"
  by (simp add: subst_def unwrap_or_def Let_def starts_with_def apply_system_prompt_def SYSTEM_PROMPT_TURN_def
      trim_is_empty_def char_len_def byte_def is_whitespace_def)

end
