(* ===== verification/Index_Map.thy ===== *)
theory Index_Map
  imports Prelude "HOL-Library.Multiset"
begin

text \<open>
  The insertion-ordered map \<open>IndexMap\<close> as the sources use it: \<open>entry(k).or_insert(d)\<close> followed
  by an update of the value, in a loop over rows. An entry is created at the end; an
  existing one keeps its place. The main lemma says that such a loop groups: the keys come
  in the order of their first occurrence, and each value is the fold over the rows of its key.
\<close>

fun entry_update :: "'k \<Rightarrow> 'v \<Rightarrow> ('v \<Rightarrow> 'v) \<Rightarrow> ('k \<times> 'v) list \<Rightarrow> ('k \<times> 'v) list" where
  "entry_update k d f [] = [(k, f d)]"
| "entry_update k d f ((k', v) # m) =
     (if k' = k then (k', f v) # m else (k', v) # entry_update k d f m)"

definition index_group :: "('a \<Rightarrow> 'k) \<Rightarrow> 'v \<Rightarrow> ('a \<Rightarrow> 'v \<Rightarrow> 'v) \<Rightarrow> 'a list \<Rightarrow> ('k \<times> 'v) list" where
  "index_group key d upd rows = foldl (\<lambda>m x. entry_update (key x) d (upd x) m) [] rows"

text \<open>First occurrences, in order.\<close>

fun firsts :: "'a list \<Rightarrow> 'a list" where
  "firsts [] = []"
| "firsts (x # xs) = x # filter (\<lambda>y. y \<noteq> x) (firsts xs)"

lemma set_firsts [simp]: "set (firsts xs) = set xs"
  by (induction xs) auto

lemma distinct_firsts [simp]: "distinct (firsts xs)"
  by (induction xs) auto

lemma firsts_snoc: "firsts (xs @ [x]) = (if x \<in> set xs then firsts xs else firsts xs @ [x])"
  by (induction xs) auto

lemma filter_firsts: "filter P (firsts xs) = firsts (filter P xs)"
proof (induction xs)
  case (Cons a xs)
  have "filter P (filter (\<lambda>y. y \<noteq> a) (firsts xs)) = filter (\<lambda>y. y \<noteq> a) (filter P (firsts xs))"
    unfolding filter_filter by (rule filter_cong) auto
  moreover have "filter P (filter (\<lambda>y. y \<noteq> a) (firsts xs)) = filter P (firsts xs)" if "\<not> P a"
    unfolding filter_filter using that by (intro filter_cong) auto
  ultimately show ?case using Cons.IH by simp
qed simp

lemma entry_update_new:
  "k \<notin> fst ` set m \<Longrightarrow> entry_update k d f m = m @ [(k, f d)]"
  by (induction m) auto

lemma entry_update_map:
  "distinct ks \<Longrightarrow> k \<in> set ks \<Longrightarrow>
     entry_update k d f (map (\<lambda>k. (k, g k)) ks) = map (\<lambda>k'. (k', if k' = k then f (g k') else g k')) ks"
  by (induction ks) (auto intro: map_cong)

text \<open>The rows of one key, in order.\<close>

definition rows_of :: "('a \<Rightarrow> 'k) \<Rightarrow> 'k \<Rightarrow> 'a list \<Rightarrow> 'a list" where
  "rows_of key k xs = filter (\<lambda>x. key x = k) xs"

lemma rows_of_simps [simp]:
  "rows_of key k [] = []"
  "rows_of key k (xs @ ys) = rows_of key k xs @ rows_of key k ys"
  "rows_of key k [x] = (if key x = k then [x] else [])"
  "set (rows_of key k xs) = {x \<in> set xs. key x = k}"
  by (simp_all add: rows_of_def)

lemma rows_of_none: "k \<notin> key ` set xs \<Longrightarrow> rows_of key k xs = []"
  by (auto simp: rows_of_def filter_empty_conv)

lemma index_group_spec:
  "index_group key d upd rows
   = map (\<lambda>k. (k, foldl (\<lambda>v x. upd x v) d (rows_of key k rows))) (firsts (map key rows))"
proof (induction rows rule: rev_induct)
  case (snoc x xs)
  let ?g = "\<lambda>k. foldl (\<lambda>v x. upd x v) d (rows_of key k xs)"
  have step: "index_group key d upd (xs @ [x])
      = entry_update (key x) d (upd x) (map (\<lambda>k. (k, ?g k)) (firsts (map key xs)))"
    using snoc by (simp add: index_group_def)
  show ?case
  proof (cases "key x \<in> key ` set xs")
    case True
    then show ?thesis
      unfolding step by (simp add: entry_update_map firsts_snoc cong: map_cong if_cong)
  next
    case False
    then have "entry_update (key x) d (upd x) (map (\<lambda>k. (k, ?g k)) (firsts (map key xs)))
        = map (\<lambda>k. (k, ?g k)) (firsts (map key xs)) @ [(key x, upd x d)]"
      by (intro entry_update_new) auto
    then show ?thesis
      unfolding step using False by (auto simp: firsts_snoc rows_of_none)
  qed
qed (simp add: index_group_def)

text \<open>Grouping into lists is a partition.\<close>

definition group_rows :: "('a \<Rightarrow> 'k) \<Rightarrow> 'a list \<Rightarrow> ('k \<times> 'a list) list" where
  "group_rows key rows = index_group key [] (\<lambda>x xs. xs @ [x]) rows"

lemma foldl_snoc: "foldl (\<lambda>v x. v @ [x]) ys xs = ys @ xs"
  by (induction xs arbitrary: ys) auto

lemma group_rows_spec: "group_rows key rows = map (\<lambda>k. (k, rows_of key k rows)) (firsts (map key rows))"
  by (simp add: group_rows_def index_group_spec foldl_snoc)

lemma concat_rows_of:
  "distinct ks \<Longrightarrow> key ` set xs \<subseteq> set ks \<Longrightarrow> mset (concat (map (\<lambda>k. rows_of key k xs) ks)) = mset xs"
proof (induction ks arbitrary: xs)
  case (Cons k ks)
  let ?ys = "filter (\<lambda>x. key x \<noteq> k) xs"
  have "map (\<lambda>k. rows_of key k xs) ks = map (\<lambda>k. rows_of key k ?ys) ks"
    using Cons.prems(1) by (auto simp: rows_of_def intro!: filter_cong)
  moreover have "mset (concat (map (\<lambda>k. rows_of key k ?ys) ks)) = mset ?ys"
    by (rule Cons.IH) (use Cons.prems in auto)
  ultimately have "mset (concat (map (\<lambda>k. rows_of key k xs) ks)) = mset ?ys" by (simp only:)
  then show ?case
    using multiset_partition [of "mset xs" "\<lambda>x. key x = k"] by (simp add: rows_of_def)
qed simp

end
