(* ===== verification/Summarize.thy ===== *)
theory Summarize
  imports F64 Index_Map
begin

text \<open>
  The activity tracker's credit model (\<open>crates/stackhour-store/src/summarize.rs\<close>): heartbeats
  are split into streams, every heartbeat earns the capped gap to its successor, and the
  credited rows are summed into grouped totals, timeline segments and day buckets.

  Times, credits and costs are finite \<open>f64\<close> values (the ingest rejects others); \<open>rnd\<close> rounds
  every operation. \<open>sort_key\<close> is stable, as \<open>sort_by\<close> is. The JSON objects that the functions
  return are the records here, with the keys of the source in field order.
\<close>

subsection \<open>Rows and streams\<close>

record heartbeat =
  hb_id :: int
  hb_time :: real
  hb_machine :: string
  hb_source :: string
  hb_project :: string
  hb_entity :: string
  hb_entity_type :: string
  hb_category :: string
  hb_language :: "string option"
  hb_branch :: "string option"
  hb_is_write :: int
  hb_actor :: string
  hb_tokens_in :: int
  hb_tokens_out :: int
  hb_cost :: real
  hb_created_at :: real

definition GROUP_FIELDS :: "string list" where
  "GROUP_FIELDS = [''project'', ''source'', ''machine'', ''category'', ''language'', ''entity'', ''actor'', ''branch'']"

text \<open>\<open>field\<close> gives nothing for an unknown name and \<open>Some None\<close> for a null column.\<close>

definition hb_field :: "heartbeat \<Rightarrow> string \<Rightarrow> string option option" where
  "hb_field row name =
     (if name = ''project'' then Some (Some (hb_project row))
      else if name = ''source'' then Some (Some (hb_source row))
      else if name = ''machine'' then Some (Some (hb_machine row))
      else if name = ''category'' then Some (Some (hb_category row))
      else if name = ''language'' then Some (hb_language row)
      else if name = ''entity'' then Some (Some (hb_entity row))
      else if name = ''actor'' then Some (Some (hb_actor row))
      else if name = ''branch'' then Some (hb_branch row)
      else if name = ''entity_type'' then Some (Some (hb_entity_type row))
      else None)"

definition field_label :: "heartbeat \<Rightarrow> string \<Rightarrow> string" where
  "field_label row name = (case hb_field row name of Some (Some s) \<Rightarrow> s | _ \<Rightarrow> ''unknown'')"

record stream_key =
  sk_machine :: string
  sk_source :: string
  sk_actor :: string
  sk_project :: string

definition stream_key_of :: "heartbeat \<Rightarrow> stream_key" where
  "stream_key_of row =
     \<lparr>sk_machine = hb_machine row, sk_source = hb_source row, sk_actor = hb_actor row,
      sk_project = (if hb_actor row = ''agent'' then hb_project row else [])\<rparr>"

record credited =
  cr_row :: heartbeat
  cr_credit :: real

subsection \<open>Credits\<close>

text \<open>The loop over one sorted stream.\<close>

fun credit_stream :: "(real \<Rightarrow> real) \<Rightarrow> real \<Rightarrow> real \<Rightarrow> heartbeat list \<Rightarrow> credited list" where
  "credit_stream rnd cap_s last_s [] = []"
| "credit_stream rnd cap_s last_s [row] = [\<lparr>cr_row = row, cr_credit = last_s\<rparr>]"
| "credit_stream rnd cap_s last_s (row # row' # rows) =
     \<lparr>cr_row = row, cr_credit = min (rnd (hb_time row' - hb_time row)) cap_s\<rparr>
     # credit_stream rnd cap_s last_s (row' # rows)"

definition compute_credits :: "(real \<Rightarrow> real) \<Rightarrow> heartbeat list \<Rightarrow> real \<Rightarrow> real \<Rightarrow> credited list" where
  "compute_credits rnd rows cap_s last_s =
     concat (map (\<lambda>(_, stream). credit_stream rnd cap_s last_s (sort_key hb_time stream))
       (group_rows stream_key_of rows))"

subsection \<open>Grouped totals\<close>

definition labels :: "heartbeat \<Rightarrow> string list \<Rightarrow> string list" where
  "labels row keys = map (field_label row) keys"

definition round2 :: "(real \<Rightarrow> real) \<Rightarrow> real \<Rightarrow> real" where
  "round2 rnd x = rnd (of_int (js_round_f64 (rnd (x * 100))) / 100)"

record totals =
  tt_seconds :: real
  tt_tokens :: real
  tt_cost :: real

definition add_totals :: "(real \<Rightarrow> real) \<Rightarrow> credited \<Rightarrow> totals \<Rightarrow> totals" where
  "add_totals rnd c t =
     t\<lparr>tt_seconds := rnd (tt_seconds t + cr_credit c),
       tt_tokens := rnd (tt_tokens t + rnd (rnd (of_int (hb_tokens_in (cr_row c)))
                                          + rnd (of_int (hb_tokens_out (cr_row c))))),
       tt_cost := rnd (tt_cost t + hb_cost (cr_row c))\<rparr>"

definition no_totals :: totals where
  "no_totals = \<lparr>tt_seconds = 0, tt_tokens = 0, tt_cost = 0\<rparr>"

record total_row =
  to_seconds :: int
  to_tokens :: real
  to_cost :: real
  to_parts :: "(string \<times> string) list"

definition total_row_of :: "(real \<Rightarrow> real) \<Rightarrow> string list \<Rightarrow> string list \<times> totals \<Rightarrow> total_row" where
  "total_row_of rnd keys b =
     \<lparr>to_seconds = js_round (tt_seconds (snd b)), to_tokens = tt_tokens (snd b),
      to_cost = round2 rnd (tt_cost (snd b)), to_parts = zip keys (fst b)\<rparr>"

definition totals_by :: "(real \<Rightarrow> real) \<Rightarrow> credited list \<Rightarrow> string list \<Rightarrow> total_row list" where
  "totals_by rnd rows keys =
     sort_key (\<lambda>r. - to_seconds r)
       (map (total_row_of rnd keys)
         (index_group (\<lambda>c. labels (cr_row c) keys) no_totals (add_totals rnd) rows))"

subsection \<open>Segments\<close>

record segment =
  sg_project :: string
  sg_actor :: string
  sg_start :: real
  sg_end :: real
  sg_seconds :: real
  sg_sources :: "string list"

definition new_segment :: "string \<times> string \<Rightarrow> credited \<Rightarrow> segment" where
  "new_segment k c =
     \<lparr>sg_project = fst k, sg_actor = snd k, sg_start = hb_time (cr_row c), sg_end = hb_time (cr_row c),
      sg_seconds = cr_credit c, sg_sources = [hb_source (cr_row c)]\<rparr>"

definition extend_segment :: "(real \<Rightarrow> real) \<Rightarrow> credited \<Rightarrow> segment \<Rightarrow> segment" where
  "extend_segment rnd c s =
     s\<lparr>sg_end := hb_time (cr_row c), sg_seconds := rnd (sg_seconds s + cr_credit c),
       sg_sources := (if hb_source (cr_row c) \<in> set (sg_sources s) then sg_sources s
                      else sg_sources s @ [hb_source (cr_row c)])\<rparr>"

text \<open>The loop over one sorted group, with the open segment as its state.\<close>

fun segment_loop ::
  "(real \<Rightarrow> real) \<Rightarrow> real \<Rightarrow> string \<times> string \<Rightarrow> segment option \<Rightarrow> credited list \<Rightarrow> segment list" where
  "segment_loop rnd join_gap k seg [] = (case seg of None \<Rightarrow> [] | Some s \<Rightarrow> [s])"
| "segment_loop rnd join_gap k seg (c # cs) =
     (case seg of
        Some s \<Rightarrow>
          if rnd (hb_time (cr_row c) - sg_end s) \<le> join_gap
          then segment_loop rnd join_gap k (Some (extend_segment rnd c s)) cs
          else s # segment_loop rnd join_gap k (Some (new_segment k c)) cs
      | None \<Rightarrow> segment_loop rnd join_gap k (Some (new_segment k c)) cs)"

definition group_key :: "credited \<Rightarrow> string \<times> string" where
  "group_key c = (hb_project (cr_row c), hb_actor (cr_row c))"

text \<open>\<open>Segment::to_value\<close>: the segment with its seconds rounded.\<close>

record segment_row =
  sr_segment :: segment
  sr_seconds :: int

definition segment_to_value :: "segment \<Rightarrow> segment_row" where
  "segment_to_value s = \<lparr>sr_segment = s, sr_seconds = js_round (sg_seconds s)\<rparr>"

definition build_segments :: "(real \<Rightarrow> real) \<Rightarrow> credited list \<Rightarrow> real \<Rightarrow> segment_row list" where
  "build_segments rnd rows join_gap =
     map segment_to_value (sort_key sg_start
       (concat (map (\<lambda>(k, cs). segment_loop rnd join_gap k None (sort_key (hb_time \<circ> cr_row) cs))
          (group_rows group_key rows))))"

subsection \<open>Day buckets\<close>

text \<open>\<open>date_of_days\<close> prints the calendar date of a day number since 1970-01-01 (the calendar of the
  crate chrono), or nothing beyond its range.\<close>

definition day_number :: "(real \<Rightarrow> real) \<Rightarrow> real \<Rightarrow> int \<Rightarrow> int option" where
  "day_number rnd time tz_min =
     (let ms = rnd (rnd (time - rnd (rnd (of_int tz_min) * 60)) * 1000) in
      if \<bar>ms\<bar> > 8640000000000000 then None
      else Some ((if ms \<ge> 0 then \<lfloor>ms\<rfloor> else \<lceil>ms\<rceil>) div 86400000))"

definition day_string :: "(int \<Rightarrow> string option) \<Rightarrow> (real \<Rightarrow> real) \<Rightarrow> real \<Rightarrow> int \<Rightarrow> string" where
  "day_string date_of_days rnd time tz_min =
     (case day_number rnd time tz_min of
        None \<Rightarrow> ''Invalid Date''
      | Some days \<Rightarrow> (case date_of_days days of Some s \<Rightarrow> s | None \<Rightarrow> ''Invalid Date''))"

definition day_key ::
  "(int \<Rightarrow> string option) \<Rightarrow> (real \<Rightarrow> real) \<Rightarrow> string list \<Rightarrow> int \<Rightarrow> credited \<Rightarrow> string list" where
  "day_key date_of_days rnd keys tz_min c =
     day_string date_of_days rnd (hb_time (cr_row c)) tz_min # labels (cr_row c) keys"

record day_row =
  dy_date :: string
  dy_seconds :: int
  dy_parts :: "(string \<times> string) list"

definition day_row_of :: "string list \<Rightarrow> string list \<times> real \<Rightarrow> day_row" where
  "day_row_of keys b =
     \<lparr>dy_date = hd (fst b), dy_seconds = js_round (snd b), dy_parts = zip keys (tl (fst b))\<rparr>"

definition day_buckets ::
  "(int \<Rightarrow> string option) \<Rightarrow> (real \<Rightarrow> real) \<Rightarrow> credited list \<Rightarrow> string list \<Rightarrow> int \<Rightarrow> day_row list" where
  "day_buckets date_of_days rnd rows keys tz_min =
     sort_key dy_date
       (map (day_row_of keys)
         (index_group (day_key date_of_days rnd keys tz_min) 0 (\<lambda>c s. rnd (s + cr_credit c)) rows))"

subsection \<open>Every row is credited once\<close>

lemma credit_stream_rows [simp]: "map cr_row (credit_stream rnd cap_s last_s rows) = rows"
  by (induction rnd cap_s last_s rows rule: credit_stream.induct) auto

lemma compute_credits_spec:
  "compute_credits rnd rows cap_s last_s
   = concat (map (\<lambda>k. credit_stream rnd cap_s last_s (sort_key hb_time (rows_of stream_key_of k rows)))
       (firsts (map stream_key_of rows)))"
  by (simp add: compute_credits_def group_rows_spec comp_def)

lemma compute_credits_rows: "mset (map cr_row (compute_credits rnd rows cap_s last_s)) = mset rows"
proof -
  let ?ks = "firsts (map stream_key_of rows)"
  have "mset (map cr_row (compute_credits rnd rows cap_s last_s))
      = mset (concat (map (\<lambda>k. sort_key hb_time (rows_of stream_key_of k rows)) ?ks))"
    by (simp add: compute_credits_spec map_concat comp_def)
  also have "\<dots> = mset (concat (map (\<lambda>k. rows_of stream_key_of k rows) ?ks))"
    by (simp add: mset_concat comp_def)
  also have "\<dots> = mset rows" by (rule concat_rows_of) auto
  finally show ?thesis .
qed

text \<open>The credited rows of one stream are that stream, sorted.\<close>

lemma concat_filter_one:
  "distinct ks \<Longrightarrow> (\<And>k' x. k' \<in> set ks \<Longrightarrow> x \<in> set (f k') \<Longrightarrow> key x = k') \<Longrightarrow>
     filter (\<lambda>x. key x = k) (concat (map f ks)) = (if k \<in> set ks then f k else [])"
proof (induction ks)
  case (Cons k' ks)
  have one: "filter (\<lambda>x. key x = k) (f k') = (if k' = k then f k' else [])"
    using Cons.prems(2) [of k'] by (auto simp: filter_empty_conv intro: filter_True)
  show ?case using Cons one by auto
qed simp

lemma credit_stream_mem:
  "x \<in> set (credit_stream rnd cap_s last_s rows) \<Longrightarrow> cr_row x \<in> set rows"
  by (metis credit_stream_rows imageI list.set_map)

lemma stream_credits:
  "rows_of (stream_key_of \<circ> cr_row) k (compute_credits rnd rows cap_s last_s)
   = credit_stream rnd cap_s last_s (sort_key hb_time (rows_of stream_key_of k rows))"
proof -
  let ?f = "\<lambda>k. credit_stream rnd cap_s last_s (sort_key hb_time (rows_of stream_key_of k rows))"
  have "filter (\<lambda>x. (stream_key_of \<circ> cr_row) x = k) (concat (map ?f (firsts (map stream_key_of rows))))
      = (if k \<in> set (firsts (map stream_key_of rows)) then ?f k else [])"
    by (rule concat_filter_one) (auto dest!: credit_stream_mem)
  moreover have "?f k = []" if "k \<notin> set (map stream_key_of rows)"
    using that rows_of_none [of k stream_key_of rows] by auto
  ultimately show ?thesis by (auto simp: rows_of_def compute_credits_spec)
qed

subsection \<open>A stream earns no more than its time\<close>

definition credit_sum :: "credited list \<Rightarrow> real" where
  "credit_sum cs = sum_list (map cr_credit cs)"

lemma credit_stream_bound:
  assumes r: "f64_rounding rnd" and cap: "0 \<le> cap_s" and last: "0 \<le> last_s"
  shows "sorted (map hb_time rows) \<Longrightarrow> \<forall>row \<in> set rows. finite_f64 (hb_time row) \<Longrightarrow> rows \<noteq> [] \<Longrightarrow>
    (\<forall>c \<in> set (credit_stream rnd cap_s last_s rows). 0 \<le> cr_credit c \<and> cr_credit c \<le> max cap_s last_s)
    \<and> credit_sum (credit_stream rnd cap_s last_s rows)
      \<le> (hb_time (List.last rows) - hb_time (hd rows)) * (1 + 1 / 2 ^ 53) + last_s"
proof (induction rows rule: induct_list012)
  case (2 row)
  then show ?case using last by (simp add: credit_sum_def)
next
  case (3 row row' rows)
  let ?g = "hb_time row' - hb_time row" and ?rest = "row' # rows" and ?u = "1 + 1 / 2 ^ 53 :: real"
  let ?c = "min (rnd ?g) cap_s"
  have g: "f64_range ?g" using 3 by (intro f64_range_diff) simp_all
  have srt: "sorted (map hb_time ?rest)" and fin: "\<forall>r \<in> set ?rest. finite_f64 (hb_time r)"
    using 3 by simp_all
  note IH = "3.IH"(2) [OF srt fin] and rd = rounded_le [OF r g order_refl]
  have c: "0 \<le> ?c" "?c \<le> max cap_s last_s" "?c \<le> ?g * ?u" using rd cap by auto
  have "credit_sum (credit_stream rnd cap_s last_s (row # ?rest))
      = ?c + credit_sum (credit_stream rnd cap_s last_s ?rest)"
    by (simp add: credit_sum_def)
  also have "\<dots> \<le> ?g * ?u + ((hb_time (List.last ?rest) - hb_time row') * ?u + last_s)"
    using c(3) IH by (intro add_mono) simp_all
  also have "\<dots> = (hb_time (List.last ?rest) - hb_time row) * ?u + last_s"
    by (simp only: algebra_simps)
  finally show ?case using c IH by simp
qed simp

lemma sorted_bounds:
  assumes "rows \<noteq> []" and "\<forall>x \<in> set rows. a \<le> hb_time x \<and> hb_time x \<le> b"
  shows "hb_time (List.last rows) - hb_time (hd rows) \<le> b - a"
  using assms(2) [rule_format, OF hd_in_set [OF assms(1)]] assms(2) [rule_format, OF last_in_set [OF assms(1)]]
  by linarith

subsection \<open>Credit properties\<close>

text \<open>C29: the credit model neither invents nor double-counts time. Every heartbeat is credited
  exactly once. All heartbeats of one stream (for a human: everything seen on one machine in
  one tool, whatever the project; for an agent: per project) together earn at most the time
  from the first to the last of them plus the credit of the last one, up to one rounding step
  of \<open>f64\<close>, so switching between projects never earns more than the clock. And every single
  credit lies between zero and the larger of the two limits.\<close>

theorem credits_bounded_by_time:
  assumes "f64_rounding rnd" and "0 \<le> cap_s" and "0 \<le> last_s"
    and times: "\<forall>row \<in> set rows. finite_f64 (hb_time row)"
    and "\<forall>row \<in> set rows. stream_key_of row = k \<longrightarrow> a \<le> hb_time row \<and> hb_time row \<le> b"
    and "a \<le> b"
  shows "mset (map cr_row (compute_credits rnd rows cap_s last_s)) = mset rows
    \<and> credit_sum (filter (\<lambda>c. stream_key_of (cr_row c) = k) (compute_credits rnd rows cap_s last_s))
        \<le> (b - a) * (1 + 1 / 2 ^ 53) + last_s
    \<and> (\<forall>c \<in> set (compute_credits rnd rows cap_s last_s). 0 \<le> cr_credit c \<and> cr_credit c \<le> max cap_s last_s)"
proof (intro conjI)
  let ?out = "compute_credits rnd rows cap_s last_s"
  show "mset (map cr_row ?out) = mset rows" by (rule compute_credits_rows)
  let ?st = "\<lambda>k. sort_key hb_time (rows_of stream_key_of k rows)"
  have srt: "sorted (map hb_time (?st k))" and fin: "\<forall>row \<in> set (?st k). finite_f64 (hb_time row)" for k
    using times by simp_all
  have flt: "filter (\<lambda>c. stream_key_of (cr_row c) = k) ?out = credit_stream rnd cap_s last_s (?st k)" for k
    using stream_credits [of k rnd rows cap_s last_s] by (simp add: rows_of_def)
  show "credit_sum (filter (\<lambda>c. stream_key_of (cr_row c) = k) ?out) \<le> (b - a) * (1 + 1 / 2 ^ 53) + last_s"
  proof (cases "?st k = []")
    case True
    then show ?thesis unfolding flt using assms(3,6) by (simp add: credit_sum_def)
  next
    case False
    have "hb_time (List.last (?st k)) - hb_time (hd (?st k)) \<le> b - a"
      by (rule sorted_bounds [OF False]) (use assms(5) in auto)
    then have "(hb_time (List.last (?st k)) - hb_time (hd (?st k))) * (1 + 1 / 2 ^ 53) \<le> (b - a) * (1 + 1 / 2 ^ 53)"
      by (rule mult_right_mono) simp
    then show ?thesis unfolding flt using credit_stream_bound [OF assms(1-3) srt fin False] by linarith
  qed
  show "\<forall>c \<in> set ?out. 0 \<le> cr_credit c \<and> cr_credit c \<le> max cap_s last_s"
  proof
    fix c assume "c \<in> set ?out"
    then have "c \<in> set (credit_stream rnd cap_s last_s (?st (stream_key_of (cr_row c))))"
      unfolding flt [symmetric] by simp
    then show "0 \<le> cr_credit c \<and> cr_credit c \<le> max cap_s last_s"
      using credit_stream_bound [OF assms(1-3) srt fin] by (cases "?st (stream_key_of (cr_row c)) = []") auto
  qed
qed

definition demo_beat :: "real \<Rightarrow> string \<Rightarrow> string \<Rightarrow> heartbeat" where
  "demo_beat t actor project =
     \<lparr>hb_id = 1, hb_time = t, hb_machine = ''m'', hb_source = ''zed'', hb_project = project, hb_entity = ''e'',
      hb_entity_type = ''file'', hb_category = ''coding'', hb_language = None, hb_branch = None, hb_is_write = 0,
      hb_actor = actor, hb_tokens_in = 0, hb_tokens_out = 0, hb_cost = 0, hb_created_at = t\<rparr>"

text \<open>Three heartbeats of a human in two projects, out of order: 10 and 100 seconds apart.\<close>

theorem credits_bounded_by_time_witness:
  "map cr_credit (compute_credits id
     [demo_beat 10 ''human'' ''p'', demo_beat 0 ''human'' ''q'', demo_beat 110 ''human'' ''p''] 60 30) = [10, 60, 30]
   \<and> credit_sum (filter (\<lambda>c. stream_key_of (cr_row c) = stream_key_of (demo_beat 0 ''human'' ''p''))
       (compute_credits id [demo_beat 10 ''human'' ''p'', demo_beat 0 ''human'' ''q'', demo_beat 110 ''human'' ''p''] 60 30))
     \<le> (110 - 0) * (1 + 1 / 2 ^ 53) + 30"
proof
  let ?rows = "[demo_beat 10 ''human'' ''p'', demo_beat 0 ''human'' ''q'', demo_beat 110 ''human'' ''p'']"
  show "map cr_credit (compute_credits id ?rows 60 30) = [10, 60, 30]"
    by (simp add: compute_credits_spec stream_key_of_def demo_beat_def rows_of_def)
  show "credit_sum (filter (\<lambda>c. stream_key_of (cr_row c) = stream_key_of (demo_beat 0 ''human'' ''p''))
       (compute_credits id ?rows 60 30)) \<le> (110 - 0) * (1 + 1 / 2 ^ 53) + 30"
    using credits_bounded_by_time [OF rounding_id, of 60 30 ?rows "stream_key_of (demo_beat 0 ''human'' ''p'')" 0 110]
      finite_f64_int [of 0] finite_f64_int [of 10] finite_f64_int [of 110]
    by (simp add: demo_beat_def)
qed

subsection \<open>Totals lose nothing\<close>

text \<open>Integers of at most 53 bits are doubles.\<close>

definition exact_integers :: "(real \<Rightarrow> real) \<Rightarrow> bool" where
  "exact_integers rnd \<longleftrightarrow> (\<forall>k::int. \<bar>k\<bar> \<le> 2 ^ 53 \<longrightarrow> rnd (of_int k) = of_int k)"

definition whole_seconds :: "credited list \<Rightarrow> bool" where
  "whole_seconds cs \<longleftrightarrow> (\<forall>c \<in> set cs. \<exists>k \<ge> 0. cr_credit c = of_int k) \<and> credit_sum cs \<le> 2 ^ 53"

lemma whole_seconds_sub:
  assumes "whole_seconds cs"
  shows "whole_seconds (filter P cs)" and "0 \<le> credit_sum cs" and "credit_sum (filter P cs) \<le> credit_sum cs"
proof -
  have ge: "0 \<le> cr_credit c" if "c \<in> set cs" for c using assms that by (auto simp: whole_seconds_def)
  show "0 \<le> credit_sum cs" using ge by (auto simp: credit_sum_def intro!: sum_list_nonneg)
  show le: "credit_sum (filter P cs) \<le> credit_sum cs"
    using ge by (induction cs) (auto simp: credit_sum_def intro: add_increasing)
  show "whole_seconds (filter P cs)" using assms le by (auto simp: whole_seconds_def)
qed

lemma whole_seconds_int: "whole_seconds cs \<Longrightarrow> \<exists>k. credit_sum cs = of_int k"
proof -
  have "\<exists>k. credit_sum cs = of_int k" if "\<forall>c \<in> set cs. \<exists>k \<ge> 0. cr_credit c = of_int k"
    using that
  proof (induction cs)
    case (Cons c cs)
    then obtain k j where "cr_credit c = of_int k" "credit_sum cs = of_int j" by auto
    then have "credit_sum (c # cs) = of_int (k + j)" by (simp add: credit_sum_def)
    then show ?case ..
  qed (simp add: credit_sum_def exI [of _ 0])
  then show "whole_seconds cs \<Longrightarrow> ?thesis" by (simp add: whole_seconds_def)
qed

lemma js_round_whole:
  assumes "whole_seconds cs"
  shows "of_int (js_round (credit_sum cs)) = credit_sum cs"
proof -
  obtain k where k: "credit_sum cs = of_int k" using whole_seconds_int [OF assms] by blast
  have "0 \<le> real_of_int k" "of_int k \<le> (2 ^ 53 :: real)"
    using whole_seconds_sub(2) [OF assms] assms unfolding k whole_seconds_def by simp_all
  then have "\<bar>k\<bar> \<le> 2 ^ 53" by (metis abs_of_nonneg of_int_0_le_iff of_int_le_iff of_int_numeral of_int_power)
  then show ?thesis unfolding k by (simp only: js_round_int)
qed

lemma totals_exact:
  assumes "exact_integers rnd"
  shows "whole_seconds cs \<Longrightarrow> tt_seconds (foldl (\<lambda>t c. add_totals rnd c t) no_totals cs) = credit_sum cs"
proof (induction cs rule: rev_induct)
  case (snoc c cs)
  obtain k where k: "0 \<le> k" "cr_credit c = of_int k" using snoc.prems by (auto simp: whole_seconds_def)
  then have whole: "whole_seconds cs" using snoc.prems by (auto simp: whole_seconds_def credit_sum_def)
  obtain j where j: "credit_sum cs = of_int j" using whole_seconds_int [OF whole] by blast
  have "0 \<le> j" using whole_seconds_sub(2) [OF whole] j by simp
  moreover have "of_int (j + k) \<le> (2 ^ 53 :: real)" using snoc.prems j k by (simp add: whole_seconds_def credit_sum_def)
  then have "j + k \<le> 2 ^ 53" by (metis of_int_le_iff of_int_numeral of_int_power)
  ultimately have "rnd (of_int (j + k)) = of_int (j + k)"
    using assms k(1) unfolding exact_integers_def by (metis abs_of_nonneg add_nonneg_nonneg)
  then show ?case using snoc.IH [OF whole] j k by (simp add: add_totals_def credit_sum_def)
qed (simp add: no_totals_def credit_sum_def)

lemma sum_list_concat_map: "sum_list (concat (map f ks)) = sum_list (map (\<lambda>k. sum_list (f k)) ks)"
  by (induction ks) auto

lemma sum_over_groups:
  fixes f :: "'a \<Rightarrow> real"
  assumes "distinct ks" and "key ` set xs \<subseteq> set ks"
  shows "sum_list (map (\<lambda>k. sum_list (map f (rows_of key k xs))) ks) = sum_list (map f xs)"
proof -
  have "mset (map f (concat (map (\<lambda>k. rows_of key k xs) ks))) = mset (map f xs)"
    using concat_rows_of [OF assms] by simp
  then have "sum_list (map f (concat (map (\<lambda>k. rows_of key k xs) ks))) = sum_list (map f xs)"
    by (metis sum_mset_sum_list)
  then show ?thesis by (simp add: map_concat comp_def sum_list_concat_map)
qed

lemma of_int_sum_list: "of_int (sum_list xs) = sum_list (map of_int xs)"
  by (induction xs) auto

lemma totals_by_spec:
  "totals_by rnd rows keys =
     sort_key (\<lambda>r. - to_seconds r)
       (map (\<lambda>l. total_row_of rnd keys
            (l, foldl (\<lambda>t c. add_totals rnd c t) no_totals (filter (\<lambda>c. labels (cr_row c) keys = l) rows)))
         (firsts (map (\<lambda>c. labels (cr_row c) keys) rows)))"
  by (simp add: totals_by_def index_group_spec rows_of_def comp_def)

lemma totals_sum_credit:
  assumes "exact_integers rnd" and "whole_seconds rows"
  shows "of_int (sum_list (map to_seconds (totals_by rnd rows keys))) = credit_sum rows"
proof -
  note spec = totals_by_spec
  let ?key = "\<lambda>c. labels (cr_row c) keys"
  let ?tot = "\<lambda>l. foldl (\<lambda>t c. add_totals rnd c t) no_totals (filter (\<lambda>c. ?key c = l) rows)"
  have "of_int (js_round (tt_seconds (?tot l))) = credit_sum (rows_of ?key l rows)" for l
    using totals_exact [OF assms(1) whole_seconds_sub(1) [OF assms(2), of "\<lambda>c. ?key c = l"]]
      js_round_whole [OF whole_seconds_sub(1) [OF assms(2), of "\<lambda>c. ?key c = l"]]
    by (simp add: rows_of_def)
  then have "sum_list (map (\<lambda>l. of_int (js_round (tt_seconds (?tot l)))) (firsts (map ?key rows))) = credit_sum rows"
    using sum_over_groups [of "firsts (map ?key rows)" ?key rows cr_credit] by (simp add: credit_sum_def)
  moreover have "sum_list (map to_seconds (totals_by rnd rows keys))
      = sum_list (map (\<lambda>l. js_round (tt_seconds (?tot l))) (firsts (map ?key rows)))"
  proof -
    have "mset (map to_seconds (totals_by rnd rows keys))
        = mset (map (\<lambda>l. js_round (tt_seconds (?tot l))) (firsts (map ?key rows)))"
      unfolding spec by (simp add: total_row_of_def image_mset.compositionality comp_def)
    then show ?thesis by (metis sum_mset_sum_list)
  qed
  ultimately show ?thesis
    by (simp add: of_int_sum_list comp_def)
qed

text \<open>C13: a report of totals equals its definition, whatever the rows, their credits and the fields it is
  grouped by: one row per label tuple in order of first appearance, each the fold of the credits, tokens
  and costs of exactly the rows with these labels, sorted stably by rounded seconds, largest
  first. For credits in whole seconds (up to \<open>2^53\<close> in sum) the seconds of the report add up to the
  credits. For fractional credits they need not: the seconds are rounded group by group.\<close>

theorem totals_conserve_credit:
  "totals_by rnd rows keys =
     sort_key (\<lambda>r. - to_seconds r)
       (map (\<lambda>l. total_row_of rnd keys
            (l, foldl (\<lambda>t c. add_totals rnd c t) no_totals (filter (\<lambda>c. labels (cr_row c) keys = l) rows)))
         (firsts (map (\<lambda>c. labels (cr_row c) keys) rows)))
    \<and> (exact_integers rnd \<and> whole_seconds rows
        \<longrightarrow> of_int (sum_list (map to_seconds (totals_by rnd rows keys))) = credit_sum rows)"
  using totals_by_spec totals_sum_credit by blast

theorem totals_conserve_credit_witness:
  "map (\<lambda>r. (to_seconds r, to_parts r)) (totals_by id
      [\<lparr>cr_row = demo_beat 0 ''human'' ''p'', cr_credit = 10\<rparr>, \<lparr>cr_row = demo_beat 10 ''human'' ''q'', cr_credit = 60\<rparr>,
       \<lparr>cr_row = demo_beat 70 ''agent'' ''p'', cr_credit = 30\<rparr>] [''project''])
     = [(60, [(''project'', ''q'')]), (40, [(''project'', ''p'')])]
   \<and> of_int (sum_list (map to_seconds (totals_by id
      [\<lparr>cr_row = demo_beat 0 ''human'' ''p'', cr_credit = 10\<rparr>, \<lparr>cr_row = demo_beat 10 ''human'' ''q'', cr_credit = 60\<rparr>,
       \<lparr>cr_row = demo_beat 70 ''agent'' ''p'', cr_credit = 30\<rparr>] [''project'']))) = (100 :: real)"
proof
  let ?rows = "[\<lparr>cr_row = demo_beat 0 ''human'' ''p'', cr_credit = 10\<rparr>, \<lparr>cr_row = demo_beat 10 ''human'' ''q'', cr_credit = 60\<rparr>,
       \<lparr>cr_row = demo_beat 70 ''agent'' ''p'', cr_credit = 30\<rparr>]"
  show "map (\<lambda>r. (to_seconds r, to_parts r)) (totals_by id ?rows [''project''])
     = [(60, [(''project'', ''q'')]), (40, [(''project'', ''p'')])]"
    by (simp add: totals_by_spec labels_def field_label_def hb_field_def demo_beat_def total_row_of_def
        add_totals_def no_totals_def js_round_def js_round_f64_def)
  have "exact_integers id" by (simp add: exact_integers_def)
  moreover have "whole_seconds ?rows"
    by (auto simp: whole_seconds_def credit_sum_def intro: exI [of _ "10::int"] exI [of _ "60::int"] exI [of _ "30::int"])
  ultimately show "of_int (sum_list (map to_seconds (totals_by id ?rows [''project'']))) = (100 :: real)"
    using conjunct2 [OF totals_conserve_credit [of id ?rows "[''project'']"]] by (simp add: credit_sum_def)
qed

subsection \<open>Segments are the maximal runs\<close>

text \<open>The reference: cut a list wherever two neighbours are not joined.\<close>

fun chunks :: "('a \<Rightarrow> 'a \<Rightarrow> bool) \<Rightarrow> 'a list \<Rightarrow> 'a list list" where
  "chunks joined [] = []"
| "chunks joined (x # xs) =
     (case chunks joined xs of
        [] \<Rightarrow> [[x]]
      | run # runs \<Rightarrow> if joined x (hd run) then (x # run) # runs else [x] # run # runs)"

lemma chunks_concat [simp]: "concat (chunks joined xs) = xs"
  by (induction xs) (auto split: list.splits if_splits)

lemma chunks_nonempty: "[] \<notin> set (chunks joined xs)"
  by (induction xs) (auto split: list.splits if_splits)

definition segment_of :: "(real \<Rightarrow> real) \<Rightarrow> string \<times> string \<Rightarrow> credited list \<Rightarrow> segment" where
  "segment_of rnd k run = foldl (\<lambda>s c. extend_segment rnd c s) (new_segment k (hd run)) (tl run)"

definition joins :: "(real \<Rightarrow> real) \<Rightarrow> real \<Rightarrow> credited \<Rightarrow> credited \<Rightarrow> bool" where
  "joins rnd join_gap a b \<longleftrightarrow> rnd (hb_time (cr_row b) - hb_time (cr_row a)) \<le> join_gap"

lemma segment_loop_open:
  "sg_end s = hb_time (cr_row a) \<Longrightarrow>
   segment_loop rnd join_gap k (Some s) cs =
     (case chunks (joins rnd join_gap) (a # cs) of
        [] \<Rightarrow> []
      | run # runs \<Rightarrow> foldl (\<lambda>s c. extend_segment rnd c s) s (tl run) # map (segment_of rnd k) runs)"
proof (induction cs arbitrary: s a)
  case (Cons c cs)
  let ?s = "extend_segment rnd c s" and ?n = "new_segment k c"
  have ends: "sg_end ?s = hb_time (cr_row c)" "sg_end ?n = hb_time (cr_row c)"
    by (simp_all add: extend_segment_def new_segment_def)
  obtain run runs where ch: "chunks (joins rnd join_gap) (c # cs) = run # runs"
    by (cases "chunks (joins rnd join_gap) (c # cs)") (auto split: list.splits if_splits)
  have run: "run = c # tl run"
    using chunks_concat [of "joins rnd join_gap" "c # cs"] chunks_nonempty [of "joins rnd join_gap" "c # cs"]
    unfolding ch by (cases run) auto
  have hd: "hd run = c" using run by (metis list.sel(1))
  have gap: "rnd (hb_time (cr_row c) - sg_end s) \<le> join_gap \<longleftrightarrow> joins rnd join_gap a c"
    using Cons.prems by (simp add: joins_def)
  have cut: "chunks (joins rnd join_gap) (a # c # cs)
      = (if joins rnd join_gap a c then (a # run) # runs else [a] # run # runs)"
    using ch hd by (simp del: chunks.simps add: chunks.simps(2) [of _ a])
  have "foldl (\<lambda>s c. extend_segment rnd c s) s run = foldl (\<lambda>s c. extend_segment rnd c s) ?s (tl run)"
    by (subst run) simp
  then show ?case
    using Cons.IH [OF ends(1)] Cons.IH [OF ends(2)] unfolding segment_loop.simps option.case gap cut ch
    by (simp add: segment_of_def hd)
qed simp

lemma segment_loop_chunks:
  "segment_loop rnd join_gap k None cs = map (segment_of rnd k) (chunks (joins rnd join_gap) cs)"
proof (cases cs)
  case (Cons c ds)
  have "sg_end (new_segment k c) = hb_time (cr_row c)" by (simp add: new_segment_def)
  from segment_loop_open [OF this, of rnd join_gap k ds] show ?thesis
    using chunks_concat [of "joins rnd join_gap" "c # ds"] chunks_nonempty [of "joins rnd join_gap" "c # ds"]
    by (cases "chunks (joins rnd join_gap) (c # ds)"; cases "hd (chunks (joins rnd join_gap) (c # ds))")
      (auto simp: Cons segment_of_def simp del: chunks.simps)
qed simp

text \<open>What the runs are: inside a run every gap is joined, between two runs it is not.\<close>

definition maximal_runs :: "('a \<Rightarrow> 'a \<Rightarrow> bool) \<Rightarrow> 'a list list \<Rightarrow> bool" where
  "maximal_runs joined runs \<longleftrightarrow> [] \<notin> set runs
     \<and> (\<forall>run \<in> set runs. successively joined run)
     \<and> successively (\<lambda>r r'. \<not> joined (List.last r) (hd r')) runs"

lemma chunks_maximal: "maximal_runs joined (chunks joined xs)"
proof (induction xs)
  case (Cons x xs)
  show ?case
  proof (cases "chunks joined xs")
    case Nil
    then show ?thesis by (simp add: maximal_runs_def)
  next
    case (Cons run runs)
    obtain y ys where "run = y # ys" using chunks_nonempty [of joined xs] Cons by (cases run) auto
    then show ?thesis
      using \<open>maximal_runs joined (chunks joined xs)\<close> Cons
      by (cases runs) (auto simp: maximal_runs_def)
  qed
qed (simp add: maximal_runs_def)

text \<open>C30: the timeline is made of the maximal runs of activity. For every project and actor the
  rows, sorted by time, are cut exactly where the gap exceeds the join gap; each run gives one
  segment, the fold of its rows (first to last time, summed credit, sources in order of first
  appearance); no row is lost; and the segments are sorted by start.\<close>

theorem segments_are_maximal_runs:
  "\<exists>runs_of.
     build_segments rnd rows join_gap = map segment_to_value (sort_key sg_start
       (concat (map (\<lambda>k. map (segment_of rnd k) (runs_of k)) (firsts (map group_key rows)))))
   \<and> (\<forall>k. maximal_runs (joins rnd join_gap) (runs_of k)
        \<and> concat (runs_of k) = sort_key (hb_time \<circ> cr_row) (filter (\<lambda>c. group_key c = k) rows))
   \<and> sorted (map (sg_start \<circ> sr_segment) (build_segments rnd rows join_gap))"
proof (intro exI conjI allI)
  let ?runs = "\<lambda>k. chunks (joins rnd join_gap) (sort_key (hb_time \<circ> cr_row) (filter (\<lambda>c. group_key c = k) rows))"
  show "build_segments rnd rows join_gap = map segment_to_value (sort_key sg_start
       (concat (map (\<lambda>k. map (segment_of rnd k) (?runs k)) (firsts (map group_key rows)))))"
    by (simp add: build_segments_def group_rows_spec rows_of_def segment_loop_chunks comp_def)
  show "maximal_runs (joins rnd join_gap) (?runs k)" for k by (rule chunks_maximal)
  show "concat (?runs k) = sort_key (hb_time \<circ> cr_row) (filter (\<lambda>c. group_key c = k) rows)" for k by simp
  show "sorted (map (sg_start \<circ> sr_segment) (build_segments rnd rows join_gap))"
    by (simp add: build_segments_def segment_to_value_def comp_def)
qed

end
