(* ===== verification/Decimal.thy ===== *)
theory Decimal
  imports Text_Lines
begin

text \<open>
  Decimal digits: the number a string of digits denotes, and that \<open>nat_str\<close> prints it.
\<close>

definition digits_val :: "string \<Rightarrow> nat" where
  "digits_val ds = foldl (\<lambda>n c. 10 * n + (byte c - 48)) 0 ds"

abbreviation all_digits :: "string \<Rightarrow> bool" where
  "all_digits s \<equiv> \<forall>c \<in> set s. is_ascii_digit (byte c)"

lemma byte_digit: "d < 10 \<Longrightarrow> byte (char_of (48 + d)) = 48 + d"
  by (simp add: byte_def)

lemma digits_val_snoc: "digits_val (ds @ [c]) = 10 * digits_val ds + (byte c - 48)"
  by (simp add: digits_val_def)

lemma nat_str_digits: "c \<in> set (nat_str n) \<Longrightarrow> is_ascii_digit (byte c)"
proof (induction n rule: nat_str.induct)
  case (1 n)
  then show ?case
    by (subst (asm) (2) nat_str.simps) (auto simp: byte_digit is_ascii_digit_def split: if_splits)
qed

lemma nat_str_nonempty [simp]: "nat_str n \<noteq> []"
  by (subst nat_str.simps) simp

lemma digits_val_nat_str: "digits_val (nat_str n) = n"
proof (induction n rule: nat_str.induct)
  case (1 n)
  show ?case
  proof (cases "n < 10")
    case True
    then show ?thesis by (subst nat_str.simps) (simp add: digits_val_def byte_digit)
  next
    case False
    then have "nat_str n = nat_str (n div 10) @ [char_of (48 + n mod 10)]" by (subst nat_str.simps) simp
    then show ?thesis using 1 False by (simp add: digits_val_snoc byte_digit)
  qed
qed

lemma ascii_parts: "\<forall>c \<in> set s. byte c < 128 \<Longrightarrow> char_parts s = map (\<lambda>c. [c]) s"
  by (induction s) (simp_all add: char_len_def)

lemma ascii_utf8: "\<forall>c \<in> set s. byte c < 128 \<Longrightarrow> utf8_valid s"
  by (induction s) (simp_all add: utf8_chunk_def lead_ranges_def)

lemma digits_ascii: "\<forall>c \<in> set (nat_str n). byte c < 128"
  using nat_str_digits [of _ n] by (fastforce simp: is_ascii_digit_def)

lemma digits_val_fold: "foldl (\<lambda>n c. 10 * n + (byte c - 48)) m ds = m * 10 ^ length ds + digits_val ds"
  unfolding digits_val_def
proof (induction ds arbitrary: m)
  case (Cons c ds)
  show ?case
    using Cons.IH [of "10 * m + (byte c - 48)"] Cons.IH [of "byte c - 48"] by (simp add: algebra_simps)
qed simp

lemma digits_val_append: "digits_val (a @ b) = digits_val a * 10 ^ length b + digits_val b"
  by (simp add: digits_val_def) (simp add: digits_val_fold flip: digits_val_def)

lemma digits_val_zeros [simp]: "digits_val (replicate n CHR ''0'') = 0"
  by (induction n) (simp_all add: digits_val_append replicate_append_same [symmetric] del: replicate_append_same,
      simp_all add: digits_val_def byte_def)

end
