(* ===== verification/Jsnum.thy ===== *)
theory Jsnum
  imports Decimal F64 Json
begin

text \<open>
  The JavaScript number and string coercions of the tracker
  (\<open>crates/stackhour-core/src/jsnum.rs\<close>): \<open>Number(x)\<close>, \<open>String(x)\<close>, truthiness and the clamped
  query parameters.

  Three functions of the standard library are parameters, bundled in \<open>f64_text\<close>: the rounding
  to the nearest double, \<open>str::parse::<f64>\<close> on decimal literals, and \<open>format!("{:e}")\<close>. \<open>f64_text_ok\<close>
  is their documented contract: parsing rounds the denoted number correctly, and the
  scientific format prints digits that round back to the value. A literal beyond the range of a
  double, such as \<open>1e309\<close>, parses to infinity.
\<close>

record f64_text =
  ft_round :: "real \<Rightarrow> real"
  ft_parse :: "string \<Rightarrow> f64_value"
  ft_sci :: "real \<Rightarrow> string"

subsection \<open>Strings to numbers\<close>

definition is_js_whitespace :: "nat \<Rightarrow> bool" where
  "is_js_whitespace c \<longleftrightarrow> c = 0xFEFF \<or> is_whitespace c \<and> c \<noteq> 0x85"

definition to_digit :: "nat \<Rightarrow> char \<Rightarrow> nat option" where
  "to_digit radix c =
     (let b = byte c;
          d = (if 48 \<le> b \<and> b \<le> 57 then b - 48 else if 97 \<le> b \<and> b \<le> 122 then b - 87
               else if 65 \<le> b \<and> b \<le> 90 then b - 55 else 36)
      in if d < radix then Some d else None)"

text \<open>The accumulator is an exact \<open>u128\<close> until it overflows, a double from then on.\<close>

fun radix_loop :: "(real \<Rightarrow> real) \<Rightarrow> nat \<Rightarrow> nat + real \<Rightarrow> string \<Rightarrow> f64_value" where
  "radix_loop rnd radix acc [] = Finite (case acc of Inl a \<Rightarrow> rnd (real a) | Inr f \<Rightarrow> f)"
| "radix_loop rnd radix acc (c # cs) =
     (case to_digit radix c of
        None \<Rightarrow> NotANumber
      | Some d \<Rightarrow>
          radix_loop rnd radix
            (case acc of
               Inl a \<Rightarrow> if a * radix + d < 2 ^ 128 then Inl (a * radix + d)
                        else Inr (rnd (rnd (rnd (real a) * real radix) + real d))
             | Inr f \<Rightarrow> Inr (rnd (rnd (f * real radix) + real d))) cs)"

definition parse_radix_digits :: "(real \<Rightarrow> real) \<Rightarrow> string \<Rightarrow> nat \<Rightarrow> f64_value" where
  "parse_radix_digits rnd digits radix =
     (if digits = [] then NotANumber else radix_loop rnd radix (Inl 0) digits)"

abbreviation digit_char :: "char \<Rightarrow> bool" where
  "digit_char c \<equiv> is_ascii_digit (byte c)"

definition skip_sign :: "string \<Rightarrow> string" where
  "skip_sign b = (case b of [] \<Rightarrow> [] | c # r \<Rightarrow> if c = CHR ''+'' \<or> c = CHR ''-'' then r else b)"

text \<open>The scanner, as the rest of the input after each stage: a fraction, an exponent.\<close>

definition scan_fraction :: "string \<Rightarrow> string \<times> string" where
  "scan_fraction b =
     (if b \<noteq> [] \<and> hd b = CHR ''.'' then (takeWhile digit_char (tl b), dropWhile digit_char (tl b)) else ([], b))"

definition exponent_ok :: "string \<Rightarrow> bool" where
  "exponent_ok b =
     (if b \<noteq> [] \<and> (hd b = CHR ''e'' \<or> hd b = CHR ''E'') then
        (let r = skip_sign (tl b) in
         if takeWhile digit_char r = [] then False else dropWhile digit_char r = [])
      else b = [])"

definition is_valid_js_decimal :: "string \<Rightarrow> bool" where
  "is_valid_js_decimal s =
     (let b = skip_sign s;
          ip = takeWhile digit_char b;
          (fp, rest) = scan_fraction (dropWhile digit_char b)
      in if length ip + length fp = 0 then False else exponent_ok rest)"

definition parse_js_number_str :: "f64_text \<Rightarrow> string \<Rightarrow> f64_value" where
  "parse_js_number_str ft s =
     (let t = trim_matches is_js_whitespace s in
      if t = [] then Finite 0
      else
        (let unsigned_part = (if hd t = CHR ''+'' \<or> hd t = CHR ''-'' then tl t else t) in
         if unsigned_part = ''Infinity'' then Infinite (hd t = CHR ''-'')
         else if take 2 t = ''0x'' \<or> take 2 t = ''0X'' then parse_radix_digits (ft_round ft) (drop 2 t) 16
         else if take 2 t = ''0o'' \<or> take 2 t = ''0O'' then parse_radix_digits (ft_round ft) (drop 2 t) 8
         else if take 2 t = ''0b'' \<or> take 2 t = ''0B'' then parse_radix_digits (ft_round ft) (drop 2 t) 2
         else if is_valid_js_decimal t then ft_parse ft t
         else NotANumber))"

subsection \<open>Numbers to strings\<close>

text \<open>\<open>split_once('e')\<close> and \<open>str::parse::<i64>\<close>.\<close>

definition split_once :: "char \<Rightarrow> string \<Rightarrow> (string \<times> string) option" where
  "split_once c s =
     (case dropWhile (\<lambda>x. x \<noteq> c) s of [] \<Rightarrow> None | _ # r \<Rightarrow> Some (takeWhile (\<lambda>x. x \<noteq> c) s, r))"

definition parse_i64 :: "string \<Rightarrow> int option" where
  "parse_i64 s =
     (let neg = (s \<noteq> [] \<and> hd s = CHR ''-'');
          ds = skip_sign s;
          v = (if neg then - int (digits_val ds) else int (digits_val ds))
      in if ds \<noteq> [] \<and> list_all digit_char ds \<and> i64_ok v then Some v else None)"

text \<open>Where the decimal point goes: \<open>digits\<close> with the point after the \<open>n\<close>-th.\<close>

definition js_layout :: "string \<Rightarrow> int \<Rightarrow> string" where
  "js_layout digits n =
     (let k = int (length digits) in
      if k \<le> n \<and> n \<le> 21 then digits @ replicate (nat (n - k)) CHR ''0''
      else if 0 < n \<and> n \<le> 21 then take (nat n) digits @ ''.'' @ drop (nat n) digits
      else if -6 < n \<and> n \<le> 0 then ''0.'' @ replicate (nat (- n)) CHR ''0'' @ digits
      else
        (let e = n - 1;
             mant_out = (if k = 1 then digits else take 1 digits @ ''.'' @ drop 1 digits)
         in mant_out @ ''e'' @ (if e \<ge> 0 then ''+'' else ''-'') @ nat_str (nat \<bar>e\<bar>)))"

definition js_f64_to_string :: "f64_text \<Rightarrow> f64_value \<Rightarrow> string" where
  "js_f64_to_string ft f =
     (case f of
        NotANumber \<Rightarrow> ''NaN''
      | Infinite neg \<Rightarrow> if neg then ''-Infinity'' else ''Infinity''
      | Finite x \<Rightarrow>
          if x = 0 then ''0''
          else
            (let sci = ft_sci ft \<bar>x\<bar>;
                 (mant, exp_str) = (case split_once CHR ''e'' sci of Some p \<Rightarrow> p | None \<Rightarrow> (sci, ''0''));
                 digits = filter (\<lambda>c. c \<noteq> CHR ''.'') mant;
                 exp = (case parse_i64 exp_str of Some e \<Rightarrow> e | None \<Rightarrow> 0);
                 body = js_layout digits (exp + 1)
             in if x < 0 then ''-'' @ body else body))"

subsection \<open>JSON values\<close>

text \<open>The double with the given bits.\<close>

definition f64_of_bits :: "64 word \<Rightarrow> f64_value" where
  "f64_of_bits b =
     (let m = unat b mod 2 ^ 52;
          e = unat b div 2 ^ 52 mod 2048;
          sgn = (if unat b div 2 ^ 63 = 1 then - 1 else 1 :: real)
      in if e = 2047 then (if m = 0 then Infinite (sgn < 0) else NotANumber)
         else if e = 0 then Finite (sgn * real m / 2 ^ 1074)
         else Finite (sgn * real (2 ^ 52 + m) * power_int 2 (int e - 1075)))"

text \<open>\<open>Number::as_f64\<close>: integers are rounded.\<close>

fun num_f64 :: "(real \<Rightarrow> real) \<Rightarrow> json_num \<Rightarrow> f64_value" where
  "num_f64 rnd (PosInt w) = Finite (rnd (real (unat w)))"
| "num_f64 rnd (NegInt w) = Finite (rnd (of_int (sint w)))"
| "num_f64 rnd (Float b) = f64_of_bits b"

fun js_truthy :: "(real \<Rightarrow> real) \<Rightarrow> json \<Rightarrow> bool" where
  "js_truthy rnd JNull = False"
| "js_truthy rnd (JBool b) = b"
| "js_truthy rnd (JNum n) = (num_f64 rnd n \<noteq> Finite 0)"
| "js_truthy rnd (JString s) = (s \<noteq> [])"
| "js_truthy rnd (JArray _) = True"
| "js_truthy rnd (JObject _) = True"

fun join_comma :: "string list \<Rightarrow> string" where
  "join_comma [] = []"
| "join_comma [s] = s"
| "join_comma (s # t # ss) = s @ '','' @ join_comma (t # ss)"

fun js_display :: "f64_text \<Rightarrow> json \<Rightarrow> string" where
  "js_display ft JNull = ''null''"
| "js_display ft (JBool b) = (if b then ''true'' else ''false'')"
| "js_display ft (JNum n) = js_f64_to_string ft (num_f64 (ft_round ft) n)"
| "js_display ft (JString s) = s"
| "js_display ft (JArray items) = join_comma (map (\<lambda>e. if e = JNull then [] else js_display ft e) items)"
| "js_display ft (JObject _) = ''[object Object]''"

fun js_number :: "f64_text \<Rightarrow> json \<Rightarrow> f64_value" where
  "js_number ft JNull = Finite 0"
| "js_number ft (JBool b) = Finite (if b then 1 else 0)"
| "js_number ft (JNum n) = num_f64 (ft_round ft) n"
| "js_number ft (JString s) = parse_js_number_str ft s"
| "js_number ft (JArray items) = parse_js_number_str ft (js_display ft (JArray items))"
| "js_number ft (JObject _) = NotANumber"

definition nonneg :: "f64_text \<Rightarrow> json \<Rightarrow> bool \<Rightarrow> real" where
  "nonneg ft v integer =
     (case (if js_truthy (ft_round ft) v then js_number ft v else Finite 0) of
        Finite n \<Rightarrow> if n < 0 then 0 else if integer then ft_round ft (of_int (js_round n)) else n
      | _ \<Rightarrow> 0)"

definition js_string_or :: "f64_text \<Rightarrow> json option \<Rightarrow> string \<Rightarrow> string" where
  "js_string_or ft v d =
     (case v of Some x \<Rightarrow> if js_truthy (ft_round ft) x then js_display ft x else d | None \<Rightarrow> d)"

definition number_param :: "f64_text \<Rightarrow> string option \<Rightarrow> real \<Rightarrow> real option \<Rightarrow> real option \<Rightarrow> real" where
  "number_param ft raw d lo hi =
     (let v = (case raw of None \<Rightarrow> Finite d | Some s \<Rightarrow> parse_js_number_str ft s);
          x = (case v of Finite x \<Rightarrow> x | _ \<Rightarrow> d);
          y = (case lo of None \<Rightarrow> x | Some mn \<Rightarrow> max x mn)
      in case hi of None \<Rightarrow> y | Some mx \<Rightarrow> min y mx)"

text \<open>\<open>json_num\<close>: integral values up to \<open>2^53\<close> print as integers, others as doubles.\<close>

definition json_num :: "(real \<Rightarrow> 64 word) \<Rightarrow> f64_value \<Rightarrow> json_num" where
  "json_num f64_bits f =
     (case f of
        Finite x \<Rightarrow>
          if x = of_int \<lfloor>x\<rfloor> \<and> \<bar>x\<bar> \<le> 2 ^ 53 then
            (if x < 0 then NegInt (word_of_int \<lfloor>x\<rfloor>) else PosInt (word_of_int \<lfloor>x\<rfloor>))
          else Float (f64_bits x)
      | _ \<Rightarrow> PosInt 0)"

text \<open>\<open>to_js_json\<close>: \<open>JSON.stringify\<close>. \<open>quote\<close> is the string escaping of \<open>serde_json\<close>.\<close>

fun int_text :: "json_num \<Rightarrow> string" where
  "int_text (PosInt w) = nat_str (unat w)"
| "int_text (NegInt w) = int_str (sint w)"
| "int_text (Float b) = []"

fun to_js_json :: "f64_text \<Rightarrow> (string \<Rightarrow> string) \<Rightarrow> json \<Rightarrow> string" where
  "to_js_json ft quote JNull = ''null''"
| "to_js_json ft quote (JBool b) = (if b then ''true'' else ''false'')"
| "to_js_json ft quote (JNum (Float b)) = js_f64_to_string ft (f64_of_bits b)"
| "to_js_json ft quote (JNum n) = int_text n"
| "to_js_json ft quote (JString s) = quote s"
| "to_js_json ft quote (JArray items) = ''['' @ join_comma (map (to_js_json ft quote) items) @ '']''"
| "to_js_json ft quote (JObject kvs) =
     ''{'' @ join_comma (map (\<lambda>kv. quote (fst kv) @ '':'' @ to_js_json ft quote (snd kv)) kvs) @ ''}''"

subsection \<open>The decimal literals\<close>

text \<open>The grammar of StrDecimalLiteral, without \<open>Infinity\<close>.\<close>

definition is_sign :: "string \<Rightarrow> bool" where
  "is_sign sg \<longleftrightarrow> sg = [] \<or> sg = ''+'' \<or> sg = ''-''"

definition is_exponent :: "string \<Rightarrow> bool" where
  "is_exponent ex \<longleftrightarrow> ex = [] \<or>
     (\<exists>c sg ed. ex = c # sg @ ed \<and> (c = CHR ''e'' \<or> c = CHR ''E'') \<and> is_sign sg \<and> all_digits ed \<and> ed \<noteq> [])"

definition literal :: "string \<Rightarrow> string \<Rightarrow> bool \<Rightarrow> string \<Rightarrow> string \<Rightarrow> string" where
  "literal sg ip dot fp ex = sg @ ip @ (if dot then CHR ''.'' # fp else []) @ ex"

definition literal_ok :: "string \<Rightarrow> string \<Rightarrow> bool \<Rightarrow> string \<Rightarrow> string \<Rightarrow> bool" where
  "literal_ok sg ip dot fp ex \<longleftrightarrow> is_sign sg \<and> all_digits ip \<and> all_digits fp \<and> (dot \<or> fp = [])
     \<and> ip @ fp \<noteq> [] \<and> is_exponent ex"

lemma digit_bytes: "\<not> digit_char CHR ''.''" "\<not> digit_char CHR ''e''" "\<not> digit_char CHR ''E''"
    "\<not> digit_char CHR ''+''" "\<not> digit_char CHR ''-''"
  by (simp_all add: is_ascii_digit_def byte_def)

lemma take_digits:
  assumes "all_digits ip" and "r = [] \<or> \<not> digit_char (hd r)"
  shows "takeWhile digit_char (ip @ r) = ip" and "dropWhile digit_char (ip @ r) = r"
  using assms by (cases r; simp add: takeWhile_append2 dropWhile_append2)+

lemma skip_sign_digits: "all_digits ed \<Longrightarrow> is_sign sg \<Longrightarrow> skip_sign (sg @ ed) = ed"
  using digit_bytes(4,5) by (cases ed) (auto simp: is_sign_def skip_sign_def)

lemma skip_sign_other:
  "is_sign sg \<Longrightarrow> r = [] \<or> hd r \<noteq> CHR ''+'' \<and> hd r \<noteq> CHR ''-'' \<Longrightarrow> skip_sign (sg @ r) = r"
  by (cases r) (auto simp: is_sign_def skip_sign_def)

lemma skip_sign_split: "\<exists>sg. is_sign sg \<and> b = sg @ skip_sign b"
proof (cases "\<exists>c r. b = c # r \<and> (c = CHR ''+'' \<or> c = CHR ''-'')")
  case True
  then obtain c r where b: "b = c # r" "c = CHR ''+'' \<or> c = CHR ''-''" by blast
  then have "is_sign [c]" "skip_sign b = r" by (auto simp: is_sign_def skip_sign_def)
  then show ?thesis using b(1) by (intro exI [of _ "[c]"]) simp
next
  case False
  then have "skip_sign b = b" by (cases b) (auto simp: skip_sign_def)
  then show ?thesis by (intro exI [of _ "[]"]) (simp add: is_sign_def)
qed

lemma skip_signE: obtains sg where "is_sign sg" and "b = sg @ skip_sign b"
  using skip_sign_split [of b] by blast

text \<open>The stages of the scanner.\<close>

definition scan_int :: "string \<Rightarrow> string" where
  "scan_int s = takeWhile digit_char (skip_sign s)"

definition scan_frac :: "string \<Rightarrow> string" where
  "scan_frac s = fst (scan_fraction (dropWhile digit_char (skip_sign s)))"

definition scan_exp :: "string \<Rightarrow> string" where
  "scan_exp s = snd (scan_fraction (dropWhile digit_char (skip_sign s)))"

lemma exponent_ok_iff: "exponent_ok b \<longleftrightarrow> is_exponent b"
proof (cases b)
  case (Cons c r)
  have "(takeWhile digit_char (skip_sign r) \<noteq> [] \<and> dropWhile digit_char (skip_sign r) = [])
      \<longleftrightarrow> (\<exists>sg ed. r = sg @ ed \<and> is_sign sg \<and> all_digits ed \<and> ed \<noteq> [])"
  proof
    assume d: "takeWhile digit_char (skip_sign r) \<noteq> [] \<and> dropWhile digit_char (skip_sign r) = []"
    then have "all_digits (skip_sign r)" and "skip_sign r \<noteq> []" by (auto simp: dropWhile_eq_Nil_conv)
    then show "\<exists>sg ed. r = sg @ ed \<and> is_sign sg \<and> all_digits ed \<and> ed \<noteq> []" using skip_sign_split [of r] by metis
  next
    assume "\<exists>sg ed. r = sg @ ed \<and> is_sign sg \<and> all_digits ed \<and> ed \<noteq> []"
    then obtain sg ed where r: "r = sg @ ed" "is_sign sg" "all_digits ed" "ed \<noteq> []" by blast
    then show "takeWhile digit_char (skip_sign r) \<noteq> [] \<and> dropWhile digit_char (skip_sign r) = []"
      using skip_sign_digits [OF r(3,2)] take_digits [OF r(3), of "[]"] by (metis append.right_neutral)
  qed
  then show ?thesis by (auto simp: exponent_ok_def is_exponent_def Cons Let_def)
qed (simp add: exponent_ok_def is_exponent_def)

lemma is_valid_js_decimal_scan:
  "is_valid_js_decimal s \<longleftrightarrow> scan_int s @ scan_frac s \<noteq> [] \<and> is_exponent (scan_exp s)"
  by (auto simp: is_valid_js_decimal_def scan_int_def scan_frac_def scan_exp_def exponent_ok_iff Let_def case_prod_beta)

lemma exponent_head: "is_exponent ex \<Longrightarrow> ex = [] \<or> \<not> digit_char (hd ex) \<and> hd ex \<noteq> CHR ''.'' \<and> hd ex \<noteq> CHR ''+'' \<and> hd ex \<noteq> CHR ''-''"
  using digit_bytes by (auto simp: is_exponent_def)

lemma scan_literal:
  assumes "literal_ok sg ip dot fp ex"
  shows "scan_int (literal sg ip dot fp ex) = ip" and "scan_frac (literal sg ip dot fp ex) = fp"
    and "scan_exp (literal sg ip dot fp ex) = ex"
proof -
  let ?r = "(if dot then CHR ''.'' # fp else []) @ ex"
  note ok = assms [unfolded literal_ok_def] and head = exponent_head [of ex]
  have r: "?r = [] \<or> \<not> digit_char (hd ?r)" using ok head digit_bytes(1) by (cases ex) auto
  have "ip @ ?r \<noteq> [] \<and> hd (ip @ ?r) \<noteq> CHR ''+'' \<and> hd (ip @ ?r) \<noteq> CHR ''-''"
    using ok head digit_bytes(4,5) by (cases ip; cases ex) auto
  then have sk: "skip_sign (literal sg ip dot fp ex) = ip @ ?r"
    using ok skip_sign_other [of sg "ip @ ?r"] by (simp add: literal_def)
  note d = take_digits [of ip ?r, OF _ r]
  have fr: "scan_fraction ?r = (fp, ex)"
    using ok head take_digits [of fp ex] by (cases dot) (auto simp: scan_fraction_def)
  show "scan_int (literal sg ip dot fp ex) = ip" using d ok sk by (simp add: scan_int_def)
  show "scan_frac (literal sg ip dot fp ex) = fp" "scan_exp (literal sg ip dot fp ex) = ex"
    using d ok sk fr by (simp_all add: scan_frac_def scan_exp_def)
qed

lemma valid_decimal_grammar:
  "is_valid_js_decimal s \<longleftrightarrow> (\<exists>sg ip dot fp ex. s = literal sg ip dot fp ex \<and> literal_ok sg ip dot fp ex)"
proof
  assume v: "is_valid_js_decimal s"
  obtain sg where sg: "is_sign sg" "s = sg @ skip_sign s" by (rule skip_signE)
  let ?b = "dropWhile digit_char (skip_sign s)"
  let ?dot = "?b \<noteq> [] \<and> hd ?b = CHR ''.''"
  have b: "?b = (if ?dot then CHR ''.'' # scan_frac s else []) @ scan_exp s"
    unfolding scan_frac_def scan_exp_def scan_fraction_def by (cases ?b) simp_all
  have fp: "?dot \<or> scan_frac s = []" and digits: "all_digits (scan_frac s)"
    by (auto simp: scan_frac_def scan_fraction_def dest: set_takeWhileD)
  have ip: "all_digits (scan_int s)" "skip_sign s = scan_int s @ ?b"
    by (auto simp: scan_int_def dest: set_takeWhileD)
  have "s = literal sg (scan_int s) ?dot (scan_frac s) (scan_exp s)"
    unfolding literal_def using sg(2) ip(2) b by metis
  moreover have "literal_ok sg (scan_int s) ?dot (scan_frac s) (scan_exp s)"
    using v sg(1) ip(1) fp digits by (auto simp: literal_ok_def is_valid_js_decimal_scan)
  ultimately show "\<exists>sg ip dot fp ex. s = literal sg ip dot fp ex \<and> literal_ok sg ip dot fp ex" by blast
next
  assume "\<exists>sg ip dot fp ex. s = literal sg ip dot fp ex \<and> literal_ok sg ip dot fp ex"
  then show "is_valid_js_decimal s"
    by (auto simp: is_valid_js_decimal_scan scan_literal) (auto simp: literal_ok_def)
qed

text \<open>\<open>Number(string)\<close> accepts exactly the decimal literals of the JavaScript grammar: an
  optional sign, digits with at most one point and at least one digit, and an optional exponent
  with at least one digit; so none of the further spellings that Rust's own parser takes
  (\<open>inf\<close>, \<open>nan\<close>, \<open>infinity\<close>) gets through.\<close>

theorem valid_decimal_is_grammar:
  "is_valid_js_decimal s \<longleftrightarrow> (\<exists>sg ip dot fp ex. s = literal sg ip dot fp ex \<and> literal_ok sg ip dot fp ex)"
  by (rule valid_decimal_grammar)

subsection \<open>Numbers survive printing and parsing\<close>

definition exp_val :: "string \<Rightarrow> int" where
  "exp_val ex =
     (if ex = [] then 0
      else if tl ex \<noteq> [] \<and> hd (tl ex) = CHR ''-'' then - int (digits_val (skip_sign (tl ex)))
      else int (digits_val (skip_sign (tl ex))))"

text \<open>The number a decimal literal denotes.\<close>

definition dec_value :: "string \<Rightarrow> real" where
  "dec_value s =
     (if s \<noteq> [] \<and> hd s = CHR ''-'' then - 1 else 1) * real (digits_val (scan_int s @ scan_frac s))
     * power_int 10 (exp_val (scan_exp s) - int (length (scan_frac s)))"

text \<open>IEEE 754: a number rounds to infinity from half a unit above the largest double on.\<close>

definition f64_overflow :: real where
  "f64_overflow = 2 ^ 1024 - 2 ^ 970"

text \<open>\<open>str::parse::<f64>\<close> of a decimal literal is correctly rounded, and infinite beyond the range.\<close>

definition f64_text_ok :: "f64_text \<Rightarrow> bool" where
  "f64_text_ok ft \<longleftrightarrow>
     (\<forall>s. is_valid_js_decimal s \<longrightarrow> ft_parse ft s =
        (if \<bar>dec_value s\<bar> < f64_overflow then Finite (ft_round ft (dec_value s)) else Infinite (dec_value s < 0)))
     \<and> (\<forall>x. ft_round ft (- x) = - ft_round ft x)"

lemma f64_overflow_pos: "0 < f64_overflow"
  by (simp add: f64_overflow_def)

text \<open>What \<open>{:e}\<close> prints for a positive double: shortest digits, in the range, that round back to it.\<close>

definition sci_ok :: "f64_text \<Rightarrow> real \<Rightarrow> bool" where
  "sci_ok ft x \<longleftrightarrow>
     (\<exists>d ds e. ft_sci ft x = d # (if ds = [] then [] else CHR ''.'' # ds) @ CHR ''e'' # int_str e
        \<and> all_digits (d # ds) \<and> i64_ok e
        \<and> real (digits_val (d # ds)) * power_int 10 (e - int (length ds)) < f64_overflow
        \<and> ft_round ft (real (digits_val (d # ds)) * power_int 10 (e - int (length ds))) = x)"

lemma digit_zero: "digit_char CHR ''0''"
  by (simp add: is_ascii_digit_def byte_def)

lemma all_digits_zeros: "all_digits (replicate n CHR ''0'')"
  by (simp add: is_ascii_digit_def byte_def)

text \<open>Every layout is a literal for the same number.\<close>

definition lays_out :: "string \<Rightarrow> int \<Rightarrow> string \<Rightarrow> bool" where
  "lays_out digits n body \<longleftrightarrow>
     (\<exists>ip dot fp ex. body = literal [] ip dot fp ex \<and> literal_ok [] ip dot fp ex \<and> hd body \<noteq> CHR ''-''
        \<and> real (digits_val (ip @ fp)) * power_int 10 (exp_val ex - int (length fp))
          = real (digits_val digits) * power_int 10 (n - int (length digits)))"

lemma lays_outI:
  assumes "body = literal [] ip dot fp ex" and "all_digits ip" and "all_digits fp" and "dot \<or> fp = []"
    and "ip \<noteq> []" and "is_exponent ex"
    and "real (digits_val (ip @ fp)) * power_int 10 (exp_val ex - int (length fp))
         = real (digits_val digits) * power_int 10 (n - int (length digits))"
  shows "lays_out digits n body"
proof -
  have "hd body \<noteq> CHR ''-''" using assms(1,2,5) digit_bytes(5) by (cases ip) (auto simp: literal_def)
  then show ?thesis
    using assms unfolding lays_out_def literal_ok_def is_sign_def by (metis append_is_Nil_conv)
qed

lemma power_int_nat: "0 \<le> m \<Longrightarrow> power_int (10 :: real) m = 10 ^ nat m"
  by (simp add: power_int_def)

lemma layout_integral:
  assumes "all_digits digits" and "digits \<noteq> []" and "int (length digits) \<le> n"
  shows "lays_out digits n (digits @ replicate (nat (n - int (length digits))) CHR ''0'')"
  by (rule lays_outI [where ip = "digits @ replicate (nat (n - int (length digits))) CHR ''0''" and dot = False and fp = "[]" and ex = "[]"])
    (use assms digit_zero in \<open>auto simp: literal_def is_exponent_def exp_val_def digits_val_append power_int_nat\<close>)

lemma layout_point:
  assumes "all_digits digits" and "0 < n" and "n < int (length digits)"
  shows "lays_out digits n (take (nat n) digits @ ''.'' @ drop (nat n) digits)"
proof (rule lays_outI [where ip = "take (nat n) digits" and dot = True and fp = "drop (nat n) digits" and ex = "[]"])
  show "all_digits (take (nat n) digits)" "all_digits (drop (nat n) digits)"
    using assms(1) by (meson in_set_takeD in_set_dropD)+
  show "take (nat n) digits \<noteq> []" using assms(2,3) by auto
  have "exp_val [] - int (length (drop (nat n) digits)) = n - int (length digits)"
    using assms(2,3) by (simp add: exp_val_def)
  then show "real (digits_val (take (nat n) digits @ drop (nat n) digits)) * power_int 10 (exp_val [] - int (length (drop (nat n) digits)))
      = real (digits_val digits) * power_int 10 (n - int (length digits))"
    by (simp only: append_take_drop_id)
qed (simp_all add: literal_def is_exponent_def)

lemma layout_small:
  assumes "all_digits digits" and "n \<le> 0"
  shows "lays_out digits n (''0.'' @ replicate (nat (- n)) CHR ''0'' @ digits)"
proof (rule lays_outI [where ip = "''0''" and dot = True and fp = "replicate (nat (- n)) CHR ''0'' @ digits" and ex = "[]"])
  have "digits_val (''0'' @ replicate (nat (- n)) CHR ''0'' @ digits) = digits_val (replicate (Suc (nat (- n))) CHR ''0'' @ digits)"
    by simp
  also have "\<dots> = digits_val digits" unfolding digits_val_append [of "replicate (Suc (nat (- n))) CHR ''0''"] digits_val_zeros by simp
  finally show "real (digits_val (''0'' @ replicate (nat (- n)) CHR ''0'' @ digits))
        * power_int 10 (exp_val [] - int (length (replicate (nat (- n)) CHR ''0'' @ digits)))
      = real (digits_val digits) * power_int 10 (n - int (length digits))"
    using assms(2) by (simp add: exp_val_def)
qed (use assms(1) all_digits_zeros in \<open>auto simp: literal_def is_exponent_def is_ascii_digit_def byte_def\<close>)

lemma layout_exponent:
  assumes "all_digits digits" and "digits \<noteq> []"
  shows "lays_out digits n
    ((if int (length digits) = 1 then digits else take 1 digits @ ''.'' @ drop 1 digits)
     @ ''e'' @ (if n - 1 \<ge> 0 then ''+'' else ''-'') @ nat_str (nat \<bar>n - 1\<bar>))"
proof -
  let ?ex = "''e'' @ (if n - 1 \<ge> 0 then ''+'' else ''-'') @ nat_str (nat \<bar>n - 1\<bar>)"
  have ds: "all_digits (nat_str m)" for m using nat_str_digits by blast
  have ex: "is_exponent ?ex"
    unfolding is_exponent_def
    by (rule disjI2, intro exI [of _ "CHR ''e''"] exI [of _ "if n - 1 \<ge> 0 then ''+'' else ''-''"] exI [of _ "nat_str (nat \<bar>n - 1\<bar>)"])
      (use ds in \<open>auto simp: is_sign_def\<close>)
  have val: "exp_val ?ex = n - 1"
    by (simp add: exp_val_def skip_sign_def digits_val_nat_str)
  have len: "n - 1 - int (length digits - Suc 0) = n - int (length digits)" using assms(2) by (cases digits) auto
  show ?thesis
    by (rule lays_outI [where ip = "take 1 digits" and dot = "length digits \<noteq> 1" and fp = "drop 1 digits" and ex = ?ex])
      (use assms ex val len in \<open>auto simp: literal_def dest: in_set_takeD in_set_dropD\<close>)
qed

lemma js_layout_correct:
  assumes "all_digits digits" and "digits \<noteq> []"
  shows "lays_out digits n (js_layout digits n)"
  using layout_integral [OF assms, of n] layout_point [OF assms(1), of n] layout_small [OF assms(1), of n]
    layout_exponent [OF assms, of n]
  unfolding js_layout_def Let_def by auto

lemma all_digits_nat_str: "all_digits (nat_str n)"
  using nat_str_digits by blast

lemma parse_i64_int_str:
  assumes "i64_ok e"
  shows "parse_i64 (int_str e) = Some e"
proof (cases "e < 0")
  case True
  then have "skip_sign (int_str e) = nat_str (nat (- e))" by (simp add: int_str_def skip_sign_def)
  then show ?thesis
    using True assms all_digits_nat_str by (simp add: parse_i64_def int_str_def digits_val_nat_str list_all_iff Let_def)
next
  case False
  have "skip_sign (nat_str (nat e)) = nat_str (nat e)"
    using skip_sign_digits [OF all_digits_nat_str, of "[]"] by (simp add: is_sign_def)
  moreover have "hd (nat_str (nat e)) \<noteq> CHR ''-''"
    using all_digits_nat_str [of "nat e"] digit_bytes(5) by (metis hd_in_set nat_str_nonempty)
  ultimately show ?thesis
    using False assms all_digits_nat_str by (simp add: parse_i64_def int_str_def digits_val_nat_str list_all_iff Let_def)
qed

lemma while_at:
  "c \<notin> set a \<Longrightarrow> dropWhile (\<lambda>x. x \<noteq> c) (a @ c # b) = c # b"
  "c \<notin> set a \<Longrightarrow> takeWhile (\<lambda>x. x \<noteq> c) (a @ c # b) = a"
  by (induction a) auto

lemma split_once_at: "c \<notin> set a \<Longrightarrow> split_once c (a @ c # b) = Some (a, b)"
  by (simp add: split_once_def while_at)

lemma printed:
  assumes "ft_sci ft \<bar>x\<bar> = d # (if ds = [] then [] else CHR ''.'' # ds) @ CHR ''e'' # int_str e"
    and "all_digits (d # ds)" and "i64_ok e" and "x \<noteq> 0"
  shows "js_f64_to_string ft (Finite x) = (if x < 0 then ''-'' else []) @ js_layout (d # ds) (e + 1)"
proof -
  let ?mant = "d # (if ds = [] then [] else CHR ''.'' # ds)"
  have "CHR ''e'' \<notin> set ?mant" using assms(2) digit_bytes(2) by auto
  then have sp: "split_once CHR ''e'' (ft_sci ft \<bar>x\<bar>) = Some (?mant, int_str e)"
    using split_once_at [of "CHR ''e''" ?mant "int_str e"] assms(1) by simp
  have "filter (\<lambda>c. c \<noteq> CHR ''.'') ds = ds" using assms(2) digit_bytes(1) by (auto simp: filter_id_conv)
  moreover have "d \<noteq> CHR ''.''" using assms(2) digit_bytes(1) by auto
  ultimately have "filter (\<lambda>c. c \<noteq> CHR ''.'') ?mant = d # ds" by simp
  then show ?thesis
    using assms(4) parse_i64_int_str [OF assms(3)] by (simp add: js_f64_to_string_def sp Let_def)
qed

lemma is_sign_chars: "is_sign sg \<Longrightarrow> c \<in> set sg \<Longrightarrow> c \<in> {CHR ''+'', CHR ''-''}"
  by (auto simp: is_sign_def)

lemma literal_chars:
  assumes "is_valid_js_decimal t" and "c \<in> set t"
  shows "digit_char c \<or> c \<in> {CHR ''.'', CHR ''e'', CHR ''E'', CHR ''+'', CHR ''-''}"
proof -
  obtain sg ip dot fp ex where t: "t = literal sg ip dot fp ex" "literal_ok sg ip dot fp ex"
    using assms(1) valid_decimal_grammar by blast
  have "digit_char c \<or> c \<in> {CHR ''e'', CHR ''E'', CHR ''+'', CHR ''-''}" if "c \<in> set ex"
    using t(2) that is_sign_chars unfolding literal_ok_def is_exponent_def by fastforce
  then show ?thesis
    using assms(2) t is_sign_chars [of sg c] unfolding literal_def literal_ok_def by (auto split: if_splits)
qed

lemma trim_plain:
  assumes "\<forall>c \<in> set s. byte c < 128 \<and> \<not> P (byte c)"
  shows "trim_matches P s = s"
proof -
  have parts: "char_parts s = map (\<lambda>c. [c]) s" using assms by (intro ascii_parts) blast
  have "dropWhile (\<lambda>p. P (decode_char p)) xs = xs" if "set xs \<subseteq> set (map (\<lambda>c. [c]) s)" for xs
    using that assms by (cases xs) auto
  then show ?thesis by (simp add: trim_matches_def parts Let_def)
qed

lemma parse_valid:
  assumes "is_valid_js_decimal t"
  shows "parse_js_number_str ft t = ft_parse ft t"
proof -
  note chars = literal_chars [OF assms]
  have "byte c < 128 \<and> \<not> is_js_whitespace (byte c)" if "c \<in> set t" for c
    using chars [OF that] by (auto simp: is_ascii_digit_def is_js_whitespace_def is_whitespace_def byte_def)
  then have trim: "trim_matches is_js_whitespace t = t" by (intro trim_plain) blast
  have ne: "t \<noteq> []" using assms by (auto simp: is_valid_js_decimal_scan scan_int_def scan_frac_def scan_fraction_def skip_sign_def)
  have bad: "c \<notin> set t" if "c \<in> {CHR ''x'', CHR ''X'', CHR ''o'', CHR ''O'', CHR ''b'', CHR ''B'', CHR ''I''}" for c
    using chars [of c] that by (auto simp: is_ascii_digit_def byte_def)
  have "take 2 t \<noteq> [a, c]" if "c \<in> {CHR ''x'', CHR ''X'', CHR ''o'', CHR ''O'', CHR ''b'', CHR ''B''}" for a c
    using bad [of c] that in_set_takeD [of c 2 t] by auto
  moreover have "(if hd t = CHR ''+'' \<or> hd t = CHR ''-'' then tl t else t) \<noteq> ''Infinity''"
    using bad [of "CHR ''I''"] ne by (cases t) auto
  ultimately show ?thesis using assms ne by (simp add: parse_js_number_str_def trim Let_def)
qed

lemma dec_value_literal:
  assumes "literal_ok [] ip dot fp ex" and "hd (literal [] ip dot fp ex) \<noteq> CHR ''-''"
  defines "v \<equiv> real (digits_val (ip @ fp)) * power_int 10 (exp_val ex - int (length fp))"
  shows "dec_value (literal [] ip dot fp ex) = v" and "dec_value (''-'' @ literal [] ip dot fp ex) = - v"
    and "is_valid_js_decimal (literal [] ip dot fp ex)" and "is_valid_js_decimal (''-'' @ literal [] ip dot fp ex)"
proof -
  have neg: "''-'' @ literal [] ip dot fp ex = literal ''-'' ip dot fp ex" by (simp add: literal_def)
  have ok: "literal_ok ''-'' ip dot fp ex" using assms(1) by (simp add: literal_ok_def is_sign_def)
  show "dec_value (literal [] ip dot fp ex) = v"
    using assms(2) by (simp add: dec_value_def scan_literal [OF assms(1)] v_def)
  show "dec_value (''-'' @ literal [] ip dot fp ex) = - v"
    unfolding neg dec_value_def scan_literal [OF ok] v_def by (simp add: literal_def)
  show "is_valid_js_decimal (literal [] ip dot fp ex)" "is_valid_js_decimal (''-'' @ literal [] ip dot fp ex)"
    unfolding neg valid_decimal_grammar using assms(1) ok by blast+
qed

text \<open>C32: a number survives \<open>Number(String(x))\<close>. Whatever notation the printer chooses (plain
  integer, decimal point inside the digits, leading zeros, exponent), the printed string is a
  JavaScript decimal literal for the same digits, and parsing it gives the number back;
  infinities come back as well (doubles are real numbers here, without a negative zero). The shortest digits that \<open>{:e}\<close> prints for a finite double are
  taken to denote a number in the range that rounds back to it.\<close>

theorem number_string_round_trip:
  assumes "f64_text_ok ft" and "\<forall>x. f = Finite x \<and> x \<noteq> 0 \<longrightarrow> sci_ok ft \<bar>x\<bar>" and "f \<noteq> NotANumber"
  shows "parse_js_number_str ft (js_f64_to_string ft f) = f"
proof (cases f)
  case (Finite x)
  have odd: "ft_round ft (- y) = - ft_round ft y" for y using assms(1) by (simp add: f64_text_ok_def)
  have parse: "parse_js_number_str ft t = Finite (ft_round ft (dec_value t))"
    if "is_valid_js_decimal t" and "\<bar>dec_value t\<bar> < f64_overflow" for t
    using parse_valid [OF that(1)] assms(1) that by (simp add: f64_text_ok_def)
  show ?thesis
  proof (cases "x = 0")
    case True
    have zero: "literal_ok [] ''0'' False [] []" "literal [] ''0'' False [] [] = ''0''"
      using digit_zero by (simp_all add: literal_ok_def is_sign_def is_exponent_def literal_def)
    have "ft_round ft 0 = 0" using odd [of 0] by simp
    then show ?thesis
      using dec_value_literal(1,3) [OF zero(1)] zero(2) parse [of "''0''"] Finite True f64_overflow_pos
      by (simp add: js_f64_to_string_def digits_val_def byte_def)
  next
    case False
    obtain d ds e where sci: "ft_sci ft \<bar>x\<bar> = d # (if ds = [] then [] else CHR ''.'' # ds) @ CHR ''e'' # int_str e"
        "all_digits (d # ds)" "i64_ok e"
        "ft_round ft (real (digits_val (d # ds)) * power_int 10 (e - int (length ds))) = \<bar>x\<bar>"
        "real (digits_val (d # ds)) * power_int 10 (e - int (length ds)) < f64_overflow"
      using assms(2) Finite False unfolding sci_ok_def by blast
    obtain ip dot fp ex where lay: "js_layout (d # ds) (e + 1) = literal [] ip dot fp ex" "literal_ok [] ip dot fp ex"
        "hd (literal [] ip dot fp ex) \<noteq> CHR ''-''"
        "real (digits_val (ip @ fp)) * power_int 10 (exp_val ex - int (length fp))
         = real (digits_val (d # ds)) * power_int 10 (e - int (length ds))"
      using js_layout_correct [OF sci(2), of "e + 1"] unfolding lays_out_def by (auto simp: algebra_simps)
    note dec = dec_value_literal [OF lay(2,3), unfolded lay(4)]
    have out: "js_f64_to_string ft (Finite x) = (if x < 0 then ''-'' else []) @ literal [] ip dot fp ex"
      using printed [OF sci(1-3) False] lay(1) by simp
    show ?thesis
      unfolding Finite out using parse dec sci(4,5) odd
      by (cases "x < 0") (simp_all add: abs_mult power_int_abs)
  qed
next
  case (Infinite neg)
  have "trim_matches is_js_whitespace ''Infinity'' = ''Infinity''" "trim_matches is_js_whitespace ''-Infinity'' = ''-Infinity''"
    by (rule trim_plain; simp add: is_js_whitespace_def is_whitespace_def byte_def)+
  then show ?thesis
    using Infinite by (cases neg) (simp_all add: js_f64_to_string_def parse_js_number_str_def)
qed (use assms(3) in simp)

text \<open>Exact arithmetic, with the scientific format of one number.\<close>

definition demo_f64 :: f64_text where
  "demo_f64 =
     \<lparr>ft_round = id,
      ft_parse = (\<lambda>s. if is_valid_js_decimal s
        then (if \<bar>dec_value s\<bar> < f64_overflow then Finite (dec_value s) else Infinite (dec_value s < 0))
        else NotANumber),
      ft_sci = (\<lambda>x. ''2.5e0'')\<rparr>"

lemma demo_f64_ok: "f64_text_ok demo_f64" "sci_ok demo_f64 (5 / 2)"
proof -
  show "f64_text_ok demo_f64" by (simp add: f64_text_ok_def demo_f64_def)
  have "int_str 0 = ''0''" by code_simp
  moreover have "real (digits_val ''25'') * power_int 10 (0 - int (length ''5'')) = 5 / 2"
    by (simp add: digits_val_def byte_def power_int_minus)
  moreover have "all_digits ''25''" by (simp add: is_ascii_digit_def byte_def)
  moreover have "5 / 2 < f64_overflow" by (simp add: f64_overflow_def)
  ultimately show "sci_ok demo_f64 (5 / 2)"
    unfolding sci_ok_def
    by (intro exI [of _ "CHR ''2''"] exI [of _ "''5''"] exI [of _ 0]) (simp add: demo_f64_def i64_ok_def i64_max_def)
qed

theorem number_string_round_trip_witness:
  "js_f64_to_string demo_f64 (Finite (- 5 / 2)) = ''-2.5''
   \<and> parse_js_number_str demo_f64 (js_f64_to_string demo_f64 (Finite (- 5 / 2))) = Finite (- 5 / 2)"
proof
  show "js_f64_to_string demo_f64 (Finite (- 5 / 2)) = ''-2.5''"
    by (simp add: js_f64_to_string_def demo_f64_def split_once_def parse_i64_def skip_sign_def is_ascii_digit_def byte_def
        digits_val_def i64_ok_def i64_max_def js_layout_def)
  show "parse_js_number_str demo_f64 (js_f64_to_string demo_f64 (Finite (- 5 / 2))) = Finite (- 5 / 2)"
    by (rule number_string_round_trip [OF demo_f64_ok(1)]) (use demo_f64_ok(2) in auto)
qed

end
