(* ===== verification/Fsutil.thy ===== *)
theory Fsutil
  imports Prelude
begin

text \<open>
  Durable file writes (\<open>crates/stackhour-core/src/fsutil.rs\<close>). A file system is a map from paths to
  contents and mode; directories are not modelled, so creating one only can fail. Every call to
  the operating system can fail: \<open>io_fault env i\<close> says whether the \<open>i\<close>-th one does, and for a
  write how many bytes it still wrote. \<open>wd_trace\<close> collects every state the files were in, each
  prefix of a write included: these are the states a killed process can leave behind.
\<close>

subsection \<open>The file system\<close>

record file_entry =
  fl_bytes :: string
  fl_mode :: "32 word"

type_synonym files = "string \<Rightarrow> file_entry option"

datatype io_error = NotFound | AlreadyExists | OtherIo

record io_env =
  io_umask :: "32 word"
  io_fault :: "nat \<Rightarrow> nat option"
  io_pid :: nat

record world =
  wd_files :: files
  wd_calls :: nat
  wd_trace :: "files list"

datatype syscall =
    MkdirAll string
  | RemoveFile string
  | OpenNew string "32 word"
  | OpenAppend string "32 word"
  | WriteAll string string
  | SyncAll string
  | Rename string string
  | SetPermissions string "32 word"

definition append_bytes :: "string \<Rightarrow> string \<Rightarrow> files \<Rightarrow> files" where
  "append_bytes p b fs = fs(p := map_option (fl_bytes_update (\<lambda>old. old @ b)) (fs p))"

fun sys_effect :: "io_env \<Rightarrow> syscall \<Rightarrow> files \<Rightarrow> (io_error, files) result" where
  "sys_effect env (MkdirAll p) fs = Inr fs"
| "sys_effect env (RemoveFile p) fs = (if fs p = None then Inl NotFound else Inr (fs(p := None)))"
| "sys_effect env (OpenNew p mode) fs =
     (if fs p = None then Inr (fs(p \<mapsto> \<lparr>fl_bytes = [], fl_mode = and mode (not (io_umask env))\<rparr>))
      else Inl AlreadyExists)"
| "sys_effect env (OpenAppend p mode) fs =
     (if fs p = None then Inr (fs(p \<mapsto> \<lparr>fl_bytes = [], fl_mode = and mode (not (io_umask env))\<rparr>))
      else Inr fs)"
| "sys_effect env (WriteAll p b) fs = Inr (append_bytes p b fs)"
| "sys_effect env (SyncAll p) fs = Inr fs"
| "sys_effect env (Rename a b) fs = (if fs a = None then Inl NotFound else Inr (fs(b := fs a, a := None)))"
| "sys_effect env (SetPermissions p mode) fs =
     (case fs p of None \<Rightarrow> Inl NotFound | Some f \<Rightarrow> Inr (fs(p \<mapsto> f\<lparr>fl_mode := mode\<rparr>)))"

text \<open>The states a call passes through, the last one included; \<open>k\<close> bounds the bytes written.\<close>

fun sys_states :: "nat option \<Rightarrow> syscall \<Rightarrow> files \<Rightarrow> files list" where
  "sys_states k (WriteAll p b) fs =
     map (\<lambda>i. append_bytes p (take i b) fs)
       [0..<Suc (case k of None \<Rightarrow> length b | Some k \<Rightarrow> min k (length b))]"
| "sys_states k c fs = [fs]"

definition sys :: "io_env \<Rightarrow> syscall \<Rightarrow> world \<Rightarrow> (io_error, unit) result \<times> world" where
  "sys env c w =
     (let w1 = w\<lparr>wd_calls := Suc (wd_calls w)\<rparr> in
      case io_fault env (wd_calls w) of
        Some k \<Rightarrow>
          (let passed = sys_states (Some k) c (wd_files w) in
           (Inl OtherIo, w1\<lparr>wd_files := last passed, wd_trace := wd_trace w @ passed\<rparr>))
      | None \<Rightarrow>
          (case sys_effect env c (wd_files w) of
             Inl e \<Rightarrow> (Inl e, w1)
           | Inr fs \<Rightarrow> (Inr (), w1\<lparr>wd_files := fs, wd_trace := wd_trace w @ sys_states None c (wd_files w) @ [fs]\<rparr>)))"

text \<open>The operator \<open>?\<close> over calls.\<close>

definition and_then ::
  "('e, 'a) result \<times> world \<Rightarrow> ('a \<Rightarrow> world \<Rightarrow> ('e, 'b) result \<times> world) \<Rightarrow> ('e, 'b) result \<times> world" where
  "and_then r f = (case fst r of Inl e \<Rightarrow> (Inl e, snd r) | Inr x \<Rightarrow> f x (snd r))"

lemma and_then_simps [simp]:
  "and_then (Inl e, w) f = (Inl e, w)"
  "and_then (Inr x, w) f = f x w"
  by (simp_all add: and_then_def)

text \<open>Evaluate a sequence from its first call on.\<close>

lemma and_then_weak_cong: "r = r' \<Longrightarrow> and_then r f = and_then r' f"
  by (rule arg_cong)

subsection \<open>The operations\<close>

fun parent_of :: "string \<Rightarrow> string" where
  "parent_of path =
     (let dir = rev (dropWhile (\<lambda>c. c \<noteq> CHR ''/'') (rev path)) in
      if dir = [] then ''.'' else if length dir = 1 then dir else butlast dir)"

declare parent_of.simps [simp del]

definition tmp_path :: "io_env \<Rightarrow> string \<Rightarrow> string" where
  "tmp_path env path = path @ ''.'' @ nat_str (io_pid env) @ ''.tmp''"

text \<open>\<open>TmpGuard::drop\<close>.\<close>

definition drop_guard :: "io_env \<Rightarrow> string \<Rightarrow> ('e, 'a) result \<times> world \<Rightarrow> ('e, 'a) result \<times> world" where
  "drop_guard env tmp r = (fst r, snd (sys env (RemoveFile tmp) (snd r)))"

definition atomic_write ::
  "io_env \<Rightarrow> string \<Rightarrow> string \<Rightarrow> 32 word \<Rightarrow> world \<Rightarrow> (io_error, unit) result \<times> world" where
  "atomic_write env path bytes mode w =
     (let tmp = tmp_path env path in
      and_then (sys env (MkdirAll (parent_of path)) w) (\<lambda>_ w.
      and_then (case sys env (RemoveFile tmp) w of
                  (Inl NotFound, w) \<Rightarrow> (Inr (), w)
                | r \<Rightarrow> r) (\<lambda>_ w.
      drop_guard env tmp
       (and_then (sys env (OpenNew tmp mode) w) (\<lambda>_ w.
        and_then (sys env (WriteAll tmp bytes) w) (\<lambda>_ w.
        and_then (sys env (SyncAll tmp) w) (\<lambda>_ w.
        and_then (sys env (Rename tmp path) w) (\<lambda>_ w.
        and_then (sys env (SetPermissions path mode) w) (\<lambda>_ w.
        (Inr (), snd (sys env (SyncAll (parent_of path)) w)))))))))))"

definition atomic_write_0600 :: "io_env \<Rightarrow> string \<Rightarrow> string \<Rightarrow> world \<Rightarrow> (io_error, unit) result \<times> world" where
  "atomic_write_0600 env path bytes = atomic_write env path bytes 0x180"

definition atomic_write_0644 :: "io_env \<Rightarrow> string \<Rightarrow> string \<Rightarrow> world \<Rightarrow> (io_error, unit) result \<times> world" where
  "atomic_write_0644 env path bytes = atomic_write env path bytes 0x1A4"

definition append_fsync_0600 :: "io_env \<Rightarrow> string \<Rightarrow> string \<Rightarrow> world \<Rightarrow> (io_error, unit) result \<times> world" where
  "append_fsync_0600 env path bytes w =
     and_then (sys env (MkdirAll (parent_of path)) w) (\<lambda>_ w.
     and_then (sys env (OpenAppend path 0x180) w) (\<lambda>_ w.
     and_then (sys env (WriteAll path bytes) w) (\<lambda>_ w.
     and_then (sys env (SyncAll path) w) (\<lambda>_ w.
     sys env (SetPermissions path 0x180) w))))"

definition create_excl :: "io_env \<Rightarrow> string \<Rightarrow> 32 word \<Rightarrow> world \<Rightarrow> (io_error, unit) result \<times> world" where
  "create_excl env path mode w =
     and_then (sys env (MkdirAll (parent_of path)) w) (\<lambda>_ w. sys env (OpenNew path mode) w)"

subsection \<open>Reasoning about sequences of calls\<close>

text \<open>A triple over results: from \<open>P\<close>, an accepted call ends in \<open>Q\<close>, a failed one in \<open>E\<close>.\<close>

definition triple ::
  "(world \<Rightarrow> bool) \<Rightarrow> (world \<Rightarrow> ('e, 'a) result \<times> world) \<Rightarrow> ('a \<Rightarrow> world \<Rightarrow> bool) \<Rightarrow> (world \<Rightarrow> bool) \<Rightarrow> bool" where
  "triple P f Q E \<longleftrightarrow>
     (\<forall>w. P w \<longrightarrow> (case fst (f w) of Inl e \<Rightarrow> E (snd (f w)) | Inr x \<Rightarrow> Q x (snd (f w))))"

lemma triple_and_then:
  assumes "triple P f R E" and "\<And>x. triple (R x) (g x) Q E"
  shows "triple P (\<lambda>w. and_then (f w) g) Q E"
  using assms unfolding triple_def and_then_def by (fastforce split: sum.splits)

lemma triple_pure: "(\<And>w. P w \<Longrightarrow> Q x w) \<Longrightarrow> triple P (Pair (Inr x)) Q E"
  by (simp add: triple_def)

lemma triple_weaken:
  assumes "triple P f Q E" and "\<And>w. P' w \<Longrightarrow> P w" and "\<And>x w. Q x w \<Longrightarrow> Q' x w" and "\<And>w. E w \<Longrightarrow> E' w"
  shows "triple P' f Q' E'"
  using assms unfolding triple_def by (fastforce split: sum.splits)

text \<open>The files satisfy \<open>A\<close>, and every state since the trace was \<open>tr\<close> satisfied \<open>Q\<close>.\<close>

definition since :: "files list \<Rightarrow> (files \<Rightarrow> bool) \<Rightarrow> (files \<Rightarrow> bool) \<Rightarrow> world \<Rightarrow> bool" where
  "since tr Q A w \<longleftrightarrow> (\<exists>t. wd_trace w = tr @ t \<and> list_all Q t) \<and> A (wd_files w)"

lemma triple_sys:
  assumes pass: "\<And>fs k s. A fs \<Longrightarrow> s \<in> set (sys_states k c fs) \<Longrightarrow> Q s"
    and ok: "\<And>fs fs'. A fs \<Longrightarrow> sys_effect env c fs = Inr fs' \<Longrightarrow> B fs' \<and> Q fs'"
    and fault: "\<And>fs k. A fs \<Longrightarrow> C (last (sys_states (Some k) c fs))"
    and refused: "\<And>fs e. A fs \<Longrightarrow> sys_effect env c fs = Inl e \<Longrightarrow> C fs"
  shows "triple (since tr Q A) (sys env c) (\<lambda>_. since tr Q B) (since tr Q C)"
  unfolding triple_def
proof (intro allI impI)
  fix w assume w: "since tr Q A w"
  then obtain t where t: "wd_trace w = tr @ t" "list_all Q t" and a: "A (wd_files w)"
    by (auto simp: since_def)
  have ps: "list_all Q (sys_states k c (wd_files w))" for k
    using pass [OF a] by (auto simp: list_all_iff)
  show "case fst (sys env c w) of Inl e \<Rightarrow> since tr Q C (snd (sys env c w)) | Inr x \<Rightarrow> since tr Q B (snd (sys env c w))"
  proof (cases "io_fault env (wd_calls w)")
    case (Some k)
    then show ?thesis using t ps fault [OF a] by (simp add: sys_def Let_def since_def)
  next
    case None
    then show ?thesis
      using t ps ok [OF a] refused [OF a] a
      by (cases "sys_effect env c (wd_files w)") (auto simp: sys_def Let_def since_def)
  qed
qed

text \<open>Calls that write no bytes pass through one state only.\<close>

lemma triple_call:
  assumes plain: "\<And>k fs. sys_states k c fs = [fs]"
    and "\<And>fs. A fs \<Longrightarrow> Q fs \<and> C fs"
    and "\<And>fs fs'. A fs \<Longrightarrow> sys_effect env c fs = Inr fs' \<Longrightarrow> B fs' \<and> Q fs'"
  shows "triple (since tr Q A) (sys env c) (\<lambda>_. since tr Q B) (since tr Q C)"
  by (rule triple_sys) (use assms in auto)

text \<open>A triple about a stronger property of the passed states is one about a weaker.\<close>

lemma triple_since_mono:
  assumes "\<And>tr. triple (since tr A (\<lambda>fs. fs = fs0)) f (\<lambda>_. since tr A B) (since tr A C)"
    and AQ: "\<And>fs. A fs \<Longrightarrow> Q fs" and B: "\<And>fs. B fs \<Longrightarrow> B' fs" and C: "\<And>fs. C fs \<Longrightarrow> C' fs"
  shows "triple (since tr Q (\<lambda>fs. fs = fs0)) f (\<lambda>_. since tr Q B') (since tr Q C')"
  unfolding triple_def
proof (intro allI impI)
  fix w assume w: "since tr Q (\<lambda>fs. fs = fs0) w"
  then have start: "since (wd_trace w) A (\<lambda>fs. fs = fs0) w" by (simp add: since_def)
  have lift: "since tr Q P' v" if "since (wd_trace w) A P v" and "\<And>fs. P fs \<Longrightarrow> P' fs" for P P' v
    using that w AQ unfolding since_def list_all_iff by fastforce
  have "case fst (f w) of Inl e \<Rightarrow> since (wd_trace w) A C (snd (f w)) | Inr x \<Rightarrow> since (wd_trace w) A B (snd (f w))"
    using assms(1) [of "wd_trace w"] start unfolding triple_def by blast
  then show "case fst (f w) of Inl e \<Rightarrow> since tr Q C' (snd (f w)) | Inr x \<Rightarrow> since tr Q B' (snd (f w))"
    using lift [OF _ B] lift [OF _ C] by (auto split: sum.splits)
qed

text \<open>Removing a file that may be missing.\<close>

lemma remove_missing: "fst (sys env (RemoveFile p) w) = Inl NotFound \<Longrightarrow> wd_files w p = None"
  by (auto simp: sys_def Let_def split: option.splits sum.splits if_splits)

lemma triple_remove:
  assumes Q: "Q fs0" "Q (fs0(p := None))"
  shows "triple (since tr Q (\<lambda>fs. fs = fs0))
    (\<lambda>w. case sys env (RemoveFile p) w of (Inl NotFound, w) \<Rightarrow> (Inr (), w) | r \<Rightarrow> r)
    (\<lambda>_. since tr Q (\<lambda>fs. fs = fs0(p := None))) (since tr Q (\<lambda>fs. fs = fs0))"
  unfolding triple_def
proof (intro allI impI)
  fix w assume w: "since tr Q (\<lambda>fs. fs = fs0) w"
  have remove: "triple (since tr Q (\<lambda>fs. fs = fs0)) (sys env (RemoveFile p))
      (\<lambda>_. since tr Q (\<lambda>fs. fs = fs0(p := None))) (since tr Q (\<lambda>fs. fs = fs0))"
    by (rule triple_call) (auto simp: Q split: if_splits)
  obtain r w' where s: "sys env (RemoveFile p) w = (r, w')" by fastforce
  have res: "case r of Inl e \<Rightarrow> since tr Q (\<lambda>fs. fs = fs0) w' | Inr _ \<Rightarrow> since tr Q (\<lambda>fs. fs = fs0(p := None)) w'"
    using remove w s unfolding triple_def by (metis fst_conv snd_conv)
  have none: "since tr Q (\<lambda>fs. fs = fs0(p := None)) w'" if "r = Inl NotFound"
    using res remove_missing [of env p w] w that s unfolding since_def by auto
  show "case fst (case sys env (RemoveFile p) w of (Inl NotFound, w) \<Rightarrow> (Inr (), w) | r \<Rightarrow> r) of
      Inl e \<Rightarrow> since tr Q (\<lambda>fs. fs = fs0) (snd (case sys env (RemoveFile p) w of (Inl NotFound, w) \<Rightarrow> (Inr (), w) | r \<Rightarrow> r))
    | Inr x \<Rightarrow> since tr Q (\<lambda>fs. fs = fs0(p := None))
        (snd (case sys env (RemoveFile p) w of (Inl NotFound, w) \<Rightarrow> (Inr (), w) | r \<Rightarrow> r))"
    using none res unfolding s by (cases r) (auto split: io_error.splits)
qed

subsection \<open>Atomic writes\<close>

lemma tmp_path_ne [simp]: "tmp_path env path \<noteq> path" "path \<noteq> tmp_path env path"
  unfolding tmp_path_def by simp_all

text \<open>What a reader may find at any moment of a write: every other file as it was, and the target
  with its old content or with all of the new one, never more open than asked for.\<close>

definition old_or_new :: "io_env \<Rightarrow> string \<Rightarrow> string \<Rightarrow> 32 word \<Rightarrow> files \<Rightarrow> files \<Rightarrow> bool" where
  "old_or_new env path bytes mode fs0 fs \<longleftrightarrow>
     (\<forall>p. p = path \<or> p = tmp_path env path \<or> fs p = fs0 p)
     \<and> (fs path = fs0 path \<or> (\<exists>m. fs path = Some \<lparr>fl_bytes = bytes, fl_mode = m\<rparr> \<and> and m (not mode) = 0))"

definition with_tmp :: "io_env \<Rightarrow> string \<Rightarrow> files \<Rightarrow> string \<Rightarrow> 32 word \<Rightarrow> files" where
  "with_tmp env path fs0 b mode =
     fs0(tmp_path env path \<mapsto> \<lparr>fl_bytes = b, fl_mode = and mode (not (io_umask env))\<rparr>)"

definition with_new :: "io_env \<Rightarrow> string \<Rightarrow> files \<Rightarrow> string \<Rightarrow> 32 word \<Rightarrow> files" where
  "with_new env path fs0 b m =
     fs0(tmp_path env path := None, path \<mapsto> \<lparr>fl_bytes = b, fl_mode = m\<rparr>)"

lemma masked_within: "and (and mode (not um)) (not mode) = (0 :: 32 word)"
  by (rule bit_word_eqI) (simp add: bit_simps)

lemma old_or_new_simps [simp]:
  "old_or_new env path bytes mode fs0 fs0"
  "old_or_new env path bytes mode fs0 (fs0(tmp_path env path := None))"
  "old_or_new env path bytes mode fs0 (with_tmp env path fs0 b m)"
  "and m (not mode) = 0 \<Longrightarrow> old_or_new env path bytes mode fs0 (with_new env path fs0 bytes m)"
  "old_or_new env path bytes mode fs0 fs \<Longrightarrow> old_or_new env path bytes mode fs0 (fs(tmp_path env path := None))"
  unfolding old_or_new_def with_tmp_def with_new_def by auto

lemma with_tmp_cleared [simp]:
  "with_tmp env path (fs0(tmp_path env path := None)) b mode = with_tmp env path fs0 b mode"
  by (simp add: with_tmp_def)

lemma with_new_tmp [simp]: "with_new env path fs0 b m (tmp_path env path) = None"
  by (simp add: with_new_def)

lemma append_with_tmp [simp]:
  "append_bytes (tmp_path env path) c (with_tmp env path fs0 b mode) = with_tmp env path fs0 (b @ c) mode"
  by (simp add: append_bytes_def with_tmp_def)

lemma write_states:
  "s \<in> set (sys_states k (WriteAll (tmp_path env path) b) (with_tmp env path fs0 [] mode)) \<Longrightarrow>
     \<exists>c. s = with_tmp env path fs0 c mode"
  by (auto split: option.splits)

text \<open>The guarded part, from the creation of the temporary file to the final mode.\<close>

lemma triple_replace:
  fixes env path bytes mode fs0 tr
  defines "Q \<equiv> old_or_new env path bytes mode fs0" and "tmp \<equiv> tmp_path env path"
  shows "triple (since tr Q (\<lambda>fs. fs = fs0(tmp := None)))
    (\<lambda>w. and_then (sys env (OpenNew tmp mode) w) (\<lambda>_ w.
        and_then (sys env (WriteAll tmp bytes) w) (\<lambda>_ w.
        and_then (sys env (SyncAll tmp) w) (\<lambda>_ w.
        and_then (sys env (Rename tmp path) w) (\<lambda>_ w.
        and_then (sys env (SetPermissions path mode) w) (\<lambda>_ w.
        (Inr (), snd (sys env (SyncAll (parent_of path)) w))))))))
    (\<lambda>_. since tr Q (\<lambda>fs. fs = with_new env path fs0 bytes mode)) (since tr Q Q)"
proof -
  let ?tmp = "\<lambda>b. since tr Q (\<lambda>fs. fs = with_tmp env path fs0 b mode)"
  let ?new = "\<lambda>m. since tr Q (\<lambda>fs. fs = with_new env path fs0 bytes m)"
  let ?masked = "and mode (not (io_umask env))"
  have open_new: "triple (since tr Q (\<lambda>fs. fs = fs0(tmp := None))) (sys env (OpenNew tmp mode)) (\<lambda>_. ?tmp []) (since tr Q Q)"
    by (rule triple_call) (auto simp: Q_def tmp_def with_tmp_def simp flip: with_tmp_def)
  have written: "triple (?tmp []) (sys env (WriteAll tmp bytes)) (\<lambda>_. ?tmp bytes) (since tr Q Q)"
    by (rule triple_sys) (auto simp: Q_def tmp_def dest!: write_states split: option.splits)
  have sync: "triple (?tmp bytes) (sys env (SyncAll tmp)) (\<lambda>_. ?tmp bytes) (since tr Q Q)"
    by (rule triple_call) (auto simp: Q_def)
  have rename: "triple (?tmp bytes) (sys env (Rename tmp path)) (\<lambda>_. ?new ?masked) (since tr Q Q)"
  proof (rule triple_call)
    fix fs fs' assume fs: "fs = with_tmp env path fs0 bytes mode" "sys_effect env (Rename tmp path) fs = Inr fs'"
    then have "fs' = fs(path := fs tmp, tmp := None)" by (auto split: if_splits)
    then have "fs' = with_new env path fs0 bytes ?masked"
      unfolding fs(1) by (auto simp: with_tmp_def with_new_def tmp_def)
    then show "fs' = with_new env path fs0 bytes ?masked \<and> Q fs'" by (simp add: Q_def masked_within)
  qed (simp_all add: Q_def)
  have chmod: "triple (?new ?masked) (sys env (SetPermissions path mode)) (\<lambda>_. ?new mode) (since tr Q Q)"
  proof (rule triple_call)
    fix fs fs' assume "fs = with_new env path fs0 bytes ?masked" "sys_effect env (SetPermissions path mode) fs = Inr fs'"
    then have "fs' = with_new env path fs0 bytes mode" by (auto simp: with_new_def)
    then show "fs' = with_new env path fs0 bytes mode \<and> Q fs'" by (simp add: Q_def)
  qed (simp_all add: Q_def masked_within)
  have sync_dir: "triple (?new mode) (sys env (SyncAll (parent_of path))) (\<lambda>_. ?new mode) (?new mode)"
    by (rule triple_call) (auto simp: Q_def)
  then have last: "triple (?new mode) (\<lambda>w. (Inr (), snd (sys env (SyncAll (parent_of path)) w)))
      (\<lambda>_. ?new mode) (since tr Q Q)"
    unfolding triple_def by (fastforce split: sum.splits)
  show ?thesis
    by (intro triple_and_then [OF open_new] triple_and_then [OF written] triple_and_then [OF sync]
        triple_and_then [OF rename] triple_and_then [OF chmod] last)
qed

lemma triple_guard:
  fixes env path bytes mode fs0 tr
  defines "Q \<equiv> old_or_new env path bytes mode fs0"
  assumes "triple P f (\<lambda>_. since tr Q (\<lambda>fs. fs = with_new env path fs0 bytes mode)) (since tr Q Q)"
  shows "triple P (\<lambda>w. drop_guard env (tmp_path env path) (f w))
    (\<lambda>_. since tr Q (\<lambda>fs. fs = with_new env path fs0 bytes mode)) (since tr Q Q)"
proof -
  have kept: "triple (since tr Q (\<lambda>fs. fs = with_new env path fs0 bytes mode)) (sys env (RemoveFile (tmp_path env path)))
      (\<lambda>_. since tr Q (\<lambda>fs. fs = with_new env path fs0 bytes mode)) (since tr Q (\<lambda>fs. fs = with_new env path fs0 bytes mode))"
    by (rule triple_call) (auto simp: Q_def split: if_splits)
  have failed: "triple (since tr Q Q) (sys env (RemoveFile (tmp_path env path))) (\<lambda>_. since tr Q Q) (since tr Q Q)"
    by (rule triple_call) (auto simp: Q_def split: if_splits)
  show ?thesis
    using assms(2) kept failed unfolding triple_def drop_guard_def by (fastforce split: sum.splits)
qed

lemma triple_atomic_write:
  fixes env path bytes mode fs0 tr
  defines "Q \<equiv> old_or_new env path bytes mode fs0"
  shows "triple (since tr Q (\<lambda>fs. fs = fs0)) (atomic_write env path bytes mode)
    (\<lambda>_. since tr Q (\<lambda>fs. fs = with_new env path fs0 bytes mode)) (since tr Q Q)"
proof -
  let ?tmp = "tmp_path env path"
  have mkdir: "triple (since tr Q (\<lambda>fs. fs = fs0)) (sys env (MkdirAll (parent_of path)))
      (\<lambda>_. since tr Q (\<lambda>fs. fs = fs0)) (since tr Q Q)"
    by (rule triple_call) (auto simp: Q_def)
  have clear: "triple (since tr Q (\<lambda>fs. fs = fs0))
      (\<lambda>w. case sys env (RemoveFile ?tmp) w of (Inl NotFound, w) \<Rightarrow> (Inr (), w) | r \<Rightarrow> r)
      (\<lambda>_. since tr Q (\<lambda>fs. fs = fs0(?tmp := None))) (since tr Q Q)"
    by (rule triple_weaken [OF triple_remove]) (auto simp: Q_def since_def)
  show ?thesis
    unfolding atomic_write_def Let_def Q_def
    by (intro triple_and_then [OF mkdir [unfolded Q_def]] triple_and_then [OF clear [unfolded Q_def]]
        triple_guard triple_replace)
qed

subsection \<open>Appends\<close>

definition old_bytes :: "files \<Rightarrow> string \<Rightarrow> string" where
  "old_bytes fs path = (case fs path of None \<Rightarrow> [] | Some f \<Rightarrow> fl_bytes f)"

text \<open>An append can be torn: any prefix of the new bytes can be what is left.\<close>

definition appended_part :: "string \<Rightarrow> string \<Rightarrow> files \<Rightarrow> files \<Rightarrow> bool" where
  "appended_part path bytes fs0 fs \<longleftrightarrow>
     fs = fs0 \<or> (\<exists>k m. fs = fs0(path \<mapsto> \<lparr>fl_bytes = old_bytes fs0 path @ take k bytes, fl_mode = m\<rparr>))"

lemma triple_append_fsync:
  fixes path bytes fs0 tr env
  defines "Q \<equiv> appended_part path bytes fs0"
  shows "triple (since tr Q (\<lambda>fs. fs = fs0)) (append_fsync_0600 env path bytes)
    (\<lambda>_. since tr Q (\<lambda>fs. fs = fs0(path \<mapsto> \<lparr>fl_bytes = old_bytes fs0 path @ bytes, fl_mode = 0x180\<rparr>))) (since tr Q Q)"
proof -
  let ?at = "\<lambda>b m. fs0(path \<mapsto> \<lparr>fl_bytes = old_bytes fs0 path @ b, fl_mode = m\<rparr>)"
  let ?st = "\<lambda>b. since tr Q (\<lambda>fs. \<exists>m. fs = ?at b m)"
  have Q: "Q fs0" "Q (?at (take k bytes) m)" "Q (?at bytes m)" "Q (?at [] m)" for k m
    unfolding Q_def appended_part_def by (blast, blast, metis take_all order_refl, metis take_0)
  have mkdir: "triple (since tr Q (\<lambda>fs. fs = fs0)) (sys env (MkdirAll (parent_of path)))
      (\<lambda>_. since tr Q (\<lambda>fs. fs = fs0)) (since tr Q Q)"
    by (rule triple_call) (auto simp: Q)
  have opened: "triple (since tr Q (\<lambda>fs. fs = fs0)) (sys env (OpenAppend path 0x180)) (\<lambda>_. ?st []) (since tr Q Q)"
  proof (rule triple_call)
    fix fs fs' assume step: "fs = fs0" "sys_effect env (OpenAppend path 0x180) fs = Inr fs'"
    have "fs' = ?at [] (case fs0 path of None \<Rightarrow> and 0x180 (not (io_umask env)) | Some f \<Rightarrow> fl_mode f)"
      using step by (cases "fs0 path") (auto simp: old_bytes_def)
    then have "\<exists>m. fs' = ?at [] m" by blast
    then show "(\<exists>m. fs' = ?at [] m) \<and> Q fs'" using Q by blast
  qed (auto simp: Q)
  have more: "append_bytes path c (fs0(path \<mapsto> \<lparr>fl_bytes = old_bytes fs0 path, fl_mode = m\<rparr>)) = ?at c m" for c m
    by (simp add: append_bytes_def)
  have written: "triple (?st []) (sys env (WriteAll path bytes)) (\<lambda>_. ?st bytes) (since tr Q Q)"
    by (rule triple_sys) (use Q in \<open>auto simp: more split: option.splits\<close>)
  have sync: "triple (?st bytes) (sys env (SyncAll path)) (\<lambda>_. ?st bytes) (since tr Q Q)"
    by (rule triple_call) (use Q in auto)
  have chmod: "triple (?st bytes) (sys env (SetPermissions path 0x180)) (\<lambda>_. since tr Q (\<lambda>fs. fs = ?at bytes 0x180)) (since tr Q Q)"
    by (rule triple_call) (use Q in auto)
  show ?thesis
    unfolding append_fsync_0600_def
    by (intro triple_and_then [OF mkdir] triple_and_then [OF opened] triple_and_then [OF written]
        triple_and_then [OF sync] chmod)
qed

subsection \<open>The property\<close>

text \<open>C16: writing a configuration or state file is atomic, whatever call fails and whenever the
  process is killed. In every state along the way each other file is as it was and the target
  holds either its old content or all of the new bytes, with no permission bit beyond the
  requested mode (so a secret is never readable by others, not even briefly). When the write
  reports success the target has the new bytes with exactly the requested mode, and the
  temporary file is gone.\<close>

theorem atomic_write_crash_safe:
  assumes "atomic_write env path bytes mode w = (r, w')"
  shows "(\<exists>t. wd_trace w' = wd_trace w @ t
       \<and> list_all (old_or_new env path bytes mode (wd_files w)) (t @ [wd_files w']))
    \<and> (r = Inr () \<longrightarrow>
        wd_files w' = (wd_files w)(tmp_path env path := None, path \<mapsto> \<lparr>fl_bytes = bytes, fl_mode = mode\<rparr>))"
proof -
  let ?Q = "old_or_new env path bytes mode (wd_files w)"
  have start: "since (wd_trace w) ?Q (\<lambda>fs. fs = wd_files w) w" by (simp add: since_def)
  have "case r of Inl e \<Rightarrow> since (wd_trace w) ?Q ?Q w'
      | Inr x \<Rightarrow> since (wd_trace w) ?Q (\<lambda>fs. fs = with_new env path (wd_files w) bytes mode) w'"
    using triple_atomic_write [of "wd_trace w" env path bytes mode "wd_files w"] start assms
    unfolding triple_def by (metis fst_conv snd_conv)
  then show ?thesis by (cases r) (auto simp: since_def simp flip: with_new_def)
qed

definition quiet_env :: io_env where
  "quiet_env = \<lparr>io_umask = 0x12, io_fault = (\<lambda>_. None), io_pid = 7\<rparr>"

text \<open>The disk is full after two bytes of the fourth call, the write.\<close>

definition full_disk_env :: io_env where
  "full_disk_env = quiet_env\<lparr>io_fault := (\<lambda>i. if i = 3 then Some 2 else None)\<rparr>"

definition demo_world :: world where
  "demo_world = \<lparr>wd_files = [''c'' \<mapsto> \<lparr>fl_bytes = ''old'', fl_mode = 0x1FF\<rparr>], wd_calls = 0, wd_trace = []\<rparr>"

lemmas io_simps =
  atomic_write_def append_fsync_0600_def create_excl_def drop_guard_def sys_def Let_def append_bytes_def

theorem atomic_write_crash_safe_witness:
  "fst (atomic_write quiet_env ''c'' ''new'' 0x180 demo_world) = Inr ()
   \<and> wd_files (snd (atomic_write quiet_env ''c'' ''new'' 0x180 demo_world)) ''c'' = Some \<lparr>fl_bytes = ''new'', fl_mode = 0x180\<rparr>
   \<and> fst (atomic_write full_disk_env ''c'' ''new'' 0x180 demo_world) = Inl OtherIo
   \<and> wd_files (snd (atomic_write full_disk_env ''c'' ''new'' 0x180 demo_world)) ''c'' = Some \<lparr>fl_bytes = ''old'', fl_mode = 0x1FF\<rparr>"
proof (intro conjI)
  show ok: "fst (atomic_write quiet_env ''c'' ''new'' 0x180 demo_world) = Inr ()"
    by (simp add: io_simps quiet_env_def demo_world_def cong: and_then_weak_cong)
  show "wd_files (snd (atomic_write quiet_env ''c'' ''new'' 0x180 demo_world)) ''c'' = Some \<lparr>fl_bytes = ''new'', fl_mode = 0x180\<rparr>"
    using atomic_write_crash_safe [OF prod.collapse [symmetric], of quiet_env "''c''" "''new''" "0x180" demo_world] ok
    by simp
  show "fst (atomic_write full_disk_env ''c'' ''new'' 0x180 demo_world) = Inl OtherIo"
    and "wd_files (snd (atomic_write full_disk_env ''c'' ''new'' 0x180 demo_world)) ''c'' = Some \<lparr>fl_bytes = ''old'', fl_mode = 0x1FF\<rparr>"
    by (simp_all add: io_simps full_disk_env_def quiet_env_def demo_world_def cong: and_then_weak_cong)
qed

end
