(* ===== verification/Agent_Queue.thy ===== *)
theory Agent_Queue
  imports Text_Lines Fsutil Json
begin

text \<open>
  The offline queue of the agent (\<open>crates/stackhour-agent/src/queue.rs\<close>): one JSON text per line,
  appended with fsync, rewritten atomically, and the choice of the batch to send.

  The printer and the parser of \<open>serde_json\<close> are parameters. What the queue relies on is
  \<open>text_ok\<close>: the text of a value parses back, is UTF-8, has no newline and is not empty.
\<close>

record json_text =
  jt_str :: "json \<Rightarrow> string"
  jt_parse :: "string \<Rightarrow> json option"

definition text_ok :: "json_text \<Rightarrow> json \<Rightarrow> bool" where
  "text_ok jt v \<longleftrightarrow> jt_parse jt (jt_str jt v) = Some v \<and> utf8_valid (jt_str jt v)
     \<and> newline \<notin> set (jt_str jt v) \<and> jt_str jt v \<noteq> []"

subsection \<open>Operations\<close>

definition MAX_SEND_BYTES :: nat where
  "MAX_SEND_BYTES = 4 * 1024 * 1024"

definition queue_path :: "string \<Rightarrow> string" where
  "queue_path data_dir = data_dir @ ''/queue.jsonl''"

text \<open>\<open>std::fs::read_to_string\<close>: fails on a missing file and on bytes that are not UTF-8.\<close>

definition read_to_string :: "files \<Rightarrow> string \<Rightarrow> string option" where
  "read_to_string fs path =
     (case fs path of None \<Rightarrow> None | Some f \<Rightarrow> if utf8_valid (fl_bytes f) then Some (fl_bytes f) else None)"

definition read_lines :: "json_text \<Rightarrow> string \<Rightarrow> json list" where
  "read_lines jt text = List.map_filter (jt_parse jt) (filter (\<lambda>line. line \<noteq> []) (split_nl text))"

definition read_queue :: "json_text \<Rightarrow> string \<Rightarrow> files \<Rightarrow> json list" where
  "read_queue jt data_dir fs =
     (case read_to_string fs (queue_path data_dir) of None \<Rightarrow> [] | Some text \<Rightarrow> read_lines jt text)"

fun encode_loop :: "json_text \<Rightarrow> nat \<Rightarrow> json list \<Rightarrow> string" where
  "encode_loop jt i [] = []"
| "encode_loop jt i (row # rows) = (if i > 0 then [newline] else []) @ jt_str jt row @ encode_loop jt (Suc i) rows"

definition encode :: "json_text \<Rightarrow> json list \<Rightarrow> string" where
  "encode jt rows = encode_loop jt 0 rows @ [newline]"

definition append_queue ::
  "io_env \<Rightarrow> json_text \<Rightarrow> string \<Rightarrow> json list \<Rightarrow> world \<Rightarrow> (io_error, unit) result \<times> world" where
  "append_queue env jt data_dir rows w =
     (if rows = [] then (Inr (), w)
      else and_then (sys env (MkdirAll data_dir) w) (\<lambda>_ w.
           append_fsync_0600 env (queue_path data_dir) (encode jt rows) w))"

definition save_queue ::
  "io_env \<Rightarrow> json_text \<Rightarrow> string \<Rightarrow> json list \<Rightarrow> world \<Rightarrow> (io_error, unit) result \<times> world" where
  "save_queue env jt data_dir rows w =
     (let path = queue_path data_dir in
      if rows = [] then
        (case sys env (RemoveFile path) w of (Inl NotFound, w) \<Rightarrow> (Inr (), w) | r \<Rightarrow> r)
      else and_then (sys env (MkdirAll data_dir) w) (\<lambda>_ w. atomic_write_0600 env path (encode jt rows) w))"

fun batch_loop :: "json_text \<Rightarrow> nat \<Rightarrow> nat \<Rightarrow> nat \<Rightarrow> json list \<Rightarrow> nat" where
  "batch_loop jt budget count bytes [] = count"
| "batch_loop jt budget count bytes (row # rows) =
     (let row_bytes = length (jt_str jt row) + (if count > 0 then 1 else 0) in
      if count > 0 \<and> bytes + row_bytes > budget then count
      else batch_loop jt budget (Suc count) (bytes + row_bytes) rows)"

definition take_send_batch :: "json_text \<Rightarrow> json list \<Rightarrow> nat \<Rightarrow> nat" where
  "take_send_batch jt pending budget = batch_loop jt budget 0 2 pending"

subsection \<open>Framing\<close>

lemma encode_loop_lines:
  "encode_loop jt (Suc i) rows @ [newline] = newline # concat (map (\<lambda>r. jt_str jt r @ [newline]) rows)"
  by (induction rows arbitrary: i) simp_all

lemma encode_lines: "rows \<noteq> [] \<Longrightarrow> encode jt rows = concat (map (\<lambda>r. jt_str jt r @ [newline]) rows)"
  by (cases rows) (simp_all add: encode_def encode_loop_lines)

text \<open>A file that ends in a newline, or is empty: nothing of a torn append is left in it.\<close>

definition framed :: "string \<Rightarrow> bool" where
  "framed text \<longleftrightarrow> utf8_valid text \<and> (text = [] \<or> last text = newline)"

lemma framedE:
  assumes "framed text"
  obtains "text = []" | body where "text = body @ [newline]" and "utf8_valid body"
  using assms unfolding framed_def by (metis append_butlast_last_id utf8_valid_lines)

lemma utf8_valid_rows: "\<forall>r \<in> set rows. text_ok jt r \<Longrightarrow> utf8_valid (concat (map (\<lambda>r. jt_str jt r @ [newline]) rows))"
  by (induction rows) (simp_all add: text_ok_def)

lemma read_lines_rows:
  assumes "\<forall>r \<in> set rows. text_ok jt r"
  shows "read_lines jt (concat (map (\<lambda>r. jt_str jt r @ [newline]) rows)) = rows"
proof -
  let ?ls = "map (jt_str jt) rows"
  have "split_nl (concat (map (\<lambda>l. l @ [newline]) ?ls) @ []) = ?ls @ split_nl []"
    by (rule split_nl_lines) (use assms in \<open>auto simp: list_all_iff text_ok_def\<close>)
  then have "split_nl (concat (map (\<lambda>r. jt_str jt r @ [newline]) rows)) = ?ls @ [[]]"
    by (simp add: comp_def)
  moreover have "filter (\<lambda>l. l \<noteq> []) ?ls = ?ls" using assms by (auto simp: text_ok_def filter_id_conv)
  moreover have "List.map_filter (jt_parse jt) ?ls = rows"
    using assms by (induction rows) (auto simp: text_ok_def List.map_filter_def)
  ultimately show ?thesis by (simp add: read_lines_def)
qed

lemma read_lines_framed:
  "framed text \<Longrightarrow> read_lines jt (text @ rest) = read_lines jt text @ read_lines jt rest"
  by (erule framedE) (simp_all add: read_lines_def List.map_filter_def)

lemma framed_append: "framed a \<Longrightarrow> framed b \<Longrightarrow> framed (a @ b)"
  unfolding framed_def by (auto simp: utf8_valid_append last_append)

lemma framed_rows: "\<forall>r \<in> set rows. text_ok jt r \<Longrightarrow> framed (concat (map (\<lambda>r. jt_str jt r @ [newline]) rows))"
  unfolding framed_def using utf8_valid_rows [of rows jt] by (cases rows rule: rev_cases) auto

lemma encode_framed: "\<forall>r \<in> set rows. text_ok jt r \<Longrightarrow> rows \<noteq> [] \<Longrightarrow> framed (encode jt rows)"
  by (simp add: encode_lines framed_rows)

lemma read_queue_bytes:
  "framed (old_bytes fs (queue_path d)) \<Longrightarrow> read_queue jt d fs = read_lines jt (old_bytes fs (queue_path d))"
  by (auto simp: read_queue_def read_to_string_def old_bytes_def framed_def read_lines_def List.map_filter_def
      split: option.splits)

subsection \<open>Appending and rewriting\<close>

lemma triple_append_queue:
  fixes env jt d fs0 tr rows
  assumes "rows \<noteq> []"
  defines "path \<equiv> queue_path d"
  defines "Q \<equiv> appended_part path (encode jt rows) fs0"
  shows "triple (since tr Q (\<lambda>fs. fs = fs0)) (append_queue env jt d rows)
    (\<lambda>_. since tr Q (\<lambda>fs. fs = fs0(path \<mapsto> \<lparr>fl_bytes = old_bytes fs0 path @ encode jt rows, fl_mode = 0x180\<rparr>)))
    (since tr Q Q)"
proof -
  have Q: "Q fs0" by (simp add: Q_def appended_part_def)
  have mkdir: "triple (since tr Q (\<lambda>fs. fs = fs0)) (sys env (MkdirAll d)) (\<lambda>_. since tr Q (\<lambda>fs. fs = fs0)) (since tr Q Q)"
    by (rule triple_call) (auto simp: Q)
  have "append_queue env jt d rows = (\<lambda>w. and_then (sys env (MkdirAll d) w) (\<lambda>_ w. append_fsync_0600 env path (encode jt rows) w))"
    using assms(1) by (simp add: append_queue_def path_def fun_eq_iff)
  then show ?thesis
    using triple_and_then [OF mkdir triple_append_fsync [of tr path "encode jt rows" fs0 env, folded Q_def]] by simp
qed

text \<open>Where a sequence of calls leads when it starts with \<open>w\<close>.\<close>

lemma tripleD:
  assumes "triple (since (wd_trace w) Q (\<lambda>fs. fs = wd_files w)) f R E" and "f w = (r, w')"
  shows "case r of Inl e \<Rightarrow> E w' | Inr x \<Rightarrow> R x w'"
proof -
  have "since (wd_trace w) Q (\<lambda>fs. fs = wd_files w) w" by (simp add: since_def)
  then show ?thesis using assms unfolding triple_def by (metis fst_conv snd_conv)
qed

lemma append_queue_ok:
  assumes "append_queue env jt d rows w = (Inr u, w')" and "rows \<noteq> []"
  shows "wd_files w' = (wd_files w)(queue_path d \<mapsto>
      \<lparr>fl_bytes = old_bytes (wd_files w) (queue_path d) @ encode jt rows, fl_mode = 0x180\<rparr>)"
  using tripleD [OF triple_append_queue [OF assms(2)] assms(1)] by (simp add: since_def)

lemma read_queue_at:
  "framed text \<Longrightarrow> read_queue jt d (fs(queue_path d \<mapsto> \<lparr>fl_bytes = text, fl_mode = m\<rparr>)) = read_lines jt text"
  by (subst read_queue_bytes) (simp_all add: old_bytes_def)

lemma append_then_read:
  assumes "append_queue env jt d rows w = (Inr u, w')"
    and "framed (old_bytes (wd_files w) (queue_path d))" and "\<forall>r \<in> set rows. text_ok jt r"
  shows "read_queue jt d (wd_files w') = read_queue jt d (wd_files w) @ rows"
    and "framed (old_bytes (wd_files w') (queue_path d))"
proof -
  let ?old = "old_bytes (wd_files w) (queue_path d)"
  have goal: "read_queue jt d (wd_files w') = read_queue jt d (wd_files w) @ rows \<and> framed (old_bytes (wd_files w') (queue_path d))"
  proof (cases "rows = []")
    case True
    then show ?thesis using assms by (simp add: append_queue_def)
  next
    case False
    note fr = framed_append [OF assms(2) encode_framed [OF assms(3) False]]
    have "read_queue jt d (wd_files w') = read_lines jt (?old @ encode jt rows)"
      unfolding append_queue_ok [OF assms(1) False] by (rule read_queue_at [OF fr])
    also have "\<dots> = read_queue jt d (wd_files w) @ rows"
      using assms(2,3) False by (simp add: read_lines_framed read_queue_bytes encode_lines read_lines_rows)
    finally show ?thesis using fr unfolding append_queue_ok [OF assms(1) False] by (simp add: old_bytes_def)
  qed
  then show "read_queue jt d (wd_files w') = read_queue jt d (wd_files w) @ rows"
    and "framed (old_bytes (wd_files w') (queue_path d))" by blast+
qed

lemma read_queue_missing: "fs (queue_path d) = None \<Longrightarrow> read_queue jt d fs = []"
  by (simp add: read_queue_def read_to_string_def)

text \<open>A rewrite replaces the queue as a whole or leaves it as it was.\<close>

definition queue_kept_or :: "json_text \<Rightarrow> string \<Rightarrow> json list \<Rightarrow> files \<Rightarrow> files \<Rightarrow> bool" where
  "queue_kept_or jt d rows fs0 fs \<longleftrightarrow>
     fs (queue_path d) = fs0 (queue_path d)
     \<or> read_queue jt d fs = rows \<and> framed (old_bytes fs (queue_path d))"

lemma old_or_new_queue:
  assumes "old_or_new env (queue_path d) (encode jt rows) mode fs0 fs" and "\<forall>r \<in> set rows. text_ok jt r" and "rows \<noteq> []"
  shows "queue_kept_or jt d rows fs0 fs"
proof (cases "fs (queue_path d) = fs0 (queue_path d)")
  case False
  then obtain m where "fs (queue_path d) = Some \<lparr>fl_bytes = encode jt rows, fl_mode = m\<rparr>"
    using assms(1) unfolding old_or_new_def by blast
  then have "old_bytes fs (queue_path d) = encode jt rows" by (simp add: old_bytes_def)
  then show ?thesis
    using assms(2,3) encode_framed [OF assms(2,3)] read_queue_bytes [of fs d jt]
    by (simp add: queue_kept_or_def encode_lines read_lines_rows)
qed (simp add: queue_kept_or_def)

definition queue_step :: "io_env \<Rightarrow> json_text \<Rightarrow> string \<Rightarrow> json list \<Rightarrow> files \<Rightarrow> files \<Rightarrow> bool" where
  "queue_step env jt d rows fs0 fs \<longleftrightarrow> queue_kept_or jt d rows fs0 fs
     \<and> (\<forall>p. p = queue_path d \<or> p = tmp_path env (queue_path d) \<or> fs p = fs0 p)"

lemma triple_save_queue:
  fixes env jt d fs0 tr rows
  assumes rows: "\<forall>r \<in> set rows. text_ok jt r"
  defines "Q \<equiv> queue_step env jt d rows fs0"
  shows "triple (since tr Q (\<lambda>fs. fs = fs0)) (save_queue env jt d rows)
    (\<lambda>_. since tr Q (\<lambda>fs. Q fs \<and> read_queue jt d fs = rows \<and> framed (old_bytes fs (queue_path d)))) (since tr Q Q)"
proof (cases "rows = []")
  case True
  let ?p = "queue_path d"
  have empty: "read_queue jt d fs = rows \<and> framed (old_bytes fs ?p)" if "fs ?p = None" for fs
    using that True by (simp add: read_queue_missing old_bytes_def framed_def)
  then have Q: "Q fs0" "Q (fs0(?p := None))"
    by (simp_all add: Q_def queue_step_def queue_kept_or_def)
  have "save_queue env jt d rows
      = (\<lambda>w. case sys env (RemoveFile ?p) w of (Inl NotFound, w) \<Rightarrow> (Inr (), w) | r \<Rightarrow> r)"
    using True by (simp add: save_queue_def fun_eq_iff)
  then show ?thesis
    using Q empty by (auto simp: since_def intro!: triple_weaken [OF triple_remove [OF Q]])
next
  case False
  let ?p = "queue_path d"
  let ?A = "old_or_new env ?p (encode jt rows) 0x180 fs0"
  have AQ: "?A fs \<Longrightarrow> Q fs" for fs
    unfolding Q_def queue_step_def using old_or_new_queue [OF _ rows False] unfolding old_or_new_def by blast
  have mkdir: "triple (since tr ?A (\<lambda>fs. fs = fs0)) (sys env (MkdirAll d)) (\<lambda>_. since tr ?A (\<lambda>fs. fs = fs0)) (since tr ?A ?A)" for tr
    by (rule triple_call) auto
  have eq: "save_queue env jt d rows = (\<lambda>w. and_then (sys env (MkdirAll d) w) (\<lambda>_ w. atomic_write env ?p (encode jt rows) 0x180 w))"
    using False by (simp add: save_queue_def atomic_write_0600_def fun_eq_iff)
  have new: "Q fs \<and> read_queue jt d fs = rows \<and> framed (old_bytes fs ?p)" if "fs = with_new env ?p fs0 (encode jt rows) 0x180" for fs
  proof -
    have "?A fs" by (simp add: that)
    moreover have "framed (encode jt rows)" by (rule encode_framed [OF rows False])
    moreover have "old_bytes fs ?p = encode jt rows" by (simp add: that with_new_def old_bytes_def)
    ultimately show ?thesis
      using AQ rows False by (simp add: read_queue_bytes encode_lines read_lines_rows)
  qed
  show ?thesis
    unfolding eq by (rule triple_since_mono [OF triple_and_then [OF mkdir triple_atomic_write] AQ new AQ])
qed

subsection \<open>Properties\<close>

text \<open>The queue keeps its rows. Once an append to an intact queue file reports success, reading
  the queue gives the rows it had and then the new ones, in order, and the file is intact
  again; once a rewrite reports success, reading it gives exactly the rewritten rows; and a
  rewrite that fails or is killed at any point leaves either the old file or the new rows.\<close>

theorem queue_round_trip:
  assumes "\<forall>r \<in> set rows. text_ok jt r"
  shows "(framed (old_bytes (wd_files w) (queue_path d)) \<and> append_queue env jt d rows w = (Inr (), w')
      \<longrightarrow> read_queue jt d (wd_files w') = read_queue jt d (wd_files w) @ rows
        \<and> framed (old_bytes (wd_files w') (queue_path d)))
    \<and> (save_queue env jt d rows w = (r, w')
      \<longrightarrow> (r = Inr () \<longrightarrow> read_queue jt d (wd_files w') = rows \<and> framed (old_bytes (wd_files w') (queue_path d)))
        \<and> (\<exists>t. wd_trace w' = wd_trace w @ t
            \<and> list_all (queue_kept_or jt d rows (wd_files w)) (t @ [wd_files w'])))"
proof (intro conjI impI)
  assume a: "framed (old_bytes (wd_files w) (queue_path d)) \<and> append_queue env jt d rows w = (Inr (), w')"
  note app = append_then_read [OF conjunct2 [OF a] conjunct1 [OF a] assms]
  show "read_queue jt d (wd_files w') = read_queue jt d (wd_files w) @ rows" by (rule app(1))
  show "framed (old_bytes (wd_files w') (queue_path d))" by (rule app(2))
next
  assume s: "save_queue env jt d rows w = (r, w')"
  note saved = tripleD [OF triple_save_queue [OF assms] s]
  { assume "r = Inr ()"
    with saved show "read_queue jt d (wd_files w') = rows" and "framed (old_bytes (wd_files w') (queue_path d))"
      by (simp_all add: since_def) }
  show "\<exists>t. wd_trace w' = wd_trace w @ t \<and> list_all (queue_kept_or jt d rows (wd_files w)) (t @ [wd_files w'])"
    using saved by (cases r) (auto simp: since_def queue_step_def list_all_iff)
qed

text \<open>A printer and parser for JSON strings without escapes.\<close>

definition demo_text :: json_text where
  "demo_text =
     \<lparr>jt_str = (\<lambda>v. case v of JString s \<Rightarrow> [CHR 0x22] @ s @ [CHR 0x22] | _ \<Rightarrow> ''null''),
      jt_parse = (\<lambda>t. if length t \<ge> 2 \<and> hd t = CHR 0x22 \<and> last t = CHR 0x22 then Some (JString (butlast (tl t)))
                      else if t = ''null'' then Some JNull else None)\<rparr>"

definition empty_world :: world where
  "empty_world = \<lparr>wd_files = (\<lambda>_. None), wd_calls = 0, wd_trace = []\<rparr>"

lemma demo_text_ok: "text_ok demo_text (JString ''a'')" "text_ok demo_text (JString ''b'')"
  by (simp_all add: text_ok_def demo_text_def utf8_chunk_def lead_ranges_def byte_def)

theorem queue_round_trip_witness:
  "read_queue demo_text ''d'' (wd_files (snd (append_queue quiet_env demo_text ''d'' [JString ''b''] empty_world))) = [JString ''b'']
   \<and> read_queue demo_text ''d'' (wd_files (snd (save_queue quiet_env demo_text ''d'' [JString ''a'', JString ''b''] empty_world)))
     = [JString ''a'', JString ''b'']"
proof
  have w: "framed (old_bytes (wd_files empty_world) (queue_path ''d''))" "read_queue demo_text ''d'' (wd_files empty_world) = []"
    by (simp_all add: framed_def old_bytes_def empty_world_def read_queue_missing)
  have ok: "fst (append_queue quiet_env demo_text ''d'' [JString ''b''] empty_world) = Inr ()"
    by (simp add: append_queue_def io_simps quiet_env_def empty_world_def cong: and_then_weak_cong)
  show "read_queue demo_text ''d'' (wd_files (snd (append_queue quiet_env demo_text ''d'' [JString ''b''] empty_world))) = [JString ''b'']"
    using queue_round_trip [of "[JString ''b'']" demo_text empty_world "''d''" quiet_env
        "snd (append_queue quiet_env demo_text ''d'' [JString ''b''] empty_world)"] w ok demo_text_ok
    by (metis append_Nil empty_iff list.set(1) prod.collapse set_ConsD)
  have saved: "fst (save_queue quiet_env demo_text ''d'' [JString ''a'', JString ''b''] empty_world) = Inr ()"
    by (simp add: save_queue_def atomic_write_0600_def io_simps quiet_env_def empty_world_def cong: and_then_weak_cong)
  have rows: "\<forall>r \<in> set [JString ''a'', JString ''b'']. text_ok demo_text r" using demo_text_ok by simp
  show "read_queue demo_text ''d'' (wd_files (snd (save_queue quiet_env demo_text ''d'' [JString ''a'', JString ''b''] empty_world)))
     = [JString ''a'', JString ''b'']"
    using queue_round_trip [OF rows] saved by (metis prod.collapse)
qed

text \<open>The size of a batch on the wire: the JSON array of its rows.\<close>

definition wire_size :: "json_text \<Rightarrow> json list \<Rightarrow> nat" where
  "wire_size jt rows = 2 + sum_list (map (\<lambda>r. length (jt_str jt r)) rows) + (length rows - 1)"

lemma wire_size_snoc:
  "wire_size jt (xs @ [x]) = wire_size jt xs + length (jt_str jt x) + (if xs = [] then 0 else 1)"
  by (cases xs) (simp_all add: wire_size_def)

definition best_batch :: "json_text \<Rightarrow> nat \<Rightarrow> json list \<Rightarrow> nat \<Rightarrow> bool" where
  "best_batch jt budget pending n \<longleftrightarrow> n \<le> length pending
     \<and> (n \<le> 1 \<or> wire_size jt (take n pending) \<le> budget)
     \<and> (n = length pending \<or> 1 \<le> n \<and> wire_size jt (take (Suc n) pending) > budget)"

lemma batch_loop_best:
  assumes "length sent \<le> 1 \<or> wire_size jt sent \<le> budget"
  shows "best_batch jt budget (sent @ rest) (batch_loop jt budget (length sent) (wire_size jt sent) rest)"
  using assms
proof (induction rest arbitrary: sent)
  case Nil
  then show ?case by (simp add: best_batch_def)
next
  case (Cons row rest)
  let ?b = "length (jt_str jt row) + (if sent = [] then 0 else 1)"
  have size: "wire_size jt (sent @ [row]) = wire_size jt sent + ?b" by (simp add: wire_size_snoc)
  show ?case
  proof (cases "sent \<noteq> [] \<and> wire_size jt sent + ?b > budget")
    case True
    then have stop: "batch_loop jt budget (length sent) (wire_size jt sent) (row # rest) = length sent"
      by (auto simp: Let_def)
    have "1 \<le> length sent" using True by (simp add: Suc_leI)
    then show ?thesis unfolding stop using Cons.prems True size by (auto simp: best_batch_def)
  next
    case False
    then have "batch_loop jt budget (length sent) (wire_size jt sent) (row # rest)
        = batch_loop jt budget (length (sent @ [row])) (wire_size jt (sent @ [row])) rest"
      using size by (auto simp: Let_def)
    then show ?thesis using Cons.IH [of "sent @ [row]"] False size by (cases sent) auto
  qed
qed

text \<open>The batch that is sent is the longest one that fits. It is a prefix of the pending rows
  whose JSON array has at most \<open>budget\<close> bytes, and one row more would exceed the budget; the
  only exception is a single first row, which is always sent, so a queue with rows never
  yields an empty batch.\<close>

theorem send_batch_maximal:
  "best_batch jt budget pending (take_send_batch jt pending budget)
   \<and> (take_send_batch jt pending budget = 0 \<longleftrightarrow> pending = [])"
proof -
  have best: "best_batch jt budget pending (take_send_batch jt pending budget)"
    using batch_loop_best [of "[]" jt budget pending] by (simp add: take_send_batch_def wire_size_def)
  then show ?thesis by (auto simp: best_batch_def)
qed

end
