(* ===== verification/Tracker_Db.thy ===== *)
theory Tracker_Db
  imports Summarize Jsnum Agent_Queue
begin

text \<open>
  The tracker's database (\<open>crates/stackhour-store/src/db.rs\<close>): ingest of heartbeat batches, agent
  status, WakaTime days and the range queries. A table is the list of its rows in insertion
  order; the unique index, \<open>INSERT OR IGNORE\<close> and \<open>ON CONFLICT DO UPDATE\<close> are spelled out.
  \<open>sql i\<close> says that the \<open>i\<close>-th SQL statement of an operation fails. Doubles are finite reals; the
  coercions are those of the theory Jsnum.
\<close>

subsection \<open>Tables\<close>

record agent_row =
  ag_machine :: string
  ag_reported_at :: real
  ag_received_at :: real
  ag_version :: string
  ag_node_version :: string
  ag_interval_seconds :: real
  ag_queue_depth :: int
  ag_queue_bytes :: int
  ag_clock_skew :: real
  ag_watchers_json :: string

record day_total =
  dt_date :: string
  dt_project :: string
  dt_seconds :: real

record tracker_db =
  td_heartbeats :: "heartbeat list"
  td_agent_status :: "agent_row list"
  td_wakatime_days :: "day_total list"

datatype db_error = SqlFailure | InvalidAgentStatus

subsection \<open>Ingest\<close>

definition finite_time :: "f64_text \<Rightarrow> json \<Rightarrow> real option" where
  "finite_time ft row =
     (case json_get row ''time'' of
        Some (JNum n) \<Rightarrow> (case num_f64 (ft_round ft) n of Finite t \<Rightarrow> Some t | _ \<Rightarrow> None)
      | _ \<Rightarrow> None)"

text \<open>\<open>f64 as i64\<close> truncates and saturates.\<close>

definition f64_as_i64 :: "real \<Rightarrow> int" where
  "f64_as_i64 x = max (- (2 ^ 63)) (min (if x \<ge> 0 then \<lfloor>x\<rfloor> else \<lceil>x\<rceil>) (2 ^ 63 - 1))"

definition nonneg_int :: "f64_text \<Rightarrow> json option \<Rightarrow> int" where
  "nonneg_int ft v = (case v of Some x \<Rightarrow> f64_as_i64 (nonneg ft x True) | None \<Rightarrow> 0)"

definition nonneg_float :: "f64_text \<Rightarrow> json option \<Rightarrow> real" where
  "nonneg_float ft v = (case v of Some x \<Rightarrow> nonneg ft x False | None \<Rightarrow> 0)"

definition truthy_text :: "f64_text \<Rightarrow> json option \<Rightarrow> string option" where
  "truthy_text ft v =
     (case v of Some x \<Rightarrow> if js_truthy (ft_round ft) x then Some (js_display ft x) else None | None \<Rightarrow> None)"

text \<open>The values bound to the \<open>INSERT\<close>; the id is assigned by the table.\<close>

definition row_of_json :: "f64_text \<Rightarrow> real \<Rightarrow> real \<Rightarrow> json \<Rightarrow> heartbeat" where
  "row_of_json ft now time h =
     \<lparr>hb_id = 0, hb_time = time,
      hb_machine = js_string_or ft (json_get h ''machine'') ''unknown'',
      hb_source = js_string_or ft (json_get h ''source'') ''unknown'',
      hb_project = js_string_or ft (json_get h ''project'') ''unknown'',
      hb_entity = js_string_or ft (json_get h ''entity'') ''unknown'',
      hb_entity_type = (if Option.bind (json_get h ''entity_type'') as_str = Some ''app'' then ''app'' else ''file''),
      hb_category = js_string_or ft (json_get h ''category'') ''coding'',
      hb_language = truthy_text ft (json_get h ''language''),
      hb_branch = truthy_text ft (json_get h ''branch''),
      hb_is_write = (case json_get h ''is_write'' of Some v \<Rightarrow> if js_truthy (ft_round ft) v then 1 else 0 | None \<Rightarrow> 0),
      hb_actor = (if Option.bind (json_get h ''actor'') as_str = Some ''agent'' then ''agent'' else ''human''),
      hb_tokens_in = nonneg_int ft (json_get h ''tokens_in''),
      hb_tokens_out = nonneg_int ft (json_get h ''tokens_out''),
      hb_cost = nonneg_float ft (json_get h ''cost''),
      hb_created_at = now\<rparr>"

text \<open>The unique index \<open>hb_dedupe2\<close>.\<close>

definition dedupe_key :: "heartbeat \<Rightarrow> real \<times> string \<times> string \<times> string \<times> string \<times> string" where
  "dedupe_key r = (hb_time r, hb_machine r, hb_source r, hb_project r, hb_entity r, hb_actor r)"

definition next_id :: "heartbeat list \<Rightarrow> int" where
  "next_id t = 1 + fold max (map hb_id t) 0"

definition insert_or_ignore :: "heartbeat \<Rightarrow> heartbeat list \<Rightarrow> heartbeat list \<times> int" where
  "insert_or_ignore r t =
     (if dedupe_key r \<in> dedupe_key ` set t then (t, 0) else (t @ [r\<lparr>hb_id := next_id t\<rparr>], 1))"

fun insert_loop ::
  "(nat \<Rightarrow> bool) \<Rightarrow> f64_text \<Rightarrow> real \<Rightarrow> nat \<Rightarrow> json list \<Rightarrow> heartbeat list \<Rightarrow> int
   \<Rightarrow> (nat \<times> heartbeat list \<times> int) option" where
  "insert_loop sql ft now i [] t inserted = Some (i, t, inserted)"
| "insert_loop sql ft now i (h # rows) t inserted =
     (case finite_time ft h of
        None \<Rightarrow> insert_loop sql ft now i rows t inserted
      | Some time \<Rightarrow>
          if sql i then None
          else
            (let (t', changes) = insert_or_ignore (row_of_json ft now time h) t
             in insert_loop sql ft now (Suc i) rows t' (inserted + changes)))"

definition insert_heartbeats ::
  "(nat \<Rightarrow> bool) \<Rightarrow> f64_text \<Rightarrow> real \<Rightarrow> json list \<Rightarrow> tracker_db \<Rightarrow> (db_error, int) result \<times> tracker_db" where
  "insert_heartbeats sql ft now rows db =
     (if sql 0 then (Inl SqlFailure, db)
      else
        (case (if sql 1 then None else insert_loop sql ft now 2 rows (td_heartbeats db) 0) of
           None \<Rightarrow> (Inl SqlFailure, db)
         | Some (i, t, inserted) \<Rightarrow>
             if sql i then (Inl SqlFailure, db) else (Inr inserted, db\<lparr>td_heartbeats := t\<rparr>)))"

subsection \<open>Agent status\<close>

fun slice_parts :: "nat \<Rightarrow> string list \<Rightarrow> string" where
  "slice_parts limit [] = []"
| "slice_parts limit (p # ps) =
     (let units = (if decode_char p \<ge> 0x10000 then 2 else 1) in
      if units > limit then [] else p @ slice_parts (limit - units) ps)"

definition slice_utf16 :: "string \<Rightarrow> nat \<Rightarrow> string" where
  "slice_utf16 s limit = slice_parts limit (char_parts s)"

definition js_trim :: "string \<Rightarrow> string" where
  "js_trim s = trim_matches is_js_whitespace s"

record status_ack =
  sa_machine :: string
  sa_server_time :: real
  sa_clock_skew :: real

definition upsert_agent :: "agent_row \<Rightarrow> agent_row list \<Rightarrow> agent_row list" where
  "upsert_agent r t =
     (if ag_machine r \<in> ag_machine ` set t then map (\<lambda>x. if ag_machine x = ag_machine r then r else x) t else t @ [r])"

definition upsert_agent_status ::
  "(nat \<Rightarrow> bool) \<Rightarrow> f64_text \<Rightarrow> json_text \<Rightarrow> json \<Rightarrow> real \<Rightarrow> tracker_db \<Rightarrow> (db_error, status_ack) result \<times> tracker_db" where
  "upsert_agent_status sql ft jt status received_at db =
     (let reported = (case json_get status ''time'' of Some v \<Rightarrow> js_number ft v | None \<Rightarrow> NotANumber);
          machine = slice_utf16 (js_trim (js_string_or ft (json_get status ''machine'') [])) 200
      in case reported of
           Finite reported_at \<Rightarrow>
             if machine = [] then (Inl InvalidAgentStatus, db)
             else if sql 0 \<or> sql 1 then (Inl SqlFailure, db)
             else
               (let watchers = (case json_get status ''watchers'' of Some (JObject m) \<Rightarrow> JObject m | _ \<Rightarrow> JObject []);
                    skew = ft_round ft (received_at - reported_at);
                    row = \<lparr>ag_machine = machine, ag_reported_at = reported_at, ag_received_at = received_at,
                           ag_version = slice_utf16 (js_string_or ft (json_get status ''version'') ''unknown'') 100,
                           ag_node_version = slice_utf16 (js_string_or ft (json_get status ''nodeVersion'') ''unknown'') 100,
                           ag_interval_seconds = nonneg_float ft (json_get status ''intervalSeconds''),
                           ag_queue_depth = nonneg_int ft (json_get status ''queueDepth''),
                           ag_queue_bytes = nonneg_int ft (json_get status ''queueBytes''),
                           ag_clock_skew = skew, ag_watchers_json = jt_str jt watchers\<rparr>
                in (Inr \<lparr>sa_machine = machine, sa_server_time = received_at, sa_clock_skew = skew\<rparr>,
                    db\<lparr>td_agent_status := upsert_agent row (td_agent_status db)\<rparr>))
         | _ \<Rightarrow> (Inl InvalidAgentStatus, db))"

record agent_view =
  av_row :: agent_row
  av_age_seconds :: real
  av_watchers :: json

definition list_agent_status :: "f64_text \<Rightarrow> json_text \<Rightarrow> tracker_db \<Rightarrow> real \<Rightarrow> agent_view list" where
  "list_agent_status ft jt db now =
     map (\<lambda>r. \<lparr>av_row = r, av_age_seconds = max (ft_round ft (now - ag_received_at r)) 0,
               av_watchers = (case jt_parse jt (ag_watchers_json r) of Some v \<Rightarrow> v | None \<Rightarrow> JObject [])\<rparr>)
       (sort_key ag_machine (td_agent_status db))"

definition upsert_day :: "day_total \<Rightarrow> day_total list \<Rightarrow> day_total list" where
  "upsert_day d t =
     (let same = (\<lambda>x. dt_date x = dt_date d \<and> dt_project x = dt_project d) in
      if \<exists>x \<in> set t. same x then map (\<lambda>x. if same x then x\<lparr>dt_seconds := dt_seconds d\<rparr> else x) t else t @ [d])"

definition upsert_wakatime_day ::
  "(nat \<Rightarrow> bool) \<Rightarrow> string \<Rightarrow> string \<Rightarrow> real \<Rightarrow> tracker_db \<Rightarrow> (db_error, unit) result \<times> tracker_db" where
  "upsert_wakatime_day sql date project seconds db =
     (if sql 0 \<or> sql 1 then (Inl SqlFailure, db)
      else (Inr (), db\<lparr>td_wakatime_days :=
              upsert_day \<lparr>dt_date = date, dt_project = project, dt_seconds = seconds\<rparr> (td_wakatime_days db)\<rparr>))"

subsection \<open>Queries\<close>

definition rows_in_range :: "tracker_db \<Rightarrow> real \<Rightarrow> real \<Rightarrow> heartbeat list" where
  "rows_in_range db from_t to_t =
     sort_key hb_time (sort_key hb_id (filter (\<lambda>r. from_t \<le> hb_time r \<and> hb_time r \<le> to_t) (td_heartbeats db)))"

definition recent_page :: "tracker_db \<Rightarrow> int \<Rightarrow> heartbeat list" where
  "recent_page db limit =
     (let t = sort_key (\<lambda>r. - hb_time r) (sort_key (\<lambda>r. - hb_id r) (td_heartbeats db))
      in if limit < 0 then t else take (nat limit) t)"

subsection \<open>What a batch adds\<close>

text \<open>The rows of a batch that are stored at all, and their keys.\<close>

definition batch_rows :: "f64_text \<Rightarrow> real \<Rightarrow> json list \<Rightarrow> heartbeat list" where
  "batch_rows ft now rows =
     List.map_filter (\<lambda>h. map_option (\<lambda>t. row_of_json ft now t h) (finite_time ft h)) rows"

definition batch_keys :: "f64_text \<Rightarrow> json list \<Rightarrow> (real \<times> string \<times> string \<times> string \<times> string \<times> string) list" where
  "batch_keys ft rows = map dedupe_key (batch_rows ft 0 rows)"

lemma batch_rows_simps [simp]:
  "batch_rows ft now [] = []"
  "batch_rows ft now (h # rows) =
     (case finite_time ft h of None \<Rightarrow> [] | Some t \<Rightarrow> [row_of_json ft now t h]) @ batch_rows ft now rows"
  by (auto simp: batch_rows_def List.map_filter_simps split: option.splits)

lemma key_now: "dedupe_key (row_of_json ft now t h) = dedupe_key (row_of_json ft 0 t h)"
  by (simp add: dedupe_key_def row_of_json_def)

lemma batch_keys_now: "map dedupe_key (batch_rows ft now rows) = batch_keys ft rows"
  unfolding batch_keys_def using key_now [of ft now] by (induction rows) (auto split: option.splits)

text \<open>The first row of every new key.\<close>

definition new_keys :: "'k set \<Rightarrow> 'k list \<Rightarrow> 'k list" where
  "new_keys old ks = firsts (filter (\<lambda>k. k \<notin> old) ks)"

lemma new_keys_Cons: "new_keys old (k # ks) = (if k \<in> old then new_keys old ks else k # new_keys (insert k old) ks)"
proof -
  have "filter (\<lambda>y. y \<noteq> k) (filter (\<lambda>k. k \<notin> old) ks) = filter (\<lambda>x. x \<notin> insert k old) ks" by (auto intro: filter_cong)
  then show ?thesis by (simp add: new_keys_def filter_firsts)
qed

definition keys_of :: "heartbeat list \<Rightarrow> (real \<times> string \<times> string \<times> string \<times> string \<times> string) list" where
  "keys_of t = map dedupe_key t"

lemma insert_loop_adds:
  "insert_loop sql ft now i rows t n = Some (j, t', m) \<Longrightarrow>
     \<exists>new. t' = t @ new \<and> m = n + int (length new)
       \<and> keys_of new = new_keys (set (keys_of t)) (batch_keys ft rows)"
proof (induction sql ft now i rows t n rule: insert_loop.induct)
  case (2 sql ft now i h rows t n)
  show ?case
  proof (cases "finite_time ft h")
    case None
    then show ?thesis using 2 by (simp add: batch_keys_def)
  next
    case (Some time)
    let ?r = "row_of_json ft now time h"
    have ok: "\<not> sql i" using "2.prems" Some by (auto split: if_splits)
    have keys: "batch_keys ft (h # rows) = dedupe_key ?r # batch_keys ft rows"
      using Some key_now [of ft now time h] by (simp add: batch_keys_def)
    note IH = "2.IH"(2) [OF Some ok refl]
    show ?thesis
    proof (cases "dedupe_key ?r \<in> dedupe_key ` set t")
      case True
      then have "insert_or_ignore ?r t = (t, 0)" by (simp add: insert_or_ignore_def)
      then show ?thesis
        using IH "2.prems" Some ok keys True by (auto simp: new_keys_Cons keys_of_def)
    next
      case False
      let ?new = "?r\<lparr>hb_id := next_id t\<rparr>"
      have ins: "insert_or_ignore ?r t = (t @ [?new], 1)" using False by (simp add: insert_or_ignore_def)
      have k: "dedupe_key ?new = dedupe_key ?r" by (simp add: dedupe_key_def)
      obtain new where "t' = t @ [?new] @ new" "m = n + 1 + int (length new)"
          "keys_of new = new_keys (insert (dedupe_key ?r) (set (keys_of t))) (batch_keys ft rows)"
        using IH [OF ins [symmetric]] "2.prems" Some ok by (auto simp: ins k keys_of_def)
      then show ?thesis
        using False keys k by (intro exI [of _ "?new # new"]) (auto simp: new_keys_Cons keys_of_def)
    qed
  qed
qed (simp add: new_keys_def batch_keys_def keys_of_def)

lemma insert_loop_nothing_new:
  "set (batch_keys ft rows) \<subseteq> set (keys_of t) \<Longrightarrow> insert_loop (\<lambda>_. False) ft now i rows t n = Some (i + length (batch_keys ft rows), t, n)"
proof (induction rows arbitrary: i)
  case (Cons h rows)
  show ?case
  proof (cases "finite_time ft h")
    case None
    then show ?thesis using Cons by (simp add: batch_keys_def)
  next
    case (Some time)
    then have keys: "batch_keys ft (h # rows) = dedupe_key (row_of_json ft now time h) # batch_keys ft rows"
      using key_now [of ft now time h] by (simp add: batch_keys_def)
    then have "insert_or_ignore (row_of_json ft now time h) t = (t, 0)"
      using Cons.prems by (simp add: insert_or_ignore_def keys_of_def)
    then show ?thesis using Cons keys Some by simp
  qed
qed (simp add: batch_keys_def)

subsection \<open>The invariant\<close>

text \<open>No two heartbeats share a key or an id, and the other tables have one row per key.\<close>

definition tracker_ok :: "tracker_db \<Rightarrow> bool" where
  "tracker_ok db \<longleftrightarrow> distinct (keys_of (td_heartbeats db)) \<and> distinct (map hb_id (td_heartbeats db))
     \<and> distinct (map ag_machine (td_agent_status db))
     \<and> distinct (map (\<lambda>d. (dt_date d, dt_project d)) (td_wakatime_days db))"

lemma fold_max_ge: "(m::int) \<le> fold max xs m \<and> (\<forall>x \<in> set xs. x \<le> fold max xs m)"
proof (induction xs arbitrary: m)
  case (Cons x xs)
  show ?case using Cons [of "max x m"] by auto
qed simp

lemma next_id_fresh: "next_id t \<notin> hb_id ` set t"
  using fold_max_ge [of 0 "map hb_id t"] by (force simp: next_id_def)

lemma insert_or_ignore_ok:
  assumes "insert_or_ignore r t = (t', n)" and "distinct (keys_of t)" and "distinct (map hb_id t)"
  shows "distinct (keys_of t') \<and> distinct (map hb_id t')"
proof (cases "dedupe_key r \<in> dedupe_key ` set t")
  case True
  then show ?thesis using assms by (simp add: insert_or_ignore_def)
next
  case False
  have "dedupe_key (r\<lparr>hb_id := next_id t\<rparr>) = dedupe_key r" by (simp add: dedupe_key_def)
  then show ?thesis using False assms next_id_fresh [of t] by (auto simp: insert_or_ignore_def keys_of_def)
qed

lemma insert_loop_ok:
  "insert_loop sql ft now i rows t n = Some (j, t', m) \<Longrightarrow> distinct (keys_of t) \<Longrightarrow> distinct (map hb_id t) \<Longrightarrow>
     distinct (keys_of t') \<and> distinct (map hb_id t')"
proof (induction sql ft now i rows t n rule: insert_loop.induct)
  case (2 sql ft now i h rows t n)
  show ?case
  proof (cases "finite_time ft h")
    case None
    then show ?thesis using 2 by simp
  next
    case (Some time)
    obtain t1 c where ins: "insert_or_ignore (row_of_json ft now time h) t = (t1, c)" by fastforce
    have ok: "\<not> sql i" using "2.prems"(1) Some by (auto split: if_splits)
    show ?thesis
      using "2.IH"(2) [OF Some ok refl ins [symmetric]] insert_or_ignore_ok [OF ins] "2.prems" Some ok ins by simp
  qed
qed simp

lemma insert_heartbeats_cases:
  assumes "insert_heartbeats sql ft now rows db = (r, db')"
  obtains (failed) "r = Inl SqlFailure" "db' = db"
  | (stored) i t n where "r = Inr n" "db' = db\<lparr>td_heartbeats := t\<rparr>"
      "insert_loop sql ft now 2 rows (td_heartbeats db) 0 = Some (i, t, n)"
  using assms unfolding insert_heartbeats_def by (auto split: if_splits option.splits prod.splits)

lemma upsert_agent_ok: "distinct (map ag_machine t) \<Longrightarrow> distinct (map ag_machine (upsert_agent r t))"
proof -
  have "map ag_machine (map (\<lambda>x. if ag_machine x = ag_machine r then r else x) t) = map ag_machine t"
    by (induction t) auto
  then show "distinct (map ag_machine t) \<Longrightarrow> ?thesis" unfolding upsert_agent_def by (auto simp del: map_map)
qed

lemma insert_heartbeats_ok: "insert_heartbeats sql ft now rows db = (r, db') \<Longrightarrow> tracker_ok db \<Longrightarrow> tracker_ok db'"
  by (erule insert_heartbeats_cases) (auto simp: tracker_ok_def dest: insert_loop_ok)

lemma upsert_agent_status_ok:
  "upsert_agent_status sql ft jt status received_at db = (r, db') \<Longrightarrow> tracker_ok db \<Longrightarrow> tracker_ok db'"
  by (auto simp: upsert_agent_status_def tracker_ok_def Let_def upsert_agent_ok split: f64_value.splits if_splits)

lemma upsert_day_ok:
  assumes "distinct (map (\<lambda>d. (dt_date d, dt_project d)) t)"
  shows "distinct (map (\<lambda>d. (dt_date d, dt_project d)) (upsert_day d t))"
proof -
  have "map (\<lambda>d. (dt_date d, dt_project d))
      (map (\<lambda>x. if dt_date x = dt_date d \<and> dt_project x = dt_project d then x\<lparr>dt_seconds := dt_seconds d\<rparr> else x) t)
      = map (\<lambda>d. (dt_date d, dt_project d)) t"
    by (induction t) auto
  then show ?thesis
    using assms by (cases "\<exists>x \<in> set t. dt_date x = dt_date d \<and> dt_project x = dt_project d")
      (auto simp: upsert_day_def Let_def simp del: map_map)
qed

lemma upsert_wakatime_day_ok:
  "upsert_wakatime_day sql date project seconds db = (r, db') \<Longrightarrow> tracker_ok db \<Longrightarrow> tracker_ok db'"
  by (auto simp: upsert_wakatime_day_def tracker_ok_def upsert_day_ok split: if_splits)

subsection \<open>Properties\<close>

text \<open>Every write keeps the tables consistent, on success and on every SQL failure: no two
  heartbeats with the same time, machine, source, project, entity and actor, no id twice, one
  status row per machine, one row per day and project.\<close>

theorem tracker_writes_keep_invariant:
  assumes "tracker_ok db"
  shows "tracker_ok (snd (insert_heartbeats sql ft now rows db))
    \<and> tracker_ok (snd (upsert_agent_status sql ft jt status now db))
    \<and> tracker_ok (snd (upsert_wakatime_day sql date project seconds db))"
  using insert_heartbeats_ok [OF prod.collapse [symmetric] assms]
    upsert_agent_status_ok [OF prod.collapse [symmetric] assms]
    upsert_wakatime_day_ok [OF prod.collapse [symmetric] assms]
  by blast

text \<open>A batch in which a row is repeated and one has no time.\<close>

definition demo_rows :: "json list" where
  "demo_rows =
     [JObject [(''time'', JNum (PosInt 5)), (''machine'', JString ''m'')],
      JObject [(''time'', JNum (PosInt 5)), (''machine'', JString ''m'')],
      JObject [(''machine'', JString ''m'')]]"

definition empty_tracker :: tracker_db where
  "empty_tracker = \<lparr>td_heartbeats = [], td_agent_status = [], td_wakatime_days = []\<rparr>"

theorem tracker_writes_keep_invariant_witness:
  "length (td_heartbeats (snd (insert_heartbeats (\<lambda>_. False) demo_f64 9 demo_rows empty_tracker))) = 1
   \<and> tracker_ok (snd (insert_heartbeats (\<lambda>_. False) demo_f64 9 demo_rows empty_tracker))"
proof
  show "length (td_heartbeats (snd (insert_heartbeats (\<lambda>_. False) demo_f64 9 demo_rows empty_tracker))) = 1"
    by (simp add: insert_heartbeats_def demo_rows_def empty_tracker_def finite_time_def insert_or_ignore_def
        dedupe_key_def row_of_json_def js_string_or_def demo_f64_def)
  have "tracker_ok empty_tracker" by (simp add: tracker_ok_def empty_tracker_def keys_of_def)
  from conjunct1 [OF tracker_writes_keep_invariant [OF this]]
  show "tracker_ok (snd (insert_heartbeats (\<lambda>_. False) demo_f64 9 demo_rows empty_tracker))" .
qed

text \<open>C7: an ingested batch is stored completely or not at all, and each heartbeat once. A failed
  batch leaves the database as it was. An accepted one appends exactly the first row of every
  key the table does not have yet, in order, and reports their number; rows without a finite
  time are skipped; nothing else changes. Ingesting the same batch again then adds nothing and
  reports zero, so an agent may re-send a batch whose answer it lost.\<close>

theorem ingest_stores_once:
  assumes "insert_heartbeats sql ft now rows db = (r, db')"
  shows "(\<forall>e. r = Inl e \<longrightarrow> db' = db)
    \<and> (\<forall>n. r = Inr n \<longrightarrow>
        (\<exists>new. db' = db\<lparr>td_heartbeats := td_heartbeats db @ new\<rparr> \<and> n = int (length new)
          \<and> keys_of new = new_keys (set (keys_of (td_heartbeats db))) (batch_keys ft rows))
        \<and> insert_heartbeats (\<lambda>_. False) ft now2 rows db' = (Inr 0, db'))"
  using assms
proof (cases rule: insert_heartbeats_cases)
  case (stored i t n)
  obtain new where new: "t = td_heartbeats db @ new" "n = int (length new)"
      "keys_of new = new_keys (set (keys_of (td_heartbeats db))) (batch_keys ft rows)"
    using insert_loop_adds [OF stored(3)] by auto
  have "set (keys_of new) = set (batch_keys ft rows) - set (keys_of (td_heartbeats db))"
    unfolding new(3) new_keys_def by auto
  then have "set (batch_keys ft rows) \<subseteq> set (keys_of t)" unfolding new(1) by (auto simp: keys_of_def)
  then have "insert_heartbeats (\<lambda>_. False) ft now2 rows db' = (Inr 0, db')"
    by (simp add: insert_heartbeats_def stored(2) insert_loop_nothing_new)
  then show ?thesis using new stored(1,2) by auto
qed simp

theorem ingest_stores_once_witness:
  "fst (insert_heartbeats (\<lambda>_. False) demo_f64 9 demo_rows empty_tracker) = Inr 1
   \<and> fst (insert_heartbeats (\<lambda>_. False) demo_f64 10 demo_rows
        (snd (insert_heartbeats (\<lambda>_. False) demo_f64 9 demo_rows empty_tracker))) = Inr 0"
proof
  show ok: "fst (insert_heartbeats (\<lambda>_. False) demo_f64 9 demo_rows empty_tracker) = Inr 1"
    by (simp add: insert_heartbeats_def demo_rows_def empty_tracker_def finite_time_def insert_or_ignore_def
        dedupe_key_def row_of_json_def js_string_or_def demo_f64_def)
  show "fst (insert_heartbeats (\<lambda>_. False) demo_f64 10 demo_rows
        (snd (insert_heartbeats (\<lambda>_. False) demo_f64 9 demo_rows empty_tracker))) = Inr 0"
    using ingest_stores_once [OF prod.collapse [symmetric], of "\<lambda>_. False" demo_f64 9 demo_rows empty_tracker 10] ok
    by simp
qed

end
