(* ===== verification/Reattribute.thy ===== *)
theory Reattribute
  imports Tracker_Db
begin

text \<open>
  File-save reattribution (\<open>crates/stackhour-store/src/reattribute.rs\<close>): a save that the editor
  watcher saw close to an agent's edit of the same file is the agent's. The nearest edit is
  found by binary search in the sorted edits of the file. The hash map of edits is the
  function from its key to the sorted list; the float distance of a missing candidate is no
  distance at all.
\<close>

subsection \<open>Operations\<close>

definition is_agent_edit :: "heartbeat \<Rightarrow> bool" where
  "is_agent_edit r \<longleftrightarrow> hb_actor r = ''agent'' \<and> hb_entity_type r = ''file'' \<and> hb_is_write r \<noteq> 0"

definition edits_by_entity :: "heartbeat list \<Rightarrow> string \<Rightarrow> string \<Rightarrow> (real \<times> string) list" where
  "edits_by_entity rows machine entity =
     sort_key fst (map (\<lambda>r. (hb_time r, hb_source r))
       (filter (\<lambda>r. is_agent_edit r \<and> hb_machine r = machine \<and> hb_entity r = entity) rows))"

text \<open>The binary search for the first edit that is not before \<open>t\<close>.\<close>

function lower_bound :: "(real \<times> string) list \<Rightarrow> real \<Rightarrow> nat \<Rightarrow> nat \<Rightarrow> nat" where
  "lower_bound edits t lo hi =
     (if lo < hi then
        (let mid = (lo + hi) div 2 in
         if fst (edits ! mid) < t then lower_bound edits t (mid + 1) hi else lower_bound edits t lo mid)
      else lo)"
  by pat_completeness auto

termination
  by (relation "measure (\<lambda>(edits, t, lo, hi). hi - lo)") auto

declare lower_bound.simps [simp del]

text \<open>One candidate of the scan; \<open>best\<close> is the source and distance of the best one so far.\<close>

definition consider_edit ::
  "(real \<Rightarrow> real) \<Rightarrow> real \<Rightarrow> real \<Rightarrow> (string \<times> real) option \<Rightarrow> real \<times> string \<Rightarrow> (string \<times> real) option" where
  "consider_edit rnd window_s t best e =
     (let distance = \<bar>rnd (fst e - t)\<bar> in
      if distance \<le> window_s \<and> (case best of None \<Rightarrow> True | Some b \<Rightarrow> distance < snd b)
      then Some (snd e, distance) else best)"

definition nearest_edit :: "(real \<Rightarrow> real) \<Rightarrow> real \<Rightarrow> real \<Rightarrow> (real \<times> string) list \<Rightarrow> string option" where
  "nearest_edit rnd window_s t edits =
     (let lo = lower_bound edits t 0 (length edits);
          indices = (if lo \<ge> 1 then [lo - 1] else []) @ [lo];
          candidates = map (\<lambda>i. edits ! i) (filter (\<lambda>i. i < length edits) indices)
      in map_option fst (foldl (consider_edit rnd window_s t) None candidates))"

definition patch_of :: "(real \<Rightarrow> real) \<Rightarrow> real \<Rightarrow> heartbeat list \<Rightarrow> heartbeat \<Rightarrow> string option" where
  "patch_of rnd window_s rows r =
     (if hb_source r \<noteq> ''editor-files'' then None
      else nearest_edit rnd window_s (hb_time r) (edits_by_entity rows (hb_machine r) (hb_entity r)))"

definition apply_patch :: "heartbeat \<Rightarrow> string option \<Rightarrow> heartbeat" where
  "apply_patch r p = (case p of None \<Rightarrow> r | Some source \<Rightarrow> r\<lparr>hb_actor := ''agent'', hb_source := source\<rparr>)"

definition reattribute_file_saves :: "(real \<Rightarrow> real) \<Rightarrow> heartbeat list \<Rightarrow> real \<Rightarrow> heartbeat list" where
  "reattribute_file_saves rnd rows window_s =
     (if \<not> list_ex is_agent_edit rows then rows
      else map2 apply_patch rows (map (patch_of rnd window_s rows) rows))"

definition reattributed_range ::
  "(real \<Rightarrow> real) \<Rightarrow> tracker_db \<Rightarrow> real \<Rightarrow> real \<Rightarrow> real \<Rightarrow> heartbeat list" where
  "reattributed_range rnd db from_t to_t window_s =
     filter (\<lambda>r. from_t \<le> hb_time r \<and> hb_time r \<le> to_t)
       (reattribute_file_saves rnd (rows_in_range db (rnd (from_t - window_s)) (rnd (to_t + window_s))) window_s)"

subsection \<open>The binary search\<close>

lemma lower_bound_spec:
  assumes "sorted (map fst edits)" and "hi \<le> length edits" and "lo \<le> hi"
    and "\<forall>i < lo. fst (edits ! i) < t" and "\<forall>i. hi \<le> i \<and> i < length edits \<longrightarrow> \<not> fst (edits ! i) < t"
  shows "lower_bound edits t lo hi \<le> length edits
    \<and> (\<forall>i < lower_bound edits t lo hi. fst (edits ! i) < t)
    \<and> (\<forall>i. lower_bound edits t lo hi \<le> i \<and> i < length edits \<longrightarrow> \<not> fst (edits ! i) < t)"
  using assms
proof (induction edits t lo hi rule: lower_bound.induct)
  case (1 edits t lo hi)
  let ?mid = "(lo + hi) div 2"
  have le: "fst (edits ! i) \<le> fst (edits ! j)" if "i \<le> j" "j < length edits" for i j
    using sorted_nth_mono [OF "1.prems"(1), of i j] that by simp
  show ?case
  proof (cases "lo < hi")
    case True
    then have mid: "lo \<le> ?mid" "?mid < hi" "?mid < length edits" using "1.prems"(2) by auto
    show ?thesis
    proof (cases "fst (edits ! ?mid) < t")
      case less: True
      have "\<forall>i < ?mid + 1. fst (edits ! i) < t" using le mid(3) less by (metis less_Suc_eq_le Suc_eq_plus1 order_le_less_trans)
      moreover have eq: "lower_bound edits t lo hi = lower_bound edits t (?mid + 1) hi"
        by (subst lower_bound.simps) (simp add: True less Let_def)
      moreover have "?mid + 1 \<le> hi" using mid(2) by linarith
      ultimately show ?thesis
        unfolding eq by (intro "1.IH"(1) [OF True refl less "1.prems"(1,2)] "1.prems"(5))
    next
      case ge: False
      have "\<forall>i. ?mid \<le> i \<and> i < length edits \<longrightarrow> \<not> fst (edits ! i) < t" using le ge by (meson order_le_less_trans)
      moreover have eq: "lower_bound edits t lo hi = lower_bound edits t lo ?mid"
        by (subst lower_bound.simps) (simp add: True ge Let_def)
      moreover have "?mid \<le> length edits" using mid(3) by linarith
      ultimately show ?thesis
        unfolding eq by (intro "1.IH"(2) [OF True refl ge "1.prems"(1)] mid(1) "1.prems"(4))
    qed
  next
    case False
    then have "lower_bound edits t lo hi = lo" and "lo = hi" using "1.prems"(3) by (subst lower_bound.simps, simp_all)
    then show ?thesis using "1.prems"(2,4,5) by metis
  qed
qed

text \<open>So it counts the edits before \<open>t\<close>.\<close>

lemma split_at_bound:
  fixes edits t
  assumes "sorted (map fst edits)"
  defines "lo \<equiv> lower_bound edits t 0 (length edits)"
  shows "lo \<le> length edits" and "filter (\<lambda>e. fst e < t) edits = take lo edits"
    and "filter (\<lambda>e. \<not> fst e < t) edits = drop lo edits"
proof -
  have s: "lo \<le> length edits" "\<forall>i < lo. fst (edits ! i) < t" "\<forall>i. lo \<le> i \<and> i < length edits \<longrightarrow> \<not> fst (edits ! i) < t"
    using lower_bound_spec [OF assms(1), of "length edits" 0 t] unfolding lo_def by auto
  have before: "\<forall>e \<in> set (take lo edits). fst e < t" using s(1,2) by (force simp: in_set_conv_nth)
  have after: "\<forall>e \<in> set (drop lo edits). \<not> fst e < t"
  proof
    fix e assume "e \<in> set (drop lo edits)"
    then obtain i where "i < length edits - lo" "e = edits ! (lo + i)" using s(1) by (auto simp: in_set_conv_nth)
    then show "\<not> fst e < t" using s(3) [rule_format, of "lo + i"] by auto
  qed
  have split: "edits = take lo edits @ drop lo edits" by simp
  show "lo \<le> length edits" by (rule s(1))
  show "filter (\<lambda>e. fst e < t) edits = take lo edits"
    using before after by (subst split) (simp only: filter_append filter_False filter_True, simp)
  show "filter (\<lambda>e. \<not> fst e < t) edits = drop lo edits"
    using before after by (subst split) (simp only: filter_append, simp add: filter_False filter_True)
qed

subsection \<open>The nearest edit\<close>

definition candidates :: "real \<Rightarrow> (real \<times> string) list \<Rightarrow> (real \<times> string) list" where
  "candidates t edits =
     (let before = filter (\<lambda>e. fst e < t) edits; after = filter (\<lambda>e. \<not> fst e < t) edits
      in (if before = [] then [] else [last before]) @ (if after = [] then [] else [hd after]))"

lemma nearest_edit_candidates:
  assumes "sorted (map fst edits)"
  shows "nearest_edit rnd w t edits = map_option fst (foldl (consider_edit rnd w t) None (candidates t edits))"
proof -
  let ?lo = "lower_bound edits t 0 (length edits)"
  note b = split_at_bound [OF assms, of t]
  have "map (\<lambda>i. edits ! i) (filter (\<lambda>i. i < length edits) ((if ?lo \<ge> 1 then [?lo - 1] else []) @ [?lo])) = candidates t edits"
    unfolding candidates_def Let_def b(2,3) using b(1)
    by (cases ?lo) (auto simp: last_conv_nth hd_drop_conv_nth hd_conv_nth min_def)
  then show ?thesis unfolding nearest_edit_def Let_def by (simp only:)
qed

text \<open>The rounded distance, and what it means to be the nearest: no other edit is closer, and no
  earlier edit is as close.\<close>

definition dist_to :: "(real \<Rightarrow> real) \<Rightarrow> real \<Rightarrow> real \<times> string \<Rightarrow> real" where
  "dist_to rnd t e = \<bar>rnd (fst e - t)\<bar>"

definition nearest_to :: "(real \<Rightarrow> real) \<Rightarrow> real \<Rightarrow> (real \<times> string) set \<Rightarrow> real \<times> string \<Rightarrow> bool" where
  "nearest_to rnd t E e \<longleftrightarrow> e \<in> E \<and> (\<forall>e' \<in> E. dist_to rnd t e \<le> dist_to rnd t e')
     \<and> (fst e < t \<or> (\<forall>e' \<in> E. fst e' < t \<longrightarrow> dist_to rnd t e < dist_to rnd t e'))"

definition rounds_monotonically :: "(real \<Rightarrow> real) \<Rightarrow> bool" where
  "rounds_monotonically rnd \<longleftrightarrow> mono rnd \<and> rnd 0 = 0"

lemma dist_after:
  assumes "rounds_monotonically rnd" and "t \<le> x" and "x \<le> y"
  shows "\<bar>rnd (x - t)\<bar> \<le> \<bar>rnd (y - t)\<bar>"
proof -
  have m: "mono rnd" using assms(1) by (simp add: rounds_monotonically_def)
  have "rnd 0 \<le> rnd (x - t)" "rnd (x - t) \<le> rnd (y - t)"
    by (rule monoD [OF m], use assms in simp)+
  then show ?thesis using assms(1) by (simp add: rounds_monotonically_def)
qed

lemma dist_before:
  assumes "rounds_monotonically rnd" and "x \<le> t" and "y \<le> x"
  shows "\<bar>rnd (x - t)\<bar> \<le> \<bar>rnd (y - t)\<bar>"
proof -
  have m: "mono rnd" using assms(1) by (simp add: rounds_monotonically_def)
  have "rnd (x - t) \<le> rnd 0" "rnd (y - t) \<le> rnd (x - t)"
    by (rule monoD [OF m], use assms in simp)+
  then show ?thesis using assms(1) by (simp add: rounds_monotonically_def)
qed

lemma sorted_last: "sorted (map f xs) \<Longrightarrow> x \<in> set xs \<Longrightarrow> f x \<le> f (last xs)"
  by (induction xs rule: rev_induct) (auto simp: sorted_append)

lemma sorted_hd: "sorted (map f xs) \<Longrightarrow> x \<in> set xs \<Longrightarrow> f (hd xs) \<le> f x"
  by (cases xs) auto

text \<open>The candidates bound the distance of every edit from below.\<close>

lemma candidates_nearest:
  assumes r: "rounds_monotonically rnd" and s: "sorted (map fst edits)" and e: "e \<in> set edits"
  shows "\<exists>c \<in> set (candidates t edits). dist_to rnd t c \<le> dist_to rnd t e \<and> (fst c < t \<longleftrightarrow> fst e < t)"
proof (cases "fst e < t")
  case True
  define b where "b = filter (\<lambda>e. fst e < t) edits"
  have eb: "e \<in> set b" using e True by (simp add: b_def)
  then have ne: "b \<noteq> []" by auto
  have "sorted (map fst b)" unfolding b_def by (rule sorted_filter [OF s])
  then have le: "fst e \<le> fst (last b)" using eb by (rule sorted_last)
  have lt: "fst (last b) < t" using last_in_set [OF ne] by (auto simp: b_def)
  have "last b \<in> set (candidates t edits)" using ne by (simp add: candidates_def Let_def flip: b_def)
  then show ?thesis
    using dist_before [OF r less_imp_le [OF lt] le] lt True unfolding dist_to_def by blast
next
  case False
  define a where "a = filter (\<lambda>e. \<not> fst e < t) edits"
  have ea: "e \<in> set a" using e False by (simp add: a_def)
  then have ne: "a \<noteq> []" by auto
  have "sorted (map fst a)" unfolding a_def by (rule sorted_filter [OF s])
  then have le: "fst (hd a) \<le> fst e" using ea by (rule sorted_hd)
  have ge: "\<not> fst (hd a) < t" using hd_in_set [OF ne] by (auto simp: a_def)
  have "hd a \<in> set (candidates t edits)" using ne by (simp add: candidates_def Let_def flip: a_def)
  then show ?thesis
    using dist_after [OF r _ le] ge False unfolding dist_to_def by (meson linorder_not_less)
qed

lemma candidates_shape:
  "candidates t edits = [] \<or> (\<exists>c \<in> set edits. candidates t edits = [c])
   \<or> (\<exists>b \<in> set edits. \<exists>a \<in> set edits. candidates t edits = [b, a] \<and> fst b < t \<and> \<not> fst a < t)"
proof -
  let ?b = "filter (\<lambda>e. fst e < t) edits" and ?a = "filter (\<lambda>e. \<not> fst e < t) edits"
  have "?b \<noteq> [] \<Longrightarrow> last ?b \<in> set edits \<and> fst (last ?b) < t" using last_in_set [of ?b] by auto
  moreover have "?a \<noteq> [] \<Longrightarrow> hd ?a \<in> set edits \<and> \<not> fst (hd ?a) < t" using hd_in_set [of ?a] by auto
  ultimately show ?thesis unfolding candidates_def Let_def by (cases "?b = []"; cases "?a = []") auto
qed

lemma nearest_edit_correct:
  assumes r: "rounds_monotonically rnd" and s: "sorted (map fst edits)"
  shows "(nearest_edit rnd w t edits = None \<longleftrightarrow> (\<forall>e \<in> set edits. dist_to rnd t e > w))
    \<and> (\<forall>src. nearest_edit rnd w t edits = Some src \<longrightarrow>
        (\<exists>e. nearest_to rnd t (set edits) e \<and> dist_to rnd t e \<le> w \<and> src = snd e))"
proof -
  note near = candidates_nearest [OF r s, of _ t]
  consider (none) "candidates t edits = []" | (one) c where "c \<in> set edits" "candidates t edits = [c]"
    | (two) b a where "b \<in> set edits" "a \<in> set edits" "candidates t edits = [b, a]" "fst b < t" "\<not> fst a < t"
    using candidates_shape [of t edits] by blast
  then show ?thesis
  proof cases
    case none
    have "set edits = {}"
    proof (rule equals0I)
      fix e assume "e \<in> set edits"
      from near [OF this] show False by (simp add: none)
    qed
    moreover have "nearest_edit rnd w t edits = None" by (simp add: nearest_edit_candidates [OF s] none)
    ultimately show ?thesis by simp
  next
    case (one c)
    have min: "dist_to rnd t c \<le> dist_to rnd t e \<and> (fst c < t \<longleftrightarrow> fst e < t)" if "e \<in> set edits" for e
      using near [OF that] by (simp add: one(2))
    then have n: "nearest_to rnd t (set edits) c" unfolding nearest_to_def using one(1) by blast
    have le: "dist_to rnd t c \<le> dist_to rnd t e" if "e \<in> set edits" for e using min [OF that] by blast
    have eq: "nearest_edit rnd w t edits = (if dist_to rnd t c \<le> w then Some (snd c) else None)"
      by (simp add: nearest_edit_candidates [OF s] one(2) consider_edit_def dist_to_def Let_def)
    show ?thesis
    proof (cases "dist_to rnd t c \<le> w")
      case True
      then show ?thesis using n one(1) unfolding eq by fastforce
    next
      case False
      then have "dist_to rnd t e > w" if "e \<in> set edits" for e using le [OF that] by linarith
      then show ?thesis using False unfolding eq by simp
    qed
  next
    case (two b a)
    have minb: "dist_to rnd t b \<le> dist_to rnd t e" if "e \<in> set edits" "fst e < t" for e
      using near [OF that(1)] that(2) two(4,5) by (auto simp: two(3))
    have mina: "dist_to rnd t a \<le> dist_to rnd t e" if "e \<in> set edits" "\<not> fst e < t" for e
      using near [OF that(1)] that(2) two(4,5) by (auto simp: two(3))
    have nb: "nearest_to rnd t (set edits) b" if "dist_to rnd t b \<le> dist_to rnd t a"
      unfolding nearest_to_def using two(1,4) minb mina that by (meson order_trans)
    have na: "nearest_to rnd t (set edits) a" if "dist_to rnd t a < dist_to rnd t b"
      unfolding nearest_to_def using two(2) minb mina that by (meson order_trans less_imp_le order_less_le_trans)
    have eq: "nearest_edit rnd w t edits =
        (if dist_to rnd t b \<le> w then (if dist_to rnd t a < dist_to rnd t b then Some (snd a) else Some (snd b))
         else if dist_to rnd t a \<le> w then Some (snd a) else None)"
      by (auto simp: nearest_edit_candidates [OF s] two(3) consider_edit_def dist_to_def Let_def)
    consider (before) "dist_to rnd t b \<le> w" "dist_to rnd t b \<le> dist_to rnd t a"
      | (after) "dist_to rnd t a \<le> w" "dist_to rnd t a < dist_to rnd t b"
      | (far) "dist_to rnd t b > w" "dist_to rnd t a > w"
      by linarith
    then show ?thesis
    proof cases
      case before
      then have "nearest_edit rnd w t edits = Some (snd b)" by (simp add: eq)
      then show ?thesis using nb before two(1) by fastforce
    next
      case after
      then have "nearest_edit rnd w t edits = Some (snd a)" by (simp add: eq)
      then show ?thesis using na after two(2) by fastforce
    next
      case far
      then have "nearest_edit rnd w t edits = None" by (simp add: eq)
      moreover have "dist_to rnd t e > w" if "e \<in> set edits" for e
        using minb [OF that] mina [OF that] far by (cases "fst e < t") auto
      ultimately show ?thesis by simp
    qed
  qed
qed

subsection \<open>Which saves become the agent's\<close>

definition entity_edits :: "heartbeat list \<Rightarrow> heartbeat \<Rightarrow> (real \<times> string) set" where
  "entity_edits rows r =
     {(hb_time x, hb_source x) | x. x \<in> set rows \<and> is_agent_edit x \<and> hb_machine x = hb_machine r \<and> hb_entity x = hb_entity r}"

definition reattributed :: "(real \<Rightarrow> real) \<Rightarrow> real \<Rightarrow> heartbeat list \<Rightarrow> heartbeat \<Rightarrow> heartbeat \<Rightarrow> bool" where
  "reattributed rnd w rows r r' \<longleftrightarrow>
     (if hb_source r = ''editor-files'' \<and> (\<exists>e \<in> entity_edits rows r. dist_to rnd (hb_time r) e \<le> w)
      then \<exists>e. nearest_to rnd (hb_time r) (entity_edits rows r) e \<and> r' = r\<lparr>hb_actor := ''agent'', hb_source := snd e\<rparr>
      else r' = r)"

lemma edits_by_entity_props:
  "sorted (map fst (edits_by_entity rows m e))"
  "set (edits_by_entity rows (hb_machine r) (hb_entity r)) = entity_edits rows r"
  by (auto simp: edits_by_entity_def entity_edits_def)

lemma reattribute_map:
  "reattribute_file_saves rnd rows w = map (\<lambda>r. apply_patch r (patch_of rnd w rows r)) rows"
proof (cases "list_ex is_agent_edit rows")
  case True
  have "map2 apply_patch rows (map f rows) = map (\<lambda>r. apply_patch r (f r)) rows" for f
    by (induction rows) auto
  then show ?thesis using True by (simp add: reattribute_file_saves_def)
next
  case False
  then have "edits_by_entity rows m e = []" for m e
    by (auto simp: edits_by_entity_def list_ex_iff filter_empty_conv)
  then have "patch_of rnd w rows r = None" for r
    by (simp add: patch_of_def nearest_edit_candidates candidates_def)
  then show ?thesis using False by (simp add: reattribute_file_saves_def apply_patch_def)
qed

lemma patch_correct:
  assumes "rounds_monotonically rnd"
  shows "reattributed rnd w rows r (apply_patch r (patch_of rnd w rows r))"
proof -
  let ?es = "edits_by_entity rows (hb_machine r) (hb_entity r)"
  note near = nearest_edit_correct [OF assms edits_by_entity_props(1) [of rows "hb_machine r" "hb_entity r"], of w "hb_time r",
      unfolded edits_by_entity_props(2)]
  show ?thesis
  proof (cases "nearest_edit rnd w (hb_time r) ?es")
    case None
    then show ?thesis using near by (auto simp: reattributed_def patch_of_def apply_patch_def not_le)
  next
    case (Some src)
    then obtain e where e: "nearest_to rnd (hb_time r) (entity_edits rows r) e" "dist_to rnd (hb_time r) e \<le> w" "src = snd e"
      using near by blast
    then have "e \<in> entity_edits rows r" by (simp add: nearest_to_def)
    then have "\<exists>e \<in> entity_edits rows r. dist_to rnd (hb_time r) e \<le> w" using e(2) by blast
    moreover have "\<exists>e. nearest_to rnd (hb_time r) (entity_edits rows r) e
        \<and> r\<lparr>hb_actor := ''agent'', hb_source := src\<rparr> = r\<lparr>hb_actor := ''agent'', hb_source := snd e\<rparr>"
      using e(1,3) by blast
    ultimately show ?thesis
      using Some unfolding reattributed_def patch_of_def apply_patch_def by (cases "hb_source r = ''editor-files''") simp_all
  qed
qed

text \<open>C14: reattribution finds the nearest edit. Every row keeps its place and all its fields, except
  that an editor save with an agent edit of the same file on the same machine inside the window
  becomes the agent's, with the source of a nearest such edit; of an earlier and a later edit
  at the same distance, the earlier counts. So the binary search over the sorted edits with its
  two candidates agrees with the search through all of them.\<close>

theorem reattribution_is_nearest:
  assumes "rounds_monotonically rnd"
  shows "list_all2 (reattributed rnd w rows) rows (reattribute_file_saves rnd rows w)"
  unfolding reattribute_map by (simp add: list_all2_conv_all_nth patch_correct [OF assms])

definition save_at :: "real \<Rightarrow> heartbeat" where
  "save_at t = (demo_beat t ''human'' ''p'')\<lparr>hb_source := ''editor-files''\<rparr>"

definition edit_at :: "real \<Rightarrow> string \<Rightarrow> heartbeat" where
  "edit_at t source = (demo_beat t ''agent'' ''p'')\<lparr>hb_source := source, hb_is_write := 1\<rparr>"

text \<open>Two edits at the same distance of a save: the earlier one wins.\<close>

theorem reattribution_is_nearest_witness:
  "map hb_source (reattribute_file_saves id [save_at 10, edit_at 15 ''late'', edit_at 5 ''early''] 60)
     = [''early'', ''late'', ''early'']
   \<and> list_all2 (reattributed id 60 [save_at 10, edit_at 15 ''late'', edit_at 5 ''early''])
       [save_at 10, edit_at 15 ''late'', edit_at 5 ''early'']
       (reattribute_file_saves id [save_at 10, edit_at 15 ''late'', edit_at 5 ''early''] 60)"
proof
  show "map hb_source (reattribute_file_saves id [save_at 10, edit_at 15 ''late'', edit_at 5 ''early''] 60)
     = [''early'', ''late'', ''early'']"
    by (simp add: reattribute_map patch_of_def edits_by_entity_def is_agent_edit_def save_at_def edit_at_def demo_beat_def
        nearest_edit_candidates candidates_def consider_edit_def apply_patch_def)
  have "rounds_monotonically id" by (simp add: rounds_monotonically_def mono_def)
  then show "list_all2 (reattributed id 60 [save_at 10, edit_at 15 ''late'', edit_at 5 ''early''])
       [save_at 10, edit_at 15 ''late'', edit_at 5 ''early'']
       (reattribute_file_saves id [save_at 10, edit_at 15 ''late'', edit_at 5 ''early''] 60)"
    by (rule reattribution_is_nearest)
qed

subsection \<open>The widened query is wide enough\<close>

lemma consider_far: "dist_to rnd t e > w \<Longrightarrow> consider_edit rnd w t best e = best"
  by (simp add: consider_edit_def dist_to_def)

lemma consider_filter:
  "foldl (consider_edit rnd w t) best es = foldl (consider_edit rnd w t) best (filter (\<lambda>e. dist_to rnd t e \<le> w) es)"
  by (induction es arbitrary: best) (auto simp: consider_far)

lemma last_filter:
  assumes "xs \<noteq> []" and "P (last xs)"
  shows "filter P xs \<noteq> [] \<and> last (filter P xs) = last xs"
  using assms by (cases xs rule: rev_cases) auto

lemma hd_filter: "xs \<noteq> [] \<Longrightarrow> P (hd xs) \<Longrightarrow> filter P xs \<noteq> [] \<and> hd (filter P xs) = hd xs"
  by (cases xs) auto

lemma nearest_edit_widened:
  assumes s: "sorted (map fst edits)" and a: "a \<le> t - w" and b: "t + w \<le> b" and w: "0 \<le> w"
    and exact: "\<forall>e \<in> set edits. rnd (fst e - t) = fst e - t"
  shows "nearest_edit rnd w t (filter (\<lambda>e. a \<le> fst e \<and> fst e \<le> b) edits) = nearest_edit rnd w t edits"
proof -
  let ?in = "\<lambda>e. a \<le> fst e \<and> fst e \<le> b" and ?near = "\<lambda>e. dist_to rnd t e \<le> w"
  define bs where "bs = filter (\<lambda>e. fst e < t) edits"
  define as where "as = filter (\<lambda>e. \<not> fst e < t) edits"
  have near: "?near e \<longleftrightarrow> \<bar>fst e - t\<bar> \<le> w" if "e \<in> set edits" for e
    using exact that by (simp add: dist_to_def)
  have comm: "filter (\<lambda>e. fst e < t) (filter ?in edits) = filter ?in bs"
      "filter (\<lambda>e. \<not> fst e < t) (filter ?in edits) = filter ?in as"
    unfolding bs_def as_def filter_filter by (rule filter_cong; auto)+
  have sorted: "sorted (map fst bs)" "sorted (map fst as)"
    unfolding bs_def as_def by (rule sorted_filter [OF s])+
  have before: "filter ?near (if filter ?in bs = [] then [] else [last (filter ?in bs)])
      = filter ?near (if bs = [] then [] else [last bs])"
  proof (cases "bs = []")
    case False
    have m: "last bs \<in> set edits" "fst (last bs) < t" using last_in_set [OF False] by (auto simp: bs_def)
    show ?thesis
    proof (cases "a \<le> fst (last bs)")
      case True
      then show ?thesis using last_filter [OF False, of ?in] m b w False by simp
    next
      case far: False
      have "\<not> ?in e" if "e \<in> set bs" for e using sorted_last [OF sorted(1) that] far by linarith
      then have "filter ?in bs = []" by (simp add: filter_empty_conv)
      moreover have "\<not> ?near (last bs)" using near [OF m(1)] far a m(2) by linarith
      ultimately show ?thesis by simp
    qed
  qed simp
  have after: "filter ?near (if filter ?in as = [] then [] else [hd (filter ?in as)])
      = filter ?near (if as = [] then [] else [hd as])"
  proof (cases "as = []")
    case False
    have m: "hd as \<in> set edits" "\<not> fst (hd as) < t" using hd_in_set [OF False] by (auto simp: as_def)
    show ?thesis
    proof (cases "fst (hd as) \<le> b")
      case True
      then show ?thesis using hd_filter [OF False, of ?in] m a w False by simp
    next
      case far: False
      have "\<not> ?in e" if "e \<in> set as" for e using sorted_hd [OF sorted(2) that] far by linarith
      then have "filter ?in as = []" by (simp add: filter_empty_conv)
      moreover have "\<not> ?near (hd as)" using near [OF m(1)] far b m(2) by linarith
      ultimately show ?thesis by simp
    qed
  qed simp
  have "filter ?near (candidates t (filter ?in edits)) = filter ?near (candidates t edits)"
    unfolding candidates_def Let_def comm bs_def [symmetric] as_def [symmetric] filter_append before after ..
  then show ?thesis
    unfolding nearest_edit_candidates [OF s] nearest_edit_candidates [OF sorted_filter [OF s]]
    by (subst (1 2) consider_filter) (simp only:)
qed

text \<open>The whole table in the order of the queries.\<close>

definition ordered_rows :: "tracker_db \<Rightarrow> heartbeat list" where
  "ordered_rows db = sort_key hb_time (sort_key hb_id (td_heartbeats db))"

lemma rows_in_range_filter: "rows_in_range db a b = filter (\<lambda>r. a \<le> hb_time r \<and> hb_time r \<le> b) (ordered_rows db)"
  by (simp add: rows_in_range_def ordered_rows_def filter_sort)

lemma edits_of_filter:
  "edits_by_entity (filter (\<lambda>r. a \<le> hb_time r \<and> hb_time r \<le> b) rows) m e
   = filter (\<lambda>x. a \<le> fst x \<and> fst x \<le> b) (edits_by_entity rows m e)"
  unfolding edits_by_entity_def filter_sort filter_map comp_def filter_filter
  by (rule arg_cong [where f = "\<lambda>xs. sort_key fst (map (\<lambda>r. (hb_time r, hb_source r)) xs)"], rule filter_cong) auto

text \<open>A row whose window lies inside a range is patched the same in the range as in the whole table.\<close>

definition exact_differences :: "(real \<Rightarrow> real) \<Rightarrow> tracker_db \<Rightarrow> bool" where
  "exact_differences rnd db \<longleftrightarrow>
     (\<forall>x \<in> set (td_heartbeats db). \<forall>y \<in> set (td_heartbeats db). rnd (hb_time x - hb_time y) = hb_time x - hb_time y)"

lemma ordered_rows_set [simp]: "set (ordered_rows db) = set (td_heartbeats db)"
  by (simp add: ordered_rows_def)

lemma patch_of_widened:
  assumes "0 \<le> w" and "exact_differences rnd db" and "r \<in> set (td_heartbeats db)"
    and "a \<le> hb_time r - w" and "hb_time r + w \<le> b"
  shows "patch_of rnd w (rows_in_range db a b) r = patch_of rnd w (ordered_rows db) r"
proof -
  have "nearest_edit rnd w (hb_time r) (filter (\<lambda>e. a \<le> fst e \<and> fst e \<le> b)
        (edits_by_entity (ordered_rows db) (hb_machine r) (hb_entity r)))
      = nearest_edit rnd w (hb_time r) (edits_by_entity (ordered_rows db) (hb_machine r) (hb_entity r))"
    by (rule nearest_edit_widened [OF edits_by_entity_props(1)])
      (use assms in \<open>auto simp: edits_by_entity_props(2) entity_edits_def exact_differences_def\<close>)
  then show ?thesis by (simp add: patch_of_def rows_in_range_filter edits_of_filter)
qed

lemma apply_patch_time [simp]: "hb_time (apply_patch r p) = hb_time r"
  by (cases p) (simp_all add: apply_patch_def)

text \<open>A report needs only the window around its range. Reattributing the rows of the widened
  range and then cutting back to the range gives exactly what reattributing the complete table
  and cutting gives, as long as the sums and differences of the times involved are exact
  doubles (whole seconds, for example): no edit outside the widened range matters, and none
  inside it is missed.\<close>

theorem widened_range_suffices:
  assumes "0 \<le> w" and "rnd (from_t - w) = from_t - w" and "rnd (to_t + w) = to_t + w"
    and "exact_differences rnd db"
  shows "reattributed_range rnd db from_t to_t w
    = filter (\<lambda>r. from_t \<le> hb_time r \<and> hb_time r \<le> to_t) (reattribute_file_saves rnd (ordered_rows db) w)"
proof -
  let ?I = "\<lambda>r. from_t \<le> hb_time r \<and> hb_time r \<le> to_t"
  let ?wide = "rows_in_range db (from_t - w) (to_t + w)"
  have patch: "patch_of rnd w ?wide r = patch_of rnd w (ordered_rows db) r" if "r \<in> set (ordered_rows db)" "?I r" for r
    by (rule patch_of_widened) (use that assms(1,4) in auto)
  have "reattributed_range rnd db from_t to_t w
      = map (\<lambda>r. apply_patch r (patch_of rnd w ?wide r)) (filter ?I (ordered_rows db))"
  proof -
    have "filter ?I ?wide = filter ?I (ordered_rows db)"
      unfolding rows_in_range_filter filter_filter using assms(1) by (intro filter_cong) auto
    then show ?thesis
      by (simp add: reattributed_range_def reattribute_map assms(2,3) filter_map comp_def)
  qed
  also have "\<dots> = map (\<lambda>r. apply_patch r (patch_of rnd w (ordered_rows db) r)) (filter ?I (ordered_rows db))"
    by (rule map_cong [OF refl]) (use patch in simp)
  also have "\<dots> = filter ?I (reattribute_file_saves rnd (ordered_rows db) w)"
    by (simp add: reattribute_map filter_map comp_def)
  finally show ?thesis .
qed

text \<open>The edit at 5 is outside the range from 8 to 20 and decides about the save at 10.\<close>

theorem widened_range_suffices_witness:
  "map hb_source (reattributed_range id
      (empty_tracker\<lparr>td_heartbeats := [save_at 10, edit_at 5 ''early'']\<rparr>) 8 20 60) = [''early'']"
proof -
  let ?db = "empty_tracker\<lparr>td_heartbeats := [save_at 10, edit_at 5 ''early'']\<rparr>"
  have eq: "reattributed_range id ?db 8 20 60
      = filter (\<lambda>r. 8 \<le> hb_time r \<and> hb_time r \<le> 20) (reattribute_file_saves id (ordered_rows ?db) 60)"
    by (rule widened_range_suffices) (simp_all add: exact_differences_def)
  show ?thesis
    unfolding eq
    by (simp add: ordered_rows_def reattribute_map patch_of_def edits_by_entity_def is_agent_edit_def save_at_def edit_at_def
        demo_beat_def nearest_edit_candidates candidates_def consider_edit_def apply_patch_def)
qed

end
