(* ===== verification/Server_Auth.thy ===== *)
theory Server_Auth
  imports Tracker_Db
begin

text \<open>
  Authentication of the tracker server (\<open>crates/stackhour-server/src/auth.rs\<close>, and the read guard of
  \<open>read_api.rs\<close> and \<open>lib.rs\<close>). A request is its headers and its raw query string. The decoder of
  query strings, the constant-time comparison, the regular expression of the AI category and
  the text of an SQL error are code of other crates; they are fields of \<open>server_env\<close>, next to what
  the standard library decides (the text of a double, its bits, lower case).
\<close>

subsection \<open>Requests\<close>

text \<open>A header that is missing or is no visible text is \<open>None\<close>.\<close>

record server_env =
  sv_ft :: f64_text
  sv_jt :: json_text
  sv_query :: "string \<Rightarrow> (string \<times> string) list"
  sv_ct_eq :: "string \<Rightarrow> string \<Rightarrow> bool"
  sv_display :: "real \<Rightarrow> string"
  sv_ai :: "string \<Rightarrow> bool"
  sv_lower :: "string \<Rightarrow> string"
  sv_f64_bits :: "real \<Rightarrow> 64 word"
  sv_sql_text :: string

type_synonym headers = "string \<Rightarrow> string option"

datatype principal = Open | Global | Machine string

subsection \<open>Tokens\<close>

definition is_truthy :: "f64_text \<Rightarrow> json option \<Rightarrow> bool" where
  "is_truthy ft v =
     (case v of
        None \<Rightarrow> False
      | Some JNull \<Rightarrow> False
      | Some (JBool b) \<Rightarrow> b
      | Some (JString s) \<Rightarrow> s \<noteq> []
      | Some (JNum n) \<Rightarrow> num_f64 (ft_round ft) n \<noteq> Finite 0 \<and> num_f64 (ft_round ft) n \<noteq> NotANumber
      | Some _ \<Rightarrow> True)"

definition truthy_string :: "f64_text \<Rightarrow> json option \<Rightarrow> string option" where
  "truthy_string ft v =
     (if \<not> is_truthy ft v then None
      else
        (case v of
           Some (JString s) \<Rightarrow> Some s
         | Some (JBool _) \<Rightarrow> Some ''true''
         | Some (JNum n) \<Rightarrow> Some (js_display ft (JNum n))
         | _ \<Rightarrow> None))"

definition sextet :: "char \<Rightarrow> 32 word option" where
  "sextet c =
     (let b = byte c in
      if 65 \<le> b \<and> b \<le> 90 then Some (of_nat (b - 65))
      else if 97 \<le> b \<and> b \<le> 122 then Some (of_nat (b - 97 + 26))
      else if 48 \<le> b \<and> b \<le> 57 then Some (of_nat (b - 48 + 52))
      else if c = CHR ''+'' \<or> c = CHR ''-'' then Some 62
      else if c = CHR ''/'' \<or> c = CHR ''_'' then Some 63
      else None)"

text \<open>The loop over the bytes; \<open>acc\<close> is a \<open>u32\<close> whose high bits are shifted out.\<close>

fun base64_loop :: "32 word \<Rightarrow> nat \<Rightarrow> string \<Rightarrow> string" where
  "base64_loop acc bits [] = []"
| "base64_loop acc bits (c # cs) =
     (if c = CHR ''='' then []
      else
        (case sextet c of
           None \<Rightarrow> base64_loop acc bits cs
         | Some v \<Rightarrow>
             (let acc1 = or (push_bit 6 acc) v; bits1 = bits + 6 in
              if bits1 \<ge> 8 then
                char_of (unat (and (drop_bit (bits1 - 8) acc1) 0xFF)) # base64_loop acc1 (bits1 - 8) cs
              else base64_loop acc1 bits1 cs)))"

definition decode_base64_lenient :: "string \<Rightarrow> string" where
  "decode_base64_lenient s = base64_loop 0 0 s"

definition strip_suffix_char :: "char \<Rightarrow> string \<Rightarrow> string" where
  "strip_suffix_char c s = (if s \<noteq> [] \<and> last s = c then butlast s else s)"

definition request_token :: "server_env \<Rightarrow> headers \<Rightarrow> string \<Rightarrow> string" where
  "request_token env headers query =
     (let header = (case headers ''authorization'' of Some h \<Rightarrow> h | None \<Rightarrow> []) in
      case strip_prefix ''Bearer '' header of
        Some rest \<Rightarrow> rest
      | None \<Rightarrow>
          (case strip_prefix ''Basic '' header of
             Some rest \<Rightarrow> strip_suffix_char CHR '':'' (utf8_lossy (decode_base64_lenient rest))
           | None \<Rightarrow>
               (case find (\<lambda>kv. fst kv = ''api_key'') (sv_query env query) of Some kv \<Rightarrow> snd kv | None \<Rightarrow> [])))"

definition safe_equal :: "server_env \<Rightarrow> string \<Rightarrow> string \<Rightarrow> bool" where
  "safe_equal env a b \<longleftrightarrow> length a = length b \<and> sv_ct_eq env a b"

text \<open>The token map: an object that is not empty.\<close>

definition token_map :: "json \<Rightarrow> (string \<times> json) list" where
  "token_map server_cfg = (case json_get server_cfg ''tokens'' of Some (JObject m) \<Rightarrow> m | _ \<Rightarrow> [])"

fun match_machine :: "server_env \<Rightarrow> string \<Rightarrow> (string \<times> json) list \<Rightarrow> principal option" where
  "match_machine env supplied [] = None"
| "match_machine env supplied ((machine, v) # rest) =
     (case truthy_string (sv_ft env) (Some v) of
        None \<Rightarrow> match_machine env supplied rest
      | Some token \<Rightarrow> if safe_equal env supplied token then Some (Machine machine) else match_machine env supplied rest)"

definition authenticate :: "server_env \<Rightarrow> headers \<Rightarrow> string \<Rightarrow> json \<Rightarrow> principal option" where
  "authenticate env headers query server_cfg =
     (let tokens = token_map server_cfg;
          legacy_configured = is_truthy (sv_ft env) (json_get server_cfg ''token'');
          legacy = truthy_string (sv_ft env) (json_get server_cfg ''token'')
      in if \<not> legacy_configured \<and> tokens = [] then Some Open
         else
           (let supplied = request_token env headers query in
            if (case legacy of Some l \<Rightarrow> safe_equal env supplied l | None \<Rightarrow> False) then Some Global
            else match_machine env supplied tokens))"

definition allows_machine :: "principal \<Rightarrow> string option \<Rightarrow> bool" where
  "allows_machine p machine =
     (case p of
        Machine owner \<Rightarrow> (case machine of Some m \<Rightarrow> if m = [] then ''unknown'' else m | None \<Rightarrow> ''unknown'') = owner
      | _ \<Rightarrow> True)"

subsection \<open>The read guard\<close>

text \<open>\<open>cfg.raw\<close> is the merged configuration; \<open>cfg.server.token\<close> is its token as text.\<close>

definition server_section :: "json \<Rightarrow> json \<Rightarrow> json" where
  "server_section d raw = (case json_get raw ''server'' of Some s \<Rightarrow> s | None \<Rightarrow> d)"

definition fmt_js_number :: "server_env \<Rightarrow> json_num \<Rightarrow> string" where
  "fmt_js_number env n =
     (case n of
        Float bits \<Rightarrow>
          (case f64_of_bits bits of
             NotANumber \<Rightarrow> ''NaN''
           | Infinite neg \<Rightarrow> if neg then ''-Infinity'' else ''Infinity''
           | Finite f \<Rightarrow>
               if f = 0 then ''0''
               else if f = of_int \<lfloor>f\<rfloor> \<and> \<bar>f\<bar> < 10 ^ 21 then int_str \<lfloor>f\<rfloor>
               else sv_display env f)
      | n \<Rightarrow> int_text n)"

fun config_display :: "server_env \<Rightarrow> json \<Rightarrow> string" where
  "config_display env JNull = ''null''"
| "config_display env (JBool b) = (if b then ''true'' else ''false'')"
| "config_display env (JNum n) = fmt_js_number env n"
| "config_display env (JString s) = s"
| "config_display env (JArray a) = join_comma (map (\<lambda>e. if e = JNull then [] else config_display env e) a)"
| "config_display env (JObject _) = ''[object Object]''"

definition string_field :: "server_env \<Rightarrow> json option \<Rightarrow> string \<Rightarrow> string \<Rightarrow> string" where
  "string_field env obj key d =
     (case Option.bind obj (\<lambda>ob. json_get ob key) of
        None \<Rightarrow> d
      | Some JNull \<Rightarrow> d
      | Some (JString s) \<Rightarrow> s
      | Some other \<Rightarrow> config_display env other)"

definition has_configured_tokens :: "server_env \<Rightarrow> json \<Rightarrow> bool" where
  "has_configured_tokens env raw \<longleftrightarrow>
     string_field env (json_get raw ''server'') ''token'' [] \<noteq> []
     \<or> (case json_get raw ''server'' of Some s \<Rightarrow> token_map s \<noteq> [] | None \<Rightarrow> False)"

text \<open>\<open>True\<close> when the request is let through.\<close>

definition read_guard :: "server_env \<Rightarrow> json \<Rightarrow> headers \<Rightarrow> string \<Rightarrow> bool" where
  "read_guard env raw headers query \<longleftrightarrow>
     \<not> has_configured_tokens env raw \<or> authenticate env headers query (server_section JNull raw) \<noteq> None"

subsection \<open>Who is let in\<close>

definition ct_eq_ok :: "server_env \<Rightarrow> bool" where
  "ct_eq_ok env \<longleftrightarrow> (\<forall>a b. length a = length b \<longrightarrow> sv_ct_eq env a b = (a = b))"

lemma safe_equal_iff: "ct_eq_ok env \<Longrightarrow> safe_equal env a b \<longleftrightarrow> a = b"
  by (auto simp: safe_equal_def ct_eq_ok_def)

lemma match_machine_iff:
  assumes "ct_eq_ok env" and "match_machine env supplied ts = Some p"
  shows "\<exists>m v. p = Machine m \<and> (m, v) \<in> set ts \<and> truthy_string (sv_ft env) (Some v) = Some supplied"
  using assms(2)
proof (induction ts)
  case (Cons t ts)
  obtain machine v where t: "t = (machine, v)" by (cases t)
  show ?case
  proof (cases "truthy_string (sv_ft env) (Some v) = Some supplied")
    case True
    then show ?thesis using Cons.prems t safe_equal_iff [OF assms(1)] by auto
  next
    case False
    then have "match_machine env supplied ts = Some p"
      using Cons.prems t safe_equal_iff [OF assms(1)] by (auto split: option.splits)
    from Cons.IH [OF this] show ?thesis by auto
  qed
qed simp

lemma match_machine_None:
  assumes "ct_eq_ok env"
  shows "match_machine env supplied ts = None \<longleftrightarrow>
     (\<forall>(m, v) \<in> set ts. truthy_string (sv_ft env) (Some v) \<noteq> Some supplied)"
  using safe_equal_iff [OF assms] by (induction ts) (auto split: option.splits if_splits)

text \<open>The tokens that are configured, with whom they stand for.\<close>

definition grants :: "server_env \<Rightarrow> json \<Rightarrow> string \<Rightarrow> principal \<Rightarrow> bool" where
  "grants env server_cfg token p \<longleftrightarrow>
     p = Global \<and> truthy_string (sv_ft env) (json_get server_cfg ''token'') = Some token
     \<or> (\<exists>m v. p = Machine m \<and> (m, v) \<in> set (token_map server_cfg) \<and> truthy_string (sv_ft env) (Some v) = Some token)"

definition auth_enabled :: "server_env \<Rightarrow> json \<Rightarrow> bool" where
  "auth_enabled env server_cfg \<longleftrightarrow>
     is_truthy (sv_ft env) (json_get server_cfg ''token'') \<or> token_map server_cfg \<noteq> []"

text \<open>C33: a request gets in only with a configured token. When no token is configured the server
  is open. Otherwise a request is accepted if and only if the token it carries is, byte for
  byte, one of the configured ones; what it may then do is what that token stands for; and a
  configured value that is no usable token (an object or an array) keeps the server closed.\<close>

theorem authentication_needs_token:
  assumes "ct_eq_ok env"
  shows "(authenticate env headers query server_cfg = Some Open \<longleftrightarrow> \<not> auth_enabled env server_cfg)
    \<and> (auth_enabled env server_cfg \<longrightarrow>
        (\<forall>p. authenticate env headers query server_cfg = Some p
           \<longrightarrow> grants env server_cfg (request_token env headers query) p)
        \<and> (authenticate env headers query server_cfg = None
           \<longleftrightarrow> (\<forall>p. \<not> grants env server_cfg (request_token env headers query) p)))"
proof -
  let ?t = "request_token env headers query" and ?ts = "token_map server_cfg"
  let ?l = "truthy_string (sv_ft env) (json_get server_cfg ''token'')"
  have eq: "authenticate env headers query server_cfg =
      (if \<not> auth_enabled env server_cfg then Some Open else if ?l = Some ?t then Some Global else match_machine env ?t ?ts)"
    using safe_equal_iff [OF assms] by (auto simp: authenticate_def auth_enabled_def Let_def split: option.splits)
  have some: "match_machine env ?t ?ts = Some p \<Longrightarrow> grants env server_cfg ?t p" for p
    using match_machine_iff [OF assms, of ?t ?ts p] by (auto simp: grants_def)
  have none: "match_machine env ?t ?ts = None \<Longrightarrow> ?l \<noteq> Some ?t \<Longrightarrow> \<not> grants env server_cfg ?t p" for p
    using match_machine_None [OF assms, of ?t ?ts] by (auto simp: grants_def)
  have "match_machine env ?t ?ts \<noteq> Some Open"
    using match_machine_iff [OF assms, of ?t ?ts Open] by auto
  moreover have "?l = Some ?t \<Longrightarrow> grants env server_cfg ?t Global" by (simp add: grants_def)
  ultimately show ?thesis
    unfolding eq using some none by (cases "match_machine env ?t ?ts") auto
qed

text \<open>A server with a global token and a token of one machine, and exact comparison.\<close>

definition server_demo_env :: server_env where
  "server_demo_env =
     \<lparr>sv_ft = demo_f64, sv_jt = \<lparr>jt_str = (\<lambda>_. []), jt_parse = (\<lambda>_. None)\<rparr>, sv_query = (\<lambda>_. []),
      sv_ct_eq = (=), sv_display = (\<lambda>_. ''1.5''), sv_ai = (\<lambda>_. False), sv_lower = id,
      sv_f64_bits = (\<lambda>_. 0), sv_sql_text = ''disk''\<rparr>"

definition demo_config :: json where
  "demo_config = JObject [(''token'', JString ''g''), (''tokens'', JObject [(''mac'', JString ''s'')])]"

lemma server_demo_env_ok: "ct_eq_ok server_demo_env"
  by (simp add: ct_eq_ok_def server_demo_env_def)

theorem authentication_needs_token_witness:
  "authenticate server_demo_env [''authorization'' \<mapsto> ''Bearer x''] [] demo_config = None
   \<and> authenticate server_demo_env [''authorization'' \<mapsto> ''Basic czo=''] [] demo_config = Some (Machine ''mac'')
   \<and> grants server_demo_env demo_config (request_token server_demo_env [''authorization'' \<mapsto> ''Basic czo=''] []) (Machine ''mac'')"
proof -
  have on: "auth_enabled server_demo_env demo_config"
    by (simp add: auth_enabled_def demo_config_def is_truthy_def)
  have "authenticate server_demo_env [''authorization'' \<mapsto> ''Basic czo=''] [] demo_config = Some (Machine ''mac'')"
    by code_simp
  moreover have "authenticate server_demo_env [''authorization'' \<mapsto> ''Bearer x''] [] demo_config = None"
    by code_simp
  moreover note authentication_needs_token [OF server_demo_env_ok, of "[''authorization'' \<mapsto> ''Basic czo='']" "[]" demo_config]
  ultimately show ?thesis using on by simp
qed

text \<open>The read guard does not always follow the authentication. With \<open>"token": []\<close> the server is locked
  for writes, as \<open>is_truthy\<close> intends, but the token's text is empty, so the read guard takes the
  server for one without tokens and lets every read through.\<close>

theorem array_token_leaves_reads_open:
  "authenticate env headers query (JObject [(''token'', JArray [])]) = None
   \<and> read_guard env (JObject [(''server'', JObject [(''token'', JArray [])])]) headers query"
  by (simp add: authenticate_def read_guard_def has_configured_tokens_def string_field_def is_truthy_def truthy_string_def
      token_map_def Let_def)

text \<open>Where the token's text is not empty or there is a token map the two agree: a request that the
  write routes refuse is refused by the read guard.\<close>

lemma read_guard_follows:
  assumes "authenticate env headers query s = None"
    and "string_field env (Some s) ''token'' [] \<noteq> [] \<or> token_map s \<noteq> []"
  shows "\<not> read_guard env (JObject [(''server'', s)]) headers query"
  using assms by (auto simp: read_guard_def has_configured_tokens_def server_section_def)

end
