(* ===== verification/Read_Api.thy ===== *)
theory Read_Api
  imports Reattribute Server_Auth Str_Ops
begin

text \<open>
  The read routes of the tracker server (\<open>crates/stackhour-server/src/read_api.rs\<close> and \<open>detail.rs\<close>).
  A route takes the configuration, the clock, the request and the database to an answer; a body
  is a record whose fields are the keys of the JSON object. \<open>sql i\<close> says that the \<open>i\<close>-th query
  fails. Doubles are finite reals and sums round after every addition.
\<close>

subsection \<open>Queries\<close>

datatype 'a answer = Unauthorized | BadRequest | DbFailed | Answer 'a

record summary_cfg =
  sc_cap_seconds :: real
  sc_last_event_credit_seconds :: real
  sc_join_gap_seconds :: real
  sc_reattribute_window_seconds :: real

definition query_get :: "(string \<times> string) list \<Rightarrow> string \<Rightarrow> string option" where
  "query_get q name = map_option snd (find (\<lambda>kv. fst kv = name) q)"

definition group_by :: "string option \<Rightarrow> string list" where
  "group_by raw =
     (let s = (case raw of Some s \<Rightarrow> if s = [] then ''project'' else s | None \<Rightarrow> ''project'');
          picked = filter (\<lambda>part. part \<in> set GROUP_FIELDS) (split_char CHR '','' s)
      in if picked = [] then [''project''] else picked)"

text \<open>\<open>iter().sum::<f64>()\<close>.\<close>

definition f64_sum :: "(real \<Rightarrow> real) \<Rightarrow> real list \<Rightarrow> real" where
  "f64_sum rnd xs = foldl (\<lambda>s x. rnd (s + x)) 0 xs"

definition credit_total :: "(real \<Rightarrow> real) \<Rightarrow> credited list \<Rightarrow> int" where
  "credit_total rnd cs = js_round (f64_sum rnd (map cr_credit cs))"

definition human_total :: "(real \<Rightarrow> real) \<Rightarrow> credited list \<Rightarrow> int" where
  "human_total rnd cs = credit_total rnd (filter (\<lambda>c. hb_actor (cr_row c) \<noteq> ''agent'') cs)"

definition token_total :: "(real \<Rightarrow> real) \<Rightarrow> heartbeat list \<Rightarrow> real" where
  "token_total rnd rows = f64_sum rnd (map (\<lambda>r. rnd (rnd (of_int (hb_tokens_in r)) + rnd (of_int (hb_tokens_out r)))) rows)"

definition cost_total :: "(real \<Rightarrow> real) \<Rightarrow> heartbeat list \<Rightarrow> real" where
  "cost_total rnd rows = round2 rnd (f64_sum rnd (map hb_cost rows))"

subsection \<open>\<open>/api/summary\<close>\<close>

record summary_body =
  sb_from :: real
  sb_to :: real
  sb_total :: int
  sb_human_total :: int
  sb_agent_total :: int
  sb_total_cost :: real
  sb_total_tokens :: real
  sb_totals :: "total_row list"
  sb_days :: "day_row list"

definition summary_of ::
  "(int \<Rightarrow> string option) \<Rightarrow> (real \<Rightarrow> real) \<Rightarrow> real \<Rightarrow> real \<Rightarrow> heartbeat list \<Rightarrow> credited list \<Rightarrow> string list \<Rightarrow> real
   \<Rightarrow> summary_body" where
  "summary_of date_of_days rnd from_t to_t rows credited keys tz =
     \<lparr>sb_from = from_t, sb_to = to_t, sb_total = credit_total rnd credited, sb_human_total = human_total rnd credited,
      sb_agent_total = credit_total rnd credited - human_total rnd credited,
      sb_total_cost = cost_total rnd rows, sb_total_tokens = token_total rnd rows,
      sb_totals = totals_by rnd credited keys, sb_days = day_buckets date_of_days rnd credited keys (f64_as_i64 tz)\<rparr>"

text \<open>The range of a request: the end, the number of days and the start.\<close>

definition read_range :: "f64_text \<Rightarrow> real \<Rightarrow> real \<Rightarrow> (string \<times> string) list \<Rightarrow> real \<times> real" where
  "read_range ft default_days clock q =
     (let days = number_param ft (query_get q ''days'') default_days (Some 1) (Some 366);
          to_t = number_param ft (query_get q ''to'') clock None None;
          from_t = number_param ft (query_get q ''from'') (ft_round ft (to_t - ft_round ft (days * 86400))) None None
      in (from_t, to_t))"

definition query_of :: "server_env \<Rightarrow> string option \<Rightarrow> (string \<times> string) list" where
  "query_of env query = sv_query env (case query of Some s \<Rightarrow> s | None \<Rightarrow> [])"

definition guarded ::
  "server_env \<Rightarrow> json \<Rightarrow> headers \<Rightarrow> string option \<Rightarrow> ((string \<times> string) list \<Rightarrow> 'a answer) \<Rightarrow> 'a answer" where
  "guarded env raw headers query f =
     (if \<not> read_guard env raw headers (case query of Some s \<Rightarrow> s | None \<Rightarrow> []) then Unauthorized
      else f (query_of env query))"

definition summary ::
  "server_env \<Rightarrow> (int \<Rightarrow> string option) \<Rightarrow> summary_cfg \<Rightarrow> (nat \<Rightarrow> bool) \<Rightarrow> json \<Rightarrow> real \<Rightarrow> headers \<Rightarrow> string option
   \<Rightarrow> tracker_db \<Rightarrow> summary_body answer" where
  "summary env date_of_days sc sql raw clock headers query db =
     guarded env raw headers query (\<lambda>q.
       let ft = sv_ft env; rnd = ft_round ft;
           (from_t, to_t) = read_range ft 1 clock q;
           keys = group_by (query_get q ''groupBy'');
           tz = number_param ft (query_get q ''tz'') 0 (Some (- 1440)) (Some 1440)
       in if sql 0 then DbFailed
          else
            (let rows = reattributed_range rnd db from_t to_t (sc_reattribute_window_seconds sc);
                 credited = compute_credits rnd rows (sc_cap_seconds sc) (sc_last_event_credit_seconds sc)
             in Answer (summary_of date_of_days rnd from_t to_t rows credited keys tz)))"

subsection \<open>\<open>/api/now\<close> and \<open>/api/timeline\<close>\<close>

definition now_key :: "heartbeat \<Rightarrow> string \<times> string \<times> string \<times> string" where
  "now_key r = (hb_actor r, hb_project r, hb_source r, hb_machine r)"

definition now_seen ::
  "heartbeat \<Rightarrow> ((string \<times> string \<times> string \<times> string) \<times> heartbeat) list
   \<Rightarrow> ((string \<times> string \<times> string \<times> string) \<times> heartbeat) list" where
  "now_seen r seen =
     (case map_of seen (now_key r) of
        Some prev \<Rightarrow> if hb_time r \<le> hb_time prev then seen else entry_update (now_key r) r (\<lambda>_. r) seen
      | None \<Rightarrow> entry_update (now_key r) r (\<lambda>_. r) seen)"

definition now_rows :: "heartbeat list \<Rightarrow> heartbeat list" where
  "now_rows rows = sort_key (\<lambda>r. - hb_time r) (map snd (foldl (\<lambda>seen r. now_seen r seen) [] rows))"

record now_row =
  nw_actor :: string
  nw_project :: string
  nw_source :: string
  nw_machine :: string
  nw_time :: real
  nw_entity :: string

definition now_row_of :: "heartbeat \<Rightarrow> now_row" where
  "now_row_of r =
     \<lparr>nw_actor = hb_actor r, nw_project = hb_project r, nw_source = hb_source r, nw_machine = hb_machine r,
      nw_time = hb_time r, nw_entity = hb_entity r\<rparr>"

definition now_route ::
  "server_env \<Rightarrow> summary_cfg \<Rightarrow> (nat \<Rightarrow> bool) \<Rightarrow> json \<Rightarrow> real \<Rightarrow> headers \<Rightarrow> string option \<Rightarrow> tracker_db
   \<Rightarrow> now_row list answer" where
  "now_route env sc sql raw clock headers query db =
     guarded env raw headers query (\<lambda>q.
       let ft = sv_ft env; rnd = ft_round ft;
           window_s = number_param ft (query_get q ''window'') 150 (Some 1) (Some 86400)
       in if sql 0 then DbFailed
          else Answer (map now_row_of
                 (now_rows (reattributed_range rnd db (rnd (clock - window_s)) clock (sc_reattribute_window_seconds sc)))))"

record timeline_body =
  tl_from :: real
  tl_to :: real
  tl_segments :: "segment_row list"

definition timeline ::
  "server_env \<Rightarrow> summary_cfg \<Rightarrow> (nat \<Rightarrow> bool) \<Rightarrow> json \<Rightarrow> real \<Rightarrow> headers \<Rightarrow> string option \<Rightarrow> tracker_db
   \<Rightarrow> timeline_body answer" where
  "timeline env sc sql raw clock headers query db =
     guarded env raw headers query (\<lambda>q.
       let ft = sv_ft env; rnd = ft_round ft;
           hours = number_param ft (query_get q ''hours'') 24 (Some (rnd (1 / 60))) (Some 336);
           to_t = number_param ft (query_get q ''to'') clock None None;
           from_t = rnd (to_t - rnd (hours * 3600))
       in if sql 0 then DbFailed
          else
            (let rows = reattributed_range rnd db from_t to_t (sc_reattribute_window_seconds sc);
                 credited = compute_credits rnd rows (sc_cap_seconds sc) (sc_last_event_credit_seconds sc)
             in Answer \<lparr>tl_from = from_t, tl_to = to_t, tl_segments = build_segments rnd credited (sc_join_gap_seconds sc)\<rparr>))"

subsection \<open>\<open>/api/recent\<close>\<close>

text \<open>The page, with the attribution of the rows around it.\<close>

definition recent_with_context :: "(real \<Rightarrow> real) \<Rightarrow> tracker_db \<Rightarrow> int \<Rightarrow> real \<Rightarrow> heartbeat list" where
  "recent_with_context rnd db limit window =
     (case recent_page db limit of
        [] \<Rightarrow> []
      | r # rs \<Rightarrow>
          (let min_time = foldl (\<lambda>m x. min m (hb_time x)) (hb_time r) rs;
               max_time = foldl (\<lambda>m x. max m (hb_time x)) (hb_time r) rs;
               context = rows_in_range db (rnd (min_time - window)) (rnd (max_time + window));
               by_id = map_of (rev (map (\<lambda>x. (hb_id x, x)) (reattribute_file_saves rnd context window)))
           in map (\<lambda>x. case by_id (hb_id x) of Some y \<Rightarrow> y | None \<Rightarrow> x) (r # rs)))"

definition recent ::
  "server_env \<Rightarrow> summary_cfg \<Rightarrow> (nat \<Rightarrow> bool) \<Rightarrow> json \<Rightarrow> headers \<Rightarrow> string option \<Rightarrow> tracker_db \<Rightarrow> heartbeat list answer" where
  "recent env sc sql raw headers query db =
     guarded env raw headers query (\<lambda>q.
       let ft = sv_ft env;
           limit = f64_as_i64 (of_int \<lfloor>number_param ft (query_get q ''limit'') 50 (Some 1) (Some 500)\<rfloor>)
       in if sql 0 \<or> recent_page db limit \<noteq> [] \<and> sql 1 then DbFailed
          else Answer (recent_with_context (ft_round ft) db limit (sc_reattribute_window_seconds sc)))"

subsection \<open>The other lists\<close>

definition select_wakatime_days :: "tracker_db \<Rightarrow> day_total list" where
  "select_wakatime_days db = sort_key dt_date (sort_key dt_project (td_wakatime_days db))"

definition wakatime_days ::
  "server_env \<Rightarrow> (nat \<Rightarrow> bool) \<Rightarrow> json \<Rightarrow> headers \<Rightarrow> string option \<Rightarrow> tracker_db \<Rightarrow> day_total list answer" where
  "wakatime_days env sql raw headers query db =
     guarded env raw headers query (\<lambda>_. if sql 0 then DbFailed else Answer (select_wakatime_days db))"

definition agent_status ::
  "server_env \<Rightarrow> (nat \<Rightarrow> bool) \<Rightarrow> json \<Rightarrow> real \<Rightarrow> headers \<Rightarrow> string option \<Rightarrow> tracker_db \<Rightarrow> agent_view list answer" where
  "agent_status env sql raw clock headers query db =
     guarded env raw headers query
       (\<lambda>_. if sql 0 then DbFailed else Answer (list_agent_status (sv_ft env) (sv_jt env) db clock))"

text \<open>The machine of the token; nothing for an open server and the global token.\<close>

definition auth_check :: "server_env \<Rightarrow> json \<Rightarrow> headers \<Rightarrow> string option \<Rightarrow> string option answer" where
  "auth_check env raw headers query =
     (case authenticate env headers (case query of Some s \<Rightarrow> s | None \<Rightarrow> []) (server_section JNull raw) of
        None \<Rightarrow> Unauthorized
      | Some (Machine m) \<Rightarrow> Answer (Some m)
      | Some _ \<Rightarrow> Answer None)"

subsection \<open>\<open>/api/detail\<close>\<close>

definition RECENT_LIMIT :: nat where
  "RECENT_LIMIT = 50"

definition BREAKDOWN_LIMIT :: nat where
  "BREAKDOWN_LIMIT = 20"

definition selector :: "(string \<times> string) list \<Rightarrow> (string \<times> string) option" where
  "selector q =
     (let dimension = (case query_get q ''dimension'' of Some d \<Rightarrow> d | None \<Rightarrow> []) in
      case query_get q ''value'' of
        None \<Rightarrow> None
      | Some value \<Rightarrow> if dimension \<in> set GROUP_FIELDS then Some (dimension, value) else None)"

definition matches :: "heartbeat \<Rightarrow> string \<Rightarrow> string \<Rightarrow> bool" where
  "matches row dimension value \<longleftrightarrow>
     (if value = [] then (case hb_field row dimension of Some (Some _) \<Rightarrow> False | _ \<Rightarrow> True)
      else field_label row dimension = value)"

record detail_body =
  db_from :: real
  db_to :: real
  db_dimension :: string
  db_value :: string
  db_total :: int
  db_human_total :: int
  db_agent_total :: int
  db_total_cost :: real
  db_total_tokens :: real
  db_breakdowns :: "(string \<times> total_row list) list"
  db_segments :: "segment_row list"
  db_recent :: "heartbeat list"

definition build_body ::
  "(real \<Rightarrow> real) \<Rightarrow> real \<Rightarrow> real \<Rightarrow> string \<Rightarrow> string \<Rightarrow> heartbeat list \<Rightarrow> credited list \<Rightarrow> real \<Rightarrow> detail_body" where
  "build_body rnd from_t to_t dimension value raw credited join_gap =
     (let selected_rows = filter (\<lambda>r. matches r dimension value) raw;
          selected_credits = filter (\<lambda>c. matches (cr_row c) dimension value) credited
      in \<lparr>db_from = from_t, db_to = to_t, db_dimension = dimension, db_value = value,
          db_total = credit_total rnd selected_credits, db_human_total = human_total rnd selected_credits,
          db_agent_total = credit_total rnd selected_credits - human_total rnd selected_credits,
          db_total_cost = cost_total rnd selected_rows, db_total_tokens = token_total rnd selected_rows,
          db_breakdowns = map (\<lambda>f. (f, take BREAKDOWN_LIMIT (totals_by rnd selected_credits [f])))
            (filter (\<lambda>f. f \<noteq> dimension) GROUP_FIELDS),
          db_segments = build_segments rnd selected_credits join_gap,
          db_recent = take RECENT_LIMIT (sort_key (\<lambda>r. - hb_time r) selected_rows)\<rparr>)"

definition detail ::
  "server_env \<Rightarrow> summary_cfg \<Rightarrow> (nat \<Rightarrow> bool) \<Rightarrow> json \<Rightarrow> real \<Rightarrow> headers \<Rightarrow> string option \<Rightarrow> tracker_db
   \<Rightarrow> detail_body answer" where
  "detail env sc sql raw clock headers query db =
     guarded env raw headers query (\<lambda>q.
       case selector q of
         None \<Rightarrow> BadRequest
       | Some (dimension, value) \<Rightarrow>
           (let ft = sv_ft env; rnd = ft_round ft; (from_t, to_t) = read_range ft 7 clock q
            in if sql 0 then DbFailed
               else
                 (let rows = reattributed_range rnd db from_t to_t (sc_reattribute_window_seconds sc);
                      credited = compute_credits rnd rows (sc_cap_seconds sc) (sc_last_event_credit_seconds sc)
                  in Answer (build_body rnd from_t to_t dimension value rows credited (sc_join_gap_seconds sc)))))"

subsection \<open>Details add up\<close>

lemma f64_sum_totals: "f64_sum rnd (map cr_credit cs) = tt_seconds (foldl (\<lambda>t c. add_totals rnd c t) no_totals cs)"
  by (induction cs rule: rev_induct) (simp_all add: f64_sum_def no_totals_def add_totals_def)

lemma matches_label: "v \<noteq> [] \<Longrightarrow> matches row dimension v \<longleftrightarrow> field_label row dimension = v"
  by (simp add: matches_def)

lemma detail_total:
  assumes "v \<noteq> []"
  shows "db_total (build_body rnd a b dimension v rows credited gap)
    = to_seconds (total_row_of rnd [dimension] ([v],
        foldl (\<lambda>t c. add_totals rnd c t) no_totals (filter (\<lambda>c. labels (cr_row c) [dimension] = [v]) credited)))"
  by (simp add: build_body_def Let_def credit_total_def f64_sum_totals total_row_of_def matches_label [OF assms] labels_def)

lemma totals_by_rows:
  assumes "t \<in> set (totals_by rnd credited [dimension])"
  obtains c where "c \<in> set credited" "to_parts t = [(dimension, field_label (cr_row c) dimension)]"
    "t = total_row_of rnd [dimension] ([field_label (cr_row c) dimension],
        foldl (\<lambda>t c. add_totals rnd c t) no_totals
          (filter (\<lambda>x. labels (cr_row x) [dimension] = [field_label (cr_row c) dimension]) credited))"
  using assms unfolding totals_by_spec by (auto simp: labels_def total_row_of_def)

subsection \<open>The attribution of a page\<close>

lemma foldl_min: "foldl (\<lambda>m x. min m (f x)) (a::real) xs \<le> a \<and> (\<forall>x \<in> set xs. foldl (\<lambda>m x. min m (f x)) a xs \<le> f x)"
proof (induction xs arbitrary: a)
  case (Cons x xs)
  show ?case using Cons [of "min a (f x)"] by auto
qed simp

lemma foldl_max: "(a::real) \<le> foldl (\<lambda>m x. max m (f x)) a xs \<and> (\<forall>x \<in> set xs. f x \<le> foldl (\<lambda>m x. max m (f x)) a xs)"
proof (induction xs arbitrary: a)
  case (Cons x xs)
  show ?case using Cons [of "max a (f x)"] by auto
qed simp

lemma foldl_min_mem: "foldl (\<lambda>m x. min m (f x)) (f (y :: 'a) :: real) xs \<in> f ` set (y # xs)"
proof (induction xs arbitrary: y)
  case (Cons x xs)
  show ?case using Cons [of y] Cons [of x] by (cases "f y \<le> f x") (auto simp: min_def)
qed simp

lemma foldl_max_mem: "foldl (\<lambda>m x. max m (f x)) (f (y :: 'a) :: real) xs \<in> f ` set (y # xs)"
proof (induction xs arbitrary: y)
  case (Cons x xs)
  show ?case using Cons [of y] Cons [of x] by (cases "f y \<le> f x") (auto simp: max_def)
qed simp

lemma apply_patch_id [simp]: "hb_id (apply_patch r p) = hb_id r"
  by (cases p) (simp_all add: apply_patch_def)

lemma recent_page_mem: "r \<in> set (recent_page db limit) \<Longrightarrow> r \<in> set (td_heartbeats db)"
  by (auto simp: recent_page_def Let_def dest: in_set_takeD split: if_splits)

lemma ids_in_range: "distinct (map hb_id (td_heartbeats db)) \<Longrightarrow> distinct (map hb_id (rows_in_range db a b))"
proof -
  assume "distinct (map hb_id (td_heartbeats db))"
  then have "distinct (map hb_id (ordered_rows db))"
    unfolding ordered_rows_def by (metis distinct_map distinct_sort set_sort)
  then show ?thesis unfolding rows_in_range_filter by (rule distinct_map_filter)
qed

lemma patched_by_id:
  assumes "distinct (map hb_id rows)" and "x \<in> set rows"
  shows "map_of (rev (map (\<lambda>y. (hb_id y, y)) (map (\<lambda>r. apply_patch r (f r)) rows))) (hb_id x) = Some (apply_patch x (f x))"
proof -
  let ?l = "rev (map (\<lambda>y. (hb_id y, y)) (map (\<lambda>r. apply_patch r (f r)) rows))"
  have "map fst ?l = rev (map hb_id rows)" by (simp add: rev_map [symmetric] comp_def)
  then have "distinct (map fst ?l)" using assms(1) by simp
  moreover have "(hb_id x, apply_patch x (f x)) \<in> set ?l" using assms(2) by force
  ultimately show ?thesis by simp
qed

subsection \<open>Properties\<close>

text \<open>The details add up to the summary. For a report over the same rows grouped by one field,
  the total of \<open>/api/detail\<close> for the label of each row of the summary is exactly that row's
  seconds, rounding included. And for credits in whole seconds these totals add up to the total
  of the summary: credits are computed before the rows are selected, so no time is lost or
  counted twice between the details. A label that is empty cannot be selected and is excluded.\<close>

theorem details_add_up_to_summary:
  fixes rnd date_of_days a b rows credited dimension tz gap
  assumes "list_all (\<lambda>c. field_label (cr_row c) dimension \<noteq> []) credited"
    and "exact_integers rnd" and "whole_seconds credited"
  defines "s \<equiv> summary_of date_of_days rnd a b rows credited [dimension] tz"
    and "detail_of \<equiv> \<lambda>t. db_total (build_body rnd a b dimension (snd (hd (to_parts t))) rows credited gap)"
  shows "map detail_of (sb_totals s) = map to_seconds (sb_totals s)
    \<and> sum_list (map detail_of (sb_totals s)) = sb_total s"
proof -
  have one: "detail_of t = to_seconds t" if t: "t \<in> set (totals_by rnd credited [dimension])" for t
  proof -
    obtain c where c: "c \<in> set credited" "to_parts t = [(dimension, field_label (cr_row c) dimension)]"
        "t = total_row_of rnd [dimension] ([field_label (cr_row c) dimension],
          foldl (\<lambda>t c. add_totals rnd c t) no_totals
            (filter (\<lambda>x. labels (cr_row x) [dimension] = [field_label (cr_row c) dimension]) credited))"
      by (rule totals_by_rows [OF t])
    have "field_label (cr_row c) dimension \<noteq> []" using assms(1) c(1) by (auto simp: list_all_iff)
    from detail_total [OF this] c(2,3) show ?thesis by (simp add: detail_of_def)
  qed
  then have eq: "map detail_of (sb_totals s) = map to_seconds (sb_totals s)" by (simp add: s_def summary_of_def)
  have "real_of_int (sum_list (map to_seconds (sb_totals s))) = credit_sum credited"
    by (simp add: s_def summary_of_def totals_sum_credit [OF assms(2,3)])
  also have "\<dots> = real_of_int (sb_total s)"
    using js_round_whole [OF assms(3)] totals_exact [OF assms(2,3)]
    by (simp add: s_def summary_of_def credit_total_def f64_sum_totals)
  finally have "sum_list (map to_seconds (sb_totals s)) = sb_total s" by (simp only: of_int_eq_iff)
  with eq show ?thesis by (simp only:)
qed

theorem details_add_up_to_summary_witness:
  "map to_seconds (sb_totals (summary_of (\<lambda>_. None) id 0 9 []
      [\<lparr>cr_row = demo_beat 0 ''human'' ''p'', cr_credit = 10\<rparr>, \<lparr>cr_row = demo_beat 10 ''human'' ''q'', cr_credit = 60\<rparr>]
      [''project''] 0)) = [60, 10]
   \<and> sum_list (map (\<lambda>t. db_total (build_body id 0 9 ''project'' (snd (hd (to_parts t))) []
      [\<lparr>cr_row = demo_beat 0 ''human'' ''p'', cr_credit = 10\<rparr>, \<lparr>cr_row = demo_beat 10 ''human'' ''q'', cr_credit = 60\<rparr>] 300))
      (sb_totals (summary_of (\<lambda>_. None) id 0 9 []
      [\<lparr>cr_row = demo_beat 0 ''human'' ''p'', cr_credit = 10\<rparr>, \<lparr>cr_row = demo_beat 10 ''human'' ''q'', cr_credit = 60\<rparr>]
      [''project''] 0))) = 70"
proof -
  let ?cs = "[\<lparr>cr_row = demo_beat 0 ''human'' ''p'', cr_credit = 10\<rparr>, \<lparr>cr_row = demo_beat 10 ''human'' ''q'', cr_credit = 60\<rparr>]"
  have l: "list_all (\<lambda>c. field_label (cr_row c) ''project'' \<noteq> []) ?cs"
    by (simp add: field_label_def hb_field_def demo_beat_def)
  have e: "exact_integers id" by (simp add: exact_integers_def)
  have "\<exists>k. 0 \<le> k \<and> (60 :: real) = of_int k" "\<exists>k. 0 \<le> k \<and> (10 :: real) = of_int k"
    by (rule exI [of _ 60], simp) (rule exI [of _ 10], simp)
  then have w: "whole_seconds ?cs" by (simp add: whole_seconds_def credit_sum_def)
  have "map to_seconds (sb_totals (summary_of (\<lambda>_. None) id 0 9 [] ?cs [''project''] 0)) = [60, 10]"
    by (simp add: summary_of_def totals_by_spec labels_def field_label_def hb_field_def demo_beat_def total_row_of_def
        add_totals_def no_totals_def js_round_def js_round_f64_def)
  moreover have "sb_total (summary_of (\<lambda>_. None) id 0 9 [] ?cs [''project''] 0) = 70"
    by (simp add: summary_of_def credit_total_def f64_sum_def js_round_def js_round_f64_def)
  ultimately show ?thesis
    using details_add_up_to_summary [OF l e w, where date_of_days = "\<lambda>_. None" and a = 0 and b = 9 and rows = "[]" and tz = 0 and gap = 300] by (simp only:) simp
qed

text \<open>The newest rows are attributed as in the whole table. Although \<open>/api/recent\<close> reattributes only
  the rows around its page, every row of the page comes out with the actor and source that
  reattributing the complete table gives it, and the page keeps its order, as long as the
  differences and window bounds of the stored times are exact doubles.\<close>

theorem recent_attribution_is_global:
  assumes "tracker_ok db" and "0 \<le> w" and "exact_differences rnd db"
    and "list_all (\<lambda>r. rnd (hb_time r - w) = hb_time r - w \<and> rnd (hb_time r + w) = hb_time r + w) (td_heartbeats db)"
  shows "recent_with_context rnd db limit w
    = map (\<lambda>r. apply_patch r (patch_of rnd w (ordered_rows db) r)) (recent_page db limit)"
proof (cases "recent_page db limit")
  case (Cons r rs)
  define lo where "lo = foldl (\<lambda>m x. min m (hb_time x)) (hb_time r) rs"
  define hi where "hi = foldl (\<lambda>m x. max m (hb_time x)) (hb_time r) rs"
  have bounds: "lo \<le> hb_time x" "hb_time x \<le> hi" if "x \<in> set (r # rs)" for x
    using that foldl_min [of hb_time "hb_time r" rs] foldl_max [of "hb_time r" hb_time rs] by (auto simp: lo_def hi_def)
  have mem: "x \<in> set (td_heartbeats db)" if "x \<in> set (r # rs)" for x
    using recent_page_mem [of x db limit] that Cons by simp
  have ends: "\<exists>x \<in> set (r # rs). lo = hb_time x" "\<exists>x \<in> set (r # rs). hi = hb_time x"
    using foldl_min_mem [of hb_time r rs] foldl_max_mem [of hb_time r rs] by (auto simp: lo_def hi_def)
  then have rounded: "rnd (lo - w) = lo - w" "rnd (hi + w) = hi + w"
    using assms(4) mem by (auto simp: list_all_iff)
  let ?ctx = "rows_in_range db (lo - w) (hi + w)"
  have one: "map_of (rev (map (\<lambda>y. (hb_id y, y)) (reattribute_file_saves rnd ?ctx w))) (hb_id x)
      = Some (apply_patch x (patch_of rnd w (ordered_rows db) x))" if "x \<in> set (r # rs)" for x
  proof -
    have "x \<in> set ?ctx" using mem [OF that] bounds [OF that] assms(2) by (simp add: rows_in_range_filter)
    moreover have "distinct (map hb_id ?ctx)" using assms(1) by (intro ids_in_range) (simp add: tracker_ok_def)
    moreover have "patch_of rnd w ?ctx x = patch_of rnd w (ordered_rows db) x"
      by (rule patch_of_widened [OF assms(2,3) mem [OF that]]) (use bounds [OF that] in auto)
    ultimately show ?thesis using patched_by_id [of ?ctx x "patch_of rnd w ?ctx"] by (simp add: reattribute_map)
  qed
  have "recent_with_context rnd db limit w
      = map (\<lambda>x. case map_of (rev (map (\<lambda>y. (hb_id y, y)) (reattribute_file_saves rnd ?ctx w))) (hb_id x) of
            Some y \<Rightarrow> y | None \<Rightarrow> x) (r # rs)"
    unfolding recent_with_context_def Cons list.case Let_def lo_def [symmetric] hi_def [symmetric] rounded ..
  also have "\<dots> = map (\<lambda>r. apply_patch r (patch_of rnd w (ordered_rows db) r)) (r # rs)"
    by (rule map_cong [OF refl]) (simp only: one option.case)
  finally show ?thesis by (simp only: Cons)
qed (simp add: recent_with_context_def)

text \<open>A page of one row whose attribution depends on an edit that is not on the page.\<close>

theorem recent_attribution_is_global_witness:
  "map hb_source (recent_with_context id
      (empty_tracker\<lparr>td_heartbeats := [(save_at 10)\<lparr>hb_id := 1\<rparr>, (edit_at 5 ''early'')\<lparr>hb_id := 2\<rparr>]\<rparr>) 1 60) = [''early'']"
proof -
  let ?db = "empty_tracker\<lparr>td_heartbeats := [(save_at 10)\<lparr>hb_id := 1\<rparr>, (edit_at 5 ''early'')\<lparr>hb_id := 2\<rparr>]\<rparr>"
  have ok: "tracker_ok ?db"
    by (simp add: tracker_ok_def empty_tracker_def keys_of_def dedupe_key_def save_at_def edit_at_def demo_beat_def)
  have eq: "recent_with_context id ?db 1 60 = map (\<lambda>r. apply_patch r (patch_of id 60 (ordered_rows ?db) r)) (recent_page ?db 1)"
    by (rule recent_attribution_is_global [OF ok]) (simp_all add: exact_differences_def)
  show ?thesis
    unfolding eq
    by (simp add: recent_page_def ordered_rows_def patch_of_def edits_by_entity_def is_agent_edit_def save_at_def edit_at_def
        demo_beat_def nearest_edit_candidates candidates_def consider_edit_def apply_patch_def)
qed

end
