(* ===== verification/Ingest.thy ===== *)
theory Ingest
  imports Server_Auth
begin

text \<open>
  The POST routes of the tracker server (\<open>crates/stackhour-server/src/ingest.rs\<close>, with the answers of
  \<open>lib.rs\<close>). A handler takes the configuration, the request (headers, raw query, raw body), the
  clock and the database to a response and the database after it; \<open>sql\<close> says which SQL
  statements fail. The parser of the body is \<open>sv_jt env\<close>.
\<close>

subsection \<open>Answers\<close>

definition BODY_LIMIT :: nat where
  "BODY_LIMIT = 5 * 1024 * 1024"

record response =
  rs_status :: nat
  rs_body :: json

definition json_response :: "nat \<Rightarrow> json \<Rightarrow> response" where
  "json_response status body = \<lparr>rs_status = status, rs_body = body\<rparr>"

definition json_error :: "nat \<Rightarrow> string \<Rightarrow> response" where
  "json_error status message = json_response status (JObject [(''error'', JString message)])"

definition db_message :: "server_env \<Rightarrow> db_error \<Rightarrow> string" where
  "db_message env e = (case e of SqlFailure \<Rightarrow> sv_sql_text env | InvalidAgentStatus \<Rightarrow> ''invalid agent status'')"

text \<open>No error of the database carries a status code, so the catch-all answers 500.\<close>

definition api_error :: "server_env \<Rightarrow> db_error \<Rightarrow> response" where
  "api_error env e = json_error 500 (db_message env e)"

definition read_json :: "server_env \<Rightarrow> string \<Rightarrow> (response, json) result" where
  "read_json env body =
     (if length body > BODY_LIMIT then Inl (json_error 413 ''body too large'')
      else
        (case jt_parse (sv_jt env) body of
           None \<Rightarrow> Inl (json_error 400 ''invalid JSON'')
         | Some v \<Rightarrow> Inr v))"

record request =
  rq_headers :: headers
  rq_query :: "string option"
  rq_body :: string

definition principal_or_401 :: "server_env \<Rightarrow> json \<Rightarrow> request \<Rightarrow> (response, principal) result" where
  "principal_or_401 env raw rq =
     (case authenticate env (rq_headers rq) (case rq_query rq of Some q \<Rightarrow> q | None \<Rightarrow> [])
        (server_section (JObject []) raw) of
        Some p \<Rightarrow> Inr p
      | None \<Rightarrow> Inl (json_error 401 ''unauthorized''))"

definition scope_denied :: "principal \<Rightarrow> response" where
  "scope_denied p =
     json_error 403 (''token is restricted to machine '' @ (case p of Machine m \<Rightarrow> m | _ \<Rightarrow> []))"

definition row_machine :: "f64_text \<Rightarrow> json \<Rightarrow> string" where
  "row_machine ft row =
     (case json_get row ''machine'' of
        Some v \<Rightarrow> if js_truthy (ft_round ft) v then js_display ft v else ''unknown''
      | None \<Rightarrow> ''unknown'')"

definition machine_header :: "headers \<Rightarrow> string" where
  "machine_header headers =
     (case headers ''x-machine-name'' of Some v \<Rightarrow> if v = [] then ''unknown'' else v | None \<Rightarrow> ''unknown'')"

definition json_count :: "int \<Rightarrow> json" where
  "json_count n = JNum (PosInt (word_of_int n))"

subsection \<open>The handlers\<close>

definition ingest_handler ::
  "server_env \<Rightarrow> (nat \<Rightarrow> bool) \<Rightarrow> json \<Rightarrow> real \<Rightarrow> request \<Rightarrow> tracker_db \<Rightarrow> response \<times> tracker_db" where
  "ingest_handler env sql raw now rq db =
     (case principal_or_401 env raw rq of
        Inl res \<Rightarrow> (res, db)
      | Inr p \<Rightarrow>
          (case read_json env (rq_body rq) of
             Inl res \<Rightarrow> (res, db)
           | Inr (JArray rows) \<Rightarrow>
               if list_ex (\<lambda>row. \<not> allows_machine p (Some (row_machine (sv_ft env) row))) rows then
                 (scope_denied p, db)
               else
                 (case insert_heartbeats sql (sv_ft env) now rows db of
                    (Inr inserted, db') \<Rightarrow>
                      (json_response 200
                         (JObject [(''inserted'', json_count inserted), (''received'', json_count (int (length rows)))]), db')
                  | (Inl e, db') \<Rightarrow> (api_error env e, db'))
           | Inr _ \<Rightarrow> (json_error 400 ''expected array'', db)))"

definition is_json_object :: "json \<Rightarrow> bool" where
  "is_json_object v = (case v of JObject _ \<Rightarrow> True | _ \<Rightarrow> False)"

definition agent_status_handler ::
  "server_env \<Rightarrow> (nat \<Rightarrow> bool) \<Rightarrow> json \<Rightarrow> real \<Rightarrow> request \<Rightarrow> tracker_db \<Rightarrow> response \<times> tracker_db" where
  "agent_status_handler env sql raw now rq db =
     (case principal_or_401 env raw rq of
        Inl res \<Rightarrow> (res, db)
      | Inr p \<Rightarrow>
          (case read_json env (rq_body rq) of
             Inl res \<Rightarrow> (res, db)
           | Inr status \<Rightarrow>
               if \<not> is_json_object status then (json_error 400 ''expected object'', db)
               else if \<not> allows_machine p (Some (row_machine (sv_ft env) status)) then (scope_denied p, db)
               else
                 (case upsert_agent_status sql (sv_ft env) (sv_jt env) status now db of
                    (Inr ack, db') \<Rightarrow>
                      (json_response 200
                         (JObject [(''machine'', JString (sa_machine ack)),
                            (''serverTime'', JNum (json_num (sv_f64_bits env) (Finite (sa_server_time ack)))),
                            (''clockSkewSeconds'', JNum (json_num (sv_f64_bits env) (Finite (sa_clock_skew ack))))]), db')
                  | (Inl e, db') \<Rightarrow> (json_error 400 (db_message env e), db'))))"

subsection \<open>The WakaTime protocol\<close>

definition echo_pair :: "json \<Rightarrow> json" where
  "echo_pair h =
     (let entity = (case json_get h ''entity'' of Some e \<Rightarrow> [(''entity'', e)] | None \<Rightarrow> []);
          time = (case json_get h ''time'' of Some t \<Rightarrow> [(''time'', t)] | None \<Rightarrow> [])
      in JArray [JObject [(''data'', JObject ([(''id'', JNull)] @ entity @ time))], json_count 201])"

definition or_value :: "f64_text \<Rightarrow> json \<Rightarrow> string \<Rightarrow> json \<Rightarrow> json" where
  "or_value ft h key fallback =
     (case json_get h key of Some v \<Rightarrow> if js_truthy (ft_round ft) v then v else fallback | None \<Rightarrow> fallback)"

definition from_wakatime :: "server_env \<Rightarrow> json \<Rightarrow> headers \<Rightarrow> json" where
  "from_wakatime env h headers =
     (let ft = sv_ft env;
          truthy_display = (\<lambda>key d. case json_get h key of
              Some v \<Rightarrow> if js_truthy (ft_round ft) v then js_display ft v else d | None \<Rightarrow> d);
          ua = (case headers ''user-agent'' of Some u \<Rightarrow> u | None \<Rightarrow> []);
          plugin = truthy_display ''plugin'' (if ua = [] then ''wakatime-plugin'' else ua);
          token = takeWhile (\<lambda>c. c \<noteq> CHR '' '') plugin;
          first_token = (if token = [] then ''wakatime-plugin'' else token);
          source = sv_lower env (takeWhile (\<lambda>c. c \<noteq> CHR ''/'') first_token);
          time = (case json_get h ''time'' of Some v \<Rightarrow> js_number ft v | None \<Rightarrow> NotANumber);
          actor = (if sv_ai env (truthy_display ''category'' []) then ''agent'' else ''human'');
          project = or_value ft h ''project'' (or_value ft h ''alternate_project'' (JString ''unknown''))
      in JObject
           [(''time'', (case time of Finite t \<Rightarrow> JNum (json_num (sv_f64_bits env) (Finite t)) | _ \<Rightarrow> JNull)),
            (''machine'', JString (machine_header headers)),
            (''source'', JString source),
            (''project'', project),
            (''entity'', or_value ft h ''entity'' (JString ''unknown'')),
            (''entity_type'', JString (if json_get h ''type'' = Some (JString ''app'') then ''app'' else ''file'')),
            (''category'', or_value ft h ''category'' (JString ''coding'')),
            (''language'', or_value ft h ''language'' JNull),
            (''branch'', or_value ft h ''branch'' JNull),
            (''is_write'', json_count (case json_get h ''is_write'' of
               Some v \<Rightarrow> if js_truthy (ft_round ft) v then 1 else 0 | None \<Rightarrow> 0)),
            (''actor'', JString actor)])"

definition wakatime_handler ::
  "server_env \<Rightarrow> (nat \<Rightarrow> bool) \<Rightarrow> json \<Rightarrow> real \<Rightarrow> request \<Rightarrow> tracker_db \<Rightarrow> response \<times> tracker_db" where
  "wakatime_handler env sql raw now rq db =
     (case principal_or_401 env raw rq of
        Inl res \<Rightarrow> (res, db)
      | Inr p \<Rightarrow>
          (case read_json env (rq_body rq) of
             Inl res \<Rightarrow> (res, db)
           | Inr parsed \<Rightarrow>
               (let items = (case parsed of JArray items \<Rightarrow> items | other \<Rightarrow> [other]);
                    headers = rq_headers rq
                in if \<not> allows_machine p (Some (machine_header headers)) then (scope_denied p, db)
                   else if list_ex (\<lambda>h. h = JNull) items then
                     (json_error 500 (''Cannot read properties of null (reading '' @ [CHR 0x27] @ ''plugin'' @ [CHR 0x27] @ '')''), db)
                   else
                     (case insert_heartbeats sql (sv_ft env) now (map (\<lambda>h. from_wakatime env h headers) items) db of
                        (Inl e, db') \<Rightarrow> (api_error env e, db')
                      | (Inr _, db') \<Rightarrow>
                          (json_response 202 (JObject [(''responses'', JArray (map echo_pair items))]), db')))))"

subsection \<open>What a request can change\<close>

lemma insert_loop_rows:
  "insert_loop sql ft now i rows t n = Some (j, t', m) \<Longrightarrow>
     \<exists>new. t' = t @ new \<and> (\<forall>r \<in> set new. \<exists>h \<in> set rows. hb_machine r = row_machine ft h)"
proof (induction sql ft now i rows t n rule: insert_loop.induct)
  case (2 sql ft now i h rows t n)
  show ?case
  proof (cases "finite_time ft h")
    case None
    then show ?thesis using "2.IH"(1) "2.prems" by fastforce
  next
    case (Some time)
    have ok: "\<not> sql i" using "2.prems" Some by (auto split: if_splits)
    obtain t1 c where ins: "insert_or_ignore (row_of_json ft now time h) t = (t1, c)" by fastforce
    then obtain mid where mid: "t1 = t @ mid" "\<forall>r \<in> set mid. hb_machine r = row_machine ft h"
      by (auto simp: insert_or_ignore_def row_of_json_def js_string_or_def row_machine_def split: if_splits)
    obtain new where "t' = t1 @ new" "\<forall>r \<in> set new. \<exists>h \<in> set rows. hb_machine r = row_machine ft h"
      using "2.IH"(2) [OF Some ok refl ins [symmetric]] "2.prems" Some ok ins by auto
    then show ?thesis using mid by (intro exI [of _ "mid @ new"]) auto
  qed
qed auto

lemma insert_heartbeats_rows:
  assumes "insert_heartbeats sql ft now rows db = (r, db')"
  shows "\<exists>new. db' = db\<lparr>td_heartbeats := td_heartbeats db @ new\<rparr>
     \<and> (\<forall>x \<in> set new. \<exists>h \<in> set rows. hb_machine x = row_machine ft h)"
  using assms
proof (cases rule: insert_heartbeats_cases)
  case (stored i t n)
  then show ?thesis using insert_loop_rows [OF stored(3)] by auto
qed (auto intro: exI [of _ "[]"])

lemma machine_header_nonempty: "machine_header headers \<noteq> []"
  by (simp add: machine_header_def split: option.splits)

lemma from_wakatime_machine: "row_machine ft (from_wakatime env h headers) = machine_header headers"
  by (simp add: row_machine_def from_wakatime_def Let_def machine_header_nonempty)

text \<open>The machine of a token, and the empty name that counts as \<open>unknown\<close>.\<close>

definition own_machine :: "string \<Rightarrow> string \<Rightarrow> bool" where
  "own_machine owner m \<longleftrightarrow> m = owner \<or> owner = ''unknown'' \<and> m = []"

lemma allows_own: "allows_machine (Machine owner) (Some m) \<Longrightarrow> own_machine owner m"
  by (auto simp: allows_machine_def own_machine_def split: if_splits)

lemma upsert_agent_status_cases:
  assumes "upsert_agent_status sql ft jt status now db = (r, db')"
  obtains (refused) e where "r = Inl e" "db' = db"
  | (stored) ack row where "r = Inr ack"
      "ag_machine row = slice_utf16 (js_trim (js_string_or ft (json_get status ''machine'') [])) 200"
      "ag_machine row \<noteq> []" "db' = db\<lparr>td_agent_status := upsert_agent row (td_agent_status db)\<rparr>"
proof (cases "(\<exists>x. (case json_get status ''time'' of Some v \<Rightarrow> js_number ft v | None \<Rightarrow> NotANumber) = Finite x)
    \<and> slice_utf16 (js_trim (js_string_or ft (json_get status ''machine'') [])) 200 \<noteq> [] \<and> \<not> sql 0 \<and> \<not> sql 1")
  case True
  then have "\<exists>ack row. upsert_agent_status sql ft jt status now db
        = (Inr ack, db\<lparr>td_agent_status := upsert_agent row (td_agent_status db)\<rparr>)
      \<and> ag_machine row = slice_utf16 (js_trim (js_string_or ft (json_get status ''machine'') [])) 200"
    unfolding upsert_agent_status_def Let_def by (elim conjE exE) (simp, intro exI conjI, rule refl, simp)
  then show thesis using assms True by (auto intro: stored)
next
  case False
  then have "upsert_agent_status sql ft jt status now db \<in> range Inl \<times> {db}"
    unfolding upsert_agent_status_def Let_def by (auto split: f64_value.splits)
  then show thesis using assms by (auto intro: refused)
qed

lemma blank_machine: "slice_utf16 (js_trim []) n = []"
  by (simp add: slice_utf16_def js_trim_def trim_matches_def)

lemma status_machine:
  assumes "allows_machine (Machine owner) (Some (row_machine ft status))"
    and "slice_utf16 (js_trim (js_string_or ft (json_get status ''machine'') [])) 200 = m" and "m \<noteq> []"
  shows "m = slice_utf16 (js_trim owner) 200"
proof -
  have "js_string_or ft (json_get status ''machine'') [] \<noteq> []" using assms(2,3) blank_machine by metis
  then have "js_string_or ft (json_get status ''machine'') [] = owner"
    using allows_own [OF assms(1)]
    by (auto simp: js_string_or_def row_machine_def own_machine_def split: option.splits if_splits)
  then show ?thesis using assms(2) by simp
qed

definition adds_own :: "string \<Rightarrow> tracker_db \<Rightarrow> tracker_db \<Rightarrow> bool" where
  "adds_own owner db db' \<longleftrightarrow>
     (\<exists>new. db' = db\<lparr>td_heartbeats := td_heartbeats db @ new\<rparr> \<and> list_all (\<lambda>r. own_machine owner (hb_machine r)) new)"

lemma adds_own_refl: "adds_own owner db db"
  by (auto simp: adds_own_def intro: exI [of _ "[]"])

lemma insert_adds_own:
  assumes "\<forall>h \<in> set rows. own_machine owner (row_machine ft h)"
  shows "adds_own owner db (snd (insert_heartbeats sql ft now rows db))"
proof -
  obtain r db' where ins: "insert_heartbeats sql ft now rows db = (r, db')" by fastforce
  obtain new where new: "db' = db\<lparr>td_heartbeats := td_heartbeats db @ new\<rparr>"
      "\<forall>x \<in> set new. \<exists>h \<in> set rows. hb_machine x = row_machine ft h"
    using insert_heartbeats_rows [OF ins] by blast
  have "list_all (\<lambda>x. own_machine owner (hb_machine x)) new"
    unfolding list_all_iff using new(2) assms by metis
  then show ?thesis using ins new(1) by (auto simp: adds_own_def)
qed

lemma ingest_adds_own:
  assumes "principal_or_401 env raw rq = Inr (Machine owner)"
  shows "adds_own owner db (snd (ingest_handler env sql raw now rq db))"
proof (cases "read_json env (rq_body rq)")
  case (Inr v)
  show ?thesis
  proof (cases v)
    case (JArray rows)
    show ?thesis
    proof (cases "list_ex (\<lambda>row. \<not> allows_machine (Machine owner) (Some (row_machine (sv_ft env) row))) rows")
      case False
      then have "\<forall>h \<in> set rows. own_machine owner (row_machine (sv_ft env) h)"
        using allows_own by (auto simp: list_ex_iff)
      from insert_adds_own [OF this, of db sql now] show ?thesis
        using False by (auto simp: ingest_handler_def assms Inr JArray split: prod.splits sum.splits)
    qed (simp add: ingest_handler_def assms Inr JArray adds_own_refl)
  qed (simp_all add: ingest_handler_def assms Inr adds_own_refl)
qed (simp add: ingest_handler_def assms adds_own_refl)

lemma wakatime_adds_own:
  assumes "principal_or_401 env raw rq = Inr (Machine owner)"
  shows "adds_own owner db (snd (wakatime_handler env sql raw now rq db))"
proof (cases "read_json env (rq_body rq)")
  case (Inr v)
  define items where "items = (case v of JArray items \<Rightarrow> items | other \<Rightarrow> [other])"
  let ?m = "machine_header (rq_headers rq)" and ?rows = "map (\<lambda>h. from_wakatime env h (rq_headers rq)) items"
  show ?thesis
  proof (cases "allows_machine (Machine owner) (Some ?m)")
    case True
    then have "\<forall>h \<in> set ?rows. own_machine owner (row_machine (sv_ft env) h)"
      using allows_own by (auto simp: from_wakatime_machine)
    from insert_adds_own [OF this, of db sql now] show ?thesis
      using True by (auto simp: wakatime_handler_def assms Inr items_def [symmetric] Let_def adds_own_refl
          split: prod.splits sum.splits)
  qed (simp add: wakatime_handler_def assms Inr Let_def adds_own_refl)
qed (simp add: wakatime_handler_def assms adds_own_refl)

lemma status_changes_own:
  assumes "principal_or_401 env raw rq = Inr (Machine owner)"
  shows "snd (agent_status_handler env sql raw now rq db) = db
    \<or> (\<exists>row. ag_machine row = slice_utf16 (js_trim owner) 200
         \<and> snd (agent_status_handler env sql raw now rq db) = db\<lparr>td_agent_status := upsert_agent row (td_agent_status db)\<rparr>)"
proof (cases "read_json env (rq_body rq)")
  case (Inr status)
  obtain r db' where up: "upsert_agent_status sql (sv_ft env) (sv_jt env) status now db = (r, db')" by fastforce
  show ?thesis
  proof (cases "is_json_object status \<and> allows_machine (Machine owner) (Some (row_machine (sv_ft env) status))")
    case True
    then have run: "snd (agent_status_handler env sql raw now rq db) = db'"
      by (simp add: agent_status_handler_def assms Inr up split: sum.splits)
    from up show ?thesis
    proof (cases rule: upsert_agent_status_cases)
      case (stored ack row)
      have "ag_machine row = slice_utf16 (js_trim owner) 200"
        using status_machine [OF _ stored(2) [symmetric] stored(3)] True by blast
      then show ?thesis using run stored(4) by blast
    qed (simp add: run)
  qed (auto simp: agent_status_handler_def assms Inr)
qed (simp add: agent_status_handler_def assms)

subsection \<open>Properties\<close>

text \<open>C8: a token of one machine writes for that machine only. Whatever a request with the token of
  \<open>owner\<close> posts, and whichever SQL statement fails: the ingest and the WakaTime routes at most
  append heartbeats of \<open>owner\<close> (a token of the machine \<open>unknown\<close> also covers the empty name) and
  leave every stored heartbeat and the other tables alone; the status route at most replaces the
  one status row of \<open>owner\<close>, whose name is trimmed and cut to 200 characters.\<close>

theorem scoped_token_writes_own_machine:
  assumes "principal_or_401 env raw rq = Inr (Machine owner)"
  shows "adds_own owner db (snd (ingest_handler env sql raw now rq db))
    \<and> adds_own owner db (snd (wakatime_handler env sql raw now rq db))
    \<and> (snd (agent_status_handler env sql raw now rq db) = db
       \<or> (\<exists>row. ag_machine row = slice_utf16 (js_trim owner) 200
            \<and> snd (agent_status_handler env sql raw now rq db) = db\<lparr>td_agent_status := upsert_agent row (td_agent_status db)\<rparr>))"
  using ingest_adds_own [OF assms] wakatime_adds_own [OF assms] status_changes_own [OF assms] by blast

text \<open>A request of the machine \<open>mac\<close> with a heartbeat of \<open>mac\<close>.\<close>

definition own_rows :: "json list" where
  "own_rows = [JObject [(''time'', JNum (PosInt 5)), (''machine'', JString ''mac'')]]"

definition demo_post :: "json \<Rightarrow> server_env" where
  "demo_post v = server_demo_env\<lparr>sv_jt := \<lparr>jt_str = (\<lambda>_. []), jt_parse = (\<lambda>_. Some v)\<rparr>\<rparr>"

definition demo_request :: request where
  "demo_request = \<lparr>rq_headers = [''authorization'' \<mapsto> ''Bearer s''], rq_query = None, rq_body = ''x''\<rparr>"

definition demo_raw :: json where
  "demo_raw = JObject [(''server'', demo_config)]"

lemma demo_principal: "principal_or_401 (demo_post v) demo_raw demo_request = Inr (Machine ''mac'')"
  by code_simp

lemmas demo_ingest = ingest_handler_def demo_principal read_json_def BODY_LIMIT_def demo_post_def server_demo_env_def demo_f64_def
  demo_request_def own_rows_def empty_tracker_def insert_heartbeats_def finite_time_def insert_or_ignore_def
  row_of_json_def js_string_or_def allows_machine_def row_machine_def

theorem scoped_token_writes_own_machine_witness:
  "length (td_heartbeats (snd (ingest_handler (demo_post (JArray own_rows)) (\<lambda>_. False) demo_raw 9 demo_request empty_tracker))) = 1
   \<and> adds_own ''mac'' empty_tracker
       (snd (ingest_handler (demo_post (JArray own_rows)) (\<lambda>_. False) demo_raw 9 demo_request empty_tracker))"
proof
  have "principal_or_401 (demo_post (JArray own_rows)) demo_raw demo_request = Inr (Machine ''mac'')"
    by (rule demo_principal)
  then show "length (td_heartbeats (snd (ingest_handler (demo_post (JArray own_rows)) (\<lambda>_. False) demo_raw 9 demo_request
      empty_tracker))) = 1"
    by (simp add: demo_ingest)
  show "adds_own ''mac'' empty_tracker
      (snd (ingest_handler (demo_post (JArray own_rows)) (\<lambda>_. False) demo_raw 9 demo_request empty_tracker))"
    using scoped_token_writes_own_machine [OF demo_principal] by blast
qed

text \<open>The success status, or a refusal that changes nothing.\<close>

definition answered :: "nat \<Rightarrow> tracker_db \<Rightarrow> response \<times> tracker_db \<Rightarrow> bool" where
  "answered success db x \<longleftrightarrow> rs_status (fst x) = success \<or> rs_status (fst x) \<in> {400, 401, 403, 413, 500} \<and> snd x = db"

lemmas answer_defs = json_error_def json_response_def scope_denied_def api_error_def

lemma insert_failed_unchanged: "insert_heartbeats sql ft now rows db = (Inl e, db') \<Longrightarrow> db' = db"
  by (erule insert_heartbeats_cases) simp_all

lemma status_failed_unchanged: "upsert_agent_status sql ft jt status now db = (Inl e, db') \<Longrightarrow> db' = db"
  by (erule upsert_agent_status_cases) simp_all

lemma read_json_refused: "read_json env body = Inl res \<Longrightarrow> rs_status res \<in> {400, 413}"
  by (auto simp: read_json_def answer_defs split: if_splits option.splits)

lemma refused_answer:
  shows "answered 200 db (ingest_handler env sql raw now rq db)"
    and "answered 200 db (agent_status_handler env sql raw now rq db)"
    and "answered 202 db (wakatime_handler env sql raw now rq db)"
proof -
  note facts = read_json_refused [of env "rq_body rq"]
  have p: "principal_or_401 env raw rq = Inl res \<Longrightarrow> rs_status res = 401" for res
    by (auto simp: principal_or_401_def answer_defs split: option.splits)
  show "answered 200 db (ingest_handler env sql raw now rq db)"
    using p insert_failed_unchanged facts
    by (auto simp: ingest_handler_def answered_def answer_defs split: sum.splits json.splits prod.splits)
  show "answered 200 db (agent_status_handler env sql raw now rq db)"
    using p status_failed_unchanged facts
    by (auto simp: agent_status_handler_def answered_def answer_defs split: sum.splits prod.splits)
  show "answered 202 db (wakatime_handler env sql raw now rq db)"
    using p insert_failed_unchanged facts
    by (auto simp: wakatime_handler_def answered_def answer_defs Let_def split: sum.splits prod.splits)
qed

text \<open>A refused request leaves no trace. Without a configured token the answer is 401 whatever
  the body is, before its size or syntax is looked at. Every answer other than 200 (202 on the
  WakaTime routes) leaves the database as it was: the size limit, bad JSON, the wrong shape, one
  row of another machine among allowed ones, a null item, and every SQL failure.\<close>

theorem refused_request_changes_nothing:
  "(authenticate env (rq_headers rq) (case rq_query rq of Some q \<Rightarrow> q | None \<Rightarrow> []) (server_section (JObject []) raw) = None
     \<longrightarrow> ingest_handler env sql raw now rq db = (json_error 401 ''unauthorized'', db)
       \<and> agent_status_handler env sql raw now rq db = (json_error 401 ''unauthorized'', db)
       \<and> wakatime_handler env sql raw now rq db = (json_error 401 ''unauthorized'', db))
   \<and> answered 200 db (ingest_handler env sql raw now rq db)
   \<and> answered 200 db (agent_status_handler env sql raw now rq db)
   \<and> answered 202 db (wakatime_handler env sql raw now rq db)"
  using refused_answer [of db env]
  by (auto simp: ingest_handler_def agent_status_handler_def wakatime_handler_def principal_or_401_def)

theorem refused_request_changes_nothing_witness:
  "ingest_handler server_demo_env (\<lambda>_. False) demo_raw 9 \<lparr>rq_headers = [''authorization'' \<mapsto> ''Bearer x''], rq_query = None, rq_body = ''x''\<rparr> empty_tracker
   = (json_error 401 ''unauthorized'', empty_tracker)"
proof -
  have "authenticate server_demo_env [''authorization'' \<mapsto> ''Bearer x''] [] (server_section (JObject []) demo_raw) = None"
    by code_simp
  then show ?thesis
    using refused_request_changes_nothing [of server_demo_env "\<lparr>rq_headers = [''authorization'' \<mapsto> ''Bearer x''], rq_query = None, rq_body = ''x''\<rparr>"]
    by simp
qed

end
