(* ===== verification/Tail.thy ===== *)
theory Tail
  imports Agent_Queue
begin

text \<open>
  Tailing of the transcript files that coding agents append to
  (\<open>crates/stackhour-agent/src/tail.rs\<close>). A file is what the operating system answers: its size, and
  the bytes it reads from a position, which may be fewer than asked for. Offsets are JSON
  numbers of the agent state, keyed by path.
\<close>

subsection \<open>Operations\<close>

definition MAX_READ_PER_FILE :: nat where
  "MAX_READ_PER_FILE = 5 * 1024 * 1024"

definition DEFAULT_PRUNE_MAX :: nat where
  "DEFAULT_PRUNE_MAX = 2000"

record disk_file =
  df_size :: "nat option"
  df_read :: "nat \<Rightarrow> nat \<Rightarrow> string option"

fun as_u64_json :: "json \<Rightarrow> nat option" where
  "as_u64_json (JNum (PosInt w)) = Some (unat w)"
| "as_u64_json _ = None"

definition json_of_u64 :: "nat \<Rightarrow> json" where
  "json_of_u64 n = JNum (PosInt (of_nat n))"

text \<open>\<open>rposition\<close> and \<open>position\<close> of the newline.\<close>

definition last_newline :: "string \<Rightarrow> nat option" where
  "last_newline buf =
     (if newline \<in> set buf then Some (length (dropWhile (\<lambda>c. c \<noteq> newline) (rev buf)) - 1) else None)"

definition first_newline :: "string \<Rightarrow> nat option" where
  "first_newline buf = (if newline \<in> set buf then Some (length (takeWhile (\<lambda>c. c \<noteq> newline) buf)) else None)"

definition parse_line :: "json_text \<Rightarrow> string \<Rightarrow> json option" where
  "parse_line jt line = (let trimmed = str_trim line in if trimmed = [] then None else jt_parse jt trimmed)"

type_synonym offsets = "string \<Rightarrow> json option"

definition read_new_lines :: "json_text \<Rightarrow> disk_file \<Rightarrow> string \<Rightarrow> offsets \<Rightarrow> json list \<times> offsets" where
  "read_new_lines jt f name offsets =
     (case df_size f of
        None \<Rightarrow> ([], offsets)
      | Some sz \<Rightarrow>
          (case Option.bind (offsets name) as_u64_json of
             None \<Rightarrow> ([], offsets(name \<mapsto> json_of_u64 sz))
           | Some prev \<Rightarrow>
               if sz \<le> prev then ([], offsets(name \<mapsto> json_of_u64 (min prev sz)))
               else
                 (let start = (if sz - prev > MAX_READ_PER_FILE then sz - MAX_READ_PER_FILE else prev) in
                  case df_read f start (sz - start) of
                    None \<Rightarrow> ([], offsets)
                  | Some buf \<Rightarrow>
                      (case last_newline buf of
                         None \<Rightarrow> ([], offsets(name \<mapsto> json_of_u64 start))
                       | Some last_nl \<Rightarrow>
                           (List.map_filter (parse_line jt) (split_nl (utf8_lossy (take last_nl buf))),
                            offsets(name \<mapsto> json_of_u64 (start + last_nl + 1)))))))"

definition read_first_json_line :: "json_text \<Rightarrow> disk_file \<Rightarrow> nat \<Rightarrow> json option" where
  "read_first_json_line jt f limit =
     (case df_size f of
        None \<Rightarrow> None
      | Some sz \<Rightarrow>
          if sz = 0 then None
          else
            (case df_read f 0 (min sz limit) of
               None \<Rightarrow> None
             | Some buf \<Rightarrow>
                 (case first_newline buf of
                    Some i \<Rightarrow> jt_parse jt (utf8_lossy (take i buf))
                  | None \<Rightarrow> if sz > length buf then None else jt_parse jt (utf8_lossy buf))))"

definition prune_offsets :: "(string \<times> json) list \<Rightarrow> string set \<Rightarrow> nat \<Rightarrow> (string \<times> json) list" where
  "prune_offsets m live limit = (if length m < limit then m else filter (\<lambda>kv. fst kv \<in> live) m)"

subsection \<open>Complete lines\<close>

text \<open>A text is its part through the last newline and a fragment.\<close>

definition frag :: "string \<Rightarrow> string" where
  "frag s = rev (takeWhile (\<lambda>c. c \<noteq> newline) (rev s))"

definition through :: "string \<Rightarrow> string" where
  "through s = rev (dropWhile (\<lambda>c. c \<noteq> newline) (rev s))"

definition complete_lines :: "string \<Rightarrow> string list" where
  "complete_lines s = butlast (split_nl s)"

lemma through_frag: "through s @ frag s = s"
  unfolding through_def frag_def by (metis rev_append rev_rev_ident takeWhile_dropWhile_id)

lemma frag_no_newline: "newline \<notin> set (frag s)"
  by (auto simp: frag_def dest: set_takeWhileD)

lemma through_cases:
  obtains "through s = []" "newline \<notin> set s" | t where "through s = t @ [newline]"
proof (cases "dropWhile (\<lambda>c. c \<noteq> newline) (rev s)")
  case Nil
  then have "newline \<notin> set s" by (auto simp: dropWhile_eq_Nil_conv)
  then show ?thesis using that(1) Nil by (simp add: through_def)
next
  case (Cons c r)
  then have "c = newline" by (metis (full_types) dropWhile_eq_Cons_conv)
  then show ?thesis using that(2) Cons by (simp add: through_def)
qed

lemma through_none: "newline \<notin> set s \<Longrightarrow> through s = []"
  by (auto simp: through_def dropWhile_eq_Nil_conv)

lemma complete_lines_more: "complete_lines (s @ x) = complete_lines s @ complete_lines (frag s @ x)"
proof (cases s rule: through_cases)
  case 1
  then have "frag s = s" using through_frag [of s] by simp
  then show ?thesis using 1 by (simp add: complete_lines_def)
next
  case (2 t)
  then have s: "s = t @ newline # frag s" using through_frag [of s] by simp
  have "complete_lines (s @ x) = split_nl t @ complete_lines (frag s @ x)"
    by (subst s) (simp add: complete_lines_def butlast_append)
  moreover have "complete_lines s = split_nl t"
    by (subst s) (simp add: complete_lines_def butlast_append frag_no_newline)
  ultimately show ?thesis by simp
qed

lemma complete_lines_none: "newline \<notin> set s \<Longrightarrow> complete_lines s = []"
  by (simp add: complete_lines_def)

lemma last_newline_through:
  "last_newline s = (if newline \<in> set s then Some (length (through s) - 1) else None)"
  by (simp add: last_newline_def through_def)

lemma take_last_newline:
  assumes "newline \<in> set s"
  shows "split_nl (take (length (through s) - 1) s) = complete_lines s" and "0 < length (through s)"
proof -
  obtain t where t: "through s = t @ [newline]" using assms by (cases s rule: through_cases) auto
  then have s: "s = t @ newline # frag s" using through_frag [of s] by simp
  then have "take (length (through s) - 1) s = t" using t by (metis append_eq_conv_conj butlast_snoc length_butlast)
  moreover have "complete_lines s = split_nl t"
    by (subst s) (simp add: complete_lines_def butlast_append frag_no_newline)
  ultimately show "split_nl (take (length (through s) - 1) s) = complete_lines s" by simp
  show "0 < length (through s)" by (simp add: t)
qed

subsection \<open>One tick over a file\<close>

definition snapshot :: "string \<Rightarrow> disk_file" where
  "snapshot c = \<lparr>df_size = Some (length c), df_read = (\<lambda>start len. Some (take len (drop start c)))\<rparr>"

definition records_of :: "json_text \<Rightarrow> string \<Rightarrow> json list" where
  "records_of jt s = List.map_filter (\<lambda>l. parse_line jt (utf8_lossy l)) (complete_lines s)"

lemma records_of_more: "records_of jt (s @ x) = records_of jt s @ records_of jt (frag s @ x)"
  by (simp add: records_of_def complete_lines_more [of s x] List.map_filter_def)

lemma as_u64_round_trip:
  assumes "n < 2 ^ 64"
  shows "as_u64_json (json_of_u64 n) = Some n"
proof -
  have "LENGTH(64) = 64" by simp
  with assms have "n < 2 ^ LENGTH(64)" by (simp only:)
  then have "unat (word_of_nat n :: 64 word) = n" by (rule of_nat_inverse [OF refl])
  then show ?thesis by (simp only: json_of_u64_def as_u64_json.simps)
qed

lemma map_filter_map: "List.map_filter f (map g xs) = List.map_filter (\<lambda>x. f (g x)) xs"
  by (induction xs) (simp_all add: List.map_filter_simps split: option.splits)

lemma read_new_lines_step:
  assumes "offsets name = Some (json_of_u64 p)" and "p \<le> length c" and "length c < 2 ^ 64"
    and "length c - p \<le> MAX_READ_PER_FILE"
  shows "read_new_lines jt (snapshot c) name offsets
     = (records_of jt (drop p c), offsets(name \<mapsto> json_of_u64 (p + length (through (drop p c)))))"
proof -
  have off: "Option.bind (offsets name) as_u64_json = Some p"
    using assms(1-3) by (simp add: as_u64_round_trip)
  let ?s = "drop p c"
  show ?thesis
  proof (cases "length c \<le> p")
    case True
    then show ?thesis
      using assms(2) off
      by (simp add: read_new_lines_def snapshot_def records_of_def complete_lines_def List.map_filter_def through_def)
  next
    case False
    show ?thesis
    proof (cases "newline \<in> set ?s")
      case True
      note t = take_last_newline [OF True]
      have "map utf8_lossy (complete_lines ?s) = split_nl (utf8_lossy (take (length (through ?s) - 1) ?s))"
        by (simp only: split_nl_lossy t(1))
      then have "records_of jt ?s
          = List.map_filter (parse_line jt) (split_nl (utf8_lossy (take (length (through ?s) - 1) ?s)))"
        unfolding records_of_def by (simp only: map_filter_map [symmetric])
      moreover obtain k where "length (through ?s) = Suc k" using t(2) gr0_conv_Suc by blast
      ultimately show ?thesis
        using off False True assms(4)
        by (simp add: read_new_lines_def snapshot_def last_newline_through Let_def)
    next
      case no: False
      then have "through ?s = []" by (rule through_none)
      then show ?thesis
        using off False no assms(4)
        by (simp add: read_new_lines_def snapshot_def last_newline_through Let_def records_of_def
            complete_lines_none List.map_filter_def)
    qed
  qed
qed

subsection \<open>Many ticks over a growing file\<close>

fun tail_run :: "json_text \<Rightarrow> string \<Rightarrow> string list \<Rightarrow> offsets \<Rightarrow> json list \<times> offsets" where
  "tail_run jt name [] offsets = ([], offsets)"
| "tail_run jt name (c # cs) offsets =
     (let (out, offsets1) = read_new_lines jt (snapshot c) name offsets;
          (outs, offsets2) = tail_run jt name cs offsets1
      in (out @ outs, offsets2))"

text \<open>Each tick sees the file longer than before, with at most 5 MiB behind the complete lines of
  what was there; \<open>p\<close> is where the file ended at first sight.\<close>

fun grows :: "nat \<Rightarrow> string \<Rightarrow> string list \<Rightarrow> bool" where
  "grows p c [] = True"
| "grows p c (c' # cs) \<longleftrightarrow> take (length c) c' = c \<and> length c' < 2 ^ 64
     \<and> length c' \<le> p + length (through (drop p c)) + MAX_READ_PER_FILE \<and> grows p c' cs"

lemma through_drop:
  assumes "p \<le> length c"
  shows "drop (p + length (through (drop p c))) c = frag (drop p c)" and "p + length (through (drop p c)) \<le> length c"
proof -
  have s: "through (drop p c) @ frag (drop p c) = drop p c" by (rule through_frag)
  then have "drop (length (through (drop p c))) (drop p c) = frag (drop p c)" by (metis append_eq_conv_conj)
  then show "drop (p + length (through (drop p c))) c = frag (drop p c)" by (simp add: add.commute)
  have "length (through (drop p c)) \<le> length (drop p c)" by (metis s length_append le_add1)
  then show "p + length (through (drop p c)) \<le> length c" using assms by simp
qed

text \<open>What is complete at position \<open>p\<close> is complete from the committed offset on.\<close>

lemma through_frag_more: "length (through (s @ x)) = length (through s) + length (through (frag s @ x))"
proof (cases s rule: through_cases)
  case 1
  then show ?thesis using through_frag [of s] by simp
next
  case (2 t)
  then have s: "s = through s @ frag s" "through s = t @ [newline]" using through_frag [of s] by simp_all
  have "through (t @ newline # y) = t @ newline # through y" for y
    by (cases "newline \<in> set y") (auto simp: through_def dropWhile_append)
  then have "through (s @ x) = through s @ through (frag s @ x)"
    by (metis s append.assoc append_Cons append_Nil)
  then show ?thesis by simp
qed

lemma tail_run_growing:
  assumes "offsets name = Some (json_of_u64 (p + length (through (drop p c))))"
    and "p \<le> length c" and "grows p c cs"
  shows "records_of jt (drop p c) @ fst (tail_run jt name cs offsets) = records_of jt (drop p (last (c # cs)))
     \<and> snd (tail_run jt name cs offsets) name
       = Some (json_of_u64 (p + length (through (drop p (last (c # cs))))))"
  using assms
proof (induction cs arbitrary: c offsets)
  case Nil
  then show ?case by simp
next
  case (Cons c' cs)
  let ?q = "p + length (through (drop p c))"
  obtain x where x: "c' = c @ x" using Cons.prems(3) by (metis append_take_drop_id grows.simps(2))
  note d = through_drop [OF Cons.prems(2)]
  have q: "?q \<le> length c'" using d(2) x by simp
  have unread: "drop ?q c' = frag (drop p c) @ x" using d x by simp
  have p: "drop p c' = drop p c @ x" using Cons.prems(2) x by simp
  have step: "read_new_lines jt (snapshot c') name offsets
      = (records_of jt (drop ?q c'), offsets(name \<mapsto> json_of_u64 (?q + length (through (drop ?q c')))))"
    by (rule read_new_lines_step [where offsets = offsets and name = name]) (use Cons.prems q in auto)
  have off: "?q + length (through (drop ?q c')) = p + length (through (drop p c'))"
    unfolding unread p through_frag_more [of "drop p c"] by simp
  have rec: "records_of jt (drop p c) @ records_of jt (drop ?q c') = records_of jt (drop p c')"
    unfolding unread p by (rule records_of_more [symmetric])
  let ?o = "offsets(name \<mapsto> json_of_u64 (p + length (through (drop p c'))))"
  have IH: "records_of jt (drop p c') @ fst (tail_run jt name cs ?o) = records_of jt (drop p (last (c' # cs)))
     \<and> snd (tail_run jt name cs ?o) name = Some (json_of_u64 (p + length (through (drop p (last (c' # cs))))))"
    by (rule Cons.IH) (use Cons.prems x in simp_all)
  have run: "tail_run jt name (c' # cs) offsets
      = (records_of jt (drop ?q c') @ fst (tail_run jt name cs ?o), snd (tail_run jt name cs ?o))"
    using step off by (simp add: case_prod_beta)
  show ?case unfolding run using IH rec by (simp flip: append_assoc)
qed

subsection \<open>Properties\<close>

text \<open>C15: tailing delivers every record exactly once and in order, as long as a file grows by at most
  5 MiB (\<open>MAX_READ_PER_FILE\<close>) between two ticks and its reads succeed. From the first sight of a file,
  over any number of ticks and any such sequence of appends (records cut in half at a tick
  included), the rows delivered are exactly the parseable ones among the lines completed since
  then, in the order of the file; what was there at first sight is never replayed; and the
  offset stands behind the last complete line.\<close>

theorem tail_exactly_once:
  assumes "offsets name = None" and "grows (length c) c cs" and "length c < 2 ^ 64"
  shows "tail_run jt name (c # cs) offsets
     = (List.map_filter (\<lambda>l. parse_line jt (utf8_lossy l)) (complete_lines (drop (length c) (last (c # cs)))),
        snd (tail_run jt name (c # cs) offsets))
   \<and> snd (tail_run jt name (c # cs) offsets) name
     = Some (json_of_u64 (length c + length (through (drop (length c) (last (c # cs))))))"
proof -
  let ?o = "offsets(name \<mapsto> json_of_u64 (length c))"
  have first: "read_new_lines jt (snapshot c) name offsets = ([], ?o)"
    using assms(1) by (simp add: read_new_lines_def snapshot_def)
  have run: "tail_run jt name (c # cs) offsets = tail_run jt name cs ?o"
    using first by (simp add: case_prod_beta)
  have "records_of jt (drop (length c) c) = []" "through (drop (length c) c) = []"
    by (simp_all add: records_of_def complete_lines_def List.map_filter_def through_def)
  then show ?thesis
    using tail_run_growing [of ?o name "length c" c cs jt] assms(2)
    unfolding run records_of_def by (cases "tail_run jt name cs ?o") simp
qed

text \<open>A record arrives in two halves over two ticks; the line before first sight is not read.\<close>

theorem tail_exactly_once_witness:
  "fst (tail_run demo_text ''f'' [[CHR 0x22, CHR ''o'', CHR 0x22, newline],
      [CHR 0x22, CHR ''o'', CHR 0x22, newline, CHR 0x22, CHR ''n''],
      [CHR 0x22, CHR ''o'', CHR 0x22, newline, CHR 0x22, CHR ''n'', CHR 0x22, newline]] (\<lambda>_. None)) = [JString ''n'']"
proof -
  let ?c = "[CHR 0x22, CHR ''o'', CHR 0x22, newline]"
  let ?cs = "[?c @ [CHR 0x22, CHR ''n''], ?c @ [CHR 0x22, CHR ''n'', CHR 0x22, newline]]"
  have "grows (length ?c) ?c ?cs" by (simp add: MAX_READ_PER_FILE_def)
  then have "fst (tail_run demo_text ''f'' (?c # ?cs) (\<lambda>_. None))
      = List.map_filter (\<lambda>l. parse_line demo_text (utf8_lossy l)) (complete_lines (drop (length ?c) (last (?c # ?cs))))"
    by (intro trans [OF arg_cong [where f = fst, OF conjunct1 [OF tail_exactly_once]] fst_conv]) simp_all
  also have "\<dots> = [JString ''n'']"
    by (simp add: complete_lines_def List.map_filter_def parse_line_def utf8_chunk_def lead_ranges_def byte_def
        str_trim_def trim_matches_def char_len_def is_whitespace_def demo_text_def Let_def)
  finally show ?thesis by simp
qed

end
