(* ===== verification/Agent_Tick.thy ===== *)
theory Agent_Tick
  imports Tail Index_Map F64
begin

text \<open>
  The tick of the agent (\<open>crates/stackhour-agent/src/lib.rs\<close>) with its state file (\<open>state.rs\<close>): run the
  watchers, queue the fresh heartbeats, save the watcher offsets, send a batch, rewrite the
  queue. A watcher, the clock, the HTTP client and the conversion between JSON numbers and
  \<open>f64\<close> are parameters; the files are those of the theory Fsutil, so every call can fail and the
  trace holds every state a killed agent can leave.
\<close>

subsection \<open>The state file\<close>

definition state_path :: "string \<Rightarrow> string" where
  "state_path data_dir = data_dir @ ''/agent-state.json''"

definition is_object :: "json \<Rightarrow> bool" where
  "is_object v \<longleftrightarrow> as_object v \<noteq> None"

definition load_state :: "json_text \<Rightarrow> string \<Rightarrow> files \<Rightarrow> json" where
  "load_state jt data_dir fs =
     (case Option.bind (read_to_string fs (state_path data_dir)) (jt_parse jt) of
        Some v \<Rightarrow> if is_object v then v else JObject []
      | None \<Rightarrow> JObject [])"

definition save_state ::
  "io_env \<Rightarrow> json_text \<Rightarrow> string \<Rightarrow> json \<Rightarrow> world \<Rightarrow> (io_error, unit) result \<times> world" where
  "save_state env jt data_dir state w =
     and_then (sys env (MkdirAll data_dir) w) (\<lambda>_ w.
     atomic_write_0600 env (state_path data_dir) (jt_str jt state) w)"

text \<open>\<open>Map::insert\<close> keeps the place of an existing key.\<close>

definition json_insert :: "string \<Rightarrow> json \<Rightarrow> (string \<times> json) list \<Rightarrow> (string \<times> json) list" where
  "json_insert k v m = entry_update k v (\<lambda>_. v) m"

lemma map_of_json_insert: "map_of (json_insert k v m) j = (if j = k then Some v else map_of m j)"
  unfolding json_insert_def by (induction m) auto

lemma keys_json_insert: "map fst (json_insert k v m) = (if k \<in> fst ` set m then map fst m else map fst m @ [k])"
  unfolding json_insert_def by (induction m) (simp, force simp: image_iff)

lemma distinct_json_insert: "distinct (map fst m) \<Longrightarrow> distinct (map fst (json_insert k v m))"
  unfolding keys_json_insert by simp

lemma json_insert_Cons: "json_insert k v ((j, w) # m) = (if j = k then (j, v) # m else (j, w) # json_insert k v m)"
  by (simp add: json_insert_def)

lemma set_json_insert: "distinct (map fst m) \<Longrightarrow> set (json_insert k v m) = insert (k, v) {kv \<in> set m. fst kv \<noteq> k}"
proof (induction m)
  case (Cons kv m)
  then show ?case by (cases kv) (force simp: json_insert_Cons image_iff)
qed (simp add: json_insert_def)

definition shift_remove :: "string \<Rightarrow> (string \<times> json) list \<Rightarrow> (string \<times> json) list" where
  "shift_remove k m = filter (\<lambda>kv. fst kv \<noteq> k) m"

definition object_or_empty :: "json option \<Rightarrow> (string \<times> json) list" where
  "object_or_empty v = (case v of Some (JObject m) \<Rightarrow> m | _ \<Rightarrow> [])"

text \<open>\<open>access::object_mut\<close>: update the object under a key, created when it is none.\<close>

definition object_mut :: "string \<Rightarrow> ((string \<times> json) list \<Rightarrow> (string \<times> json) list) \<Rightarrow> json \<Rightarrow> json" where
  "object_mut key f state =
     (let root = object_or_empty (Some state) in
      JObject (json_insert key (JObject (f (object_or_empty (map_of root key)))) root))"

definition USAGE_BY_ID_CAP :: nat where
  "USAGE_BY_ID_CAP = 20000"

text \<open>\<open>while map.len() > cap { remove the first key }\<close>.\<close>

function evict :: "nat \<Rightarrow> (string \<times> json) list \<Rightarrow> (string \<times> json) list" where
  "evict cap [] = []"
| "evict cap (kv # m) = (if length (kv # m) > cap then evict cap (shift_remove (fst kv) m) else kv # m)"
  by pat_completeness auto

termination
  by (relation "measure (\<lambda>(cap, m). length m)") (auto simp: shift_remove_def less_Suc_eq_le)

definition trim_usage_by_id :: "json \<Rightarrow> json" where
  "trim_usage_by_id state = object_mut ''claudeUsageById'' (evict USAGE_BY_ID_CAP) state"

subsection \<open>Watchers\<close>

datatype gate = Run | Skipped bool bool string

text \<open>\<open>wt_run\<close> may change the state even when it fails.\<close>

record watcher =
  wt_name :: string
  wt_gate :: gate
  wt_input_marker :: "json \<Rightarrow> string option"
  wt_run :: "json \<Rightarrow> real \<Rightarrow> (string, json list) result \<times> json"

record numbers =
  nm_json :: "real \<Rightarrow> json"
  nm_real :: "json \<Rightarrow> real option"

record watch_times =
  wm_now :: real
  wm_duration_ms :: real
  wm_finished :: real

definition health_mut :: "string \<Rightarrow> ((string \<times> json) list \<Rightarrow> (string \<times> json) list) \<Rightarrow> json \<Rightarrow> json" where
  "health_mut name f state =
     object_mut ''watcherHealth''
       (\<lambda>all. json_insert name (JObject (f (object_or_empty (map_of all name)))) all) state"

definition max_time :: "numbers \<Rightarrow> real \<Rightarrow> json list \<Rightarrow> real" where
  "max_time nm finished rows =
     (case map (\<lambda>r. case Option.bind (json_get r ''time'') (nm_real nm) of Some t \<Rightarrow> t | None \<Rightarrow> finished) rows of
        [] \<Rightarrow> finished
      | t # ts \<Rightarrow> foldl max t ts)"

definition bump :: "numbers \<Rightarrow> (real \<Rightarrow> real) \<Rightarrow> string \<Rightarrow> (string \<times> json) list \<Rightarrow> (string \<times> json) list" where
  "bump nm rnd key health =
     (let prev = (case Option.bind (map_of health key) (nm_real nm) of Some p \<Rightarrow> p | None \<Rightarrow> 0)
      in json_insert key (nm_json nm (rnd (prev + 1))) health)"

definition health_ok ::
  "numbers \<Rightarrow> (real \<Rightarrow> real) \<Rightarrow> watch_times \<Rightarrow> bool \<Rightarrow> json list \<Rightarrow> (string \<times> json) list \<Rightarrow> (string \<times> json) list" where
  "health_ok nm rnd wm input_changed rows health =
     (let h1 = json_insert ''lastOk'' (nm_json nm (wm_finished wm)) health;
          h2 = json_insert ''lastDurationMs'' (nm_json nm (wm_duration_ms wm)) h1;
          h3 = json_insert ''lastCount'' (json_of_u64 (length rows)) h2;
          h4 = json_insert ''consecutiveErrors'' (json_of_i64 0) h3;
          h5 = json_insert ''error'' JNull h4;
          h6 = (if input_changed then json_insert ''lastInput'' (nm_json nm (wm_finished wm)) h5 else h5)
      in if rows \<noteq> [] then
           json_insert ''unmatchedInputRuns'' (json_of_i64 0)
             (json_insert ''lastEvent'' (nm_json nm (max_time nm (wm_finished wm) rows)) h6)
         else if input_changed then bump nm rnd ''unmatchedInputRuns'' h6
         else h6)"

definition health_err ::
  "numbers \<Rightarrow> (real \<Rightarrow> real) \<Rightarrow> watch_times \<Rightarrow> string \<Rightarrow> (string \<times> json) list \<Rightarrow> (string \<times> json) list" where
  "health_err nm rnd wm err health =
     json_insert ''error'' (JString (take_chars 500 err))
       (bump nm rnd ''consecutiveErrors''
         (json_insert ''lastError'' (nm_json nm (wm_finished wm))
           (json_insert ''lastDurationMs'' (nm_json nm (wm_duration_ms wm)) health)))"

text \<open>One iteration of the loop.\<close>

definition run_watcher ::
  "numbers \<Rightarrow> (real \<Rightarrow> real) \<Rightarrow> watch_times \<Rightarrow> watcher \<Rightarrow> json \<Rightarrow> json list \<times> json" where
  "run_watcher nm rnd wm watcher state =
     (case wt_gate watcher of
        Skipped enabled available reason \<Rightarrow>
          ([], health_mut (wt_name watcher)
             (\<lambda>h. json_insert ''reason'' (JString reason) (json_insert ''lastCount'' (json_of_i64 0)
                (json_insert ''available'' (JBool available) (json_insert ''enabled'' (JBool enabled) h)))) state)
      | Run \<Rightarrow>
          (let state1 = health_mut (wt_name watcher)
                 (\<lambda>h. shift_remove ''reason'' (json_insert ''available'' (JBool True) (json_insert ''enabled'' (JBool True) h))) state;
               before = wt_input_marker watcher state1;
               (result, state2) = wt_run watcher state1 (wm_now wm)
           in case result of
                Inr rows \<Rightarrow>
                  (let input_changed = (before \<noteq> wt_input_marker watcher state2 \<or> rows \<noteq> [])
                   in (rows, health_mut (wt_name watcher) (health_ok nm rnd wm input_changed rows) state2))
              | Inl err \<Rightarrow> ([], health_mut (wt_name watcher) (health_err nm rnd wm err) state2)))"

fun run_watchers ::
  "numbers \<Rightarrow> (real \<Rightarrow> real) \<Rightarrow> (watch_times \<times> watcher) list \<Rightarrow> json \<Rightarrow> json list \<times> json" where
  "run_watchers nm rnd [] state = ([], state)"
| "run_watchers nm rnd ((wm, watcher) # rest) state =
     (let (rows, state1) = run_watcher nm rnd wm watcher state;
          (fresh, state2) = run_watchers nm rnd rest state1
      in (rows @ fresh, state2))"

subsection \<open>The tick\<close>

text \<open>\<open>{ machine, ...row }\<close>.\<close>

definition stamp :: "string \<Rightarrow> json \<Rightarrow> json" where
  "stamp machine row =
     JObject (foldl (\<lambda>out kv. json_insert (fst kv) (snd kv) out) [(''machine'', JString machine)]
       (object_or_empty (Some row)))"

record report =
  rp_machine :: string
  rp_queue_depth :: nat
  rp_queue_bytes :: nat
  rp_watchers :: json

record tick_result =
  tk_world :: world
  tk_accepted :: "json list"
  tk_server_failed :: bool
  tk_report :: report

text \<open>Send the oldest rows that fit, and rewrite the queue once the server has confirmed them.\<close>

definition send_pending ::
  "io_env \<Rightarrow> json_text \<Rightarrow> string \<Rightarrow> (json list \<Rightarrow> (string, int) result) \<Rightarrow> json list \<Rightarrow> world
   \<Rightarrow> json list \<times> bool \<times> world" where
  "send_pending env jt data_dir post_ingest pending w =
     (if pending = [] then ([], False, w)
      else
        (let n = take_send_batch jt pending MAX_SEND_BYTES in
         case post_ingest (take n pending) of
           Inr inserted \<Rightarrow> (take n pending, False, snd (save_queue env jt data_dir (drop n pending) w))
         | Inl e \<Rightarrow> ([], True, w)))"

text \<open>\<open>post_ingest\<close> is what the server answers to a batch; \<open>tk_accepted\<close> is the batch it
  confirmed. The report is posted exactly when the server has not failed in this tick.\<close>

definition tick ::
  "io_env \<Rightarrow> json_text \<Rightarrow> numbers \<Rightarrow> (real \<Rightarrow> real) \<Rightarrow> string \<Rightarrow> string \<Rightarrow> (watch_times \<times> watcher) list
   \<Rightarrow> (json list \<Rightarrow> (string, int) result) \<Rightarrow> world \<Rightarrow> tick_result" where
  "tick env jt nm rnd machine data_dir watchers post_ingest w =
     (let (rows, state) = run_watchers nm rnd watchers (load_state jt data_dir (wd_files w));
          fresh = map (stamp machine) rows;
          queued = read_queue jt data_dir (wd_files w);
          w1 = (if fresh = [] then w else snd (append_queue env jt data_dir fresh w));
          w2 = snd (save_state env jt data_dir state w1);
          pending = queued @ fresh;
          (accepted, server_failed, w3) =
            send_pending env jt data_dir post_ingest pending w2
      in \<lparr>tk_world = w3, tk_accepted = accepted, tk_server_failed = server_failed,
          tk_report =
            \<lparr>rp_machine = machine,
             rp_queue_depth = length (read_queue jt data_dir (wd_files w3)),
             rp_queue_bytes = length (old_bytes (wd_files w3) (queue_path data_dir)),
             rp_watchers = (case json_get state ''watcherHealth'' of Some v \<Rightarrow> v | None \<Rightarrow> JObject [])\<rparr>\<rparr>)"

text \<open>\<open>tick_interval\<close>: the sleep between two ticks, for the values an \<open>f64\<close> can have.\<close>

definition TIMEOUT_MAX_SECONDS :: "(real \<Rightarrow> real) \<Rightarrow> real" where
  "TIMEOUT_MAX_SECONDS rnd = rnd (2147483647 / 1000)"

definition tick_interval :: "(real \<Rightarrow> real) \<Rightarrow> f64_value \<Rightarrow> real" where
  "tick_interval rnd interval_seconds =
     (case interval_seconds of
        NotANumber \<Rightarrow> 1
      | Infinite negative \<Rightarrow> if negative then 1 else TIMEOUT_MAX_SECONDS rnd
      | Finite s \<Rightarrow> if s < 1 then 1 else if s > TIMEOUT_MAX_SECONDS rnd then TIMEOUT_MAX_SECONDS rnd else s)"

subsection \<open>Trimming keeps the newest entries\<close>

lemma evict_drop: "distinct (map fst m) \<Longrightarrow> evict cap m = drop (length m - cap) m"
proof (induction cap m rule: evict.induct)
  case (2 cap kv m)
  have rm: "shift_remove (fst kv) m = m"
    using "2.prems" unfolding shift_remove_def by (intro filter_True) (auto intro: rev_image_eqI)
  show ?case
  proof (cases "length (kv # m) > cap")
    case True
    then have "Suc (length m) - cap = Suc (length m - cap)" by simp
    then show ?thesis using True 2 rm by simp
  qed simp
qed simp

subsection \<open>What each phase leaves\<close>



lemma state_paths:
  "queue_path d \<noteq> state_path d" "queue_path d \<noteq> tmp_path env (state_path d)"
  "state_path d \<noteq> queue_path d" "state_path d \<noteq> tmp_path env (queue_path d)"
  by (simp_all add: queue_path_def state_path_def tmp_path_def)

text \<open>Saving the state leaves the queue file alone.\<close>

definition queue_same :: "string \<Rightarrow> files \<Rightarrow> files \<Rightarrow> bool" where
  "queue_same d fs0 fs \<longleftrightarrow> fs (queue_path d) = fs0 (queue_path d)"

lemma triple_save_state:
  fixes env jt d state fs0 tr
  defines "Q \<equiv> queue_same d fs0"
  shows "triple (since tr Q (\<lambda>fs. fs = fs0)) (save_state env jt d state) (\<lambda>_. since tr Q Q) (since tr Q Q)"
proof -
  let ?A = "old_or_new env (state_path d) (jt_str jt state) 0x180 fs0"
  have AQ: "?A fs \<Longrightarrow> Q fs" for fs
    unfolding Q_def queue_same_def old_or_new_def using state_paths(1) [of d] state_paths(2) [of d env] by metis
  have mkdir: "triple (since tr ?A (\<lambda>fs. fs = fs0)) (sys env (MkdirAll d)) (\<lambda>_. since tr ?A (\<lambda>fs. fs = fs0)) (since tr ?A ?A)" for tr
    by (rule triple_call) auto
  have eq: "save_state env jt d state = (\<lambda>w. and_then (sys env (MkdirAll d) w) (\<lambda>_ w. atomic_write env (state_path d) (jt_str jt state) 0x180 w))"
    by (simp add: save_state_def atomic_write_0600_def fun_eq_iff)
  show ?thesis
    unfolding eq
    by (rule triple_since_mono [OF triple_and_then [OF mkdir triple_atomic_write] AQ _ AQ])
      (simp_all add: Q_def queue_same_def with_new_def state_paths)
qed

text \<open>The states since a world.\<close>

definition passed :: "world \<Rightarrow> (files \<Rightarrow> bool) \<Rightarrow> world \<Rightarrow> bool" where
  "passed w P w' \<longleftrightarrow> (\<exists>t. wd_trace w' = wd_trace w @ t \<and> list_all P t)"





lemma save_state_passed:
  assumes "save_state env jt d state w = (r, w')"
  shows "passed w (queue_same d (wd_files w)) w'" and "queue_same d (wd_files w) (wd_files w')"
  using tripleD [OF triple_save_state assms] by (cases r; simp add: passed_def since_def)+






subsection \<open>Properties\<close>



text \<open>A printer and parser by table, and a watcher that finds one heartbeat in every tick.\<close>

definition table_text :: "(json \<times> string) list \<Rightarrow> json_text" where
  "table_text tbl =
     \<lparr>jt_str = (\<lambda>v. case map_of tbl v of Some s \<Rightarrow> s | None \<Rightarrow> ''null''),
      jt_parse = map_of (map prod.swap tbl)\<rparr>"

definition beat :: "string \<Rightarrow> json" where
  "beat e = JObject [(''machine'', JString ''m''), (''entity'', JString e)]"

definition one_beat :: "watch_times \<times> watcher" where
  "one_beat =
     (\<lparr>wm_now = 0, wm_duration_ms = 0, wm_finished = 0\<rparr>,
      \<lparr>wt_name = ''files'', wt_gate = Run, wt_input_marker = (\<lambda>_. None),
       wt_run = (\<lambda>state now. (Inr [JObject [(''entity'', JString ''e'')]], state))\<rparr>)"

definition demo_numbers :: numbers where
  "demo_numbers = \<lparr>nm_json = (\<lambda>_. JNull), nm_real = (\<lambda>_. None)\<rparr>"

abbreviation demo_tick :: "io_env \<Rightarrow> (json list \<Rightarrow> (string, int) result) \<Rightarrow> world \<Rightarrow> tick_result" where
  "demo_tick env post w \<equiv>
     tick env (table_text [(beat ''e'', ''beat''), (beat ''q'', ''old'')]) demo_numbers id ''m'' ''d'' [one_beat] post w"

lemma one_beat_fresh: "map (stamp ''m'') (fst (run_watchers nm rnd [one_beat] state)) = [beat ''e'']"
  by (simp add: one_beat_def run_watcher_def Let_def stamp_def object_or_empty_def json_insert_def beat_def
      split: prod.splits)



subsection \<open>Where heartbeats are lost\<close>

text \<open>When the append fails (here: the queue cannot be opened) the offsets are saved all the
  same; with the server down as well, the heartbeat is neither queued nor sent and the state
  file has moved past it.\<close>

definition no_append_env :: io_env where
  "no_append_env = quiet_env\<lparr>io_fault := (\<lambda>i. if i = 2 then Some 0 else None)\<rparr>"

theorem failed_append_loses_heartbeat:
  "tk_accepted (demo_tick no_append_env (\<lambda>_. Inl ''down'') empty_world) = []
   \<and> read_queue (table_text [(beat ''e'', ''beat''), (beat ''q'', ''old'')]) ''d''
       (wd_files (tk_world (demo_tick no_append_env (\<lambda>_. Inl ''down'') empty_world))) = []
   \<and> wd_files (tk_world (demo_tick no_append_env (\<lambda>_. Inl ''down'') empty_world)) (state_path ''d'')
     \<noteq> wd_files empty_world (state_path ''d'')"
proof -
  let ?jt = "table_text [(beat ''e'', ''beat''), (beat ''q'', ''old'')]" and ?env = no_append_env
  obtain rows state where run: "run_watchers demo_numbers id [one_beat] (load_state ?jt ''d'' (wd_files empty_world)) = (rows, state)"
    by fastforce
  have fresh: "map (stamp ''m'') rows = [beat ''e'']" using one_beat_fresh run by (metis fst_conv)
  let ?w1 = "snd (append_queue ?env ?jt ''d'' [beat ''e''] empty_world)"
  have w1: "wd_files ?w1 = (\<lambda>_. None)" "wd_calls ?w1 = 3"
    by (simp_all add: append_queue_def io_simps no_append_env_def quiet_env_def empty_world_def cong: and_then_weak_cong)
  obtain r w2 where sv: "save_state ?env ?jt ''d'' state ?w1 = (r, w2)" by fastforce
  have stored: "wd_files (snd (save_state ?env ?jt ''d'' state ?w1)) (state_path ''d'') \<noteq> None"
    using w1 by (simp add: save_state_def atomic_write_0600_def io_simps no_append_env_def quiet_env_def cong: and_then_weak_cong)
  have "wd_files w2 (queue_path ''d'') = None"
    using save_state_passed(2) [OF sv] w1 by (simp add: queue_same_def)
  then have "read_queue ?jt ''d'' (wd_files w2) = []" by (rule read_queue_missing)
  moreover have q: "read_queue ?jt ''d'' (wd_files empty_world) = []" by (simp add: read_queue_missing empty_world_def)
  moreover have "tk_world (demo_tick ?env (\<lambda>_. Inl ''down'') empty_world) = w2"
    and "tk_accepted (demo_tick ?env (\<lambda>_. Inl ''down'') empty_world) = []"
    unfolding tick_def run prod.case Let_def fresh q by (simp_all add: sv send_pending_def Let_def)
  ultimately show ?thesis using stored sv by (simp add: empty_world_def)
qed

text \<open>A process killed inside a multi-byte character leaves a queue that is no UTF-8. It reads as
  empty, and the first batch the server then confirms deletes the file: the row queued
  before, intact on its own line and never sent, is gone.\<close>

definition torn_world :: world where
  "torn_world =
     \<lparr>wd_files = [queue_path ''d'' \<mapsto> \<lparr>fl_bytes = ''old'' @ [newline, CHR 0xC3], fl_mode = 0x180\<rparr>],
      wd_calls = 0, wd_trace = []\<rparr>"

theorem torn_append_drops_queue:
  "read_lines (table_text [(beat ''e'', ''beat''), (beat ''q'', ''old'')]) (old_bytes (wd_files torn_world) (queue_path ''d''))
     = [beat ''q'']
   \<and> tk_accepted (demo_tick quiet_env (\<lambda>_. Inr 1) torn_world) = [beat ''e'']
   \<and> wd_files (tk_world (demo_tick quiet_env (\<lambda>_. Inr 1) torn_world)) (queue_path ''d'') = None"
proof (intro conjI)
  let ?jt = "table_text [(beat ''e'', ''beat''), (beat ''q'', ''old'')]"
  show "read_lines ?jt (old_bytes (wd_files torn_world) (queue_path ''d'')) = [beat ''q'']"
    by (simp add: read_lines_def torn_world_def old_bytes_def table_text_def List.map_filter_def beat_def)
  obtain rows state where run: "run_watchers demo_numbers id [one_beat] (load_state ?jt ''d'' (wd_files torn_world)) = (rows, state)"
    by fastforce
  have fresh: "map (stamp ''m'') rows = [beat ''e'']" using one_beat_fresh run by (metis fst_conv)
  have q: "read_queue ?jt ''d'' (wd_files torn_world) = []"
    by (simp add: read_queue_def read_to_string_def torn_world_def utf8_chunk_def lead_ranges_def byte_def)
  let ?w2 = "snd (save_state quiet_env ?jt ''d'' state (snd (append_queue quiet_env ?jt ''d'' [beat ''e''] torn_world)))"
  have n: "take_send_batch ?jt [beat ''e''] MAX_SEND_BYTES = 1"
    by (simp add: take_send_batch_def)
  have res: "tk_accepted (demo_tick quiet_env (\<lambda>_. Inr 1) torn_world) = [beat ''e'']"
    "tk_world (demo_tick quiet_env (\<lambda>_. Inr 1) torn_world) = snd (save_queue quiet_env ?jt ''d'' [] ?w2)"
    unfolding tick_def run prod.case Let_def fresh q by (simp_all add: send_pending_def n)
  show "tk_accepted (demo_tick quiet_env (\<lambda>_. Inr 1) torn_world) = [beat ''e'']" by (rule res(1))
  show "wd_files (tk_world (demo_tick quiet_env (\<lambda>_. Inr 1) torn_world)) (queue_path ''d'') = None"
    unfolding res(2) by (simp add: save_queue_def sys_def quiet_env_def Let_def split: sum.splits)
qed

end
