(* ===== verification/Tracker_Flow.thy ===== *)
theory Tracker_Flow
  imports Ingest Agent_Tick
begin

text \<open>
  The agent and the server together: the agent's HTTP client
  (\<open>crates/stackhour-agent/src/http.rs\<close>), a tick whose batch the ingest route of the server handles,
  and runs of such ticks over a network that loses requests and answers, while other clients
  use the same server.
\<close>

subsection \<open>The HTTP client\<close>




subsection \<open>A tick against the server\<close>

datatype transit = RequestLost | AnswerLost | Delivered










subsection \<open>What the server keeps\<close>


definition keys_grow :: "tracker_db \<Rightarrow> tracker_db \<Rightarrow> bool" where
  "keys_grow db db' \<longleftrightarrow> set (keys_of (td_heartbeats db)) \<subseteq> set (keys_of (td_heartbeats db'))
     \<and> (tracker_ok db \<longrightarrow> tracker_ok db')"


lemma keys_grow_refl [simp]: "keys_grow db db"
  by (simp add: keys_grow_def)









subsection \<open>Runs\<close>





lemma take_read: "(accepted @ rest) = pending \<Longrightarrow> set rest \<subseteq> set pending"
  by auto




subsection \<open>Properties\<close>











end
