(* ===== verification/Agent_Lock.thy ===== *)
theory Agent_Lock
  imports Decimal Fsutil
begin

text \<open>
  The lock file that keeps a second agent from starting (\<open>crates/stackhour-agent/src/lock.rs\<close>).
  \<open>probe pid\<close> is the answer of \<open>kill(pid, 0)\<close>: false only for \<open>ESRCH\<close>. The steps of
  \<open>try_acquire\<close> are definitions of their own, so that two agents can be interleaved.
\<close>

subsection \<open>Operations\<close>

definition lock_path :: "string \<Rightarrow> string" where
  "lock_path data_dir = data_dir @ ''/agent.lock''"

definition pid_is_alive :: "(nat \<Rightarrow> bool) \<Rightarrow> nat \<Rightarrow> bool" where
  "pid_is_alive probe pid \<longleftrightarrow> pid \<le> 2147483647 \<and> pid \<noteq> 0 \<and> probe pid"

text \<open>Leading white space, then decimal digits, then anything; a \<open>u32\<close> above zero.\<close>

definition trim_start :: "string \<Rightarrow> string" where
  "trim_start s = concat (dropWhile (\<lambda>p. is_whitespace (decode_char p)) (char_parts s))"

definition parse_pid :: "string \<Rightarrow> nat option" where
  "parse_pid text =
     (let digits = takeWhile (\<lambda>c. is_ascii_digit (byte c)) (trim_start text) in
      if digits = [] \<or> digits_val digits \<ge> 2 ^ 32 \<or> digits_val digits = 0 then None
      else Some (digits_val digits))"

definition stored_pid :: "files \<Rightarrow> string \<Rightarrow> nat option" where
  "stored_pid fs path =
     (case fs path of
        None \<Rightarrow> None
      | Some f \<Rightarrow> if utf8_valid (fl_bytes f) then parse_pid (fl_bytes f) else None)"

datatype lock_error = AlreadyRunning nat | LockContended | LockIo io_error

definition lock_stamp :: "io_env \<Rightarrow> string \<Rightarrow> nat \<Rightarrow> world \<Rightarrow> (lock_error, unit) result \<times> world" where
  "lock_stamp env path pid w =
     (case and_then (sys env (WriteAll path (nat_str pid)) w) (\<lambda>_ w. sys env (SyncAll path) w) of
        (Inr _, w) \<Rightarrow> (Inr (), w)
      | (Inl e, w) \<Rightarrow> (Inl (LockIo e), snd (sys env (RemoveFile path) w)))"

definition lock_judge :: "(nat \<Rightarrow> bool) \<Rightarrow> string \<Rightarrow> world \<Rightarrow> lock_error option" where
  "lock_judge probe path w =
     (case stored_pid (wd_files w) path of
        Some owner \<Rightarrow> if pid_is_alive probe owner then Some (AlreadyRunning owner) else None
      | None \<Rightarrow> None)"

definition lock_clear :: "io_env \<Rightarrow> string \<Rightarrow> world \<Rightarrow> world" where
  "lock_clear env path w = snd (sys env (RemoveFile path) w)"

text \<open>One attempt: \<open>None\<close> when the lock is stale, to be cleared and retried.\<close>

definition lock_attempt ::
  "io_env \<Rightarrow> (nat \<Rightarrow> bool) \<Rightarrow> string \<Rightarrow> nat \<Rightarrow> world \<Rightarrow> (lock_error, unit) result option \<times> world" where
  "lock_attempt env probe path pid w =
     (case create_excl env path 0x180 w of
        (Inr _, w) \<Rightarrow> (let (r, w) = lock_stamp env path pid w in (Some r, w))
      | (Inl AlreadyExists, w) \<Rightarrow>
          (case lock_judge probe path w of
             Some e \<Rightarrow> (Some (Inl e), w)
           | None \<Rightarrow> (None, w))
      | (Inl e, w) \<Rightarrow> (Some (Inl (LockIo e)), w))"




subsection \<open>A pid survives the round trip\<close>

lemma digits_no_white: "is_ascii_digit (byte c) \<Longrightarrow> \<not> is_whitespace (decode_char [c])"
  by (simp add: is_ascii_digit_def is_whitespace_def)

lemma trim_start_nat_str: "trim_start (nat_str n) = nat_str n"
proof -
  obtain c cs where c: "nat_str n = c # cs" by (cases "nat_str n") auto
  then have "is_ascii_digit (byte c)" using nat_str_digits [of c n] by simp
  then have "dropWhile (\<lambda>p. is_whitespace (decode_char p)) (map (\<lambda>c. [c]) (nat_str n)) = map (\<lambda>c. [c]) (nat_str n)"
    using digits_no_white by (simp add: c)
  then show ?thesis using ascii_parts [OF digits_ascii] by (simp add: trim_start_def)
qed

lemma parse_pid_nat_str:
  assumes "0 < n" and "n < 2 ^ 32"
  shows "parse_pid (nat_str n) = Some n"
proof -
  have tw: "takeWhile (\<lambda>c. is_ascii_digit (byte c)) (nat_str n) = nat_str n"
    using nat_str_digits [of _ n] by (simp add: takeWhile_eq_all_conv)
  show ?thesis using assms unfolding parse_pid_def trim_start_nat_str tw by (simp add: digits_val_nat_str)
qed

lemma stored_pid_own:
  assumes "fs path = Some \<lparr>fl_bytes = nat_str pid, fl_mode = m\<rparr>" and "0 < pid" and "pid < 2 ^ 32"
  shows "stored_pid fs path = Some pid"
  using assms parse_pid_nat_str [of pid] ascii_utf8 [OF digits_ascii] by (simp add: stored_pid_def)

subsection \<open>Holding the lock\<close>















subsection \<open>What other agents may do meanwhile\<close>












subsection \<open>Properties\<close>


text \<open>A first start (pid 7); a second agent (pid 8) tries in vain, ends, and tries again in vain;
  it holds the lock after the release of the first, and also when the first has died.\<close>

definition second_env :: io_env where
  "second_env = quiet_env\<lparr>io_pid := 8\<rparr>"




subsection \<open>A race on a stale lock\<close>

text \<open>A dead agent (pid 9) has left its lock. Two agents find it stale before either clears it.
  The first clears it, creates its own and runs; the second, still acting on what it read,
  clears the lock of the first and creates its own: both hold the lock.\<close>

definition stale_world :: world where
  "stale_world =
     \<lparr>wd_files = [lock_path ''d'' \<mapsto> \<lparr>fl_bytes = nat_str 9, fl_mode = 0x180\<rparr>], wd_calls = 0, wd_trace = []\<rparr>"

theorem two_agents_take_a_stale_lock:
  fixes alive :: "nat \<Rightarrow> bool"
  defines "alive \<equiv> (\<lambda>pid. pid = 7 \<or> pid = 8)" and "path \<equiv> lock_path ''d''"
  defines "a1 \<equiv> lock_attempt quiet_env alive path 7 stale_world"
  defines "b1 \<equiv> lock_attempt second_env alive path 8 (snd a1)"
  defines "a2 \<equiv> lock_attempt quiet_env alive path 7 (lock_clear quiet_env path (snd b1))"
  defines "b2 \<equiv> lock_attempt second_env alive path 8 (lock_clear second_env path (snd a2))"
  shows "fst a1 = None \<and> fst b1 = None \<and> fst a2 = Some (Inr ()) \<and> fst b2 = Some (Inr ())"
proof -
  have nine: "stored_pid [lock_path ''d'' \<mapsto> \<lparr>fl_bytes = nat_str 9, fl_mode = 0x180\<rparr>] (lock_path ''d'') = Some 9"
    by (rule stored_pid_own) simp_all
  have "\<exists>tr. a1 = (None, stale_world\<lparr>wd_calls := 2, wd_trace := tr\<rparr>)"
    unfolding a1_def lock_attempt_def path_def
    by (simp add: io_simps quiet_env_def stale_world_def lock_judge_def nine pid_is_alive_def alive_def cong: and_then_weak_cong)
  then obtain t1 where a1: "a1 = (None, stale_world\<lparr>wd_calls := 2, wd_trace := t1\<rparr>)" ..
  have "\<exists>tr. b1 = (None, stale_world\<lparr>wd_calls := 4, wd_trace := tr\<rparr>)"
    unfolding b1_def a1 lock_attempt_def path_def
    by (simp add: io_simps quiet_env_def second_env_def stale_world_def lock_judge_def nine pid_is_alive_def alive_def cong: and_then_weak_cong)
  then obtain t2 where b1: "b1 = (None, stale_world\<lparr>wd_calls := 4, wd_trace := t2\<rparr>)" ..
  have "fst a2 = Some (Inr ()) \<and> wd_files (snd a2) path \<noteq> None"
    unfolding a2_def b1 lock_attempt_def path_def
    by (simp add: io_simps quiet_env_def stale_world_def lock_clear_def lock_stamp_def cong: and_then_weak_cong)
  moreover have "fst b2 = Some (Inr ())" if "wd_files (snd a2) path \<noteq> None"
    using that unfolding b2_def lock_attempt_def path_def
    by (auto simp: io_simps quiet_env_def second_env_def lock_clear_def lock_stamp_def cong: and_then_weak_cong)
  ultimately show ?thesis using a1 b1 by simp
qed

end
