(* ===== verification/Project.thy ===== *)
theory Project
  imports Str_Ops Decimal
begin

text \<open>
  The project of a location (\<open>crates/stackhour-core/src/project.rs\<close>): lexical path resolution, the
  enclosing git repository, its remote in the form \<open>host/owner/repo\<close>, and the aliases. The file
  system is a map from paths to directories and file contents. The four regular expressions are
  spelled out on the characters of the text. The URL parser is the crate \<open>url\<close>; lower case
  is that of Unicode. Both are fields of \<open>git_env\<close>.
\<close>

subsection \<open>Paths\<close>

datatype node_entry = DirEntry | FileEntry string

record git_env =
  ge_meta :: "string \<Rightarrow> node_entry option"
  ge_cwd :: string
  ge_url :: "string \<Rightarrow> (string option \<times> string) option"   \<comment> \<open>host and path\<close>
  ge_lower :: "string \<Rightarrow> string"

abbreviation slash :: char where
  "slash \<equiv> CHR 0x2F"

definition normalize_step :: "string list \<Rightarrow> string \<Rightarrow> string list" where
  "normalize_step stack seg =
     (if seg = [] \<or> seg = ''.'' then stack else if seg = ''..'' then butlast stack else stack @ [seg])"

definition normalize_abs :: "string \<Rightarrow> string" where
  "normalize_abs p =
     (let stack = foldl normalize_step [] (split_char slash p)
      in if stack = [] then ''/'' else slash # str_join ''/'' stack)"

definition js_resolve1 :: "git_env \<Rightarrow> string \<Rightarrow> string" where
  "js_resolve1 env p = (if starts_with ''/'' p then normalize_abs p else normalize_abs (ge_cwd env @ ''/'' @ p))"

definition js_resolve2 :: "git_env \<Rightarrow> string \<Rightarrow> string \<Rightarrow> string" where
  "js_resolve2 env base p =
     (if starts_with ''/'' p then normalize_abs p
      else if starts_with ''/'' base then normalize_abs (base @ ''/'' @ p)
      else normalize_abs (ge_cwd env @ ''/'' @ base @ ''/'' @ p))"

definition trim_end_slashes :: "string \<Rightarrow> string" where
  "trim_end_slashes p = rev (dropWhile (\<lambda>c. c = slash) (rev p))"

definition trim_slashes :: "string \<Rightarrow> string" where
  "trim_slashes p = trim_end_slashes (dropWhile (\<lambda>c. c = slash) p)"

text \<open>\<open>rfind('/')\<close> as the parts before and behind the last slash.\<close>

definition rsplit_slash :: "string \<Rightarrow> (string \<times> string) option" where
  "rsplit_slash p =
     (if slash \<in> set p then
        Some (rev (tl (dropWhile (\<lambda>c. c \<noteq> slash) (rev p))), rev (takeWhile (\<lambda>c. c \<noteq> slash) (rev p)))
      else None)"

definition js_dirname :: "string \<Rightarrow> string" where
  "js_dirname p =
     (let trimmed = trim_end_slashes p in
      if trimmed = [] then ''/''
      else (case rsplit_slash trimmed of
              Some ([], _) \<Rightarrow> ''/''
            | Some (before, _) \<Rightarrow> before
            | None \<Rightarrow> ''.''))"

definition js_basename :: "string \<Rightarrow> string" where
  "js_basename p =
     (let trimmed = trim_end_slashes p in
      if trimmed = [] then []
      else (case rsplit_slash trimmed of Some (_, behind) \<Rightarrow> behind | None \<Rightarrow> trimmed))"

definition read_text :: "git_env \<Rightarrow> string \<Rightarrow> string option" where
  "read_text env path = (case ge_meta env path of Some (FileEntry bytes) \<Rightarrow> Some (utf8_lossy bytes) | _ \<Rightarrow> None)"

subsection \<open>The regular expressions\<close>

definition is_space :: "string \<Rightarrow> bool" where
  "is_space part = is_whitespace (decode_char part)"

definition skip_spaces :: "string \<Rightarrow> string" where
  "skip_spaces s = concat (dropWhile is_space (char_parts s))"

text \<open>The case-insensitive match of an ASCII word that neither \<open>k\<close> nor \<open>s\<close> occurs in.\<close>

definition ascii_lower :: "char \<Rightarrow> char" where
  "ascii_lower c = (if 65 \<le> byte c \<and> byte c \<le> 90 then char_of (byte c + 32) else c)"

definition strip_prefix_ci :: "string \<Rightarrow> string \<Rightarrow> string option" where
  "strip_prefix_ci word s = (if map ascii_lower (take (length word) s) = word then Some (drop (length word) s) else None)"

text \<open>\<open>(.+)$\<close>: something, without a newline, up to the end.\<close>

definition rest_of_line :: "string \<Rightarrow> string option" where
  "rest_of_line s = (if s \<noteq> [] \<and> newline \<notin> set s then Some s else None)"

text \<open>\<open>^gitdir:\s*(.+)$\<close>, on a text without white space at its ends.\<close>

definition gitdir_re :: "string \<Rightarrow> string option" where
  "gitdir_re s = Option.bind (strip_prefix_ci ''gitdir:'' s) (\<lambda>t. rest_of_line (skip_spaces t))"

text \<open>\<open>^\[remote\s+"([^"]+)"\]$\<close>.\<close>

definition remote_header_re :: "string \<Rightarrow> string option" where
  "remote_header_re s =
     Option.bind (strip_prefix_ci ''[remote'' s) (\<lambda>t.
       let u = skip_spaces t; quote = CHR 0x22 in
       if u = t then None
       else
         (case u of
            c # v \<Rightarrow>
              (let name = takeWhile (\<lambda>x. x \<noteq> quote) v in
               if c = quote \<and> name \<noteq> [] \<and> drop (length name) v = [quote, CHR '']''] then Some name else None)
          | [] \<Rightarrow> None))"

text \<open>\<open>^url\s*=\s*(.+)$\<close>, on a text without white space at its ends.\<close>

definition url_line_re :: "string \<Rightarrow> string option" where
  "url_line_re s =
     Option.bind (strip_prefix_ci ''url'' s) (\<lambda>t.
     Option.bind (strip_prefix ''='' (skip_spaces t)) (\<lambda>u. rest_of_line (skip_spaces u)))"

text \<open>\<open>^(?:[^@/\s]+@)?([^:/\s]+):(.+)$\<close>: the host and the path. The user is tried first.\<close>

definition part_in :: "char \<Rightarrow> string \<Rightarrow> bool" where
  "part_in c part \<longleftrightarrow> \<not> is_space part \<and> part \<noteq> [slash] \<and> part \<noteq> [c]"

definition scp_host :: "string list \<Rightarrow> (string \<times> string) option" where
  "scp_host parts =
     (let host = takeWhile (part_in CHR '':'') parts in
      case drop (length host) parts of
        p # rest \<Rightarrow>
          if p = '':'' \<and> host \<noteq> [] then map_option (Pair (concat host)) (rest_of_line (concat rest)) else None
      | [] \<Rightarrow> None)"

definition scp_re :: "string \<Rightarrow> (string \<times> string) option" where
  "scp_re s =
     (let parts = char_parts s;
          user = takeWhile (part_in CHR ''@'') parts;
          behind_user = (case drop (length user) parts of
             p # rest \<Rightarrow> if p = ''@'' \<and> user \<noteq> [] then scp_host rest else None
           | [] \<Rightarrow> None)
      in case behind_user of Some r \<Rightarrow> Some r | None \<Rightarrow> scp_host parts)"

subsection \<open>Repositories\<close>

definition git_dir_for :: "git_env \<Rightarrow> string \<Rightarrow> string option" where
  "git_dir_for env root =
     (let dot_git = trim_end_slashes root @ ''/.git'' in
      case ge_meta env dot_git of
        None \<Rightarrow> None
      | Some DirEntry \<Rightarrow> Some dot_git
      | Some (FileEntry _) \<Rightarrow>
          Option.bind (read_text env dot_git) (\<lambda>content.
            map_option (js_resolve2 env root) (gitdir_re (str_trim content))))"

definition common_git_dir :: "git_env \<Rightarrow> string \<Rightarrow> string" where
  "common_git_dir env git_dir =
     (case read_text env (git_dir @ ''/commondir'') of
        Some content \<Rightarrow> js_resolve2 env git_dir (str_trim content)
      | None \<Rightarrow> git_dir)"

definition walk_size :: "string \<Rightarrow> nat" where
  "walk_size p = (if p = ''/'' \<or> p = ''.'' then 0 else if p = [] then 1 else Suc (length p))"

lemma trim_end_length: "length (trim_end_slashes p) \<le> length p"
  unfolding trim_end_slashes_def by (metis length_dropWhile_le length_rev)

lemma rsplit_length: "rsplit_slash p = Some (a, b) \<Longrightarrow> length a < length p"
proof -
  assume "rsplit_slash p = Some (a, b)"
  then have mem: "slash \<in> set p" and a: "a = rev (tl (dropWhile (\<lambda>c. c \<noteq> slash) (rev p)))"
    by (auto simp: rsplit_slash_def split: if_splits)
  have "dropWhile (\<lambda>c. c \<noteq> slash) (rev p) \<noteq> []" using mem by (simp add: dropWhile_eq_Nil_conv)
  moreover have "length (dropWhile (\<lambda>c. c \<noteq> slash) (rev p)) \<le> length p"
    by (metis length_dropWhile_le length_rev)
  ultimately show ?thesis unfolding a by (cases "dropWhile (\<lambda>c. c \<noteq> slash) (rev p)") simp_all
qed

lemma path_units [simp]:
  "trim_end_slashes ''/'' = []" "trim_end_slashes ''.'' = ''.''" "trim_end_slashes [] = []"
  "rsplit_slash [] = None" "rsplit_slash ''.'' = None"
  by (simp_all add: trim_end_slashes_def rsplit_slash_def)

lemma dirname_smaller: "js_dirname p \<noteq> p \<Longrightarrow> walk_size (js_dirname p) < walk_size p"
  using trim_end_length [of p] rsplit_length [of "trim_end_slashes p"]
  by (auto simp: js_dirname_def Let_def walk_size_def split: option.splits list.splits)

text \<open>The walk towards the root; it ends because the parent of a path is shorter.\<close>

function walk_up :: "git_env \<Rightarrow> string \<Rightarrow> string option" where
  "walk_up env current =
     (if git_dir_for env current \<noteq> None then Some current
      else if js_dirname current = current then None
      else walk_up env (js_dirname current))"
  by pat_completeness auto

termination
  by (relation "measure (\<lambda>(env, p). walk_size p)") (simp_all add: dirname_smaller)

declare walk_up.simps [simp del]

definition repository_root :: "git_env \<Rightarrow> string \<Rightarrow> string option" where
  "repository_root env location =
     walk_up env
       (case ge_meta env location of
          Some DirEntry \<Rightarrow> js_resolve1 env location
        | Some (FileEntry _) \<Rightarrow> js_dirname (js_resolve1 env location)
        | None \<Rightarrow> js_resolve1 env location)"

text \<open>The scan of \<open>.git/config\<close>: the current section, empty outside a remote, and the remotes found.\<close>

definition config_line :: "string \<times> (string \<times> string) list \<Rightarrow> string \<Rightarrow> string \<times> (string \<times> string) list" where
  "config_line st raw =
     (let (section, remotes) = st; line = str_trim raw in
      case remote_header_re line of
        Some name \<Rightarrow> (name, remotes)
      | None \<Rightarrow>
          if starts_with ''['' line then ([], remotes)
          else if section \<noteq> [] then
            (case url_line_re line of
               Some url \<Rightarrow> (section, remotes @ [(section, str_trim url)])
             | None \<Rightarrow> (section, remotes))
          else (section, remotes))"

definition remote_from_config :: "string \<Rightarrow> string option" where
  "remote_from_config config =
     (let remotes = snd (foldl config_line ([], []) (split_nl config)) in
      map_option snd
        (case find (\<lambda>r. fst r = ''origin'') remotes of
           Some r \<Rightarrow> Some r
         | None \<Rightarrow> (case remotes of r # _ \<Rightarrow> Some r | [] \<Rightarrow> None)))"

definition strip_dot_git :: "string \<Rightarrow> string" where
  "strip_dot_git p =
     (if 4 \<le> length p \<and> map ascii_lower (drop (length p - 4) p) = ''.git'' then take (length p - 4) p else p)"

definition normalize_git_remote :: "git_env \<Rightarrow> string \<Rightarrow> string option" where
  "normalize_git_remote env remote =
     (if remote = [] then None
      else
        (let trimmed = str_trim remote;
             from_url = map_option (\<lambda>(host, path). (case host of Some h \<Rightarrow> h | None \<Rightarrow> [], path)) (ge_url env trimmed)
         in case (if str_contains ''://'' remote then from_url
                  else (case scp_re trimmed of Some hp \<Rightarrow> Some hp | None \<Rightarrow> from_url)) of
              None \<Rightarrow> None
            | Some (host, path) \<Rightarrow>
                (let clean_path = strip_dot_git (trim_slashes path) in
                 if host = [] \<or> clean_path = [] then None else Some (ge_lower env host @ ''/'' @ clean_path))))"

definition git_remote_for_root :: "git_env \<Rightarrow> string \<Rightarrow> string option" where
  "git_remote_for_root env root =
     Option.bind (git_dir_for env root) (\<lambda>git_dir.
     Option.bind (read_text env (common_git_dir env git_dir @ ''/config'')) (\<lambda>config.
     Option.bind (remote_from_config config) (normalize_git_remote env)))"

definition git_remote :: "git_env \<Rightarrow> string \<Rightarrow> string option" where
  "git_remote env location = Option.bind (repository_root env location) (git_remote_for_root env)"

subsection \<open>The project name\<close>

text \<open>\<open>aliases\<close> is an ordered map.\<close>

fun alias_for :: "git_env \<Rightarrow> (string \<times> string) list \<Rightarrow> string option list \<Rightarrow> string option" where
  "alias_for env aliases [] = None"
| "alias_for env aliases (None # cs) = alias_for env aliases cs"
| "alias_for env aliases (Some c # cs) =
     (if c = [] then alias_for env aliases cs
      else
        (case map_of aliases c of
           Some v \<Rightarrow> Some v
         | None \<Rightarrow>
             (case find (\<lambda>kv. ge_lower env (fst kv) = ge_lower env c) aliases of
                Some kv \<Rightarrow> Some (snd kv)
              | None \<Rightarrow> alias_for env aliases cs)))"

definition last_two :: "string \<Rightarrow> string" where
  "last_two r = (let segments = split_char slash r in str_join ''/'' (drop (length segments - 2) segments))"

definition not_empty :: "string option \<Rightarrow> string option" where
  "not_empty x = (case x of Some [] \<Rightarrow> None | y \<Rightarrow> y)"

definition or_else :: "'a option \<Rightarrow> 'a option \<Rightarrow> 'a option" where
  "or_else x y = (case x of Some v \<Rightarrow> Some v | None \<Rightarrow> y)"

definition resolve_project_with_root ::
  "git_env \<Rightarrow> string \<Rightarrow> (string \<times> string) list \<Rightarrow> string option \<Rightarrow> string option \<Rightarrow> string" where
  "resolve_project_with_root env location aliases fallback root =
     (let v = str_trim location;
          remote = Option.bind root (git_remote_for_root env);
          remote_project = map_option last_two remote;
          path_fallback = (case root of Some r \<Rightarrow> Some (js_basename r)
                           | None \<Rightarrow> if v \<noteq> [] then Some (js_basename v) else None);
          name = (case or_else (not_empty fallback) (not_empty path_fallback) of Some n \<Rightarrow> n | None \<Rightarrow> ''unknown'');
          candidates = [if v = [] then None else Some (js_resolve1 env v), root, remote, remote_project, Some name]
      in case or_else (not_empty (alias_for env aliases candidates)) remote_project of Some p \<Rightarrow> p | None \<Rightarrow> name)"

definition resolve_project :: "git_env \<Rightarrow> string \<Rightarrow> (string \<times> string) list \<Rightarrow> string option \<Rightarrow> string" where
  "resolve_project env location aliases fallback =
     (let v = str_trim location;
          root = (if v \<noteq> [] \<and> starts_with ''/'' v then repository_root env v else None)
      in resolve_project_with_root env location aliases fallback root)"

text \<open>\<open>Path::starts_with\<close>: by components, where a trailing or doubled slash and \<open>.\<close> do not count.\<close>

definition components :: "string \<Rightarrow> string list" where
  "components p =
     (let segs = filter (\<lambda>s. s \<noteq> []) (split_char slash p);
          norm = (case segs of s # ss \<Rightarrow>
                    (if s = ''.'' \<and> starts_with ''/'' p then [] else [s]) @ filter (\<lambda>x. x \<noteq> ''.'') ss
                  | [] \<Rightarrow> [])
      in (if starts_with ''/'' p then [''/''] else []) @ norm)"

definition path_starts_with :: "string \<Rightarrow> string \<Rightarrow> bool" where
  "path_starts_with base p \<longleftrightarrow> take (length (components base)) (components p) = components base"

definition resolve_project_within ::
  "git_env \<Rightarrow> string \<Rightarrow> string \<Rightarrow> (string \<times> string) list \<Rightarrow> string option \<Rightarrow> string" where
  "resolve_project_within env location boundary aliases fallback =
     (let v = str_trim location;
          root = (if v \<noteq> [] \<and> starts_with ''/'' v then
                    (case repository_root env v of
                       Some r \<Rightarrow> if path_starts_with boundary r then Some r else None
                     | None \<Rightarrow> None)
                  else None)
      in resolve_project_with_root env location aliases fallback root)"

text \<open>The branch of the repository at \<open>dir\<close>.\<close>

definition replace_first :: "string \<Rightarrow> string \<Rightarrow> string" where
  "replace_first p s =
     (case find (\<lambda>i. starts_with p (drop i s)) [0..<Suc (length s)] of
        Some i \<Rightarrow> take i s @ drop (i + length p) s
      | None \<Rightarrow> s)"

definition git_branch :: "git_env \<Rightarrow> string \<Rightarrow> string option" where
  "git_branch env dir =
     (let dot_git = trim_end_slashes dir @ ''/.git'' in
      Option.bind
        (case ge_meta env dot_git of
           None \<Rightarrow> None
         | Some (FileEntry _) \<Rightarrow>
             Option.bind (read_text env dot_git) (\<lambda>content.
               map_option (js_resolve2 env dir) (gitdir_re (str_trim content)))
         | Some DirEntry \<Rightarrow> Some dot_git) (\<lambda>git_dir.
      map_option
        (\<lambda>content.
           let head = str_trim content in
           case strip_prefix ''ref: '' head of
             Some reference \<Rightarrow> replace_first ''refs/heads/'' reference
           | None \<Rightarrow> take_chars 12 head)
        (read_text env (git_dir @ ''/HEAD''))))"

subsection \<open>Normalized paths\<close>

definition seg_ok :: "string \<Rightarrow> bool" where
  "seg_ok x \<longleftrightarrow> x \<noteq> [] \<and> slash \<notin> set x"

definition abs_path :: "string list \<Rightarrow> string" where
  "abs_path segs = (if segs = [] then ''/'' else slash # str_join ''/'' segs)"

lemma abs_path_snoc: "abs_path (segs @ [x]) = (if segs = [] then [] else abs_path segs) @ slash # x"
  by (simp add: abs_path_def str_join_snoc)

lemma rsplit_slash_snoc: "slash \<notin> set x \<Longrightarrow> rsplit_slash (a @ slash # x) = Some (a, x)"
proof -
  assume "slash \<notin> set x"
  then have "takeWhile (\<lambda>c. c \<noteq> slash) (rev x @ slash # rev a) = rev x"
    and "dropWhile (\<lambda>c. c \<noteq> slash) (rev x @ slash # rev a) = slash # rev a"
    by (auto simp: takeWhile_append dropWhile_append)
  then show ?thesis by (simp add: rsplit_slash_def)
qed

lemma trim_end_seg: "seg_ok x \<Longrightarrow> trim_end_slashes (a @ slash # x) = a @ slash # x"
  by (cases x rule: rev_cases) (auto simp: trim_end_slashes_def seg_ok_def)

lemma dirname_abs:
  assumes "seg_ok x"
  shows "js_dirname (abs_path (segs @ [x])) = abs_path segs"
proof -
  let ?a = "if segs = [] then [] else abs_path segs"
  have "trim_end_slashes (abs_path (segs @ [x])) = ?a @ slash # x"
    unfolding abs_path_snoc by (rule trim_end_seg [OF assms])
  moreover have "rsplit_slash (?a @ slash # x) = Some (?a, x)"
    using assms by (intro rsplit_slash_snoc) (simp add: seg_ok_def)
  ultimately show ?thesis by (simp add: js_dirname_def Let_def abs_path_def split: list.splits)
qed

lemma dirname_root: "js_dirname (abs_path []) = abs_path []"
  by (simp add: js_dirname_def abs_path_def)

lemma abs_path_inj_snoc: "seg_ok x \<Longrightarrow> abs_path segs \<noteq> abs_path (segs @ [x])"
proof (cases "segs = []")
  case False
  then show ?thesis by (simp add: abs_path_snoc)
qed (auto simp: abs_path_def seg_ok_def)

text \<open>The path itself, its parent, and so on up to the root.\<close>

definition ancestors :: "string list \<Rightarrow> string list list" where
  "ancestors segs = map (\<lambda>k. take k segs) (rev [0..<Suc (length segs)])"

lemma ancestors_nil: "ancestors [] = [[]]"
  by (simp add: ancestors_def)

lemma ancestors_snoc: "ancestors (segs @ [x]) = (segs @ [x]) # ancestors segs"
  by (simp add: ancestors_def)

lemma walk_up_nearest:
  "list_all seg_ok segs \<Longrightarrow>
    walk_up env (abs_path segs) = find (\<lambda>d. git_dir_for env d \<noteq> None) (map abs_path (ancestors segs))"
proof (induction segs rule: rev_induct)
  case Nil
  then show ?case by (subst walk_up.simps) (simp add: ancestors_nil dirname_root)
next
  case (snoc x segs)
  then have ok: "seg_ok x" "list_all seg_ok segs" by simp_all
  show ?case
    by (subst walk_up.simps)
      (simp add: ancestors_snoc dirname_abs [OF ok(1)] snoc.IH [OF ok(2)] abs_path_inj_snoc [OF ok(1)])
qed

definition plain_seg :: "string \<Rightarrow> bool" where
  "plain_seg x \<longleftrightarrow> seg_ok x \<and> x \<noteq> ''.'' \<and> x \<noteq> ''..''"

lemma normalize_step_ok:
  "slash \<notin> set x \<Longrightarrow> list_all plain_seg stack \<Longrightarrow> list_all plain_seg (normalize_step stack x)"
  by (auto simp: normalize_step_def plain_seg_def seg_ok_def list_all_iff dest: in_set_butlastD)

lemma normalize_steps_ok:
  "list_all (\<lambda>x. slash \<notin> set x) segs \<Longrightarrow> list_all plain_seg stack \<Longrightarrow> list_all plain_seg (foldl normalize_step stack segs)"
proof (induction segs arbitrary: stack)
  case (Cons x segs)
  then show ?case using normalize_step_ok [of x stack] by simp
qed simp

lemma normalize_abs_ok: "\<exists>segs. list_all plain_seg segs \<and> normalize_abs p = abs_path segs"
proof -
  have "list_all plain_seg (foldl normalize_step [] (split_char slash p))"
    using normalize_steps_ok [of "split_char slash p" "[]"] split_char_parts [of slash p] by simp
  then show ?thesis by (auto simp: normalize_abs_def abs_path_def Let_def)
qed

lemma normalize_steps_plain: "list_all plain_seg segs \<Longrightarrow> foldl normalize_step stack segs = stack @ segs"
  by (induction segs arbitrary: stack) (simp_all add: normalize_step_def plain_seg_def seg_ok_def)

lemma split_abs_path: "list_all seg_ok segs \<Longrightarrow> segs \<noteq> [] \<Longrightarrow> split_char slash (abs_path segs) = [] # segs"
  using split_char_join [of segs slash] by (simp add: abs_path_def list_all_iff seg_ok_def)

lemma normalize_abs_plain: "list_all plain_seg segs \<Longrightarrow> normalize_abs (abs_path segs) = abs_path segs"
proof (cases "segs = []")
  case False
  assume ok: "list_all plain_seg segs"
  then have "split_char slash (abs_path segs) = [] # segs"
    using split_abs_path [of segs] False by (simp add: list_all_iff plain_seg_def)
  then show ?thesis
    using normalize_steps_plain [OF ok, of "[]"] False by (simp add: normalize_abs_def normalize_step_def abs_path_def)
qed (simp add: normalize_abs_def abs_path_def normalize_step_def)

lemma normalize_abs_idem: "normalize_abs (normalize_abs p) = normalize_abs p"
  using normalize_abs_ok [of p] normalize_abs_plain by metis

lemma js_resolve1_ok: "\<exists>segs. list_all plain_seg segs \<and> js_resolve1 env p = abs_path segs"
  using normalize_abs_ok by (simp add: js_resolve1_def)

lemma plain_segs_ok: "list_all plain_seg segs \<Longrightarrow> list_all seg_ok segs"
  by (simp add: list_all_iff plain_seg_def)

lemma dirname_plain: "list_all plain_seg segs \<Longrightarrow> js_dirname (abs_path segs) = abs_path (butlast segs)"
  using dirname_abs [of "last segs" "butlast segs"] dirname_root
  by (cases "segs = []") (auto simp: list_all_iff plain_seg_def)

lemma plain_butlast: "list_all plain_seg segs \<Longrightarrow> list_all plain_seg (butlast segs)"
  by (simp add: list_all_iff in_set_butlastD)

text \<open>The directory a walk starts in.\<close>

definition start_segs :: "git_env \<Rightarrow> string \<Rightarrow> string list \<Rightarrow> string list" where
  "start_segs env location segs = (case ge_meta env location of Some (FileEntry _) \<Rightarrow> butlast segs | _ \<Rightarrow> segs)"

lemma start_segs_plain: "list_all plain_seg segs \<Longrightarrow> list_all plain_seg (start_segs env location segs)"
  by (simp add: start_segs_def plain_butlast split: option.split node_entry.split)

lemma repository_root_walk:
  assumes "list_all plain_seg segs" and "js_resolve1 env location = abs_path segs"
  shows "repository_root env location
    = find (\<lambda>d. git_dir_for env d \<noteq> None) (map abs_path (ancestors (start_segs env location segs)))"
proof -
  have "repository_root env location = walk_up env (abs_path (start_segs env location segs))"
    using dirname_plain [OF assms(1)]
    by (simp add: repository_root_def start_segs_def assms(2) split: option.split node_entry.split)
  then show ?thesis using walk_up_nearest [OF plain_segs_ok [OF start_segs_plain [OF assms(1)]]] by simp
qed

subsection \<open>Components\<close>

lemma components_abs: "list_all plain_seg segs \<Longrightarrow> components (abs_path segs) = ''/'' # segs"
proof (cases segs)
  case (Cons x xs)
  assume ok: "list_all plain_seg segs"
  have "filter (\<lambda>s. s \<noteq> []) (split_char slash (abs_path segs)) = segs"
    using split_abs_path [OF plain_segs_ok [OF ok]] ok Cons
    by (simp add: filter_id_conv list_all_iff plain_seg_def seg_ok_def)
  moreover have "filter (\<lambda>y. y \<noteq> ''.'') xs = xs" and "x \<noteq> ''.''"
    using ok Cons by (auto simp: filter_id_conv list_all_iff plain_seg_def)
  moreover have "starts_with ''/'' (abs_path segs)" using Cons by (simp add: abs_path_def starts_with_def)
  ultimately show ?thesis by (simp add: components_def Cons)
qed (simp add: components_def abs_path_def starts_with_def)

text \<open>Below a directory outside the boundary there may be directories inside it, but never above.\<close>

lemma ancestors_prefix: "a \<in> set (ancestors segs) \<Longrightarrow> \<exists>k. a = take k segs"
  by (auto simp: ancestors_def intro: exI [of _ "length segs"])

lemma inside_mono:
  assumes "list_all plain_seg segs" and "path_starts_with b (abs_path (take k segs))"
  shows "path_starts_with b (abs_path segs)"
proof -
  have ok: "list_all plain_seg (take k segs)" using assms(1) by (auto simp: list_all_iff dest: in_set_takeD)
  let ?n = "length (components b)"
  have t: "take ?n (''/'' # take k segs) = components b"
    using assms(2) components_abs [OF ok] by (simp add: path_starts_with_def)
  then have "?n \<le> length (''/'' # take k segs)" by (metis length_take min.cobounded1 min.commute)
  then have "take ?n (''/'' # segs) = take ?n (''/'' # take k segs)"
    by (cases ?n) (auto simp: min_def split: if_splits)
  then show ?thesis using t components_abs [OF assms(1)] by (simp add: path_starts_with_def)
qed

fun inner_first :: "('a \<Rightarrow> bool) \<Rightarrow> 'a list \<Rightarrow> bool" where
  "inner_first inside [] = True"
| "inner_first inside (x # xs) = ((\<forall>y \<in> set xs. inside y \<longrightarrow> inside x) \<and> inner_first inside xs)"

definition keep_if :: "('a \<Rightarrow> bool) \<Rightarrow> 'a option \<Rightarrow> 'a option" where
  "keep_if P x = (case x of Some v \<Rightarrow> if P v then Some v else None | None \<Rightarrow> None)"

lemma find_inside_ignores:
  "inner_first inside xs \<Longrightarrow> \<not> inside d
    \<Longrightarrow> keep_if inside (find (\<lambda>x. x \<noteq> d \<and> P x) xs) = keep_if inside (find P xs)"
proof (induction xs)
  case (Cons x xs)
  have "keep_if inside (find (\<lambda>x. x \<noteq> d \<and> P x) xs) = None" if "x = d"
    using Cons.prems that by (auto simp: keep_if_def find_Some_iff split: option.split)
  then show ?case using Cons by (auto simp: keep_if_def)
qed (simp add: keep_if_def)

lemma ancestors_inner_first:
  "list_all plain_seg segs \<Longrightarrow> inner_first (path_starts_with b) (map abs_path (ancestors segs))"
proof (induction segs rule: rev_induct)
  case (snoc x segs)
  have "path_starts_with b (abs_path (segs @ [x]))" if "a \<in> set (ancestors segs)" "path_starts_with b (abs_path a)" for a
  proof -
    have "\<exists>k. a = take k segs" using that(1) by (rule ancestors_prefix)
    then obtain k where k: "a = take k segs" by blast
    then have "a = take (min k (length segs)) (segs @ [x])" by (simp add: min_def)
    then show ?thesis using inside_mono [OF snoc.prems, of b "min k (length segs)"] that(2) by simp
  qed
  then show ?case using snoc by (auto simp: ancestors_snoc)
qed (simp add: ancestors_nil)

definition hide :: "string \<Rightarrow> git_env \<Rightarrow> git_env" where
  "hide p env = env\<lparr>ge_meta := (ge_meta env)(p := None)\<rparr>"

lemma hide_resolve [simp]:
  "js_resolve1 (hide p env) = js_resolve1 env" "js_resolve2 (hide p env) = js_resolve2 env"
  "ge_meta (hide p env) = (ge_meta env)(p := None)" "ge_lower (hide p env) = ge_lower env" "ge_url (hide p env) = ge_url env"
  "read_text (hide p env) q = (if q = p then None else read_text env q)"
  by (auto simp: hide_def js_resolve1_def js_resolve2_def read_text_def fun_eq_iff)

lemma trim_abs_inj:
  assumes "list_all plain_seg a" and "list_all plain_seg b" and "trim_end_slashes (abs_path a) = trim_end_slashes (abs_path b)"
  shows "a = b"
proof -
  have t: "trim_end_slashes (abs_path segs) = (if segs = [] then [] else abs_path segs)" if "list_all plain_seg segs" for segs
    using that trim_end_seg by (cases segs rule: rev_cases) (auto simp: abs_path_snoc plain_seg_def, simp add: abs_path_def)
  have "components (abs_path a) = components (abs_path b)"
    using assms(3) t [OF assms(1)] t [OF assms(2)] by (auto simp: abs_path_def split: if_splits)
  then show ?thesis using components_abs assms(1,2) by simp
qed

lemma hide_git_dir:
  assumes "list_all plain_seg segs" and "list_all plain_seg ds" and "g = trim_end_slashes (abs_path ds) @ ''/.git''"
  shows "git_dir_for (hide g env) (abs_path segs) = (if segs = ds then None else git_dir_for env (abs_path segs))"
proof -
  have "trim_end_slashes (abs_path segs) @ ''/.git'' = g \<longleftrightarrow> segs = ds" using trim_abs_inj [OF assms(1,2)] assms(3) by auto
  then show ?thesis by (auto simp: git_dir_for_def Let_def split: option.split node_entry.split)
qed

lemma hide_remote:
  assumes "list_all plain_seg segs" and "list_all plain_seg ds" and "g = trim_end_slashes (abs_path ds) @ ''/.git''" and "segs \<noteq> ds"
  shows "git_remote_for_root (hide g env) (abs_path segs) = git_remote_for_root env (abs_path segs)"
proof -
  have ends: "last g = CHR ''t''" by (simp add: assms(3))
  have "last (x @ ''/commondir'') = CHR ''r''" "last (x @ ''/config'') = CHR ''g''" for x by simp_all
  then have ne: "x @ ''/commondir'' \<noteq> g" "x @ ''/config'' \<noteq> g" for x using ends by force+
  have "common_git_dir (hide g env) x = common_git_dir env x" for x by (simp add: common_git_dir_def ne split: option.split)
  moreover have "normalize_git_remote (hide g env) = normalize_git_remote env" 
    unfolding normalize_git_remote_def hide_resolve ..
  ultimately show ?thesis
    using assms(4) by (simp add: git_remote_for_root_def hide_git_dir [OF assms(1-3)] ne)
qed

lemma hide_project:
  assumes "list_all plain_seg segs" and "list_all plain_seg ds" and "g = trim_end_slashes (abs_path ds) @ ''/.git''" and "segs \<noteq> ds"
  shows "resolve_project_with_root (hide g env) location aliases fallback (Some (abs_path segs))
    = resolve_project_with_root env location aliases fallback (Some (abs_path segs))"
proof -
  have same_alias: "alias_for (hide g env) aliases cs = alias_for env aliases cs" for cs
    by (induction env aliases cs rule: alias_for.induct) (simp_all split: option.split)
  show ?thesis
    unfolding resolve_project_with_root_def hide_resolve same_alias Option.bind.bind_lunit hide_remote [OF assms] ..
qed

lemma hide_project_none:
  "resolve_project_with_root (hide g env) location aliases fallback None = resolve_project_with_root env location aliases fallback None"
proof -
  have same_alias: "alias_for (hide g env) aliases cs = alias_for env aliases cs" for cs
    by (induction env aliases cs rule: alias_for.induct) (simp_all split: option.split)
  show ?thesis unfolding resolve_project_with_root_def hide_resolve same_alias Option.bind.bind_lzero ..
qed

lemma hide_walk:
  assumes "list_all plain_seg ds" and "g = trim_end_slashes (abs_path ds) @ ''/.git''" and "location \<noteq> g"
    and "\<not> path_starts_with b (abs_path ds)"
  shows "keep_if (path_starts_with b) (repository_root (hide g env) location)
    = keep_if (path_starts_with b) (repository_root env location)"
proof -
  obtain segs where segs: "list_all plain_seg segs" "js_resolve1 env location = abs_path segs" using js_resolve1_ok by blast
  let ?start = "start_segs env location segs" and ?P = "\<lambda>d. git_dir_for env d \<noteq> None"
  let ?l = "map abs_path (ancestors ?start)"
  note ok = start_segs_plain [OF segs(1), of env location]
  have start: "start_segs (hide g env) location segs = ?start" using assms(3) by (simp add: start_segs_def)
  have one: "git_dir_for (hide g env) x \<noteq> None \<longleftrightarrow> x \<noteq> abs_path ds \<and> ?P x" if "x \<in> set ?l" for x
  proof -
    from that obtain a where a: "x = abs_path a" "a \<in> set (ancestors ?start)" by auto
    have "\<exists>k. a = take k ?start" by (rule ancestors_prefix [OF a(2)])
    then have pa: "list_all plain_seg a" using ok by (auto simp: list_all_iff dest: in_set_takeD)
    have "x = abs_path ds \<longleftrightarrow> a = ds" using trim_abs_inj [OF pa assms(1)] a(1) by auto
    then show ?thesis using hide_git_dir [OF pa assms(1,2)] a(1) by simp
  qed
  have "repository_root (hide g env) location = find (\<lambda>d. git_dir_for (hide g env) d \<noteq> None) ?l"
    using repository_root_walk [OF segs(1), of "hide g env"] segs(2) by (simp add: start)
  also have "\<dots> = find (\<lambda>x. x \<noteq> abs_path ds \<and> ?P x) ?l"
    using one by (intro find_cong) auto
  finally show ?thesis
    using find_inside_ignores [OF ancestors_inner_first [OF ok], of b "abs_path ds" ?P] assms(4)
      repository_root_walk [OF segs] by simp
qed

subsection \<open>Properties\<close>

text \<open>C35: A repository above the boundary never names a project inside it. Whatever a configured root
  lies in, removing the \<open>.git\<close> entry of a directory that is not below the boundary changes the project of no
  location, so an unrelated repository that encloses the root relabels nothing.\<close>

theorem enclosing_repository_is_ignored:
  assumes "list_all plain_seg ds" and "\<not> path_starts_with boundary (abs_path ds)"
    and "str_trim location \<noteq> trim_end_slashes (abs_path ds) @ ''/.git''"
  shows "resolve_project_within (hide (trim_end_slashes (abs_path ds) @ ''/.git'') env) location boundary aliases fallback
    = resolve_project_within env location boundary aliases fallback"
proof -
  let ?g = "trim_end_slashes (abs_path ds) @ ''/.git''" and ?v = "str_trim location"
  have within: "resolve_project_within e location boundary aliases fallback = resolve_project_with_root e location aliases fallback
      (if ?v \<noteq> [] \<and> starts_with ''/'' ?v then keep_if (path_starts_with boundary) (repository_root e ?v) else None)" for e
    by (simp add: resolve_project_within_def keep_if_def)
  let ?root = "keep_if (path_starts_with boundary) (repository_root env ?v)"
  have same: "keep_if (path_starts_with boundary) (repository_root (hide ?g env) ?v) = ?root"
    by (rule hide_walk [OF assms(1) refl assms(3,2)])
  have "resolve_project_with_root (hide ?g env) location aliases fallback ?root
      = resolve_project_with_root env location aliases fallback ?root"
  proof (cases ?root)
    case (Some r)
    then have r: "repository_root env ?v = Some r" "path_starts_with boundary r"
      by (auto simp: keep_if_def split: option.splits if_splits)
    obtain segs where segs: "list_all plain_seg segs" "js_resolve1 env ?v = abs_path segs" using js_resolve1_ok by blast
    have "r \<in> set (map abs_path (ancestors (start_segs env ?v segs)))"
      using r(1) repository_root_walk [OF segs] by (auto simp: find_Some_iff)
    then obtain a where a: "r = abs_path a" "a \<in> set (ancestors (start_segs env ?v segs))" by auto
    have "\<exists>k. a = take k (start_segs env ?v segs)" by (rule ancestors_prefix [OF a(2)])
    then have "list_all plain_seg a" using start_segs_plain [OF segs(1), of env ?v] by (auto simp: list_all_iff dest: in_set_takeD)
    then show ?thesis using hide_project [OF _ assms(1) refl] a(1) r(2) assms(2) Some by metis
  qed (simp add: hide_project_none)
  then show ?thesis using same hide_project_none by (simp add: within)
qed

text \<open>A root in an unrelated repository.\<close>

definition outer_env :: git_env where
  "outer_env = \<lparr>ge_meta = [''/o/.git'' \<mapsto> DirEntry], ge_cwd = ''/'', ge_url = (\<lambda>_. None), ge_lower = id\<rparr>"

theorem enclosing_repository_is_ignored_witness:
  "resolve_project_within (hide ''/o/.git'' outer_env) ''/o/w/x'' ''/o/w'' [] None
    = resolve_project_within outer_env ''/o/w/x'' ''/o/w'' [] None
   \<and> git_dir_for outer_env ''/o'' = Some ''/o/.git'' \<and> git_dir_for (hide ''/o/.git'' outer_env) ''/o'' = None"
proof -
  have ds: "list_all plain_seg [''o'']" "list_all plain_seg [''o'', ''w'']" by (simp_all add: plain_seg_def seg_ok_def)
  have g: "trim_end_slashes (abs_path [''o'']) @ ''/.git'' = ''/o/.git''"
    by (simp add: abs_path_def trim_end_slashes_def)
  have c: "components ''/o'' = [''/'', ''o'']" "components ''/o/w'' = [''/'', ''o'', ''w'']"
    using components_abs [OF ds(1)] components_abs [OF ds(2)] by (simp_all add: abs_path_def)
  have out: "\<not> path_starts_with ''/o/w'' (abs_path [''o''])" by (simp add: path_starts_with_def c abs_path_def)
  have v: "str_trim ''/o/w/x'' = ''/o/w/x''"
    by (simp add: str_trim_def trim_matches_def Let_def is_whitespace_def char_len_def byte_def)
  have "resolve_project_within (hide ''/o/.git'' outer_env) ''/o/w/x'' ''/o/w'' [] None
    = resolve_project_within outer_env ''/o/w/x'' ''/o/w'' [] None"
    using enclosing_repository_is_ignored [OF ds(1) out, of "''/o/w/x''" outer_env "[]" None] unfolding g v by simp
  then show ?thesis
    by (simp add: git_dir_for_def outer_env_def hide_def trim_end_slashes_def)
qed

text \<open>C40: The walk from any location ends, and its result is the nearest enclosing directory that has a git
  directory: of the location itself, or of its parent when it is a file, and of the directories above.\<close>

theorem repository_root_is_nearest:
  "\<exists>segs. list_all plain_seg segs \<and> js_resolve1 env location = abs_path segs
     \<and> repository_root env location
         = find (\<lambda>d. git_dir_for env d \<noteq> None) (map abs_path (ancestors (start_segs env location segs)))"
  using js_resolve1_ok repository_root_walk by blast

subsection \<open>Remotes\<close>

definition graph :: "char \<Rightarrow> bool" where
  "graph c \<longleftrightarrow> 32 < byte c \<and> byte c < 127"

lemma graph_chars:
  "graph CHR ''@''" "graph CHR '':''" "graph slash" "graph CHR ''.''" "graph CHR ''g''" "graph CHR ''i''" "graph CHR ''t''"
  "graph CHR ''h''" "graph CHR ''p''" "graph CHR ''s''"
  by (simp_all add: graph_def byte_def)

lemma graph_newline: "\<not> graph newline"
  by (simp add: graph_def byte_def)

lemma graph_parts: "list_all graph s \<Longrightarrow> char_parts s = map (\<lambda>c. [c]) s"
  by (rule ascii_parts) (auto simp: list_all_iff graph_def)

lemma graph_not_white: "graph c \<Longrightarrow> \<not> is_whitespace (byte c)"
  by (simp add: graph_def is_whitespace_def)

lemma dropWhile_none: "list_all (\<lambda>x. \<not> P x) xs \<Longrightarrow> dropWhile P xs = xs"
  by (cases xs) simp_all

lemma graph_trim: "list_all graph s \<Longrightarrow> str_trim s = s"
  unfolding str_trim_def trim_matches_def Let_def
  by (subst (1 2) dropWhile_none)
    (auto simp: graph_parts list_all_iff graph_not_white comp_def)

definition host_char :: "char \<Rightarrow> bool" where
  "host_char c \<longleftrightarrow> graph c \<and> c \<notin> {slash, CHR '':'', CHR ''@''}"

lemma host_chars: "list_all host_char s \<Longrightarrow> list_all graph s \<and> CHR '':'' \<notin> set s"
  by (induction s) (auto simp: host_char_def)

lemma part_in_graph: "graph c \<Longrightarrow> part_in d [c] \<longleftrightarrow> c \<noteq> slash \<and> c \<noteq> d"
  using graph_not_white by (simp add: part_in_def is_space_def)

lemma take_parts:
  assumes "list_all (\<lambda>c. part_in d [c]) u"
  shows "takeWhile (part_in d) (map (\<lambda>c. [c]) u @ [d] # rest) = map (\<lambda>c. [c]) u"
  using assms by (induction u) (simp_all add: part_in_def)

lemma scp_forms:
  assumes "list_all host_char user" and "user \<noteq> []" and "list_all host_char host" and "host \<noteq> []" and "list_all graph path" and "path \<noteq> []"
  shows "scp_re (user @ CHR ''@'' # host @ CHR '':'' # path) = Some (host, path)"
proof -
  let ?s = "\<lambda>xs. map (\<lambda>c. [c]) xs"
  have "list_all graph (user @ CHR ''@'' # host @ CHR '':'' # path)"
    using assms graph_chars by (auto simp: list_all_iff host_char_def)
  then have parts: "char_parts (user @ CHR ''@'' # host @ CHR '':'' # path) = ?s user @ [CHR ''@''] # ?s host @ [CHR '':''] # ?s path"
    by (simp add: graph_parts)
  have u: "takeWhile (part_in CHR ''@'') (?s user @ [CHR ''@''] # ?s host @ [CHR '':''] # ?s path) = ?s user"
    using assms(1) by (intro take_parts) (auto simp: list_all_iff host_char_def part_in_graph)
  have h: "takeWhile (part_in CHR '':'') (?s host @ [CHR '':''] # ?s path) = ?s host"
    using assms(3) by (intro take_parts) (auto simp: list_all_iff host_char_def part_in_graph)
  have nl: "newline \<notin> set path" using assms(5) graph_newline by (auto simp: list_all_iff)
  have "scp_host (?s host @ [CHR '':''] # ?s path) = Some (host, path)"
    unfolding scp_host_def h Let_def using assms(4,6) nl by (simp add: rest_of_line_def comp_def)
  then show ?thesis unfolding scp_re_def parts u Let_def using assms(2) by simp
qed

definition clean_path :: "string \<Rightarrow> bool" where
  "clean_path p \<longleftrightarrow> list_all (\<lambda>c. graph c \<and> c \<noteq> CHR '':'') p \<and> p \<noteq> [] \<and> hd p \<noteq> slash \<and> last p \<noteq> slash
     \<and> strip_dot_git p = p"

lemma trim_slashes_clean: "p \<noteq> [] \<Longrightarrow> hd p \<noteq> slash \<Longrightarrow> last p \<noteq> slash \<Longrightarrow> trim_slashes p = p"
proof -
  assume p: "p \<noteq> []" "hd p \<noteq> slash" "last p \<noteq> slash"
  have "dropWhile (\<lambda>c. c = slash) p = p" using p by (cases p) auto
  moreover have "dropWhile (\<lambda>c. c = slash) (rev p) = rev p" using p by (cases p rule: rev_cases) auto
  ultimately show ?thesis by (simp add: trim_slashes_def trim_end_slashes_def)
qed

lemma strip_dot_git_suffix: "strip_dot_git (p @ ''.git'') = p"
  by (simp add: strip_dot_git_def ascii_lower_def byte_def)

lemma clean_suffix:
  assumes "clean_path p" and "sfx = [] \<or> sfx = ''.git''"
  shows "strip_dot_git (trim_slashes (p @ sfx)) = p" and "strip_dot_git (trim_slashes (slash # p @ sfx)) = p"
    and "list_all graph (p @ sfx)" and "p @ sfx \<noteq> []"
proof -
  have p: "p \<noteq> []" "hd p \<noteq> slash" "last p \<noteq> slash" "strip_dot_git p = p" "list_all graph p"
    using assms(1) by (simp_all add: clean_path_def list_all_iff)
  have e: "p @ sfx \<noteq> []" "hd (p @ sfx) \<noteq> slash" "last (p @ sfx) \<noteq> slash"
    using p(1-3) assms(2) by (elim disjE, simp_all)+
  have t: "trim_slashes (slash # p @ sfx) = trim_slashes (p @ sfx)" by (simp add: trim_slashes_def)
  have st: "strip_dot_git (p @ sfx) = p" using assms(2) p(4) strip_dot_git_suffix [of p] by (elim disjE) simp_all
  show "strip_dot_git (trim_slashes (p @ sfx)) = p" and "strip_dot_git (trim_slashes (slash # p @ sfx)) = p"
    unfolding t trim_slashes_clean [OF e] by (rule st)+
  show "list_all graph (p @ sfx)" using assms(2) p(5) graph_chars by (elim disjE) simp_all
  show "p @ sfx \<noteq> []" by (rule e(1))
qed

text \<open>The protocol marker needs a colon in front of two slashes.\<close>

lemma no_scheme:
  assumes "CHR '':'' \<notin> set a" and "CHR '':'' \<notin> set b" and "b = [] \<or> hd b \<noteq> slash"
  shows "\<not> str_contains ''://'' (a @ CHR '':'' # b)"
proof
  assume "str_contains ''://'' (a @ CHR '':'' # b)"
  then obtain x y where xy: "a @ CHR '':'' # b = x @ CHR '':'' # slash # slash # y" by (auto simp: str_contains_iff)
  then have "a = x \<and> b = slash # slash # y"
    using append_Cons_eq_iff [OF assms(1,2)] by simp
  then show False using assms(3) by simp
qed

text \<open>A clone has the same project whichever way it was made. The scp form \<open>user@host:owner/repo\<close> and the URL
  form of a remote, each with or without \<open>.git\<close>, normalize to the same \<open>host/owner/repo\<close>, as
  long as the URL parser splits a URL of that form at its host.\<close>

theorem remote_forms_agree:
  assumes "list_all host_char user" and "user \<noteq> []" and "list_all host_char host" and "host \<noteq> []" and "clean_path p"
    and "sfx1 \<in> {[], ''.git''}" and "sfx2 \<in> {[], ''.git''}"
    and "ge_url env (''https://'' @ host @ ''/'' @ p @ sfx2) = Some (Some h, ''/'' @ p @ sfx2)"
    and "ge_lower env h = ge_lower env host" and "h \<noteq> []"
  shows "normalize_git_remote env (user @ ''@'' @ host @ '':'' @ p @ sfx1) = Some (ge_lower env host @ ''/'' @ p)
    \<and> normalize_git_remote env (''https://'' @ host @ ''/'' @ p @ sfx2) = Some (ge_lower env host @ ''/'' @ p)"
proof
  have s1: "sfx1 = [] \<or> sfx1 = ''.git''" and s2: "sfx2 = [] \<or> sfx2 = ''.git''" using assms(6,7) by simp_all
  note c1 = clean_suffix [OF assms(5) s1] and c2 = clean_suffix [OF assms(5) s2]
  have p: "p \<noteq> []" using assms(5) by (simp add: clean_path_def)
  have hosts: "list_all graph user" "list_all graph host" "CHR '':'' \<notin> set user" "CHR '':'' \<notin> set host"
    using host_chars [OF assms(1)] host_chars [OF assms(3)] by simp_all
  have pc: "CHR '':'' \<notin> set (p @ sfx1)" "p @ sfx1 = [] \<or> hd (p @ sfx1) \<noteq> slash"
    using assms(5) s1 by (elim disjE, simp_all add: list_all_iff clean_path_def, blast+)
  let ?scp = "user @ CHR ''@'' # host @ CHR '':'' # p @ sfx1"
  have g: "list_all graph ?scp" using hosts(1,2) c1(3) graph_chars by simp
  have colon: "\<not> str_contains ''://'' ((user @ CHR ''@'' # host) @ CHR '':'' # p @ sfx1)"
    using hosts(3,4) pc by (intro no_scheme) simp_all
  have re: "scp_re ?scp = Some (host, p @ sfx1)"
    by (rule scp_forms [OF assms(1-4) c1(3,4)])
  show "normalize_git_remote env (user @ ''@'' @ host @ '':'' @ p @ sfx1) = Some (ge_lower env host @ ''/'' @ p)"
    using colon re assms(4) p by (simp add: normalize_git_remote_def graph_trim [OF g] c1(1))
  have "list_all graph (''https://'' @ host @ ''/'' @ p @ sfx2)" using hosts(2) c2(3) graph_chars by simp
  note g2 = graph_trim [OF this]
  have "str_contains ''://'' (''https://'' @ host @ ''/'' @ p @ sfx2)" by (simp add: starts_with_def)
  then show "normalize_git_remote env (''https://'' @ host @ ''/'' @ p @ sfx2) = Some (ge_lower env host @ ''/'' @ p)"
    unfolding normalize_git_remote_def g2 Let_def
    using assms(8-10) c2(2) p by simp
qed

definition demo_remotes :: git_env where
  "demo_remotes =
     \<lparr>ge_meta = (\<lambda>_. None), ge_cwd = ''/'',
      ge_url = (\<lambda>u. if u = ''https://h.io/o/r'' then Some (Some ''h.io'', ''/o/r'') else None), ge_lower = id\<rparr>"

theorem remote_forms_agree_witness:
  "normalize_git_remote demo_remotes ''git@h.io:o/r.git'' = Some ''h.io/o/r''
   \<and> normalize_git_remote demo_remotes ''https://h.io/o/r'' = Some ''h.io/o/r''"
proof -
  have h: "list_all host_char ''git''" "list_all host_char ''h.io''"
    by (simp_all add: host_char_def graph_def byte_def)
  have p: "clean_path ''o/r''"
    by (simp add: clean_path_def graph_def byte_def strip_dot_git_def)
  show ?thesis
    using remote_forms_agree [OF h(1) _ h(2) _ p, of "''.git''" "[]" demo_remotes "''h.io''"] by (simp add: demo_remotes_def)
qed

end
