(* ===== verification/Pricing.thy ===== *)
theory Pricing
  imports Complex_Main Str_Ops F64
begin

text \<open>
  Prices of language models (\<open>crates/stackhour-core/src/pricing.rs\<close>): the built-in table, the choice of
  the longest key that occurs in the model's name, and the cost of a number of tokens. Prices
  and token counts are finite doubles; \<open>lower\<close> is \<open>to_lowercase\<close>.
\<close>

record price =
  pr_in :: real
  pr_out :: real
  pr_cache_read :: real
  pr_cache_write :: real

record usage =
  us_input :: real
  us_output :: real
  us_cache_read :: real
  us_cache_write :: real

type_synonym pricing_table = "(string \<times> price) list"

definition BUILT_IN_DEFAULT :: price where
  "BUILT_IN_DEFAULT = \<lparr>pr_in = 3, pr_out = 15, pr_cache_read = 3 / 10, pr_cache_write = 375 / 100\<rparr>"

text \<open>The literals are rounded to doubles.\<close>

definition f64_price :: "(real \<Rightarrow> real) \<Rightarrow> price \<Rightarrow> price" where
  "f64_price rnd p =
     \<lparr>pr_in = rnd (pr_in p), pr_out = rnd (pr_out p), pr_cache_read = rnd (pr_cache_read p),
      pr_cache_write = rnd (pr_cache_write p)\<rparr>"

definition default_pricing :: "(real \<Rightarrow> real) \<Rightarrow> pricing_table" where
  "default_pricing rnd =
     map (\<lambda>(k, p). (k, f64_price rnd p))
       [(''claude-fable'', \<lparr>pr_in = 10, pr_out = 50, pr_cache_read = 1, pr_cache_write = 125 / 10\<rparr>),
        (''claude-opus'', \<lparr>pr_in = 5, pr_out = 25, pr_cache_read = 5 / 10, pr_cache_write = 625 / 100\<rparr>),
        (''claude-sonnet'', \<lparr>pr_in = 3, pr_out = 15, pr_cache_read = 3 / 10, pr_cache_write = 375 / 100\<rparr>),
        (''claude-haiku'', \<lparr>pr_in = 1, pr_out = 5, pr_cache_read = 1 / 10, pr_cache_write = 125 / 100\<rparr>),
        (''gpt-5'', \<lparr>pr_in = 125 / 100, pr_out = 10, pr_cache_read = 125 / 1000, pr_cache_write = 0\<rparr>),
        (''default'', BUILT_IN_DEFAULT)]"

definition better_key :: "string \<Rightarrow> price \<times> nat \<Rightarrow> string \<times> price \<Rightarrow> price \<times> nat" where
  "better_key m best kp =
     (if fst kp \<noteq> ''default'' \<and> str_contains (fst kp) m \<and> length (fst kp) > snd best then (snd kp, length (fst kp)) else best)"

definition price_for :: "(real \<Rightarrow> real) \<Rightarrow> (string \<Rightarrow> string) \<Rightarrow> string \<Rightarrow> pricing_table option \<Rightarrow> price" where
  "price_for rnd lower model table =
     (let m = lower model;
          pricing = (case table of Some t \<Rightarrow> t | None \<Rightarrow> default_pricing rnd);
          best = (case map_of pricing ''default'' of Some p \<Rightarrow> p | None \<Rightarrow> f64_price rnd BUILT_IN_DEFAULT)
      in fst (foldl (better_key m) (best, 0) pricing))"

definition cost_of :: "(real \<Rightarrow> real) \<Rightarrow> (string \<Rightarrow> string) \<Rightarrow> string \<Rightarrow> usage \<Rightarrow> pricing_table option \<Rightarrow> real" where
  "cost_of rnd lower model u table =
     (let p = price_for rnd lower model table;
          s1 = rnd (rnd (us_input u * pr_in p) + rnd (us_cache_read u * pr_cache_read p));
          s2 = rnd (s1 + rnd (us_cache_write u * pr_cache_write p));
          s3 = rnd (s2 + rnd (us_output u * pr_out p))
      in rnd (s3 / 1000000))"

subsection \<open>The longest match\<close>

definition key_matches :: "string \<Rightarrow> string \<times> price \<Rightarrow> bool" where
  "key_matches m kp \<longleftrightarrow> fst kp \<noteq> ''default'' \<and> fst kp \<noteq> [] \<and> str_contains (fst kp) m"

text \<open>\<open>chosen\<close>: the longest of the matching entries, the first one among those of its length.\<close>

definition chosen :: "string \<Rightarrow> pricing_table \<Rightarrow> string \<times> price \<Rightarrow> bool" where
  "chosen m t kp \<longleftrightarrow>
     (\<exists>pre post. t = pre @ kp # post \<and> key_matches m kp
        \<and> list_all (\<lambda>x. key_matches m x \<longrightarrow> length (fst x) < length (fst kp)) pre
        \<and> list_all (\<lambda>x. key_matches m x \<longrightarrow> length (fst x) \<le> length (fst kp)) post)"

lemma chosen_snoc_keep:
  "chosen m t kp \<Longrightarrow> (key_matches m x \<longrightarrow> length (fst x) \<le> length (fst kp)) \<Longrightarrow> chosen m (t @ [x]) kp"
  unfolding chosen_def by fastforce

lemma chosen_snoc_new:
  assumes "key_matches m x" and "list_all (\<lambda>y. key_matches m y \<longrightarrow> length (fst y) < length (fst x)) t"
  shows "chosen m (t @ [x]) x"
  unfolding chosen_def using assms by (intro exI [of _ t] exI [of _ "[]"]) simp

lemma chosen_longest:
  "chosen m t kp \<Longrightarrow> list_all (\<lambda>x. key_matches m x \<longrightarrow> length (fst x) \<le> length (fst kp)) t"
  unfolding chosen_def list_all_iff by (auto dest: less_imp_le) fastforce+

lemma better_key_fold:
  "(\<exists>kp. chosen m t kp \<and> foldl (better_key m) (b, 0) t = (snd kp, length (fst kp)))
    \<or> list_all (\<lambda>x. \<not> key_matches m x) t \<and> foldl (better_key m) (b, 0) t = (b, 0)"
proof (induction t rule: rev_induct)
  case (snoc x t)
  have key: "better_key m (p, n) x = (if key_matches m x \<and> n < length (fst x) then (snd x, length (fst x)) else (p, n))" for p n
    by (auto simp: better_key_def key_matches_def)
  from snoc show ?case
  proof (elim disjE exE conjE)
    fix kp assume kp: "chosen m t kp" "foldl (better_key m) (b, 0) t = (snd kp, length (fst kp))"
    show ?thesis
    proof (cases "key_matches m x \<and> length (fst kp) < length (fst x)")
      case True
      then have "chosen m (t @ [x]) x"
        using chosen_longest [OF kp(1)] by (intro chosen_snoc_new) (auto simp: list_all_iff)
      then show ?thesis using True kp(2) by (intro disjI1 exI [of _ x]) (simp add: key)
    next
      case False
      then have "chosen m (t @ [x]) kp" by (intro chosen_snoc_keep [OF kp(1)]) auto
      then show ?thesis using False kp(2) by (intro disjI1 exI [of _ kp]) (simp add: key)
    qed
  next
    assume none: "list_all (\<lambda>x. \<not> key_matches m x) t" "foldl (better_key m) (b, 0) t = (b, 0)"
    show ?thesis
    proof (cases "key_matches m x")
      case True
      then have "chosen m (t @ [x]) x" using none(1) by (intro chosen_snoc_new) (auto simp: list_all_iff)
      moreover have "0 < length (fst x)" using True by (simp add: key_matches_def)
      ultimately show ?thesis using True none(2) by (intro disjI1 exI [of _ x]) (simp add: key)
    next
      case False
      then show ?thesis using none by (simp add: key)
    qed
  qed
qed simp

text \<open>The price of a model is that of the longest key in its name, and the default without one.\<close>

theorem price_is_longest_match:
  fixes rnd lower model table
  defines "t \<equiv> (case table of Some t \<Rightarrow> t | None \<Rightarrow> default_pricing rnd)"
  shows "(\<exists>kp. chosen (lower model) t kp \<and> price_for rnd lower model table = snd kp)
    \<or> list_all (\<lambda>x. \<not> key_matches (lower model) x) t
      \<and> price_for rnd lower model table = (case map_of t ''default'' of Some p \<Rightarrow> p | None \<Rightarrow> f64_price rnd BUILT_IN_DEFAULT)"
  unfolding price_for_def Let_def t_def [symmetric] using better_key_fold by (metis fst_conv)

end
