(* ===== verification/Watch_Claude.thy ===== *)
theory Watch_Claude
  imports Agent_Tick Project Pricing Jsnum
begin

text \<open>
  The watcher of Claude Code's session logs (\<open>crates/stackhour-agent/src/watch_claude.rs\<close>), with the
  directory walk and the timestamps of \<open>tail.rs\<close>. It tails the transcripts and turns their lines into
  heartbeats; the token counters of a message grow while its line is rewritten, and only their
  growth is charged. The date parser of \<open>chrono\<close> is \<open>we_millis\<close>.
\<close>

subsection \<open>What a watcher sees\<close>

record watch_env =
  we_jt :: json_text
  we_nm :: numbers
  we_ft :: f64_text
  we_git :: git_env
  we_millis :: "string \<Rightarrow> int option"
  we_aliases :: "(string \<times> string) list"
  we_pricing :: "pricing_table option"

text \<open>The entries of a directory with what \<open>file_type\<close> says of them: a directory or not, or an error.\<close>

record file_tree =
  tr_exists :: "string \<Rightarrow> bool"
  tr_dir :: "string \<Rightarrow> (string \<times> bool option) list option"
  tr_file :: "string \<Rightarrow> disk_file"

function walk_files :: "file_tree \<Rightarrow> (string \<Rightarrow> bool) \<Rightarrow> nat \<Rightarrow> string \<Rightarrow> string list" where
  "walk_files tr keep depth dir =
     (if depth > 4 then []
      else
        (case tr_dir tr dir of
           None \<Rightarrow> []
         | Some entries \<Rightarrow>
             concat (map (\<lambda>(name, kind).
               case kind of
                 Some True \<Rightarrow> walk_files tr keep (Suc depth) (dir @ ''/'' @ name)
               | Some False \<Rightarrow> if keep name then [dir @ ''/'' @ name] else []
               | None \<Rightarrow> []) entries)))"
  by pat_completeness auto

termination
  by (relation "measure (\<lambda>(tr, keep, depth, dir). 5 - depth)") auto

declare walk_files.simps [simp del]

text \<open>\<open>Path::extension\<close> is \<open>jsonl\<close>.\<close>

definition is_jsonl :: "string \<Rightarrow> bool" where
  "is_jsonl name \<longleftrightarrow> 6 < length name \<and> drop (length name - 6) name = ''.jsonl''"

definition parse_ts_seconds :: "watch_env \<Rightarrow> json option \<Rightarrow> real option" where
  "parse_ts_seconds env v =
     (let rnd = ft_round (we_ft env) in
      map_option (\<lambda>ms. rnd (rnd (of_int ms) / 1000)) (Option.bind (Option.bind v as_str) (we_millis env)))"

definition json_at :: "json \<Rightarrow> string \<Rightarrow> string \<Rightarrow> json option" where
  "json_at v k1 k2 = Option.bind (json_get v k1) (\<lambda>w. json_get w k2)"

definition str_at :: "json \<Rightarrow> string \<Rightarrow> string option" where
  "str_at v k = Option.bind (json_get v k) as_str"

text \<open>\<open>access\<close>: reading an object of the state after it was made sure to exist.\<close>

definition state_object :: "string \<Rightarrow> json \<Rightarrow> (string \<times> json) list" where
  "state_object key state = object_or_empty (json_get state key)"

definition ensure_object :: "string \<Rightarrow> json \<Rightarrow> json" where
  "ensure_object key state = object_mut key (\<lambda>m. m) state"

definition insert_all :: "json \<Rightarrow> (string \<times> json) list \<Rightarrow> json" where
  "insert_all row kvs = JObject (foldl (\<lambda>m kv. json_insert (fst kv) (snd kv) m) (object_or_empty (Some row)) kvs)"

text \<open>\<open>read_new_lines\<close> on an offsets object of the state.\<close>

definition read_lines_into :: "watch_env \<Rightarrow> file_tree \<Rightarrow> string \<Rightarrow> string \<Rightarrow> json \<Rightarrow> json list \<times> json" where
  "read_lines_into env tr key file state =
     (let (lines, off) = read_new_lines (we_jt env) (tr_file tr file) file (map_of (state_object key (ensure_object key state)))
      in (lines, object_mut key (\<lambda>m. case off file of Some v \<Rightarrow> json_insert file v m | None \<Rightarrow> m) state))"

subsection \<open>Token counters\<close>

definition RECENT_WINDOW_S :: real where
  "RECENT_WINDOW_S = 3600"

definition USAGE_KEYS :: "(string \<times> string) list" where
  "USAGE_KEYS =
     [(''input'', ''input_tokens''), (''cacheWrite'', ''cache_creation_input_tokens''),
      (''cacheRead'', ''cache_read_input_tokens''), (''output'', ''output_tokens'')]"

definition number_at :: "watch_env \<Rightarrow> json \<Rightarrow> string \<Rightarrow> real" where
  "number_at env v k = (case Option.bind (json_get v k) (nm_real (we_nm env)) of Some x \<Rightarrow> x | None \<Rightarrow> 0)"

definition read_usage :: "watch_env \<Rightarrow> json \<Rightarrow> real list" where
  "read_usage env u = map (\<lambda>kf. number_at env u (snd kf)) USAGE_KEYS"

definition read_previous :: "watch_env \<Rightarrow> (string \<times> json) list \<Rightarrow> string \<Rightarrow> real list" where
  "read_previous env usage_by_id mid =
     (case map_of usage_by_id mid of
        None \<Rightarrow> map (\<lambda>_. 0) USAGE_KEYS
      | Some prev \<Rightarrow> map (\<lambda>kf. number_at env prev (fst kf)) USAGE_KEYS)"

definition is_object_opt :: "json option \<Rightarrow> json option" where
  "is_object_opt v = (case v of Some w \<Rightarrow> if is_object w then Some w else None | None \<Rightarrow> None)"

definition line_usage :: "json \<Rightarrow> json option" where
  "line_usage line = is_object_opt (json_at line ''message'' ''usage'')"

definition usage_id :: "watch_env \<Rightarrow> json \<Rightarrow> string option" where
  "usage_id env line =
     (case line_usage line of
        Some _ \<Rightarrow> map_option (js_display (we_ft env)) (json_at line ''message'' ''id'')
      | None \<Rightarrow> None)"

definition counters_json :: "watch_env \<Rightarrow> real list \<Rightarrow> json" where
  "counters_json env xs = JObject (zip (map fst USAGE_KEYS) (map (nm_json (we_nm env)) xs))"

definition usage_delta :: "watch_env \<Rightarrow> real list \<Rightarrow> real list \<Rightarrow> real list" where
  "usage_delta env current previous = map2 (\<lambda>c p. max (ft_round (we_ft env) (c - p)) 0) current previous"

text \<open>The token fields of a line, and the state with the new maxima.\<close>

definition charge :: "watch_env \<Rightarrow> json \<Rightarrow> json \<Rightarrow> (real \<times> real \<times> real) option \<times> json" where
  "charge env line state =
     (case line_usage line of
        None \<Rightarrow> (None, state)
      | Some u \<Rightarrow>
          (let rnd = ft_round (we_ft env);
               current = read_usage env u;
               (previous, state1) =
                 (case usage_id env line of
                    Some mid \<Rightarrow> (read_previous env (state_object ''claudeUsageById'' state) mid, ensure_object ''claudeUsageById'' state)
                  | None \<Rightarrow> (map (\<lambda>_. 0) USAGE_KEYS, state));
               d = usage_delta env current previous;
               state2 =
                 (case usage_id env line of
                    Some mid \<Rightarrow>
                      object_mut ''claudeUsageById'' (\<lambda>m. json_insert mid (counters_json env (map2 max current previous)) m) state1
                  | None \<Rightarrow> state1);
               model = (case Option.bind (json_at line ''message'' ''model'') as_str of Some s \<Rightarrow> s | None \<Rightarrow> []);
               toks =
                 (if list_ex (\<lambda>x. x > 0) d then
                    Some (rnd (rnd (d ! 0 + d ! 1) + d ! 2), d ! 3,
                      cost_of rnd (ge_lower (we_git env)) model
                        \<lparr>us_input = d ! 0, us_output = d ! 3, us_cache_read = d ! 2, us_cache_write = d ! 1\<rparr> (we_pricing env))
                  else None)
           in (toks, state2)))"

subsection \<open>Lines\<close>

definition has_block :: "string \<Rightarrow> json list \<Rightarrow> bool" where
  "has_block kind blocks = list_ex (\<lambda>b. str_at b ''type'' = Some kind) blocks"

definition is_human_prompt :: "watch_env \<Rightarrow> json \<Rightarrow> bool" where
  "is_human_prompt env line \<longleftrightarrow>
     str_at line ''type'' = Some ''user''
     \<and> \<not> (case json_get line ''isSidechain'' of Some v \<Rightarrow> js_truthy (ft_round (we_ft env)) v | None \<Rightarrow> False)
     \<and> (case json_at line ''message'' ''content'' of
          Some (JString _) \<Rightarrow> True
        | Some (JArray blocks) \<Rightarrow> has_block ''text'' blocks \<and> \<not> has_block ''tool_result'' blocks
        | _ \<Rightarrow> False)"

definition line_cwd :: "json \<Rightarrow> string" where
  "line_cwd line = (case str_at line ''cwd'' of Some s \<Rightarrow> if s = [] then ''unknown'' else s | None \<Rightarrow> ''unknown'')"

definition claude_base :: "watch_env \<Rightarrow> json \<Rightarrow> real \<Rightarrow> json" where
  "claude_base env line ts =
     JObject
       [(''time'', nm_json (we_nm env) ts),
        (''source'', JString (if str_at line ''entrypoint'' = Some ''claude-desktop'' then ''claude-desktop'' else ''claude-code'')),
        (''project'', JString (resolve_project (we_git env) (line_cwd line) (we_aliases env) None)),
        (''category'', JString ''ai coding''),
        (''branch'', case json_get line ''gitBranch'' of Some (JString b) \<Rightarrow> JString b | _ \<Rightarrow> JNull)]"

definition entity_row :: "json \<Rightarrow> string \<Rightarrow> string \<Rightarrow> string \<Rightarrow> int \<Rightarrow> json" where
  "entity_row base actor entity entity_type is_write =
     insert_all base
       [(''actor'', JString actor), (''entity'', JString entity), (''entity_type'', JString entity_type),
        (''is_write'', json_of_i64 is_write)]"

definition attach_tokens :: "watch_env \<Rightarrow> (real \<times> real \<times> real) option \<Rightarrow> json \<Rightarrow> json" where
  "attach_tokens env toks row =
     (case toks of
        Some (tin, tout, cost) \<Rightarrow>
          insert_all row
            [(''tokens_in'', nm_json (we_nm env) tin), (''tokens_out'', nm_json (we_nm env) tout),
             (''cost'', nm_json (we_nm env) cost)]
      | None \<Rightarrow> row)"

text \<open>The file a block of a tool use names, and whether the tool writes.\<close>

definition tool_file :: "watch_env \<Rightarrow> json \<Rightarrow> (string \<times> bool) option" where
  "tool_file env block =
     (if str_at block ''type'' \<noteq> Some ''tool_use'' then None
      else
        (case Option.bind (json_at block ''input'' ''file_path'') as_str of
           Some fp \<Rightarrow>
             if fp = [] then None
             else
               (let lowered = ge_lower (we_git env) (case str_at block ''name'' of Some n \<Rightarrow> n | None \<Rightarrow> [])
                in Some (fp, str_contains ''edit'' lowered \<or> str_contains ''write'' lowered))
         | None \<Rightarrow> None))"

definition tool_files :: "watch_env \<Rightarrow> json \<Rightarrow> (string \<times> bool) list" where
  "tool_files env line =
     (case json_at line ''message'' ''content'' of
        Some (JArray blocks) \<Rightarrow> List.map_filter (tool_file env) blocks
      | _ \<Rightarrow> [])"

definition file_row :: "json \<Rightarrow> string \<times> bool \<Rightarrow> json" where
  "file_row base f = entity_row base ''agent'' (fst f) ''file'' (if snd f then 1 else 0)"

text \<open>Tokens ride on the first file row only.\<close>

fun file_rows :: "watch_env \<Rightarrow> json \<Rightarrow> (real \<times> real \<times> real) option \<Rightarrow> (string \<times> bool) list \<Rightarrow> json list" where
  "file_rows env base toks [] = []"
| "file_rows env base toks (f # fs) = attach_tokens env toks (file_row base f) # map (file_row base) fs"

definition claude_rows :: "watch_env \<Rightarrow> json \<Rightarrow> real \<Rightarrow> (real \<times> real \<times> real) option \<Rightarrow> json list" where
  "claude_rows env line ts toks =
     (let base = claude_base env line ts in
      if is_human_prompt env line then [entity_row base ''human'' (line_cwd line) ''app'' 0]
      else
        (let rows = file_rows env base toks (tool_files env line);
             kind = (case str_at line ''type'' of Some k \<Rightarrow> k | None \<Rightarrow> [])
         in if rows = [] \<and> (kind = ''user'' \<or> kind = ''assistant'') then
              [attach_tokens env toks (entity_row base ''agent'' (line_cwd line) ''app'' 0)]
            else rows))"

definition claude_line :: "watch_env \<Rightarrow> real \<Rightarrow> json \<Rightarrow> json list \<times> json \<Rightarrow> json list \<times> json" where
  "claude_line env now line st =
     (let (rows, state) = st in
      case parse_ts_seconds env (json_get line ''timestamp'') of
        None \<Rightarrow> (rows, state)
      | Some ts \<Rightarrow>
          if ft_round (we_ft env) (now - ts) > RECENT_WINDOW_S then (rows, state)
          else
            (let (toks, state') = charge env line state in (rows @ claude_rows env line ts toks, state')))"

subsection \<open>The watcher\<close>

definition claude_file :: "watch_env \<Rightarrow> file_tree \<Rightarrow> real \<Rightarrow> string \<Rightarrow> json list \<times> json \<Rightarrow> json list \<times> json" where
  "claude_file env tr now file st =
     (let (rows, state) = st in
      case df_size (tr_file tr file) of
        None \<Rightarrow> (rows, state)
      | Some sz \<Rightarrow>
          (let state1 = ensure_object ''claudeOffsets'' state;
               recorded = Option.bind (map_of (state_object ''claudeOffsets'' state1) file) as_u64_json
           in if (case recorded of Some prev \<Rightarrow> sz \<le> prev | None \<Rightarrow> False) then (rows, state1)
              else
                (let (lines, state2) = read_lines_into env tr ''claudeOffsets'' file state1
                 in foldl (\<lambda>st line. claude_line env now line st) (rows, state2) lines)))"

definition claude_run :: "watch_env \<Rightarrow> file_tree \<Rightarrow> string \<Rightarrow> json \<Rightarrow> real \<Rightarrow> (string, json list) result \<times> json" where
  "claude_run env tr projects_dir state now =
     (if \<not> tr_exists tr projects_dir then (Inr [], state)
      else
        (let files = walk_files tr is_jsonl 0 projects_dir;
             (rows, state1) = foldl (\<lambda>st file. claude_file env tr now file st) ([], state) files;
             state2 = trim_usage_by_id state1
         in (Inr rows, object_mut ''claudeOffsets'' (\<lambda>m. prune_offsets m (set files) DEFAULT_PRUNE_MAX) state2)))"

definition offsets_marker :: "watch_env \<Rightarrow> string \<Rightarrow> json \<Rightarrow> string option" where
  "offsets_marker env key state =
     Some (case is_object_opt (json_get state key) of Some v \<Rightarrow> jt_str (we_jt env) v | None \<Rightarrow> ''{}'')"

definition claude_watcher :: "watch_env \<Rightarrow> file_tree \<Rightarrow> string \<Rightarrow> bool \<Rightarrow> watcher" where
  "claude_watcher env tr projects_dir enabled =
     \<lparr>wt_name = ''claude'', wt_gate = (if enabled then Run else Skipped False False ''disabled in config''),
      wt_input_marker = offsets_marker env ''claudeOffsets'', wt_run = claude_run env tr projects_dir\<rparr>"

subsection \<open>Objects of the state\<close>

lemma state_object_mut: "state_object key (object_mut key f state) = f (state_object key state)"
  by (cases state) (simp_all add: state_object_def object_mut_def Let_def map_of_json_insert object_or_empty_def)

lemma state_object_ensure: "state_object key (ensure_object key state) = state_object key state"
  by (simp add: ensure_object_def state_object_mut)

subsection \<open>Counters\<close>

definition whole :: "real \<Rightarrow> bool" where
  "whole x \<longleftrightarrow> (\<exists>k::nat. x = real k \<and> k \<le> 2 ^ 50)"

text \<open>What JSON and the rounding do with whole numbers.\<close>

definition exact_counters :: "watch_env \<Rightarrow> bool" where
  "exact_counters env \<longleftrightarrow>
     (\<forall>k::nat. k \<le> 2 ^ 52 \<longrightarrow> nm_real (we_nm env) (nm_json (we_nm env) (real k)) = Some (real k))
     \<and> (\<forall>k::int. \<bar>k\<bar> \<le> 2 ^ 53 \<longrightarrow> ft_round (we_ft env) (of_int k) = of_int k)"

definition stored_counters :: "watch_env \<Rightarrow> json \<Rightarrow> real list" where
  "stored_counters env v = map (\<lambda>kf. number_at env v (fst kf)) USAGE_KEYS"

lemma four: "length xs = 4 \<Longrightarrow> \<exists>a b c d. xs = [a, b, c, d]"
  by (auto simp: eval_nat_numeral length_Suc_conv)

lemma read_previous_eq:
  "read_previous env m mid = (case map_of m mid of None \<Rightarrow> [0, 0, 0, 0] | Some v \<Rightarrow> stored_counters env v)"
  by (simp add: read_previous_def stored_counters_def USAGE_KEYS_def split: option.split)

lemma stored_counters_json:
  assumes "exact_counters env" and "list_all whole xs" and "length xs = 4"
  shows "stored_counters env (counters_json env xs) = xs"
proof -
  have "nm_real (we_nm env) (nm_json (we_nm env) x) = Some x" if "whole x" for x
    using assms(1) that by (auto simp: exact_counters_def whole_def)
  then show ?thesis
    using four [OF assms(3)] assms(2)
    by (auto simp: stored_counters_def counters_json_def USAGE_KEYS_def number_at_def)
qed

lemma whole_max: "whole a \<Longrightarrow> whole b \<Longrightarrow> whole (max a b)"
  by (auto simp: max_def)

lemma whole_diff:
  assumes "exact_counters env" and "whole c" and "whole p"
  shows "max (ft_round (we_ft env) (c - p)) 0 = max c p - p" and "whole (max c p - p)"
proof -
  obtain j k :: nat where jk: "c = real j" "j \<le> 2 ^ 50" "p = real k" "k \<le> 2 ^ 50" using assms(2,3) by (auto simp: whole_def)
  have "c - p = of_int (int j - int k)" by (simp add: jk)
  moreover have "\<bar>int j - int k\<bar> \<le> 2 ^ 53" using jk by simp
  ultimately have "ft_round (we_ft env) (c - p) = c - p" using assms(1) unfolding exact_counters_def by metis
  then show "max (ft_round (we_ft env) (c - p)) 0 = max c p - p" by simp
  have "max c p - p = real (j - k)" using jk by (simp add: max_def of_nat_diff)
  then show "whole (max c p - p)" using jk(2) by (auto simp: whole_def intro!: exI [of _ "j - k"])
qed

lemma whole_round:
  assumes "exact_counters env" and "whole a" and "whole b" and "whole c"
  shows "ft_round (we_ft env) (ft_round (we_ft env) (a + b) + c) = a + b + c"
    and "nm_real (we_nm env) (nm_json (we_nm env) (a + b + c)) = Some (a + b + c)"
proof -
  obtain i j k :: nat where ijk: "a = real i" "i \<le> 2 ^ 50" "b = real j" "j \<le> 2 ^ 50" "c = real k" "k \<le> 2 ^ 50"
    using assms(2-4) by (auto simp: whole_def)
  have "a + b = of_int (int (i + j))" "a + b + c = of_int (int (i + j + k))" by (simp_all add: ijk)
  moreover have "\<bar>int (i + j)\<bar> \<le> 2 ^ 53" "\<bar>int (i + j + k)\<bar> \<le> 2 ^ 53" using ijk by simp_all
  ultimately show "ft_round (we_ft env) (ft_round (we_ft env) (a + b) + c) = a + b + c"
    using assms(1) unfolding exact_counters_def by metis
  have "a + b + c = real (i + j + k)" "i + j + k \<le> 2 ^ 52" using ijk by simp_all
  then show "nm_real (we_nm env) (nm_json (we_nm env) (a + b + c)) = Some (a + b + c)"
    using assms(1) unfolding exact_counters_def by metis
qed

subsection \<open>Rows\<close>

lemma object_insert_all: "\<exists>m. insert_all row kvs = JObject m"
  by (simp add: insert_all_def)

lemma number_at_plain:
  "number_at env (entity_row (claude_base env line ts) a e et w) ''tokens_in'' = 0"
  "number_at env (entity_row (claude_base env line ts) a e et w) ''tokens_out'' = 0"
  by (simp_all add: number_at_def entity_row_def claude_base_def insert_all_def object_or_empty_def map_of_json_insert)

lemma number_at_attached:
  "number_at env (attach_tokens env (Some (tin, tout, cost)) (entity_row (claude_base env line ts) a e et w)) ''tokens_in''
    = (case nm_real (we_nm env) (nm_json (we_nm env) tin) of Some x \<Rightarrow> x | None \<Rightarrow> 0)"
  "number_at env (attach_tokens env (Some (tin, tout, cost)) (entity_row (claude_base env line ts) a e et w)) ''tokens_out''
    = (case nm_real (we_nm env) (nm_json (we_nm env) tout) of Some x \<Rightarrow> x | None \<Rightarrow> 0)"
  by (simp_all add: number_at_def attach_tokens_def entity_row_def claude_base_def insert_all_def object_or_empty_def map_of_json_insert)

subsection \<open>Tokens of rows\<close>

definition row_tokens :: "watch_env \<Rightarrow> string \<Rightarrow> json list \<Rightarrow> real" where
  "row_tokens env key rows = sum_list (map (\<lambda>row. number_at env row key) rows)"

lemma row_tokens_append: "row_tokens env key (rows @ rows') = row_tokens env key rows + row_tokens env key rows'"
  by (simp add: row_tokens_def)

lemma row_tokens_files:
  "row_tokens env ''tokens_in'' (map (file_row (claude_base env line ts)) fs) = 0"
  "row_tokens env ''tokens_out'' (map (file_row (claude_base env line ts)) fs) = 0"
  by (induction fs) (simp_all add: row_tokens_def file_row_def number_at_plain)

lemma row_tokens_none:
  "row_tokens env ''tokens_in'' (claude_rows env line ts None) = 0"
  "row_tokens env ''tokens_out'' (claude_rows env line ts None) = 0"
proof -
  have files: "file_rows env (claude_base env line ts) None fs = map (file_row (claude_base env line ts)) fs" for fs
    by (cases fs) (simp_all add: attach_tokens_def)
  have single: "row_tokens env k [entity_row (claude_base env line ts) a e et w] = number_at env (entity_row (claude_base env line ts) a e et w) k"
    for k a e et w by (simp add: row_tokens_def)
  have none: "row_tokens env k [] = 0" for k by (simp add: row_tokens_def)
  have off: "attach_tokens env None row = row" for row by (simp add: attach_tokens_def)
  show "row_tokens env ''tokens_in'' (claude_rows env line ts None) = 0"
    "row_tokens env ''tokens_out'' (claude_rows env line ts None) = 0"
    unfolding claude_rows_def Let_def files off by (simp_all add: single number_at_plain row_tokens_files none)
qed

lemma row_tokens_some:
  assumes "str_at line ''type'' = Some ''assistant''"
    and "nm_real (we_nm env) (nm_json (we_nm env) tin) = Some tin" and "nm_real (we_nm env) (nm_json (we_nm env) tout) = Some tout"
  shows "row_tokens env ''tokens_in'' (claude_rows env line ts (Some (tin, tout, cost))) = tin"
    and "row_tokens env ''tokens_out'' (claude_rows env line ts (Some (tin, tout, cost))) = tout"
proof -
  have not_human: "\<not> is_human_prompt env line" using assms(1) by (simp add: is_human_prompt_def)
  have first: "row_tokens env k (r # rs) = number_at env r k + row_tokens env k rs" for k r rs by (simp add: row_tokens_def)
  have none: "row_tokens env k [] = 0" for k by (simp add: row_tokens_def)
  show "row_tokens env ''tokens_in'' (claude_rows env line ts (Some (tin, tout, cost))) = tin"
    "row_tokens env ''tokens_out'' (claude_rows env line ts (Some (tin, tout, cost))) = tout"
    unfolding claude_rows_def Let_def
    using not_human assms by (cases "tool_files env line";
      simp add: first none row_tokens_files file_row_def [of "claude_base env line ts" "_ :: string \<times> bool"] number_at_attached)+
qed

subsection \<open>What a run of lines is charged\<close>

definition counted :: "watch_env \<Rightarrow> real \<Rightarrow> json \<Rightarrow> bool" where
  "counted env now line \<longleftrightarrow>
     (case parse_ts_seconds env (json_get line ''timestamp'') of
        None \<Rightarrow> False
      | Some ts \<Rightarrow> ft_round (we_ft env) (now - ts) \<le> RECENT_WINDOW_S)"

definition line_counters :: "watch_env \<Rightarrow> json \<Rightarrow> real list" where
  "line_counters env line = (case line_usage line of Some u \<Rightarrow> read_usage env u | None \<Rightarrow> [0, 0, 0, 0])"

text \<open>The counters the state remembers of a message (zeros when it knows none), and the largest counters of
  these and of the counted lines of the message.\<close>

definition stored :: "watch_env \<Rightarrow> json \<Rightarrow> string \<Rightarrow> real list" where
  "stored env state mid = read_previous env (state_object ''claudeUsageById'' state) mid"

definition peak :: "watch_env \<Rightarrow> real \<Rightarrow> json \<Rightarrow> json list \<Rightarrow> string \<Rightarrow> real list" where
  "peak env now state lines mid =
     foldl (map2 max) (stored env state mid)
       (map (line_counters env) (filter (\<lambda>l. counted env now l \<and> usage_id env l = Some mid) lines))"

definition message_ids :: "watch_env \<Rightarrow> json list \<Rightarrow> string set" where
  "message_ids env lines = set (List.map_filter (usage_id env) lines)"

definition billable :: "watch_env \<Rightarrow> json \<Rightarrow> bool" where
  "billable env line \<longleftrightarrow>
     str_at line ''type'' = Some ''assistant'' \<and> usage_id env line \<noteq> None \<and> list_all whole (line_counters env line)"

text \<open>A line without counters, or of an answer that has an id.\<close>

definition ordinary :: "watch_env \<Rightarrow> json \<Rightarrow> bool" where
  "ordinary env line \<longleftrightarrow> line_usage line = None \<or> billable env line"

definition claude_lines :: "watch_env \<Rightarrow> real \<Rightarrow> json \<Rightarrow> json list \<Rightarrow> json list \<times> json" where
  "claude_lines env now state lines = foldl (\<lambda>st line. claude_line env now line st) ([], state) lines"

lemma length_counters: "length (line_counters env line) = 4"
  by (simp add: line_counters_def read_usage_def USAGE_KEYS_def split: option.split)

lemma length_stored: "length (stored env state mid) = 4"
  by (simp add: stored_def read_previous_def USAGE_KEYS_def split: option.split)

lemma whole_zero: "whole 0"
  by (auto simp: whole_def intro: exI [of _ 0])

lemma whole_max2: "list_all whole xs \<Longrightarrow> list_all whole ys \<Longrightarrow> list_all whole (map2 max xs ys)"
  by (induction xs ys rule: list_induct2') (simp_all add: whole_max)

lemma usage_id_usage: "usage_id env line = Some mid \<Longrightarrow> \<exists>u. line_usage line = Some u"
  by (simp add: usage_id_def split: option.splits)

lemma charge_billable:
  assumes "exact_counters env" and "usage_id env line = Some mid"
    and cur: "line_counters env line = [c0, c1, c2, c3]" and prev: "stored env state mid = [p0, p1, p2, p3]"
    and "list_all whole [c0, c1, c2, c3]" and "list_all whole [p0, p1, p2, p3]"
  shows "stored env (snd (charge env line state)) j
      = (if j = mid then [max c0 p0, max c1 p1, max c2 p2, max c3 p3] else stored env state j)"
    and "(fst (charge env line state) = None \<and> max c0 p0 = p0 \<and> max c1 p1 = p1 \<and> max c2 p2 = p2 \<and> max c3 p3 = p3)
      \<or> (\<exists>cost. fst (charge env line state)
          = Some ((max c0 p0 - p0) + (max c1 p1 - p1) + (max c2 p2 - p2), max c3 p3 - p3, cost))"
proof -
  obtain u where u: "line_usage line = Some u" using usage_id_usage [OF assms(2)] by blast
  have now: "read_usage env u = [c0, c1, c2, c3]" using cur u by (simp add: line_counters_def)
  have before: "read_previous env (state_object ''claudeUsageById'' state) mid = [p0, p1, p2, p3]"
    using prev by (simp add: stored_def)
  have w: "list_all whole [max c0 p0, max c1 p1, max c2 p2, max c3 p3]" using assms(5,6) by (simp add: whole_max)
  note stored4 = stored_counters_json [OF assms(1) w]
  have state': "snd (charge env line state) = object_mut ''claudeUsageById''
      (\<lambda>m. json_insert mid (counters_json env [max c0 p0, max c1 p1, max c2 p2, max c3 p3]) m) (ensure_object ''claudeUsageById'' state)"
    by (simp add: charge_def u now before assms(2) Let_def)
  show "stored env (snd (charge env line state)) j
      = (if j = mid then [max c0 p0, max c1 p1, max c2 p2, max c3 p3] else stored env state j)"
    unfolding state' stored_def read_previous_eq
    by (simp add: state_object_mut state_object_ensure map_of_json_insert stored4)
  have d: "usage_delta env [c0, c1, c2, c3] [p0, p1, p2, p3] = [max c0 p0 - p0, max c1 p1 - p1, max c2 p2 - p2, max c3 p3 - p3]"
    using assms(5,6) by (simp add: usage_delta_def whole_diff [OF assms(1)])
  have sum: "ft_round (we_ft env) (ft_round (we_ft env) ((max c0 p0 - p0) + (max c1 p1 - p1)) + (max c2 p2 - p2))
      = (max c0 p0 - p0) + (max c1 p1 - p1) + (max c2 p2 - p2)"
    using assms(5,6) by (intro whole_round [OF assms(1)] whole_diff [OF assms(1)]) simp_all
  show "(fst (charge env line state) = None \<and> max c0 p0 = p0 \<and> max c1 p1 = p1 \<and> max c2 p2 = p2 \<and> max c3 p3 = p3)
      \<or> (\<exists>cost. fst (charge env line state)
          = Some ((max c0 p0 - p0) + (max c1 p1 - p1) + (max c2 p2 - p2), max c3 p3 - p3, cost))"
    by (auto simp: charge_def u now before assms(2) Let_def d sum)
qed

lemma peak_snoc:
  "peak env now state (lines @ [line]) mid =
     (if counted env now line \<and> usage_id env line = Some mid
      then map2 max (peak env now state lines mid) (line_counters env line) else peak env now state lines mid)"
  by (simp add: peak_def)

lemma peak_Nil: "peak env now state [] mid = stored env state mid"
  by (simp add: peak_def)

lemma peak_whole:
  "list_all whole (stored env state mid) \<Longrightarrow> \<forall>l \<in> set lines. ordinary env l \<Longrightarrow>
     list_all whole (peak env now state lines mid)"
  by (induction lines rule: rev_induct)
    (auto simp: peak_Nil peak_snoc ordinary_def billable_def whole_max2 usage_id_def split: option.splits)

text \<open>The tokens of a peak: \<open>input + cacheWrite + cacheRead\<close>, and \<open>output\<close>.\<close>

definition peak_in :: "real list \<Rightarrow> real" where
  "peak_in xs = xs ! 0 + xs ! 1 + xs ! 2"

definition peak_out :: "real list \<Rightarrow> real" where
  "peak_out xs = xs ! 3"

lemma sum_update:
  fixes f g :: "'a \<Rightarrow> real"
  assumes "finite A" and "a \<in> A" and "\<And>x. x \<noteq> a \<Longrightarrow> f x = g x"
  shows "sum f A = sum g A + (f a - g a)"
  using assms by (simp add: sum.remove [of A a])

lemma claude_lines_snoc:
  "claude_lines env now state (lines @ [line]) = claude_line env now line (claude_lines env now state lines)"
  by (simp add: claude_lines_def)

lemma claude_line_plain:
  assumes "line_usage line = None"
  shows "snd (claude_line env now line (rows, state)) = state"
    and "row_tokens env ''tokens_in'' (fst (claude_line env now line (rows, state))) = row_tokens env ''tokens_in'' rows"
    and "row_tokens env ''tokens_out'' (fst (claude_line env now line (rows, state))) = row_tokens env ''tokens_out'' rows"
  using assms by (auto simp: claude_line_def charge_def row_tokens_append row_tokens_none split: option.split)

lemma claude_line_uncounted: "\<not> counted env now line \<Longrightarrow> claude_line env now line st = st"
  by (cases st) (auto simp: claude_line_def counted_def split: option.splits)

lemma claude_line_counted:
  assumes "counted env now line"
  shows "\<exists>ts. claude_line env now line (rows, state)
    = (rows @ claude_rows env line ts (fst (charge env line state)), snd (charge env line state))"
  using assms by (auto simp: claude_line_def counted_def split: option.splits prod.split)

lemma claude_line_step:
  fixes rows :: "json list"
  assumes "exact_counters env" and "counted env now line" and "billable env line" and "usage_id env line = Some mid"
    and "list_all whole (stored env state mid)"
  defines "st \<equiv> claude_line env now line (rows, state)" and "new \<equiv> map2 max (line_counters env line) (stored env state mid)"
  shows "stored env (snd st) j = (if j = mid then new else stored env state j)"
    and "row_tokens env ''tokens_in'' (fst st) = row_tokens env ''tokens_in'' rows + (peak_in new - peak_in (stored env state mid))"
    and "row_tokens env ''tokens_out'' (fst st) = row_tokens env ''tokens_out'' rows + (peak_out new - peak_out (stored env state mid))"
proof -
  obtain c0 c1 c2 c3 where c: "line_counters env line = [c0, c1, c2, c3]" using four [OF length_counters] by metis
  obtain p0 p1 p2 p3 where p: "stored env state mid = [p0, p1, p2, p3]" using four [OF length_stored] by metis
  have w: "list_all whole [c0, c1, c2, c3]" "list_all whole [p0, p1, p2, p3]" using assms(3,5) c p by (simp_all add: billable_def)
  note ch = charge_billable [OF assms(1,4) c p w]
  obtain ts where ts: "st = (rows @ claude_rows env line ts (fst (charge env line state)), snd (charge env line state))"
    using claude_line_counted [OF assms(2)] unfolding st_def by metis
  show "stored env (snd st) j = (if j = mid then new else stored env state j)"
    unfolding new_def c p by (simp add: ts ch(1))
  have asst: "str_at line ''type'' = Some ''assistant''" using assms(3) by (simp add: billable_def)
  have diffs: "whole (max c0 p0 - p0)" "whole (max c1 p1 - p1)" "whole (max c2 p2 - p2)" "whole (max c3 p3 - p3)"
    using w by (simp_all add: whole_diff(2) [OF assms(1)])
  note json_in = whole_round(2) [OF assms(1) diffs(1-3)]
  have json_out: "nm_real (we_nm env) (nm_json (we_nm env) (max c3 p3 - p3)) = Some (max c3 p3 - p3)"
    using whole_round(2) [OF assms(1) diffs(4) whole_zero whole_zero] by simp
  note rows = row_tokens_some [OF asst json_in json_out]
  show "row_tokens env ''tokens_in'' (fst st) = row_tokens env ''tokens_in'' rows + (peak_in new - peak_in (stored env state mid))"
    using ch(2) unfolding ts new_def c p
    by (elim disjE conjE exE) (simp_all add: row_tokens_append row_tokens_none rows peak_in_def)
  show "row_tokens env ''tokens_out'' (fst st) = row_tokens env ''tokens_out'' rows + (peak_out new - peak_out (stored env state mid))"
    using ch(2) unfolding ts new_def c p
    by (elim disjE conjE exE) (simp_all add: row_tokens_append row_tokens_none rows peak_out_def)
qed

lemma map2_max_swap: "map2 max xs ys = map2 max ys (xs :: real list)"
  by (induction xs ys rule: list_induct2') (simp_all add: max.commute)

lemma message_ids_snoc: "message_ids env (lines @ [line]) = message_ids env lines \<union> set_option (usage_id env line)"
  by (auto simp: message_ids_def List.map_filter_def split: option.splits)

lemma claude_lines_totals:
  assumes "exact_counters env" and "\<forall>mid. list_all whole (stored env state mid)"
    and "\<forall>l \<in> set lines. ordinary env l" and "finite ids" and "message_ids env lines \<subseteq> ids"
  shows "(\<forall>mid. stored env (snd (claude_lines env now state lines)) mid = peak env now state lines mid)
    \<and> row_tokens env ''tokens_in'' (fst (claude_lines env now state lines))
        = (\<Sum>mid\<in>ids. peak_in (peak env now state lines mid) - peak_in (stored env state mid))
    \<and> row_tokens env ''tokens_out'' (fst (claude_lines env now state lines))
        = (\<Sum>mid\<in>ids. peak_out (peak env now state lines mid) - peak_out (stored env state mid))"
  using assms(3,5)
proof (induction lines rule: rev_induct)
  case Nil
  show ?case by (simp add: claude_lines_def peak_Nil row_tokens_def)
next
  case (snoc line lines)
  obtain rows state' where before: "claude_lines env now state lines = (rows, state')" by fastforce
  have inv: "\<forall>mid. stored env state' mid = peak env now state lines mid"
      "row_tokens env ''tokens_in'' rows = (\<Sum>mid\<in>ids. peak_in (peak env now state lines mid) - peak_in (stored env state mid))"
      "row_tokens env ''tokens_out'' rows = (\<Sum>mid\<in>ids. peak_out (peak env now state lines mid) - peak_out (stored env state mid))"
    using snoc.IH snoc.prems before by (simp_all add: message_ids_snoc)
  have lines: "ordinary env line" "\<forall>l \<in> set lines. ordinary env l" using snoc.prems(1) by simp_all
  consider "\<not> counted env now line" | "line_usage line = None" | "counted env now line" "billable env line"
    using lines(1) by (auto simp: ordinary_def)
  then show ?case
  proof cases
    case 1
    then show ?thesis using inv by (simp add: claude_lines_snoc before claude_line_uncounted peak_snoc)
  next
    case 2
    then have "usage_id env line = None" by (simp add: usage_id_def)
    then show ?thesis using 2 inv by (simp add: claude_lines_snoc before claude_line_plain peak_snoc)
  next
    case 3
    obtain mid where mid: "usage_id env line = Some mid" using 3(2) by (auto simp: billable_def)
    have "mid \<in> ids" using snoc.prems(2) mid by (simp add: message_ids_snoc)
    have "list_all whole (stored env state' mid)" using inv(1) peak_whole lines(2) assms(2) by simp
    note step = claude_line_step [OF assms(1) 3 mid this, where rows = rows]
    have new: "map2 max (line_counters env line) (stored env state' mid) = peak env now state (lines @ [line]) mid"
      using 3(1) mid inv(1) by (simp add: peak_snoc map2_max_swap)
    have other: "peak env now state (lines @ [line]) j = peak env now state lines j" if "j \<noteq> mid" for j
      using mid that by (simp add: peak_snoc)
    have "(\<Sum>j\<in>ids. f (peak env now state (lines @ [line]) j) - f (stored env state j))
        = (\<Sum>j\<in>ids. f (peak env now state lines j) - f (stored env state j))
          + (f (peak env now state (lines @ [line]) mid) - f (peak env now state lines mid))"
      for f :: "real list \<Rightarrow> real"
      using sum_update [OF assms(4) \<open>mid \<in> ids\<close>, of "\<lambda>j. f (peak env now state (lines @ [line]) j) - f (stored env state j)"
          "\<lambda>j. f (peak env now state lines j) - f (stored env state j)"] other by simp
    then show ?thesis
      using step [unfolded new] inv other by (simp add: claude_lines_snoc before)
  qed
qed

text \<open>C10: The rows of a pass over transcript lines charge the growth of every message once. The state remembers
  counters of some messages. However often and in whatever order the lines of a message are rewritten with
  other counters, the \<open>tokens_in\<close> of the rows add up to how far the largest input, cache-write and
  cache-read counters of every message exceed the remembered ones, the \<open>tokens_out\<close> likewise for the
  output counters, and the largest counters are what the state remembers afterwards, so that the next pass
  goes on from there. Assumed: counters are whole numbers up to \<open>2^50\<close>, which the doubles hold exactly, and a
  line that carries counters is of type assistant and has a message id; lines outside the recent
  window count for nothing.\<close>

theorem claude_tokens_charged_once:
  assumes "exact_counters env" and "\<forall>mid. list_all whole (stored env state mid)"
    and "\<forall>l \<in> set lines. ordinary env l"
  shows "row_tokens env ''tokens_in'' (fst (claude_lines env now state lines))
      = (\<Sum>mid\<in>message_ids env lines. peak_in (peak env now state lines mid) - peak_in (stored env state mid))
    \<and> row_tokens env ''tokens_out'' (fst (claude_lines env now state lines))
      = (\<Sum>mid\<in>message_ids env lines. peak_out (peak env now state lines mid) - peak_out (stored env state mid))
    \<and> (\<forall>mid. stored env (snd (claude_lines env now state lines)) mid = peak env now state lines mid)"
proof -
  have "finite (message_ids env lines)" by (simp add: message_ids_def)
  from claude_lines_totals [OF assms this subset_refl, of now] show ?thesis by blast
qed

subsection \<open>An example\<close>

definition demo_we :: watch_env where
  "demo_we =
     \<lparr>we_jt = \<lparr>jt_str = (\<lambda>_. ''{}''), jt_parse = (\<lambda>_. None)\<rparr>,
      we_nm = \<lparr>nm_json = (\<lambda>x. json_of_i64 \<lfloor>x\<rfloor>), nm_real = (\<lambda>v. map_option of_int (as_i64 v))\<rparr>,
      we_ft = \<lparr>ft_round = (\<lambda>x. x), ft_parse = (\<lambda>_. NotANumber), ft_sci = (\<lambda>_. [])\<rparr>,
      we_git = \<lparr>ge_meta = (\<lambda>_. None), ge_cwd = ''/'', ge_url = (\<lambda>_. None), ge_lower = (\<lambda>s. s)\<rparr>,
      we_millis = (\<lambda>_. Some 0), we_aliases = [], we_pricing = None\<rparr>"

definition demo_usage :: "string \<Rightarrow> int \<Rightarrow> int \<Rightarrow> json" where
  "demo_usage mid tin tout =
     JObject
       [(''type'', JString ''assistant''), (''timestamp'', JString ''t''),
        (''message'', JObject [(''id'', JString mid),
           (''usage'', JObject [(''input_tokens'', json_of_i64 tin), (''output_tokens'', json_of_i64 tout)])])]"

lemma demo_we_exact: "exact_counters demo_we"
proof -
  have "as_i64 (json_of_i64 (int k)) = Some (int k)" if "k \<le> 2 ^ 52" for k :: nat
    by (rule as_i64_json_of_i64) (use that in \<open>simp add: i64_ok_def i64_max_def\<close>)
  then show ?thesis by (simp add: exact_counters_def demo_we_def)
qed

lemma demo_counters:
  "line_usage (demo_usage mid a b) = Some (JObject [(''input_tokens'', json_of_i64 a), (''output_tokens'', json_of_i64 b)])"
  "usage_id demo_we (demo_usage mid a b) = Some mid"
  "str_at (demo_usage mid a b) ''type'' = Some ''assistant''"
  "counted demo_we 0 (demo_usage mid a b)"
  by (simp_all add: line_usage_def json_at_def demo_usage_def is_object_opt_def is_object_def usage_id_def str_at_def
      counted_def parse_ts_seconds_def demo_we_def RECENT_WINDOW_S_def)

lemma demo_line_counters:
  assumes "i64_ok a" and "i64_ok b"
  shows "line_counters demo_we (demo_usage mid a b) = [of_int a, 0, 0, of_int b]"
  using assms by (simp add: line_counters_def demo_counters read_usage_def USAGE_KEYS_def number_at_def demo_we_def as_i64_json_of_i64)

text \<open>A message written twice, the second time with the same input and more output, a line of the user, and another
  message, of which six input tokens were charged in an earlier pass.\<close>

definition demo_usage_state :: json where
  "demo_usage_state = JObject [(''claudeUsageById'', JObject [(''m2'', JObject [(''input'', json_of_i64 6)])])]"

definition demo_user :: json where
  "demo_user = JObject [(''type'', JString ''user''), (''timestamp'', JString ''t'')]"

theorem claude_tokens_charged_once_witness:
  "let rows = fst (claude_lines demo_we 0 demo_usage_state
       [demo_usage ''m1'' 10 1, demo_usage ''m2'' 7 3, demo_user, demo_usage ''m1'' 10 5])
   in row_tokens demo_we ''tokens_in'' rows = 11 \<and> row_tokens demo_we ''tokens_out'' rows = 8"
proof -
  let ?lines = "[demo_usage ''m1'' 10 1, demo_usage ''m2'' 7 3, demo_user, demo_usage ''m1'' 10 5]"
  have ok: "i64_ok 10" "i64_ok 1" "i64_ok 7" "i64_ok 3" "i64_ok 5" "i64_ok 6" by (simp_all add: i64_ok_def i64_max_def)
  have w: "whole 10" "whole 1" "whole 7" "whole 3" "whole 5" "whole 6"
    unfolding whole_def
    by (rule exI [of _ 10], simp, rule exI [of _ 1], simp, rule exI [of _ 7], simp, rule exI [of _ 3], simp,
        rule exI [of _ 5], simp, rule exI [of _ 6], simp)
  have user: "line_usage demo_user = None" "usage_id demo_we demo_user = None"
    by (simp_all add: usage_id_def line_usage_def json_at_def demo_user_def is_object_opt_def)
  have "\<forall>l \<in> set ?lines. ordinary demo_we l"
    by (simp add: ordinary_def billable_def demo_counters demo_line_counters ok w whole_zero user)
  moreover have remembered: "stored demo_we demo_usage_state mid = (if mid = ''m2'' then [6, 0, 0, 0] else [0, 0, 0, 0])" for mid
    by (simp add: stored_def read_previous_def state_object_def object_or_empty_def demo_usage_state_def USAGE_KEYS_def
        number_at_def demo_we_def as_i64_json_of_i64 ok)
  moreover have "\<forall>mid. list_all whole (stored demo_we demo_usage_state mid)" by (simp add: remembered w whole_zero)
  moreover have "message_ids demo_we ?lines = {''m1'', ''m2''}"
    by (simp add: message_ids_def List.map_filter_def demo_counters user insert_commute)
  moreover have "peak demo_we 0 demo_usage_state ?lines ''m1'' = [10, 0, 0, 5]" "peak demo_we 0 demo_usage_state ?lines ''m2'' = [7, 0, 0, 3]"
    by (simp_all add: peak_def demo_counters demo_line_counters ok remembered user)
  ultimately show ?thesis
    using claude_tokens_charged_once [OF demo_we_exact, of demo_usage_state ?lines 0]
    by (simp add: Let_def peak_in_def peak_out_def)
qed

end
