(* ===== verification/Timeparse.thy ===== *)
theory Timeparse
  imports Jsnum "HOL-Library.Signed_Division"
begin

text \<open>
  Dates (\<open>crates/stackhour-core/src/timeparse.rs\<close>): timestamps given on the command line, the day
  bucket of a time and the stamps in file names. The \<open>i64\<close> arithmetic of the source is over
  \<open>int\<close>, with its division truncating (\<open>sdiv\<close>, \<open>smod\<close>): years have at most six digits there, far
  below the overflow. The RFC 3339 parser of \<open>chrono\<close> is a parameter that yields milliseconds.
\<close>

definition MAX_DATE_MS :: int where
  "MAX_DATE_MS = 8640000000000000"

definition MAX_VERBATIM_SECONDS :: real where
  "MAX_VERBATIM_SECONDS = 8640000000000"

subsection \<open>The calendar\<close>

definition is_leap_year :: "int \<Rightarrow> bool" where
  "is_leap_year y \<longleftrightarrow> y smod 4 = 0 \<and> y smod 100 \<noteq> 0 \<or> y smod 400 = 0"

definition days_in_month :: "int \<Rightarrow> int \<Rightarrow> int" where
  "days_in_month y m =
     (if m \<in> {1, 3, 5, 7, 8, 10, 12} then 31
      else if m \<in> {4, 6, 9, 11} then 30
      else if m = 2 then (if is_leap_year y then 29 else 28)
      else 0)"

definition days_from_civil :: "int \<Rightarrow> int \<Rightarrow> int \<Rightarrow> int" where
  "days_from_civil y0 m d =
     (let y = (if m \<le> 2 then y0 - 1 else y0);
          era = (if y \<ge> 0 then y else y - 399) sdiv 400;
          yoe = y - era * 400;
          mp = (if m > 2 then m - 3 else m + 9);
          doy = (153 * mp + 2) sdiv 5 + d - 1;
          doe = yoe * 365 + yoe sdiv 4 - yoe sdiv 100 + doy
      in era * 146097 + doe - 719468)"

definition civil_from_days :: "int \<Rightarrow> int \<times> int \<times> int" where
  "civil_from_days z0 =
     (let z = z0 + 719468;
          era = (if z \<ge> 0 then z else z - 146096) sdiv 146097;
          doe = z - era * 146097;
          yoe = (doe - doe sdiv 1460 + doe sdiv 36524 - doe sdiv 146096) sdiv 365;
          y = yoe + era * 400;
          doy = doe - (365 * yoe + yoe sdiv 4 - yoe sdiv 100);
          mp = (5 * doy + 2) sdiv 153;
          d = doy - (153 * mp + 2) sdiv 5 + 1;
          m = (if mp < 10 then mp + 3 else mp - 9)
      in (if m \<le> 2 then y + 1 else y, m, d))"

subsection \<open>Parsing\<close>

definition digits_range :: "string \<Rightarrow> nat option" where
  "digits_range s = (if all_digits s then Some (digits_val s) else None)"

definition parse_bare_date_days :: "string \<Rightarrow> int option" where
  "parse_bare_date_days s =
     (if length s \<noteq> 10 \<or> s ! 4 \<noteq> CHR ''-'' \<or> s ! 7 \<noteq> CHR ''-'' then None
      else
        Option.bind (digits_range (take 4 s)) (\<lambda>year.
        Option.bind (digits_range (take 2 (drop 5 s))) (\<lambda>month.
        Option.bind (digits_range (take 2 (drop 8 s))) (\<lambda>day.
          if \<not> (1 \<le> month \<and> month \<le> 12) \<or> day < 1 \<or> int day > days_in_month (int year) (int month) then None
          else Some (days_from_civil (int year) (int month) (int day))))))"

definition date_parse_subset_ms :: "(real \<Rightarrow> real) \<Rightarrow> (string \<Rightarrow> int option) \<Rightarrow> string \<Rightarrow> real option" where
  "date_parse_subset_ms rnd rfc3339 s =
     (case parse_bare_date_days s of
        Some days \<Rightarrow> Some (rnd (rnd (of_int days) * 86400000))
      | None \<Rightarrow>
          (case rfc3339 s of
             None \<Rightarrow> None
           | Some millis \<Rightarrow> (let ms = rnd (of_int millis) in if \<bar>ms\<bar> > of_int MAX_DATE_MS then None else Some ms)))"

definition parse_time_value :: "f64_text \<Rightarrow> (string \<Rightarrow> int option) \<Rightarrow> string option \<Rightarrow> string \<Rightarrow> string + real option" where
  "parse_time_value ft rfc3339 v name =
     (case v of
        None \<Rightarrow> Inr None
      | Some s \<Rightarrow>
          if s = [] then Inr None
          else
            (case (case js_number ft (JString s) of
                     Finite x \<Rightarrow> if 0 \<le> x \<and> x \<le> MAX_VERBATIM_SECONDS then Some x else None
                   | _ \<Rightarrow> None) of
               Some x \<Rightarrow> Inr (Some x)
             | None \<Rightarrow>
                 (case date_parse_subset_ms (ft_round ft) rfc3339 s of
                    Some ms \<Rightarrow> Inr (Some (ft_round ft (ms / 1000)))
                  | None \<Rightarrow> Inl (name @ '' must be a Unix timestamp or ISO date''))))"

subsection \<open>Printing\<close>

definition pad :: "nat \<Rightarrow> int \<Rightarrow> string" where
  "pad n k = (let s = nat_str (nat k) in replicate (n - length s) CHR ''0'' @ s)"

definition year_str :: "int \<Rightarrow> string" where
  "year_str year =
     (if 0 \<le> year \<and> year \<le> 9999 then pad 4 year
      else (if year < 0 then ''-'' else ''+'') @ pad 6 \<bar>year\<bar>)"

definition js_to_iso_string :: "int \<Rightarrow> string" where
  "js_to_iso_string epoch_ms =
     (let ms = max (- MAX_DATE_MS) (min MAX_DATE_MS epoch_ms);
          days = ms div 86400000;
          tod = ms mod 86400000;
          (year, month, day) = civil_from_days days
      in year_str year @ ''-'' @ pad 2 month @ ''-'' @ pad 2 day @ ''T'' @ pad 2 (tod sdiv 3600000) @ '':''
         @ pad 2 (tod sdiv 60000 smod 60) @ '':'' @ pad 2 (tod sdiv 1000 smod 60) @ ''.'' @ pad 3 (tod smod 1000) @ ''Z'')"

definition trunc_ms :: "f64_value \<Rightarrow> int" where
  "trunc_ms v =
     (case v of
        NotANumber \<Rightarrow> 0
      | Infinite neg \<Rightarrow> if neg then - MAX_DATE_MS else MAX_DATE_MS
      | Finite x \<Rightarrow>
          if x \<ge> of_int MAX_DATE_MS then MAX_DATE_MS
          else if x \<le> - of_int MAX_DATE_MS then - MAX_DATE_MS
          else if x \<ge> 0 then \<lfloor>x\<rfloor> else \<lceil>x\<rceil>)"

definition iso_date_utc :: "(real \<Rightarrow> real) \<Rightarrow> f64_value \<Rightarrow> string" where
  "iso_date_utc rnd epoch_s =
     (let ms_f = (case epoch_s of Finite x \<Rightarrow> Finite (rnd (x * 1000)) | other \<Rightarrow> other)
      in take 10 (js_to_iso_string (trunc_ms ms_f)))"

definition iso_ts_for_filename :: "int \<Rightarrow> string" where
  "iso_ts_for_filename epoch_ms = map (\<lambda>c. if c = CHR '':'' \<or> c = CHR ''.'' then CHR ''-'' else c) (js_to_iso_string epoch_ms)"

subsection \<open>Division\<close>

lemma sdiv_nonneg: "0 \<le> a \<Longrightarrow> 0 < b \<Longrightarrow> a sdiv b = a div (b :: int)"
  by (cases "a = 0") (simp_all add: signed_divide_int_def)

lemma smod_nonneg: "0 \<le> a \<Longrightarrow> 0 < b \<Longrightarrow> a smod b = a mod (b :: int)"
  by (simp add: signed_modulo_int_def sgn_if)

lemma smod_zero: "0 < b \<Longrightarrow> (a smod b = 0) = (a mod (b :: int) = 0)"
  by (auto simp: signed_modulo_int_def sgn_if)

lemma floor_sdiv:
  assumes "0 < b" and "c = b - 1"
  shows "(if a \<ge> 0 then a else a - c) sdiv b = a div (b :: int)"
proof (cases "a \<ge> 0")
  case True
  then show ?thesis using assms by (simp add: sdiv_nonneg)
next
  case False
  have "a - c = - (c - a)" by simp
  moreover have "(c - a) div b = - (a div b)"
    by (rule int_div_pos_eq [where r = "c - a mod b"])
      (use assms mult_div_mod_eq [of b a] pos_mod_bound [OF assms(1), of a] pos_mod_sign [OF assms(1), of a] in \<open>simp_all add: algebra_simps\<close>)
  ultimately show ?thesis using False assms by (simp add: signed_divide_int_def sgn_if)
qed

lemmas floor_sdiv_400 = floor_sdiv [where b = 400 and c = 399, simplified]
lemmas floor_sdiv_146097 = floor_sdiv [where b = 146097 and c = 146096, simplified]

subsection \<open>The calendar, day by day\<close>

definition valid_date :: "int \<times> int \<times> int \<Rightarrow> bool" where
  "valid_date x = (case x of (y, m, d) \<Rightarrow> 1 \<le> m \<and> m \<le> 12 \<and> 1 \<le> d \<and> d \<le> days_in_month y m)"

text \<open>The day after a date, and the one before.\<close>

definition next_day :: "int \<times> int \<times> int \<Rightarrow> int \<times> int \<times> int" where
  "next_day x =
     (case x of (y, m, d) \<Rightarrow>
        if d < days_in_month y m then (y, m, d + 1) else if m < 12 then (y, m + 1, 1) else (y + 1, 1, 1))"

definition day_before :: "int \<times> int \<times> int \<Rightarrow> int \<times> int \<times> int" where
  "day_before x =
     (case x of (y, m, d) \<Rightarrow>
        if 1 < d then (y, m, d - 1)
        else if 1 < m then (y, m - 1, days_in_month y (m - 1)) else (y - 1, 12, 31))"

abbreviation day_number :: "int \<times> int \<times> int \<Rightarrow> int" where
  "day_number x \<equiv> (case x of (y, m, d) \<Rightarrow> days_from_civil y m d)"

lemma leap_year_mod: "is_leap_year y \<longleftrightarrow> y mod 4 = 0 \<and> y mod 100 \<noteq> 0 \<or> y mod 400 = 0"
  by (simp add: is_leap_year_def smod_zero)

text \<open>The days before a year that begins in March, and before one of its months.\<close>

definition year_days :: "int \<Rightarrow> int" where
  "year_days y = 365 * y + y div 4 - y div 100 + y div 400"

definition month_days :: "int \<Rightarrow> int" where
  "month_days mp = (153 * mp + 2) div 5"

lemma div_shift: "0 < b \<Longrightarrow> (a + b * c) div b = c + a div (b :: int)"
  by simp

lemma year_days_era: "year_days (400 * era + yoe) = era * 146097 + year_days yoe"
proof -
  have "(400 * era + yoe) div 4 = 100 * era + yoe div 4" using div_shift [of 4 yoe "100 * era"] by (simp add: algebra_simps)
  moreover have "(400 * era + yoe) div 100 = 4 * era + yoe div 100" using div_shift [of 100 yoe "4 * era"] by (simp add: algebra_simps)
  moreover have "(400 * era + yoe) div 400 = era + yoe div 400" using div_shift [of 400 yoe era] by (simp add: algebra_simps)
  ultimately show ?thesis by (simp add: year_days_def)
qed

lemma march_days:
  fixes a :: int
  defines "era \<equiv> (if a \<ge> 0 then a else a - 399) sdiv 400"
  shows "era * 146097 + ((a - era * 400) * 365 + (a - era * 400) sdiv 4 - (a - era * 400) sdiv 100) = year_days a"
proof -
  have era: "era = a div 400" unfolding era_def by (rule floor_sdiv) simp_all
  have yoe: "a - a div 400 * 400 = a mod 400" by (simp add: minus_div_mult_eq_mod)
  have pos: "0 \<le> a mod 400" by simp
  have "year_days a = a div 400 * 146097 + year_days (a mod 400)"
    using year_days_era [of "a div 400" "a mod 400"] mult_div_mod_eq [of 400 a] by metis
  moreover have "a mod 400 div 400 = 0" by (simp add: div_pos_pos_trivial)
  ultimately show ?thesis
    unfolding era yoe using sdiv_nonneg [OF pos, of 4] sdiv_nonneg [OF pos, of 100] by (simp add: year_days_def)
qed

lemma days_from_civil_eq:
  assumes "1 \<le> m"
  shows "days_from_civil y m d =
     year_days (if m \<le> 2 then y - 1 else y) + month_days (if m > 2 then m - 3 else m + 9) + d - 719469"
proof -
  have "0 \<le> 153 * (if m > 2 then m - 3 else m + 9) + 2" using assms by simp
  then show ?thesis
    using march_days [of "if m \<le> 2 then y - 1 else y"] unfolding days_from_civil_def Let_def month_days_def
    by (simp only: sdiv_nonneg)
qed

lemma div_step:
  fixes y b :: int
  assumes "0 < b"
  shows "y div b = (y - 1) div b + (if y mod b = 0 then 1 else 0)"
proof (cases "y mod b = 0")
  case True
  then obtain k where "y = b * k" by auto
  moreover have "(b * k - 1) div b = k - 1"
    by (rule int_div_pos_eq [where r = "b - 1"]) (use assms in \<open>simp_all add: algebra_simps\<close>)
  ultimately show ?thesis using True assms by simp
next
  case False
  have "(y - 1) div b = y div b"
    by (rule int_div_pos_eq [where r = "y mod b - 1"])
      (use assms False mult_div_mod_eq [of b y] pos_mod_bound [OF assms, of y] pos_mod_sign [OF assms, of y] in linarith)+
  then show ?thesis using False by simp
qed

lemma year_days_step: "year_days y = year_days (y - 1) + 365 + (if is_leap_year y then 1 else 0)"
proof -
  define a b c where "a \<equiv> y mod 4 = 0" and "b \<equiv> y mod 100 = 0" and "c \<equiv> y mod 400 = 0"
  have "y mod 100 mod 4 = y mod 4" "y mod 400 mod 100 = y mod 100" by (rule mod_mod_cancel; simp)+
  then have imp: "b \<Longrightarrow> a" "c \<Longrightarrow> b" by (simp_all add: a_def b_def c_def)
  have steps: "y div 4 = (y - 1) div 4 + (if a then 1 else 0)" "y div 100 = (y - 1) div 100 + (if b then 1 else 0)"
      "y div 400 = (y - 1) div 400 + (if c then 1 else 0)"
    unfolding a_def b_def c_def by (rule div_step; simp)+
  have leap: "is_leap_year y \<longleftrightarrow> a \<and> \<not> b \<or> c" by (simp add: leap_year_mod a_def b_def c_def)
  show ?thesis unfolding leap year_days_def steps using imp by (cases a; cases b; cases c) simp_all
qed

lemma months: "1 \<le> m \<Longrightarrow> m \<le> 12 \<Longrightarrow> m \<in> {1, 2, 3, 4, 5, 6, 7, 8, 9, 10, 11, 12 :: int}"
  by simp presburger

lemma next_day_number:
  assumes "valid_date x"
  shows "valid_date (next_day x)" and "day_number (next_day x) = day_number x + 1"
proof -
  obtain y m d where x: "x = (y, m, d)" by (cases x)
  have v: "1 \<le> m" "m \<le> 12" "1 \<le> d" "d \<le> days_in_month y m" using assms by (simp_all add: x valid_date_def)
  have m: "m \<in> {1, 2, 3, 4, 5, 6, 7, 8, 9, 10, 11, 12}" using months v(1,2) by blast
  show "valid_date (next_day x)"
    using v m by (auto simp: x next_day_def valid_date_def days_in_month_def)
  show "day_number (next_day x) = day_number x + 1"
  proof (cases "d < days_in_month y m")
    case True
    then show ?thesis using v by (simp add: x next_day_def days_from_civil_eq)
  next
    case False
    then have d: "d = days_in_month y m" using v by simp
    show ?thesis
      using m year_days_step [of y]
      by (auto simp: x next_day_def d days_from_civil_eq days_in_month_def month_days_def)
  qed
qed

lemma day_before_valid:
  assumes "valid_date x"
  shows "valid_date (day_before x)" and "next_day (day_before x) = x"
proof -
  obtain y m d where x: "x = (y, m, d)" by (cases x)
  have v: "1 \<le> m" "m \<le> 12" "1 \<le> d" "d \<le> days_in_month y m" using assms by (simp_all add: x valid_date_def)
  have m: "m \<in> {1, 2, 3, 4, 5, 6, 7, 8, 9, 10, 11, 12}" using months v(1,2) by blast
  show "valid_date (day_before x)"
    using v m by (auto simp: x day_before_def valid_date_def days_in_month_def)
  show "next_day (day_before x) = x"
    using v m by (auto simp: x day_before_def next_day_def days_in_month_def)
qed

lemma day_before_number: "valid_date x \<Longrightarrow> day_number (day_before x) = day_number x - 1"
  using next_day_number(2) [OF day_before_valid(1)] day_before_valid(2) by fastforce

lemma every_day_has_date: "\<exists>x. valid_date x \<and> day_number x = z"
proof -
  have epoch: "valid_date (1970, 1, 1) \<and> day_number (1970, 1, 1) = 0"
    by (simp add: valid_date_def days_in_month_def days_from_civil_eq year_days_def month_days_def)
  have "\<exists>x. valid_date x \<and> day_number x = int n" for n
  proof (induction n)
    case (Suc n)
    then obtain x where "valid_date x" "day_number x = int n" by blast
    then have "valid_date (next_day x) \<and> day_number (next_day x) = int (Suc n)" using next_day_number [of x] by simp
    then show ?case by blast
  qed (use epoch in auto)
  moreover have "\<exists>x. valid_date x \<and> day_number x = - int n" for n
  proof (induction n)
    case (Suc n)
    then obtain x where x: "valid_date x" "day_number x = - int n" by blast
    then have "valid_date (day_before x) \<and> day_number (day_before x) = - int (Suc n)"
      using day_before_valid(1) [of x] day_before_number [of x] by simp
    then show ?case by blast
  qed (use epoch in auto)
  ultimately show ?thesis by (metis int_cases2)
qed


subsection \<open>Reading the calendar back\<close>

lemma quotient_1460:
  fixes c q r doy :: int
  assumes "c \<in> {0, 1, 2, 3}" and "0 \<le> q" "q \<le> 24" and "r \<in> {0, 1, 2, 3}" and "0 \<le> doy" "doy \<le> 365"
    and "doy < 365 \<or> r = 3 \<and> (q < 24 \<or> c = 3)"
  defines "doe \<equiv> 36524 * c + 1461 * q + 365 * r + doy"
  shows "(doe - doe div 1460 + doe div 36524 - doe div 146096) div 365 = 100 * c + 4 * q + r"
proof -
  define e where "e = (if 24 * c + q + 365 * r + doy \<ge> 1460 then 1 else 0 :: int)"
  define t where "t = (if doe = 146096 then 1 else 0 :: int)"
  have q1460: "doe div 1460 = 25 * c + q + e"
    by (rule int_div_pos_eq [where r = "24 * c + q + 365 * r + doy - 1460 * e"])
      (use assms in \<open>auto simp: doe_def e_def\<close>)
  have q36524: "doe div 36524 = c + t"
    by (rule int_div_pos_eq [where r = "1461 * q + 365 * r + doy - 36524 * t"])
      (use assms in \<open>auto simp: doe_def t_def\<close>)
  have q146096: "doe div 146096 = t"
    by (rule int_div_pos_eq [where r = "doe - 146096 * t"])
      (use assms in \<open>auto simp: doe_def t_def\<close>)
  show ?thesis
    unfolding q1460 q36524 q146096
    by (rule int_div_pos_eq [where r = "doy - e"]) (use assms in \<open>auto simp: doe_def e_def\<close>)
qed

lemma four_way: "0 \<le> x \<Longrightarrow> x < 4 \<Longrightarrow> x \<in> {0, 1, 2, 3 :: int}"
  by auto

lemma split_year:
  fixes yoe :: int
  assumes "0 \<le> yoe" "yoe < 400"
  obtains c q r where "c \<in> {0, 1, 2, 3}" "0 \<le> q" "q \<le> 24" "r \<in> {0, 1, 2, 3}" "yoe = 100 * c + 4 * q + r"
    "yoe div 4 = 25 * c + q" "yoe div 100 = c" "yoe mod 4 = r" "yoe mod 100 = 4 * q + r"
proof -
  let ?c = "yoe div 100" and ?m = "yoe mod 100"
  let ?q = "?m div 4" and ?r = "?m mod 4"
  have m: "0 \<le> ?m" "?m < 100" by simp_all
  have c: "0 \<le> ?c" "?c < 4" using assms by (simp_all add: div_less_iff_less_mult pos_imp_zdiv_nonneg_iff)
  have r: "0 \<le> ?r" "?r < 4" by simp_all
  have mm: "?m = 4 * ?q + ?r" using mult_div_mod_eq [of 4 ?m] by linarith
  have q: "0 \<le> ?q" "?q \<le> 24" using m mm r by linarith+
  have y: "yoe = 100 * ?c + 4 * ?q + ?r" using mm mult_div_mod_eq [of 100 yoe] by linarith
  have d: "yoe div 4 = 25 * ?c + ?q"
    by (rule int_div_pos_eq [OF _ r]) (use y in \<open>simp only: distrib_left mult.assoc [symmetric]; simp\<close>)
  have "yoe mod 4 = ?r" by (rule mod_mod_cancel [symmetric]) simp
  then show thesis
    using that [OF four_way [OF c] q four_way [OF r] y d refl _ mm] by blast
qed


lemma leap_after:
  fixes y c q r :: int
  assumes "is_leap_year (y + 1)" and "y mod 400 = 100 * c + 4 * q + r" and "c \<in> {0, 1, 2, 3}" and "0 \<le> q" "q \<le> 24"
    and "r \<in> {0, 1, 2, 3}"
  shows "r = 3 \<and> (q < 24 \<or> c = 3)"
proof -
  obtain e where y: "y = 400 * e + (100 * c + 4 * q + r)" using assms(2) mult_div_mod_eq [of 400 y] by metis
  have "y + 1 = 4 * (100 * e + 25 * c + q) + (r + 1)" using y by simp
  then have m4: "(y + 1) mod 4 = (r + 1) mod 4" by (metis mod_mult_self4)
  have "(y + 1) mod 4 = 0"
    using assms(1) mod_mod_cancel [of 4 400 "y + 1"] by (auto simp: leap_year_mod)
  with m4 have r: "r = 3" using assms(6) by auto
  moreover have "c = 3" if "q = 24"
  proof -
    have y1: "y + 1 = 400 * e + 100 * (c + 1)" "y + 1 = 100 * (4 * e + c + 1)" using y r that by simp_all
    from y1(2) have "(y + 1) mod 100 = 0" by simp
    then have "(y + 1) mod 400 = 0" using assms(1) by (simp add: leap_year_mod)
    moreover have "(y + 1) mod 400 = (100 * (c + 1)) mod 400" unfolding y1(1) by (rule mod_mult_self4)
    ultimately show ?thesis using assms(3) by auto
  qed
  ultimately show ?thesis using assms(5) by linarith
qed

lemma month_found:
  assumes "month_days mp \<le> doy" and "doy < month_days (mp + 1)"
  shows "(5 * doy + 2) div 153 = mp"
proof -
  have "153 * mp + 2 < 5 * month_days mp + 5" "5 * month_days (mp + 1) \<le> 153 * (mp + 1) + 2"
    unfolding month_days_def by (simp_all add: mult_div_mod_eq [symmetric])
  then have "153 * mp \<le> 5 * doy + 2" "5 * doy + 2 < 153 * mp + 153" using assms by simp_all
  then show ?thesis by (intro int_div_pos_eq [where r = "5 * doy + 2 - 153 * mp"]) simp_all
qed

lemma civil_from_days_march:
  assumes doy: "0 \<le> doy" "doy \<le> 365" "doy < 365 \<or> is_leap_year (y + 1)"
    and mp: "0 \<le> mp" "month_days mp \<le> doy" "doy < month_days (mp + 1)" "mp \<le> 11"
  shows "civil_from_days (year_days y + doy - 719468) =
      (if mp < 10 then y else y + 1, if mp < 10 then mp + 3 else mp - 9, doy - month_days mp + 1)"
proof -
  let ?yoe = "y mod 400" and ?era = "y div 400"
  have yoe: "0 \<le> ?yoe" "?yoe < 400" by simp_all
  obtain c q r where cqr: "c \<in> {0, 1, 2, 3}" "0 \<le> q" "q \<le> 24" "r \<in> {0, 1, 2, 3}" "?yoe = 100 * c + 4 * q + r"
    "?yoe div 4 = 25 * c + q" "?yoe div 100 = c" using split_year [OF yoe] by metis
  define doe where "doe = 36524 * c + 1461 * q + 365 * r + doy"
  have full: "doy < 365 \<or> r = 3 \<and> (q < 24 \<or> c = 3)" using doy(3) leap_after [OF _ cqr(5) cqr(1-4)] by blast
  have doe: "0 \<le> doe" "doe < 146097" using cqr doy full unfolding doe_def by auto
  have "?yoe div 400 = 0" by (simp add: div_pos_pos_trivial)
  then have "year_days ?yoe + doy = doe" using cqr by (simp add: year_days_def doe_def)
  moreover have "year_days y = ?era * 146097 + year_days ?yoe"
    using year_days_era [of ?era ?yoe] mult_div_mod_eq [of 400 y] by metis
  ultimately have z: "year_days y + doy - 719468 + 719468 = ?era * 146097 + doe" by simp
  have era: "(if ?era * 146097 + doe \<ge> 0 then ?era * 146097 + doe else ?era * 146097 + doe - 146096) sdiv 146097 = ?era"
    by (subst floor_sdiv) (use doe in \<open>simp_all add: div_add1_eq div_pos_pos_trivial\<close>)
  have year: "(doe - doe sdiv 1460 + doe sdiv 36524 - doe sdiv 146096) sdiv 365 = ?yoe"
  proof -
    have "(doe - doe div 1460 + doe div 36524 - doe div 146096) div 365 = ?yoe"
      unfolding cqr(5) doe_def by (rule quotient_1460) (use cqr doy full in auto)
    moreover have "0 \<le> doe - doe div 1460 + doe div 36524 - doe div 146096" using doe(1) by linarith
    ultimately show ?thesis using doe(1) by (simp add: sdiv_nonneg)
  qed
  have day: "doe - (365 * ?yoe + ?yoe sdiv 4 - ?yoe sdiv 100) = doy"
    using cqr yoe(1) by (simp add: sdiv_nonneg doe_def)
  have month: "(5 * doy + 2) sdiv 153 = mp"
    using month_found [OF mp(2,3)] doy(1) by (simp add: sdiv_nonneg)
  have first: "(153 * mp + 2) sdiv 5 = month_days mp" using mp(1) by (simp add: sdiv_nonneg month_days_def)
  have yera: "?yoe + ?era * 400 = y" using mult_div_mod_eq [of 400 y] by linarith
  show ?thesis
    unfolding civil_from_days_def z Let_def era add_diff_cancel_left' year day month first yera using mp by simp
qed


lemma civil_from_days_from_civil:
  assumes "valid_date (y, m, d)"
  shows "civil_from_days (days_from_civil y m d) = (y, m, d)"
proof -
  define mp where "mp = (if m > 2 then m - 3 else m + 9)"
  define a where "a = (if m \<le> 2 then y - 1 else y)"
  have v: "1 \<le> m" "m \<le> 12" "1 \<le> d" "d \<le> days_in_month y m" using assms by (simp_all add: valid_date_def)
  have m: "m \<in> {1, 2, 3, 4, 5, 6, 7, 8, 9, 10, 11, 12}" using months v(1,2) by blast
  let ?doy = "month_days mp + d - 1"
  have mp: "0 \<le> mp" "mp \<le> 11" using v(1,2) by (simp_all add: mp_def)
  have bounds: "0 \<le> ?doy \<and> ?doy \<le> 365 \<and> (?doy < 365 \<or> is_leap_year (a + 1)) \<and> ?doy < month_days (mp + 1)"
    using m v(3,4) unfolding mp_def a_def days_in_month_def month_days_def
    by (elim insertE emptyE; cases "is_leap_year y"; simp)
  have "days_from_civil y m d = year_days a + ?doy - 719468"
    using days_from_civil_eq [OF v(1)] by (simp add: mp_def a_def)
  moreover have "month_days mp \<le> ?doy" using v(3) by simp
  ultimately have "civil_from_days (days_from_civil y m d) =
      (if mp < 10 then a else a + 1, if mp < 10 then mp + 3 else mp - 9, ?doy - month_days mp + 1)"
    using civil_from_days_march [of ?doy a mp] bounds mp by simp
  then show ?thesis using v by (simp add: mp_def a_def split: if_splits)
qed

lemma civil_from_days_valid: "valid_date (civil_from_days z) \<and> day_number (civil_from_days z) = z"
proof -
  obtain y m d where x: "valid_date (y, m, d)" "days_from_civil y m d = z" using every_day_has_date [of z] by force
  then show ?thesis using civil_from_days_from_civil [of y m d] by auto
qed

subsection \<open>Dates as text\<close>

lemma length_nat_str: "k < 10 ^ Suc n \<Longrightarrow> length (nat_str k) \<le> Suc n"
proof (induction n arbitrary: k)
  case 0
  then show ?case by (subst nat_str.simps) simp
next
  case (Suc n)
  have "k div 10 < 10 ^ Suc n" using Suc.prems by (simp add: div_less_iff_less_mult)
  then show ?case using Suc.IH [of "k div 10"] by (subst nat_str.simps) simp
qed

lemma pad_facts:
  assumes "0 \<le> k" and "nat k < 10 ^ n" and "0 < n"
  shows "length (pad n k) = n" and "all_digits (pad n k)" and "digits_val (pad n k) = nat k"
proof -
  obtain m where n: "n = Suc m" using assms(3) by (cases n) simp_all
  have len: "length (nat_str (nat k)) \<le> n" using length_nat_str assms(2) unfolding n by simp
  show "length (pad n k) = n" using len by (simp add: pad_def Let_def)
  show "all_digits (pad n k)"
    using nat_str_digits by (auto simp: pad_def Let_def is_ascii_digit_def byte_def)
  show "digits_val (pad n k) = nat k" by (simp add: pad_def Let_def digits_val_append digits_val_nat_str)
qed

lemma digit_cancel:
  fixes a a' b b' :: nat
  assumes "10 * a + b = 10 * a' + b'" and "b < 10" and "b' < 10"
  shows "a = a'" and "b = b'"
proof -
  have "(b + a * 10) div 10 = (b' + a' * 10) div 10" using assms(1) by (simp add: ac_simps)
  then show "a = a'" using assms(2,3) by simp
  with assms(1) show "b = b'" by simp
qed

lemma digits_val_inj:
  "length s = length t \<Longrightarrow> all_digits s \<Longrightarrow> all_digits t \<Longrightarrow> digits_val s = digits_val t \<Longrightarrow> s = t"
proof (induction s arbitrary: t rule: rev_induct)
  case (snoc c s)
  then obtain t' d where t: "t = t' @ [d]" by (cases t rule: rev_cases) auto
  have digit: "byte c - 48 < 10" "48 \<le> byte c" "byte d - 48 < 10" "48 \<le> byte d"
    using snoc.prems(2,3) t by (simp_all add: is_ascii_digit_def) linarith+
  have "10 * digits_val s + (byte c - 48) = 10 * digits_val t' + (byte d - 48)"
    using snoc.prems(4) t by (simp add: digits_val_snoc)
  from digit_cancel [OF this] have "digits_val s = digits_val t'" and "byte c - 48 = byte d - 48" using digit by blast+
  moreover from this(2) have "byte c = byte d" using digit by linarith
  then have "c = d" by (simp add: byte_def)
  ultimately show ?case using snoc.IH [of t'] snoc.prems(1-3) t by simp
qed simp

lemma digits_val_bound: "all_digits s \<Longrightarrow> digits_val s < 10 ^ length s"
proof (induction s rule: rev_induct)
  case (snoc c s)
  then have "digits_val s < 10 ^ length s" by simp
  moreover have "byte c - 48 < 10" using snoc.prems by (simp add: is_ascii_digit_def) linarith
  ultimately show ?case by (simp add: digits_val_snoc)
qed (simp add: digits_val_def)

lemma pad_of_digits:
  assumes "length t = n" and "all_digits t" and "0 < n"
  shows "pad n (int (digits_val t)) = t"
proof -
  have "nat (int (digits_val t)) < 10 ^ n" using digits_val_bound [OF assms(2)] assms(1) by simp
  note pad = pad_facts [OF _ this assms(3)]
  show ?thesis by (rule digits_val_inj) (use pad assms in simp_all)
qed

definition date_text :: "int \<times> int \<times> int \<Rightarrow> string" where
  "date_text x = (case x of (y, m, d) \<Rightarrow> pad 4 y @ ''-'' @ pad 2 m @ ''-'' @ pad 2 d)"

lemma month_day_bounds:
  assumes "valid_date (y, m, d)"
  shows "1 \<le> m" "m \<le> 12" "1 \<le> d" "d \<le> 31"
  using assms by (auto simp: valid_date_def days_in_month_def split: if_splits)

lemma date_text_layout:
  assumes "length a = 4" and "length b = 2" and "length c = 2"
  shows "length (a @ ''-'' @ b @ ''-'' @ c) = 10" and "(a @ ''-'' @ b @ ''-'' @ c) ! 4 = CHR ''-''"
    and "(a @ ''-'' @ b @ ''-'' @ c) ! 7 = CHR ''-''" and "take 4 (a @ ''-'' @ b @ ''-'' @ c) = a"
    and "take 2 (drop 5 (a @ ''-'' @ b @ ''-'' @ c)) = b" and "take 2 (drop 8 (a @ ''-'' @ b @ ''-'' @ c)) = c"
  using assms by (simp_all add: nth_append)

lemma parse_date_text:
  assumes "valid_date (y, m, d)" and "0 \<le> y" and "y \<le> 9999"
  shows "parse_bare_date_days (date_text (y, m, d)) = Some (days_from_civil y m d)"
proof -
  note v = month_day_bounds [OF assms(1)]
  have d: "d \<le> days_in_month y m" using assms(1) by (simp add: valid_date_def)
  have y: "length (pad 4 y) = 4" "all_digits (pad 4 y)" "digits_val (pad 4 y) = nat y"
    by (rule pad_facts; use assms in simp)+
  have m: "length (pad 2 m) = 2" "all_digits (pad 2 m)" "digits_val (pad 2 m) = nat m"
    by (rule pad_facts; use v in simp)+
  have dd: "length (pad 2 d) = 2" "all_digits (pad 2 d)" "digits_val (pad 2 d) = nat d"
    by (rule pad_facts; use v in simp)+
  note layout = date_text_layout [OF y(1) m(1) dd(1)]
  have small: "Suc 0 \<le> nat m" "nat m \<le> 12" "0 < nat d" using v by linarith+
  show ?thesis
    unfolding parse_bare_date_days_def date_text_def prod.case layout digits_range_def
    using assms(2) v d small by (simp add: y m dd)
qed

lemma parse_date_text_inverse:
  assumes "parse_bare_date_days s = Some z"
  shows "\<exists>y m d. valid_date (y, m, d) \<and> 0 \<le> y \<and> y \<le> 9999 \<and> s = date_text (y, m, d) \<and> z = days_from_civil y m d"
proof -
  let ?a = "take 4 s" and ?b = "take 2 (drop 5 s)" and ?c = "take 2 (drop 8 s)"
  have len: "length s = 10" and at: "s ! 4 = CHR ''-''" "s ! 7 = CHR ''-''"
    using assms by (auto simp: parse_bare_date_days_def split: if_splits)
  have digs: "all_digits ?a" "all_digits ?b" "all_digits ?c"
    and v: "1 \<le> digits_val ?b" "digits_val ?b \<le> 12" "1 \<le> digits_val ?c"
      "int (digits_val ?c) \<le> days_in_month (int (digits_val ?a)) (int (digits_val ?b))"
    and z: "z = days_from_civil (int (digits_val ?a)) (int (digits_val ?b)) (int (digits_val ?c))"
    using assms unfolding parse_bare_date_days_def digits_range_def by (auto split: if_splits bind_splits)
  have lens: "length ?a = 4" "length ?b = 2" "length ?c = 2" using len by simp_all
  have valid: "valid_date (int (digits_val ?a), int (digits_val ?b), int (digits_val ?c))"
    using v by (simp add: valid_date_def)
  have small: "digits_val ?a < 10 ^ 4" "digits_val ?b < 10 ^ 2" "digits_val ?c < 10 ^ 2"
    using digits_val_bound digs lens by metis+
  have pads: "pad 4 (int (digits_val ?a)) = ?a" "pad 2 (int (digits_val ?b)) = ?b" "pad 2 (int (digits_val ?c)) = ?c"
    using pad_of_digits [OF lens(1) digs(1)] pad_of_digits [OF lens(2) digs(2)] pad_of_digits [OF lens(3) digs(3)] by simp_all
  have "s = ?a @ drop 4 s" by simp
  also have "drop 4 s = s ! 4 # drop 5 s" using Cons_nth_drop_Suc [of 4 s] len by simp
  also have "drop 5 s = ?b @ drop 7 s" using append_take_drop_id [of 2 "drop 5 s"] by simp
  also have "drop 7 s = s ! 7 # drop 8 s" using Cons_nth_drop_Suc [of 7 s] len by simp
  also have "drop 8 s = ?c" using len by simp
  finally have "s = ?a @ ''-'' @ ?b @ ''-'' @ ?c" by (simp add: at)
  then have "s = date_text (int (digits_val ?a), int (digits_val ?b), int (digits_val ?c))"
    by (simp only: date_text_def prod.case pads)
  with valid z small(1) show ?thesis by (intro exI conjI) simp_all
qed

lemma iso_prefix:
  assumes "\<bar>ms\<bar> \<le> MAX_DATE_MS" and "civil_from_days (ms div 86400000) = (y, m, d)" and "0 \<le> y" and "y \<le> 9999"
  shows "take 10 (js_to_iso_string ms) = date_text (y, m, d)"
proof -
  have "valid_date (y, m, d)" using civil_from_days_valid [of "ms div 86400000"] assms(2) by simp
  note v = month_day_bounds [OF this]
  have y: "length (pad 4 y) = 4" and m: "length (pad 2 m) = 2" and dd: "length (pad 2 d) = 2"
    by (rule pad_facts; use assms v in simp)+
  have clamp: "max (- MAX_DATE_MS) (min MAX_DATE_MS ms) = ms" using assms(1) by (simp add: abs_le_iff)
  show ?thesis
    using assms(3,4) y m dd by (simp add: js_to_iso_string_def clamp Let_def assms(2) year_str_def date_text_def)
qed

lemma trunc_ms_range: "\<bar>trunc_ms v\<bar> \<le> MAX_DATE_MS"
proof -
  have nonneg: "0 \<le> MAX_DATE_MS" by (simp add: MAX_DATE_MS_def)
  show ?thesis
  proof (cases v)
    case (Finite x)
    have "\<bar>\<lfloor>x\<rfloor>\<bar> \<le> MAX_DATE_MS" if "0 \<le> x" "x < of_int MAX_DATE_MS"
    proof -
      have "0 \<le> \<lfloor>x\<rfloor>" "\<lfloor>x\<rfloor> < MAX_DATE_MS" using that by (simp_all add: floor_less_iff)
      then show ?thesis by simp
    qed
    moreover have "\<bar>\<lceil>x\<rceil>\<bar> \<le> MAX_DATE_MS" if "x < 0" "- of_int MAX_DATE_MS < x"
    proof -
      have "\<lceil>x\<rceil> \<le> 0" "- MAX_DATE_MS \<le> \<lceil>x\<rceil>" using that by (simp_all add: ceiling_le_iff le_ceiling_iff)
      then show ?thesis by simp
    qed
    ultimately show ?thesis using nonneg by (simp add: trunc_ms_def Finite)
  qed (use nonneg in \<open>simp_all add: trunc_ms_def\<close>)
qed

lemma year_days_range: "- 1 \<le> y \<Longrightarrow> y \<le> 9999 \<Longrightarrow> - 400 \<le> year_days y \<and> year_days y \<le> 4000000"
  unfolding year_days_def by (rule conjI; linarith)

lemma month_days_range: "0 \<le> mp \<Longrightarrow> mp \<le> 11 \<Longrightarrow> 0 \<le> month_days mp \<and> month_days mp \<le> 400"
  unfolding month_days_def by (rule conjI; linarith)

lemma day_range:
  assumes "valid_date (y, m, d)" and "0 \<le> y" and "y \<le> 9999"
  shows "\<bar>days_from_civil y m d * 86400000\<bar> \<le> MAX_DATE_MS"
proof -
  note v = month_day_bounds [OF assms(1)]
  have "- 400 \<le> year_days (if m \<le> 2 then y - 1 else y)" "year_days (if m \<le> 2 then y - 1 else y) \<le> 4000000"
    using year_days_range [of "if m \<le> 2 then y - 1 else y"] assms(2,3) by simp_all
  moreover have "0 \<le> month_days (if m > 2 then m - 3 else m + 9)" "month_days (if m > 2 then m - 3 else m + 9) \<le> 400"
    using month_days_range [of "if m > 2 then m - 3 else m + 9"] v by simp_all
  ultimately have "- 800000 \<le> days_from_civil y m d" "days_from_civil y m d \<le> 5000000"
    using v unfolding days_from_civil_eq [OF v(1)] by linarith+
  then show ?thesis by (simp add: MAX_DATE_MS_def abs_le_iff)
qed

text \<open>A day survives printing and parsing in both directions: for a time in the years 0 to 9999 the day printed parses
  back to the day of its milliseconds, truncated toward zero, and every text the parser accepts is what the
  printer prints for the day it stands for.\<close>

theorem date_text_round_trip:
  "(let day = trunc_ms (Finite (rnd (x * 1000))) div 86400000 in
      fst (civil_from_days day) \<in> {0..9999} \<longrightarrow> parse_bare_date_days (iso_date_utc rnd (Finite x)) = Some day)
    \<and> (parse_bare_date_days s = Some z \<longrightarrow> take 10 (js_to_iso_string (z * 86400000)) = s)"
proof (intro conjI impI, unfold Let_def, rule impI)
  let ?ms = "trunc_ms (Finite (rnd (x * 1000)))"
  assume year: "fst (civil_from_days (?ms div 86400000)) \<in> {0..9999}"
  obtain y m d where date: "civil_from_days (?ms div 86400000) = (y, m, d)" by (cases "civil_from_days (?ms div 86400000)")
  have "valid_date (y, m, d) \<and> days_from_civil y m d = ?ms div 86400000"
    using civil_from_days_valid [of "?ms div 86400000"] date by simp
  then show "parse_bare_date_days (iso_date_utc rnd (Finite x)) = Some (?ms div 86400000)"
    using iso_prefix [OF trunc_ms_range date] parse_date_text [of y m d] year date by (simp add: iso_date_utc_def)
next
  assume "parse_bare_date_days s = Some z"
  then obtain y m d where s: "valid_date (y, m, d)" "0 \<le> y" "y \<le> 9999" "s = date_text (y, m, d)" "z = days_from_civil y m d"
    using parse_date_text_inverse by blast
  then show "take 10 (js_to_iso_string (z * 86400000)) = s"
    using iso_prefix [OF day_range [OF s(1-3)], of y m d] civil_from_days_from_civil [OF s(1)] by simp
qed

theorem date_text_round_trip_witness:
  "parse_bare_date_days (iso_date_utc id (Finite 86400)) = Some 1 \<and> take 10 (js_to_iso_string (365 * 86400000)) = ''1971-01-01''"
proof -
  have epoch: "valid_date (1970, 1, 2)" "valid_date (1971, 1, 1)" by (simp_all add: valid_date_def days_in_month_def)
  have days: "days_from_civil 1970 1 2 = 1" "days_from_civil 1971 1 1 = 365"
    by (simp_all add: days_from_civil_eq year_days_def month_days_def)
  have "civil_from_days 1 = (1970, 1, 2)" using civil_from_days_from_civil [OF epoch(1)] days(1) by simp
  moreover have "trunc_ms (Finite (id (86400 * 1000))) div 86400000 = 1" by (simp add: trunc_ms_def MAX_DATE_MS_def)
  moreover have "parse_bare_date_days ''1971-01-01'' = Some 365"
    using epoch(2) days(2)
    by (simp add: parse_bare_date_days_def digits_range_def is_ascii_digit_def byte_def digits_val_def valid_date_def)
  ultimately show ?thesis using date_text_round_trip [of id 86400 "''1971-01-01''" 365] by simp
qed

text \<open>C36: The day numbers are the calendar: day 0 is 1970-01-01, the number of the day after a date is one
  more, leap years and the ends of months and years included; every integer is the number of exactly
  one date, and \<open>civil_from_days\<close> finds it.\<close>

theorem day_numbers_are_calendar:
  "days_from_civil 1970 1 1 = 0
    \<and> (\<forall>y m d. valid_date (y, m, d) \<longrightarrow>
        valid_date (next_day (y, m, d)) \<and> day_number (next_day (y, m, d)) = days_from_civil y m d + 1
        \<and> civil_from_days (days_from_civil y m d) = (y, m, d))
    \<and> (\<forall>z. valid_date (civil_from_days z) \<and> day_number (civil_from_days z) = z)"
proof -
  have "days_from_civil 1970 1 1 = 0" by (simp add: days_from_civil_eq year_days_def month_days_def)
  moreover have "valid_date (next_day (y, m, d)) \<and> day_number (next_day (y, m, d)) = days_from_civil y m d + 1"
    if "valid_date (y, m, d)" for y m d
    using next_day_number [OF that] by simp
  ultimately show ?thesis using civil_from_days_from_civil civil_from_days_valid by blast
qed

theorem day_numbers_are_calendar_witness:
  "day_number (next_day (2024, 2, 28)) = days_from_civil 2024 2 28 + 1 \<and> civil_from_days (days_from_civil 2024 2 28) = (2024, 2, 28)"
proof -
  have "valid_date (2024, 2, 28)" by (simp add: valid_date_def days_in_month_def)
  then show ?thesis using day_numbers_are_calendar by blast
qed

end
