(* ===== verification/Paths.thy ===== *)
theory Paths
  imports Str_Ops
begin

text \<open>
  Storage paths and the expansion of \<open>~\<close> (\<open>crates/stackhour-core/src/paths.rs\<close>). A path is its text;
  \<open>path_join\<close> and \<open>path_parent\<close> are \<open>Path::join\<close> and \<open>Path::parent\<close> of the standard library.
\<close>

record storage_paths =
  sp_config_path :: string
  sp_config_dir :: string
  sp_data_dir :: string
  sp_db_path :: string

definition env_nonempty :: "(string \<Rightarrow> string option) \<Rightarrow> string \<Rightarrow> string option" where
  "env_nonempty env key = (case env key of Some v \<Rightarrow> if v = [] then None else Some v | None \<Rightarrow> None)"

definition path_join :: "string \<Rightarrow> string \<Rightarrow> string" where
  "path_join a b =
     (if starts_with ''/'' b then b else if a = [] \<or> last a = CHR ''/'' then a @ b else a @ ''/'' @ b)"

definition junk :: "string \<Rightarrow> bool" where
  "junk seg \<longleftrightarrow> seg = [] \<or> seg = ''.''"

definition trim_back :: "string list \<Rightarrow> string list" where
  "trim_back segs = rev (dropWhile junk (rev segs))"

text \<open>A relative path keeps a leading \<open>.\<close> as a component; in an absolute one it is dropped.\<close>

definition trim_relative :: "string list \<Rightarrow> string list" where
  "trim_relative segs = (if trim_back segs = [] \<and> segs \<noteq> [] \<and> hd segs = ''.'' then [''.''] else trim_back segs)"

definition path_parent :: "string \<Rightarrow> string option" where
  "path_parent p =
     (if starts_with ''/'' p then
        (let segs = trim_back (tl (split_char CHR ''/'' p)) in
         if segs = [] then None else Some (''/'' @ str_join ''/'' (trim_back (butlast segs))))
      else
        (let segs = trim_relative (split_char CHR ''/'' p) in
         if segs = [] then None else Some (str_join ''/'' (trim_relative (butlast segs)))))"

definition dirname :: "string \<Rightarrow> string" where
  "dirname p =
     (case path_parent p of
        None \<Rightarrow> if p = [] then ''.'' else p
      | Some parent \<Rightarrow> if parent = [] then ''.'' else parent)"

definition resolve_storage_paths :: "(string \<Rightarrow> string option) \<Rightarrow> string \<Rightarrow> storage_paths" where
  "resolve_storage_paths env home =
     (let config_path =
            (case env_nonempty env ''STACKHOUR_CONFIG'' of
               Some p \<Rightarrow> p
             | None \<Rightarrow> path_join (path_join (path_join home ''.config'') ''stackhour'') ''config.json'');
          config_dir = (case env_nonempty env ''STACKHOUR_CONFIG_DIR'' of Some d \<Rightarrow> d | None \<Rightarrow> dirname config_path);
          data_dir =
            (case env_nonempty env ''STACKHOUR_DATA'' of
               Some d \<Rightarrow> d
             | None \<Rightarrow> path_join (path_join (path_join home ''.local'') ''share'') ''stackhour'')
      in \<lparr>sp_config_path = config_path, sp_config_dir = config_dir, sp_data_dir = data_dir,
          sp_db_path = path_join data_dir ''stackhour.db''\<rparr>)"

text \<open>One segment of \<open>posix_normalize\<close>; the stack is a list with its top at the end.\<close>

definition posix_step :: "bool \<Rightarrow> string list \<Rightarrow> string \<Rightarrow> string list" where
  "posix_step absolute stack seg =
     (if seg = [] \<or> seg = ''.'' then stack
      else if seg = ''..'' then
        (if stack \<noteq> [] \<and> last stack \<noteq> ''..'' then butlast stack
         else if \<not> absolute then stack @ [''..''] else stack)
      else stack @ [seg])"

definition posix_normalize :: "string \<Rightarrow> string" where
  "posix_normalize p =
     (if p = [] then ''.''
      else
        (let absolute = starts_with ''/'' p;
             trailing_slash = (last p = CHR ''/'');
             stack = foldl (posix_step absolute) [] (split_char CHR ''/'' p);
             out = (if absolute then ''/'' else []) @ str_join ''/'' stack
         in if out = [] then ''.''
            else if trailing_slash \<and> last out \<noteq> CHR ''/'' then out @ ''/'' else out))"

definition posix_join :: "string \<Rightarrow> string \<Rightarrow> string" where
  "posix_join a b =
     (if a = [] \<and> b = [] then ''.''
      else posix_normalize (if a = [] then b else if b = [] then a else a @ ''/'' @ b))"

definition expand_home :: "string \<Rightarrow> string \<Rightarrow> string" where
  "expand_home p home = (if p = [] \<or> hd p \<noteq> CHR ''~'' then p else posix_join home (tl p))"

end
