(* ===== verification/Module_Gates.thy ===== *)
theory Module_Gates
  imports Agent_Queue Jsnum
begin

text \<open>
  The gates of the optional products (\<open>crates/stackhour-core/src/modules.rs\<close>): which modules a
  configuration leaves enabled, which module a command needs, and what is said when it is refused.
\<close>

datatype module = Tracker | Agent | Control

record module_set =
  ms_tracker :: bool
  ms_agent :: bool
  ms_control :: bool

definition ALL_MODULES :: "module list" where
  "ALL_MODULES = [Tracker, Agent, Control]"

definition ALL_ENABLED :: module_set where
  "ALL_ENABLED = \<lparr>ms_tracker = True, ms_agent = True, ms_control = True\<rparr>"

fun name_of_module :: "module \<Rightarrow> string" where
  "name_of_module Tracker = ''tracker''"
| "name_of_module Agent = ''agent''"
| "name_of_module Control = ''control''"

fun config_key :: "module \<Rightarrow> string" where
  "config_key Tracker = ''modules.tracker''"
| "config_key Agent = ''modules.agent''"
| "config_key Control = ''modules.control''"

fun set_contains :: "module_set \<Rightarrow> module \<Rightarrow> bool" where
  "set_contains s Tracker = ms_tracker s"
| "set_contains s Agent = ms_agent s"
| "set_contains s Control = ms_control s"

definition disabled :: "module_set \<Rightarrow> module list" where
  "disabled s = filter (\<lambda>m. \<not> set_contains s m) ALL_MODULES"

definition from_raw :: "(real \<Rightarrow> real) \<Rightarrow> json \<Rightarrow> module_set" where
  "from_raw rnd raw =
     (case Option.bind (json_get raw ''modules'') as_object of
        None \<Rightarrow> ALL_ENABLED
      | Some block \<Rightarrow>
          (let enabled = (\<lambda>m. case map_of block (name_of_module m) of
                                 None \<Rightarrow> True | Some JNull \<Rightarrow> True | Some v \<Rightarrow> js_truthy rnd v)
           in \<lparr>ms_tracker = enabled Tracker, ms_agent = enabled Agent, ms_control = enabled Control\<rparr>))"

definition from_config_file :: "(real \<Rightarrow> real) \<Rightarrow> json_text \<Rightarrow> files \<Rightarrow> string \<Rightarrow> module_set" where
  "from_config_file rnd jt fs path =
     (case read_to_string fs path of
        None \<Rightarrow> ALL_ENABLED
      | Some text \<Rightarrow> (case jt_parse jt text of None \<Rightarrow> ALL_ENABLED | Some user \<Rightarrow> from_raw rnd user))"

definition module_for :: "string \<Rightarrow> string option \<Rightarrow> module option" where
  "module_for verb sub =
     (if verb \<in> {''serve'', ''status'', ''token'', ''data'', ''backup'', ''migrate'', ''import-wakatime''} then Some Tracker
      else if verb = ''agent'' then Some Agent
      else if verb = ''control'' then Some Control
      else if verb \<in> {''init'', ''install''} then
        (if sub = Some ''server'' then Some Tracker else if sub = Some ''agent'' then Some Agent else None)
      else None)"

definition service_roles_for :: "string \<Rightarrow> (string \<times> module) list" where
  "service_roles_for role =
     (if role = ''server'' then [(''server'', Tracker), (''agent'', Agent)]
      else if role = ''agent'' then [(''agent'', Agent)] else [])"

definition invocation_label :: "string \<Rightarrow> string option \<Rightarrow> string" where
  "invocation_label verb sub =
     (case sub of
        Some role \<Rightarrow>
          if verb \<in> {''init'', ''install''} \<and> role \<in> {''server'', ''agent''} \<or> verb = ''migrate'' \<and> role = ''tempo''
          then verb @ '' '' @ role else verb
      | None \<Rightarrow> verb)"

datatype module_gate = Allowed | NotCompiled module | Disabled module

definition gate_for :: "module_set \<Rightarrow> module_set \<Rightarrow> module \<Rightarrow> module_gate" where
  "gate_for compiled runtime m =
     (if \<not> set_contains compiled m then NotCompiled m else if \<not> set_contains runtime m then Disabled m else Allowed)"

definition gate_of :: "string \<Rightarrow> string option \<Rightarrow> module_set \<Rightarrow> module_set \<Rightarrow> module_gate" where
  "gate_of verb sub compiled runtime =
     (case module_for verb sub of None \<Rightarrow> Allowed | Some m \<Rightarrow> gate_for compiled runtime m)"

fun gate_message :: "module_gate \<Rightarrow> string \<Rightarrow> string \<Rightarrow> string option" where
  "gate_message Allowed invocation config_path = None"
| "gate_message (Disabled m) invocation config_path =
     Some (''stackhour: '' @ invocation @ '' needs the '' @ name_of_module m @ '' module, which is disabled by \"''
        @ config_key m @ ''\": false in '' @ config_path)"
| "gate_message (NotCompiled m) invocation config_path =
     Some (''stackhour: '' @ invocation @ '' needs the '' @ name_of_module m
        @ '' module, which was not compiled into this binary (rebuild with --features '' @ name_of_module m @ '')'')"

fun skip_line :: "module_gate \<Rightarrow> string \<Rightarrow> string \<Rightarrow> string option" where
  "skip_line Allowed u config_path = None"
| "skip_line (Disabled m) u config_path =
     Some (''Skipped '' @ u @ '': the '' @ name_of_module m @ '' module is disabled by \"'' @ config_key m
        @ ''\": false in '' @ config_path)"
| "skip_line (NotCompiled m) u config_path =
     Some (''Skipped '' @ u @ '': the '' @ name_of_module m @ '' module was not compiled into this binary (rebuild with --features ''
        @ name_of_module m @ '')'')"

record gate_context =
  gc_compiled :: module_set
  gc_runtime :: module_set
  gc_config_path :: string

definition context_from_config_file ::
  "(real \<Rightarrow> real) \<Rightarrow> json_text \<Rightarrow> files \<Rightarrow> module_set \<Rightarrow> string \<Rightarrow> gate_context" where
  "context_from_config_file rnd jt fs compiled path =
     \<lparr>gc_compiled = compiled, gc_runtime = from_config_file rnd jt fs path, gc_config_path = path\<rparr>"

definition refusal :: "gate_context \<Rightarrow> string \<Rightarrow> string option \<Rightarrow> string option" where
  "refusal ctx verb sub =
     gate_message (gate_of verb sub (gc_compiled ctx) (gc_runtime ctx)) (invocation_label verb sub) (gc_config_path ctx)"

definition allows :: "gate_context \<Rightarrow> module \<Rightarrow> bool" where
  "allows ctx m \<longleftrightarrow> set_contains (gc_compiled ctx) m \<and> set_contains (gc_runtime ctx) m"

definition skip_line_for :: "gate_context \<Rightarrow> module \<Rightarrow> string \<Rightarrow> string option" where
  "skip_line_for ctx m u = skip_line (gate_for (gc_compiled ctx) (gc_runtime ctx) m) u (gc_config_path ctx)"

text \<open>A command is refused exactly when the module it needs was not compiled in, or when the
  configuration file can be read, parses, and sets that module to a falsy value other than \<open>null\<close>; in every
  other case, whatever is wrong with the file, it runs.\<close>

theorem refusal_needs_explicit_setting:
  "refusal (context_from_config_file rnd jt fs compiled path) verb sub \<noteq> None \<longleftrightarrow>
     (\<exists>m. module_for verb sub = Some m
        \<and> (\<not> set_contains compiled m
           \<or> (\<exists>text user block v. read_to_string fs path = Some text \<and> jt_parse jt text = Some user
                \<and> json_get user ''modules'' = Some (JObject block) \<and> map_of block (name_of_module m) = Some v
                \<and> v \<noteq> JNull \<and> \<not> js_truthy rnd v)))"
proof -
  have as_object: "as_object v = Some block \<longleftrightarrow> v = JObject block" for v block by (cases v) auto
  have setting: "\<not> set_contains (from_raw rnd user) m \<longleftrightarrow>
      (\<exists>block v. json_get user ''modules'' = Some (JObject block) \<and> map_of block (name_of_module m) = Some v
          \<and> v \<noteq> JNull \<and> \<not> js_truthy rnd v)" for user m
    by (cases m; cases "Option.bind (json_get user ''modules'') as_object")
      (auto simp: from_raw_def ALL_ENABLED_def as_object Option.bind_eq_Some_conv Option.bind_eq_None_conv
        split: option.splits json.splits)
  have missing: "set_contains ALL_ENABLED m" for m by (cases m) (simp_all add: ALL_ENABLED_def)
  have conf: "\<not> set_contains (from_config_file rnd jt fs path) m \<longleftrightarrow>
      (\<exists>text user. read_to_string fs path = Some text \<and> jt_parse jt text = Some user \<and> \<not> set_contains (from_raw rnd user) m)" for m
    by (auto simp: from_config_file_def missing split: option.splits)
  have message: "gate_message g l p \<noteq> None \<longleftrightarrow> g \<noteq> Allowed" for g l p by (cases g) simp_all
  have "refusal (context_from_config_file rnd jt fs compiled path) verb sub \<noteq> None \<longleftrightarrow>
      (\<exists>m. module_for verb sub = Some m \<and> (\<not> set_contains compiled m \<or> \<not> set_contains (from_config_file rnd jt fs path) m))"
    unfolding refusal_def message context_from_config_file_def
    by (auto simp: gate_of_def gate_for_def split: option.splits)
  then show ?thesis unfolding conf setting by blast
qed


theorem refusal_needs_explicit_setting_witness:
  "refusal (context_from_config_file id
      \<lparr>jt_str = (\<lambda>_. []), jt_parse = (\<lambda>_. Some (JObject [(''modules'', JObject [(''tracker'', JBool False)])]))\<rparr>
      [''c'' \<mapsto> \<lparr>fl_bytes = ''{}'', fl_mode = 0\<rparr>] ALL_ENABLED ''c'') ''serve'' None \<noteq> None"
  unfolding refusal_needs_explicit_setting
  by (simp add: module_for_def read_to_string_def utf8_chunk_def lead_ranges_def byte_def)

end
