(* ===== verification/Config.thy ===== *)
theory Config
  imports Agent_Tick Project Read_Api Pricing Paths Module_Gates
begin

text \<open>
  The configuration (\<open>crates/stackhour-core/src/config.rs\<close>): the defaults, the deep merge of the
  file over them, and the typed views that the rest of the program reads. The Rust parser of
  doubles is \<open>ft_parse\<close> on the decimal grammar; a view holds an \<open>f64_value\<close>, since a setting
  can be \<open>NaN\<close>.
\<close>

subsection \<open>Merging\<close>

fun spread_into_map :: "json \<Rightarrow> (string \<times> json) list" where
  "spread_into_map (JObject m) = m"
| "spread_into_map (JArray a) = zip (map nat_str [0..<length a]) a"
| "spread_into_map (JString s) = zip (map nat_str [0..<length (char_parts s)]) (map JString (char_parts s))"
| "spread_into_map _ = []"

lemma member_smaller: "(k, v) \<in> set m \<Longrightarrow> size v < size (JObject m)"
  by (induction m) auto

lemma item_smaller: "v \<in> set a \<Longrightarrow> size v < size (JArray a)"
  by (induction a) auto

lemma spread_smaller: "(k, v) \<in> set (spread_into_map user) \<Longrightarrow> is_object v \<Longrightarrow> size v < size user"
  by (cases user) (auto simp: is_object_def simp del: json.size dest!: set_zip_rightD intro: member_smaller item_smaller)

function deep_merge :: "json \<Rightarrow> json \<Rightarrow> json" where
  "deep_merge base user =
     JObject (foldl (\<lambda>out kv.
       json_insert (fst kv)
         (if is_object (snd kv) then
            (case map_of out (fst kv) of
               Some (JObject m) \<Rightarrow> deep_merge (JObject m) (snd kv)
             | Some (JArray a) \<Rightarrow> deep_merge (JArray a) (snd kv)
             | _ \<Rightarrow> snd kv)
          else snd kv) out) (spread_into_map base) (spread_into_map user))"
  by pat_completeness auto

termination
  by (relation "measure (\<lambda>(base, user). size user)") (auto simp: spread_smaller)

declare deep_merge.simps [simp del]


subsection \<open>Defaults\<close>

definition app_entry :: "string \<Rightarrow> string \<Rightarrow> json" where
  "app_entry source category = JObject [(''source'', JString source), (''category'', JString category)]"

definition default_ignore_dirs :: "string list" where
  "default_ignore_dirs =
     [''node_modules'', ''.git'', ''dist'', ''build'', ''out'', ''target'', ''.next'', ''.venv'', ''venv'', ''vendor'',
      ''Library'', ''.cache'', ''Pods'', ''DerivedData'', ''Temp'', ''Logs'', ''obj'']"

definition defaults_with :: "string \<Rightarrow> string \<Rightarrow> json" where
  "defaults_with db_path machine =
     JObject
       [(''server'', JObject
          [(''port'', json_of_i64 4040), (''host'', JString ''0.0.0.0''), (''db'', JString db_path), (''token'', JString []),
           (''tokens'', JObject [])]),
        (''agent'', JObject
          [(''serverUrl'', JString ''http://127.0.0.1:4040''), (''token'', JString []), (''machine'', JString machine),
           (''intervalSeconds'', json_of_i64 20), (''projectRoots'', JArray []), (''projectAliases'', JObject []),
           (''watch'', JObject (map (\<lambda>k. (k, JBool True)) [''files'', ''claude'', ''codex'', ''macApps'', ''ssh'', ''zed''])),
           (''apps'', JObject
             [(''Claude'', app_entry ''claude-desktop'' ''ai coding''), (''Codex'', app_entry ''codex-desktop'' ''ai coding''),
              (''ChatGPT'', app_entry ''codex-desktop'' ''ai coding''), (''WebStorm'', app_entry ''webstorm'' ''coding''),
              (''Zed'', app_entry ''zed'' ''coding'')]),
           (''idleSeconds'', json_of_i64 120), (''ignoreDirs'', JArray (map JString default_ignore_dirs)),
           (''maxScanDepth'', json_of_i64 8)]),
        (''summary'', JObject
          [(''capSeconds'', json_of_i64 120), (''lastEventCreditSeconds'', json_of_i64 60),
           (''reattributeWindowSeconds'', json_of_i64 120), (''joinGapSeconds'', json_of_i64 300)]),
        (''wakatime'', JObject [(''apiKey'', JString [])])]"

subsection \<open>Typed views\<close>

record server_view =
  vw_port :: int
  vw_host :: string
  vw_db :: string
  vw_token :: string
  vw_public_url :: "string option"

record watch_view =
  vw_files :: bool
  vw_claude :: bool
  vw_codex :: bool
  vw_mac_apps :: bool
  vw_ssh :: bool
  vw_zed :: bool

record app_view =
  vw_source :: string
  vw_category :: string
  vw_project_from_title :: "string option"

record agent_settings =
  vw_server_url :: string
  vw_agent_token :: string
  vw_machine :: string
  vw_interval_seconds :: f64_value
  vw_project_roots :: "string list"
  vw_project_aliases :: "(string \<times> string) list"
  vw_watch :: watch_view
  vw_apps :: "(string \<times> app_view) list"
  vw_idle_seconds :: f64_value
  vw_ignore_dirs :: "string list"
  vw_max_scan_depth :: f64_value

record summary_view =
  vw_cap_seconds :: f64_value
  vw_last_event_credit_seconds :: f64_value
  vw_reattribute_window_seconds :: f64_value
  vw_join_gap_seconds :: f64_value

text \<open>\<open>str::parse::<f64>\<close> and \<open>u64::from_str_radix(_, 16)\<close>.\<close>

definition rust_parse_f64 :: "server_env \<Rightarrow> string \<Rightarrow> f64_value option" where
  "rust_parse_f64 env t =
     (if is_valid_js_decimal t then Some (ft_parse (sv_ft env) t)
      else
        (let word = map ascii_lower (skip_sign t) in
         if word = ''inf'' \<or> word = ''infinity'' then Some (Infinite (hd t = CHR ''-''))
         else if word = ''nan'' then Some NotANumber else None))"

definition from_hex_u64 :: "string \<Rightarrow> nat option" where
  "from_hex_u64 s =
     (let ds = (if s \<noteq> [] \<and> hd s = CHR ''+'' then tl s else s);
          vs = map (to_digit 16) ds;
          n = foldl (\<lambda>n d. 16 * n + the d) 0 vs
      in if ds \<noteq> [] \<and> list_all (\<lambda>d. d \<noteq> None) vs \<and> n < 2 ^ 64 then Some n else None)"

fun js_number_of :: "server_env \<Rightarrow> json \<Rightarrow> f64_value" where
  "js_number_of env JNull = Finite 0"
| "js_number_of env (JBool b) = Finite (if b then 1 else 0)"
| "js_number_of env (JNum n) = num_f64 (ft_round (sv_ft env)) n"
| "js_number_of env (JString s) =
     (let t = str_trim s; hex = (if take 2 t = ''0x'' \<or> take 2 t = ''0X'' then Some (drop 2 t) else None) in
      if t = [] then Finite 0
      else
        (case hex of
           Some h \<Rightarrow> (case from_hex_u64 h of Some n \<Rightarrow> Finite (ft_round (sv_ft env) (real n)) | None \<Rightarrow> NotANumber)
         | None \<Rightarrow>
             if t = ''Infinity'' \<or> t = ''+Infinity'' then Infinite False
             else if t = ''-Infinity'' then Infinite True
             else if map ascii_lower t \<in> {''inf'', ''infinity'', ''nan''} then NotANumber
             else (case rust_parse_f64 env t of Some x \<Rightarrow> x | None \<Rightarrow> NotANumber)))"
| "js_number_of env _ = NotANumber"

definition field :: "json option \<Rightarrow> string \<Rightarrow> json option" where
  "field obj key = Option.bind obj (\<lambda>v. json_get v key)"

definition num_field :: "server_env \<Rightarrow> json option \<Rightarrow> string \<Rightarrow> real \<Rightarrow> f64_value" where
  "num_field env obj key d = (case field obj key of None \<Rightarrow> Finite d | Some v \<Rightarrow> js_number_of env v)"

definition watch_flag :: "server_env \<Rightarrow> json option \<Rightarrow> string \<Rightarrow> bool" where
  "watch_flag env watch key = is_truthy (sv_ft env) (field watch key)"

definition build_server :: "server_env \<Rightarrow> json \<Rightarrow> server_view" where
  "build_server env raw =
     (let s = json_get raw ''server'' in
      \<lparr>vw_port = (case num_field env s ''port'' 4040 of
                   Finite x \<Rightarrow> if 1 \<le> x \<and> x \<le> 65535 then \<lfloor>x\<rfloor> else 4040
                 | _ \<Rightarrow> 4040),
       vw_host = string_field env s ''host'' ''0.0.0.0'',
       vw_db = string_field env s ''db'' [],
       vw_token = string_field env s ''token'' [],
       vw_public_url = (case field s ''publicUrl'' of
                          None \<Rightarrow> None | Some JNull \<Rightarrow> None | Some (JString u) \<Rightarrow> Some u
                        | Some other \<Rightarrow> Some (config_display env other))\<rparr>)"

definition strings_of :: "json option \<Rightarrow> string list" where
  "strings_of v = (case v of Some (JArray items) \<Rightarrow> List.map_filter as_str items | _ \<Rightarrow> [])"

definition truthy_display :: "server_env \<Rightarrow> json option \<Rightarrow> string option" where
  "truthy_display env v =
     (case v of Some w \<Rightarrow> if is_truthy (sv_ft env) (Some w) then Some (config_display env w) else None | None \<Rightarrow> None)"

definition app_of :: "server_env \<Rightarrow> string \<times> json \<Rightarrow> (string \<times> app_view) option" where
  "app_of env kv =
     (case as_object (snd kv) of
        None \<Rightarrow> None
      | Some entry \<Rightarrow>
          Some (fst kv,
            \<lparr>vw_source = string_field env (Some (snd kv)) ''source'' [],
             vw_category = (case truthy_display env (map_of entry ''category'') of Some c \<Rightarrow> c | None \<Rightarrow> ''coding''),
             vw_project_from_title = truthy_display env (map_of entry ''projectFromTitle'')\<rparr>))"

definition build_agent :: "server_env \<Rightarrow> json \<Rightarrow> agent_settings" where
  "build_agent env raw =
     (let a = json_get raw ''agent''; watch = field a ''watch'' in
      \<lparr>vw_server_url = string_field env a ''serverUrl'' ''http://127.0.0.1:4040'',
       vw_agent_token = string_field env a ''token'' [],
       vw_machine = string_field env a ''machine'' [],
       vw_interval_seconds = num_field env a ''intervalSeconds'' 20,
       vw_project_roots = strings_of (field a ''projectRoots''),
       vw_project_aliases = (case field a ''projectAliases'' of
                               Some (JObject m) \<Rightarrow> map (\<lambda>(k, v). (k, config_display env v)) m | _ \<Rightarrow> []),
       vw_watch = \<lparr>vw_files = watch_flag env watch ''files'', vw_claude = watch_flag env watch ''claude'',
                   vw_codex = watch_flag env watch ''codex'', vw_mac_apps = watch_flag env watch ''macApps'',
                   vw_ssh = watch_flag env watch ''ssh'', vw_zed = watch_flag env watch ''zed''\<rparr>,
       vw_apps = (case field a ''apps'' of Some (JObject m) \<Rightarrow> List.map_filter (app_of env) m | _ \<Rightarrow> []),
       vw_idle_seconds = num_field env a ''idleSeconds'' 120,
       vw_ignore_dirs = strings_of (field a ''ignoreDirs''),
       vw_max_scan_depth = num_field env a ''maxScanDepth'' 8\<rparr>)"

definition build_summary :: "server_env \<Rightarrow> json \<Rightarrow> summary_view" where
  "build_summary env raw =
     (let s = json_get raw ''summary'' in
      \<lparr>vw_cap_seconds = num_field env s ''capSeconds'' 120,
       vw_last_event_credit_seconds = num_field env s ''lastEventCreditSeconds'' 60,
       vw_reattribute_window_seconds = num_field env s ''reattributeWindowSeconds'' 120,
       vw_join_gap_seconds = num_field env s ''joinGapSeconds'' 300\<rparr>)"


text \<open>The derived \<open>Deserialize\<close> of \<open>Price\<close>: an object with its fields, or a sequence of two to four numbers.\<close>

definition f64_of_json :: "server_env \<Rightarrow> json \<Rightarrow> real option" where
  "f64_of_json env v =
     (case v of JNum n \<Rightarrow> (case num_f64 (ft_round (sv_ft env)) n of Finite x \<Rightarrow> Some x | _ \<Rightarrow> None) | _ \<Rightarrow> None)"

definition or_zero :: "server_env \<Rightarrow> json option \<Rightarrow> real option" where
  "or_zero env v = (case v of None \<Rightarrow> Some 0 | Some w \<Rightarrow> f64_of_json env w)"

definition price_of_fields ::
  "server_env \<Rightarrow> json option \<Rightarrow> json option \<Rightarrow> json option \<Rightarrow> json option \<Rightarrow> price option" where
  "price_of_fields env a b c d =
     Option.bind (Option.bind a (f64_of_json env)) (\<lambda>pin.
     Option.bind (Option.bind b (f64_of_json env)) (\<lambda>pout.
     Option.bind (or_zero env c) (\<lambda>cr.
     Option.bind (or_zero env d) (\<lambda>cw.
       Some \<lparr>pr_in = pin, pr_out = pout, pr_cache_read = cr, pr_cache_write = cw\<rparr>))))"

definition nth_opt :: "'a list \<Rightarrow> nat \<Rightarrow> 'a option" where
  "nth_opt xs i = (if i < length xs then Some (xs ! i) else None)"

definition price_of_json :: "server_env \<Rightarrow> json \<Rightarrow> price option" where
  "price_of_json env v =
     (case v of
        JObject m \<Rightarrow> price_of_fields env (map_of m ''in'') (map_of m ''out'') (map_of m ''cacheRead'') (map_of m ''cacheWrite'')
      | JArray xs \<Rightarrow>
          if length xs > 4 then None
          else price_of_fields env (nth_opt xs 0) (nth_opt xs 1) (nth_opt xs 2) (nth_opt xs 3)
      | _ \<Rightarrow> None)"

definition build_pricing :: "server_env \<Rightarrow> json \<Rightarrow> pricing_table option" where
  "build_pricing env raw =
     (case json_get raw ''pricing'' of
        None \<Rightarrow> None
      | Some v \<Rightarrow>
          if \<not> is_truthy (sv_ft env) (Some v) then None
          else
            (case v of
               JObject m \<Rightarrow> Some (List.map_filter (\<lambda>(k, entry). map_option (Pair k) (price_of_json env entry)) m)
             | _ \<Rightarrow> Some []))"

subsection \<open>Loading\<close>

record config =
  cf_raw :: json
  cf_server :: server_view
  cf_agent :: agent_settings
  cf_summary :: summary_view
  cf_pricing :: "pricing_table option"
  cf_modules :: module_set
  cf_wakatime_api_key :: string
  cf_paths :: storage_paths

text \<open>\<open>get_mut\<close>: a change of one member of an object.\<close>

definition update_member :: "string \<Rightarrow> (json \<Rightarrow> json) \<Rightarrow> json \<Rightarrow> json" where
  "update_member key f v = (case v of JObject m \<Rightarrow> JObject (map (\<lambda>(k, w). (k, if k = key then f w else w)) m) | _ \<Rightarrow> v)"

definition expand_string :: "string \<Rightarrow> json \<Rightarrow> json" where
  "expand_string home v = (case v of JString s \<Rightarrow> JString (expand_home s home) | _ \<Rightarrow> v)"

definition normalize_roots :: "server_env \<Rightarrow> string \<Rightarrow> (string \<times> json) list \<Rightarrow> (string \<times> json) list" where
  "normalize_roots env home agent =
     (case map_of agent ''projectRoots'' of
        Some (JArray items) \<Rightarrow> json_insert ''projectRoots'' (JArray (map (expand_string home) items)) agent
      | v \<Rightarrow> if is_truthy (sv_ft env) v then agent else json_insert ''projectRoots'' (JArray []) agent)"

definition normalize_app :: "json \<Rightarrow> json" where
  "normalize_app v = (case v of JString s \<Rightarrow> app_entry s ''coding'' | _ \<Rightarrow> v)"

definition normalize_agent :: "server_env \<Rightarrow> string \<Rightarrow> json \<Rightarrow> json" where
  "normalize_agent env home agent =
     (case agent of
        JObject m \<Rightarrow>
          update_member ''apps'' (\<lambda>apps. case apps of JObject a \<Rightarrow> JObject (map (\<lambda>(k, v). (k, normalize_app v)) a) | _ \<Rightarrow> apps)
            (JObject (normalize_roots env home m))
      | _ \<Rightarrow> agent)"

text \<open>The two ways loading fails: an I/O error of the file, and a syntax error in it.\<close>

datatype load_error = CannotRead | CannotParse

definition load_config_with ::
  "server_env \<Rightarrow> (string \<Rightarrow> string option) \<Rightarrow> string \<Rightarrow> string \<Rightarrow> files \<Rightarrow> string \<Rightarrow> (load_error, config) result" where
  "load_config_with env vars home machine fs path =
     (let storage = resolve_storage_paths (vars(''STACKHOUR_CONFIG'' := Some path)) home in
      case (if fs path = None then Inr (JObject [])
            else
              (case read_to_string fs path of
                 None \<Rightarrow> Inl CannotRead
               | Some text \<Rightarrow> (case jt_parse (sv_jt env) text of None \<Rightarrow> Inl CannotParse | Some user \<Rightarrow> Inr user))) of
        Inl e \<Rightarrow> Inl e
      | Inr user \<Rightarrow>
          (let raw0 = deep_merge (defaults_with (sp_db_path storage) machine) user;
               raw1 = update_member ''server'' (update_member ''db'' (expand_string home)) raw0;
               raw = update_member ''agent'' (normalize_agent env home) raw1
           in Inr
             \<lparr>cf_raw = raw, cf_server = build_server env raw, cf_agent = build_agent env raw,
              cf_summary = build_summary env raw, cf_pricing = build_pricing env raw,
              cf_modules = from_raw (ft_round (sv_ft env)) raw,
              cf_wakatime_api_key = string_field env (json_get raw ''wakatime'') ''apiKey'' [],
              cf_paths = storage\<rparr>))"

text \<open>\<open>reason\<close> is the text of an I/O or syntax error.\<close>

definition read_existing_raw :: "server_env \<Rightarrow> string \<Rightarrow> files \<Rightarrow> string \<Rightarrow> (string, json) result" where
  "read_existing_raw env reason fs path =
     (if fs path = None then Inr (JObject [])
      else
        (case Option.bind (read_to_string fs path) (jt_parse (sv_jt env)) of
           Some v \<Rightarrow> Inr v
         | None \<Rightarrow> Inl (''cannot read existing config: '' @ reason)))"

subsection \<open>What the merge keeps\<close>

fun get_path :: "json \<Rightarrow> string list \<Rightarrow> json option" where
  "get_path v [] = Some v"
| "get_path v (k # ks) = Option.bind (json_get v k) (\<lambda>w. get_path w ks)"

definition merge_value :: "json option \<Rightarrow> json \<Rightarrow> json" where
  "merge_value old v =
     (if is_object v then
        (case old of
           Some (JObject m) \<Rightarrow> deep_merge (JObject m) v
         | Some (JArray a) \<Rightarrow> deep_merge (JArray a) v
         | _ \<Rightarrow> v)
      else v)"

lemma deep_merge_eq:
  "deep_merge base user =
     JObject (foldl (\<lambda>out kv. json_insert (fst kv) (merge_value (map_of out (fst kv)) (snd kv)) out)
       (spread_into_map base) (spread_into_map user))"
  unfolding merge_value_def by (rule deep_merge.simps)

lemma merge_members:
  assumes "distinct (map fst kvs)"
  shows "map_of (foldl (\<lambda>out kv. json_insert (fst kv) (merge_value (map_of out (fst kv)) (snd kv)) out) out kvs) k
    = (case map_of kvs k of None \<Rightarrow> map_of out k | Some v \<Rightarrow> Some (merge_value (map_of out k) v))"
  using assms
proof (induction kvs arbitrary: out)
  case (Cons kv kvs)
  have absent: "map_of kvs (fst kv) = None" using Cons.prems by (simp add: map_of_eq_None_iff)
  then show ?case
    using Cons by (cases "k = fst kv") (auto simp: map_of_json_insert split: option.split)
qed simp

lemma json_get_merge:
  assumes "distinct (map fst u)"
  shows "json_get (deep_merge (JObject b) (JObject u)) k
    = (case map_of u k of None \<Rightarrow> map_of b k | Some v \<Rightarrow> Some (merge_value (map_of b k) v))"
  unfolding deep_merge_eq using merge_members [OF assms] by simp


text \<open>Objects as \<open>serde_json\<close> builds them: no key twice.\<close>

fun distinct_keys :: "json \<Rightarrow> bool" where
  "distinct_keys (JObject m) = (distinct (map fst m) \<and> (\<forall>kv \<in> set m. distinct_keys (snd kv)))"
| "distinct_keys (JArray a) = (\<forall>v \<in> set a. distinct_keys v)"
| "distinct_keys _ = True"

text \<open>A path at which the file says nothing, and one on which the defaults have no array.\<close>

fun silent :: "json \<Rightarrow> string list \<Rightarrow> bool" where
  "silent (JObject u) (k # ks) = (case map_of u k of None \<Rightarrow> True | Some v \<Rightarrow> is_object v \<and> silent v ks)"
| "silent _ _ = False"

fun no_array :: "json \<Rightarrow> string list \<Rightarrow> bool" where
  "no_array (JArray a) ks = False"
| "no_array (JObject m) (k # ks) = (case map_of m k of None \<Rightarrow> True | Some v \<Rightarrow> no_array v ks)"
| "no_array _ _ = True"

lemma object_cases: "is_object v \<Longrightarrow> \<exists>m. v = JObject m"
  by (cases v) (simp_all add: is_object_def)

lemma object_is: "is_object (JObject m)"
  by (simp add: is_object_def)

lemma distinct_member: "distinct_keys (JObject u) \<Longrightarrow> map_of u k = Some v \<Longrightarrow> distinct_keys v"
  by (fastforce dest: map_of_SomeD)

lemma silent_absent: "silent v p \<Longrightarrow> get_path v p = None"
  by (induction v p rule: silent.induct) (auto split: option.splits)

lemma spread_keys: "distinct (map fst m) \<Longrightarrow> spread_into_map (JObject m) = m"
  by simp

lemma merge_member:
  assumes "distinct_keys (JObject u)" and "map_of u k = Some v"
  shows "json_get (deep_merge base (JObject u)) k = Some (merge_value (map_of (spread_into_map base) k) v)"
  unfolding deep_merge_eq using assms merge_members [of "u" "spread_into_map base" k] by simp

lemma merge_untouched:
  assumes "distinct_keys (JObject u)" and "map_of u k = None"
  shows "json_get (deep_merge base (JObject u)) k = map_of (spread_into_map base) k"
  unfolding deep_merge_eq using assms merge_members [of "u" "spread_into_map base" k] by simp

lemma user_setting_wins:
  assumes "distinct_keys (JObject u)" and "get_path (JObject u) p = Some v" and "\<not> is_object v"
  shows "get_path (deep_merge base (JObject u)) p = Some v"
  using assms
proof (induction p arbitrary: u base)
  case Nil
  then show ?case using object_is by auto
next
  case (Cons k ks)
  then obtain w where w: "map_of u k = Some w" "get_path w ks = Some v" by (auto simp: Option.bind_eq_Some_conv)
  have distinct: "distinct_keys w" using Cons.prems(1) w(1) by (rule distinct_member)
  show ?case
  proof (cases "is_object w")
    case True
    then obtain m where m: "w = JObject m" using object_cases by blast
    have "get_path (deep_merge b (JObject m)) ks = Some v" for b
      using Cons.IH [of m b] distinct w(2) Cons.prems(3) m by simp
    then show ?thesis
      using merge_member [OF Cons.prems(1) w(1), of base] w(2) m
      by (simp add: merge_value_def object_is split: option.split json.split)
  next
    case False
    then show ?thesis
      using merge_member [OF Cons.prems(1) w(1), of base] w(2) by (simp add: merge_value_def)
  qed
qed

lemma default_kept:
  assumes "distinct_keys (JObject u)" and "silent (JObject u) p" and "no_array (JObject b) p"
  shows "get_path (deep_merge (JObject b) (JObject u)) p = get_path (JObject b) p"
  using assms
proof (induction p arbitrary: u b)
  case (Cons k ks)
  show ?case
  proof (cases "map_of u k")
    case None
    then show ?thesis using merge_untouched [OF Cons.prems(1) None, of "JObject b"] by simp
  next
    case (Some w)
    then obtain m where m: "w = JObject m" "silent w ks" using Cons.prems(2) object_cases by auto
    have distinct: "distinct_keys (JObject m)" using distinct_member [OF Cons.prems(1) Some] m by simp
    have absent: "get_path w ks = None" using m(2) by (rule silent_absent)
    have nonempty: "ks \<noteq> []" using m by (cases ks) auto
    note merged = merge_member [OF Cons.prems(1) Some, of "JObject b", unfolded m]
    show ?thesis
    proof (cases "map_of b k")
      case None
      then show ?thesis using merged absent m by (simp add: merge_value_def object_is)
    next
      case old: (Some x)
      have scalar: "get_path x ks = None" if "\<And>m'. x \<noteq> JObject m'" using that nonempty by (cases ks; cases x) auto
      have "no_array x ks" using Cons.prems(3) old by simp
      then show ?thesis
        using merged absent m old Cons.IH [OF distinct, of "case x of JObject m' \<Rightarrow> m' | _ \<Rightarrow> []"] scalar
        by (cases x) (simp_all add: merge_value_def object_is)
    qed
  qed
qed simp

text \<open>A default that is there stands: a path through an array leads nowhere, so there is nothing to keep below it.\<close>

lemma default_stands:
  assumes "distinct_keys (JObject u)" and "silent (JObject u) p" and "get_path (JObject b) p = Some x"
  shows "get_path (deep_merge (JObject b) (JObject u)) p = Some x"
  using assms
proof (induction p arbitrary: u b)
  case (Cons k ks)
  then obtain y where y: "map_of b k = Some y" "get_path y ks = Some x" by (auto simp: Option.bind_eq_Some_conv)
  show ?case
  proof (cases "map_of u k")
    case None
    then show ?thesis using merge_untouched [OF Cons.prems(1) None, of "JObject b"] y by simp
  next
    case (Some w)
    then obtain m where m: "w = JObject m" "silent w ks" using Cons.prems(2) object_cases by auto
    have distinct: "distinct_keys (JObject m)" using distinct_member [OF Cons.prems(1) Some] m by simp
    have "ks \<noteq> []" using m by (cases ks) auto
    then obtain m' where m': "y = JObject m'" using y(2) by (cases ks; cases y) auto
    then show ?thesis
      using merge_member [OF Cons.prems(1) Some, of "JObject b"] y m Cons.IH [OF distinct, of m']
      by (simp add: merge_value_def object_is)
  qed
qed simp

text \<open>C37: The configuration file overlays the defaults setting by setting, at any depth. What the file says
  at a path that is no object, an array included, is what the merged configuration says there, whole. A default,
  an array included, stands wherever the file says nothing. And nothing else appears, except below an array of the
  defaults that the file overlays with an object: it turns into an object of its items.\<close>

theorem settings_overlay:
  assumes "distinct_keys (JObject u)"
  shows "(get_path (JObject u) p = Some v \<and> \<not> is_object v \<longrightarrow> get_path (deep_merge (JObject b) (JObject u)) p = Some v)
    \<and> (silent (JObject u) p \<and> get_path (JObject b) p = Some x
        \<longrightarrow> get_path (deep_merge (JObject b) (JObject u)) p = Some x)
    \<and> (silent (JObject u) p \<and> get_path (JObject b) p = None \<and> no_array (JObject b) p
        \<longrightarrow> get_path (deep_merge (JObject b) (JObject u)) p = None)"
  using user_setting_wins [OF assms] default_stands [OF assms] default_kept [OF assms] by auto

theorem settings_overlay_witness:
  "get_path (deep_merge (defaults_with ''d'' ''box'') (JObject [(''server'', JObject [(''port'', JBool True)])]))
      [''server'', ''port''] = Some (JBool True)
    \<and> get_path (deep_merge (defaults_with ''d'' ''box'') (JObject [(''agent'', JObject [(''token'', JBool True)])]))
      [''agent'', ''ignoreDirs''] = Some (JArray (map JString default_ignore_dirs))"
proof -
  obtain b where b: "defaults_with ''d'' ''box'' = JObject b" by (simp add: defaults_with_def)
  have keys: "distinct_keys (JObject [(k, JObject [(k', JBool True)])])" for k k' by simp
  note overlay = settings_overlay [OF keys, where b = b]
  have "get_path (JObject [(''server'', JObject [(''port'', JBool True)])]) [''server'', ''port''] = Some (JBool True)
      \<and> \<not> is_object (JBool True)" by (simp add: is_object_def)
  moreover have "silent (JObject [(''agent'', JObject [(''token'', JBool True)])]) [''agent'', ''ignoreDirs'']"
    by (simp add: object_is)
  moreover have "get_path (JObject b) [''agent'', ''ignoreDirs''] = Some (JArray (map JString default_ignore_dirs))"
    unfolding b [symmetric] by (simp add: defaults_with_def)
  ultimately show ?thesis
    unfolding b using overlay [of "''server''" "''port''" "[''server'', ''port'']" "JBool True"]
      overlay [of "''agent''" "''token''" "[''agent'', ''ignoreDirs'']"] by auto
qed

lemma port_range: "1 \<le> vw_port (build_server env raw) \<and> vw_port (build_server env raw) \<le> 65535"
  by (auto simp: build_server_def Let_def le_floor_iff floor_le_iff split: f64_value.split)

lemma map_of_update: "map_of (map (\<lambda>(k, w). (k, if k = key then f w else w)) m) k = map_option (if k = key then f else (\<lambda>w. w)) (map_of m k)"
  by (induction m) (auto simp: option.map_ident)

lemma get_update_member: "json_get (update_member key f v) k = map_option (if k = key then f else (\<lambda>w. w)) (json_get v k)"
  by (cases v) (simp_all add: update_member_def map_of_update)

text \<open>What a section of the views is when the file has nothing on it.\<close>

definition default_server :: "string \<Rightarrow> server_view" where
  "default_server db =
     \<lparr>vw_port = 4040, vw_host = ''0.0.0.0'', vw_db = db, vw_token = [], vw_public_url = None\<rparr>"

definition default_agent :: "string \<Rightarrow> agent_settings" where
  "default_agent machine =
     \<lparr>vw_server_url = ''http://127.0.0.1:4040'', vw_agent_token = [], vw_machine = machine,
      vw_interval_seconds = Finite 20, vw_project_roots = [], vw_project_aliases = [],
      vw_watch = \<lparr>vw_files = True, vw_claude = True, vw_codex = True, vw_mac_apps = True, vw_ssh = True, vw_zed = True\<rparr>,
      vw_apps = map (\<lambda>(name, source, category). (name,
          \<lparr>vw_source = source, vw_category = category, vw_project_from_title = None\<rparr>))
        [(''Claude'', ''claude-desktop'', ''ai coding''), (''Codex'', ''codex-desktop'', ''ai coding''),
         (''ChatGPT'', ''codex-desktop'', ''ai coding''), (''WebStorm'', ''webstorm'', ''coding''),
         (''Zed'', ''zed'', ''coding'')],
      vw_idle_seconds = Finite 120, vw_ignore_dirs = default_ignore_dirs, vw_max_scan_depth = Finite 8\<rparr>"

definition default_summary :: summary_view where
  "default_summary =
     \<lparr>vw_cap_seconds = Finite 120, vw_last_event_credit_seconds = Finite 60,
      vw_reattribute_window_seconds = Finite 120, vw_join_gap_seconds = Finite 300\<rparr>"

definition absent :: "string \<Rightarrow> json \<Rightarrow> bool" where
  "absent key user \<longleftrightarrow> key \<notin> fst ` set (spread_into_map user)"

definition file_json :: "server_env \<Rightarrow> files \<Rightarrow> string \<Rightarrow> json option" where
  "file_json env fs path =
     (if fs path = None then Some (JObject [])
      else Option.bind (read_to_string fs path) (jt_parse (sv_jt env)))"

lemma merge_absent: "absent key user \<Longrightarrow> json_get (deep_merge (JObject b) user) key = map_of b key"
proof -
  have "key \<notin> fst ` set kvs \<Longrightarrow>
      map_of (foldl (\<lambda>out kv. json_insert (fst kv) (merge_value (map_of out (fst kv)) (snd kv)) out) out kvs) key = map_of out key"
    for kvs and out :: "(string \<times> json) list"
    by (induction kvs arbitrary: out) (auto simp: map_of_json_insert)
  then show "absent key user \<Longrightarrow> ?thesis" by (simp add: deep_merge_eq absent_def)
qed

lemma exact_setting:
  assumes "exact_integers (ft_round (sv_ft env))" and "0 \<le> k" and "k \<le> 2 ^ 53"
  shows "js_number_of env (json_of_i64 k) = Finite (of_int k)"
proof -
  have "unat (word_of_int k :: 64 word) = nat k"
    using assms(2,3) by (simp add: unat_eq_nat_uint unsigned_of_int take_bit_int_eq_self)
  with assms show ?thesis by (simp add: json_of_i64_def exact_integers_def)
qed

text \<open>The raw configuration of a file.\<close>

definition loaded_raw :: "server_env \<Rightarrow> string \<Rightarrow> string \<Rightarrow> string \<Rightarrow> json \<Rightarrow> json" where
  "loaded_raw env db_path home machine user =
     update_member ''agent'' (normalize_agent env home)
       (update_member ''server'' (update_member ''db'' (expand_string home)) (deep_merge (defaults_with db_path machine) user))"

lemma loaded_member:
  assumes "absent key user"
  shows "json_get (loaded_raw env db home machine user) key =
    json_get (loaded_raw env db home machine (JObject [])) key"
proof -
  obtain b where b: "defaults_with db machine = JObject b" by (simp add: defaults_with_def)
  have "absent key (JObject [])" by (simp add: absent_def)
  then show ?thesis using merge_absent assms by (simp add: loaded_raw_def get_update_member b)
qed

lemma default_members:
  "json_get (loaded_raw env db home machine (JObject [])) ''server'' = Some (JObject
      [(''port'', json_of_i64 4040), (''host'', JString ''0.0.0.0''), (''db'', JString (expand_home db home)), (''token'', JString []),
       (''tokens'', JObject [])])"
  "json_get (loaded_raw env db home machine (JObject [])) ''summary'' = Some (JObject
      [(''capSeconds'', json_of_i64 120), (''lastEventCreditSeconds'', json_of_i64 60),
       (''reattributeWindowSeconds'', json_of_i64 120), (''joinGapSeconds'', json_of_i64 300)])"
  "json_get (loaded_raw env db home machine (JObject [])) ''agent'' =
     Option.bind (json_get (defaults_with db machine) ''agent'') (\<lambda>a. Some (normalize_agent env home a))"
  "json_get (loaded_raw env db home machine (JObject [])) ''modules'' = None"
  "json_get (loaded_raw env db home machine (JObject [])) ''pricing'' = None"
  "json_get (loaded_raw env db home machine (JObject [])) ''wakatime'' = Some (JObject [(''apiKey'', JString [])])"
proof -
  have none: "deep_merge (JObject b) (JObject []) = JObject b" for b by (simp add: deep_merge_eq)
  show "json_get (loaded_raw env db home machine (JObject [])) ''server'' = Some (JObject
      [(''port'', json_of_i64 4040), (''host'', JString ''0.0.0.0''), (''db'', JString (expand_home db home)), (''token'', JString []),
       (''tokens'', JObject [])])"
    by (simp add: loaded_raw_def get_update_member defaults_with_def none) (simp add: update_member_def expand_string_def)
qed (simp_all add: loaded_raw_def get_update_member defaults_with_def deep_merge_eq)

lemma default_views:
  assumes exact: "exact_integers (ft_round (sv_ft env))"
  shows "absent ''server'' user \<Longrightarrow>
      build_server env (loaded_raw env db home machine user) = default_server (expand_home db home)"
    and "absent ''summary'' user \<Longrightarrow> build_summary env (loaded_raw env db home machine user) = default_summary"
    and "absent ''agent'' user \<Longrightarrow> build_agent env (loaded_raw env db home machine user) = default_agent machine"
    and "absent ''modules'' user \<Longrightarrow> from_raw rnd (loaded_raw env db home machine user) = ALL_ENABLED"
    and "absent ''pricing'' user \<Longrightarrow> build_pricing env (loaded_raw env db home machine user) = None"
    and "absent ''wakatime'' user \<Longrightarrow>
      string_field env (json_get (loaded_raw env db home machine user) ''wakatime'') ''apiKey'' [] = []"
proof -
  note views = loaded_member [of _ user env db home machine] default_members
  note number = exact_setting [OF exact]
  show "absent ''server'' user \<Longrightarrow>
      build_server env (loaded_raw env db home machine user) = default_server (expand_home db home)"
    by (simp add: build_server_def views num_field_def field_def number string_field_def default_server_def)
  show "absent ''summary'' user \<Longrightarrow> build_summary env (loaded_raw env db home machine user) = default_summary"
    by (simp add: build_summary_def views num_field_def field_def number default_summary_def)
  show "absent ''modules'' user \<Longrightarrow> from_raw rnd (loaded_raw env db home machine user) = ALL_ENABLED"
    by (simp add: from_raw_def views)
  show "absent ''pricing'' user \<Longrightarrow> build_pricing env (loaded_raw env db home machine user) = None"
    by (simp add: build_pricing_def views)
  show "absent ''wakatime'' user \<Longrightarrow>
      string_field env (json_get (loaded_raw env db home machine user) ''wakatime'') ''apiKey'' [] = []"
    by (simp add: views string_field_def)
  have strings: "map (the \<circ> as_str \<circ> JString) xs = xs" for xs
    by (induction xs) simp_all
  have member: "json_get (normalize_agent env home (JObject m)) key = map_option
      (if key = ''apps'' then (\<lambda>apps. case apps of JObject a \<Rightarrow> JObject (map (\<lambda>(k, v). (k, normalize_app v)) a) | _ \<Rightarrow> apps)
       else (\<lambda>v. v)) (map_of (normalize_roots env home m) key)" for m key
    by (simp add: normalize_agent_def get_update_member)
  show "absent ''agent'' user \<Longrightarrow> build_agent env (loaded_raw env db home machine user) = default_agent machine"
    by (simp add: build_agent_def views num_field_def field_def number string_field_def default_agent_def Let_def
        defaults_with_def member normalize_roots_def map_of_json_insert strings strings_of_def watch_flag_def is_truthy_def
        app_entry_def normalize_app_def app_of_def truthy_display_def List.map_filter_def)
qed

text \<open>C38: Loading is total: it fails only for a file that cannot be read as text or is no JSON. Whatever JSON the
  file holds, an object or not, the port is between 1 and 65535, and every section the file leaves out has its
  defaults: those of the server, the agent and the summary setting by setting, every module enabled, the built-in
  prices and no WakaTime key. (Doubles represent the integers up to \<open>2^53\<close>.)\<close>

theorem load_config_total:
  assumes "exact_integers (ft_round (sv_ft env))"
  shows "case file_json env fs path of
      None \<Rightarrow> load_config_with env vars home machine fs path
        = Inl (if read_to_string fs path = None then CannotRead else CannotParse)
    | Some user \<Rightarrow> (\<exists>cfg. load_config_with env vars home machine fs path = Inr cfg
        \<and> 1 \<le> vw_port (cf_server cfg) \<and> vw_port (cf_server cfg) \<le> 65535
        \<and> (absent ''server'' user \<longrightarrow> cf_server cfg = default_server (expand_home (sp_db_path (cf_paths cfg)) home))
        \<and> (absent ''agent'' user \<longrightarrow> cf_agent cfg = default_agent machine)
        \<and> (absent ''summary'' user \<longrightarrow> cf_summary cfg = default_summary)
        \<and> (absent ''modules'' user \<longrightarrow> cf_modules cfg = ALL_ENABLED)
        \<and> (absent ''pricing'' user \<longrightarrow> cf_pricing cfg = None)
        \<and> (absent ''wakatime'' user \<longrightarrow> cf_wakatime_api_key cfg = []))"
proof (cases "file_json env fs path")
  case None
  then show ?thesis
    by (auto simp: file_json_def load_config_with_def Let_def bind_eq_None_conv split: option.splits if_splits)
next
  case (Some user)
  let ?storage = "resolve_storage_paths (vars(''STACKHOUR_CONFIG'' := Some path)) home"
  let ?raw = "loaded_raw env (sp_db_path ?storage) home machine user"
  have "load_config_with env vars home machine fs path = Inr
      \<lparr>cf_raw = ?raw, cf_server = build_server env ?raw, cf_agent = build_agent env ?raw,
       cf_summary = build_summary env ?raw, cf_pricing = build_pricing env ?raw,
       cf_modules = from_raw (ft_round (sv_ft env)) ?raw,
       cf_wakatime_api_key = string_field env (json_get ?raw ''wakatime'') ''apiKey'' [], cf_paths = ?storage\<rparr>"
    using Some unfolding file_json_def load_config_with_def loaded_raw_def Let_def
    by (auto split: option.splits if_splits)
  then show ?thesis unfolding Some option.case
    by (intro exI conjI, assumption) (simp_all add: port_range default_views [OF assms])
qed

theorem load_config_total_witness:
  "exact_integers (ft_round (sv_ft server_demo_env)) \<and>
   (\<exists>cfg. load_config_with server_demo_env (\<lambda>_. None) ''/h'' ''box'' (\<lambda>_. None) ''c'' = Inr cfg
     \<and> cf_agent cfg = default_agent ''box'' \<and> cf_summary cfg = default_summary)"
proof -
  have exact: "exact_integers (ft_round (sv_ft server_demo_env))"
    by (simp add: exact_integers_def server_demo_env_def demo_f64_def)
  have "file_json server_demo_env (\<lambda>_. None) ''c'' = Some (JObject [])" by (simp add: file_json_def)
  then show ?thesis
    using load_config_total [OF exact, where fs = "\<lambda>_. None" and path = "''c''" and vars = "\<lambda>_. None" and home = "''/h''"
        and machine = "''box''"] exact
    by (auto simp: absent_def)
qed

end
