(* ===== verification/Tokens.thy ===== *)
theory Tokens
  imports Config
begin

text \<open>
  Machine tokens in the configuration file and enrollment codes
  (\<open>crates/stackhour-core/src/tokens.rs\<close>). The text of an operating system or JSON error, the
  pretty printer, the URL parser (scheme and serialization), the random bytes and the base64
  encoder are parameters; the decoder is the source's own.
\<close>

record token_env =
  te_io :: io_env
  te_ft :: f64_text
  te_jt :: json_text
  te_pretty :: "json \<Rightarrow> string"
  te_read_error :: string
  te_parse_error :: string
  te_io_text :: "io_error \<Rightarrow> string"
  te_url :: "string \<Rightarrow> (string \<times> string) option"
  te_base64 :: "string \<Rightarrow> string"

subsection \<open>Strings as JavaScript sees them\<close>

definition utf16_units :: "string \<Rightarrow> nat list" where
  "utf16_units s =
     concat (map (\<lambda>p. let c = decode_char p in
        if c < 0x10000 then [c] else [0xD800 + (c - 0x10000) div 0x400, 0xDC00 + (c - 0x10000) mod 0x400]) (char_parts s))"

definition utf16_len :: "string \<Rightarrow> nat" where
  "utf16_len s = length (utf16_units s)"

definition field_trim :: "f64_text \<Rightarrow> json option \<Rightarrow> string" where
  "field_trim ft v =
     (case v of Some w \<Rightarrow> if js_truthy (ft_round ft) w then js_trim (js_display ft w) else [] | None \<Rightarrow> [])"

definition generate_token :: "token_env \<Rightarrow> string \<Rightarrow> string" where
  "generate_token env buf = te_base64 env buf"

definition machine_name :: "string \<Rightarrow> (string, string) result" where
  "machine_name value =
     (let machine = js_trim value;
          bad_char = list_ex (\<lambda>p. decode_char p \<le> 0x1F \<or> decode_char p = 0x7F) (char_parts machine)
      in if machine = [] \<or> utf16_len machine > 200 \<or> bad_char
         then Inl ''machine must be 1-200 printable characters'' else Inr machine)"

subsection \<open>The raw configuration\<close>

record loaded_config =
  lc_config :: json
  lc_phantom :: "(string \<times> json) list option"

definition lc_tokens :: "loaded_config \<Rightarrow> (string \<times> json) list" where
  "lc_tokens lc =
     (case lc_phantom lc of Some m \<Rightarrow> m | None \<Rightarrow> object_or_empty (Option.bind (json_get (lc_config lc) ''server'') (\<lambda>v. json_get v ''tokens'')))"

definition map_tokens :: "((string \<times> json) list \<Rightarrow> (string \<times> json) list) \<Rightarrow> loaded_config \<Rightarrow> loaded_config" where
  "map_tokens f lc =
     (case lc_phantom lc of
        Some m \<Rightarrow> lc\<lparr>lc_phantom := Some (f m)\<rparr>
      | None \<Rightarrow>
          lc\<lparr>lc_config := update_member ''server''
                (update_member ''tokens'' (\<lambda>t. JObject (f (object_or_empty (Some t))))) (lc_config lc)\<rparr>)"

fun type_name :: "json \<Rightarrow> string" where
  "type_name (JNum _) = ''number''"
| "type_name (JString _) = ''string''"
| "type_name _ = ''boolean''"

definition with_tokens :: "(string \<times> json) list \<Rightarrow> (string \<times> json) list" where
  "with_tokens server =
     (case map_of server ''tokens'' of
        None \<Rightarrow> json_insert ''tokens'' (JObject []) server
      | Some JNull \<Rightarrow> json_insert ''tokens'' (JObject []) server
      | Some _ \<Rightarrow> server)"

definition read_server_config :: "token_env \<Rightarrow> files \<Rightarrow> string \<Rightarrow> (string, loaded_config) result" where
  "read_server_config env fs path =
     (case read_to_string fs path of
        None \<Rightarrow> Inl (''cannot read config: '' @ te_read_error env)
      | Some content \<Rightarrow>
          (case jt_parse (te_jt env) content of
             None \<Rightarrow> Inl (''cannot read config: '' @ te_parse_error env)
           | Some config \<Rightarrow>
               if config = JNull then Inl (''Cannot read properties of null (reading '' @ [CHR 0x27] @ ''server'' @ [CHR 0x27] @ '')'')
               else
                 (case json_get config ''server'' of
                    None \<Rightarrow> Inl ''server is not initialized''
                  | Some srv \<Rightarrow>
                      if \<not> js_truthy (ft_round (te_ft env)) srv then Inl ''server is not initialized''
                      else
                        (case srv of
                           JObject server \<Rightarrow>
                             (case map_of (with_tokens server) ''tokens'' of
                                Some (JObject _) \<Rightarrow>
                                  Inr \<lparr>lc_config = update_member ''server'' (\<lambda>_. JObject (with_tokens server)) config, lc_phantom = None\<rparr>
                              | _ \<Rightarrow> Inl ''server.tokens must be an object keyed by machine name'')
                         | JArray _ \<Rightarrow> Inr \<lparr>lc_config = config, lc_phantom = Some []\<rparr>
                         | other \<Rightarrow>
                             Inl (''Cannot create property '' @ [CHR 0x27] @ ''tokens'' @ [CHR 0x27] @ '' on '' @ type_name other
                                @ '' '' @ [CHR 0x27] @ js_display (te_ft env) other @ [CHR 0x27])))))"

definition write_raw_config :: "token_env \<Rightarrow> string \<Rightarrow> json \<Rightarrow> world \<Rightarrow> (string, unit) result \<times> world" where
  "write_raw_config env path config w =
     (let (r, w') = atomic_write_0600 (te_io env) path (te_pretty env config @ [newline]) w
      in (map_sum (te_io_text env) id r, w'))"

subsection \<open>Machine tokens\<close>

definition create_machine_token ::
  "token_env \<Rightarrow> string \<Rightarrow> string \<Rightarrow> string \<Rightarrow> string option \<Rightarrow> bool \<Rightarrow> world \<Rightarrow> (string, string \<times> string) result \<times> world" where
  "create_machine_token env buf path machine token force w =
     (case machine_name machine of
        Inl e \<Rightarrow> (Inl e, w)
      | Inr nm \<Rightarrow>
          (case read_server_config env (wd_files w) path of
             Inl e \<Rightarrow> (Inl e, w)
           | Inr loaded \<Rightarrow>
               if nm \<in> fst ` set (lc_tokens loaded) \<and> \<not> force
               then (Inl (''token for '' @ nm @ '' already exists; pass --force to rotate it''), w)
               else
                 (let secret = (case token of None \<Rightarrow> generate_token env buf | Some s \<Rightarrow> js_trim s) in
                  if secret = [] then (Inl ''token cannot be empty'', w)
                  else if list_ex (\<lambda>(other, value). other \<noteq> nm \<and> value = JString secret) (lc_tokens loaded)
                  then (Inl ''token is already assigned to another machine'', w)
                  else
                    (let loaded' = map_tokens (json_insert nm (JString secret)) loaded;
                         (r, w') = write_raw_config env path (lc_config loaded') w
                     in (map_sum id (\<lambda>_. (nm, secret)) r, w')))))"

definition revoke_machine_token :: "token_env \<Rightarrow> string \<Rightarrow> string \<Rightarrow> world \<Rightarrow> (string, unit) result \<times> world" where
  "revoke_machine_token env path machine w =
     (case machine_name machine of
        Inl e \<Rightarrow> (Inl e, w)
      | Inr nm \<Rightarrow>
          (case read_server_config env (wd_files w) path of
             Inl e \<Rightarrow> (Inl e, w)
           | Inr loaded \<Rightarrow>
               if nm \<notin> fst ` set (lc_tokens loaded) then (Inl (''no token exists for '' @ nm), w)
               else write_raw_config env path (lc_config (map_tokens (shift_remove nm) loaded)) w))"

definition list_machine_tokens :: "token_env \<Rightarrow> files \<Rightarrow> string \<Rightarrow> (string, string list) result" where
  "list_machine_tokens env fs path =
     map_sum id (\<lambda>loaded. sort_key utf16_units (map fst (lc_tokens loaded))) (read_server_config env fs path)"

subsection \<open>Enrollment codes\<close>

record enrollment =
  en_server_url :: string
  en_machine :: string
  en_token :: string

definition valid_url :: "token_env \<Rightarrow> string \<Rightarrow> (string, string) result" where
  "valid_url env u =
     (case te_url env u of
        None \<Rightarrow> Inl ''server URL must be a valid http(s) URL''
      | Some (scheme, href) \<Rightarrow>
          if scheme \<noteq> ''http'' \<and> scheme \<noteq> ''https'' then Inl ''server URL must use http or https''
          else Inr (strip_suffix_char CHR ''/'' href))"

definition create_enrollment :: "token_env \<Rightarrow> string \<Rightarrow> string \<Rightarrow> string \<Rightarrow> (string, string) result" where
  "create_enrollment env server_url machine token =
     (case valid_url env server_url of
        Inl e \<Rightarrow> Inl e
      | Inr clean_url \<Rightarrow>
          (let m = js_trim machine; t = js_trim token in
           if m = [] then Inl ''enrollment machine cannot be empty''
           else if t = [] then Inl ''enrollment token cannot be empty''
           else
             Inr (te_base64 env (jt_str (te_jt env)
               (JObject [(''v'', json_of_i64 1), (''serverUrl'', JString clean_url), (''machine'', JString m), (''token'', JString t)])))))"

definition code_sextet :: "char \<Rightarrow> 32 word option" where
  "code_sextet c =
     (let b = byte c in
      if 65 \<le> b \<and> b \<le> 90 then Some (of_nat (b - 65))
      else if 97 \<le> b \<and> b \<le> 122 then Some (of_nat (b - 97 + 26))
      else if 48 \<le> b \<and> b \<le> 57 then Some (of_nat (b - 48 + 52))
      else if c = CHR ''+'' \<or> c = CHR ''-'' then Some 62
      else if c = CHR ''/'' \<or> c = CHR ''_'' then Some 63
      else None)"

text \<open>\<open>as u8\<close>: the low byte.\<close>

definition low_byte :: "32 word \<Rightarrow> char" where
  "low_byte w = char_of (unat (and w 0xFF))"

definition lenient_tail :: "32 word \<Rightarrow> nat \<Rightarrow> string" where
  "lenient_tail acc have_bits =
     (if have_bits = 2 then [low_byte (drop_bit 4 acc)]
      else if have_bits = 3 then [low_byte (drop_bit 10 acc), low_byte (drop_bit 2 acc)] else [])"

fun lenient_loop :: "32 word \<Rightarrow> nat \<Rightarrow> string \<Rightarrow> string" where
  "lenient_loop acc n [] = lenient_tail acc n"
| "lenient_loop acc n (c # cs) =
     (if c = CHR ''='' then lenient_tail acc n
      else
        (case code_sextet c of
           None \<Rightarrow> lenient_loop acc n cs
         | Some v \<Rightarrow>
             (let acc1 = or (push_bit 6 acc) v in
              if n + 1 = 4 then
                [low_byte (drop_bit 16 acc1), low_byte (drop_bit 8 acc1), low_byte acc1] @ lenient_loop 0 0 cs
              else lenient_loop acc1 (n + 1) cs)))"

definition lenient_base64_decode :: "string \<Rightarrow> string" where
  "lenient_base64_decode s = lenient_loop 0 0 s"

definition code_char :: "char \<Rightarrow> bool" where
  "code_char c \<longleftrightarrow> (let b = byte c in
     65 \<le> b \<and> b \<le> 90 \<or> 97 \<le> b \<and> b \<le> 122 \<or> 48 \<le> b \<and> b \<le> 57 \<or> c = CHR ''_'' \<or> c = CHR ''-'')"

definition parse_enrollment :: "token_env \<Rightarrow> string \<Rightarrow> (string, enrollment) result" where
  "parse_enrollment env code =
     (if code = [] \<or> length code > 16384 \<or> \<not> list_all code_char code then Inl ''invalid enrollment code''
      else
        (case jt_parse (te_jt env) (utf8_lossy (lenient_base64_decode code)) of
           None \<Rightarrow> Inl ''invalid enrollment code''
         | Some (JObject obj) \<Rightarrow>
             if (case map_of obj ''v'' of Some (JNum n) \<Rightarrow> num_f64 (ft_round (te_ft env)) n \<noteq> Finite 1 | _ \<Rightarrow> True)
             then Inl ''unsupported enrollment code''
             else
               (case valid_url env (case map_of obj ''serverUrl'' of Some v \<Rightarrow> js_display (te_ft env) v | None \<Rightarrow> ''undefined'') of
                  Inl e \<Rightarrow> Inl e
                | Inr url \<Rightarrow>
                    Inr \<lparr>en_server_url = url, en_machine = field_trim (te_ft env) (map_of obj ''machine''),
                         en_token = field_trim (te_ft env) (map_of obj ''token'')\<rparr>)
         | Some _ \<Rightarrow> Inl ''unsupported enrollment code''))"

end
