(* ===== verification/Token_Props.thy ===== *)
theory Token_Props
  imports Tokens
begin

text \<open>
  What the tokens of \<open>Tokens\<close> promise: an enrollment code gives back what it was made of, and the
  server that loads the rewritten configuration lets the new token in, as its machine.
\<close>

unbundle bit_operations_syntax

subsection \<open>Base64\<close>

lemma nat_or_push: 
  assumes "n < 64"
  shows "or (push_bit 6 x) n = 64 * x + (n::nat)"
proof -
  have n: "take_bit 6 n = n" using assms by (simp add: take_bit_nat_eq_self_iff)
  have "and (push_bit 6 x) (take_bit 6 n) = 0" by (rule bit_eqI) (auto simp: bit_simps)
  then have "push_bit 6 x + n = or (push_bit 6 x) n" unfolding n by (rule disjunctive_add_eq_or)
  then show ?thesis by (simp add: push_bit_eq_mult)
qed

lemma word_or_push:
  fixes w :: "32 word"
  assumes "unat w < 2 ^ 26" and "n < 64"
  shows "unat (or (push_bit 6 w) (of_nat n)) = 64 * unat w + n"
proof -
  have "unat (push_bit 6 w) = push_bit 6 (unat w)"
    unfolding unsigned_push_bit_eq using assms(1) by (simp add: take_bit_nat_eq_self_iff push_bit_eq_mult)
  moreover have "unat (of_nat n :: 32 word) = n" using assms(2) by (simp add: unsigned_of_nat take_bit_nat_eq_self_iff)
  ultimately show ?thesis using nat_or_push [OF assms(2)] by (simp add: unsigned_or_eq)
qed

lemma low_byte_eq: "low_byte w = char_of (unat w mod 256)"
proof -
  have "and (unat w) 255 = take_bit 8 (unat w)" by (simp add: take_bit_eq_mask mask_eq_exp_minus_1)
  then show ?thesis by (simp add: low_byte_def unsigned_and_eq take_bit_eq_mod)
qed

lemma drop_bit_unat: "unat (drop_bit k (w :: 32 word)) = unat w div 2 ^ k"
proof -
  have "unat w < 2 ^ 32" using unsigned_less [of w, where 'a = nat] by simp
  then have "take_bit 32 (unat w) = unat w" by (simp add: take_bit_nat_eq_self_iff)
  then show ?thesis unfolding unsigned_drop_bit_eq by (simp add: drop_bit_eq_div)
qed

text \<open>RFC 4648, section 5, without padding.\<close>

definition url_digit :: "nat \<Rightarrow> char" where
  "url_digit n =
     (if n < 26 then char_of (65 + n) else if n < 52 then char_of (71 + n) else if n < 62 then char_of (n - 4)
      else if n = 62 then CHR ''-'' else CHR ''_'')"

fun rfc4648_url :: "string \<Rightarrow> string" where
  "rfc4648_url [] = []"
| "rfc4648_url [a] = [url_digit (byte a div 4), url_digit (byte a mod 4 * 16)]"
| "rfc4648_url [a, b] =
     [url_digit (byte a div 4), url_digit (byte a mod 4 * 16 + byte b div 16), url_digit (byte b mod 16 * 4)]"
| "rfc4648_url (a # b # c # s) =
     [url_digit (byte a div 4), url_digit (byte a mod 4 * 16 + byte b div 16),
      url_digit (byte b mod 16 * 4 + byte c div 64), url_digit (byte c mod 64)] @ rfc4648_url s"

lemma byte_less: "byte c < 256"
  by (simp add: byte_def)

lemma url_digit_byte:
  assumes "n < 64"
  shows "byte (url_digit n) =
    (if n < 26 then 65 + n else if n < 52 then 71 + n else if n < 62 then n - 4 else if n = 62 then 45 else 95)"
  using assms by (auto simp: url_digit_def byte_def)

lemma byte_chars:
  "byte CHR ''+'' = 43" "byte CHR ''-'' = 45" "byte CHR ''/'' = 47" "byte CHR ''_'' = 95" "byte CHR ''='' = 61"
  by (simp_all add: byte_def)

lemma char_byte: "c = d \<longleftrightarrow> byte c = byte d"
  by (simp add: byte_def)

lemma url_digit_code:
  assumes "n < 64"
  shows "code_sextet (url_digit n) = Some (of_nat n)" and "url_digit n \<noteq> CHR ''=''" and "code_char (url_digit n)"
proof -
  consider "n < 26" | "26 \<le> n" "n < 52" | "52 \<le> n" "n < 62" | "n = 62" | "n = 63" using assms by linarith
  note ranges = this
  have digit: "byte (url_digit n) = 71 + n \<or> True" by simp
  show "code_sextet (url_digit n) = Some (of_nat n)"
    unfolding code_sextet_def Let_def char_byte byte_chars url_digit_byte [OF assms] by (cases rule: ranges) auto
  show "url_digit n \<noteq> CHR ''=''"
    unfolding char_byte byte_chars url_digit_byte [OF assms] by (cases rule: ranges) auto
  show "code_char (url_digit n)"
    unfolding code_char_def Let_def char_byte byte_chars url_digit_byte [OF assms] by (cases rule: ranges) auto
qed

lemma loop_digit:
  assumes "n < 64"
  shows "lenient_loop acc k (url_digit n # cs) =
    (let acc1 = or (push_bit 6 acc) (of_nat n) in
     if k + 1 = 4 then [low_byte (drop_bit 16 acc1), low_byte (drop_bit 8 acc1), low_byte acc1] @ lenient_loop 0 0 cs
     else lenient_loop acc1 (k + 1) cs)"
  using url_digit_code [OF assms] by (simp add: Let_def)

declare lenient_loop.simps(2) [simp del]

lemma char_of_byte: "char_of (byte c) = c"
  by (simp add: byte_def)

lemma word_step:
  assumes "unat w = a" and "a < 2 ^ 26" and "n < 64"
  shows "unat (or (push_bit 6 w) (of_nat n) :: 32 word) = 64 * a + n"
  using word_or_push [of w n] assms by simp

lemma loop_group:
  assumes "n0 < 64" and "n1 < 64"
  shows "lenient_loop 0 0 [url_digit n0, url_digit n1] = [char_of ((64 * n0 + n1) div 16 mod 256)]"
    and "n2 < 64 \<Longrightarrow> lenient_loop 0 0 [url_digit n0, url_digit n1, url_digit n2] =
      [char_of ((64 * (64 * n0 + n1) + n2) div 1024 mod 256), char_of ((64 * (64 * n0 + n1) + n2) div 4 mod 256)]"
    and "n2 < 64 \<Longrightarrow> n3 < 64 \<Longrightarrow> lenient_loop 0 0 (url_digit n0 # url_digit n1 # url_digit n2 # url_digit n3 # cs) =
      (let a = 64 * (64 * (64 * n0 + n1) + n2) + n3 in
       [char_of (a div 65536 mod 256), char_of (a div 256 mod 256), char_of (a mod 256)] @ lenient_loop 0 0 cs)"
proof -
  let ?w0 = "or (push_bit 6 0) (of_nat n0) :: 32 word"
  let ?w1 = "or (push_bit 6 ?w0) (of_nat n1) :: 32 word"
  have w0: "unat ?w0 = n0" using word_step [of 0 0 n0] assms(1) by simp
  have w1: "unat ?w1 = 64 * n0 + n1" using word_step [OF w0 _ assms(2)] assms(1) by simp
  show "lenient_loop 0 0 [url_digit n0, url_digit n1] = [char_of ((64 * n0 + n1) div 16 mod 256)]"
    using assms w1 by (simp add: loop_digit lenient_tail_def low_byte_eq drop_bit_unat)
  let ?w2 = "\<lambda>n2. or (push_bit 6 ?w1) (of_nat n2) :: 32 word"
  have w2: "unat (?w2 n2) = 64 * (64 * n0 + n1) + n2" if "n2 < 64" for n2
    using word_step [OF w1 _ that] assms by simp
  show "lenient_loop 0 0 [url_digit n0, url_digit n1, url_digit n2] =
      [char_of ((64 * (64 * n0 + n1) + n2) div 1024 mod 256), char_of ((64 * (64 * n0 + n1) + n2) div 4 mod 256)]" if "n2 < 64"
    using assms that w2 [OF that] by (simp add: loop_digit lenient_tail_def low_byte_eq drop_bit_unat)
  let ?w3 = "or (push_bit 6 (?w2 n2)) (of_nat n3) :: 32 word"
  show "lenient_loop 0 0 (url_digit n0 # url_digit n1 # url_digit n2 # url_digit n3 # cs) =
      (let a = 64 * (64 * (64 * n0 + n1) + n2) + n3 in
       [char_of (a div 65536 mod 256), char_of (a div 256 mod 256), char_of (a mod 256)] @ lenient_loop 0 0 cs)"
    if "n2 < 64" "n3 < 64"
  proof -
    have "unat ?w3 = 64 * (64 * (64 * n0 + n1) + n2) + n3" using word_step [OF w2 [OF that(1)] _ that(2)] assms that(1) by simp
    then show ?thesis using assms that by (simp add: loop_digit low_byte_eq drop_bit_unat Let_def)
  qed
qed

lemma byte_parts: "byte a div 4 < 64" "byte a div 16 < 16" "byte a div 64 < 4" "byte a mod 4 < 4" "byte a mod 16 < 16" "byte a mod 64 < 64"
  using byte_less [of a] by (simp_all add: div_less_iff_less_mult)

lemma join_bytes:
  fixes a b c :: nat
  assumes "a < 256" and "b < 256" and "c < 256"
  shows "64 * (a div 4) + (a mod 4 * 16 + b div 16) = 16 * a + b div 16"
    and "64 * (16 * a + b div 16) + (b mod 16 * 4 + c div 64) = 4 * (256 * a + b) + c div 64"
    and "64 * (4 * (256 * a + b) + c div 64) + c mod 64 = 256 * (256 * a + b) + c"
  by presburger+

lemma split_bytes:
  fixes a b c :: nat
  assumes "a < 256" and "b < 256" and "c < 256"
  shows "4 * (256 * a + b) div 1024 mod 256 = a" and "4 * (256 * a + b) div 4 mod 256 = b"
    and "(256 * (256 * a + b) + c) div 65536 mod 256 = a" and "(256 * (256 * a + b) + c) div 256 mod 256 = b"
    and "(256 * (256 * a + b) + c) mod 256 = c"
proof -
  have "(4 * b + a * 1024) div 1024 = a" using assms(2) by simp
  then show "4 * (256 * a + b) div 1024 mod 256 = a" using assms(1) by (simp add: algebra_simps)
  have "(b + a * 256) mod 256 = b" using assms(2) by simp
  then show "4 * (256 * a + b) div 4 mod 256 = b" by (simp add: algebra_simps)
  have "((256 * b + c) + a * 65536) div 65536 = a" using assms(2,3) by simp
  then show "(256 * (256 * a + b) + c) div 65536 mod 256 = a" using assms(1) by (simp add: algebra_simps)
  have "(c + (256 * a + b) * 256) div 256 = 256 * a + b" using assms(3) by simp
  then show "(256 * (256 * a + b) + c) div 256 mod 256 = b" using assms(2) by (simp add: algebra_simps)
  have "(c + (256 * a + b) * 256) mod 256 = c" using assms(3) by (simp only: mod_mult_self1 mod_less)
  then show "(256 * (256 * a + b) + c) mod 256 = c" by (simp add: algebra_simps)
qed

lemma lenient_inverse: "lenient_loop 0 0 (rfc4648_url s) = s"
proof (induction s rule: rfc4648_url.induct)
  case (2 a)
  have "64 * (byte a div 4) + byte a mod 4 * 16 = 16 * byte a" by presburger
  then show ?case using loop_group(1) [of "byte a div 4" "byte a mod 4 * 16"] byte_parts [of a] byte_less [of a] by (simp add: char_of_byte)
next
  case (3 a b)
  have n: "byte a div 4 < 64" "byte a mod 4 * 16 + byte b div 16 < 64" "byte b mod 16 * 4 < 64"
    using byte_parts [of a] byte_parts [of b] by linarith+
  have eq: "64 * (16 * byte a + byte b div 16) + byte b mod 16 * 4 = 4 * (256 * byte a + byte b)" by presburger
  have quot: "4 * (256 * byte a + byte b) div 1024 mod 256 = byte a" "4 * (256 * byte a + byte b) div 4 mod 256 = byte b"
    by (rule split_bytes; rule byte_less)+
  show ?case
    unfolding rfc4648_url.simps loop_group(2) [OF n] join_bytes(1) [OF byte_less byte_less byte_less] eq quot char_of_byte ..
next
  case (4 a b c s)
  have n: "byte a div 4 < 64" "byte a mod 4 * 16 + byte b div 16 < 64" "byte b mod 16 * 4 + byte c div 64 < 64" "byte c mod 64 < 64"
    using byte_parts [of a] byte_parts [of b] byte_parts [of c] by linarith+
  note quot = split_bytes [of "byte a" "byte b" "byte c", OF byte_less byte_less byte_less]
  show ?case
    unfolding rfc4648_url.simps append.simps loop_group(3) [OF n] join_bytes [OF byte_less byte_less byte_less] Let_def quot
    by (simp add: char_of_byte "4.IH")
qed (simp add: lenient_tail_def)

lemma lenient_round_trip: "lenient_base64_decode (rfc4648_url s) = s"
  by (simp add: lenient_base64_decode_def lenient_inverse)

lemma code_chars: "list_all code_char (rfc4648_url s)"
proof (induction s rule: rfc4648_url.induct)
  case (3 a b)
  have "byte a div 4 < 64" "byte a mod 4 * 16 + byte b div 16 < 64" "byte b mod 16 * 4 < 64"
    using byte_parts [of a] byte_parts [of b] by linarith+
  from this [THEN url_digit_code(3)] show ?case by simp
next
  case (4 a b c s)
  have "byte a div 4 < 64" "byte a mod 4 * 16 + byte b div 16 < 64" "byte b mod 16 * 4 + byte c div 64 < 64" "byte c mod 64 < 64"
    using byte_parts [of a] byte_parts [of b] byte_parts [of c] by linarith+
  from this [THEN url_digit_code(3)] show ?case using "4.IH" by simp
qed (simp_all add: url_digit_code byte_parts less_mult_imp_div_less byte_less)

lemma rfc4648_nonempty: "s \<noteq> [] \<Longrightarrow> rfc4648_url s \<noteq> []"
  by (cases s rule: rfc4648_url.cases) simp_all

subsection \<open>Trimming\<close>

lemma utf8_lossy_valid: "utf8_valid s \<Longrightarrow> utf8_lossy s = s"
  by (induction s rule: utf8_valid.induct) (simp_all add: append_take_drop_id)

text \<open>The parts of a string: all complete but perhaps the last.\<close>

definition complete_part :: "string \<Rightarrow> bool" where
  "complete_part p \<longleftrightarrow> p \<noteq> [] \<and> length p = char_len (hd p)"

fun parts_ok :: "string list \<Rightarrow> bool" where
  "parts_ok [] = True"
| "parts_ok [p] = (p \<noteq> [] \<and> length p \<le> char_len (hd p))"
| "parts_ok (p # q # ps) = (complete_part p \<and> parts_ok (q # ps))"

lemma char_len_pos: "0 < char_len c"
  by (simp add: char_len_def)

lemma parts_ok_tl: "parts_ok (p # ps) \<Longrightarrow> parts_ok ps"
  by (cases ps) simp_all

lemma parts_ok_char_parts: "parts_ok (char_parts s)"
proof (induction s rule: char_parts.induct)
  case (2 a s)
  show ?case
  proof (cases "drop (char_len a - 1) s")
    case Nil
    then show ?thesis using char_len_pos [of a] by simp
  next
    case (Cons b t)
    then have "char_len a - 1 < length s" by (metis drop_eq_Nil linorder_not_less list.distinct(1))
    then have "complete_part (a # take (char_len a - 1) s)" using char_len_pos [of a] by (simp add: complete_part_def)
    then show ?thesis using 2 Cons by simp
  qed
qed simp

lemma char_parts_concat: "parts_ok ps \<Longrightarrow> char_parts (concat ps) = ps"
proof (induction ps rule: parts_ok.induct)
  case (2 p)
  then obtain a t where "p = a # t" by (cases p) simp_all
  then show ?case using 2 by simp
next
  case (3 p q ps)
  then obtain a t where p: "p = a # t" "length t = char_len a - 1" by (cases p) (auto simp: complete_part_def)
  then show ?case using 3 by simp
qed simp

lemma parts_ok_prefix: "parts_ok (ps @ qs) \<Longrightarrow> parts_ok ps"
  by (induction ps rule: parts_ok.induct) (auto simp: complete_part_def neq_Nil_conv elim: parts_ok.elims)

lemma parts_ok_suffix: "parts_ok (ps @ qs) \<Longrightarrow> parts_ok qs"
  by (induction ps) (auto dest: parts_ok_tl)

lemma trim_matches_idem: "trim_matches P (trim_matches P s) = trim_matches P s"
proof -
  let ?B = "\<lambda>p. P (decode_char p)"
  let ?ps = "char_parts s"
  let ?ds = "dropWhile ?B ?ps"
  let ?ms = "rev (dropWhile ?B (rev ?ds))"
  have "parts_ok ?ds" using parts_ok_char_parts [of s] parts_ok_suffix [of "takeWhile ?B ?ps" ?ds] by simp
  moreover obtain es where es: "?ds = ?ms @ es"
    using takeWhile_dropWhile_id [of ?B "rev ?ds"] by (metis rev_append rev_rev_ident)
  ultimately have ok: "parts_ok ?ms" using parts_ok_prefix by metis
  have left: "dropWhile ?B ?ms = ?ms"
  proof (cases "?ms")
    case (Cons m ms)
    have "?ds = m # ms @ es" using es unfolding Cons by (simp only: append_Cons)
    moreover from this have "?ds \<noteq> []" by simp
    ultimately have "\<not> ?B m" using hd_dropWhile [of ?B ?ps] by (metis list.sel(1))
    then show ?thesis unfolding Cons by simp
  next
    case Nil
    show ?thesis unfolding Nil by (rule dropWhile.simps(1))
  qed
  have right: "dropWhile ?B (rev ?ms) = rev ?ms" by simp
  show ?thesis
    unfolding trim_matches_def Let_def char_parts_concat [OF ok] left right by simp
qed

lemma js_trim_idem: "js_trim (js_trim s) = js_trim s"
  by (simp add: js_trim_def trim_matches_idem)

lemma field_trim_trimmed: "js_trim s \<noteq> [] \<Longrightarrow> field_trim ft (Some (JString (js_trim s))) = js_trim s"
  by (simp add: field_trim_def js_trim_idem)

subsection \<open>Enrollment codes\<close>

text \<open>An enrollment code gives back what it was made of: parsing the code that \<open>create_enrollment\<close> returned
  yields the normalised URL, the machine and the token it was called with, trimmed.\<close>

theorem enrollment_round_trip:
  fixes env url machine token clean
  defines "payload \<equiv> JObject [(''v'', json_of_i64 1), (''serverUrl'', JString clean), (''machine'', JString (js_trim machine)),
      (''token'', JString (js_trim token))]"
  assumes "te_base64 env = rfc4648_url" and "ft_round (te_ft env) 1 = 1" and "text_ok (te_jt env) payload"
    and "valid_url env url = Inr clean" and "valid_url env clean = Inr clean"
    and "create_enrollment env url machine token = Inr code" and "length code \<le> 16384"
  shows "parse_enrollment env code = Inr \<lparr>en_server_url = clean, en_machine = js_trim machine, en_token = js_trim token\<rparr>"
proof -
  have parts: "js_trim machine \<noteq> []" "js_trim token \<noteq> []" "code = rfc4648_url (jt_str (te_jt env) payload)"
    using assms(7,5,2) by (auto simp: create_enrollment_def Let_def payload_def split: if_splits)
  have json: "jt_parse (te_jt env) (jt_str (te_jt env) payload) = Some payload" "utf8_valid (jt_str (te_jt env) payload)"
      "jt_str (te_jt env) payload \<noteq> []"
    using assms(4) by (simp_all add: text_ok_def)
  have "utf8_lossy (lenient_base64_decode code) = jt_str (te_jt env) payload"
    by (simp add: parts(3) lenient_round_trip utf8_lossy_valid json)
  moreover have "list_all code_char code" "code \<noteq> []" using code_chars rfc4648_nonempty [OF json(3)] by (simp_all add: parts(3))
  moreover have "json_of_i64 1 = JNum (PosInt 1)" by (simp add: json_of_i64_def)
  ultimately show ?thesis
    using assms(3,6,8) json(1) parts(1,2)
    by (simp add: parse_enrollment_def payload_def field_trim_trimmed)
qed


definition demo_payload :: "string \<Rightarrow> json" where
  "demo_payload url = JObject [(''v'', json_of_i64 1), (''serverUrl'', JString url), (''machine'', JString ''box''), (''token'', JString ''tok'')]"

definition demo_te :: "string \<Rightarrow> token_env" where
  "demo_te url =
     \<lparr>te_io = quiet_env, te_ft = demo_f64, te_jt = \<lparr>jt_str = (\<lambda>_. ''{}''), jt_parse = (\<lambda>_. Some (demo_payload url))\<rparr>,
      te_pretty = (\<lambda>_. ''new''), te_read_error = [], te_parse_error = [], te_io_text = (\<lambda>_. []),
      te_url = (\<lambda>u. Some (''http'', if last u = CHR ''/'' then u else u @ ''/'')), te_base64 = rfc4648_url\<rparr>"

lemma trim_examples: "js_trim ''box'' = ''box''" "js_trim ''tok'' = ''tok''"
  by (simp_all add: js_trim_def trim_matches_def char_len_def byte_def is_js_whitespace_def is_whitespace_def Let_def)

lemma demo_code_created:
  "create_enrollment (demo_te url) u ''box'' ''tok'' =
    (case valid_url (demo_te url) u of Inl e \<Rightarrow> Inl e | Inr _ \<Rightarrow> Inr (rfc4648_url ''{}''))"
  by (simp add: create_enrollment_def Let_def trim_examples demo_te_def split: sum.split)

lemma demo_tokens_text_ok: "text_ok (te_jt (demo_te url)) (demo_payload url)"
  by (simp add: text_ok_def demo_te_def utf8_chunk_def lead_ranges_def byte_def)

lemma length_rfc4648: "length (rfc4648_url ''{}'') \<le> 16384"
  by simp

theorem enrollment_round_trip_witness:
  "create_enrollment (demo_te ''http://h'') ''http://h'' ''box'' ''tok'' = Inr (rfc4648_url ''{}'')
    \<and> parse_enrollment (demo_te ''http://h'') (rfc4648_url ''{}'')
      = Inr \<lparr>en_server_url = ''http://h'', en_machine = ''box'', en_token = ''tok''\<rparr>"
proof -
  have url: "valid_url (demo_te ''http://h'') ''http://h'' = Inr ''http://h''"
    by (simp add: valid_url_def demo_te_def strip_suffix_char_def)
  have code: "create_enrollment (demo_te ''http://h'') ''http://h'' ''box'' ''tok'' = Inr (rfc4648_url ''{}'')"
    unfolding demo_code_created url by simp
  have "te_base64 (demo_te ''http://h'') = rfc4648_url" "ft_round (te_ft (demo_te ''http://h'')) 1 = 1"
    by (simp_all add: demo_te_def demo_f64_def)
  from enrollment_round_trip [OF this _ url url code length_rfc4648] show ?thesis
    unfolding trim_examples using demo_tokens_text_ok [of "''http://h''"] code by (simp add: demo_payload_def)
qed

text \<open>A URL that ends in two slashes does not survive: \<open>valid_url\<close> strips one slash when the code is made and
  another one when it is parsed.\<close>

theorem enrollment_url_loses_slash:
  "create_enrollment (demo_te ''http://h/x/'') ''http://h/x//'' ''box'' ''tok'' = Inr (rfc4648_url ''{}'')
    \<and> valid_url (demo_te ''http://h/x/'') ''http://h/x//'' = Inr ''http://h/x/''
    \<and> map_sum id en_server_url (parse_enrollment (demo_te ''http://h/x/'') (rfc4648_url ''{}'')) = Inr ''http://h/x''"
proof -
  have url: "valid_url (demo_te ''http://h/x/'') ''http://h/x//'' = Inr ''http://h/x/''"
    "valid_url (demo_te ''http://h/x/'') ''http://h/x/'' = Inr ''http://h/x''"
    by (simp_all add: valid_url_def demo_te_def strip_suffix_char_def)
  have "utf8_lossy (lenient_base64_decode (rfc4648_url ''{}'')) = ''{}''"
    unfolding lenient_round_trip by (rule utf8_lossy_valid) (simp add: utf8_chunk_def lead_ranges_def byte_def)
  moreover have "te_jt (demo_te ''http://h/x/'') = \<lparr>jt_str = (\<lambda>_. ''{}''), jt_parse = (\<lambda>_. Some (demo_payload ''http://h/x/''))\<rparr>"
    "ft_round (te_ft (demo_te ''http://h/x/'')) 1 = 1"
    by (simp_all add: demo_te_def demo_f64_def)
  moreover have "json_of_i64 1 = JNum (PosInt 1)" by (simp add: json_of_i64_def)
  ultimately have "map_sum id en_server_url (parse_enrollment (demo_te ''http://h/x/'') (rfc4648_url ''{}'')) = Inr ''http://h/x''"
    using code_chars [of "''{}''"] rfc4648_nonempty [of "''{}''"] length_rfc4648
    unfolding parse_enrollment_def demo_payload_def by (simp add: url(2) del: rfc4648_url.simps)
  then show ?thesis unfolding demo_code_created url by simp
qed


subsection \<open>A new token at the server\<close>

definition tokens_of :: "(string \<times> json) list \<Rightarrow> (string \<times> json) list" where
  "tokens_of server = object_or_empty (map_of server ''tokens'')"

lemma with_tokens_map:
  "map_of (with_tokens server) k =
     (if k = ''tokens'' \<and> (map_of server k = None \<or> map_of server k = Some JNull) then Some (JObject []) else map_of server k)"
  by (auto simp: with_tokens_def map_of_json_insert split: option.split json.split)

lemma written_file:
  assumes "fst (write_raw_config env path v w) = Inr ()"
  shows "wd_files (snd (write_raw_config env path v w)) path = Some \<lparr>fl_bytes = te_pretty env v @ [newline], fl_mode = 0x180\<rparr>"
proof -
  let ?content = "te_pretty env v @ [newline]"
  obtain r w1 where aw: "atomic_write (te_io env) path ?content 0x180 w = (r, w1)" by fastforce
  have r: "r = Inr ()" and w1: "snd (write_raw_config env path v w) = w1"
    using assms aw unfolding write_raw_config_def atomic_write_0600_def by (cases r; simp)+
  have "since (wd_trace w) (old_or_new (te_io env) path ?content 0x180 (wd_files w)) (\<lambda>fs. fs = wd_files w) w" by (simp add: since_def)
  then have "wd_files w1 = with_new (te_io env) path (wd_files w) ?content 0x180"
    using triple_atomic_write [of "wd_trace w" "te_io env" path ?content "0x180" "wd_files w"] aw r
    unfolding triple_def since_def by fastforce
  then show ?thesis by (simp add: w1 with_new_def)
qed

lemma written_config:
  assumes "create_machine_token env buf path machine token force w = (Inr (m, secret), w')"
  shows "\<exists>loaded. read_server_config env (wd_files w) path = Inr loaded \<and> secret \<noteq> []
      \<and> (\<forall>(k, v) \<in> set (lc_tokens loaded). k \<noteq> m \<longrightarrow> v \<noteq> JString secret)
      \<and> wd_files w' path = Some \<lparr>fl_bytes = te_pretty env (lc_config (map_tokens (json_insert m (JString secret)) loaded)) @ [newline],
                                 fl_mode = 0x180\<rparr>"
proof -
  obtain nm where nm: "machine_name machine = Inr nm"
    using assms by (cases "machine_name machine") (simp_all add: create_machine_token_def)
  obtain loaded where loaded: "read_server_config env (wd_files w) path = Inr loaded"
    using assms nm by (cases "read_server_config env (wd_files w) path") (simp_all add: create_machine_token_def)
  define sec where "sec = (case token of None \<Rightarrow> generate_token env buf | Some s \<Rightarrow> js_trim s)"
  have ok: "sec \<noteq> []" "\<not> list_ex (\<lambda>(other, value). other \<noteq> nm \<and> value = JString sec) (lc_tokens loaded)"
    and wr: "map_sum id (\<lambda>_. (nm, sec)) (fst (write_raw_config env path (lc_config (map_tokens (json_insert nm (JString sec)) loaded)) w))
        = Inr (m, secret)"
      "snd (write_raw_config env path (lc_config (map_tokens (json_insert nm (JString sec)) loaded)) w) = w'"
    using assms unfolding create_machine_token_def nm loaded Let_def sec_def [symmetric] sum.case
    by (auto split: if_splits prod.splits)
  have eq: "nm = m" "sec = secret" using wr(1) by (auto simp: map_sum_def split: sum.splits)
  have "fst (write_raw_config env path (lc_config (map_tokens (json_insert nm (JString sec)) loaded)) w) = Inr ()"
    using wr(1) by (cases "fst (write_raw_config env path (lc_config (map_tokens (json_insert nm (JString sec)) loaded)) w)") simp_all
  from written_file [OF this] have "wd_files w' path = Some \<lparr>fl_bytes = te_pretty env (lc_config (map_tokens (json_insert nm (JString sec)) loaded)) @ [newline], fl_mode = 0x180\<rparr>"
    by (simp add: wr(2))
  then show ?thesis using loaded ok by (intro exI [of _ loaded]) (auto simp: eq list_ex_iff)
qed


text \<open>The server section and the configuration after a change \<open>f\<close> of the tokens.\<close>

definition token_server ::
  "((string \<times> json) list \<Rightarrow> (string \<times> json) list) \<Rightarrow> (string \<times> json) list \<Rightarrow> (string \<times> json) list" where
  "token_server f server =
     map (\<lambda>(k, v). (k, if k = ''tokens'' then JObject (f (object_or_empty (Some v))) else v)) (with_tokens server)"

definition token_config ::
  "((string \<times> json) list \<Rightarrow> (string \<times> json) list) \<Rightarrow> (string \<times> json) list \<Rightarrow> (string \<times> json) list \<Rightarrow> (string \<times> json) list" where
  "token_config f cfg server = map (\<lambda>(k, v). (k, if k = ''server'' then JObject (token_server f server) else v)) cfg"

lemma object_or_empty_simps: "object_or_empty None = []" "object_or_empty (Some (JObject m)) = m" "object_or_empty (Some JNull) = []"
  by (simp_all add: object_or_empty_def)

lemma keys_update: "map fst (map (\<lambda>(k, v). (k, f k v)) m) = map fst m"
  by (induction m) auto

lemma loaded_server:
  assumes "Option.bind (read_to_string fs path) (jt_parse (te_jt env)) = Some (JObject cfg)"
    and "map_of cfg ''server'' = Some (JObject server)" and "read_server_config env fs path = Inr loaded"
  shows "lc_phantom loaded = None" and "lc_tokens loaded = tokens_of server"
    and "lc_config (map_tokens f loaded) = JObject (token_config f cfg server)"
    and "\<exists>t. map_of (with_tokens server) ''tokens'' = Some (JObject t) \<and> t = tokens_of server"
proof -
  obtain content where c: "read_to_string fs path = Some content" "jt_parse (te_jt env) content = Some (JObject cfg)"
    using assms(1) by (auto simp: Option.bind_eq_Some_conv)
  have loaded: "(\<exists>t. map_of (with_tokens server) ''tokens'' = Some (JObject t))
      \<and> loaded = \<lparr>lc_config = update_member ''server'' (\<lambda>_. JObject (with_tokens server)) (JObject cfg), lc_phantom = None\<rparr>"
    using assms(2,3) c by (auto simp: read_server_config_def split: option.splits json.splits)
  then obtain t where t: "map_of (with_tokens server) ''tokens'' = Some (JObject t)" by blast
  have tokens: "t = tokens_of server"
    using t by (auto simp: tokens_of_def with_tokens_map object_or_empty_simps split: if_splits)
  show "lc_phantom loaded = None" using loaded by simp
  show "lc_tokens loaded = tokens_of server"
    using loaded t tokens assms(2) by (simp add: lc_tokens_def get_update_member object_or_empty_simps)
  show "\<exists>t. map_of (with_tokens server) ''tokens'' = Some (JObject t) \<and> t = tokens_of server" using t tokens by blast
  show "lc_config (map_tokens f loaded) = JObject (token_config f cfg server)"
    using loaded by (simp add: map_tokens_def update_member_def token_config_def token_server_def comp_def case_prod_beta)
qed

lemma merge_into_nothing:
  assumes "distinct (map fst (acc @ m))"
  shows "foldl (\<lambda>out kv. json_insert (fst kv) (merge_value (map_of out (fst kv)) (snd kv)) out) acc m = acc @ m"
  using assms
proof (induction m arbitrary: acc)
  case (Cons kv m)
  have new: "fst kv \<notin> set (map fst acc)" using Cons.prems by auto
  then have "map_of acc (fst kv) = None" by (simp add: map_of_eq_None_iff)
  moreover have "json_insert (fst kv) v acc = acc @ [(fst kv, v)]" for v
    using new by (induction acc) (auto simp: json_insert_Cons, simp add: json_insert_def)
  ultimately have "json_insert (fst kv) (merge_value (map_of acc (fst kv)) (snd kv)) acc = acc @ [kv]"
    by (simp add: merge_value_def)
  then show ?case using Cons.IH [of "acc @ [kv]"] Cons.prems by simp
qed simp

lemma merge_tokens: "distinct (map fst t) \<Longrightarrow> merge_value (Some (JObject [])) (JObject t) = JObject t"
  using merge_into_nothing [of "[]" t] by (simp add: merge_value_def object_is deep_merge_eq)

definition server_defaults :: "string \<Rightarrow> (string \<times> json) list" where
  "server_defaults db =
     [(''port'', json_of_i64 4040), (''host'', JString ''0.0.0.0''), (''db'', JString db), (''token'', JString []), (''tokens'', JObject [])]"

lemma defaults_have_server: "\<exists>b. defaults_with db host = JObject b \<and> map_of b ''server'' = Some (JObject (server_defaults db))"
  by (simp add: defaults_with_def server_defaults_def)

lemma get_update_member_other: "k \<noteq> a \<Longrightarrow> json_get (update_member a f v) k = json_get v k"
  by (simp add: get_update_member option.map_ident)

text \<open>The server section of the loaded configuration: the section of the file over the defaults.\<close>

lemma raw_section:
  assumes "distinct (map fst u)" and "map_of u ''server'' = Some (JObject server')" and "distinct (map fst server')"
    and "load_config_with srv vars home host fs path = Inr cfg'" and "fs path \<noteq> None"
    and "Option.bind (read_to_string fs path) (jt_parse (sv_jt srv)) = Some (JObject u)"
  shows "\<exists>sec db. json_get (cf_raw cfg') ''server'' = Some sec \<and> (\<forall>k. k \<noteq> ''db'' \<longrightarrow>
    json_get sec k = (case map_of server' k of None \<Rightarrow> map_of (server_defaults db) k
                      | Some v \<Rightarrow> Some (merge_value (map_of (server_defaults db) k) v)))"
proof -
  let ?db = "sp_db_path (resolve_storage_paths (vars(''STACKHOUR_CONFIG'' := Some path)) home)"
  obtain content where c: "read_to_string fs path = Some content" "jt_parse (sv_jt srv) content = Some (JObject u)"
    using assms(6) by (auto simp: Option.bind_eq_Some_conv)
  obtain f where f: "fs path = Some f" using assms(5) by blast
  obtain b where b: "defaults_with ?db host = JObject b" "map_of b ''server'' = Some (JObject (server_defaults ?db))"
    using defaults_have_server by blast
  let ?merged = "deep_merge (JObject b) (JObject u)"
  have raw: "cf_raw cfg' = update_member ''agent'' (normalize_agent srv home)
      (update_member ''server'' (update_member ''db'' (expand_string home)) ?merged)"
    using assms(4) f c b(1) by (auto simp: load_config_with_def Let_def)
  have sec: "json_get ?merged ''server'' = Some (deep_merge (JObject (server_defaults ?db)) (JObject server'))"
    using json_get_merge [OF assms(1)] assms(2) b(2) by (simp add: merge_value_def object_is)
  have member: "json_get (deep_merge (JObject (server_defaults ?db)) (JObject server')) k
      = (case map_of server' k of None \<Rightarrow> map_of (server_defaults ?db) k | Some v \<Rightarrow> Some (merge_value (map_of (server_defaults ?db) k) v))" for k
    by (rule json_get_merge [OF assms(3)])
  show ?thesis
    unfolding raw
    by (intro exI [of _ ?db] exI conjI allI impI)
      (simp add: get_update_member sec, subst get_update_member_other, simp_all only: member not_False_eq_True)
qed

lemma raw_server:
  assumes "distinct (map fst u)" and "map_of u ''server'' = Some (JObject server')" and "distinct (map fst server')"
    and "map_of server' ''tokens'' = Some (JObject t)" and "distinct (map fst t)"
    and "load_config_with srv vars home host fs path = Inr cfg'" and "fs path \<noteq> None"
    and "Option.bind (read_to_string fs path) (jt_parse (sv_jt srv)) = Some (JObject u)"
  shows "\<exists>sec. json_get (cf_raw cfg') ''server'' = Some sec \<and> json_get sec ''tokens'' = Some (JObject t)
    \<and> json_get sec ''token'' = Some (case map_of server' ''token'' of None \<Rightarrow> JString [] | Some v \<Rightarrow> v)"
proof -
  obtain sec db where sec: "json_get (cf_raw cfg') ''server'' = Some sec" and member: "k \<noteq> ''db'' \<Longrightarrow> json_get sec k =
      (case map_of server' k of None \<Rightarrow> map_of (server_defaults db) k
       | Some v \<Rightarrow> Some (merge_value (map_of (server_defaults db) k) v))" for k
    using raw_section [OF assms(1-3,6-8)] by blast
  have "json_get sec ''tokens'' = Some (JObject t)"
    using member [of "''tokens''"] assms(4) merge_tokens [OF assms(5)] by (simp add: server_defaults_def)
  moreover have "json_get sec ''token'' = Some (case map_of server' ''token'' of None \<Rightarrow> JString [] | Some v \<Rightarrow> v)"
    using member [of "''token''"] by (simp add: server_defaults_def merge_value_def split: option.split)
  ultimately show ?thesis using sec by blast
qed

text \<open>The file before the change may have no tokens at all.\<close>

lemma raw_server_before:
  assumes "distinct (map fst u)" and "map_of u ''server'' = Some (JObject server')" and "distinct (map fst server')"
    and "map_of (with_tokens server') ''tokens'' = Some (JObject (tokens_of server'))" and "distinct (map fst (tokens_of server'))"
    and "load_config_with srv vars home host fs path = Inr cfg'" and "fs path \<noteq> None"
    and "Option.bind (read_to_string fs path) (jt_parse (sv_jt srv)) = Some (JObject u)"
  shows "\<exists>sec. json_get (cf_raw cfg') ''server'' = Some sec \<and> token_map sec = tokens_of server'
    \<and> json_get sec ''token'' = Some (case map_of server' ''token'' of None \<Rightarrow> JString [] | Some v \<Rightarrow> v)"
proof -
  obtain sec db where sec: "json_get (cf_raw cfg') ''server'' = Some sec" and member: "k \<noteq> ''db'' \<Longrightarrow> json_get sec k =
      (case map_of server' k of None \<Rightarrow> map_of (server_defaults db) k
       | Some v \<Rightarrow> Some (merge_value (map_of (server_defaults db) k) v))" for k
    using raw_section [OF assms(1-3,6-8)] by blast
  consider "map_of server' ''tokens'' = None" | "map_of server' ''tokens'' = Some JNull"
    | "map_of server' ''tokens'' = Some (JObject (tokens_of server'))"
    using assms(4) by (auto simp: with_tokens_map split: if_splits)
  then have "token_map sec = tokens_of server'"
  proof cases
    case 1
    then have "json_get sec ''tokens'' = Some (JObject [])" using member [of "''tokens''"] by (simp add: server_defaults_def)
    then show ?thesis using 1 by (simp add: token_map_def tokens_of_def object_or_empty_def)
  next
    case 2
    then have "json_get sec ''tokens'' = Some JNull"
      using member [of "''tokens''"] by (simp add: server_defaults_def merge_value_def is_object_def)
    then show ?thesis using 2 by (simp add: token_map_def tokens_of_def object_or_empty_def)
  next
    case 3
    then have "json_get sec ''tokens'' = Some (JObject (tokens_of server'))"
      using member [of "''tokens''"] merge_tokens [OF assms(5)] by (simp add: server_defaults_def)
    then show ?thesis by (simp add: token_map_def)
  qed
  moreover have "json_get sec ''token'' = Some (case map_of server' ''token'' of None \<Rightarrow> JString [] | Some v \<Rightarrow> v)"
    using member [of "''token''"] by (simp add: server_defaults_def merge_value_def split: option.split)
  ultimately show ?thesis using sec by blast
qed

lemma match_unchanged:
  assumes "ct_eq_ok env" and "t \<noteq> secret" and "\<And>v. map_of ts m = Some v \<Longrightarrow> truthy_string (sv_ft env) (Some v) \<noteq> Some t"
  shows "match_machine env t (json_insert m (JString secret) ts) = match_machine env t ts"
proof -
  have new: "truthy_string (sv_ft env) (Some (JString secret)) \<noteq> Some t"
    using assms(2) by (simp add: truthy_string_def)
  have "match_machine env t (json_insert m (JString secret) ts) = match_machine env t ts"
    if "\<And>v. map_of ts m = Some v \<Longrightarrow> truthy_string (sv_ft env) (Some v) \<noteq> Some t" for ts
    using that
  proof (induction ts)
    case Nil
    show ?case using new safe_equal_iff [OF assms(1)] by (auto simp: json_insert_def split: option.splits)
  next
    case (Cons kv ts)
    obtain k v where kv: "kv = (k, v)" by (cases kv)
    show ?case
      using Cons.IH Cons.prems new safe_equal_iff [OF assms(1)]
      by (cases "k = m") (auto simp: kv json_insert_Cons split: option.splits)
  qed
  from this [of ts] show ?thesis using assms(3) by blast
qed

lemma match_found:
  assumes "ct_eq_ok env" and "secret \<noteq> []" and "distinct (map fst ts)" and "(m, JString secret) \<in> set ts"
    and "\<forall>(k, v) \<in> set ts. k \<noteq> m \<longrightarrow> truthy_string (sv_ft env) (Some v) \<noteq> Some secret"
  shows "match_machine env secret ts = Some (Machine m)"
  using assms(3-5)
proof (induction ts)
  case (Cons kv ts)
  obtain k v where kv: "kv = (k, v)" by (cases kv)
  have own: "truthy_string (sv_ft env) (Some (JString secret)) = Some secret"
    using assms(2) by (simp add: truthy_string_def is_truthy_def)
  show ?case
  proof (cases "k = m")
    case True
    then have "v = JString secret" using Cons.prems(1,2) kv by (auto simp: image_iff)
    then show ?thesis using own True safe_equal_iff [OF assms(1)] kv by simp
  next
    case False
    then have "truthy_string (sv_ft env) (Some v) \<noteq> Some secret" "(m, JString secret) \<in> set ts" using Cons.prems kv by auto
    then show ?thesis
      using Cons kv safe_equal_iff [OF assms(1)] by (auto split: option.split)
  qed
qed simp


lemma token_server_members:
  assumes "\<exists>t. map_of (with_tokens server) ''tokens'' = Some (JObject t) \<and> t = tokens_of server"
  shows "map_of (token_server f server) ''tokens'' = Some (JObject (f (tokens_of server)))"
    and "map_of (token_server f server) ''token'' = map_of server ''token''"
    and "distinct (map fst server) \<Longrightarrow> distinct (map fst (token_server f server))"
proof -
  have get: "map_of (token_server f server) k = map_option (if k = ''tokens'' then (\<lambda>v. JObject (f (object_or_empty (Some v)))) else (\<lambda>v. v)) (map_of (with_tokens server) k)" for k
    unfolding token_server_def
    using map_of_update [of "''tokens''" "\<lambda>v. JObject (f (object_or_empty (Some v)))" "with_tokens server" k]
    by simp
  show "map_of (token_server f server) ''tokens'' = Some (JObject (f (tokens_of server)))"
    using assms by (auto simp: get object_or_empty_simps)
  show "map_of (token_server f server) ''token'' = map_of server ''token''"
    by (simp add: get with_tokens_map option.map_ident)
  show "distinct (map fst (token_server f server))" if "distinct (map fst server)"
    unfolding token_server_def keys_update with_tokens_def
    using that distinct_json_insert by (simp split: option.split json.split)
qed

lemma load_succeeds:
  assumes "Option.bind (read_to_string fs path) (jt_parse (sv_jt srv)) = Some user"
  shows "\<exists>cfg'. load_config_with srv vars home host fs path = Inr cfg'"
  using assms by (cases "fs path = None") (auto simp: load_config_with_def Let_def Option.bind_eq_Some_conv)

text \<open>C9: A token that \<open>create_machine_token\<close> reported to have written works: a server that loads the rewritten
  configuration file admits every request carrying it as its machine and as nothing else. For every request with
  another token (but the one the machine had before) nothing changes, the tokens of the other machines
  and the global one included; except that a server that was open admits such a request no more. Assumed: the file is
  an object with a server section and no key twice, its tokens are texts, the rewritten file parses back to
  what was written, tokens are compared exactly, and the secret is not the global token, which
  \<open>create_machine_token\<close> does not check.\<close>

theorem new_token_admits_its_machine:
  fixes env m secret cfg server
  defines "written \<equiv> JObject (token_config (json_insert m (JString secret)) cfg server)"
  assumes created: "create_machine_token env buf path machine token force w = (Inr (m, secret), w')"
    and conf: "Option.bind (read_to_string (wd_files w) path) (jt_parse (te_jt env)) = Some (JObject cfg)"
    and server: "map_of cfg ''server'' = Some (JObject server)" and keys: "distinct_keys (JObject cfg)"
    and strings: "\<forall>(k, v) \<in> set (tokens_of server). \<exists>s. v = JString s"
    and legacy: "truthy_string (sv_ft srv) (map_of server ''token'') \<noteq> Some secret"
    and pretty: "jt_parse (te_jt env) (te_pretty env written @ [newline]) = Some written" "utf8_valid (te_pretty env written @ [newline])"
    and same: "sv_jt srv = te_jt env" and ct: "ct_eq_ok srv"
  shows "\<exists>before after. load_config_with srv vars home host (wd_files w) path = Inr before
    \<and> load_config_with srv vars home host (wd_files w') path = Inr after
    \<and> (\<forall>headers query.
        (let t = request_token srv headers query;
             old = authenticate srv headers query (server_section JNull (cf_raw before));
             new = authenticate srv headers query (server_section JNull (cf_raw after))
         in if t = secret then new = Some (Machine m)
            else if map_of (tokens_of server) m = Some (JString t) then True
            else new = (if old = Some Open then None else old)))"
proof -
  let ?f = "json_insert m (JString secret)"
  let ?t = "?f (tokens_of server)"
  obtain loaded where loaded: "read_server_config env (wd_files w) path = Inr loaded" "secret \<noteq> []"
      "\<forall>(k, v) \<in> set (lc_tokens loaded). k \<noteq> m \<longrightarrow> v \<noteq> JString secret"
      "wd_files w' path = Some \<lparr>fl_bytes = te_pretty env (lc_config (map_tokens ?f loaded)) @ [newline], fl_mode = 0x180\<rparr>"
    using written_config [OF created] by blast
  note after = loaded_server [OF conf server loaded(1)]
  have distinct: "distinct (map fst cfg)" "distinct (map fst server)" using keys distinct_member [OF keys server] by simp_all
  have distinct_tokens: "distinct (map fst (tokens_of server))"
    using distinct_member [OF distinct_member [OF keys server]]
    by (fastforce simp: tokens_of_def object_or_empty_def split: option.split json.split)
  have read: "Option.bind (read_to_string (wd_files w') path) (jt_parse (sv_jt srv)) = Some written"
    using loaded(4) pretty by (simp add: read_to_string_def after(3) same flip: written_def)
  obtain cfg0 where cfg0: "load_config_with srv vars home host (wd_files w) path = Inr cfg0"
    using load_succeeds conf same by metis
  obtain cfg' where cfg': "load_config_with srv vars home host (wd_files w') path = Inr cfg'" using load_succeeds read by blast
  have entry: "map_of (token_config ?f cfg server) ''server'' = Some (JObject (token_server ?f server))"
    unfolding token_config_def using server map_of_update [of "''server''" "\<lambda>_. JObject (token_server ?f server)" cfg "''server''"] by simp
  have top: "distinct (map fst (token_config ?f cfg server))" unfolding token_config_def keys_update by (rule distinct(1))
  note members = token_server_members [OF after(4), where f = ?f]
  obtain sec where sec: "json_get (cf_raw cfg') ''server'' = Some sec" "json_get sec ''tokens'' = Some (JObject ?t)"
      "json_get sec ''token'' = Some (case map_of server ''token'' of None \<Rightarrow> JString [] | Some v \<Rightarrow> v)"
    using raw_server [OF top entry members(3) [OF distinct(2)] members(1) distinct_json_insert [OF distinct_tokens] cfg' _
        read [unfolded written_def]] loaded(4) members(2) by auto
  have there: "wd_files w path \<noteq> None" using conf by (auto simp: read_to_string_def split: option.splits)
  obtain sec0 where sec0: "json_get (cf_raw cfg0) ''server'' = Some sec0" "token_map sec0 = tokens_of server"
      "json_get sec0 ''token'' = Some (case map_of server ''token'' of None \<Rightarrow> JString [] | Some v \<Rightarrow> v)"
    using raw_server_before [OF distinct(1) server distinct(2) _ distinct_tokens cfg0 there] after(4) conf same by auto
  have others: "\<forall>(k, v) \<in> set ?t. k \<noteq> m \<longrightarrow> truthy_string (sv_ft srv) (Some v) \<noteq> Some secret"
  proof (clarify)
    fix k v
    assume kv: "(k, v) \<in> set ?t" "k \<noteq> m" and eq: "truthy_string (sv_ft srv) (Some v) = Some secret"
    have old: "(k, v) \<in> set (tokens_of server)" using kv unfolding set_json_insert [OF distinct_tokens] by simp
    then obtain s where "v = JString s" using strings by blast
    moreover have "v \<noteq> JString secret" using loaded(3) old kv(2) unfolding after(2) by blast
    ultimately show False using eq by (simp add: truthy_string_def is_truthy_def split: if_splits)
  qed
  have own: "match_machine srv secret ?t = Some (Machine m)"
    by (rule match_found [OF ct loaded(2) distinct_json_insert [OF distinct_tokens] _ others])
      (simp add: set_json_insert [OF distinct_tokens])
  have tokens: "token_map sec = ?t" "?t \<noteq> []" "json_get sec ''token'' = json_get sec0 ''token''"
    using sec sec0 set_json_insert [OF distinct_tokens, of m "JString secret"] by (auto simp: token_map_def)
  have global: "truthy_string (sv_ft srv) (json_get sec0 ''token'') \<noteq> Some secret"
    using legacy sec0(3) by (auto simp: truthy_string_def is_truthy_def split: option.splits)
  have new: "authenticate srv headers query sec = Some (Machine m)" if "request_token srv headers query = secret" for headers query
    using own global safe_equal_iff [OF ct] that tokens by (auto simp: authenticate_def Let_def split: option.split)
  have rest: "authenticate srv headers query sec
      = (if authenticate srv headers query sec0 = Some Open then None else authenticate srv headers query sec0)"
    if t: "request_token srv headers query \<noteq> secret" "map_of (tokens_of server) m \<noteq> Some (JString (request_token srv headers query))"
    for headers query
  proof -
    let ?r = "request_token srv headers query"
    have "truthy_string (sv_ft srv) (Some v) \<noteq> Some ?r" if "map_of (tokens_of server) m = Some v" for v
      using strings map_of_SomeD [OF that] that t(2) by (fastforce simp: truthy_string_def is_truthy_def split: if_splits)
    then have same: "match_machine srv ?r ?t = match_machine srv ?r (tokens_of server)"
      by (rule match_unchanged [OF ct t(1)])
    have "match_machine srv ?r ts \<noteq> Some Open" for ts using match_machine_iff [OF ct, of ?r ts Open] by blast
    then show ?thesis
      using tokens same by (auto simp: authenticate_def Let_def sec0(2) truthy_string_def split: option.splits)
  qed
  have "server_section JNull (cf_raw cfg') = sec" "server_section JNull (cf_raw cfg0) = sec0"
    using sec(1) sec0(1) by (simp_all add: server_section_def)
  then show ?thesis using cfg0 cfg' new rest by (intro exI [of _ cfg0] exI [of _ cfg']) (simp add: Let_def)
qed

definition demo_server :: "(string \<times> json) list" where
  "demo_server = [(''tokens'', JObject [(''mac'', JString ''s'')])]"

definition demo_cfg :: "(string \<times> json) list" where
  "demo_cfg = [(''server'', JObject demo_server)]"

definition demo_tokens :: token_env where
  "demo_tokens =
     \<lparr>te_io = quiet_env, te_ft = demo_f64,
      te_jt = \<lparr>jt_str = (\<lambda>_. []),
               jt_parse = (\<lambda>s. if s = ''old'' then Some (JObject demo_cfg)
                                else Some (JObject (token_config (json_insert ''box'' (JString ''tok'')) demo_cfg demo_server)))\<rparr>,
      te_pretty = (\<lambda>_. ''new''), te_read_error = [], te_parse_error = [], te_io_text = (\<lambda>_. []),
      te_url = (\<lambda>u. None), te_base64 = rfc4648_url\<rparr>"

lemma demo_created:
  "fst (create_machine_token demo_tokens [] ''c'' ''box'' (Some ''tok'') False demo_world) = Inr (''box'', ''tok'')"
proof -
  have nm: "machine_name ''box'' = Inr ''box''"
    by (simp add: machine_name_def trim_examples utf16_len_def utf16_units_def char_len_def byte_def Let_def)
  have read: "read_server_config demo_tokens (wd_files demo_world) ''c''
      = Inr \<lparr>lc_config = JObject demo_cfg, lc_phantom = None\<rparr>"
    by (simp add: read_server_config_def demo_tokens_def demo_world_def read_to_string_def utf8_chunk_def lead_ranges_def byte_def
        demo_cfg_def demo_server_def with_tokens_def update_member_def)
  have wrote: "fst (write_raw_config demo_tokens ''c'' v demo_world) = Inr ()" for v
    by (simp add: write_raw_config_def atomic_write_0600_def demo_tokens_def io_simps quiet_env_def demo_world_def
        case_prod_beta cong: and_then_weak_cong)
  have tokens: "lc_tokens \<lparr>lc_config = JObject demo_cfg, lc_phantom = None\<rparr> = [(''mac'', JString ''s'')]"
    by (simp add: lc_tokens_def demo_cfg_def demo_server_def object_or_empty_def)
  show ?thesis
    unfolding create_machine_token_def nm read sum.case Let_def tokens
    by (simp add: trim_examples case_prod_beta wrote)
qed

theorem new_token_admits_its_machine_witness:
  "\<exists>before after. load_config_with (server_demo_env\<lparr>sv_jt := te_jt demo_tokens\<rparr>) (\<lambda>_. None) ''/h'' ''box'' (wd_files demo_world) ''c'' = Inr before
    \<and> load_config_with (server_demo_env\<lparr>sv_jt := te_jt demo_tokens\<rparr>) (\<lambda>_. None) ''/h'' ''box''
        (wd_files (snd (create_machine_token demo_tokens [] ''c'' ''box'' (Some ''tok'') False demo_world))) ''c'' = Inr after
    \<and> authenticate (server_demo_env\<lparr>sv_jt := te_jt demo_tokens\<rparr>) [''authorization'' \<mapsto> ''Bearer tok''] []
        (server_section JNull (cf_raw after)) = Some (Machine ''box'')"
proof -
  let ?srv = "server_demo_env\<lparr>sv_jt := te_jt demo_tokens\<rparr>"
  have created: "create_machine_token demo_tokens [] ''c'' ''box'' (Some ''tok'') False demo_world
      = (Inr (''box'', ''tok''), snd (create_machine_token demo_tokens [] ''c'' ''box'' (Some ''tok'') False demo_world))"
    using demo_created by (metis prod.collapse)
  have conf: "Option.bind (read_to_string (wd_files demo_world) ''c'') (jt_parse (te_jt demo_tokens)) = Some (JObject demo_cfg)"
    by (simp add: demo_tokens_def demo_world_def read_to_string_def utf8_chunk_def lead_ranges_def byte_def)
  have server: "map_of demo_cfg ''server'' = Some (JObject demo_server)" "distinct_keys (JObject demo_cfg)"
    by (simp_all add: demo_cfg_def demo_server_def)
  have tokens: "\<forall>(k, v) \<in> set (tokens_of demo_server). \<exists>s. v = JString s"
    "truthy_string (sv_ft ?srv) (map_of demo_server ''token'') \<noteq> Some ''tok''"
    by (simp_all add: demo_server_def tokens_of_def object_or_empty_def truthy_string_def is_truthy_def)
  have pretty: "jt_parse (te_jt demo_tokens) (te_pretty demo_tokens (JObject (token_config (json_insert ''box'' (JString ''tok'')) demo_cfg demo_server)) @ [newline])
      = Some (JObject (token_config (json_insert ''box'' (JString ''tok'')) demo_cfg demo_server))"
    "utf8_valid (te_pretty demo_tokens (JObject (token_config (json_insert ''box'' (JString ''tok'')) demo_cfg demo_server)) @ [newline])"
    by (simp_all add: demo_tokens_def utf8_chunk_def lead_ranges_def byte_def)
  have ct: "ct_eq_ok ?srv" by (simp add: ct_eq_ok_def server_demo_env_def)
  have bearer: "request_token ?srv [''authorization'' \<mapsto> ''Bearer tok''] [] = ''tok''"
    by (simp add: request_token_def starts_with_def)
  show ?thesis
    using new_token_admits_its_machine [OF created conf server tokens pretty _ ct, of "\<lambda>_. None" "''/h''" "''box''"] bearer
    by (simp add: Let_def) meson
qed

subsection \<open>A revoked token\<close>

lemma revoked_config:
  assumes "revoke_machine_token env path machine w = (Inr u, w')"
  shows "\<exists>nm loaded. machine_name machine = Inr nm \<and> read_server_config env (wd_files w) path = Inr loaded
      \<and> wd_files w' path = Some \<lparr>fl_bytes = te_pretty env (lc_config (map_tokens (shift_remove nm) loaded)) @ [newline], fl_mode = 0x180\<rparr>"
proof -
  obtain nm where nm: "machine_name machine = Inr nm"
    using assms by (cases "machine_name machine") (simp_all add: revoke_machine_token_def)
  obtain loaded where loaded: "read_server_config env (wd_files w) path = Inr loaded"
    using assms nm by (cases "read_server_config env (wd_files w) path") (simp_all add: revoke_machine_token_def)
  have wr: "write_raw_config env path (lc_config (map_tokens (shift_remove nm) loaded)) w = (Inr (), w')"
    using assms nm loaded by (simp add: revoke_machine_token_def split: if_splits)
  then show ?thesis using nm loaded written_file [of env path "lc_config (map_tokens (shift_remove nm) loaded)" w] by auto
qed

lemma shift_remove_distinct: "distinct (map fst m) \<Longrightarrow> distinct (map fst (shift_remove k m))"
  unfolding shift_remove_def by (induction m) auto

text \<open>C39: Revoking a token takes effect at the next start of the server: no request is admitted as the machine any
  more. But when it was the last token and no global one is set, the server is open from then on: every request,
  with any token or none, is admitted without restriction.\<close>

theorem revoked_token_admits_nobody_or_all:
  fixes env nm cfg server
  defines "written \<equiv> JObject (token_config (shift_remove nm) cfg server)" and "left \<equiv> shift_remove nm (tokens_of server)"
  assumes revoked: "revoke_machine_token env path machine w = (Inr u, w')" and nm: "machine_name machine = Inr nm"
    and conf: "Option.bind (read_to_string (wd_files w) path) (jt_parse (te_jt env)) = Some (JObject cfg)"
    and server: "map_of cfg ''server'' = Some (JObject server)" and keys: "distinct_keys (JObject cfg)"
    and pretty: "jt_parse (te_jt env) (te_pretty env written @ [newline]) = Some written" "utf8_valid (te_pretty env written @ [newline])"
    and same: "sv_jt srv = te_jt env" and ct: "ct_eq_ok srv"
  shows "\<exists>cfg'. load_config_with srv vars home host (wd_files w') path = Inr cfg'
    \<and> (\<forall>headers query. authenticate srv headers query (server_section JNull (cf_raw cfg')) \<noteq> Some (Machine nm))
    \<and> (left = [] \<and> \<not> is_truthy (sv_ft srv) (map_of server ''token'')
        \<longrightarrow> (\<forall>headers query. authenticate srv headers query (server_section JNull (cf_raw cfg')) = Some Open))"
proof -
  obtain loaded where loaded: "read_server_config env (wd_files w) path = Inr loaded"
      "wd_files w' path = Some \<lparr>fl_bytes = te_pretty env (lc_config (map_tokens (shift_remove nm) loaded)) @ [newline], fl_mode = 0x180\<rparr>"
    using revoked_config [OF revoked] nm by auto
  note after = loaded_server [OF conf server loaded(1)]
  have distinct: "distinct (map fst cfg)" "distinct (map fst server)" using keys distinct_member [OF keys server] by simp_all
  have distinct_tokens: "distinct (map fst (tokens_of server))"
    using distinct_member [OF distinct_member [OF keys server]]
    by (fastforce simp: tokens_of_def object_or_empty_def split: option.split json.split)
  have read: "Option.bind (read_to_string (wd_files w') path) (jt_parse (sv_jt srv)) = Some written"
    using loaded(2) pretty by (simp add: read_to_string_def after(3) same flip: written_def)
  then obtain cfg' where cfg': "load_config_with srv vars home host (wd_files w') path = Inr cfg'" using load_succeeds by blast
  have entry: "map_of (token_config (shift_remove nm) cfg server) ''server'' = Some (JObject (token_server (shift_remove nm) server))"
    unfolding token_config_def using server map_of_update [of "''server''" "\<lambda>_. JObject (token_server (shift_remove nm) server)" cfg "''server''"] by simp
  have top: "distinct (map fst (token_config (shift_remove nm) cfg server))" unfolding token_config_def keys_update by (rule distinct(1))
  note members = token_server_members [OF after(4), where f = "shift_remove nm"]
  obtain sec where sec: "json_get (cf_raw cfg') ''server'' = Some sec" "json_get sec ''tokens'' = Some (JObject left)"
      "json_get sec ''token'' = Some (case map_of server ''token'' of None \<Rightarrow> JString [] | Some v \<Rightarrow> v)"
    using raw_server [OF top entry members(3) [OF distinct(2)] members(1) shift_remove_distinct [OF distinct_tokens] cfg' _
        read [unfolded written_def]] loaded(2) members(2) unfolding left_def by auto
  have tokens: "token_map sec = left" using sec(2) by (simp add: token_map_def)
  have "authenticate srv headers query sec \<noteq> Some (Machine nm)" for headers query
  proof
    assume "authenticate srv headers query sec = Some (Machine nm)"
    then have "match_machine srv (request_token srv headers query) left = Some (Machine nm)"
      by (auto simp: authenticate_def Let_def tokens split: if_splits)
    from match_machine_iff [OF ct this] show False by (auto simp: left_def shift_remove_def)
  qed
  moreover have "authenticate srv headers query sec = Some Open"
    if "left = []" "\<not> is_truthy (sv_ft srv) (map_of server ''token'')" for headers query
    using that sec(3) by (cases "map_of server ''token''") (simp_all add: authenticate_def Let_def tokens is_truthy_def)
  moreover have "server_section JNull (cf_raw cfg') = sec" using sec(1) by (simp add: server_section_def)
  ultimately show ?thesis using cfg' by auto
qed

definition demo_revoking :: token_env where
  "demo_revoking = demo_tokens
     \<lparr>te_jt := \<lparr>jt_str = (\<lambda>_. []),
               jt_parse = (\<lambda>s. if s = ''old'' then Some (JObject demo_cfg)
                                else Some (JObject (token_config (shift_remove ''mac'') demo_cfg demo_server)))\<rparr>\<rparr>"

lemma demo_machine: "machine_name ''mac'' = Inr ''mac''"
proof -
  have "js_trim ''mac'' = ''mac''"
    by (simp add: js_trim_def trim_matches_def char_len_def byte_def is_js_whitespace_def is_whitespace_def Let_def)
  then show ?thesis by (simp add: machine_name_def utf16_len_def utf16_units_def char_len_def byte_def Let_def)
qed

lemma demo_revoked: "fst (revoke_machine_token demo_revoking ''c'' ''mac'' demo_world) = Inr ()"
proof -
  have read: "read_server_config demo_revoking (wd_files demo_world) ''c''
      = Inr \<lparr>lc_config = JObject demo_cfg, lc_phantom = None\<rparr>"
    by (simp add: read_server_config_def demo_revoking_def demo_tokens_def demo_world_def read_to_string_def utf8_chunk_def
        lead_ranges_def byte_def demo_cfg_def demo_server_def with_tokens_def update_member_def)
  have wrote: "fst (write_raw_config demo_revoking ''c'' v demo_world) = Inr ()" for v
    by (simp add: write_raw_config_def atomic_write_0600_def demo_revoking_def demo_tokens_def io_simps quiet_env_def demo_world_def
        case_prod_beta cong: and_then_weak_cong)
  have tokens: "lc_tokens \<lparr>lc_config = JObject demo_cfg, lc_phantom = None\<rparr> = [(''mac'', JString ''s'')]"
    by (simp add: lc_tokens_def demo_cfg_def demo_server_def object_or_empty_def)
  show ?thesis unfolding revoke_machine_token_def demo_machine read sum.case tokens by (simp add: wrote)
qed

theorem revoked_token_admits_nobody_or_all_witness:
  "\<exists>cfg'. load_config_with (server_demo_env\<lparr>sv_jt := te_jt demo_revoking\<rparr>) (\<lambda>_. None) ''/h'' ''box''
      (wd_files (snd (revoke_machine_token demo_revoking ''c'' ''mac'' demo_world))) ''c'' = Inr cfg'
    \<and> authenticate (server_demo_env\<lparr>sv_jt := te_jt demo_revoking\<rparr>) (\<lambda>_. None) []
        (server_section JNull (cf_raw cfg')) = Some Open"
proof -
  have revoked: "revoke_machine_token demo_revoking ''c'' ''mac'' demo_world
      = (Inr (), snd (revoke_machine_token demo_revoking ''c'' ''mac'' demo_world))"
    using demo_revoked by (metis prod.collapse)
  have conf: "Option.bind (read_to_string (wd_files demo_world) ''c'') (jt_parse (te_jt demo_revoking)) = Some (JObject demo_cfg)"
    by (simp add: demo_revoking_def demo_tokens_def demo_world_def read_to_string_def utf8_chunk_def lead_ranges_def byte_def)
  have server: "map_of demo_cfg ''server'' = Some (JObject demo_server)" "distinct_keys (JObject demo_cfg)"
    by (simp_all add: demo_cfg_def demo_server_def)
  have pretty: "jt_parse (te_jt demo_revoking) (te_pretty demo_revoking (JObject (token_config (shift_remove ''mac'') demo_cfg demo_server)) @ [newline])
      = Some (JObject (token_config (shift_remove ''mac'') demo_cfg demo_server))"
    "utf8_valid (te_pretty demo_revoking (JObject (token_config (shift_remove ''mac'') demo_cfg demo_server)) @ [newline])"
    by (simp_all add: demo_revoking_def demo_tokens_def utf8_chunk_def lead_ranges_def byte_def)
  have ct: "ct_eq_ok (server_demo_env\<lparr>sv_jt := te_jt demo_revoking\<rparr>)" by (simp add: ct_eq_ok_def server_demo_env_def)
  have last: "shift_remove ''mac'' (tokens_of demo_server) = []" "map_of demo_server ''token'' = None"
    by (simp_all add: shift_remove_def tokens_of_def demo_server_def object_or_empty_def)
  from revoked_token_admits_nobody_or_all [OF revoked demo_machine conf server pretty _ ct, of "\<lambda>_. None" "''/h''" "''box''"] last
  show ?thesis by (auto simp: is_truthy_def)
qed

end
