(* ===== verification/Assistant_State.thy ===== *)
theory Assistant_State
  imports Hub_Workers
begin

text \<open>
  The durable state of the assistant in the hub (\<open>crates/stackhour-hub/src/lib.rs\<close>): its settings,
  the policy of updates, the session of a channel and the active channel, each a row of the
  settings table that holds a JSON value. The text of a serde error is the argument \<open>bad\<close>.
\<close>

subsection \<open>Derived readers\<close>

text \<open>A derived \<open>Deserialize\<close> takes a struct from an object, by key, or from an array, by position. A
  field without a default has to be there, unless it is an option of an object.\<close>

datatype field_value = Missing | Member json | Duplicate

definition struct_field :: "json \<Rightarrow> nat \<Rightarrow> string \<Rightarrow> field_value" where
  "struct_field v i key =
     (case v of
        JObject m \<Rightarrow>
          (case filter (\<lambda>kv. fst kv = key) m of
             [] \<Rightarrow> Missing | [kv] \<Rightarrow> Member (snd kv) | _ \<Rightarrow> Duplicate)
      | JArray xs \<Rightarrow> if i < length xs then Member (xs ! i) else Missing
      | _ \<Rightarrow> Missing)"

text \<open>An array has at most \<open>n\<close> elements, and the first \<open>required\<close> of them.\<close>

definition struct_shape :: "nat \<Rightarrow> nat \<Rightarrow> json \<Rightarrow> bool" where
  "struct_shape required n v =
     (case v of JObject _ \<Rightarrow> True | JArray xs \<Rightarrow> required \<le> length xs \<and> length xs \<le> n | _ \<Rightarrow> False)"

definition read_field :: "(json \<Rightarrow> 'a option) \<Rightarrow> 'a option \<Rightarrow> field_value \<Rightarrow> 'a option" where
  "read_field r absent f = (case f of Missing \<Rightarrow> absent | Member v \<Rightarrow> r v | Duplicate \<Rightarrow> None)"

definition read_opt :: "(json \<Rightarrow> 'a option) \<Rightarrow> json \<Rightarrow> 'a option option" where
  "read_opt r v = (if v = JNull then Some None else map_option Some (r v))"

definition read_id :: "'j codec \<Rightarrow> (uuid \<Rightarrow> 'i) \<Rightarrow> json \<Rightarrow> 'i option" where
  "read_id c mk v = Option.bind (as_str v) (\<lambda>s. map_option mk (uuid_parse c s))"

definition read_u16 :: "json \<Rightarrow> 16 word option" where
  "read_u16 v =
     (case as_i64 v of Some n \<Rightarrow> if 0 \<le> n \<and> n < 65536 then Some (word_of_int n) else None | None \<Rightarrow> None)"

lemmas reader_defs = struct_field_def struct_shape_def read_field_def read_opt_def read_id_def

subsection \<open>Settings\<close>

definition ASSISTANT_SETTINGS_KEY :: string where
  "ASSISTANT_SETTINGS_KEY = ''assistant.settings''"

definition UPDATE_SETTINGS_KEY :: string where
  "UPDATE_SETTINGS_KEY = ''update.settings''"

definition settings_json :: "assistant_settings \<Rightarrow> json" where
  "settings_json s =
     JObject
       [(''name'', JString (as_name s)), (''personality'', JString (as_personality s)),
        (''engine'', JString (as_engine s)), (''claude_model'', json_of_opt JString (as_claude_model s)),
        (''codex_model'', json_of_opt JString (as_codex_model s)),
        (''reasoning_effort'', JString (as_reasoning_effort s)),
        (''workspace'', json_of_opt JString (as_workspace s)), (''memory_enabled'', JBool (as_memory_enabled s)),
        (''memory_command'', json_of_opt JString (as_memory_command s)),
        (''memory_dir'', json_of_opt JString (as_memory_dir s))]"

definition settings_of_json :: "json \<Rightarrow> assistant_settings option" where
  "settings_of_json v =
     (if \<not> struct_shape 10 10 v then None
      else
        Option.bind (read_field as_str None (struct_field v 0 ''name'')) (\<lambda>name.
        Option.bind (read_field as_str None (struct_field v 1 ''personality'')) (\<lambda>personality.
        Option.bind (read_field as_str None (struct_field v 2 ''engine'')) (\<lambda>engine.
        Option.bind (read_field (read_opt as_str) (Some None) (struct_field v 3 ''claude_model'')) (\<lambda>claude.
        Option.bind (read_field (read_opt as_str) (Some None) (struct_field v 4 ''codex_model'')) (\<lambda>codex.
        Option.bind (read_field as_str None (struct_field v 5 ''reasoning_effort'')) (\<lambda>effort.
        Option.bind (read_field (read_opt as_str) (Some None) (struct_field v 6 ''workspace'')) (\<lambda>workspace.
        Option.bind (read_field as_bool None (struct_field v 7 ''memory_enabled'')) (\<lambda>enabled.
        Option.bind (read_field (read_opt as_str) (Some None) (struct_field v 8 ''memory_command'')) (\<lambda>command.
        Option.bind (read_field (read_opt as_str) (Some None) (struct_field v 9 ''memory_dir'')) (\<lambda>dir.
        Some
          \<lparr>as_name = name, as_personality = personality, as_engine = engine, as_claude_model = claude,
           as_codex_model = codex, as_reasoning_effort = effort, as_workspace = workspace,
           as_memory_enabled = enabled, as_memory_command = command, as_memory_dir = dir\<rparr>)))))))))))"

definition load_assistant_settings ::
  "'j codec \<Rightarrow> string \<Rightarrow> faults \<Rightarrow> 'j hub \<Rightarrow> (error, assistant_settings) result" where
  "load_assistant_settings c bad io h =
     bind_res (get_setting c io ASSISTANT_SETTINGS_KEY h) (\<lambda>stored.
       case stored of
         None \<Rightarrow> Inr assistant_settings_default
       | Some value \<Rightarrow>
           (case settings_of_json value of
              None \<Rightarrow> Inl (ErrMsg (''bad assistant settings: '' @ bad))
            | Some settings \<Rightarrow>
                (case assistant_settings_validate settings of
                   Inl e \<Rightarrow> Inl (ErrMsg e) | Inr _ \<Rightarrow> Inr settings)))"

definition save_assistant_settings ::
  "'j codec \<Rightarrow> faults \<Rightarrow> time \<Rightarrow> assistant_settings \<Rightarrow> 'j hub_state \<Rightarrow> (error, unit) result \<times> 'j hub_state" where
  "save_assistant_settings c io now settings s =
     (case assistant_settings_validate settings of
        Inl e \<Rightarrow> (Inl (ErrMsg e), s)
      | Inr _ \<Rightarrow> with_hub (put_setting c io now ASSISTANT_SETTINGS_KEY (settings_json settings)) s)"

definition initialize_assistant_settings ::
  "'j codec \<Rightarrow> faults \<Rightarrow> faults \<Rightarrow> time \<Rightarrow> assistant_settings \<Rightarrow> 'j hub_state
   \<Rightarrow> (error, unit) result \<times> 'j hub_state" where
  "initialize_assistant_settings c io0 io1 now settings s =
     (case assistant_settings_validate settings of
        Inl e \<Rightarrow> (Inl (ErrMsg e), s)
      | Inr _ \<Rightarrow>
          (case get_setting c io0 ASSISTANT_SETTINGS_KEY (hs_hub s) of
             Inl e \<Rightarrow> (Inl e, s)
           | Inr (Some _) \<Rightarrow> (Inr (), s)
           | Inr None \<Rightarrow> with_hub (put_setting c io1 now ASSISTANT_SETTINGS_KEY (settings_json settings)) s))"

definition update_settings_json :: "update_settings \<Rightarrow> json" where
  "update_settings_json s =
     JObject [(''automatic'', JBool (automatic s)), (''interval_hours'', json_of_i64 (uint (interval_hours s))),
              (''include_nodes'', JBool (include_nodes s))]"

definition update_settings_of_json :: "json \<Rightarrow> update_settings option" where
  "update_settings_of_json v =
     (if \<not> struct_shape 3 3 v then None
      else
        Option.bind (read_field as_bool None (struct_field v 0 ''automatic'')) (\<lambda>a.
        Option.bind (read_field read_u16 None (struct_field v 1 ''interval_hours'')) (\<lambda>hours.
        Option.bind (read_field as_bool None (struct_field v 2 ''include_nodes'')) (\<lambda>nodes.
        Some \<lparr>automatic = a, interval_hours = hours, include_nodes = nodes\<rparr>))))"

definition load_update_settings ::
  "'j codec \<Rightarrow> string \<Rightarrow> faults \<Rightarrow> 'j hub \<Rightarrow> (error, update_settings) result" where
  "load_update_settings c bad io h =
     bind_res (get_setting c io UPDATE_SETTINGS_KEY h) (\<lambda>stored.
       case stored of
         None \<Rightarrow> Inr update_settings_default
       | Some value \<Rightarrow>
           (case update_settings_of_json value of
              None \<Rightarrow> Inl (ErrMsg (''bad update settings: '' @ bad))
            | Some settings \<Rightarrow>
                (case update_settings_validate settings of
                   Inl e \<Rightarrow> Inl (ErrMsg e) | Inr _ \<Rightarrow> Inr settings)))"

definition save_update_settings ::
  "'j codec \<Rightarrow> faults \<Rightarrow> time \<Rightarrow> update_settings \<Rightarrow> 'j hub_state \<Rightarrow> (error, unit) result \<times> 'j hub_state" where
  "save_update_settings c io now settings s =
     (case update_settings_validate settings of
        Inl e \<Rightarrow> (Inl (ErrMsg e), s)
      | Inr _ \<Rightarrow> with_hub (put_setting c io now UPDATE_SETTINGS_KEY (update_settings_json settings)) s)"

subsection \<open>Sessions\<close>

record assistant_session =
  se_task_id :: task_id
  se_run_id :: "run_id option"
  se_engine :: string
  se_provider_session_id :: "string option"
  se_pending_wake :: "event_id option"
  se_pending_follow_up :: "string option"
  se_action_follow_up :: bool

text \<open>\<open>skip_serializing_if = "Option::is_none"\<close>.\<close>

definition unless_none :: "string \<Rightarrow> string option \<Rightarrow> (string \<times> json) list" where
  "unless_none key v = (case v of None \<Rightarrow> [] | Some s \<Rightarrow> [(key, JString s)])"

definition session_json :: "'j codec \<Rightarrow> assistant_session \<Rightarrow> json" where
  "session_json c s =
     JObject
       ([(''task_id'', JString (task_id_str c (se_task_id s))),
         (''run_id'', json_of_opt (\<lambda>r. JString (run_id_str c r)) (se_run_id s)),
         (''engine'', JString (se_engine s))]
        @ unless_none ''provider_session_id'' (se_provider_session_id s)
        @ unless_none ''pending_wake_event_id'' (map_option (event_id_str c) (se_pending_wake s))
        @ unless_none ''pending_follow_up'' (se_pending_follow_up s)
        @ [(''action_follow_up_in_progress'', JBool (se_action_follow_up s))])"

definition session_of_json :: "'j codec \<Rightarrow> json \<Rightarrow> assistant_session option" where
  "session_of_json c v =
     (if \<not> struct_shape 3 7 v then None
      else
        Option.bind (read_field (read_id c TaskId) None (struct_field v 0 ''task_id'')) (\<lambda>task.
        Option.bind (read_field (read_opt (read_id c RunId)) (Some None) (struct_field v 1 ''run_id'')) (\<lambda>run.
        Option.bind (read_field as_str None (struct_field v 2 ''engine'')) (\<lambda>engine.
        Option.bind (read_field (read_opt as_str) (Some None) (struct_field v 3 ''provider_session_id'')) (\<lambda>provider.
        Option.bind (read_field (read_opt (read_id c EventId)) (Some None)
            (struct_field v 4 ''pending_wake_event_id'')) (\<lambda>wake.
        Option.bind (read_field (read_opt as_str) (Some None) (struct_field v 5 ''pending_follow_up'')) (\<lambda>follow.
        Option.bind (read_field as_bool (Some False)
            (struct_field v 6 ''action_follow_up_in_progress'')) (\<lambda>action.
        Some
          \<lparr>se_task_id = task, se_run_id = run, se_engine = engine, se_provider_session_id = provider,
           se_pending_wake = wake, se_pending_follow_up = follow, se_action_follow_up = action\<rparr>))))))))"

definition session_key :: "string \<Rightarrow> string" where
  "session_key channel = ''assistant.session.'' @ channel"

definition load_assistant_session ::
  "'j codec \<Rightarrow> string \<Rightarrow> faults \<Rightarrow> string \<Rightarrow> 'j hub \<Rightarrow> (error, assistant_session option) result" where
  "load_assistant_session c bad io channel h =
     bind_res (get_setting c io (session_key channel) h) (\<lambda>stored.
       case stored of
         None \<Rightarrow> Inr None
       | Some value \<Rightarrow>
           if value = JNull then Inr None
           else
             (case session_of_json c value of
                None \<Rightarrow> Inl (ErrMsg (''bad assistant session: '' @ bad))
              | Some session \<Rightarrow> Inr (Some session)))"

definition save_assistant_session ::
  "'j codec \<Rightarrow> faults \<Rightarrow> time \<Rightarrow> string \<Rightarrow> assistant_session \<Rightarrow> 'j hub_state
   \<Rightarrow> (error, unit) result \<times> 'j hub_state" where
  "save_assistant_session c io now channel session s =
     with_hub (put_setting c io now (session_key channel) (session_json c session)) s"

definition clear_assistant_session ::
  "'j codec \<Rightarrow> faults \<Rightarrow> time \<Rightarrow> string \<Rightarrow> 'j hub_state \<Rightarrow> (error, unit) result \<times> 'j hub_state" where
  "clear_assistant_session c io now channel s =
     with_hub (put_setting c io now (session_key channel) JNull) s"

definition active_assistant_channel ::
  "'j codec \<Rightarrow> faults \<Rightarrow> 'j hub \<Rightarrow> (error, string option) result" where
  "active_assistant_channel c io h =
     bind_res (get_setting c io ''assistant.active_channel'' h) (\<lambda>stored.
       Inr (case Option.bind stored as_str of
              None \<Rightarrow> None | Some channel \<Rightarrow> if trim_is_empty channel then None else Some channel))"

definition set_active_assistant_channel ::
  "'j codec \<Rightarrow> faults \<Rightarrow> time \<Rightarrow> string \<Rightarrow> 'j hub_state \<Rightarrow> (error, unit) result \<times> 'j hub_state" where
  "set_active_assistant_channel c io now channel s =
     (case validate_identifier ''assistant channel'' channel of
        Inl e \<Rightarrow> (Inl (ErrMsg e), s)
      | Inr _ \<Rightarrow> with_hub (put_setting c io now ''assistant.active_channel'' (JString channel)) s)"

subsection \<open>What is stored is read back\<close>

lemma session_round_trip: "codec_ok c \<Longrightarrow> session_of_json c (session_json c s) = Some s"
  by (cases s; cases "se_run_id s"; cases "se_provider_session_id s"; cases "se_pending_wake s";
      cases "se_pending_follow_up s")
    (simp_all add: session_of_json_def session_json_def reader_defs unless_none_def json_of_opt_def
      id_str_defs codec_okD(1))

lemma settings_round_trip: "settings_of_json (settings_json s) = Some s"
  by (cases s) (auto simp: settings_of_json_def settings_json_def reader_defs json_of_opt_def split: option.splits)

lemma session_json_ok: "json_ok (session_json c s)" "session_json c s \<noteq> JNull"
  by (auto simp: json_ok_def session_json_def unless_none_def json_of_opt_def split: option.splits)

end
