(* ===== verification/Claire_Text.thy ===== *)
theory Claire_Text
  imports Assistant_State Engine_Argv
begin

text \<open>
  The texts of the hub-local assistant (\<open>crates/stackhour/src/control.rs\<close>): what she is told about
  past events, her instructions, the envelope she answers with, and the checks on what she asks
  for. Strings are bytes; the reader of JSON text keeps the members of an object in order, with
  their duplicates.
\<close>

subsection \<open>Bounded texts\<close>

definition MAX_MEMORY_CONTEXT_BYTES :: nat where
  "MAX_MEMORY_CONTEXT_BYTES = 16 * 1024"

definition MAX_CONVERSATION_HISTORY_BYTES :: nat where
  "MAX_CONVERSATION_HISTORY_BYTES = 16 * 1024"

definition MAX_MEMORY_NOTE_CHARS :: nat where
  "MAX_MEMORY_NOTE_CHARS = 280"

definition OMITTED :: string where
  "OMITTED = ''[Earlier conversation omitted]'' @ [newline]"

text \<open>\<open>str::is_char_boundary\<close>: not in front of a continuation byte.\<close>

definition char_boundary :: "string \<Rightarrow> nat \<Rightarrow> bool" where
  "char_boundary s i \<longleftrightarrow>
     i = 0 \<or> i = length s \<or> (i < length s \<and> \<not> (128 \<le> byte (s ! i) \<and> byte (s ! i) < 192))"

function next_boundary :: "string \<Rightarrow> nat \<Rightarrow> nat" where
  "next_boundary s i = (if char_boundary s i \<or> length s \<le> i then i else next_boundary s (Suc i))"
  by pat_completeness auto

termination
  by (relation "measure (\<lambda>(s, i). length s - i)") auto

declare next_boundary.simps [simp del]

definition bounded_tail :: "string \<Rightarrow> nat \<Rightarrow> string" where
  "bounded_tail txt max_bytes =
     (if length txt \<le> max_bytes then txt
      else OMITTED @ drop (next_boundary txt (length txt - (max_bytes - length OMITTED))) txt)"

subsection \<open>What she is told\<close>

definition payload_text :: "event \<Rightarrow> string \<Rightarrow> string option" where
  "payload_text ev key = Option.bind (json_get (e_payload ev) key) as_str"

definition short_task :: "'j codec \<Rightarrow> task_id \<Rightarrow> string" where
  "short_task c tid = take_chars 8 (task_id_str c tid)"

definition short_run :: "'j codec \<Rightarrow> run_id \<Rightarrow> string" where
  "short_run c rid = take_chars 8 (run_id_str c rid)"

definition history_line :: "event \<Rightarrow> string option" where
  "history_line ev =
     (case e_kind ev of
        MessageUser \<Rightarrow> map_option (\<lambda>t. ''Nikita: '' @ t) (payload_text ev ''text'')
      | MessageAssistantCompleted \<Rightarrow> map_option (\<lambda>t. ''Claire: '' @ t) (payload_text ev ''text'')
      | _ \<Rightarrow> None)"

definition conversation_history :: "event list \<Rightarrow> string" where
  "conversation_history es =
     (let ls = take 20 (List.map_filter history_line (rev es)) in
      if ls = [] then ''No earlier messages.''
      else bounded_tail (str_join [newline] (rev ls)) MAX_CONVERSATION_HISTORY_BYTES)"

definition worker_line :: "event \<Rightarrow> string option" where
  "worker_line ev =
     (case e_kind ev of
        MessageUser \<Rightarrow> map_option (\<lambda>t. ''Instruction: '' @ t) (payload_text ev ''text'')
      | MessageAssistantCompleted \<Rightarrow> map_option (\<lambda>t. ''Worker result: '' @ t) (payload_text ev ''text'')
      | RunFailed \<Rightarrow> map_option (\<lambda>t. ''Worker failure: '' @ t) (payload_text ev ''error'')
      | RunCompleted \<Rightarrow> Some ''Worker run completed.''
      | _ \<Rightarrow> None)"

definition worker_wake_context :: "event list \<Rightarrow> string" where
  "worker_wake_context es =
     (let ls = List.map_filter worker_line es in
      bounded_tail (if ls = [] then ''No worker output was recorded.'' else str_join [newline] ls)
        MAX_CONVERSATION_HISTORY_BYTES)"

definition task_summary :: "'j codec \<Rightarrow> event \<Rightarrow> string option" where
  "task_summary c ev =
     (case e_kind ev of
        TaskCreated \<Rightarrow>
          map_option (\<lambda>title. short_task c (e_task_id ev) @ '' created: '' @ title) (payload_text ev ''title'')
      | RunStarted \<Rightarrow>
          Some (short_task c (e_task_id ev) @ '' run ''
                @ (case e_run_id ev of Some r \<Rightarrow> short_run c r | None \<Rightarrow> ''unknown'')
                @ '' started on '' @ node_str (e_node_id ev))
      | RunCompleted \<Rightarrow> Some (short_task c (e_task_id ev) @ '' completed'')
      | RunFailed \<Rightarrow> Some (short_task c (e_task_id ev) @ '' failed'')
      | RunInterrupted \<Rightarrow> Some (short_task c (e_task_id ev) @ '' interrupted'')
      | _ \<Rightarrow> None)"

definition recent_task_context :: "'j codec \<Rightarrow> event list \<Rightarrow> string" where
  "recent_task_context c es =
     (let ls = take 12 (List.map_filter (task_summary c) (rev es)) in
      if ls = [] then ''No task activity yet.'' else str_join [newline] (rev ls))"

definition claire_system_prompt :: "assistant_settings \<Rightarrow> string \<Rightarrow> string \<Rightarrow> string" where
  \<open>claire_system_prompt settings memory history =
     as_personality settings @ [newline, newline] @
     ''Your name is '' @ as_name settings @
     ''. You are the persistent assistant; worker tasks are separate agents '' @
     ''you coordinate through typed Stackhour actions.'' @ [newline, newline] @
     ''Return one JSON object and nothing else:'' @ [newline] @
     ''{"notify":true,"reply":"natural Telegram reply",'' @
     ''"remember":["durable fact, <=280 chars"],"actions":[...]}'' @ [newline] @
     ''Supported actions:'' @ [newline] @
     ''- {"type":"create_task","title":"...","prompt":"...",'' @
     ''"node_id":"optional","engine":"claude|codex","model":"optional",'' @
     ''"reasoning_effort":"low|medium|high","workspace":"optional absolute path"}'' @ [newline] @
     ''- {"type":"send_message","task_id":"uuid","run_id":"uuid","text":"..."}'' @ [newline] @
     ''- {"type":"stop_run","run_id":"uuid"}'' @ [newline] @
     ''Use actions only when Nikita asked you to operate Stackhour. Never invent ids or report '' @
     ''success before an action result is returned. Do not place secrets in memory. Administrative '' @
     ''operations, credential changes, installs, deletion, backup restore, and approval decisions '' @
     ''are not available in this first tool boundary. Set notify=false when no Telegram message '' @
     ''is useful. You alone decide which worker progress, questions, tool results, and outcomes '' @
     ''appear there.'' @ [newline, newline] @
     ''[OptMem]'' @ [newline] @ memory @ [newline, newline] @
     ''[Conversation before this provider run]'' @ [newline] @ history\<close>

subsection \<open>What she answers\<close>

datatype claire_action =
    CreateTaskAction string string "string option" "string option" "string option" "string option" "string option"
      \<comment> \<open>title, prompt, node, engine, model, effort, workspace\<close>
  | SendMessageAction string string string
  | StopRunAction string
  | UnknownAction

record claire_envelope =
  en_notify :: bool
  en_reply :: string
  en_remember :: "string list"
  en_actions :: "claire_action list"
  en_malformed :: bool

definition default_notify :: bool where
  "default_notify = True"

definition read_list :: "(json \<Rightarrow> 'a option) \<Rightarrow> json \<Rightarrow> 'a list option" where
  "read_list r v = (case v of JArray xs \<Rightarrow> those (map r xs) | _ \<Rightarrow> None)"

text \<open>The fields of a variant, without its tag.\<close>

definition read_variant :: "string \<Rightarrow> json \<Rightarrow> claire_action option" where
  "read_variant tag v =
     (if tag = ''create_task'' then
        if \<not> struct_shape 7 7 v then None
        else
          Option.bind (read_field as_str None (struct_field v 0 ''title'')) (\<lambda>title.
          Option.bind (read_field as_str None (struct_field v 1 ''prompt'')) (\<lambda>prompt.
          Option.bind (read_field (read_opt as_str) (Some None) (struct_field v 2 ''node_id'')) (\<lambda>node.
          Option.bind (read_field (read_opt as_str) (Some None) (struct_field v 3 ''engine'')) (\<lambda>engine.
          Option.bind (read_field (read_opt as_str) (Some None) (struct_field v 4 ''model'')) (\<lambda>model.
          Option.bind (read_field (read_opt as_str) (Some None) (struct_field v 5 ''reasoning_effort'')) (\<lambda>effort.
          Option.bind (read_field (read_opt as_str) (Some None) (struct_field v 6 ''workspace'')) (\<lambda>workspace.
          Some (CreateTaskAction title prompt node engine model effort workspace))))))))
      else if tag = ''send_message'' then
        if \<not> struct_shape 3 3 v then None
        else
          Option.bind (read_field as_str None (struct_field v 0 ''task_id'')) (\<lambda>task.
          Option.bind (read_field as_str None (struct_field v 1 ''run_id'')) (\<lambda>run.
          Option.bind (read_field as_str None (struct_field v 2 ''text'')) (\<lambda>txt.
          Some (SendMessageAction task run txt))))
      else if tag = ''stop_run'' then
        if \<not> struct_shape 1 1 v then None
        else map_option StopRunAction (read_field as_str None (struct_field v 0 ''run_id''))
      else Some UnknownAction)"

definition read_action :: "json \<Rightarrow> claire_action option" where
  "read_action v =
     (case v of
        JObject m \<Rightarrow>
          (case struct_field v 0 ''type'' of
             Member (JString tag) \<Rightarrow> read_variant tag (JObject (filter (\<lambda>kv. fst kv \<noteq> ''type'') m))
           | _ \<Rightarrow> None)
      | JArray (JString tag # rest) \<Rightarrow> read_variant tag (JArray rest)
      | _ \<Rightarrow> None)"

definition read_envelope :: "json \<Rightarrow> claire_envelope option" where
  "read_envelope v =
     (if \<not> struct_shape 0 4 v then None
      else
        Option.bind (read_field as_bool (Some default_notify) (struct_field v 0 ''notify'')) (\<lambda>notify.
        Option.bind (read_field as_str (Some []) (struct_field v 1 ''reply'')) (\<lambda>reply.
        Option.bind (read_field (read_list as_str) (Some []) (struct_field v 2 ''remember'')) (\<lambda>remember.
        Option.bind (read_field (read_list read_action) (Some []) (struct_field v 3 ''actions'')) (\<lambda>actions.
        Some \<lparr>en_notify = notify, en_reply = reply, en_remember = remember, en_actions = actions,
              en_malformed = False\<rparr>)))))"

definition strip_suffix :: "string \<Rightarrow> string \<Rightarrow> string option" where
  "strip_suffix p s = map_option rev (strip_prefix (rev p) (rev s))"

definition parse_claire_envelope :: "(string \<Rightarrow> json option) \<Rightarrow> string \<Rightarrow> claire_envelope" where
  "parse_claire_envelope read raw =
     (let trimmed = str_trim raw;
          body = (case Option.bind (strip_prefix ''```json'' trimmed) (strip_suffix ''```'') of
                    Some inner \<Rightarrow> str_trim inner | None \<Rightarrow> trimmed)
      in case Option.bind (read body) read_envelope of
           Some envelope \<Rightarrow> envelope
         | None \<Rightarrow> \<lparr>en_notify = False, en_reply = [], en_remember = [], en_actions = [], en_malformed = True\<rparr>)"

subsection \<open>Checks\<close>

definition validate_selector :: "string \<Rightarrow> string \<Rightarrow> (error, unit) result" where
  "validate_selector label value =
     (if value = [] \<or> length value > 200 \<or> list_ex (\<lambda>ch. \<not> identifier_char ch) (chars value)
      then Inl (ErrMsg (label @ '' contains unsupported characters'')) else Inr ())"

definition validate_effort :: "string \<Rightarrow> (error, unit) result" where
  "validate_effort value =
     (if value \<in> {''low'', ''medium'', ''high''} then Inr ()
      else Inl (ErrMsg ''reasoning effort must be low, medium, or high''))"

definition check_memory_note :: "assistant_settings \<Rightarrow> string \<Rightarrow> (error, unit) result" where
  "check_memory_note settings note =
     (if \<not> as_memory_enabled settings then Inl (ErrMsg ''OptMem is disabled'')
      else if trim_is_empty note \<or> length (chars note) > MAX_MEMORY_NOTE_CHARS then
        Inl (ErrMsg (''memory notes must be one non-empty line of at most '' @ nat_str MAX_MEMORY_NOTE_CHARS
                     @ '' characters''))
      else if list_ex is_control (chars note) then Inl (ErrMsg ''memory notes must be one printable line'')
      else Inr ())"

text \<open>How a program that was started ended: not at all, or with its output, its error output and the text of
  its status.\<close>

datatype program_end = CannotRun string | Finished bool string string string

definition optmem_result :: "program_end \<Rightarrow> (error, string) result" where
  "optmem_result e =
     (case e of
        CannotRun reason \<Rightarrow> Inl (ErrMsg (''cannot run OptMem: '' @ reason))
      | Finished success out err status \<Rightarrow>
          (let txt = str_trim (utf8_lossy (take MAX_MEMORY_CONTEXT_BYTES (if success then out else err))) in
           if success then Inr txt
           else Inl (ErrMsg (if txt = [] then ''OptMem exited with '' @ status else txt))))"

text \<open>\<open>trim_start_matches\<close> strips a prefix as often as it occurs.\<close>

function trim_start_matches :: "string \<Rightarrow> string \<Rightarrow> string" where
  "trim_start_matches p s =
     (case strip_prefix p s of Some r \<Rightarrow> if p = [] then s else trim_start_matches p r | None \<Rightarrow> s)"
  by pat_completeness auto

termination
  by (relation "measure (\<lambda>(p, s). length s)") (auto simp: strip_prefix_Some)

declare trim_start_matches.simps [simp del]

fun ensure_accepted :: "(protocol_error option \<Rightarrow> string) \<Rightarrow> hub_to_client \<Rightarrow> (error, int) result" where
  "ensure_accepted dbg (CommandReceipt _ True (Some sequence) _ _) = Inr sequence"
| "ensure_accepted dbg (CommandReceipt _ _ _ _ err) = Inl (ErrMsg (''hub rejected command: '' @ dbg err))"
| "ensure_accepted dbg _ = Inl (ErrMsg ''hub returned an invalid command receipt'')"

end
