(* ===== verification/Claire.thy ===== *)
theory Claire
  imports Claire_Text "HOL-Library.State_Monad"
begin

text \<open>
  The turns of the hub-local assistant (\<open>crates/stackhour/src/control.rs\<close>). The code threads the
  shared hub and the tables of the runner through many calls, so an operation is a computation of
  the state monad; a fallible one returns a result. Each call on the hub, on a program and on the
  chat takes the next element of \<open>ce_supply\<close>: the clock, the failing statements, the minted ids and
  the answers of the outside.

  \<open>turn_gate\<close> makes the operations on turns exclude each other. The supervisor thread of a turn is
  not behind the gate; it is a list of stages.
\<close>

subsection \<open>State\<close>

record outside =
  su_env :: env
  su_cid :: "nat \<Rightarrow> command_id"
  su_worker :: worker_env
  su_program :: program_end
  su_delivered :: bool
  su_child :: bool          \<comment> \<open>the child process could be started\<close>
  su_thread :: "string option" \<comment> \<open>why the supervisor thread could not\<close>

record 'j claire_env =
  ce_codec :: "'j codec"
  ce_supply :: "nat \<Rightarrow> outside"
  ce_read :: "string \<Rightarrow> json option"
  ce_dbg :: "protocol_error option \<Rightarrow> string"
  ce_text :: "error \<Rightarrow> string"
  ce_bad :: string
  ce_bad_uuid :: "string \<Rightarrow> string"
  ce_claude_bin :: "string option"
  ce_codex_bin :: "string option"

record claire_job =
  jb_def :: engine_def
  jb_request :: run_request
  jb_live :: bool

datatype stage = Waiting | Joined "run_result option" | Saving run_result | Finishing run_result | Closing

record supervisor =
  sv_run :: run_id
  sv_task :: task_id
  sv_channel :: string
  sv_stage :: stage

record 'j claire =
  cl_hub :: "'j hub_state"
  cl_time :: nat
  cl_busy :: "run_id set"
  cl_jobs :: "run_id \<Rightarrow> claire_job option"
  cl_interrupted :: "run_id set"
  cl_threads :: "supervisor list"
  cl_programs :: "(string \<times> string list \<times> string option) list"
  cl_sent :: "string list"
  cl_cursor :: int
  cl_offset :: int

record claire_turn =
  tn_session :: assistant_session
  tn_system_prompt :: "string option"
  tn_prompt :: string

definition claire_new :: "'j hub_state \<Rightarrow> 'j claire" where
  "claire_new s =
     \<lparr>cl_hub = s, cl_time = 0, cl_busy = {}, cl_jobs = (\<lambda>_. None), cl_interrupted = {}, cl_threads = [],
      cl_programs = [], cl_sent = [], cl_cursor = 0, cl_offset = 0\<rparr>"

type_synonym ('j, 'a) claire_op = "('j claire, 'a) state"

abbreviation give :: "'a \<Rightarrow> ('s, 'a) state" where
  "give \<equiv> State_Monad.return"

abbreviation look :: "('s \<Rightarrow> 'a) \<Rightarrow> ('s, 'a) state" where
  "look f \<equiv> State_Monad.get \<bind> (\<lambda>w. give (f w))"

text \<open>The \<open>?\<close> operator.\<close>

definition attempt ::
  "('s, ('e, 'a) result) state \<Rightarrow> ('a \<Rightarrow> ('s, ('e, 'b) result) state) \<Rightarrow> ('s, ('e, 'b) result) state" where
  "attempt m f = m \<bind> (\<lambda>r. case r of Inl e \<Rightarrow> give (Inl e) | Inr x \<Rightarrow> f x)"

definition error_message :: "'j claire_env \<Rightarrow> error \<Rightarrow> string" where
  "error_message ce e = (case e of ErrMsg m \<Rightarrow> m | _ \<Rightarrow> ce_text ce e)"

definition error_json :: "string \<Rightarrow> json" where
  "error_json m = JObject [(''error'', JString m)]"

subsection \<open>Calls\<close>

definition hub_op ::
  "'j claire_env \<Rightarrow> (outside \<Rightarrow> 'j hub_state \<Rightarrow> 'a \<times> 'j hub_state) \<Rightarrow> ('j, 'a) claire_op" where
  "hub_op ce f = State (\<lambda>w.
     case f (ce_supply ce (cl_time w)) (cl_hub w) of
       (a, s) \<Rightarrow> (a, w\<lparr>cl_hub := s, cl_time := Suc (cl_time w)\<rparr>))"

definition settings_op :: "'j claire_env \<Rightarrow> ('j, (error, assistant_settings) result) claire_op" where
  "settings_op ce = hub_op ce (\<lambda>u s.
     (load_assistant_settings (ce_codec ce) (ce_bad ce) (v_io (su_env u) 0) (hs_hub s), s))"

definition save_settings_op :: "'j claire_env \<Rightarrow> assistant_settings \<Rightarrow> ('j, (error, unit) result) claire_op" where
  "save_settings_op ce settings = hub_op ce (\<lambda>u.
     save_assistant_settings (ce_codec ce) (v_io (su_env u) 0) (v_clock (su_env u) 0) settings)"

definition session_op :: "'j claire_env \<Rightarrow> string \<Rightarrow> ('j, (error, assistant_session option) result) claire_op" where
  "session_op ce channel = hub_op ce (\<lambda>u s.
     (load_assistant_session (ce_codec ce) (ce_bad ce) (v_io (su_env u) 0) channel (hs_hub s), s))"

definition save_session_op ::
  "'j claire_env \<Rightarrow> string \<Rightarrow> assistant_session \<Rightarrow> ('j, (error, unit) result) claire_op" where
  "save_session_op ce channel session = hub_op ce (\<lambda>u.
     save_assistant_session (ce_codec ce) (v_io (su_env u) 0) (v_clock (su_env u) 0) channel session)"

definition clear_session_op :: "'j claire_env \<Rightarrow> string \<Rightarrow> ('j, (error, unit) result) claire_op" where
  "clear_session_op ce channel = hub_op ce (\<lambda>u.
     clear_assistant_session (ce_codec ce) (v_io (su_env u) 0) (v_clock (su_env u) 0) channel)"

definition complete_wake_op :: "'j claire_env \<Rightarrow> event_id \<Rightarrow> ('j, (error, bool) result) claire_op" where
  "complete_wake_op ce eid = hub_op ce (\<lambda>u.
     with_hub (complete_assistant_wake (ce_codec ce) (v_io (su_env u) 0) (v_clock (su_env u) 0) eid))"

definition defer_wake_op :: "'j claire_env \<Rightarrow> event_id \<Rightarrow> string \<Rightarrow> ('j, (error, bool) result) claire_op" where
  "defer_wake_op ce eid reason = hub_op ce (\<lambda>u.
     with_hub (defer_assistant_wake (ce_codec ce) (v_io (su_env u) 0) (v_clock (su_env u) 0) eid reason))"

definition pending_wakes_op :: "'j claire_env \<Rightarrow> string \<Rightarrow> ('j, (error, assistant_wake list) result) claire_op" where
  "pending_wakes_op ce channel = hub_op ce (\<lambda>u s.
     (pending_assistant_wakes (ce_codec ce) (v_io (su_env u) 0) (v_clock (su_env u) 0) channel (hs_hub s), s))"

definition task_events_op :: "'j claire_env \<Rightarrow> task_id \<Rightarrow> ('j, (error, event list) result) claire_op" where
  "task_events_op ce tid = hub_op ce (\<lambda>u s.
     (task_events_tail (ce_codec ce) (v_io (su_env u) 0) tid 200 (hs_hub s), s))"

definition recent_events_op :: "'j claire_env \<Rightarrow> nat \<Rightarrow> ('j, (error, event list) result) claire_op" where
  "recent_events_op ce limit = hub_op ce (\<lambda>u s.
     (recent_events (ce_codec ce) (v_io (su_env u) 0) limit (hs_hub s), s))"

definition events_after_op :: "'j claire_env \<Rightarrow> int \<Rightarrow> ('j, (error, event list) result) claire_op" where
  "events_after_op ce after = hub_op ce (\<lambda>u s.
     (read_events_after (ce_codec ce) (v_io (su_env u) 0) after s, s))"

definition assistant_event_op ::
  "'j claire_env \<Rightarrow> event_kind \<Rightarrow> task_id \<Rightarrow> run_id \<Rightarrow> string option \<Rightarrow> json \<Rightarrow> ('j, (error, unit) result) claire_op" where
  "assistant_event_op ce kind tid rid provider payload = hub_op ce (\<lambda>u.
     append_hub_assistant_event (ce_codec ce) (su_env u) kind tid rid provider payload)"

definition assistant_message_op ::
  "'j claire_env \<Rightarrow> task_id \<Rightarrow> run_id \<Rightarrow> string \<Rightarrow> ('j, (error, unit) result) claire_op" where
  "assistant_message_op ce tid rid txt = hub_op ce (\<lambda>u.
     append_hub_assistant_message (ce_codec ce) (su_env u) (su_cid u 0) (su_cid u 1) tid rid txt)"

definition assistant_run_op ::
  "'j claire_env \<Rightarrow> task_id \<Rightarrow> assistant_settings \<Rightarrow> string \<Rightarrow> ('j, (error, run_id) result) claire_op" where
  "assistant_run_op ce tid settings prompt = hub_op ce (\<lambda>u.
     start_hub_assistant_run (ce_codec ce) (su_env u) (su_cid u 0) tid (as_engine settings)
       (assistant_model settings) (Some (as_reasoning_effort settings)) prompt (as_workspace settings))"

definition submit_op :: "'j claire_env \<Rightarrow> (command_id \<Rightarrow> client_command) \<Rightarrow> ('j, hub_to_client) claire_op" where
  "submit_op ce cmd = hub_op ce (\<lambda>u. submit_command (ce_codec ce) (su_env u) (cmd (su_cid u 0)))"

definition track_worker_op ::
  "'j claire_env \<Rightarrow> string \<Rightarrow> task_id \<Rightarrow> run_id \<Rightarrow> ('j, (error, unit) result) claire_op" where
  "track_worker_op ce channel tid rid = hub_op ce (\<lambda>u.
     track_assistant_worker (ce_codec ce) (v_io (su_env u) 0) (v_io (su_env u) 1) (v_clock (su_env u) 0) channel tid rid)"

definition submit_task ::
  "'j claire_env \<Rightarrow> string \<Rightarrow> string \<Rightarrow> string \<Rightarrow> node_id option \<Rightarrow> string \<Rightarrow> string option \<Rightarrow> string option
   \<Rightarrow> string option \<Rightarrow> ('j, (error, task_id \<times> run_id) result) claire_op" where
  "submit_task ce title prompt channel node engine model effort workspace = hub_op ce (\<lambda>u.
     create_worker_task (ce_codec ce) (ce_dbg ce) (su_worker u) (take_chars 100 title) prompt (Some channel) node
       engine model effort workspace)"

definition program_op :: "'j claire_env \<Rightarrow> string \<Rightarrow> string list \<Rightarrow> string option \<Rightarrow> ('j, program_end) claire_op" where
  "program_op ce executable args dir = State (\<lambda>w.
     (su_program (ce_supply ce (cl_time w)),
      w\<lparr>cl_time := Suc (cl_time w), cl_programs := cl_programs w @ [(executable, args, dir)]\<rparr>))"

definition send_op :: "'j claire_env \<Rightarrow> string \<Rightarrow> ('j, bool) claire_op" where
  "send_op ce txt = State (\<lambda>w.
     (su_delivered (ce_supply ce (cl_time w)), w\<lparr>cl_time := Suc (cl_time w), cl_sent := cl_sent w @ [txt]\<rparr>))"

definition mark_busy :: "run_id \<Rightarrow> ('j, unit) claire_op" where
  "mark_busy rid = State_Monad.update (\<lambda>w. w\<lparr>cl_busy := insert rid (cl_busy w)\<rparr>)"

definition unmark_busy :: "run_id option \<Rightarrow> ('j, unit) claire_op" where
  "unmark_busy rid =
     (case rid of None \<Rightarrow> give () | Some r \<Rightarrow> State_Monad.update (\<lambda>w. w\<lparr>cl_busy := cl_busy w - {r}\<rparr>))"

definition set_job :: "run_id \<Rightarrow> claire_job option \<Rightarrow> ('j, unit) claire_op" where
  "set_job rid job = State_Monad.update (\<lambda>w. w\<lparr>cl_jobs := (cl_jobs w)(rid := job)\<rparr>)"

subsection \<open>Memory\<close>

definition run_optmem :: "'j claire_env \<Rightarrow> assistant_settings \<Rightarrow> string list \<Rightarrow> ('j, (error, string) result) claire_op" where
  "run_optmem ce settings args =
     (case as_memory_command settings of
        None \<Rightarrow> give (Inl (ErrMsg ''OptMem command is not configured''))
      | Some executable \<Rightarrow>
          if \<not> path_is_absolute executable then give (Inl (ErrMsg ''OptMem command must be an absolute path''))
          else do {
            e \<leftarrow> program_op ce executable args (as_memory_dir settings);
            give (optmem_result e)
          })"

definition load_memory_context :: "'j claire_env \<Rightarrow> assistant_settings \<Rightarrow> ('j, (error, string) result) claire_op" where
  "load_memory_context ce settings =
     (if \<not> as_memory_enabled settings then give (Inr ''OptMem is disabled.'') else run_optmem ce settings [''wake''])"

definition save_memory_note :: "'j claire_env \<Rightarrow> assistant_settings \<Rightarrow> string \<Rightarrow> ('j, (error, unit) result) claire_op" where
  "save_memory_note ce settings note =
     (case check_memory_note settings note of
        Inl e \<Rightarrow> give (Inl e)
      | Inr _ \<Rightarrow> attempt (run_optmem ce settings [''note'', note]) (\<lambda>_. give (Inr ())))"

subsection \<open>Turns\<close>

definition is_terminal :: "run_id \<Rightarrow> event \<Rightarrow> bool" where
  "is_terminal rid ev \<longleftrightarrow> e_run_id ev = Some rid \<and> e_kind ev \<in> {RunCompleted, RunFailed, RunInterrupted}"

definition terminal_op :: "'j claire_env \<Rightarrow> task_id \<Rightarrow> run_id \<Rightarrow> ('j, bool) claire_op" where
  "terminal_op ce tid rid = do {
     es \<leftarrow> task_events_op ce tid;
     give (case es of Inl _ \<Rightarrow> False | Inr es \<Rightarrow> list_ex (is_terminal rid) es)
   }"

definition append_claire_start_failure :: "'j claire_env \<Rightarrow> assistant_session \<Rightarrow> string \<Rightarrow> ('j, unit) claire_op" where
  "append_claire_start_failure ce session message =
     (case se_run_id session of
        None \<Rightarrow> give ()
      | Some rid \<Rightarrow> do {
          already \<leftarrow> terminal_op ce (se_task_id session) rid;
          if already then give ()
          else do {
            assistant_event_op ce RunFailed (se_task_id session) rid (se_provider_session_id session) (error_json message);
            give ()
          }
        })"

definition forget_wake :: "'j claire_env \<Rightarrow> string \<Rightarrow> event_id \<Rightarrow> ('j, unit) claire_op" where
  "forget_wake ce channel eid = do {
     r \<leftarrow> session_op ce channel;
     (case r of
        Inr (Some current) \<Rightarrow>
          if se_pending_wake current = Some eid then do {
            save_session_op ce channel (current\<lparr>se_pending_wake := None\<rparr>);
            give ()
          } else give ()
      | _ \<Rightarrow> give ())
   }"

definition defer_session_wake :: "'j claire_env \<Rightarrow> string \<Rightarrow> assistant_session \<Rightarrow> string \<Rightarrow> ('j, unit) claire_op" where
  "defer_session_wake ce channel session reason =
     (case se_pending_wake session of
        None \<Rightarrow> give ()
      | Some eid \<Rightarrow> do { defer_wake_op ce eid reason; forget_wake ce channel eid })"

text \<open>A session without its turn: its run, its wake and its follow-up.\<close>

definition idle_session :: "assistant_session \<Rightarrow> assistant_session" where
  "idle_session session =
     session\<lparr>se_run_id := None, se_pending_wake := None, se_pending_follow_up := None, se_action_follow_up := False\<rparr>"

definition clear_current_run :: "'j claire_env \<Rightarrow> string \<Rightarrow> string \<Rightarrow> ('j, (error, unit) result) claire_op" where
  "clear_current_run ce channel engine =
     attempt (session_op ce channel) (\<lambda>found.
       case found of
         None \<Rightarrow> give (Inr ())
       | Some session \<Rightarrow> do {
           defer_session_wake ce channel session ''assistant configuration changed'';
           save_session_op ce channel ((idle_session session)\<lparr>se_engine := engine, se_provider_session_id := None\<rparr>)
         })"

definition middle_dot :: string where
  "middle_dot = [CHR 0xC2, CHR 0xB7]"

definition build_claire_system_prompt ::
  "'j claire_env \<Rightarrow> assistant_settings \<Rightarrow> task_id \<Rightarrow> ('j, (error, string) result) claire_op" where
  "build_claire_system_prompt ce settings tid = do {
     memory \<leftarrow> load_memory_context ce settings;
     attempt (task_events_op ce tid) (\<lambda>es.
       give (Inr (claire_system_prompt settings
         (case memory of Inr m \<Rightarrow> m | Inl e \<Rightarrow> ''OptMem is unavailable for this turn: '' @ error_message ce e)
         (conversation_history es))))
   }"

text \<open>The session of the channel, with a task of its own when there is none.\<close>

definition claire_session ::
  "'j claire_env \<Rightarrow> string \<Rightarrow> assistant_settings \<Rightarrow> ('j, (error, assistant_session) result) claire_op" where
  "claire_session ce channel settings =
     attempt (session_op ce channel) (\<lambda>found.
       case found of
         Some session \<Rightarrow> give (Inr session)
       | None \<Rightarrow> do {
           receipt \<leftarrow> submit_op ce (\<lambda>cid. CreateTask cid (as_name settings @ '' '' @ middle_dot @ '' Telegram''));
           (case ensure_accepted (ce_dbg ce) receipt of
              Inl e \<Rightarrow> give (Inl e)
            | Inr sequence \<Rightarrow>
                attempt (hub_op ce (\<lambda>u s. (event_at (ce_codec ce) (v_io (su_env u) 0) sequence s, s))) (\<lambda>ev.
                  give (Inr
                    \<lparr>se_task_id = e_task_id ev, se_run_id = None, se_engine = as_engine settings,
                     se_provider_session_id = None, se_pending_wake = None, se_pending_follow_up = None,
                     se_action_follow_up = False\<rparr>)))
         })"

text \<open>The run of the session, a new one when there is none or the engine has changed.\<close>

definition claire_run ::
  "'j claire_env \<Rightarrow> string \<Rightarrow> assistant_settings \<Rightarrow> string \<Rightarrow> assistant_session
   \<Rightarrow> ('j, (error, assistant_session) result) claire_op" where
  "claire_run ce channel settings prompt session =
     (let engine_changed = se_engine session \<noteq> as_engine settings in
      if se_run_id session = None \<or> engine_changed then
        attempt (assistant_run_op ce (se_task_id session) settings prompt) (\<lambda>rid.
          let session' = session\<lparr>se_run_id := Some rid, se_engine := as_engine settings,
                se_provider_session_id := (if engine_changed then None else se_provider_session_id session)\<rparr>
          in attempt (save_session_op ce channel session') (\<lambda>_. give (Inr session')))
      else give (Inr session))"

definition submit_claire_prompt ::
  "'j claire_env \<Rightarrow> string \<Rightarrow> string \<Rightarrow> ('j, (error, claire_turn) result) claire_op" where
  "submit_claire_prompt ce channel txt =
     attempt (settings_op ce) (\<lambda>settings.
     attempt (claire_session ce channel settings) (\<lambda>session0.
     attempt (build_claire_system_prompt ce settings (se_task_id session0)) (\<lambda>contract.
     attempt (claire_run ce channel settings contract session0) (\<lambda>session.
     case se_run_id session of
       None \<Rightarrow> give (Inl (ErrMsg ''Claire's run was not created''))
     | Some rid \<Rightarrow>
         attempt (recent_events_op ce 200) (\<lambda>es.
         let prompt = ''[Current Stackhour context]'' @ [newline] @ recent_task_context (ce_codec ce) es @
               [newline, newline] @ ''[Message from Nikita]'' @ [newline] @ txt
         in attempt (assistant_message_op ce (se_task_id session) rid prompt) (\<lambda>_.
            give (Inr \<lparr>tn_session = session, tn_system_prompt = Some contract, tn_prompt = prompt\<rparr>)))))))"

subsection \<open>The runner\<close>

definition claire_engine :: "string \<Rightarrow> (error, engine_def) result" where
  "claire_engine engine =
     (if engine = ''claude'' then Inr builtin_claude
      else if engine = ''codex'' then Inr builtin_codex
      else Inl (ErrMsg ''Claire's engine must be claude or codex''))"

definition turn_request :: "'j claire_env \<Rightarrow> assistant_settings \<Rightarrow> claire_turn \<Rightarrow> run_request" where
  "turn_request ce settings turn =
     \<lparr>rr_prompt = tn_prompt turn, rr_session_id = se_provider_session_id (tn_session turn),
      rr_model = assistant_model settings, rr_system_prompt = tn_system_prompt turn,
      rr_effort = Some (as_reasoning_effort settings), rr_permission_mode = Some ''default'',
      rr_cwd = as_workspace settings, rr_live_status = True,
      rr_bin = (if as_engine settings = ''claude'' then ce_claude_bin ce else ce_codex_bin ce)\<rparr>"

text \<open>\<open>spawn_engine\<close> and the thread that waits for it. A child that could not be started has no process id.\<close>

definition spawn_op ::
  "'j claire_env \<Rightarrow> string \<Rightarrow> assistant_session \<Rightarrow> run_id \<Rightarrow> engine_def \<Rightarrow> run_request \<Rightarrow> ('j, string option) claire_op" where
  "spawn_op ce channel session rid def req = State (\<lambda>w.
     let u = ce_supply ce (cl_time w);
         w1 = w\<lparr>cl_time := Suc (cl_time w),
               cl_jobs := (cl_jobs w)(rid := Some \<lparr>jb_def = def, jb_request = req, jb_live = su_child u\<rparr>)\<rparr>
     in case su_thread u of
          Some reason \<Rightarrow> (Some reason, w1)
        | None \<Rightarrow>
            (None, w1\<lparr>cl_threads := cl_threads w1
               @ [\<lparr>sv_run = rid, sv_task = se_task_id session, sv_channel = channel, sv_stage = Waiting\<rparr>]\<rparr>))"

definition runner_start ::
  "'j claire_env \<Rightarrow> string \<Rightarrow> assistant_settings \<Rightarrow> claire_turn \<Rightarrow> ('j, (error, unit) result) claire_op" where
  "runner_start ce channel settings turn =
     (case se_run_id (tn_session turn) of
        None \<Rightarrow> give (Inl (ErrMsg ''Claire's hub-local run is missing''))
      | Some rid \<Rightarrow> do {
          running \<leftarrow> look (\<lambda>w. cl_jobs w rid \<noteq> None);
          if running then give (Inl (ErrMsg ''Claire already has a turn running''))
          else
            (case claire_engine (as_engine settings) of
               Inl e \<Rightarrow> give (Inl e)
             | Inr def \<Rightarrow> do {
                 refused \<leftarrow> spawn_op ce channel (tn_session turn) rid def (turn_request ce settings turn);
                 (case refused of
                    None \<Rightarrow> give (Inr ())
                  | Some reason \<Rightarrow> do {
                      set_job rid None;
                      assistant_event_op ce RunFailed (se_task_id (tn_session turn)) rid
                        (se_provider_session_id (tn_session turn))
                        (error_json (''cannot start Claire supervisor: '' @ reason));
                      give (Inl (ErrMsg (''cannot start Claire supervisor: '' @ reason)))
                    })
               })
        })"

definition runner_stop :: "'j claire_env \<Rightarrow> assistant_session \<Rightarrow> ('j, (error, bool) result) claire_op" where
  "runner_stop ce session =
     (case se_run_id session of
        None \<Rightarrow> give (Inr False)
      | Some rid \<Rightarrow> do {
          live \<leftarrow> look (\<lambda>w. case cl_jobs w rid of Some job \<Rightarrow> jb_live job | None \<Rightarrow> False);
          if \<not> live then give (Inr False)
          else do {
            State_Monad.update (\<lambda>w. w\<lparr>cl_interrupted := insert rid (cl_interrupted w)\<rparr>);
            attempt (assistant_event_op ce RunInterrupted (se_task_id session) rid (se_provider_session_id session)
              (JObject [])) (\<lambda>_. give (Inr True))
          }
        })"

definition is_running :: "run_id \<Rightarrow> 'j claire \<Rightarrow> bool" where
  "is_running rid w \<longleftrightarrow> cl_jobs w rid \<noteq> None"

definition start_claire_turn ::
  "'j claire_env \<Rightarrow> string \<Rightarrow> string \<Rightarrow> ('j, (error, string option) result) claire_op" where
  "start_claire_turn ce channel prompt =
     attempt (submit_claire_prompt ce channel prompt) (\<lambda>turn.
     (let session = tn_session turn in do {
       (case se_run_id session of Some rid \<Rightarrow> mark_busy rid | None \<Rightarrow> give ());
       r \<leftarrow> settings_op ce;
       (case r of
          Inl e \<Rightarrow>
            (case se_run_id session of
               None \<Rightarrow> give (Inl e)
             | Some rid \<Rightarrow> do {
                 unmark_busy (Some rid);
                 assistant_event_op ce RunFailed (se_task_id session) rid (se_provider_session_id session)
                   (error_json (error_message ce e));
                 give (Inl e)
               })
        | Inr settings \<Rightarrow> do {
            started \<leftarrow> runner_start ce channel settings turn;
            (case started of
               Inr _ \<Rightarrow> give (Inr None)
             | Inl e \<Rightarrow> do {
                 unmark_busy (se_run_id session);
                 append_claire_start_failure ce session (error_message ce e);
                 give (Inl e)
               })
          })
     }))"

end
