(* ===== verification/Claire_Chat.thy ===== *)
theory Claire_Chat
  imports Claire
begin

text \<open>
  What drives the assistant (\<open>crates/stackhour/src/control.rs\<close>): the messages of the chat, the events
  of her task, the end of her process, and the passes of the output thread that reconcile, follow
  up and wake her.
\<close>

subsection \<open>Messages of the chat\<close>

definition em_dash :: string where
  "em_dash = [CHR 0xE2, CHR 0x80, CHR 0x94]"

definition help_text :: string where
  "help_text =
     ''I'm Claire. Talk to me normally, or use:'' @ [newline] @
     ''/claude '' @ middle_dot @ '' /codex '' @ em_dash @ '' switch my engine'' @ [newline] @
     ''/model [name] '' @ em_dash @ '' show or change this engine's model'' @ [newline] @
     ''/where '' @ em_dash @ '' show my current configuration'' @ [newline] @
     ''/tasks '' @ em_dash @ '' recent Stackhour task activity'' @ [newline] @
     ''/remember <fact> '' @ em_dash @ '' save a durable OptMem note'' @ [newline] @
     ''/new '' @ em_dash @ '' start a fresh conversation'' @ [newline] @
     ''/stop '' @ em_dash @ '' interrupt my current turn''"

definition where_text :: "assistant_settings \<Rightarrow> string" where
  "where_text settings =
     as_name settings @ '' '' @ middle_dot @ '' '' @ as_engine settings
     @ (case assistant_model settings of Some m \<Rightarrow> '' / '' @ m | None \<Rightarrow> [])
     @ '' '' @ middle_dot @ '' effort '' @ as_reasoning_effort settings @ '' '' @ middle_dot @ '' hub-local ''
     @ middle_dot @ '' memory '' @ (if as_memory_enabled settings then ''OptMem'' else ''off'')"

definition busy_text :: string where
  "busy_text = ''I'm still working on the previous message. Let me finish that turn first.''"

definition switch_engine :: "'j claire_env \<Rightarrow> string \<Rightarrow> string \<Rightarrow> ('j, (error, string option) result) claire_op" where
  "switch_engine ce channel engine =
     attempt (settings_op ce) (\<lambda>settings0.
     (let settings = settings0\<lparr>as_engine := engine\<rparr> in
      attempt (save_settings_op ce settings) (\<lambda>_.
      attempt (clear_current_run ce channel engine) (\<lambda>_.
      give (Inr (Some (''Switched to '' @ engine
        @ (case assistant_model settings of Some m \<Rightarrow> '' using '' @ m | None \<Rightarrow> []) @ ''.'')))))))"

definition change_model :: "'j claire_env \<Rightarrow> string \<Rightarrow> string \<Rightarrow> ('j, (error, string option) result) claire_op" where
  "change_model ce channel model =
     (case validate_selector ''model'' model of
        Inl e \<Rightarrow> give (Inl e)
      | Inr _ \<Rightarrow>
          attempt (settings_op ce) (\<lambda>settings0.
          (let settings = (if as_engine settings0 = ''claude'' then settings0\<lparr>as_claude_model := Some model\<rparr>
                           else settings0\<lparr>as_codex_model := Some model\<rparr>) in
           attempt (save_settings_op ce settings) (\<lambda>_.
           attempt (clear_current_run ce channel (as_engine settings)) (\<lambda>_.
           give (Inr (Some (as_engine settings @ '' will use '' @ model @ '' on the next turn.''))))))))"

definition show_model :: "'j claire_env \<Rightarrow> ('j, (error, string option) result) claire_op" where
  "show_model ce =
     attempt (settings_op ce) (\<lambda>settings.
       give (Inr (Some (case assistant_model settings of
          Some m \<Rightarrow> as_engine settings @ '' uses '' @ m @ ''.''
        | None \<Rightarrow> as_engine settings @ '' uses its CLI default model.''))))"

definition reset_conversation :: "'j claire_env \<Rightarrow> string \<Rightarrow> ('j, (error, string option) result) claire_op" where
  "reset_conversation ce channel =
     attempt (session_op ce channel) (\<lambda>found. do {
       (case found of Some session \<Rightarrow> defer_session_wake ce channel session ''conversation reset'' | None \<Rightarrow> give ());
       attempt (clear_session_op ce channel) (\<lambda>_. give (Inr (Some ''Fresh conversation. What are we doing?'')))
     })"

definition stop_turn :: "'j claire_env \<Rightarrow> string \<Rightarrow> ('j, (error, string option) result) claire_op" where
  "stop_turn ce channel =
     attempt (session_op ce channel) (\<lambda>found.
       case found of
         None \<Rightarrow> give (Inr (Some ''Nothing is running.''))
       | Some session \<Rightarrow>
           attempt (runner_stop ce session) (\<lambda>stopped.
             if \<not> stopped then give (Inr (Some ''Nothing is running.''))
             else do {
               defer_session_wake ce channel session ''assessment stopped by user'';
               unmark_busy (se_run_id session);
               attempt (save_session_op ce channel ((idle_session session)\<lparr>se_provider_session_id := None\<rparr>)) (\<lambda>_.
                 give (Inr (Some ''I asked the current turn to stop.'')))
             }))"

definition claire_command ::
  "'j claire_env \<Rightarrow> string \<Rightarrow> string \<Rightarrow> ('j, (error, string option) result) claire_op" where
  "claire_command ce channel trimmed =
     (if trimmed = ''/help'' \<or> trimmed = ''/start'' then give (Inr (Some help_text))
      else if trimmed = ''/where'' then
        attempt (settings_op ce) (\<lambda>settings. give (Inr (Some (where_text settings))))
      else if trimmed = ''/claude'' \<or> trimmed = ''/codex'' then
        switch_engine ce channel (trim_start_matches ''/'' trimmed)
      else if trimmed = ''/new'' then reset_conversation ce channel
      else if trimmed = ''/stop'' then stop_turn ce channel
      else if trimmed = ''/tasks'' then
        start_claire_turn ce channel
          ''Review current Stackhour task activity and decide what is useful to tell Nikita.''
      else if trimmed = ''/model'' then show_model ce
      else if starts_with ''/model '' trimmed then
        change_model ce channel (str_trim (trim_start_matches ''/model '' trimmed))
      else if starts_with ''/remember '' trimmed then
        attempt (settings_op ce) (\<lambda>settings.
        attempt (save_memory_note ce settings (str_trim (trim_start_matches ''/remember '' trimmed))) (\<lambda>_.
        give (Inr (Some ''Remembered.''))))
      else if starts_with ''/'' trimmed then
        give (Inr (Some ''I don't know that command. Use /help, or just talk to me.''))
      else start_claire_turn ce channel trimmed)"

definition handle_claire_input ::
  "'j claire_env \<Rightarrow> string \<Rightarrow> string \<Rightarrow> ('j, (error, string option) result) claire_op" where
  "handle_claire_input ce channel txt =
     (let trimmed = str_trim txt in
      attempt (session_op ce channel) (\<lambda>found. do {
        busy \<leftarrow> look (\<lambda>w. case Option.bind found se_run_id of Some rid \<Rightarrow> rid \<in> cl_busy w | None \<Rightarrow> False);
        (if busy \<and> trimmed \<noteq> ''/stop'' \<and> trimmed \<noteq> ''/where'' then give (Inr (Some busy_text))
         else claire_command ce channel trimmed)
      }))"

text \<open>One update of the chat: a text message of the chat by a person.\<close>

definition update_text :: "int \<Rightarrow> json \<Rightarrow> string option" where
  "update_text chat_id update =
     (case (case json_get update ''message'' of Some m \<Rightarrow> Some m | None \<Rightarrow> json_get update ''edited_message'') of
        None \<Rightarrow> None
      | Some message \<Rightarrow>
          if Option.bind (Option.bind (json_get message ''chat'') (\<lambda>v. json_get v ''id'')) as_i64 \<noteq> Some chat_id
          then None
          else if Option.bind (Option.bind (json_get message ''from'') (\<lambda>v. json_get v ''is_bot'')) as_bool = Some True
          then None
          else Option.bind (json_get message ''text'') as_str)"

definition handle_update :: "'j claire_env \<Rightarrow> string \<Rightarrow> int \<Rightarrow> json \<Rightarrow> ('j, unit) claire_op" where
  "handle_update ce channel chat_id update = do {
     State_Monad.update (\<lambda>w. w\<lparr>cl_offset :=
       (case Option.bind (json_get update ''update_id'') as_i64 of Some n \<Rightarrow> n | None \<Rightarrow> cl_offset w) + 1\<rparr>);
     (case update_text chat_id update of
        None \<Rightarrow> give ()
      | Some txt \<Rightarrow> do {
          r \<leftarrow> handle_claire_input ce channel txt;
          (case r of
             Inr (Some reply) \<Rightarrow> do { send_op ce reply; give () }
           | Inr None \<Rightarrow> give ()
           | Inl _ \<Rightarrow> do { send_op ce ''Claire could not accept that message. Please try again.''; give () })
        })
   }"

subsection \<open>Her answers\<close>

definition parse_uuid_arg :: "'j claire_env \<Rightarrow> string \<Rightarrow> (uuid \<Rightarrow> 'i) \<Rightarrow> string \<Rightarrow> (error, 'i) result" where
  "parse_uuid_arg ce label mk s =
     ok_or (map_option mk (uuid_parse (ce_codec ce) s)) (ErrMsg (label @ ce_bad_uuid ce s))"

definition create_task_action ::
  "'j claire_env \<Rightarrow> string \<Rightarrow> assistant_settings \<Rightarrow> string \<Rightarrow> string \<Rightarrow> string option \<Rightarrow> string option
   \<Rightarrow> string option \<Rightarrow> string option \<Rightarrow> string option \<Rightarrow> ('j, (error, string) result) claire_op" where
  "create_task_action ce channel settings title prompt node engine_opt model effort_opt workspace =
     (let engine = (case engine_opt of Some e \<Rightarrow> e | None \<Rightarrow> as_engine settings);
          effort = (case effort_opt of Some e \<Rightarrow> e | None \<Rightarrow> as_reasoning_effort settings);
          checked =
            bind_res (validate_selector ''engine'' engine) (\<lambda>_.
            bind_res (if engine \<notin> {''claude'', ''codex''}
                      then Inl (ErrMsg ''worker engine must be claude or codex'') else Inr ()) (\<lambda>_.
            bind_res (case model of Some m \<Rightarrow> validate_selector ''model'' m | None \<Rightarrow> Inr ()) (\<lambda>_.
            bind_res (validate_effort effort) (\<lambda>_.
            bind_res (case node of Some n \<Rightarrow> validate_selector ''node id'' n | None \<Rightarrow> Inr ()) (\<lambda>_.
            case workspace of
              Some path \<Rightarrow> if \<not> path_is_absolute path
                then Inl (ErrMsg ''worker workspace must be an absolute path'') else Inr ()
            | None \<Rightarrow> Inr ())))))
      in case checked of
           Inl e \<Rightarrow> give (Inl e)
         | Inr _ \<Rightarrow>
             attempt (submit_task ce title prompt channel (map_option NodeId node) engine model (Some effort)
               (case workspace of Some path \<Rightarrow> Some path | None \<Rightarrow> as_workspace settings)) (\<lambda>(tid, rid).
               give (Inr (''Started task '' @ short_task (ce_codec ce) tid @ '' (run ''
                 @ short_run (ce_codec ce) rid @ '').''))))"

text \<open>\<open>submit_command\<close> with two minted ids.\<close>

definition send_message_op ::
  "'j claire_env \<Rightarrow> task_id \<Rightarrow> run_id \<Rightarrow> string \<Rightarrow> ('j, hub_to_client) claire_op" where
  "send_message_op ce tid rid txt = hub_op ce (\<lambda>u.
     submit_command (ce_codec ce) (su_env u)
       (SendUserMessage (su_cid u 0) tid (Some rid) txt (command_id_str (ce_codec ce) (su_cid u 1))))"

fun execute_claire_action ::
  "'j claire_env \<Rightarrow> string \<Rightarrow> assistant_settings \<Rightarrow> claire_action \<Rightarrow> ('j, (error, string) result) claire_op" where
  "execute_claire_action ce channel settings (CreateTaskAction title prompt node engine model effort workspace) =
     create_task_action ce channel settings title prompt node engine model effort workspace"
| "execute_claire_action ce channel settings (SendMessageAction task run txt) =
     (case bind_res (parse_uuid_arg ce ''bad task id: '' TaskId task) (\<lambda>tid.
           bind_res (parse_uuid_arg ce ''bad run id: '' RunId run) (\<lambda>rid. Inr (tid, rid))) of
        Inl e \<Rightarrow> give (Inl e)
      | Inr (tid, rid) \<Rightarrow>
          attempt (track_worker_op ce channel tid rid) (\<lambda>_. do {
            receipt \<leftarrow> send_message_op ce tid rid txt;
            give (bind_res (ensure_accepted (ce_dbg ce) receipt) (\<lambda>_.
              Inr (''Sent a follow-up to task '' @ short_task (ce_codec ce) tid @ ''.'')))
          }))"
| "execute_claire_action ce channel settings (StopRunAction run) =
     (case parse_uuid_arg ce ''bad run id: '' RunId run of
        Inl e \<Rightarrow> give (Inl e)
      | Inr rid \<Rightarrow> do {
          receipt \<leftarrow> submit_op ce (\<lambda>cid. InterruptRun cid rid);
          give (bind_res (ensure_accepted (ce_dbg ce) receipt) (\<lambda>_.
            Inr (''Stopped run '' @ short_run (ce_codec ce) rid @ ''.'')))
        })"
| "execute_claire_action ce channel settings UnknownAction =
     give (Inl (ErrMsg ''unsupported Claire action''))"

record claire_projection =
  pj_reply :: "string option"
  pj_wake :: "event_id option"
  pj_awaiting :: bool

abbreviation silent :: claire_projection where
  "silent \<equiv> \<lparr>pj_reply = None, pj_wake = None, pj_awaiting = False\<rparr>"

text \<open>An answer that cannot be used: the follow-up is dropped and the wake deferred; a person who waits is told.\<close>

definition refuse_answer :: "'j claire_env \<Rightarrow> string \<Rightarrow> string \<Rightarrow> string \<Rightarrow> ('j, claire_projection) claire_op" where
  "refuse_answer ce channel reason reply = do {
     r \<leftarrow> session_op ce channel;
     was_wake \<leftarrow>
       (case r of
          Inr (Some session0) \<Rightarrow>
            (let session = session0\<lparr>se_action_follow_up := False, se_pending_follow_up := None\<rparr> in do {
               save_session_op ce channel session;
               defer_session_wake ce channel session reason;
               give (se_pending_wake session0 \<noteq> None)
             })
        | _ \<Rightarrow> give False);
     give \<lparr>pj_reply = (if was_wake then None else Some reply), pj_wake = None, pj_awaiting = False\<rparr>
   }"

definition follow_up_op :: "'j claire_env \<Rightarrow> string \<Rightarrow> ('j, bool) claire_op" where
  "follow_up_op ce channel = do {
     r \<leftarrow> session_op ce channel;
     give (case r of Inr (Some session) \<Rightarrow> se_action_follow_up session | _ \<Rightarrow> False)
   }"

definition memory_failure :: "'j claire_env \<Rightarrow> assistant_settings \<Rightarrow> string \<Rightarrow> ('j, string option) claire_op" where
  "memory_failure ce settings note = do {
     r \<leftarrow> save_memory_note ce settings note;
     give (case r of Inl e \<Rightarrow> Some (''Memory action failed: '' @ error_message ce e) | Inr _ \<Rightarrow> None)
   }"

definition action_outcome ::
  "'j claire_env \<Rightarrow> string \<Rightarrow> assistant_settings \<Rightarrow> claire_action \<Rightarrow> ('j, string) claire_op" where
  "action_outcome ce channel settings action = do {
     r \<leftarrow> execute_claire_action ce channel settings action;
     give (case r of Inr result \<Rightarrow> result | Inl e \<Rightarrow> ''Action failed: '' @ error_message ce e)
   }"

definition internal_work :: "'j claire_env \<Rightarrow> string \<Rightarrow> claire_envelope \<Rightarrow> ('j, string list) claire_op" where
  "internal_work ce channel envelope = do {
     r \<leftarrow> settings_op ce;
     (case r of
        Inr settings \<Rightarrow> do {
          failures \<leftarrow> traverse_list (memory_failure ce settings) (en_remember envelope);
          outcomes \<leftarrow> traverse_list (action_outcome ce channel settings) (en_actions envelope);
          give (List.map_filter (\<lambda>x. x) failures @ outcomes)
        }
      | Inl e \<Rightarrow>
          if en_remember envelope \<noteq> [] \<or> en_actions envelope \<noteq> [] then
            give [''Internal settings unavailable; no requested action ran: '' @ error_message ce e]
          else give [])
   }"

definition follow_up_text :: "string list \<Rightarrow> string" where
  "follow_up_text results =
     ''Internal Stackhour action results:'' @ [newline] @ str_join [newline] results @ [newline, newline] @
     ''Reassess now and make the final notify/reply decision. Do not claim '' @
     ''anything beyond these results.''"

definition answer_reply ::
  "'j claire_env \<Rightarrow> string \<Rightarrow> claire_envelope \<Rightarrow> string list \<Rightarrow> ('j, string option) claire_op" where
  "answer_reply ce channel envelope results =
     (if results = [] then
        give (if en_notify envelope \<and> \<not> trim_is_empty (en_reply envelope) then Some (en_reply envelope) else None)
      else do {
        r \<leftarrow> session_op ce channel;
        (case r of
           Inr (Some session) \<Rightarrow> do {
             save_session_op ce channel (session\<lparr>se_pending_follow_up := Some (follow_up_text results)\<rparr>);
             give None
           }
         | _ \<Rightarrow> give None)
      })"

definition clear_follow_up :: "'j claire_env \<Rightarrow> string \<Rightarrow> ('j, unit) claire_op" where
  "clear_follow_up ce channel = do {
     r \<leftarrow> session_op ce channel;
     (case r of
        Inr (Some session) \<Rightarrow> do { save_session_op ce channel (session\<lparr>se_action_follow_up := False\<rparr>); give () }
      | _ \<Rightarrow> give ())
   }"

definition use_answer :: "'j claire_env \<Rightarrow> string \<Rightarrow> claire_envelope \<Rightarrow> ('j, claire_projection) claire_op" where
  "use_answer ce channel envelope = do {
     results \<leftarrow> internal_work ce channel envelope;
     reply \<leftarrow> answer_reply ce channel envelope results;
     r \<leftarrow> session_op ce channel;
     give \<lparr>pj_reply = reply,
           pj_wake = (case r of Inr (Some session) \<Rightarrow> se_pending_wake session | _ \<Rightarrow> None),
           pj_awaiting = (results \<noteq> [])\<rparr>
   }"

definition process_answer :: "'j claire_env \<Rightarrow> string \<Rightarrow> event \<Rightarrow> ('j, claire_projection) claire_op" where
  "process_answer ce channel ev =
     (let envelope = parse_claire_envelope (ce_read ce) (case payload_text ev ''text'' of Some t \<Rightarrow> t | None \<Rightarrow> []) in
      if en_malformed envelope then
        refuse_answer ce channel ''Claire returned a malformed envelope''
          ''Claire returned an invalid response. Please try again.''
      else do {
        follow_up \<leftarrow> follow_up_op ce channel;
        (if follow_up \<and> (en_remember envelope \<noteq> [] \<or> en_actions envelope \<noteq> []) then
           refuse_answer ce channel ''Claire requested another action during final disclosure''
             ''Claire couldn't finalize that turn. Please try again.''
         else do {
           (if follow_up then clear_follow_up ce channel else give ());
           use_answer ce channel envelope
         })
      })"

definition process_failure :: "'j claire_env \<Rightarrow> string \<Rightarrow> event \<Rightarrow> ('j, claire_projection) claire_op" where
  "process_failure ce channel ev = do {
     unmark_busy (e_run_id ev);
     (let message = (case payload_text ev ''error'' of Some m \<Rightarrow> m | None \<Rightarrow> ''Unknown engine error.'') in do {
        r \<leftarrow> session_op ce channel;
        (case r of
           Inr (Some session) \<Rightarrow>
             if se_run_id session \<noteq> e_run_id ev then give silent
             else do {
               (case se_pending_wake session of
                  Some eid \<Rightarrow> do { defer_wake_op ce eid message; give () }
                | None \<Rightarrow> give ());
               save_session_op ce channel (idle_session session);
               give \<lparr>pj_reply = (if se_pending_wake session = None
                       then Some ''Claire couldn't finish that turn. Please try again.'' else None),
                     pj_wake = None, pj_awaiting = False\<rparr>
             }
         | _ \<Rightarrow> give silent)
      })
   }"

definition process_interruption :: "'j claire_env \<Rightarrow> string \<Rightarrow> event \<Rightarrow> ('j, claire_projection) claire_op" where
  "process_interruption ce channel ev = do {
     unmark_busy (e_run_id ev);
     r \<leftarrow> session_op ce channel;
     (case r of
        Inr (Some session) \<Rightarrow>
          if se_run_id session \<noteq> e_run_id ev then give silent
          else do {
            (case se_pending_wake session of
               Some eid \<Rightarrow> do { defer_wake_op ce eid ''assessment interrupted''; give () }
             | None \<Rightarrow> give ());
            save_session_op ce channel (idle_session session);
            give silent
          }
      | _ \<Rightarrow> give silent)
   }"

definition process_completion :: "'j claire_env \<Rightarrow> string \<Rightarrow> event \<Rightarrow> ('j, claire_projection) claire_op" where
  "process_completion ce channel ev = do {
     unmark_busy (e_run_id ev);
     r \<leftarrow> session_op ce channel;
     (case r of
        Inr (Some session) \<Rightarrow>
          if se_run_id session \<noteq> e_run_id ev then give silent
          else do {
            save_session_op ce channel (session\<lparr>se_run_id := None\<rparr>);
            give silent
          }
      | _ \<Rightarrow> give silent)
   }"

definition process_claire_event :: "'j claire_env \<Rightarrow> string \<Rightarrow> event \<Rightarrow> ('j, claire_projection) claire_op" where
  "process_claire_event ce channel ev =
     (case e_kind ev of
        MessageAssistantCompleted \<Rightarrow> process_answer ce channel ev
      | RunFailed \<Rightarrow> process_failure ce channel ev
      | RunInterrupted \<Rightarrow> process_interruption ce channel ev
      | RunCompleted \<Rightarrow> process_completion ce channel ev
      | _ \<Rightarrow> give silent)"

definition deliver_op :: "'j claire_env \<Rightarrow> string option \<Rightarrow> ('j, bool) claire_op" where
  "deliver_op ce reply = (case reply of None \<Rightarrow> give True | Some txt \<Rightarrow> send_op ce txt)"

definition settle_wake :: "'j claire_env \<Rightarrow> string \<Rightarrow> claire_projection \<Rightarrow> bool \<Rightarrow> ('j, unit) claire_op" where
  "settle_wake ce channel projection delivered =
     (case pj_wake projection of
        None \<Rightarrow> give ()
      | Some eid \<Rightarrow>
          if delivered \<and> \<not> pj_awaiting projection then do {
            complete_wake_op ce eid;
            forget_wake ce channel eid
          }
          else if \<not> delivered then do {
            defer_wake_op ce eid ''Telegram delivery failed'';
            forget_wake ce channel eid
          }
          else give ())"

definition handle_claire_event :: "'j claire_env \<Rightarrow> string \<Rightarrow> event \<Rightarrow> ('j, unit) claire_op" where
  "handle_claire_event ce channel ev = do {
     projection \<leftarrow> process_claire_event ce channel ev;
     delivered \<leftarrow> deliver_op ce (pj_reply projection);
     settle_wake ce channel projection delivered
   }"

end
