(* ===== verification/Claire_Loop.thy ===== *)
theory Claire_Loop
  imports Claire_Chat Cli_Engine
begin

text \<open>
  The threads around the assistant (\<open>crates/stackhour/src/control.rs\<close>): the supervisor of a turn, the
  passes of the output thread, and the start of the hub with its recovery. Her process ends by
  itself or when it is told to; its result is any.
\<close>

subsection \<open>The supervisor of a turn\<close>

definition turn_succeeded :: "run_result \<Rightarrow> bool" where
  "turn_succeeded r \<longleftrightarrow> re_code r = Some 0 \<and> re_error r = None"

definition failure_json :: "run_result \<Rightarrow> json" where
  "failure_json r =
     JObject [(''error'', JString (failure_text r)), (''code'', json_of_opt json_of_i64 (re_code r))]"

text \<open>One stage of the thread, and the next; nothing at its end.\<close>

definition supervise :: "'j claire_env \<Rightarrow> supervisor \<Rightarrow> ('j, stage option) claire_op" where
  "supervise ce t =
     (case sv_stage t of
        Waiting \<Rightarrow> give (Some Waiting)
      | Joined result \<Rightarrow> do {
          interrupted \<leftarrow> look (\<lambda>w. sv_run t \<in> cl_interrupted w);
          State_Monad.update (\<lambda>w. w\<lparr>cl_interrupted := cl_interrupted w - {sv_run t}\<rparr>);
          (if interrupted then do { set_job (sv_run t) None; give None }
           else
             (case result of
                Some r \<Rightarrow>
                  if turn_succeeded r then give (Some (Saving r))
                  else do {
                    assistant_event_op ce RunFailed (sv_task t) (sv_run t) (re_session_id r) (failure_json r);
                    give (Some Closing)
                  }
              | None \<Rightarrow> do {
                  assistant_event_op ce RunFailed (sv_task t) (sv_run t) None
                    (error_json ''Claire engine supervisor failed'');
                  give (Some Closing)
                }))
        }
      | Saving r \<Rightarrow> do {
          found \<leftarrow> session_op ce (sv_channel t);
          (case found of
             Inr (Some session) \<Rightarrow>
               if se_run_id session = Some (sv_run t) then do {
                 save_session_op ce (sv_channel t) (session\<lparr>se_provider_session_id := re_session_id r\<rparr>);
                 give ()
               } else give ()
           | _ \<Rightarrow> give ());
          give (Some (Finishing r))
        }
      | Finishing r \<Rightarrow> do {
          assistant_event_op ce MessageAssistantCompleted (sv_task t) (sv_run t) (re_session_id r)
            (JObject [(''text'', JString (re_text r))]);
          assistant_event_op ce RunCompleted (sv_task t) (sv_run t) (re_session_id r) (JObject []);
          give (Some Closing)
        }
      | Closing \<Rightarrow> do { set_job (sv_run t) None; give None })"

definition set_thread :: "nat \<Rightarrow> stage option \<Rightarrow> 'j claire \<Rightarrow> 'j claire" where
  "set_thread i next_stage w =
     w\<lparr>cl_threads :=
       (case next_stage of
          Some st \<Rightarrow> (cl_threads w)[i := (cl_threads w ! i)\<lparr>sv_stage := st\<rparr>]
        | None \<Rightarrow> take i (cl_threads w) @ drop (Suc i) (cl_threads w))\<rparr>"

definition advance :: "'j claire_env \<Rightarrow> nat \<Rightarrow> ('j, unit) claire_op" where
  "advance ce i = do {
     threads \<leftarrow> look cl_threads;
     (if i < length threads then do {
        st \<leftarrow> supervise ce (threads ! i);
        State_Monad.update (set_thread i st)
      } else give ())
   }"

text \<open>The process of a run ends, and the thread that waits for it joins with its result.\<close>

definition process_ends :: "run_id \<Rightarrow> 'j claire \<Rightarrow> 'j claire" where
  "process_ends rid w =
     w\<lparr>cl_jobs := (\<lambda>r. if r = rid then map_option (\<lambda>job. job\<lparr>jb_live := False\<rparr>) (cl_jobs w r) else cl_jobs w r)\<rparr>"

definition can_join :: "nat \<Rightarrow> 'j claire \<Rightarrow> bool" where
  "can_join i w \<longleftrightarrow>
     i < length (cl_threads w) \<and> sv_stage (cl_threads w ! i) = Waiting \<and>
     (case cl_jobs w (sv_run (cl_threads w ! i)) of Some job \<Rightarrow> \<not> jb_live job | None \<Rightarrow> True)"

subsection \<open>Passes of the output thread\<close>

definition reconcile_claire_runner :: "'j claire_env \<Rightarrow> string \<Rightarrow> ('j, unit) claire_op" where
  "reconcile_claire_runner ce channel = do {
     r \<leftarrow> session_op ce channel;
     (case r of
        Inr (Some session) \<Rightarrow>
          (case se_run_id session of
             None \<Rightarrow> give ()
           | Some rid \<Rightarrow> do {
               lost \<leftarrow> look (\<lambda>w. rid \<in> cl_busy w \<and> \<not> is_running rid w);
               (if \<not> lost then give ()
                else do {
                  durable \<leftarrow> terminal_op ce (se_task_id session) rid;
                  (if durable then give ()
                   else do {
                     defer_session_wake ce channel session
                       ''assistant process exited without a durable terminal event'';
                     assistant_event_op ce RunFailed (se_task_id session) rid (se_provider_session_id session)
                       (error_json ''assistant process exited without a durable terminal event'');
                     give ()
                   })
                })
             })
      | _ \<Rightarrow> give ())
   }"

text \<open>What remains to do when a follow-up could not be started; the answer tells whether the failure is durable.\<close>

definition drop_follow_up :: "'j claire_env \<Rightarrow> string \<Rightarrow> string \<Rightarrow> ('j, bool) claire_op" where
  "drop_follow_up ce channel message = do {
     r \<leftarrow> session_op ce channel;
     (case r of
        Inr (Some current) \<Rightarrow> do {
          durable \<leftarrow>
            (case se_run_id current of
               None \<Rightarrow> give False
             | Some rid \<Rightarrow> do {
                 append_claire_start_failure ce current message;
                 terminal_op ce (se_task_id current) rid
               });
          save_session_op ce channel (current\<lparr>se_pending_follow_up := None, se_action_follow_up := False\<rparr>);
          give durable
        }
      | _ \<Rightarrow> give False)
   }"

definition start_pending_claire_follow_up :: "'j claire_env \<Rightarrow> string \<Rightarrow> ('j, unit) claire_op" where
  "start_pending_claire_follow_up ce channel = do {
     idle \<leftarrow> look (\<lambda>w. cl_busy w = {});
     (if \<not> idle then give ()
      else do {
        r \<leftarrow> session_op ce channel;
        (case r of
           Inr (Some session0) \<Rightarrow>
             (case se_pending_follow_up session0 of
                None \<Rightarrow> give ()
              | Some prompt \<Rightarrow>
                  (let session = session0\<lparr>se_pending_follow_up := None, se_action_follow_up := True\<rparr> in do {
                     saved \<leftarrow> save_session_op ce channel session;
                     (case saved of
                        Inl _ \<Rightarrow> give ()
                      | Inr _ \<Rightarrow> do {
                          started \<leftarrow> start_claire_turn ce channel prompt;
                          (case started of
                             Inr _ \<Rightarrow> give ()
                           | Inl e \<Rightarrow> do {
                               durable \<leftarrow> drop_follow_up ce channel (error_message ce e);
                               (if se_pending_wake session \<noteq> None then
                                  defer_session_wake ce channel session ''action-result follow-up failed to start''
                                else if \<not> durable then do {
                                  send_op ce ''Claire couldn't finalize that turn. Please try again.'';
                                  give ()
                                }
                                else give ())
                             })
                        })
                   }))
         | _ \<Rightarrow> give ())
      })
   }"

definition wake_prompt :: "'j claire_env \<Rightarrow> assistant_wake \<Rightarrow> string \<Rightarrow> string" where
  "wake_prompt ce wake context =
     ''Durable worker terminal wake '' @ event_id_str (ce_codec ce) (k_event_id wake) @ '': task '' @
     task_id_str (ce_codec ce) (k_task_id wake) @ '', run '' @ run_id_str (ce_codec ce) (k_run_id wake) @
     '' ended as '' @ event_kind_as_str (k_kind wake) @ ''.'' @ [newline, newline] @
     ''Worker timeline:'' @ [newline] @ context @ [newline, newline] @
     ''Assess the result. Decide the next Stackhour actions, if any, and what Nikita should be '' @
     ''told. Do not merely repeat raw tool output.''"

text \<open>The turn of a wake, once its prompt is stored.\<close>

definition start_wake_turn :: "'j claire_env \<Rightarrow> string \<Rightarrow> claire_turn \<Rightarrow> run_id \<Rightarrow> ('j, unit) claire_op" where
  "start_wake_turn ce channel turn rid = do {
     mark_busy rid;
     r \<leftarrow> settings_op ce;
     (case r of
        Inl e \<Rightarrow> do {
          unmark_busy (Some rid);
          defer_session_wake ce channel (tn_session turn) (error_message ce e)
        }
      | Inr settings \<Rightarrow> do {
          started \<leftarrow> runner_start ce channel settings turn;
          (case started of
             Inr _ \<Rightarrow> give ()
           | Inl e \<Rightarrow> do {
               unmark_busy (Some rid);
               append_claire_start_failure ce (tn_session turn) (error_message ce e);
               defer_session_wake ce channel (tn_session turn) (error_message ce e)
             })
        })
   }"

definition wake_claire_for_pending_worker :: "'j claire_env \<Rightarrow> string \<Rightarrow> ('j, unit) claire_op" where
  "wake_claire_for_pending_worker ce channel = do {
     idle \<leftarrow> look (\<lambda>w. cl_busy w = {});
     (if \<not> idle then give ()
      else do {
        r \<leftarrow> pending_wakes_op ce channel;
        (case r of
           Inr (wake # _) \<Rightarrow> do {
             es \<leftarrow> task_events_op ce (k_task_id wake);
             submitted \<leftarrow> submit_claire_prompt ce channel (wake_prompt ce wake
               (case es of
                  Inr es \<Rightarrow> worker_wake_context es
                | Inl e \<Rightarrow> ''Worker history could not be loaded: '' @ error_message ce e));
             (case submitted of
                Inl e \<Rightarrow> do { defer_wake_op ce (k_event_id wake) (error_message ce e); give () }
              | Inr turn0 \<Rightarrow>
                  (let turn = turn0\<lparr>tn_session := (tn_session turn0)\<lparr>se_pending_wake := Some (k_event_id wake)\<rparr>\<rparr> in do {
                     saved \<leftarrow> save_session_op ce channel (tn_session turn);
                     (case saved of
                        Inl e \<Rightarrow> do { defer_wake_op ce (k_event_id wake) (error_message ce e); give () }
                      | Inr _ \<Rightarrow>
                          (case se_run_id (tn_session turn) of
                             None \<Rightarrow> defer_session_wake ce channel (tn_session turn) ''Claire run was not created''
                           | Some rid \<Rightarrow> start_wake_turn ce channel turn rid))
                   }))
           }
         | _ \<Rightarrow> give ())
      })
   }"

text \<open>One event of the log: hers when it is of her task and of no run or of the run of the session.\<close>

definition output_event :: "'j claire_env \<Rightarrow> string \<Rightarrow> event \<Rightarrow> ('j, unit) claire_op" where
  "output_event ce channel ev = do {
     State_Monad.update (\<lambda>w. w\<lparr>cl_cursor := e_sequence ev\<rparr>);
     r \<leftarrow> session_op ce channel;
     (case r of
        Inr (Some session) \<Rightarrow>
          if se_task_id session = e_task_id ev \<and> (e_run_id ev = None \<or> e_run_id ev = se_run_id session)
          then handle_claire_event ce channel ev else give ()
      | _ \<Rightarrow> give ())
   }"

definition output_pass :: "'j claire_env \<Rightarrow> string \<Rightarrow> ('j, unit) claire_op" where
  "output_pass ce channel = do {
     cursor \<leftarrow> look cl_cursor;
     r \<leftarrow> events_after_op ce cursor;
     (case r of
        Inr es \<Rightarrow> do { traverse_list (output_event ce channel) es; give () }
      | Inl _ \<Rightarrow> give ());
     reconcile_claire_runner ce channel;
     start_pending_claire_follow_up ce channel;
     wake_claire_for_pending_worker ce channel
   }"

subsection \<open>The start of the hub\<close>

definition recover_hub_local_assistant :: "'j claire_env \<Rightarrow> string \<Rightarrow> ('j, (error, unit) result) claire_op" where
  "recover_hub_local_assistant ce channel =
     attempt (session_op ce channel) (\<lambda>found.
       case found of
         None \<Rightarrow> give (Inr ())
       | Some session \<Rightarrow>
           attempt (case se_run_id session of
                      None \<Rightarrow> give (Inr ())
                    | Some rid \<Rightarrow>
                        assistant_event_op ce RunInterrupted (se_task_id session) rid (se_provider_session_id session)
                          (JObject [(''reason'', JString ''hub restarted'')])) (\<lambda>_.
           attempt (case se_pending_wake session of
                      None \<Rightarrow> give (Inr False)
                    | Some eid \<Rightarrow> defer_wake_op ce eid ''hub restarted during assessment'') (\<lambda>_.
           save_session_op ce channel (session\<lparr>se_run_id := None, se_pending_wake := None\<rparr>))))"

definition control_section :: "json \<Rightarrow> string \<Rightarrow> json option" where
  "control_section raw key = Option.bind (json_get raw ''control'') (\<lambda>v. json_get v key)"

definition setting_string :: "json option \<Rightarrow> string \<Rightarrow> string option" where
  "setting_string section key =
     (case Option.bind (Option.bind section (\<lambda>v. json_get v key)) as_str of
        None \<Rightarrow> None | Some s \<Rightarrow> if trim_is_empty s then None else Some s)"

definition required_string :: "json option \<Rightarrow> string \<Rightarrow> (error, string) result" where
  "required_string section key =
     ok_or (setting_string section key) (ErrMsg (''control.'' @ key @ '' is required''))"

definition initial_settings :: "json option \<Rightarrow> assistant_settings" where
  "initial_settings config =
     (let s0 = assistant_settings_default
            \<lparr>as_engine := (case setting_string config ''engine'' of Some e \<Rightarrow> e | None \<Rightarrow> ''claude''),
             as_workspace := setting_string config ''workspace'',
             as_claude_model := setting_string config ''claudeModel'',
             as_codex_model := setting_string config ''codexModel''\<rparr>;
          s1 = (case setting_string config ''personality'' of Some p \<Rightarrow> s0\<lparr>as_personality := p\<rparr> | None \<Rightarrow> s0)
      in case setting_string config ''memoryCommand'' of
           None \<Rightarrow> s1
         | Some command \<Rightarrow>
             s1\<lparr>as_memory_enabled := True, as_memory_command := Some command,
                as_memory_dir := setting_string config ''memoryDir''\<rparr>)"

text \<open>\<open>start_telegram\<close> up to its threads: \<open>check_root\<close> is \<open>validate_telegram_api_root\<close>. The output thread
  starts after the last event.\<close>

definition start_telegram ::
  "(string \<Rightarrow> (error, unit) result) \<Rightarrow> 'j claire_env \<Rightarrow> json \<Rightarrow> ('j, (error, string) result) claire_op" where
  "start_telegram check_root ce raw =
     (let config = control_section raw ''telegram'' in
      case bind_res (required_string config ''token'') (\<lambda>_.
           bind_res (ok_or (Option.bind (Option.bind config (\<lambda>v. json_get v ''chatId'')) as_i64)
              (ErrMsg ''control.telegram.chatId is required'')) (\<lambda>chat_id.
           bind_res (case setting_string config ''apiRoot'' of Some root \<Rightarrow> check_root root | None \<Rightarrow> Inr ()) (\<lambda>_.
           Inr (''telegram.'' @ int_str chat_id)))) of
        Inl e \<Rightarrow> give (Inl e)
      | Inr channel \<Rightarrow>
          attempt (hub_op ce (\<lambda>u. initialize_assistant_settings (ce_codec ce) (v_io (su_env u) 0)
             (v_io (su_env u) 1) (v_clock (su_env u) 0) (initial_settings config))) (\<lambda>_.
          attempt (hub_op ce (\<lambda>u. set_active_assistant_channel (ce_codec ce) (v_io (su_env u) 0)
             (v_clock (su_env u) 0) channel)) (\<lambda>_.
          attempt (recover_hub_local_assistant ce channel) (\<lambda>_. do {
            r \<leftarrow> recent_events_op ce 1;
            State_Monad.update (\<lambda>w. w\<lparr>cl_cursor :=
              (case r of Inr es \<Rightarrow> (if es = [] then 0 else e_sequence (last es)) | Inl _ \<Rightarrow> 0)\<rparr>);
            give (Inr channel)
          }))))"

end
