(* ===== verification/Assistant_Frame.thy ===== *)
theory Assistant_Frame
  imports Assistant_State Hub_Steps
begin

text \<open>
  What the methods of the hub leave alone: the settings table, which holds the sessions of the
  assistant, and the wakes that are still open. Only writing a setting touches the one, only
  completing a wake closes one of the others.
\<close>

definition wakes_kept :: "'j hub \<Rightarrow> 'j hub \<Rightarrow> bool" where
  "wakes_kept h h' \<longleftrightarrow>
     (\<forall>r \<in> set (assistant_wakes h). wk_processed_at r = None \<longrightarrow>
        (\<exists>r' \<in> set (assistant_wakes h'). wk_event_id r' = wk_event_id r \<and> wk_processed_at r' = None))"

lemma wakes_kept_refl [simp]: "wakes_kept h h"
  by (auto simp: wakes_kept_def)

lemma wakes_kept_trans: "wakes_kept h h' \<Longrightarrow> wakes_kept h' h'' \<Longrightarrow> wakes_kept h h''"
  unfolding wakes_kept_def by metis

lemma wakes_kept_eq: "assistant_wakes h' = assistant_wakes h \<Longrightarrow> wakes_kept h h'"
  by (auto simp: wakes_kept_def)

lemma wakes_kept_update:
  assumes "\<And>r. wk_event_id (f r) = wk_event_id r \<and> wk_processed_at (f r) = wk_processed_at r"
  shows "wakes_kept h (h\<lparr>assistant_wakes := update_where P f (assistant_wakes h)\<rparr>)"
proof -
  have "\<exists>r' \<in> set (update_where P f (assistant_wakes h)). wk_event_id r' = wk_event_id r \<and> wk_processed_at r' = None"
    if "r \<in> set (assistant_wakes h)" and "wk_processed_at r = None" for r
    using that assms by (intro bexI [of _ "if P r then f r else r"]) (auto simp: update_where_def)
  then show ?thesis by (simp add: wakes_kept_def)
qed

definition quiet :: "'j hub \<Rightarrow> 'j hub \<Rightarrow> bool" where
  "quiet h h' \<longleftrightarrow> control_settings h' = control_settings h \<and> wakes_kept h h'"

lemma quiet_refl [simp]: "quiet h h"
  by (simp add: quiet_def)

lemma quiet_trans: "quiet h h' \<Longrightarrow> quiet h' h'' \<Longrightarrow> quiet h h''"
  by (auto simp: quiet_def intro: wakes_kept_trans)

lemma quiet_eq: "control_settings h' = control_settings h \<Longrightarrow> assistant_wakes h' = assistant_wakes h \<Longrightarrow> quiet h h'"
  by (simp add: quiet_def wakes_kept_eq)

subsection \<open>The store\<close>

lemma append_command_quiet:
  assumes "append_command_bundle c io now fresh cid d entity dp db = (r, db')"
  shows "quiet db db'"
proof (cases r)
  case (Inl e)
  with assms show ?thesis by (auto dest!: append_command_error)
next
  case (Inr out)
  have written: "control_settings t' = control_settings t \<and> assistant_wakes t' = assistant_wakes t"
    if "write_entity c io entity t = Inr t'" for t t'
    using that by (cases entity)
      (auto simp: insert_task_row_def insert_run_row_def set_task_status_def store_simps bind_res_eq_Inr)
  have dispatched: "control_settings t' = control_settings t \<and> assistant_wakes t' = assistant_wakes t"
    if "insert_dispatch c io cid dp now t = Inr t'" for t t'
    using that by (auto simp: insert_dispatch_def store_simps bind_res_eq_Inr split: option.splits)
  from assms [unfolded Inr] show ?thesis
    by (cases rule: append_command_cases) (auto dest!: written dispatched intro!: quiet_eq)
qed

lemma append_node_event_quiet:
  assumes "append_node_event c io now eid d db = (r, db')"
  shows "quiet db db'"
proof (cases r)
  case (Inl e)
  with assms show ?thesis by (auto dest!: append_node_event_error)
next
  case (Inr out)
  have terminal: "quiet t t'" if "apply_terminal_lifecycle_and_wake c io eid s d now t = Inr t'" for eid s t t'
    using that
    by (rule terminal_cases)
      (auto simp: set_run_status_def set_task_status_def insert_wake_def store_simps bind_res_eq_Inr
        quiet_def wakes_kept_def Let_def split: if_splits)
  from assms [unfolded Inr] show ?thesis
    by (cases rule: append_node_event_cases) (auto dest!: terminal simp: quiet_def wakes_kept_def)
qed

lemma quiet_store_ops:
  "register_assistant_worker c io now channel tid db = (r1, db') \<Longrightarrow> quiet db db'"
  "resolve_approval c io aid decision actor now db = (r2, db') \<Longrightarrow> quiet db db'"
  by (cases r1, auto simp: register_assistant_worker_def store_simps quiet_eq dest!: autocommit_Inl)
    (cases r2, auto simp: resolve_approval_def store_simps bind_res_eq_Inr Let_def quiet_eq
      split: if_splits dest!: transaction_Inl)

lemma defer_wake_quiet:
  assumes "defer_assistant_wake c io now eid reason db = (r, db')"
  shows "quiet db db'"
  using assms
  by (cases r)
    (auto simp: defer_assistant_wake_def store_simps Let_def quiet_def
      split: sum.splits option.splits dest!: autocommit_Inl intro: wakes_kept_update)

lemma complete_wake_settings:
  "complete_assistant_wake c io now eid db = (r, db') \<Longrightarrow> control_settings db' = control_settings db"
  by (cases r) (auto simp: complete_assistant_wake_def store_simps Let_def dest!: autocommit_Inl)

lemma put_setting_wakes:
  "put_setting c io now key value db = (r, db') \<Longrightarrow> assistant_wakes db' = assistant_wakes db"
  by (cases r) (auto simp: put_setting_def store_simps Let_def dest!: autocommit_Inl)

subsection \<open>The hub\<close>

abbreviation calm :: "'j hub_state \<Rightarrow> 'j hub_state \<Rightarrow> bool" where
  "calm s s' \<equiv> quiet (hs_hub s) (hs_hub s')"

lemma with_hub_calm: "with_hub f s = (r, s') \<Longrightarrow> (\<And>r h. f (hs_hub s) = (r, h) \<Longrightarrow> quiet (hs_hub s) h) \<Longrightarrow> calm s s'"
  by (auto simp: with_hub_def split: prod.splits)

lemma broadcast_new_hub: "broadcast_new c io (r, s) = (r', s') \<Longrightarrow> hs_hub s' = hs_hub s"
  by (auto simp: broadcast_new_def split: sum.splits option.splits if_splits)

lemma append_broadcast_calm:
  "append_and_broadcast_command c io now fresh cid d entity dp s = (r1, s') \<Longrightarrow> calm s s'"
  "append_and_broadcast_node_event c io now fresh d s = (r2, s') \<Longrightarrow> calm s s'"
  unfolding append_and_broadcast_command_def append_and_broadcast_node_event_def
  by (cases "with_hub (append_command_bundle c io now fresh cid d entity dp) s",
      force dest: broadcast_new_hub with_hub_calm append_command_quiet)
    (cases "with_hub (append_node_event c io now fresh d) s",
      force dest: broadcast_new_hub with_hub_calm append_node_event_quiet)

lemma route_calm: "hs_hub (snd (route_to_node node msg s)) = hs_hub s" "hs_hub (route_dispatch eff s) = hs_hub s"
  by (auto simp: route_dispatch_def route_to_node_def chan_send_def split: option.splits)

lemma binding_calm:
  "run_binding c io rid s = (b, s') \<Longrightarrow> hs_hub s' = hs_hub s"
  "node_for_run c io rid s = (n, s') \<Longrightarrow> hs_hub s' = hs_hub s"
  by (auto simp: run_binding_def run_binding_checked_def remember_run_def node_for_run_def
      split: option.splits sum.splits prod.splits)

lemma finish_calm:
  "finish_with_entity c v cid d dp entity s = (eff, s') \<Longrightarrow> calm s s'"
  "finish c v cid d dp s = (eff, s') \<Longrightarrow> calm s s'"
  by (auto simp: finish_def finish_with_entity_def split: prod.splits sum.splits dest: append_broadcast_calm)

lemma apply_branch_calm: "apply_branch c v reserved cmd s = (eff, s') \<Longrightarrow> calm s s'"
proof (cases cmd)
  case (SendUserMessage cid tid rid message cmid)
  assume "apply_branch c v reserved cmd s = (eff, s')"
  then show ?thesis
    by (cases rid)
      (auto simp: SendUserMessage apply_send_user_message_def Let_def split: prod.splits if_splits
        dest!: binding_calm finish_calm)
next
  case (StartRun cid tid node engine model effort prompt policy path)
  assume "apply_branch c v reserved cmd s = (eff, s')"
  then show ?thesis
    by (auto simp: StartRun apply_start_run_def Let_def remember_run_def
        split: prod.splits sum.splits if_splits option.splits dest!: finish_calm)
next
  case (InterruptRun cid rid)
  assume "apply_branch c v reserved cmd s = (eff, s')"
  then show ?thesis
    by (auto simp: InterruptRun apply_interrupt_run_def Let_def split: prod.splits if_splits
        dest!: binding_calm finish_calm)
next
  case (ResolveApproval cid aid decision actor)
  assume *: "apply_branch c v reserved cmd s = (eff, s')"
  obtain r s1 where a: "with_hub (resolve_approval c (v_io v 1) aid decision actor (v_clock v 0)) s = (r, s1)"
    by fastforce
  have "calm s s1" by (rule with_hub_calm [OF a]) (rule quiet_store_ops(2))
  moreover have "calm s1 s'"
    using * unfolding ResolveApproval apply_branch.simps apply_resolve_approval_def a prod.case Let_def
    by (auto split: sum.splits dest: finish_calm)
  ultimately show ?thesis by (rule quiet_trans)
qed (auto simp: apply_create_task_def Let_def dest: finish_calm)

lemma apply_command_inner_calm: "apply_command_inner c v cmd reserved s = (eff, s') \<Longrightarrow> calm s s'"
  by (auto simp: apply_command_inner_def split: sum.splits option.splits dest: apply_branch_calm)

lemma submit_command_calm: "submit_command c v cmd s = (r, s') \<Longrightarrow> calm s s'"
  by (auto simp: submit_command_def apply_command_def route_calm split: prod.splits
      dest: apply_command_inner_calm)

lemma assistant_run_calm:
  "start_hub_assistant_run c v cid tid engine model effort prompt path s = (r1, s') \<Longrightarrow> calm s s'"
  "append_hub_assistant_message c v mid cid tid rid txt s = (r2, s') \<Longrightarrow> calm s s'"
  "append_hub_assistant_event c v kind tid rid provider payload s = (r2, s') \<Longrightarrow> calm s s'"
  by (auto simp: start_hub_assistant_run_def append_hub_assistant_message_def append_hub_assistant_event_def
      Let_def split: sum.splits prod.splits if_splits dest: append_broadcast_calm)

lemma register_calm:
  "with_hub (register_assistant_worker c io now channel tid) s = (r, s') \<Longrightarrow> calm s s'"
  by (erule with_hub_calm) (rule quiet_store_ops(1))

lemma track_worker_calm: "track_assistant_worker c io0 io1 now channel tid rid s = (r, s') \<Longrightarrow> calm s s'"
  by (auto simp: track_assistant_worker_def split: prod.splits option.splits if_splits
      dest!: binding_calm(1) register_calm)

lemma route_effect_hub: "route_effect dbg eff s = (r, s') \<Longrightarrow> hs_hub s' = hs_hub s"
  by (auto simp: route_effect_def route_calm)

lemma start_and_prompt_calm:
  assumes "start_and_prompt c dbg w node tid prompt engine model effort path s = (r, s')"
  shows "calm s s'"
proof -
  obtain started s1 where a: "apply_command_inner c (w_start w)
      (StartRun (w_cid w 1) tid (Some node) engine model effort None Supervised path) (Some node) s
      = (started, s1)" by fastforce
  obtain r2 s2 where b: "route_effect dbg started s1 = (r2, s2)" by fastforce
  have first: "calm s s1" "hs_hub s2 = hs_hub s1"
    using apply_command_inner_calm [OF a] route_effect_hub [OF b] by auto
  have second: "quiet (hs_hub s1) (hs_hub s4)"
    if "apply_command_inner c (w_prompt w) cmd None s2 = (prompted, s3)"
      "route_effect dbg prompted s3 = (r4, s4)" for cmd prompted s3 r4 s4
    using apply_command_inner_calm [OF that(1)] route_effect_hub [OF that(2)] first(2) by simp
  have "s' = s1 \<or> s' = s2 \<or> quiet (hs_hub s1) (hs_hub s')"
    using assms unfolding start_and_prompt_def a b prod.case
    by (auto split: sum.splits option.splits prod.splits dest: second)
  then show ?thesis using first quiet_trans by metis
qed

lemma create_worker_task_calm:
  assumes "create_worker_task c dbg w title prompt channel preferred engine model effort path s = (r, s')"
  shows "calm s s'"
proof -
  obtain created s1 where a: "apply_command_inner c (w_create w) (CreateTask (w_cid w 0) title) None s
      = (created, s1)" by fastforce
  obtain r2 s2 where b: "event_from_effect c (w_io w 1) dbg created s1 = (r2, s2)" by fastforce
  have hub: "calm s s2"
    using apply_command_inner_calm [OF a] b
    by (auto simp: event_from_effect_def split: prod.splits dest: route_effect_hub)
  have registered: "calm s2 s3" if "register_worker_channel c w channel tid s2 = (r3, s3)" for tid r3 s3
    using that by (cases channel) (auto simp: register_worker_channel_def dest: register_calm)
  have rest: "calm s2 s4"
    if "register_worker_channel c w channel tid s2 = (Inr u, s3)"
      "start_and_prompt c dbg w node tid prompt engine model effort path s3 = (r4, s4)" for tid u s3 node r4 s4
    using registered [OF that(1)] start_and_prompt_calm [OF that(2)] by (rule quiet_trans)
  have "s' = s \<or> calm s2 s' \<or> s' = s2"
    using assms unfolding create_worker_task_def a b prod.case
    by (auto split: sum.splits prod.splits dest: rest registered)
  then show ?thesis using hub quiet_trans quiet_refl by metis
qed

end
