(* ===== verification/Claire_Inv.thy ===== *)
theory Claire_Inv
  imports Claire_Loop Assistant_Frame
begin

text \<open>
  Reasoning about the assistant: triples over the state monad, what each call does to the stored
  session, and the invariant that at most one turn is in progress, the one of the session.
\<close>

subsection \<open>Triples\<close>

definition holds :: "('s \<Rightarrow> bool) \<Rightarrow> ('s, 'a) state \<Rightarrow> ('a \<Rightarrow> 's \<Rightarrow> bool) \<Rightarrow> bool" where
  "holds P m Q \<longleftrightarrow> (\<forall>w. P w \<longrightarrow> Q (fst (run_state m w)) (snd (run_state m w)))"

lemma holdsI: "(\<And>w x w'. P w \<Longrightarrow> run_state m w = (x, w') \<Longrightarrow> Q x w') \<Longrightarrow> holds P m Q"
  by (auto simp: holds_def)

lemma holdsD: "holds P m Q \<Longrightarrow> P w \<Longrightarrow> run_state m w = (x, w') \<Longrightarrow> Q x w'"
  by (force simp: holds_def)

lemma holds_weaken: "holds P m Q \<Longrightarrow> (\<And>w. P' w \<Longrightarrow> P w) \<Longrightarrow> (\<And>x w. Q x w \<Longrightarrow> Q' x w) \<Longrightarrow> holds P' m Q'"
  by (auto simp: holds_def)

lemma holds_post: "holds P m Q \<Longrightarrow> (\<And>x w. Q x w \<Longrightarrow> Q' x w) \<Longrightarrow> holds P m Q'"
  by (auto simp: holds_def)

lemma holds_give: "(\<And>w. P w \<Longrightarrow> Q x w) \<Longrightarrow> holds P (give x) Q"
  by (simp add: holds_def)

lemma holds_bind: "holds P m Q \<Longrightarrow> (\<And>x. holds (Q x) (f x) R) \<Longrightarrow> holds P (m \<bind> f) R"
  by (auto simp: holds_def split_beta)

lemma holds_attempt:
  "holds P m Q \<Longrightarrow> (\<And>e w. Q (Inl e) w \<Longrightarrow> R (Inl e) w) \<Longrightarrow> (\<And>x. holds (Q (Inr x)) (f x) R) \<Longrightarrow>
   holds P (attempt m f) R"
  unfolding attempt_def by (rule holds_bind) (auto intro: holds_give split: sum.splits)

lemma holds_look: "(\<And>w. P w \<Longrightarrow> Q (f w) w) \<Longrightarrow> holds P (look f) Q"
  by (simp add: holds_def)

lemma run_state_update [simp]: "run_state (State_Monad.update f) w = ((), f w)"
  by (simp add: State_Monad.update_def)

lemma holds_update: "(\<And>w. P w \<Longrightarrow> Q () (f w)) \<Longrightarrow> holds P (State_Monad.update f) Q"
  by (simp add: holds_def)

lemma holds_pure: "(b \<Longrightarrow> holds P m Q) \<Longrightarrow> holds (\<lambda>w. P w \<and> b) m Q"
  by (auto simp: holds_def)

lemma holds_traverse: "(\<And>x. holds P (f x) (\<lambda>_. P)) \<Longrightarrow> holds P (traverse_list f xs) (\<lambda>_. P)"
proof (induction xs)
  case (Cons x xs)
  show ?case unfolding traverse_list.simps
    by (rule holds_bind [OF Cons.prems], rule holds_bind [OF Cons.IH [OF Cons.prems]], rule holds_give)
qed (simp add: holds_give)

subsection \<open>The run of the stored session\<close>

definition stored_session :: "'j claire_env \<Rightarrow> string \<Rightarrow> 'j claire \<Rightarrow> assistant_session option" where
  "stored_session ce channel w =
     (case find (\<lambda>r. cs_key r = session_key channel) (control_settings (hs_hub (cl_hub w))) of
        None \<Rightarrow> None
      | Some r \<Rightarrow>
          (case json_parse (ce_codec ce) (cs_value r) of
             None \<Rightarrow> None
           | Some v \<Rightarrow> if v = JNull then None else session_of_json (ce_codec ce) v))"

definition stored_run :: "'j claire_env \<Rightarrow> string \<Rightarrow> 'j claire \<Rightarrow> run_id option" where
  "stored_run ce channel w = Option.bind (stored_session ce channel w) se_run_id"

text \<open>The runs with a turn in progress, and the run of the session.\<close>

definition turn :: "'j claire_env \<Rightarrow> string \<Rightarrow> run_id set \<Rightarrow> run_id option \<Rightarrow> 'j claire \<Rightarrow> bool" where
  "turn ce channel B rho w \<longleftrightarrow> cl_busy w = B \<and> stored_run ce channel w = rho"

definition steady :: "'j claire_env \<Rightarrow> string \<Rightarrow> ('j, 'a) claire_op \<Rightarrow> bool" where
  "steady ce channel m \<longleftrightarrow> (\<forall>B rho. holds (turn ce channel B rho) m (\<lambda>_. turn ce channel B rho))"

lemma steadyD: "steady ce channel m \<Longrightarrow> holds (turn ce channel B rho) m (\<lambda>_. turn ce channel B rho)"
  by (simp add: steady_def)

lemma steady_give [simp]: "steady ce channel (give x)"
  by (simp add: steady_def holds_give)

lemma steady_bind: "steady ce channel m \<Longrightarrow> (\<And>x. steady ce channel (f x)) \<Longrightarrow> steady ce channel (m \<bind> f)"
  unfolding steady_def by (intro allI, rule holds_bind) auto

lemma steady_attempt: "steady ce channel m \<Longrightarrow> (\<And>x. steady ce channel (f x)) \<Longrightarrow> steady ce channel (attempt m f)"
  unfolding attempt_def by (rule steady_bind) (simp_all split: sum.splits)

lemma steady_get [simp]: "steady ce channel State_Monad.get"
  by (simp add: steady_def holds_def)

lemma steady_look [simp]: "steady ce channel (look f)"
  by (simp add: steady_def holds_look)

lemma steady_update:
  "(\<And>w. cl_busy (f w) = cl_busy w) \<Longrightarrow> (\<And>w. cl_hub (f w) = cl_hub w) \<Longrightarrow>
   steady ce channel (State_Monad.update f)"
  unfolding steady_def by (intro allI holds_update) (simp add: turn_def stored_run_def stored_session_def)

lemma steady_traverse: "(\<And>x. steady ce channel (f x)) \<Longrightarrow> steady ce channel (traverse_list f xs)"
  by (simp add: steady_def holds_traverse)

lemma steady_state:
  assumes "\<And>w x w'. run_state m w = (x, w') \<Longrightarrow> cl_busy w' = cl_busy w \<and>
    control_settings (hs_hub (cl_hub w')) = control_settings (hs_hub (cl_hub w))"
  shows "steady ce channel m"
  unfolding steady_def
proof (intro allI holdsI)
  fix B rho w x w' assume "turn ce channel B rho w" and "run_state m w = (x, w')"
  with assms [of w x w'] show "turn ce channel B rho w'"
    by (simp add: turn_def stored_run_def stored_session_def)
qed

lemma steady_hub_op:
  assumes "\<And>u s a s'. f u s = (a, s') \<Longrightarrow> control_settings (hs_hub s') = control_settings (hs_hub s)"
  shows "steady ce channel (hub_op ce f)"
  by (rule steady_state) (auto simp: hub_op_def split: prod.splits dest: assms)

lemma calm_settings: "calm s s' \<Longrightarrow> control_settings (hs_hub s') = control_settings (hs_hub s)"
  by (simp add: quiet_def)

lemma steady_reads [simp]:
  "steady ce channel (settings_op ce)" "steady ce channel (session_op ce ch)"
  "steady ce channel (pending_wakes_op ce ch)" "steady ce channel (task_events_op ce tid)"
  "steady ce channel (recent_events_op ce n)" "steady ce channel (events_after_op ce i)"
  "steady ce channel (hub_op ce (\<lambda>u s. (g u s, s)))"
  unfolding settings_op_def session_op_def pending_wakes_op_def task_events_op_def recent_events_op_def
    events_after_op_def
  by (rule steady_hub_op, simp)+

lemma steady_calls [simp]:
  "steady ce channel (assistant_event_op ce kind tid rid provider payload)"
  "steady ce channel (assistant_message_op ce tid rid message)"
  "steady ce channel (assistant_run_op ce tid settings prompt)"
  "steady ce channel (submit_op ce cmd)" "steady ce channel (track_worker_op ce ch tid rid)"
  "steady ce channel (submit_task ce title prompt ch node engine model effort workspace)"
  "steady ce channel (send_message_op ce tid rid message)"
  unfolding assistant_event_op_def assistant_message_op_def assistant_run_op_def submit_op_def
    track_worker_op_def submit_task_def send_message_op_def
  by (rule steady_hub_op, rule calm_settings, (erule assistant_run_calm submit_command_calm
      track_worker_calm create_worker_task_calm))+

lemma steady_wake_calls [simp]:
  "steady ce channel (complete_wake_op ce eid)" "steady ce channel (defer_wake_op ce eid reason)"
  unfolding complete_wake_op_def defer_wake_op_def
  by (rule steady_hub_op, auto simp: with_hub_def quiet_def split: prod.splits
      dest: complete_wake_settings defer_wake_quiet)+

lemma steady_programs [simp]:
  "steady ce channel (program_op ce executable args dir)" "steady ce channel (send_op ce message)"
  by (rule steady_state, auto simp: program_op_def send_op_def)+

lemma steady_jobs [simp]:
  "steady ce channel (set_job rid job)" "steady ce channel (spawn_op ce ch session rid def req)"
  by (simp_all add: set_job_def steady_update)
    (rule steady_state, auto simp: spawn_op_def Let_def split: option.splits)

subsection \<open>Writing settings\<close>

lemma find_upsert:
  "find (\<lambda>r. key r = k) (upsert key merge r rows) =
     (if k = key r then Some (case find (\<lambda>x. key x = k) rows of Some x \<Rightarrow> merge x | None \<Rightarrow> r)
      else find (\<lambda>x. key x = k) rows)"
  if "\<And>x. key (merge x) = key x"
proof -
  have map: "find (\<lambda>x. key x = k) (map (\<lambda>x. if key x = key r then merge x else x) rows)
      = (if k = key r then map_option merge (find (\<lambda>x. key x = k) rows) else find (\<lambda>x. key x = k) rows)"
    by (induction rows) (auto simp: that)
  show ?thesis
  proof (cases "key r \<in> key ` set rows")
    case True
    then have "find (\<lambda>x. key x = key r) rows \<noteq> None" by (auto simp: find_None_iff)
    with True map show ?thesis by (auto simp: upsert_def)
  next
    case False
    have "key x \<noteq> key r" if "x \<in> set rows" for x using that False by (metis image_eqI)
    then have "find (\<lambda>x. key x = key r) rows = None" by (auto simp: find_None_iff)
    with False show ?thesis by (auto simp: upsert_def find_append split: option.splits)
  qed
qed

lemma put_setting_cases:
  assumes "put_setting c io now key value h = (r, h')"
  obtains e where "r = Inl e" "h' = h"
  | "r = Inr ()" and "\<And>k. find (\<lambda>x. cs_key x = k) (control_settings h') =
      (if k = key then Some (case find (\<lambda>x. cs_key x = key) (control_settings h) of
         Some x \<Rightarrow> x\<lparr>cs_value := json_str c value, cs_updated_at := fmt_time c now\<rparr>
       | None \<Rightarrow> \<lparr>cs_key = key, cs_value = json_str c value, cs_updated_at = fmt_time c now\<rparr>)
       else find (\<lambda>x. cs_key x = k) (control_settings h))"
proof (cases r)
  case (Inl e)
  then show thesis using assms that(1) by (auto simp: put_setting_def dest!: autocommit_Inl)
next
  case (Inr u)
  then show thesis
    using assms by (intro that(2)) (auto simp: put_setting_def store_simps Let_def find_upsert split: option.splits)
qed

lemma put_session_stored:
  assumes "put_setting (ce_codec ce) io now key value (hs_hub (cl_hub w)) = (r, h')"
    and "hs_hub (cl_hub w') = h'"
  shows "case r of Inl _ \<Rightarrow> stored_session ce channel w' = stored_session ce channel w
    | Inr _ \<Rightarrow> stored_session ce channel w' =
        (if key = session_key channel then
           (case json_parse (ce_codec ce) (json_str (ce_codec ce) value) of
              None \<Rightarrow> None | Some v \<Rightarrow> if v = JNull then None else session_of_json (ce_codec ce) v)
         else stored_session ce channel w)"
  using assms(1)
  by (cases rule: put_setting_cases) (auto simp: stored_session_def assms(2) split: option.splits)

lemma run_put_setting:
  assumes "run_state (hub_op ce (\<lambda>u. with_hub (put_setting (ce_codec ce) (io u) (now u) key value))) w = (r, w')"
  shows "cl_busy w' = cl_busy w"
    and "\<exists>h io now. put_setting (ce_codec ce) io now key value (hs_hub (cl_hub w)) = (r, h) \<and> hs_hub (cl_hub w') = h"
  using assms by (auto simp: hub_op_def with_hub_def split: prod.splits) blast+

lemma session_op_stored: "holds P (session_op ce channel) (\<lambda>r w. \<forall>x. r = Inr x \<longrightarrow> x = stored_session ce channel w)"
  by (rule holdsI)
    (auto simp: session_op_def hub_op_def load_assistant_session_def get_setting_def store_simps bind_res_eq_Inr
      ok_or_eq_Inr stored_session_def split: option.splits if_splits)

lemma session_op_run:
  "holds (turn ce channel B rho) (session_op ce channel)
     (\<lambda>r w. turn ce channel B rho w \<and> (\<forall>x. r = Inr x \<longrightarrow> Option.bind x se_run_id = rho))"
  using session_op_stored [of "turn ce channel B rho" ce channel] steadyD [OF steady_reads(2), of ce channel B rho channel]
  by (auto simp: holds_def turn_def stored_run_def)

lemma save_session_run:
  assumes "codec_ok (ce_codec ce)"
  shows "holds (turn ce channel B rho) (save_session_op ce channel session)
    (\<lambda>r. turn ce channel B (case r of Inl _ \<Rightarrow> rho | Inr _ \<Rightarrow> se_run_id session))"
proof (rule holdsI)
  fix w r w' assume pre: "turn ce channel B rho w" and run: "run_state (save_session_op ce channel session) w = (r, w')"
  note put = run [unfolded save_session_op_def save_assistant_session_def]
  obtain h io now where h: "put_setting (ce_codec ce) io now (session_key channel) (session_json (ce_codec ce) session)
      (hs_hub (cl_hub w)) = (r, h)" "hs_hub (cl_hub w') = h"
    using run_put_setting(2) [OF put] by blast
  show "turn ce channel B (case r of Inl _ \<Rightarrow> rho | Inr _ \<Rightarrow> se_run_id session) w'"
    using put_session_stored [OF h, of channel] pre run_put_setting(1) [OF put] assms
    by (auto simp: turn_def stored_run_def codec_okD(4) session_json_ok session_round_trip split: sum.splits)
qed

lemma save_same_run:
  assumes "codec_ok (ce_codec ce)" and "se_run_id session = rho"
  shows "holds (turn ce channel B rho) (save_session_op ce channel session) (\<lambda>_. turn ce channel B rho)"
  by (rule holds_post [OF save_session_run [OF assms(1)]]) (simp add: assms(2) split: sum.splits)

lemma saved_then:
  assumes "codec_ok (ce_codec ce)" and "se_run_id session = rho" and "\<And>r. steady ce channel (f r)"
  shows "holds (turn ce channel B rho) (save_session_op ce channel session \<bind> f) (\<lambda>_. turn ce channel B rho)"
  by (rule holds_bind [OF save_same_run [OF assms(1,2)]]) (rule steadyD [OF assms(3)])

text \<open>Load the session, change it but not its run, and save it.\<close>

lemma steady_session_update:
  assumes "codec_ok (ce_codec ce)"
    and "\<And>r B rho. (\<forall>x. r = Inr x \<longrightarrow> Option.bind x se_run_id = rho) \<Longrightarrow>
      holds (turn ce channel B rho) (f r) (\<lambda>_. turn ce channel B rho)"
  shows "steady ce channel (session_op ce channel \<bind> f)"
  unfolding steady_def by (intro allI holds_bind [OF session_op_run] holds_pure assms(2)) simp

end
