(* ===== verification/Claire_Turns.thy ===== *)
theory Claire_Turns
  imports Claire_Inv
begin

text \<open>
  At most one turn of the assistant is in progress, and it is the one of the session: every operation
  keeps this, under any faults of the store, and so does every interleaving of them.
\<close>

subsection \<open>Operations that leave the turn alone\<close>

lemmas steady_intros = steady_bind steady_attempt steady_traverse

lemma steady_memory [simp]:
  "steady ce channel (run_optmem ce settings args)" "steady ce channel (load_memory_context ce settings)"
  "steady ce channel (save_memory_note ce settings note)"
proof -
  show optmem: "steady ce channel (run_optmem ce settings args)" for args
    by (auto simp: run_optmem_def intro!: steady_bind split: option.splits)
  show "steady ce channel (load_memory_context ce settings)"
    by (simp add: load_memory_context_def optmem)
  show "steady ce channel (save_memory_note ce settings note)"
    by (auto simp: save_memory_note_def optmem intro!: steady_attempt split: sum.splits)
qed

lemma steady_failure [simp]:
  "steady ce channel (terminal_op ce tid rid)"
  "steady ce channel (append_claire_start_failure ce session message)"
  by (auto simp: terminal_op_def append_claire_start_failure_def intro!: steady_bind split: option.splits)

lemma steady_forget_wake [simp]:
  assumes "codec_ok (ce_codec ce)"
  shows "steady ce channel (forget_wake ce channel eid)"
  unfolding forget_wake_def
  by (rule steady_session_update [OF assms])
    (auto split: sum.splits option.splits intro!: holds_give saved_then [OF assms])

lemma steady_defer_session [simp]:
  "codec_ok (ce_codec ce) \<Longrightarrow> steady ce channel (defer_session_wake ce channel session reason)"
  by (auto simp: defer_session_wake_def intro!: steady_bind split: option.splits)

lemma steady_prompt [simp]: "steady ce channel (build_claire_system_prompt ce settings tid)"
  by (auto simp: build_claire_system_prompt_def intro!: steady_intros)

lemma steady_runner [simp]:
  "steady ce channel (runner_start ce ch settings t)" "steady ce channel (runner_stop ce session)"
  by (auto simp: runner_start_def runner_stop_def intro!: steady_intros steady_update split: option.splits sum.splits)

lemma steady_actions [simp]: "steady ce channel (execute_claire_action ce ch settings action)"
  by (cases action)
    (auto simp: create_task_action_def Let_def intro!: steady_intros split: sum.splits prod.splits)

lemma steady_work [simp]: "steady ce channel (internal_work ce ch envelope)"
  by (auto simp: internal_work_def memory_failure_def action_outcome_def intro!: steady_intros split: sum.splits)

lemma steady_answer [simp]:
  assumes ok: "codec_ok (ce_codec ce)"
  shows "steady ce channel (refuse_answer ce channel reason reply)"
    and "steady ce channel (answer_reply ce channel envelope results)"
    and "steady ce channel (clear_follow_up ce channel)"
    and "steady ce channel (follow_up_op ce channel)"
    and "steady ce channel (use_answer ce channel envelope)"
proof -
  note saved = saved_then [OF ok]
  show follow: "steady ce channel (follow_up_op ce channel)"
    by (auto simp: follow_up_op_def intro!: steady_bind)
  show clear: "steady ce channel (clear_follow_up ce channel)"
    unfolding clear_follow_up_def
    by (rule steady_session_update [OF ok])
      (auto split: sum.splits option.splits intro!: holds_give saved)
  show reply: "steady ce channel (answer_reply ce channel envelope results)" for results
    unfolding answer_reply_def
    by (simp, intro impI steady_session_update [OF ok])
      (auto split: sum.splits option.splits intro!: holds_give saved)
  show "steady ce channel (refuse_answer ce channel reason reply)"
    unfolding refuse_answer_def
    by (rule steady_session_update [OF ok])
      (auto simp: Let_def ok split: sum.splits option.splits intro!: holds_give saved steady_bind)
  show "steady ce channel (use_answer ce channel envelope)"
    by (auto simp: use_answer_def reply intro!: steady_bind)
qed

subsection \<open>Operations that start or end a turn\<close>

definition one_turn :: "'j claire_env \<Rightarrow> string \<Rightarrow> 'j claire \<Rightarrow> bool" where
  "one_turn ce channel w \<longleftrightarrow> cl_busy w \<subseteq> set_option (stored_run ce channel w)"

definition no_turn :: "'j claire \<Rightarrow> bool" where
  "no_turn w \<longleftrightarrow> cl_busy w = {}"

lemma no_turn_one: "no_turn w \<Longrightarrow> one_turn ce channel w"
  by (simp add: no_turn_def one_turn_def)

lemma steady_one_turn: "steady ce channel m \<Longrightarrow> holds (one_turn ce channel) m (\<lambda>_. one_turn ce channel)"
  by (auto simp: steady_def holds_def turn_def one_turn_def)

lemma steady_no_turn: "steady ce channel m \<Longrightarrow> holds no_turn m (\<lambda>_. no_turn)"
  by (auto simp: steady_def holds_def turn_def no_turn_def)

text \<open>Writing the session does not start a turn either.\<close>

definition idles :: "('j, 'a) claire_op \<Rightarrow> bool" where
  "idles m \<longleftrightarrow> holds no_turn m (\<lambda>_. no_turn)"

lemma idles_bind: "idles m \<Longrightarrow> (\<And>x. idles (f x)) \<Longrightarrow> idles (m \<bind> f)"
  unfolding idles_def by (rule holds_bind)

lemma idles_give [simp]: "idles (give x)"
  by (simp add: idles_def holds_give)

lemma idles_attempt: "idles m \<Longrightarrow> (\<And>x. idles (f x)) \<Longrightarrow> idles (attempt m f)"
  unfolding attempt_def by (rule idles_bind) (simp_all split: sum.splits)

lemma idles_steady: "steady ce channel m \<Longrightarrow> idles m"
  by (simp add: idles_def steady_no_turn)

lemma idles_hub [simp]: "idles (hub_op ce f)"
  by (auto simp: idles_def holds_def no_turn_def hub_op_def split: prod.splits)

lemma idles_writes [simp]:
  "idles (save_session_op ce channel session)" "idles (clear_session_op ce channel)"
  "idles (save_settings_op ce settings)" "idles (settings_op ce)" "idles (session_op ce channel)"
  "idles (recent_events_op ce n)" "idles (assistant_message_op ce tid rid message)"
  "idles (assistant_run_op ce tid settings prompt)" "idles (submit_op ce cmd)" "idles (defer_wake_op ce eid reason)"
  "idles (assistant_event_op ce kind tid rid provider payload)" "idles (pending_wakes_op ce channel)"
  "idles (task_events_op ce tid)"
  unfolding save_session_op_def clear_session_op_def save_settings_op_def settings_op_def session_op_def
    recent_events_op_def assistant_message_op_def assistant_run_op_def submit_op_def defer_wake_op_def
    assistant_event_op_def pending_wakes_op_def task_events_op_def
  by simp_all

lemma idles_forget [simp]: "idles (forget_wake ce channel eid)"
  by (auto simp: forget_wake_def intro!: idles_bind split: sum.splits option.splits)

lemma idles_defer [simp]: "idles (defer_session_wake ce channel session reason)"
  by (auto simp: defer_session_wake_def intro!: idles_bind split: option.splits)

lemma idles_unmark [simp]: "idles (unmark_busy rid)"
  by (cases rid) (auto simp: unmark_busy_def idles_def holds_def no_turn_def)

lemma idles_stop [simp]: "idles (runner_stop ce session)"
  by (rule idles_steady [OF steady_runner(2)])

lemma idles_system_prompt [simp]: "idles (build_claire_system_prompt ce settings tid)"
  by (rule idles_steady [OF steady_prompt])

lemma idles_commands [simp]:
  "idles (switch_engine ce channel engine)" "idles (change_model ce channel model)" "idles (show_model ce)"
  "idles (reset_conversation ce channel)" "idles (stop_turn ce channel)"
proof -
  have clear: "idles (clear_current_run ce channel engine)" for engine
    by (auto simp: clear_current_run_def intro!: idles_attempt idles_bind split: option.splits)
  show "idles (switch_engine ce channel engine)" "idles (change_model ce channel model)"
    by (auto simp: switch_engine_def change_model_def Let_def clear intro!: idles_attempt split: sum.splits)
  show "idles (show_model ce)" by (auto simp: show_model_def intro!: idles_attempt)
  show "idles (reset_conversation ce channel)"
    by (auto simp: reset_conversation_def intro!: idles_attempt idles_bind split: option.splits)
  show "idles (stop_turn ce channel)"
    by (auto simp: stop_turn_def intro!: idles_attempt idles_bind split: option.splits)
qed

lemma idles_prompt [simp]: "idles (submit_claire_prompt ce channel message)"
  by (auto simp: submit_claire_prompt_def claire_session_def claire_run_def Let_def
      intro!: idles_attempt idles_bind split: option.splits sum.splits)

text \<open>A prompt that was stored leaves the session with the run of its turn.\<close>

definition of_turn :: "'j claire_env \<Rightarrow> string \<Rightarrow> run_id option \<Rightarrow> 'j claire \<Rightarrow> bool" where
  "of_turn ce channel rho w \<longleftrightarrow> stored_run ce channel w = rho"

lemma steady_of_turn: "steady ce channel m \<Longrightarrow> holds (of_turn ce channel rho) m (\<lambda>_. of_turn ce channel rho)"
  by (auto simp: steady_def holds_def turn_def of_turn_def)

lemma claire_session_run:
  "holds (\<lambda>_. True) (claire_session ce channel settings)
     (\<lambda>r w. \<forall>s. r = Inr s \<longrightarrow> se_run_id s = None \<or> of_turn ce channel (se_run_id s) w)"
  unfolding claire_session_def
proof (rule holds_attempt [OF session_op_stored])
  fix found
  show "holds (\<lambda>w. \<forall>x. Inr found = Inr x \<longrightarrow> x = stored_session ce channel w)
      (case found of None \<Rightarrow> submit_op ce (\<lambda>cid. CreateTask cid (as_name settings @ '' '' @ middle_dot @ '' Telegram'')) \<bind>
          (\<lambda>receipt. case ensure_accepted (ce_dbg ce) receipt of
             Inl e \<Rightarrow> give (Inl e)
           | Inr sequence \<Rightarrow>
               attempt (hub_op ce (\<lambda>u s. (event_at (ce_codec ce) (v_io (su_env u) 0) sequence s, s))) (\<lambda>ev.
                 give (Inr \<lparr>se_task_id = e_task_id ev, se_run_id = None, se_engine = as_engine settings,
                   se_provider_session_id = None, se_pending_wake = None, se_pending_follow_up = None,
                   se_action_follow_up = False\<rparr>)))
       | Some session \<Rightarrow> give (Inr session))
      (\<lambda>r w. \<forall>s. r = Inr s \<longrightarrow> se_run_id s = None \<or> of_turn ce channel (se_run_id s) w)"
  proof (cases found)
    case None
    have any: "holds (\<lambda>_. True) m (\<lambda>_ _. True)" for m :: "(_, 'z) claire_op" by (simp add: holds_def)
    show ?thesis
      unfolding None option.case
      by (rule holds_weaken [OF holds_bind [OF any]])
        (auto split: sum.splits intro!: holds_give holds_attempt [OF any] intro: holds_weaken)
  next
    case (Some session)
    have "of_turn ce channel (se_run_id session) w" if "stored_session ce channel w = Some session" for w
      by (simp add: of_turn_def stored_run_def that)
    then show ?thesis unfolding Some option.case by (intro holds_give) simp
  qed
qed simp

lemma holds_try:
  "holds P m (\<lambda>r w. case r of Inl e \<Rightarrow> E w | Inr x \<Rightarrow> Q x w) \<Longrightarrow> (\<And>e w. E w \<Longrightarrow> R (Inl e) w) \<Longrightarrow>
   (\<And>x. holds (Q x) (f x) R) \<Longrightarrow> holds P (attempt m f) R"
  unfolding attempt_def
  apply (rule holds_bind, assumption)
  subgoal for r by (cases r) (auto intro: holds_give)
  done

lemma claire_run_run:
  assumes "codec_ok (ce_codec ce)"
  shows "holds (\<lambda>w. se_run_id s = None \<or> of_turn ce channel (se_run_id s) w) (claire_run ce channel settings prompt s)
     (\<lambda>r w. \<forall>s'. r = Inr s' \<longrightarrow> of_turn ce channel (se_run_id s') w)"
proof -
  have saved: "holds P (save_session_op ce channel s') (\<lambda>r w. \<forall>u. r = Inr u \<longrightarrow> of_turn ce channel (se_run_id s') w)"
    for P s'
  proof (rule holdsI)
    fix w r w' assume run: "run_state (save_session_op ce channel s') w = (r, w')"
    have "turn ce channel (cl_busy w) (stored_run ce channel w) w" by (simp add: turn_def)
    from holdsD [OF save_session_run [OF assms] this run]
    show "\<forall>u. r = Inr u \<longrightarrow> of_turn ce channel (se_run_id s') w'" by (auto simp: turn_def of_turn_def)
  qed
  have any: "holds P m (\<lambda>_ _. True)" for P and m :: "(_, 'z) claire_op" by (simp add: holds_def)
  show ?thesis
    by (auto simp: claire_run_def Let_def intro!: holds_give holds_attempt [OF any] holds_attempt [OF saved])
qed

lemma submit_prompt_run:
  assumes ok: "codec_ok (ce_codec ce)"
  shows "holds P (submit_claire_prompt ce channel message)
     (\<lambda>r w. \<forall>t. r = Inr t \<longrightarrow> of_turn ce channel (se_run_id (tn_session t)) w)"
proof -
  have any: "holds P m (\<lambda>_ _. True)" for P and m :: "(_, 'z) claire_op" by (simp add: holds_def)
  let ?found = "\<lambda>s w. se_run_id s = None \<or> of_turn ce channel (se_run_id s) w"
  have built: "holds (?found s) (build_claire_system_prompt ce settings tid) (\<lambda>_. ?found s)" for s settings tid
    using steady_of_turn [OF steady_prompt, of ce channel "se_run_id s" settings tid] by (auto simp: holds_def)
  have session: "holds P (claire_session ce channel settings)
      (\<lambda>r w. case r of Inl _ \<Rightarrow> True | Inr s \<Rightarrow> ?found s w)" for P settings
    using claire_session_run [of ce channel settings] by (auto simp: holds_def split: sum.splits)
  have run: "holds (?found s) (claire_run ce channel settings prompt s)
      (\<lambda>r w. case r of Inl _ \<Rightarrow> True | Inr s' \<Rightarrow> of_turn ce channel (se_run_id s') w)" for s settings prompt
    using claire_run_run [OF ok, of s channel settings prompt] by (auto simp: holds_def split: sum.splits)
  have all: "holds P m (\<lambda>r w. case r of Inl _ \<Rightarrow> True | Inr x \<Rightarrow> True)" for P and m :: "(_, (_, 'z) result) claire_op"
    by (simp add: holds_def split: sum.splits)
  have rest: "holds (?found s) m (\<lambda>r w. case r of Inl _ \<Rightarrow> True | Inr x \<Rightarrow> ?found s w)"
    if "steady ce channel m" for s and m :: "(_, (_, 'z) result) claire_op"
    using steady_of_turn [OF that, of "se_run_id s"] by (auto simp: holds_def split: sum.splits)
  show ?thesis
    unfolding submit_claire_prompt_def
  proof (rule holds_try [OF all], simp)
    fix settings
    show "holds (\<lambda>_. True)
      (attempt (claire_session ce channel settings) (\<lambda>session0.
       attempt (build_claire_system_prompt ce settings (se_task_id session0)) (\<lambda>contract.
       attempt (claire_run ce channel settings contract session0) (\<lambda>session.
       case se_run_id session of
         None \<Rightarrow> give (Inl (ErrMsg ''Claire's run was not created''))
       | Some rid \<Rightarrow>
           attempt (recent_events_op ce 200) (\<lambda>es.
           let prompt = ''[Current Stackhour context]'' @ [newline] @ recent_task_context (ce_codec ce) es @
                 [newline, newline] @ ''[Message from Nikita]'' @ [newline] @ message
           in attempt (assistant_message_op ce (se_task_id session) rid prompt) (\<lambda>_.
              give (Inr \<lparr>tn_session = session, tn_system_prompt = Some contract, tn_prompt = prompt\<rparr>)))))))
      (\<lambda>r w. \<forall>t. r = Inr t \<longrightarrow> of_turn ce channel (se_run_id (tn_session t)) w)"
      by (rule holds_try [OF session], simp, rule holds_try [OF rest [OF steady_prompt]], simp,
          rule holds_try [OF run], simp, auto split: option.splits intro!: holds_give
          holds_attempt [OF steady_of_turn [OF steady_reads(5)]] holds_attempt [OF steady_of_turn [OF steady_calls(2)]]
          simp: Let_def)
  qed
qed

lemma holds_conj: "holds P m Q \<Longrightarrow> holds P m Q' \<Longrightarrow> holds P m (\<lambda>x w. Q x w \<and> Q' x w)"
  by (auto simp: holds_def)

definition keeps_turn :: "'j claire_env \<Rightarrow> string \<Rightarrow> ('j, 'a) claire_op \<Rightarrow> bool" where
  "keeps_turn ce channel m \<longleftrightarrow> holds (one_turn ce channel) m (\<lambda>_. one_turn ce channel)"

lemma keeps_bind: "keeps_turn ce channel m \<Longrightarrow> (\<And>x. keeps_turn ce channel (f x)) \<Longrightarrow> keeps_turn ce channel (m \<bind> f)"
  unfolding keeps_turn_def by (rule holds_bind)

lemma keeps_steady: "steady ce channel m \<Longrightarrow> keeps_turn ce channel m"
  by (simp add: keeps_turn_def steady_one_turn)

lemma keeps_give [simp]: "keeps_turn ce channel (give x)"
  by (simp add: keeps_steady)

lemma keeps_unmark [simp]: "keeps_turn ce channel (unmark_busy rid)"
  by (cases rid)
    (auto simp: unmark_busy_def keeps_turn_def holds_def one_turn_def stored_run_def stored_session_def)

lemma keeps_calls [simp]:
  "keeps_turn ce channel (settings_op ce)" "keeps_turn ce channel (send_op ce message)"
  "keeps_turn ce channel (assistant_event_op ce kind tid rid provider payload)"
  "keeps_turn ce channel (runner_start ce ch settings t)"
  "keeps_turn ce channel (append_claire_start_failure ce session message)"
  by (rule keeps_steady, simp)+

lemma holds_if: "(b \<Longrightarrow> holds P m Q) \<Longrightarrow> (\<not> b \<Longrightarrow> holds P m' Q) \<Longrightarrow> holds P (if b then m else m') Q"
  by simp

lemma starts_turn:
  "holds (\<lambda>w. no_turn w \<and> of_turn ce channel (Some rid) w) (mark_busy rid) (\<lambda>_. one_turn ce channel)"
  by (auto simp: mark_busy_def holds_def no_turn_def of_turn_def one_turn_def stored_run_def stored_session_def)

lemma start_claire_turn_one:
  assumes ok: "codec_ok (ce_codec ce)"
  shows "holds no_turn (start_claire_turn ce channel prompt) (\<lambda>_. one_turn ce channel)"
proof -
  have submitted: "holds no_turn (submit_claire_prompt ce channel prompt)
      (\<lambda>r w. case r of Inl _ \<Rightarrow> no_turn w | Inr t \<Rightarrow> no_turn w \<and> of_turn ce channel (se_run_id (tn_session t)) w)"
    using holds_conj [OF idles_prompt [unfolded idles_def] submit_prompt_run [OF ok], of channel prompt]
    by (auto simp: holds_def split: sum.splits)
  show ?thesis
    unfolding start_claire_turn_def
  proof (rule holds_try [OF submitted])
    fix t :: claire_turn
    let ?run = "se_run_id (tn_session t)"
    have mark: "holds (\<lambda>w. no_turn w \<and> of_turn ce channel ?run w)
        (case ?run of Some rid \<Rightarrow> mark_busy rid | None \<Rightarrow> give ()) (\<lambda>_. one_turn ce channel)"
      by (cases ?run) (auto intro: starts_turn holds_give no_turn_one)
    have rest: "keeps_turn ce channel (settings_op ce \<bind> (\<lambda>r. case r of
          Inl e \<Rightarrow>
            (case ?run of
               None \<Rightarrow> give (Inl e)
             | Some rid \<Rightarrow> do {
                 unmark_busy (Some rid);
                 assistant_event_op ce RunFailed (se_task_id (tn_session t)) rid
                   (se_provider_session_id (tn_session t)) (error_json (error_message ce e));
                 give (Inl e)
               })
        | Inr settings \<Rightarrow> do {
            started \<leftarrow> runner_start ce channel settings t;
            (case started of
               Inr _ \<Rightarrow> give (Inr (None :: string option))
             | Inl e \<Rightarrow> do {
                 unmark_busy ?run;
                 append_claire_start_failure ce (tn_session t) (error_message ce e);
                 give (Inl e)
               })
          }))"
      by (auto intro!: keeps_bind split: sum.splits option.splits)
    show "holds (\<lambda>w. no_turn w \<and> of_turn ce channel ?run w)
      (let session = tn_session t in do {
         (case se_run_id session of Some rid \<Rightarrow> mark_busy rid | None \<Rightarrow> give ());
         r \<leftarrow> settings_op ce;
         (case r of
            Inl e \<Rightarrow>
              (case se_run_id session of
                 None \<Rightarrow> give (Inl e)
               | Some rid \<Rightarrow> do {
                   unmark_busy (Some rid);
                   assistant_event_op ce RunFailed (se_task_id session) rid (se_provider_session_id session)
                     (error_json (error_message ce e));
                   give (Inl e)
                 })
          | Inr settings \<Rightarrow> do {
              started \<leftarrow> runner_start ce channel settings t;
              (case started of
                 Inr _ \<Rightarrow> give (Inr (None :: string option))
               | Inl e \<Rightarrow> do {
                   unmark_busy (se_run_id session);
                   append_claire_start_failure ce session (error_message ce e);
                   give (Inl e)
                 })
            })
       }) (\<lambda>_. one_turn ce channel)"
      unfolding Let_def by (rule holds_bind [OF mark]) (rule rest [unfolded keeps_turn_def])
  qed (rule no_turn_one)
qed

subsection \<open>Messages\<close>

text \<open>The session that was read is the stored one.\<close>

lemma session_op_one:
  "holds (one_turn ce channel) (session_op ce channel)
     (\<lambda>r w. one_turn ce channel w \<and> (\<forall>x. r = Inr x \<longrightarrow> Option.bind x se_run_id = stored_run ce channel w))"
  using holds_conj [OF steady_one_turn [OF steady_reads(2)] session_op_stored]
  by (auto simp: holds_def stored_run_def)

lemma stop_turn_one:
  assumes ok: "codec_ok (ce_codec ce)"
  shows "keeps_turn ce channel (stop_turn ce channel)"
proof -
  have stop: "holds (\<lambda>w. one_turn ce channel w \<and> se_run_id session = stored_run ce channel w)
      (do {
         defer_session_wake ce channel session ''assessment stopped by user'';
         unmark_busy (se_run_id session);
         attempt (save_session_op ce channel ((idle_session session)\<lparr>se_provider_session_id := None\<rparr>)) (\<lambda>_.
           give (Inr (Some ''I asked the current turn to stop.'')))
       }) (\<lambda>_. one_turn ce channel)" for session
  proof (rule holds_bind [where Q = "\<lambda>_ w. one_turn ce channel w \<and> se_run_id session = stored_run ce channel w"])
    show "holds (\<lambda>w. one_turn ce channel w \<and> se_run_id session = stored_run ce channel w)
        (defer_session_wake ce channel session ''assessment stopped by user'')
        (\<lambda>_ w. one_turn ce channel w \<and> se_run_id session = stored_run ce channel w)"
      using steady_defer_session [OF ok] by (auto simp: steady_def holds_def turn_def one_turn_def)
    have unmarked: "holds (\<lambda>w. one_turn ce channel w \<and> se_run_id session = stored_run ce channel w)
        (unmark_busy (se_run_id session)) (\<lambda>_. no_turn)"
      by (cases "se_run_id session") (auto simp: unmark_busy_def holds_def one_turn_def no_turn_def holds_give)
    have saved: "idles (attempt (save_session_op ce channel ((idle_session session)\<lparr>se_provider_session_id := None\<rparr>))
        (\<lambda>_. give (Inr (Some ''I asked the current turn to stop.''))) :: ('a, (error, string option) result) claire_op)"
      by (auto intro!: idles_attempt)
    show "holds (\<lambda>w. one_turn ce channel w \<and> se_run_id session = stored_run ce channel w)
        (do {
           unmark_busy (se_run_id session);
           attempt (save_session_op ce channel ((idle_session session)\<lparr>se_provider_session_id := None\<rparr>)) (\<lambda>_.
             give (Inr (Some ''I asked the current turn to stop.'')))
         }) (\<lambda>_. one_turn ce channel)"
      by (rule holds_bind [OF unmarked], rule holds_post [OF saved [unfolded idles_def]], rule no_turn_one)
  qed
  have stopped: "holds (\<lambda>w. one_turn ce channel w \<and> se_run_id session = stored_run ce channel w) (runner_stop ce session)
      (\<lambda>_ w. one_turn ce channel w \<and> se_run_id session = stored_run ce channel w)" for session
    using steady_runner(2) [of ce channel session] by (auto simp: steady_def holds_def turn_def one_turn_def)
  show ?thesis
    unfolding keeps_turn_def stop_turn_def
  proof (rule holds_attempt [OF session_op_one])
    fix found
    show "holds (\<lambda>w. one_turn ce channel w \<and>
          (\<forall>x. Inr found = Inr x \<longrightarrow> Option.bind x se_run_id = stored_run ce channel w))
        (case found of
           None \<Rightarrow> give (Inr (Some ''Nothing is running.''))
         | Some session \<Rightarrow>
             attempt (runner_stop ce session) (\<lambda>stopped.
               if \<not> stopped then give (Inr (Some ''Nothing is running.''))
               else do {
                 defer_session_wake ce channel session ''assessment stopped by user'';
                 unmark_busy (se_run_id session);
                 attempt (save_session_op ce channel ((idle_session session)\<lparr>se_provider_session_id := None\<rparr>)) (\<lambda>_.
                   give (Inr (Some ''I asked the current turn to stop.'')))
               })) (\<lambda>_. one_turn ce channel)"
      by (cases found) (auto intro!: holds_give holds_attempt [OF stopped] stop)
  qed simp
qed

lemma claire_command_one:
  assumes "codec_ok (ce_codec ce)"
  shows "holds no_turn (claire_command ce channel trimmed) (\<lambda>_. one_turn ce channel)"
proof -
  have idle: "holds no_turn m (\<lambda>_. one_turn ce channel)" if "idles m" for m :: "(_, 'z) claire_op"
    using that by (auto simp: idles_def holds_def no_turn_one)
  have memory: "idles (save_memory_note ce settings message)" for settings message
    by (rule idles_steady [OF steady_memory(3)])
  have where_reply: "idles (attempt (settings_op ce) (\<lambda>settings. give (Inr (Some (where_text settings)))))"
    and note_reply: "idles (attempt (settings_op ce) (\<lambda>settings.
       attempt (save_memory_note ce settings message) (\<lambda>_. give (Inr (Some ''Remembered.'')))))" for message
    by (auto simp: memory intro!: idles_attempt)
  note replies = idles_give idles_commands where_reply note_reply
  show ?thesis
    unfolding claire_command_def
    by (intro holds_if start_claire_turn_one [OF assms]; rule idle, rule replies)
qed

lemma free_no_turn:
  assumes "one_turn ce channel w" and "Option.bind found se_run_id = stored_run ce channel w"
    and "\<not> (case Option.bind found se_run_id of Some rid \<Rightarrow> rid \<in> cl_busy w | None \<Rightarrow> False)"
  shows "no_turn w"
  using assms by (cases "stored_run ce channel w") (auto simp: one_turn_def no_turn_def)

lemma handle_input_one:
  assumes ok: "codec_ok (ce_codec ce)"
  shows "keeps_turn ce channel (handle_claire_input ce channel message)"
  unfolding keeps_turn_def handle_claire_input_def Let_def
proof (rule holds_attempt [OF session_op_one])
  fix found
  have rest: "holds (\<lambda>w. one_turn ce channel w \<and> (\<not> b \<longrightarrow> no_turn w))
      (if b \<and> str_trim message \<noteq> ''/stop'' \<and> str_trim message \<noteq> ''/where'' then give (Inr (Some busy_text))
       else claire_command ce channel (str_trim message)) (\<lambda>_. one_turn ce channel)" for b
  proof (cases b)
    case True
    have "steady ce channel (claire_command ce channel ''/where'')"
      by (simp add: claire_command_def) (auto intro!: steady_attempt)
    moreover have "claire_command ce channel ''/stop'' = stop_turn ce channel"
      by (simp add: claire_command_def)
    ultimately show ?thesis
      using True stop_turn_one [OF ok, of channel]
      by (auto simp: keeps_turn_def holds_def dest!: steady_one_turn)
  next
    case False
    then show ?thesis using claire_command_one [OF ok, of channel "str_trim message"] by (auto simp: holds_def)
  qed
  show "holds (\<lambda>w. one_turn ce channel w \<and>
        (\<forall>x. Inr found = Inr x \<longrightarrow> Option.bind x se_run_id = stored_run ce channel w))
    (do {
      busy \<leftarrow> look (\<lambda>w. case Option.bind found se_run_id of Some rid \<Rightarrow> rid \<in> cl_busy w | None \<Rightarrow> False);
      (if busy \<and> str_trim message \<noteq> ''/stop'' \<and> str_trim message \<noteq> ''/where'' then give (Inr (Some busy_text))
       else claire_command ce channel (str_trim message))
    }) (\<lambda>_. one_turn ce channel)"
    by (rule holds_bind [OF holds_look rest]) (use free_no_turn in blast)
qed simp

lemma handle_update_one:
  assumes "codec_ok (ce_codec ce)"
  shows "keeps_turn ce channel (handle_update ce channel chat_id update)"
  unfolding handle_update_def
  by (rule keeps_bind [OF keeps_steady [OF steady_update]])
    (auto intro!: keeps_bind handle_input_one [OF assms] split: option.splits sum.splits)

end
