(* ===== verification/Claire_Steps.thy ===== *)
theory Claire_Steps
  imports Claire_Turns
begin

text \<open>
  The assistant as a step relation: a message of the chat, an event of the log, the passes of the
  output thread, the stages of a supervisor, the end of her process, and what everyone else does to
  the hub. At most one turn is in progress in every reachable state.
\<close>

subsection \<open>Events\<close>

lemma steady_process_answer [simp]:
  assumes "codec_ok (ce_codec ce)"
  shows "steady ce channel (process_answer ce channel ev)"
  using assms by (auto simp: process_answer_def Let_def intro!: steady_bind)

text \<open>A terminal event: the turn of its run ends, and the session forgets the run when it is its own.\<close>

lemma ends_turn:
  assumes "\<And>session. idles (f session)"
  shows "keeps_turn ce channel (unmark_busy rho \<bind> (\<lambda>_. session_op ce channel \<bind> (\<lambda>r. case r of
     Inr (Some session) \<Rightarrow> if se_run_id session \<noteq> rho then give x else f session
   | _ \<Rightarrow> give x)))"
proof -
  let ?ended = "\<lambda>w. cl_busy w \<subseteq> set_option (stored_run ce channel w) - set_option rho"
  have unmark: "holds (one_turn ce channel) (unmark_busy rho) (\<lambda>_. ?ended)"
    by (cases rho) (auto simp: unmark_busy_def holds_def one_turn_def stored_run_def stored_session_def)
  have stored: "holds (\<lambda>_. True) (session_op ce channel)
      (\<lambda>r w. \<forall>s. r = Inr s \<longrightarrow> Option.bind s se_run_id = stored_run ce channel w)"
    by (rule holds_post [OF session_op_stored]) (simp add: stored_run_def)
  have load: "holds ?ended (session_op ce channel)
      (\<lambda>r w. ?ended w \<and> (\<forall>s. r = Inr s \<longrightarrow> Option.bind s se_run_id = stored_run ce channel w))"
    using stored steady_reads(2) [of ce channel channel] by (auto simp: holds_def steady_def turn_def)
  have finish: "holds (\<lambda>w. ?ended w \<and> (\<forall>s. r = Inr s \<longrightarrow> Option.bind s se_run_id = stored_run ce channel w))
      (case r of Inr (Some session) \<Rightarrow> if se_run_id session \<noteq> rho then give x else f session | _ \<Rightarrow> give x)
      (\<lambda>_. one_turn ce channel)" for r :: "(error, assistant_session option) result"
  proof (cases "\<exists>session. r = Inr (Some session) \<and> se_run_id session = rho")
    case True
    then obtain session where r: "r = Inr (Some session)" "se_run_id session = rho" by auto
    have "holds no_turn (f session) (\<lambda>_. one_turn ce channel)"
      using assms [of session] by (auto simp: idles_def holds_def no_turn_one)
    then have "holds (\<lambda>w. ?ended w \<and> rho = stored_run ce channel w) (f session) (\<lambda>_. one_turn ce channel)"
      by (rule holds_weaken) (auto simp: no_turn_def)
    with r show ?thesis by simp
  next
    case False
    then show ?thesis
      by (auto split: sum.splits option.splits intro!: holds_give) (auto simp: one_turn_def)
  qed
  show ?thesis
    unfolding keeps_turn_def by (rule holds_bind [OF unmark], rule holds_bind [OF load], rule finish)
qed

lemma keeps_terminal:
  "keeps_turn ce channel (process_failure ce channel ev)"
  "keeps_turn ce channel (process_interruption ce channel ev)"
  "keeps_turn ce channel (process_completion ce channel ev)"
  unfolding process_failure_def process_interruption_def process_completion_def Let_def
  by (rule ends_turn, auto intro!: idles_bind split: option.splits)+

lemma keeps_process_event:
  "codec_ok (ce_codec ce) \<Longrightarrow> keeps_turn ce channel (process_claire_event ce channel ev)"
  by (cases "e_kind ev") (simp_all add: process_claire_event_def keeps_terminal keeps_steady)

lemma steady_settle [simp]:
  "codec_ok (ce_codec ce) \<Longrightarrow> steady ce channel (settle_wake ce channel projection delivered)"
  by (auto simp: settle_wake_def intro!: steady_bind split: option.splits)

lemma steady_deliver [simp]: "steady ce channel (deliver_op ce reply)"
  by (cases reply) (simp_all add: deliver_op_def)

lemma keeps_output_event:
  assumes ok: "codec_ok (ce_codec ce)"
  shows "keeps_turn ce channel (output_event ce channel ev)"
proof -
  have "keeps_turn ce channel (handle_claire_event ce channel ev)"
    unfolding handle_claire_event_def
    by (intro keeps_bind keeps_process_event ok) (simp_all add: keeps_steady ok)
  moreover have "steady ce channel (State_Monad.update (\<lambda>w. w\<lparr>cl_cursor := e_sequence ev\<rparr>))"
    by (rule steady_update) simp_all
  ultimately show ?thesis
    unfolding output_event_def
    by (auto intro!: keeps_bind keeps_steady [OF steady_reads(2)] intro: keeps_steady split: sum.splits option.splits)
qed

subsection \<open>Passes\<close>

lemma steady_reconcile:
  "codec_ok (ce_codec ce) \<Longrightarrow> steady ce channel (reconcile_claire_runner ce channel)"
  by (auto simp: reconcile_claire_runner_def intro!: steady_bind split: sum.splits option.splits)

lemma steady_drop_follow_up:
  assumes ok: "codec_ok (ce_codec ce)"
  shows "steady ce channel (drop_follow_up ce channel message)"
  unfolding drop_follow_up_def
  by (rule steady_session_update [OF ok])
    (auto split: sum.splits option.splits
      intro!: holds_give holds_bind [OF steadyD [OF steady_failure(2)]] holds_bind [OF steadyD [OF steady_failure(1)]]
        saved_then [OF ok])

lemma when_idle:
  "holds no_turn m (\<lambda>_. one_turn ce channel) \<Longrightarrow>
   keeps_turn ce channel (look (\<lambda>w. cl_busy w = {}) \<bind> (\<lambda>idle. if \<not> idle then give x else m))"
  by (auto simp: keeps_turn_def holds_def no_turn_def)

lemma idle_then: "idles m \<Longrightarrow> (\<And>x. holds no_turn (f x) (\<lambda>_. Q)) \<Longrightarrow> holds no_turn (m \<bind> f) (\<lambda>_. Q)"
  unfolding idles_def by (rule holds_bind)

lemma idle_only: "idles m \<Longrightarrow> holds no_turn m (\<lambda>_. one_turn ce channel)"
  by (auto simp: idles_def holds_def no_turn_one)

lemma keeps_follow_up:
  assumes ok: "codec_ok (ce_codec ce)"
  shows "keeps_turn ce channel (start_pending_claire_follow_up ce channel)"
proof -
  have failed: "keeps_turn ce channel (do {
      durable \<leftarrow> drop_follow_up ce channel (error_message ce e);
      (if waiting \<noteq> None then
         defer_session_wake ce channel session ''action-result follow-up failed to start''
       else if \<not> durable then do {
         send_op ce ''Claire couldn't finalize that turn. Please try again.'';
         give ()
       }
       else give ())
    })" for session e and waiting :: "event_id option"
    by (intro keeps_steady steady_bind steady_drop_follow_up ok) (auto simp: ok intro!: steady_bind)
  show ?thesis
    unfolding start_pending_claire_follow_up_def
    by (rule when_idle, rule idle_then, simp)
      (auto simp: Let_def failed [unfolded keeps_turn_def] simp del: not_None_eq split: sum.splits option.splits
        intro!: holds_give no_turn_one idle_then holds_bind [OF start_claire_turn_one [OF ok]])
qed

lemma keeps_wake_turn:
  assumes ok: "codec_ok (ce_codec ce)"
  shows "holds (\<lambda>w. no_turn w \<and> of_turn ce channel (Some rid) w) (start_wake_turn ce channel t rid)
    (\<lambda>_. one_turn ce channel)"
proof -
  have "keeps_turn ce channel (settings_op ce \<bind> (\<lambda>r. case r of
        Inl e \<Rightarrow> unmark_busy (Some rid) \<bind> (\<lambda>_. defer_session_wake ce channel (tn_session t) (error_message ce e))
      | Inr settings \<Rightarrow> runner_start ce channel settings t \<bind> (\<lambda>started. case started of
            Inr _ \<Rightarrow> give ()
          | Inl e \<Rightarrow> unmark_busy (Some rid) \<bind> (\<lambda>_.
              append_claire_start_failure ce (tn_session t) (error_message ce e) \<bind> (\<lambda>_.
              defer_session_wake ce channel (tn_session t) (error_message ce e))))))"
    by (auto simp: keeps_steady [OF steady_defer_session [OF ok]] intro!: keeps_bind split: sum.splits)
  then show ?thesis
    unfolding start_wake_turn_def keeps_turn_def by (rule holds_bind [OF starts_turn])
qed

lemma keeps_wake:
  assumes ok: "codec_ok (ce_codec ce)"
  shows "keeps_turn ce channel (wake_claire_for_pending_worker ce channel)"
proof -
  have saved: "holds no_turn (save_session_op ce channel session)
      (\<lambda>r w. no_turn w \<and> (\<forall>u. r = Inr u \<longrightarrow> of_turn ce channel (se_run_id session) w))" for session
  proof (rule holds_conj)
    show "holds no_turn (save_session_op ce channel session) (\<lambda>_. no_turn)"
      using idles_writes(1) by (simp add: idles_def)
    show "holds no_turn (save_session_op ce channel session) (\<lambda>r w. \<forall>u. r = Inr u \<longrightarrow> of_turn ce channel (se_run_id session) w)"
    proof (rule holdsI)
      fix w r w' assume run: "run_state (save_session_op ce channel session) w = (r, w')"
      have "turn ce channel (cl_busy w) (stored_run ce channel w) w" by (simp add: turn_def)
      from holdsD [OF save_session_run [OF ok] this run]
      show "\<forall>u. r = Inr u \<longrightarrow> of_turn ce channel (se_run_id session) w'" by (auto simp: turn_def of_turn_def)
    qed
  qed
  have begin_turn: "holds no_turn (save_session_op ce channel session \<bind> (\<lambda>saved. case saved of
        Inl e \<Rightarrow> f e
      | Inr _ \<Rightarrow> (case rho of
            None \<Rightarrow> defer_session_wake ce channel session' reason
          | Some rid \<Rightarrow> start_wake_turn ce channel t rid))) (\<lambda>_. one_turn ce channel)"
    if "se_run_id session = rho" and "\<And>e. idles (f e)" for session session' rho f reason t
  proof (rule holds_bind [OF saved])
    fix r :: "(error, unit) result"
    have idle: "holds (\<lambda>w. no_turn w \<and> P w) m (\<lambda>_. one_turn ce channel)" if "idles m" for P and m :: "(_, unit) claire_op"
      using that by (auto simp: idles_def holds_def no_turn_one)
    show "holds (\<lambda>w. no_turn w \<and> (\<forall>u. r = Inr u \<longrightarrow> of_turn ce channel (se_run_id session) w))
      (case r of Inl e \<Rightarrow> f e
       | Inr _ \<Rightarrow> (case rho of
            None \<Rightarrow> defer_session_wake ce channel session' reason
          | Some rid \<Rightarrow> start_wake_turn ce channel t rid)) (\<lambda>_. one_turn ce channel)"
      using keeps_wake_turn [OF ok, of channel _ t] that
      by (auto intro!: idle idle_only split: sum.splits option.splits)
  qed
  show ?thesis
    unfolding wake_claire_for_pending_worker_def
    by (rule when_idle, rule idle_then, simp)
      (auto simp: Let_def split: sum.splits list.splits
        intro!: holds_give no_turn_one idle_then [OF idles_writes(13)] idle_then [OF idles_prompt]
          idle_then [OF idles_writes(10)] begin_turn idles_bind)
qed

subsection \<open>The supervisor and the rest of the hub\<close>

lemma set_thread_turn [simp]:
  "cl_busy (set_thread i st w) = cl_busy w" "cl_hub (set_thread i st w) = cl_hub w"
  by (simp_all add: set_thread_def split: option.splits)

lemma steady_supervise [simp]:
  assumes ok: "codec_ok (ce_codec ce)" and "sv_channel t = channel"
  shows "steady ce channel (supervise ce t)"
proof -
  have saving: "steady ce channel (do {
      found \<leftarrow> session_op ce channel;
      (case found of
         Inr (Some session) \<Rightarrow>
           if se_run_id session = Some (sv_run t) then do {
             save_session_op ce (sv_channel t) (session\<lparr>se_provider_session_id := re_session_id r\<rparr>);
             give ()
           } else give ()
       | _ \<Rightarrow> give ())
    } \<bind> f)" if "\<And>x. steady ce channel (f x)" for f :: "unit \<Rightarrow> (_, stage option) claire_op" and r
    by (rule steady_bind [OF steady_session_update [OF ok] that])
      (auto simp: assms(2) split: sum.splits option.splits intro!: holds_give saved_then [OF ok])
  have clear: "steady ce channel (State_Monad.update (\<lambda>w. w\<lparr>cl_interrupted := cl_interrupted w - {sv_run t}\<rparr>))"
    by (rule steady_update) simp_all
  show ?thesis
  proof (cases "sv_stage t")
    case (Saving r)
    with saving [of "\<lambda>_. give (Some (Finishing r))" r] show ?thesis
      by (simp add: supervise_def assms(2) cong: if_cong)
  qed (auto simp: supervise_def clear intro!: steady_bind split: option.splits)
qed

text \<open>One step: \<open>ce\<close>, the channel and the chat are those of the hub; the threads all serve the channel.\<close>

inductive claire_step :: "'j claire_env \<Rightarrow> string \<Rightarrow> int \<Rightarrow> 'j claire \<Rightarrow> 'j claire \<Rightarrow> bool" for ce channel chat where
  step_chat: "run_state (handle_update ce channel chat message) w = (x, w') \<Longrightarrow> claire_step ce channel chat w w'"
| step_event: "run_state (output_event ce channel ev) w = (x, w') \<Longrightarrow> claire_step ce channel chat w w'"
| step_reconcile: "run_state (reconcile_claire_runner ce channel) w = (x, w') \<Longrightarrow> claire_step ce channel chat w w'"
| step_follow_up: "run_state (start_pending_claire_follow_up ce channel) w = (x, w') \<Longrightarrow> claire_step ce channel chat w w'"
| step_wake: "run_state (wake_claire_for_pending_worker ce channel) w = (x, w') \<Longrightarrow> claire_step ce channel chat w w'"
| step_ends: "claire_step ce channel chat w (process_ends rid w)"
| step_join: "can_join i w \<Longrightarrow> claire_step ce channel chat w (set_thread i (Some (Joined result)) w)"
| step_supervisor: "i < length (cl_threads w) \<Longrightarrow> sv_channel (cl_threads w ! i) = channel \<Longrightarrow>
    run_state (advance ce i) w = (x, w') \<Longrightarrow> claire_step ce channel chat w w'"
| step_others: "calm (cl_hub w) s \<Longrightarrow> claire_step ce channel chat w (w\<lparr>cl_hub := s\<rparr>)"

definition claire_reachable :: "'j claire_env \<Rightarrow> string \<Rightarrow> int \<Rightarrow> 'j claire \<Rightarrow> 'j claire \<Rightarrow> bool" where
  "claire_reachable ce channel chat = (claire_step ce channel chat)\<^sup>*\<^sup>*"

lemma steadyE:
  assumes "steady ce channel m" and "run_state m w = (x, w')"
  shows "cl_busy w' = cl_busy w" and "stored_run ce channel w' = stored_run ce channel w"
  using assms by (auto simp: steady_def holds_def turn_def) (metis snd_conv)+

lemma step_one_turn:
  assumes ok: "codec_ok (ce_codec ce)" and "claire_step ce channel chat w w'" and "one_turn ce channel w"
  shows "one_turn ce channel w'"
proof -
  have kept: "one_turn ce channel w'" if "keeps_turn ce channel m" "run_state m w = (x, w')"
    for m :: "(_, 'z) claire_op" and x
    using holdsD [OF that(1) [unfolded keeps_turn_def] assms(3) that(2)] .
  have steady: "one_turn ce channel w'" if "steady ce channel m" "run_state m w = (x, w')" for m :: "(_, 'z) claire_op" and x
    using kept [OF keeps_steady [OF that(1)] that(2)] .
  show ?thesis
    using assms(2)
  proof cases
    case (step_supervisor i x)
    have "run_state (advance ce i) w = run_state (supervise ce (cl_threads w ! i) \<bind> (\<lambda>st. State_Monad.update (set_thread i st))) w"
      using step_supervisor(1) by (simp add: advance_def)
    moreover have "steady ce channel (supervise ce (cl_threads w ! i) \<bind> (\<lambda>st. State_Monad.update (set_thread i st)))"
      by (intro steady_bind steady_supervise steady_update ok step_supervisor(2)) simp_all
    ultimately show ?thesis using steady step_supervisor(3) by metis
  next
    case (step_others s)
    with assms(3) show ?thesis by (simp add: one_turn_def stored_run_def stored_session_def quiet_def)
  next
    case (step_chat message x)
    then show ?thesis by (rule kept [OF handle_update_one [OF ok]])
  next
    case (step_event ev x)
    then show ?thesis by (rule kept [OF keeps_output_event [OF ok]])
  next
    case (step_follow_up x)
    then show ?thesis by (rule kept [OF keeps_follow_up [OF ok]])
  next
    case (step_wake x)
    then show ?thesis by (rule kept [OF keeps_wake [OF ok]])
  next
    case (step_reconcile x)
    then show ?thesis by (rule steady [OF steady_reconcile [OF ok]])
  qed (use assms(3) in \<open>simp_all add: one_turn_def stored_run_def stored_session_def process_ends_def\<close>)
qed

lemma reachable_one_turn:
  assumes "codec_ok (ce_codec ce)" and "claire_reachable ce channel chat w w'" and "one_turn ce channel w"
  shows "one_turn ce channel w'"
  using assms(2,3) unfolding claire_reachable_def
  by (induction rule: rtranclp_induct) (auto intro: step_one_turn [OF assms(1)])

end
