(* ===== verification/Claire_Wakes.thy ===== *)
theory Claire_Wakes
  imports Claire_Steps
begin

text \<open>
  What the assistant does to the rest of the hub, as relations between the states before and after:
  which operations keep every wake open, and which do no work at all.
\<close>

subsection \<open>Relations over the state monad\<close>

lemma io_bind:
  assumes "transp R" and "state_io_rel R m" and "\<And>x. state_io_rel R (f x)"
  shows "state_io_rel R (m \<bind> f)"
  unfolding state_io_rel_def
proof
  fix w
  obtain x w' where run: "run_state m w = (x, w')" by fastforce
  have "R w' (snd (run_state (f x) w'))" using assms(3) by (simp add: state_io_rel_def)
  with transpD [OF assms(1) state_io_relD [OF assms(2) run]] run
  show "R w (snd (run_state (m \<bind> f) w))" by simp
qed

lemma io_attempt:
  assumes "transp R" and "reflp R" and "state_io_rel R m" and "\<And>x. state_io_rel R (f x)"
  shows "state_io_rel R (attempt m f)"
  unfolding attempt_def using assms
  by (intro io_bind) (auto simp: reflpD split: sum.splits)

lemma io_traverse:
  assumes "transp R" and "reflp R" and "\<And>x. state_io_rel R (f x)"
  shows "state_io_rel R (traverse_list f xs)"
  by (induction xs) (auto intro!: io_bind assms simp: reflpD [OF assms(2)])

subsection \<open>Open wakes\<close>

definition kept :: "'j claire \<Rightarrow> 'j claire \<Rightarrow> bool" where
  "kept w w' \<longleftrightarrow> wakes_kept (hs_hub (cl_hub w)) (hs_hub (cl_hub w'))"

definition keeps_wakes :: "('j, 'a) claire_op \<Rightarrow> bool" where
  "keeps_wakes m \<longleftrightarrow> state_io_rel kept m"

lemma kept_trans: "transp kept"
  by (auto simp: transp_def kept_def intro: wakes_kept_trans)

lemma kept_refl: "reflp kept"
  by (simp add: reflp_def kept_def)

lemma wakes_give [simp]: "keeps_wakes (give x)"
  by (auto simp: keeps_wakes_def kept_def)

lemma wakes_bind: "keeps_wakes m \<Longrightarrow> (\<And>x. keeps_wakes (f x)) \<Longrightarrow> keeps_wakes (m \<bind> f)"
  unfolding keeps_wakes_def by (rule io_bind [OF kept_trans])

lemma wakes_attempt: "keeps_wakes m \<Longrightarrow> (\<And>x. keeps_wakes (f x)) \<Longrightarrow> keeps_wakes (attempt m f)"
  unfolding keeps_wakes_def by (rule io_attempt [OF kept_trans kept_refl])

lemma wakes_traverse: "(\<And>x. keeps_wakes (f x)) \<Longrightarrow> keeps_wakes (traverse_list f xs)"
  unfolding keeps_wakes_def by (rule io_traverse [OF kept_trans kept_refl])

lemmas wakes_intros = wakes_bind wakes_attempt wakes_traverse

lemma wakes_same_hub:
  "(\<And>w x w'. run_state m w = (x, w') \<Longrightarrow> hs_hub (cl_hub w') = hs_hub (cl_hub w)) \<Longrightarrow> keeps_wakes m"
  by (force simp: keeps_wakes_def kept_def)

lemma wakes_get [simp]: "keeps_wakes State_Monad.get"
  by (rule wakes_same_hub) simp

lemma wakes_update: "(\<And>w. cl_hub (f w) = cl_hub w) \<Longrightarrow> keeps_wakes (State_Monad.update f)"
  by (rule wakes_same_hub) auto

lemma wakes_hub_op:
  assumes "\<And>u s a s'. f u s = (a, s') \<Longrightarrow> wakes_kept (hs_hub s) (hs_hub s')"
  shows "keeps_wakes (hub_op ce f)"
  unfolding keeps_wakes_def
  by (rule state_io_relI) (auto simp: hub_op_def kept_def split: prod.splits dest: assms)

lemma wakes_calm: "(\<And>u s a s'. f u s = (a, s') \<Longrightarrow> calm s s') \<Longrightarrow> keeps_wakes (hub_op ce f)"
  by (rule wakes_hub_op) (auto simp: quiet_def)

lemma wakes_reads [simp]:
  "keeps_wakes (settings_op ce)" "keeps_wakes (session_op ce channel)"
  "keeps_wakes (pending_wakes_op ce channel)" "keeps_wakes (task_events_op ce tid)"
  "keeps_wakes (recent_events_op ce n)" "keeps_wakes (events_after_op ce i)"
  "keeps_wakes (hub_op ce (\<lambda>u s. (g u s, s)))"
  unfolding settings_op_def session_op_def pending_wakes_op_def task_events_op_def recent_events_op_def
    events_after_op_def
  by (rule wakes_calm, simp)+

lemma wakes_calls [simp]:
  "keeps_wakes (assistant_event_op ce kind tid rid provider payload)"
  "keeps_wakes (assistant_message_op ce tid rid message)"
  "keeps_wakes (assistant_run_op ce tid settings prompt)"
  "keeps_wakes (submit_op ce cmd)" "keeps_wakes (track_worker_op ce ch tid rid)"
  "keeps_wakes (submit_task ce title prompt ch node engine model effort workspace)"
  "keeps_wakes (send_message_op ce tid rid message)"
  unfolding assistant_event_op_def assistant_message_op_def assistant_run_op_def submit_op_def
    track_worker_op_def submit_task_def send_message_op_def
  by (rule wakes_calm, (erule assistant_run_calm submit_command_calm
      track_worker_calm create_worker_task_calm))+

lemma wakes_writes [simp]:
  "keeps_wakes (save_session_op ce channel session)" "keeps_wakes (clear_session_op ce channel)"
  "keeps_wakes (save_settings_op ce settings)" "keeps_wakes (defer_wake_op ce eid reason)"
  unfolding save_session_op_def clear_session_op_def save_settings_op_def defer_wake_op_def
    save_assistant_session_def clear_assistant_session_def save_assistant_settings_def
  by (rule wakes_hub_op, auto simp: with_hub_def quiet_def split: prod.splits sum.splits
      dest!: put_setting_wakes defer_wake_quiet intro: wakes_kept_eq)+

lemma wakes_runs [simp]:
  "keeps_wakes (mark_busy rid)" "keeps_wakes (unmark_busy rho)" "keeps_wakes (set_job rid job)"
  "keeps_wakes (spawn_op ce ch session rid d req)" "keeps_wakes (program_op ce executable args dir)"
  "keeps_wakes (send_op ce message)"
  by (rule wakes_same_hub, auto simp: mark_busy_def unmark_busy_def set_job_def spawn_op_def program_op_def
      send_op_def Let_def split: option.splits)+

lemma wakes_compound [simp]:
  "keeps_wakes (run_optmem ce settings args)" "keeps_wakes (load_memory_context ce settings)"
  "keeps_wakes (save_memory_note ce settings note)" "keeps_wakes (terminal_op ce tid rid)"
  "keeps_wakes (append_claire_start_failure ce session message)" "keeps_wakes (forget_wake ce channel eid)"
  "keeps_wakes (defer_session_wake ce channel session reason)" "keeps_wakes (clear_current_run ce channel engine)"
  "keeps_wakes (runner_start ce channel settings t)" "keeps_wakes (runner_stop ce session)"
proof -
  show optmem: "keeps_wakes (run_optmem ce settings args)" for args
    by (auto simp: run_optmem_def intro!: wakes_intros split: option.splits)
  show "keeps_wakes (load_memory_context ce settings)" "keeps_wakes (save_memory_note ce settings note)"
    by (auto simp: load_memory_context_def save_memory_note_def optmem intro!: wakes_intros split: sum.splits)
  show terminal: "keeps_wakes (terminal_op ce tid rid)" for tid rid
    by (auto simp: terminal_op_def intro!: wakes_intros)
  show "keeps_wakes (append_claire_start_failure ce session message)"
    by (auto simp: append_claire_start_failure_def terminal intro!: wakes_intros split: option.splits)
  show forget: "keeps_wakes (forget_wake ce channel eid)" for eid
    by (auto simp: forget_wake_def intro!: wakes_intros split: sum.splits option.splits)
  show deferred: "keeps_wakes (defer_session_wake ce channel session reason)" for session reason
    by (auto simp: defer_session_wake_def forget intro!: wakes_intros split: option.splits)
  show "keeps_wakes (clear_current_run ce channel engine)"
    by (auto simp: clear_current_run_def deferred intro!: wakes_intros split: option.splits)
  show "keeps_wakes (runner_start ce channel settings t)"
    by (auto simp: runner_start_def intro!: wakes_intros split: option.splits sum.splits)
  show "keeps_wakes (runner_stop ce session)"
    by (auto simp: runner_stop_def intro!: wakes_intros wakes_update split: option.splits)
qed

lemma wakes_prompt [simp]: "keeps_wakes (submit_claire_prompt ce channel message)"
  by (auto simp: submit_claire_prompt_def claire_session_def claire_run_def build_claire_system_prompt_def Let_def
      intro!: wakes_intros split: option.splits sum.splits)

lemma wakes_start [simp]: "keeps_wakes (start_claire_turn ce channel prompt)"
  by (auto simp: start_claire_turn_def Let_def intro!: wakes_intros split: option.splits sum.splits)

lemma wakes_commands [simp]:
  "keeps_wakes (switch_engine ce channel engine)" "keeps_wakes (change_model ce channel model)"
  "keeps_wakes (show_model ce)" "keeps_wakes (reset_conversation ce channel)" "keeps_wakes (stop_turn ce channel)"
  by (auto simp: switch_engine_def change_model_def show_model_def reset_conversation_def stop_turn_def Let_def
      intro!: wakes_intros split: sum.splits option.splits)

lemma wakes_if: "keeps_wakes m \<Longrightarrow> keeps_wakes m' \<Longrightarrow> keeps_wakes (if b then m else m')"
  by simp

lemma wakes_command [simp]: "keeps_wakes (claire_command ce channel trimmed)"
  unfolding claire_command_def
  by (intro wakes_if wakes_give wakes_commands wakes_start wakes_attempt wakes_reads wakes_compound)

lemma wakes_input [simp]: "keeps_wakes (handle_update ce channel chat message)"
  by (auto simp: handle_update_def handle_claire_input_def Let_def
      intro!: wakes_intros wakes_update split: option.splits sum.splits)

lemma wakes_action [simp]: "keeps_wakes (execute_claire_action ce channel settings action)"
  by (cases action)
    (auto simp: create_task_action_def Let_def intro!: wakes_intros split: sum.splits prod.splits)

lemma wakes_answer [simp]: "keeps_wakes (process_answer ce channel ev)"
  by (auto simp: process_answer_def refuse_answer_def use_answer_def answer_reply_def internal_work_def memory_failure_def
      action_outcome_def clear_follow_up_def follow_up_op_def Let_def
      intro!: wakes_intros split: sum.splits option.splits)

lemma wakes_process [simp]: "keeps_wakes (process_claire_event ce channel ev)"
proof -
  have "keeps_wakes (process_failure ce channel ev)" "keeps_wakes (process_interruption ce channel ev)"
    "keeps_wakes (process_completion ce channel ev)"
    by (auto simp: process_failure_def process_interruption_def process_completion_def Let_def
        intro!: wakes_intros split: sum.splits option.splits)
  then show ?thesis by (cases "e_kind ev") (simp_all add: process_claire_event_def)
qed

lemma wakes_deliver [simp]: "keeps_wakes (deliver_op ce reply)"
  by (cases reply) (simp_all add: deliver_op_def)

lemma wakes_passes [simp]:
  "keeps_wakes (reconcile_claire_runner ce channel)" "keeps_wakes (start_pending_claire_follow_up ce channel)"
  "keeps_wakes (wake_claire_for_pending_worker ce channel)" "keeps_wakes (supervise ce t)"
proof -
  show "keeps_wakes (reconcile_claire_runner ce channel)"
    by (auto simp: reconcile_claire_runner_def intro!: wakes_intros split: sum.splits option.splits)
  show "keeps_wakes (start_pending_claire_follow_up ce channel)"
    by (auto simp: start_pending_claire_follow_up_def drop_follow_up_def Let_def
        intro!: wakes_intros split: sum.splits option.splits)
  show "keeps_wakes (wake_claire_for_pending_worker ce channel)"
    by (auto simp: wake_claire_for_pending_worker_def start_wake_turn_def Let_def
        intro!: wakes_intros split: sum.splits option.splits list.splits)
  show "keeps_wakes (supervise ce t)"
    by (cases "sv_stage t")
      (auto simp: supervise_def intro!: wakes_intros wakes_update split: sum.splits option.splits)
qed

end
