(* ===== verification/Claire_Props.thy ===== *)
theory Claire_Props
  imports Claire_Wakes Hub_Props
begin

text \<open>
  The properties of the hub-local assistant: one turn at a time, a message during a turn changes
  nothing, a wake stays open until her answer to it was delivered, an answer that cannot be used
  does no work, and what she is told is bounded. They hold for every fault of the store and every
  answer of the outside.
\<close>

subsection \<open>An example state\<close>

definition demo_session :: assistant_session where
  "demo_session =
     \<lparr>se_task_id = TaskId 1, se_run_id = Some (RunId 1), se_engine = ''claude'', se_provider_session_id = None,
      se_pending_wake = Some (EventId 9), se_pending_follow_up = None, se_action_follow_up = False\<rparr>"

definition demo_wake_id :: string where
  "demo_wake_id = event_id_str plain_codec (EventId 9)"

definition demo_wake :: wake_row where
  "demo_wake =
     \<lparr>wk_event_id = demo_wake_id, wk_sequence = 4, wk_channel = ''tg'', wk_task_id = [], wk_run_id = [],
      wk_kind = ''run.completed'', wk_created_at = [], wk_attempt_count = 0, wk_next_attempt_at = [],
      wk_last_error = None, wk_processed_at = None\<rparr>"

definition demo_outside :: outside where
  "demo_outside =
     \<lparr>su_env = demo_env, su_cid = (\<lambda>_. CommandId 7),
      su_worker = \<lparr>w_create = demo_env, w_start = demo_env, w_prompt = demo_env, w_io = (\<lambda>_. no_faults),
        w_clock = 0, w_cid = (\<lambda>_. CommandId 7)\<rparr>,
      su_program = CannotRun ''absent'', su_delivered = True, su_child = True, su_thread = None\<rparr>"

definition demo_reader :: "string \<Rightarrow> json option" where
  "demo_reader s = (if s = ''ok'' then Some (JObject [(''reply'', JString ''Done.'')]) else None)"

definition demo_claire_env :: "(json + hub_to_node) claire_env" where
  "demo_claire_env =
     \<lparr>ce_codec = plain_codec, ce_supply = (\<lambda>_. demo_outside), ce_read = demo_reader, ce_dbg = (\<lambda>_. []),
      ce_text = (\<lambda>_. []), ce_bad = [], ce_bad_uuid = (\<lambda>_. []), ce_claude_bin = None, ce_codex_bin = None\<rparr>"

definition demo_claire_hub :: "(json + hub_to_node) hub" where
  "demo_claire_hub = empty_hub
     \<lparr>control_settings := [\<lparr>cs_key = session_key ''tg'', cs_value = Inl (session_json plain_codec demo_session),
        cs_updated_at = []\<rparr>],
      assistant_wakes := [demo_wake]\<rparr>"

definition demo_claire :: "(json + hub_to_node) claire" where
  "demo_claire = (claire_new (from_hub demo_claire_hub ''secret'' []))\<lparr>cl_busy := {RunId 1}\<rparr>"

definition demo_answer :: "string \<Rightarrow> event" where
  "demo_answer message =
     \<lparr>e_sequence = 5, e_event_id = EventId 5, e_command_id = None, e_kind = MessageAssistantCompleted,
      e_task_id = TaskId 1, e_run_id = Some (RunId 1), e_provider_session_id = None, e_node_id = hub_node,
      e_protocol_version = 1, e_occurred_at = 0, e_hub_received_at = 0,
      e_payload = JObject [(''text'', JString message)]\<rparr>"

lemma demo_env_simps [simp]:
  "ce_codec demo_claire_env = plain_codec" "ce_supply demo_claire_env n = demo_outside"
  "ce_read demo_claire_env = demo_reader" "su_env demo_outside = demo_env" "su_delivered demo_outside = True"
  "v_io demo_env n = no_faults" "v_clock demo_env n = 0"
  by (simp_all add: demo_claire_env_def demo_outside_def demo_env_def)

lemma demo_session_op:
  assumes "find (\<lambda>r. cs_key r = session_key ''tg'') (control_settings (hs_hub (cl_hub w))) =
      Some \<lparr>cs_key = session_key ''tg'', cs_value = Inl (session_json plain_codec session), cs_updated_at = x\<rparr>"
  shows "run_state (session_op demo_claire_env ''tg'') w = (Inr (Some session), w\<lparr>cl_time := Suc (cl_time w)\<rparr>)"
proof -
  have parse: "json_parse plain_codec (Inl v) = Some v" for v by (simp add: plain_codec_def)
  show ?thesis
    using session_round_trip [OF plain_codec_ok, of session] session_json_ok(2) [of plain_codec session]
    by (simp add: session_op_def hub_op_def load_assistant_session_def get_setting_def store_simps assms parse
        ok_or_def bind_res_def no_faults_def exec_def)
qed

lemma demo_settings_op:
  assumes "find (\<lambda>r. cs_key r = ASSISTANT_SETTINGS_KEY) (control_settings (hs_hub (cl_hub w))) = None"
  shows "run_state (settings_op demo_claire_env) w = (Inr assistant_settings_default, w\<lparr>cl_time := Suc (cl_time w)\<rparr>)"
  by (simp add: settings_op_def hub_op_def load_assistant_settings_def get_setting_def store_simps assms
      bind_res_def no_faults_def exec_def)

lemma demo_rows:
  "find (\<lambda>r. cs_key r = session_key ''tg'') (control_settings demo_claire_hub) =
     Some \<lparr>cs_key = session_key ''tg'', cs_value = Inl (session_json plain_codec demo_session), cs_updated_at = []\<rparr>"
  "find (\<lambda>r. cs_key r = ASSISTANT_SETTINGS_KEY) (control_settings demo_claire_hub) = None"
  "hs_hub (cl_hub demo_claire) = demo_claire_hub" "cl_busy demo_claire = {RunId 1}"
  by (simp_all add: demo_claire_hub_def demo_claire_def claire_new_def from_hub_def session_key_def
      ASSISTANT_SETTINGS_KEY_def)

lemma demo_session_sel [simp]:
  "se_run_id demo_session = Some (RunId 1)" "se_task_id demo_session = TaskId 1"
  "se_pending_wake demo_session = Some (EventId 9)" "se_action_follow_up demo_session = False"
  by (simp_all add: demo_session_def)

lemma demo_one_turn: "one_turn demo_claire_env ''tg'' demo_claire"
proof -
  have "json_parse plain_codec (Inl v) = Some v" for v by (simp add: plain_codec_def)
  then have "stored_session demo_claire_env ''tg'' demo_claire = Some demo_session"
    by (simp add: stored_session_def demo_rows session_round_trip [OF plain_codec_ok] session_json_ok(2))
  then show ?thesis by (simp add: one_turn_def stored_run_def demo_rows)
qed

lemma demo_envelope:
  "parse_claire_envelope demo_reader ''ok'' =
     \<lparr>en_notify = True, en_reply = ''Done.'', en_remember = [], en_actions = [], en_malformed = False\<rparr>"
  by code_simp

text \<open>The answer to the wake of the example.\<close>

lemma demo_projection:
  defines "st n \<equiv> demo_claire\<lparr>cl_cursor := 5, cl_time := n\<rparr>"
  shows "run_state (session_op demo_claire_env ''tg'') (st n) = (Inr (Some demo_session), st (Suc n))"
    and "run_state (process_claire_event demo_claire_env ''tg'' (demo_answer ''ok'')) (st n) =
     (\<lparr>pj_reply = Some ''Done.'', pj_wake = Some (EventId 9), pj_awaiting = False\<rparr>, st (Suc (Suc (Suc n))))"
proof -
  show session: "run_state (session_op demo_claire_env ''tg'') (st n) = (Inr (Some demo_session), st (Suc n))" for n
    by (subst demo_session_op) (simp_all add: st_def demo_rows)
  have settings: "run_state (settings_op demo_claire_env) (st n) = (Inr assistant_settings_default, st (Suc n))" for n
    by (subst demo_settings_op) (simp_all add: st_def demo_rows)
  have kind: "e_kind (demo_answer ''ok'') = MessageAssistantCompleted" "payload_text (demo_answer ''ok'') ''text'' = Some ''ok''"
    by (simp_all add: demo_answer_def payload_text_def)
  have "trim_is_empty ''Done.'' = False" by code_simp
  then show "run_state (process_claire_event demo_claire_env ''tg'' (demo_answer ''ok'')) (st n) =
     (\<lparr>pj_reply = Some ''Done.'', pj_wake = Some (EventId 9), pj_awaiting = False\<rparr>, st (Suc (Suc (Suc n))))"
    by (simp add: process_claire_event_def kind process_answer_def demo_envelope follow_up_op_def Let_def
      session use_answer_def internal_work_def settings answer_reply_def)
qed

lemma complete_wake_run:
  "run_state (complete_wake_op demo_claire_env eid) w =
     (Inr (length (filter (wake_open plain_codec eid) (assistant_wakes (hs_hub (cl_hub w)))) = 1),
      w\<lparr>cl_time := Suc (cl_time w), cl_hub := (cl_hub w)\<lparr>hs_hub := (hs_hub (cl_hub w))
        \<lparr>assistant_wakes := update_where (wake_open plain_codec eid)
           (\<lambda>r. r\<lparr>wk_processed_at := Some (fmt_time plain_codec 0)\<rparr>) (assistant_wakes (hs_hub (cl_hub w)))\<rparr>\<rparr>\<rparr>)"
  by (simp add: complete_wake_op_def hub_op_def with_hub_def complete_assistant_wake_def autocommit_def exec_def
      no_faults_def)

lemma forget_same_wakes:
  "run_state (forget_wake ce channel eid) w = (x, w') \<Longrightarrow>
   assistant_wakes (hs_hub (cl_hub w')) = assistant_wakes (hs_hub (cl_hub w))"
  by (auto simp: forget_wake_def session_op_def save_session_op_def hub_op_def with_hub_def
      save_assistant_session_def split: sum.splits option.splits prod.splits if_splits dest!: put_setting_wakes)

lemma demo_output:
  assumes "run_state (output_event demo_claire_env ''tg'' (demo_answer ''ok'')) demo_claire = (x, w)"
  shows "assistant_wakes (hs_hub (cl_hub w)) = [demo_wake\<lparr>wk_processed_at := Some (fmt_time plain_codec 0)\<rparr>]"
proof -
  let ?st = "\<lambda>n. demo_claire\<lparr>cl_cursor := 5, cl_time := n\<rparr>"
  have open_wake: "wake_open plain_codec (EventId 9) demo_wake"
    by (simp add: wake_open_def demo_wake_def demo_wake_id_def)
  have sel: "e_task_id (demo_answer m) = TaskId 1" "e_run_id (demo_answer m) = Some (RunId 1)"
    "e_sequence (demo_answer m) = 5" for m
    by (simp_all add: demo_answer_def)
  let ?rest = "deliver_op demo_claire_env (Some ''Done.'') \<bind> settle_wake demo_claire_env ''tg''
    \<lparr>pj_reply = Some ''Done.'', pj_wake = Some (EventId 9), pj_awaiting = False\<rparr>"
  have "run_state (output_event demo_claire_env ''tg'' (demo_answer ''ok'')) demo_claire =
      run_state (session_op demo_claire_env ''tg'' \<bind> (\<lambda>r. case r of
        Inr (Some session) \<Rightarrow>
          if se_task_id session = TaskId 1 \<and> Some (RunId 1) = se_run_id session
          then handle_claire_event demo_claire_env ''tg'' (demo_answer ''ok'') else give ()
      | _ \<Rightarrow> give ())) (?st 0)"
    by (simp add: output_event_def sel demo_claire_def claire_new_def)
  also have "\<dots> = run_state ?rest (?st 4)"
    by (simp add: demo_projection handle_claire_event_def eval_nat_numeral)
  finally have "run_state ?rest (?st 4) = (x, w)" using assms by simp
  then show ?thesis
    by (simp add: deliver_op_def send_op_def settle_wake_def complete_wake_run)
      (auto dest!: forget_same_wakes simp: demo_rows demo_claire_hub_def update_where_def open_wake)
qed

subsection \<open>One turn at a time\<close>

text \<open>C17: whatever the chat sends, whatever the log holds, whenever her process ends and whatever
  fails in the store or outside, at most one turn of the assistant is in progress, and it is the
  turn of the stored session.\<close>

theorem one_turn_at_a_time:
  assumes "codec_ok (ce_codec ce)" and "claire_reachable ce channel chat w0 w" and "one_turn ce channel w0"
  shows "cl_busy w = {} \<or> (\<exists>session rid. stored_session ce channel w = Some session \<and>
    se_run_id session = Some rid \<and> cl_busy w = {rid})"
proof (cases "stored_run ce channel w")
  case (Some rid)
  then obtain session where "stored_session ce channel w = Some session" "se_run_id session = Some rid"
    by (auto simp: stored_run_def bind_eq_Some_conv)
  moreover have "cl_busy w = {} \<or> cl_busy w = {rid}"
    using reachable_one_turn [OF assms] Some by (auto simp: one_turn_def)
  ultimately show ?thesis by blast
qed (use reachable_one_turn [OF assms] in \<open>simp add: one_turn_def\<close>)

lemma demo_step:
  obtains w where "claire_step demo_claire_env ''tg'' 1 demo_claire w"
    and "run_state (output_event demo_claire_env ''tg'' (demo_answer ''ok'')) demo_claire = ((), w)"
  using claire_step.step_event [of demo_claire_env "''tg''" "demo_answer ''ok''" demo_claire "()"]
  by (metis old.unit.exhaust prod.exhaust)

theorem one_turn_at_a_time_witness:
  "\<exists>w. claire_reachable demo_claire_env ''tg'' 1 demo_claire w \<and> w \<noteq> demo_claire \<and>
     (cl_busy w = {} \<or> (\<exists>session rid. stored_session demo_claire_env ''tg'' w = Some session \<and>
       se_run_id session = Some rid \<and> cl_busy w = {rid}))"
proof -
  obtain w where step: "claire_step demo_claire_env ''tg'' 1 demo_claire w"
    and run: "run_state (output_event demo_claire_env ''tg'' (demo_answer ''ok'')) demo_claire = ((), w)"
    by (rule demo_step)
  have reach: "claire_reachable demo_claire_env ''tg'' 1 demo_claire w"
    unfolding claire_reachable_def using step by blast
  have "w \<noteq> demo_claire" using demo_output [OF run] by (auto simp: demo_rows demo_claire_hub_def demo_wake_def)
  with reach one_turn_at_a_time [OF _ reach demo_one_turn] show ?thesis by (auto simp: plain_codec_ok)
qed

subsection \<open>A message during a turn\<close>

text \<open>C19: a message that comes while the turn of the session is in progress and the session can be read, other than \<open>/stop\<close> and
  \<open>/where\<close>, changes nothing: it starts no turn, appends no event, sends nothing by itself and is
  answered that she is still working.\<close>

theorem busy_message_changes_nothing:
  assumes "run_state (session_op ce channel) w = (Inr (Some session), w1)"
    and "se_run_id session = Some rid" and "rid \<in> cl_busy w"
    and "str_trim message \<notin> {''/stop'', ''/where''}"
  shows "run_state (handle_claire_input ce channel message) w
    = (Inr (Some busy_text), w\<lparr>cl_time := Suc (cl_time w)\<rparr>)"
proof -
  have "w1 = w\<lparr>cl_time := Suc (cl_time w)\<rparr>"
    using assms(1) by (auto simp: session_op_def hub_op_def)
  with assms show ?thesis by (simp add: handle_claire_input_def attempt_def Let_def)
qed

theorem busy_message_changes_nothing_witness:
  "run_state (handle_claire_input demo_claire_env ''tg'' ''/new'') demo_claire
    = (Inr (Some busy_text), demo_claire\<lparr>cl_time := Suc (cl_time demo_claire)\<rparr>)"
proof (rule busy_message_changes_nothing)
  show "run_state (session_op demo_claire_env ''tg'') demo_claire
      = (Inr (Some demo_session), demo_claire\<lparr>cl_time := Suc (cl_time demo_claire)\<rparr>)"
    by (rule demo_session_op) (simp add: demo_rows)
  have "str_trim ''/new'' = ''/new''" by code_simp
  then show "str_trim ''/new'' \<notin> {''/stop'', ''/where''}" by simp
qed (simp_all add: demo_rows)

subsection \<open>A wake of the assistant\<close>

definition open_wake :: "string \<Rightarrow> 'j claire \<Rightarrow> bool" where
  "open_wake k w \<longleftrightarrow> (\<exists>r \<in> set (assistant_wakes (hs_hub (cl_hub w))). wk_event_id r = k \<and> wk_processed_at r = None)"

lemma kept_open: "kept w w' \<Longrightarrow> open_wake k w \<Longrightarrow> open_wake k w'"
  unfolding kept_def wakes_kept_def open_wake_def by metis

lemma keeps_open: "keeps_wakes m \<Longrightarrow> run_state m w = (x, w') \<Longrightarrow> open_wake k w \<Longrightarrow> open_wake k w'"
  unfolding keeps_wakes_def by (blast intro: kept_open dest: state_io_relD)

lemma complete_keeps_others:
  assumes "run_state (complete_wake_op ce eid) w = (x, w')" and "open_wake k w" and "k \<noteq> event_id_str (ce_codec ce) eid"
  shows "open_wake k w'"
proof -
  obtain r where r: "r \<in> set (assistant_wakes (hs_hub (cl_hub w)))" "wk_event_id r = k" "wk_processed_at r = None"
    using assms(2) by (auto simp: open_wake_def)
  have "\<not> wake_open (ce_codec ce) eid r" using r(2) assms(3) by (simp add: wake_open_def)
  then have "r \<in> set (update_where (wake_open (ce_codec ce) eid) f (assistant_wakes (hs_hub (cl_hub w))))" for f
    using r(1) by (force simp: update_where_def)
  then show ?thesis
    using assms(1) r
    by (auto simp: complete_wake_op_def hub_op_def with_hub_def complete_assistant_wake_def autocommit_def exec_def
        open_wake_def Let_def split: prod.splits option.splits)
qed

lemma settle_keeps_open:
  assumes "run_state (settle_wake ce channel pj delivered) w = (x, w')" and "open_wake k w" and "\<not> open_wake k w'"
  shows "delivered \<and> \<not> pj_awaiting pj \<and> (\<exists>eid. pj_wake pj = Some eid \<and> k = event_id_str (ce_codec ce) eid)"
proof (rule ccontr)
  assume other: "\<not> ?thesis"
  have "open_wake k w'"
  proof (cases "pj_wake pj")
    case (Some eid)
    have later: "open_wake k w2 \<Longrightarrow> run_state (forget_wake ce channel eid) w2 = (y, w') \<Longrightarrow> open_wake k w'" for w2 y
      by (rule keeps_open [OF wakes_compound(6)])
    have "run_state (complete_wake_op ce eid) w = (y, w2) \<Longrightarrow> delivered \<Longrightarrow> \<not> pj_awaiting pj \<Longrightarrow> open_wake k w2"
      and "run_state (defer_wake_op ce eid reason) w = (y, w2) \<Longrightarrow> open_wake k w2" for y w2 reason
      using complete_keeps_others [OF _ assms(2)] other Some keeps_open [OF wakes_writes(4) _ assms(2)] by blast+
    with assms(1,2) Some later show ?thesis
      by (auto simp: settle_wake_def split: if_splits prod.splits)
  qed (use assms(1,2) in \<open>simp add: settle_wake_def\<close>)
  with assms(3) show False by simp
qed

text \<open>Only a usable answer names a wake.\<close>

definition results :: "('a \<Rightarrow> bool) \<Rightarrow> ('s, 'a) state \<Rightarrow> bool" where
  "results P m \<longleftrightarrow> (\<forall>w. P (fst (run_state m w)))"

lemma results_bind: "(\<And>x. results P (f x)) \<Longrightarrow> results P (m \<bind> f)"
  by (simp add: results_def split_beta)

lemma results_give: "P x \<Longrightarrow> results P (give x)"
  by (simp add: results_def)

lemma results_refuse: "results (\<lambda>pj. pj_wake pj = None \<and> \<not> pj_awaiting pj) (refuse_answer ce channel reason reply)"
  unfolding refuse_answer_def by (intro results_bind results_give) simp

lemma results_terminal:
  "results (\<lambda>pj. pj_wake pj = None) (process_failure ce channel ev)"
  "results (\<lambda>pj. pj_wake pj = None) (process_interruption ce channel ev)"
  "results (\<lambda>pj. pj_wake pj = None) (process_completion ce channel ev)"
  unfolding process_failure_def process_interruption_def process_completion_def Let_def
  by (auto intro!: results_bind results_give split: sum.splits option.splits)

definition answer_of :: "'j claire_env \<Rightarrow> event \<Rightarrow> claire_envelope" where
  "answer_of ce ev =
     parse_claire_envelope (ce_read ce) (case payload_text ev ''text'' of Some t \<Rightarrow> t | None \<Rightarrow> [])"

lemma wake_named:
  assumes "run_state (process_claire_event ce channel ev) w = (pj, w')" and "pj_wake pj = Some eid"
  shows "e_kind ev = MessageAssistantCompleted" and "\<not> en_malformed (answer_of ce ev)"
proof -
  have none: "pj_wake pj = None" if "results (\<lambda>pj. pj_wake pj = None) (process_claire_event ce channel ev)"
    using that assms(1) unfolding results_def by (metis fst_conv)
  show kind: "e_kind ev = MessageAssistantCompleted"
  proof (rule ccontr)
    assume "e_kind ev \<noteq> MessageAssistantCompleted"
    then have "results (\<lambda>pj. pj_wake pj = None) (process_claire_event ce channel ev)"
      by (cases "e_kind ev") (simp_all add: process_claire_event_def results_terminal results_give)
    with none assms(2) show False by simp
  qed
  show "\<not> en_malformed (answer_of ce ev)"
  proof
    assume "en_malformed (answer_of ce ev)"
    then have "process_claire_event ce channel ev = refuse_answer ce channel
        ''Claire returned a malformed envelope'' ''Claire returned an invalid response. Please try again.''"
      by (simp add: process_claire_event_def kind process_answer_def answer_of_def Let_def)
    then have "results (\<lambda>pj. pj_wake pj = None) (process_claire_event ce channel ev)"
      using results_refuse [of ce channel "''Claire returned a malformed envelope''"
        "''Claire returned an invalid response. Please try again.''"] by (simp add: results_def)
    with none assms(2) show False by simp
  qed
qed

text \<open>C18: a wake stays open through everything but one step: the assistant has given a well-formed
  answer while the session was at this wake, no result of an action awaits her, and what she had to
  say was delivered to the chat.\<close>

theorem wake_closes_after_delivery:
  assumes "claire_step ce channel chat w w'" and "open_wake k w" and "\<not> open_wake k w'"
  shows "\<exists>ev w0 pj w1 w2 eid. e_kind ev = MessageAssistantCompleted \<and> \<not> en_malformed (answer_of ce ev)
    \<and> run_state (process_claire_event ce channel ev) w0 = (pj, w1)
    \<and> run_state (deliver_op ce (pj_reply pj)) w1 = (True, w2)
    \<and> run_state (settle_wake ce channel pj True) w2 = ((), w')
    \<and> pj_wake pj = Some eid \<and> k = event_id_str (ce_codec ce) eid \<and> \<not> pj_awaiting pj"
  using assms(1)
proof cases
  case (step_event ev x)
  let ?w = "w\<lparr>cl_cursor := e_sequence ev\<rparr>"
  obtain r w0 where read: "run_state (session_op ce channel) ?w = (r, w0)" by fastforce
  have open0: "open_wake k w0"
    by (rule keeps_open [OF wakes_reads(2) read]) (use assms(2) in \<open>simp add: open_wake_def\<close>)
  have handled: "run_state (handle_claire_event ce channel ev) w0 = (x, w')"
    using step_event read open0 assms(3)
    by (auto simp: output_event_def split: sum.splits option.splits if_splits)
  obtain pj w1 d w2 where run: "run_state (process_claire_event ce channel ev) w0 = (pj, w1)"
      "run_state (deliver_op ce (pj_reply pj)) w1 = (d, w2)" by fastforce
  then have settle: "run_state (settle_wake ce channel pj d) w2 = ((), w')"
    using handled by (simp add: handle_claire_event_def)
  have "open_wake k w2"
    by (rule keeps_open [OF wakes_deliver run(2) keeps_open [OF wakes_process run(1) open0]])
  from settle_keeps_open [OF settle this assms(3)] obtain eid where
    pj: "d" "\<not> pj_awaiting pj" "pj_wake pj = Some eid" "k = event_id_str (ce_codec ce) eid" by blast
  then have "d = True" by simp
  with wake_named [OF run(1) pj(3)] run settle pj(2-4) show ?thesis by blast
next
  case (step_supervisor i x)
  then have run: "run_state (supervise ce (cl_threads w ! i) \<bind> (\<lambda>st. State_Monad.update (set_thread i st))) w = (x, w')"
    by (simp add: advance_def)
  have "keeps_wakes (supervise ce (cl_threads w ! i) \<bind> (\<lambda>st. State_Monad.update (set_thread i st)))"
    by (intro wakes_bind wakes_passes wakes_update) simp
  then have "open_wake k w'" using run assms(2) by (rule keeps_open)
  with assms(3) show ?thesis by simp
next
  case (step_others s)
  then have "kept w w'" by (simp add: kept_def quiet_def)
  with kept_open assms(2,3) show ?thesis by blast
next
  case (step_chat message x)
  from keeps_open [OF wakes_input this assms(2)] assms(3) show ?thesis by simp
next
  case (step_reconcile x)
  from keeps_open [OF wakes_passes(1) this assms(2)] assms(3) show ?thesis by simp
next
  case (step_follow_up x)
  from keeps_open [OF wakes_passes(2) this assms(2)] assms(3) show ?thesis by simp
next
  case (step_wake x)
  from keeps_open [OF wakes_passes(3) this assms(2)] assms(3) show ?thesis by simp
qed (use assms(2,3) in \<open>simp_all add: open_wake_def process_ends_def\<close>)

theorem wake_closes_after_delivery_witness:
  "\<exists>w ev w0 pj w1 w2. claire_step demo_claire_env ''tg'' 1 demo_claire w
    \<and> open_wake demo_wake_id demo_claire \<and> \<not> open_wake demo_wake_id w
    \<and> e_kind ev = MessageAssistantCompleted
    \<and> run_state (process_claire_event demo_claire_env ''tg'' ev) w0 = (pj, w1)
    \<and> run_state (deliver_op demo_claire_env (pj_reply pj)) w1 = (True, w2)"
proof -
  obtain w where step: "claire_step demo_claire_env ''tg'' 1 demo_claire w"
    and run: "run_state (output_event demo_claire_env ''tg'' (demo_answer ''ok'')) demo_claire = ((), w)"
    by (rule demo_step)
  have before: "open_wake demo_wake_id demo_claire"
    by (simp add: open_wake_def demo_rows demo_claire_hub_def demo_wake_def)
  moreover have after: "\<not> open_wake demo_wake_id w"
    using demo_output [OF run] by (simp add: open_wake_def)
  ultimately show ?thesis
    using step wake_closes_after_delivery [OF step before after] by blast
qed

subsection \<open>An answer that cannot be used\<close>

text \<open>No work was done: no program was run, and of the hub at most the settings and the wakes have changed.\<close>

definition at_rest :: "'j claire \<Rightarrow> 'j claire \<Rightarrow> bool" where
  "at_rest w w' \<longleftrightarrow> cl_programs w' = cl_programs w \<and> cl_sent w' = cl_sent w \<and> cl_jobs w' = cl_jobs w \<and>
     cl_busy w' = cl_busy w \<and>
     (\<exists>settings wakes. cl_hub w' = (cl_hub w)\<lparr>hs_hub := (hs_hub (cl_hub w))
        \<lparr>control_settings := settings, assistant_wakes := wakes\<rparr>\<rparr>)"

definition rests :: "('j, 'a) claire_op \<Rightarrow> bool" where
  "rests m \<longleftrightarrow> state_io_rel at_rest m"


lemma rest_refl: "reflp at_rest"
proof (rule reflpI)
  fix w :: "'j claire"
  have "cl_hub w = (cl_hub w)\<lparr>hs_hub := (hs_hub (cl_hub w))\<lparr>control_settings := control_settings (hs_hub (cl_hub w)),
      assistant_wakes := assistant_wakes (hs_hub (cl_hub w))\<rparr>\<rparr>" by simp
  then show "at_rest w w" unfolding at_rest_def by blast
qed

lemma rests_give [simp]: "rests (give x)"
  by (simp add: rests_def state_io_rel_def reflpD [OF rest_refl])


lemma rests_hub_op:
  assumes "\<And>u s a s'. f u s = (a, s') \<Longrightarrow> \<exists>settings wakes. s' = s\<lparr>hs_hub := (hs_hub s)
      \<lparr>control_settings := settings, assistant_wakes := wakes\<rparr>\<rparr>"
  shows "rests (hub_op ce f)"
  unfolding rests_def
  by (rule state_io_relI) (auto simp: hub_op_def at_rest_def split: prod.splits dest: assms)

lemma put_setting_frame:
  assumes "put_setting c io now key value h = (r, h')"
  obtains settings where "h' = h\<lparr>control_settings := settings\<rparr>"
proof (cases r)
  case (Inl e)
  with assms have "h' = h" by (auto simp: put_setting_def dest!: autocommit_Inl)
  then show thesis using that [of "control_settings h"] by simp
next
  case (Inr u)
  with assms show thesis by (auto simp: put_setting_def store_simps Let_def intro: that)
qed

lemma defer_wake_frame:
  assumes "defer_assistant_wake c io now eid reason h = (r, h')"
  obtains wakes where "h' = h\<lparr>assistant_wakes := wakes\<rparr>"
proof -
  have same: thesis if "h' = h" using that(1) \<open>\<And>wakes. h' = h\<lparr>assistant_wakes := wakes\<rparr> \<Longrightarrow> thesis\<close> [of "assistant_wakes h"]
    by simp
  show thesis
    using assms
    by (cases r) (auto simp: defer_assistant_wake_def store_simps Let_def split: sum.splits option.splits
        dest!: autocommit_Inl intro: same that)
qed

lemma rests_calls [simp]:
  "rests (session_op ce channel)" "rests (settings_op ce)"
  "rests (save_session_op ce channel session)" "rests (defer_wake_op ce eid reason)"
proof -
  have same: "\<exists>settings wakes. s = s\<lparr>hs_hub := (hs_hub s)\<lparr>control_settings := settings, assistant_wakes := wakes\<rparr>\<rparr>"
    for s :: "'z hub_state"
    by (rule exI [of _ "control_settings (hs_hub s)"], rule exI [of _ "assistant_wakes (hs_hub s)"]) simp
  show "rests (session_op ce channel)" "rests (settings_op ce)"
    unfolding session_op_def settings_op_def by (rule rests_hub_op, use same in auto)+
  show "rests (save_session_op ce channel session)"
    unfolding save_session_op_def
  proof (rule rests_hub_op)
    fix u s a s'
    assume "save_assistant_session (ce_codec ce) (v_io (su_env u) 0) (v_clock (su_env u) 0) channel session s = (a, s')"
    then obtain h where h: "put_setting (ce_codec ce) (v_io (su_env u) 0) (v_clock (su_env u) 0) (session_key channel)
        (session_json (ce_codec ce) session) (hs_hub s) = (a, h)" "s' = s\<lparr>hs_hub := h\<rparr>"
      by (auto simp: save_assistant_session_def with_hub_def split: prod.splits)
    obtain settings where "h = (hs_hub s)\<lparr>control_settings := settings\<rparr>" by (rule put_setting_frame [OF h(1)])
    then have "s' = s\<lparr>hs_hub := (hs_hub s)\<lparr>control_settings := settings, assistant_wakes := assistant_wakes (hs_hub s)\<rparr>\<rparr>"
      using h(2) by simp
    then show "\<exists>settings wakes. s' = s\<lparr>hs_hub := (hs_hub s)\<lparr>control_settings := settings, assistant_wakes := wakes\<rparr>\<rparr>"
      by blast
  qed
  show "rests (defer_wake_op ce eid reason)"
    unfolding defer_wake_op_def
  proof (rule rests_hub_op)
    fix u s a s'
    assume "with_hub (defer_assistant_wake (ce_codec ce) (v_io (su_env u) 0) (v_clock (su_env u) 0) eid reason) s = (a, s')"
    then obtain h where h: "defer_assistant_wake (ce_codec ce) (v_io (su_env u) 0) (v_clock (su_env u) 0) eid reason
        (hs_hub s) = (a, h)" "s' = s\<lparr>hs_hub := h\<rparr>"
      by (auto simp: with_hub_def split: prod.splits)
    obtain wakes where "h = (hs_hub s)\<lparr>assistant_wakes := wakes\<rparr>" by (rule defer_wake_frame [OF h(1)])
    then have "s' = s\<lparr>hs_hub := (hs_hub s)\<lparr>control_settings := control_settings (hs_hub s), assistant_wakes := wakes\<rparr>\<rparr>"
      using h(2) by simp
    then show "\<exists>settings wakes. s' = s\<lparr>hs_hub := (hs_hub s)\<lparr>control_settings := settings, assistant_wakes := wakes\<rparr>\<rparr>"
      by blast
  qed
qed





subsection \<open>Bounded texts\<close>

lemma next_boundary_ok: "i \<le> length s \<Longrightarrow> i \<le> next_boundary s i \<and> char_boundary s (next_boundary s i)"
proof (induction s i rule: next_boundary.induct)
  case (1 s i)
  show ?case
  proof (cases "char_boundary s i \<or> length s \<le> i")
    case True
    with 1(2) show ?thesis by (auto simp: next_boundary.simps char_boundary_def)
  next
    case False
    with 1 have "Suc i \<le> next_boundary s (Suc i) \<and> char_boundary s (next_boundary s (Suc i))" by simp
    with False show ?thesis by (simp add: next_boundary.simps [of s i])
  qed
qed

text \<open>What is quoted to the assistant of a conversation or of a worker's timeline is at most the
  bound in bytes, however long it was; a text within the bound is quoted in full, and of a longer one
  a suffix that starts at a character, behind the note that the beginning is left out.\<close>

theorem claire_context_bounded:
  "length (conversation_history es) \<le> 16384 \<and> length (worker_wake_context es) \<le> 16384
    \<and> (\<forall>s. bounded_tail s MAX_CONVERSATION_HISTORY_BYTES =
        (if length s \<le> 16384 then s
         else OMITTED @ drop (next_boundary s (length s - (16384 - length OMITTED))) s)
       \<and> char_boundary s (next_boundary s (length s - (16384 - length OMITTED))))"
proof -
  have cut: "char_boundary s (next_boundary s (length s - k)) \<and> length s - k \<le> next_boundary s (length s - k)" for s k
    using next_boundary_ok [of "length s - k" s] by simp
  have bound: "length (bounded_tail s 16384) \<le> 16384" for s
  proof -
    have "length OMITTED \<le> 16384" by (simp add: OMITTED_def)
    with cut [of s "16384 - length OMITTED"] show ?thesis by (auto simp: bounded_tail_def)
  qed
  have bytes: "MAX_CONVERSATION_HISTORY_BYTES = 16384" by (simp add: MAX_CONVERSATION_HISTORY_BYTES_def)
  have "length (conversation_history es) \<le> 16384"
    using bound by (simp add: conversation_history_def bytes Let_def)
  moreover have "length (worker_wake_context es) \<le> 16384"
    using bound by (simp add: worker_wake_context_def bytes Let_def)
  ultimately show ?thesis using cut by (simp add: bytes bounded_tail_def)
qed

end
