(* ===== verification/Spec2Isabelle.thy ===== *)
theory Spec2Isabelle
  imports Client_Link Delivery Engine_Argv Read_Api Tracker_Flow Agent_Lock Watch_Claude Timeparse Token_Props Claire_Props
begin

text \<open>
  Stackhour in Isabelle/HOL. All paths are under \<open>src/crates\<close>.

  \<^bold>\<open>The program.\<close> Stackhour is two systems that share crates.
  The \<^emph>\<open>control plane\<close>: a hub keeps a durable, append-only event log in SQLite, clients subscribe to it
  and send commands, execution nodes connect, receive work and report events; a hub-local assistant,
  Claire, talks to one chat and starts workers. The \<^emph>\<open>activity tracker\<close>: an agent on every machine
  turns file saves and the transcripts of coding agents into heartbeats and sends them to a server, which
  stores them, attributes time, tokens and cost to projects, and answers queries.

  \<^bold>\<open>How the parts interact.\<close> A client command enters the hub (Hub_Commands), is validated
  (Validate), appended together with its entity and its dispatch in one transaction (Store),
  broadcast to the other clients (Hub_State, Client_Link) and routed to a node (Node_Link). The node keeps its
  events in an outbox until the hub acknowledges them (Outbox), runs engines as child processes (Cli_Engine,
  Engine_Argv) and reconnects with a growing delay (Backoff). Claire reads the log, runs her own provider
  process on the hub and appends her answers through the same store (Claire and the theories around it). The agent takes its lock
  (Agent_Lock), runs its watchers (Agent_Tick, Watch_Claude over Tail and Project), queues heartbeats in a file
  (Agent_Queue over Fsutil) and posts them (Tracker_Flow); the server authenticates (Server_Auth),
  ingests (Ingest, Tracker_Db), and summarises on request (Read_Api over Reattribute and Summarize).

  \<^bold>\<open>Theories and sources.\<close>

  \<^item> Shared ground: Prelude (result type, string and word helpers, the collections of facts the proofs
    share), Text_Lines and Str_Ops (UTF-8, trimming, lines, searching, as the Rust library does it), Decimal,
    F64, Index_Map, Json (\<open>serde_json::Value\<close>).
  \<^item> Domain, \<open>stackhour-domain/src\<close>: Entities (\<open>ids.rs\<close>, \<open>entities.rs\<close>, \<open>error.rs\<close>), Events (\<open>event.rs\<close>),
    Protocol (\<open>protocol.rs\<close>), Rows and Store (\<open>store.rs\<close>: schema, rows, every operation of \<open>Hub\<close>).
    A table is a list of rows; a statement is an \<open>exec\<close> that the argument \<open>io\<close> may let fail; a
    transaction returns the changed tables or leaves them alone.
  \<^item> Hub, \<open>stackhour-hub/src/lib.rs\<close>: Validate, Hub_State (\<open>HubState\<close>), Hub_Commands
    (\<open>apply_command\<close>), Hub_Workers, Node_Link (\<open>handle_node\<close>), Client_Link (\<open>handle_client\<close>),
    Assistant_State (settings, update policy and session of the assistant).
  \<^item> Node, \<open>stackhour-node/src\<close>: Outbox and Cli_Engine (\<open>engine.rs\<close>), Backoff (\<open>backoff.rs\<close>, \<open>config.rs\<close>,
    \<open>lib.rs\<close>), Engine_Argv (\<open>stackhour-core/src/engine.rs\<close> and \<open>process.rs\<close>).
  \<^item> Assistant, \<open>stackhour/src/control.rs\<close>: Claire_Text (what she is told, what she answers), Claire (a turn), Claire_Chat
    (messages and events), Claire_Loop (supervisor, passes, recovery, start). An operation is a computation of the
    state monad over the hub and the runner; clock, ids, failing statements, programs and deliveries come from a supply.
  \<^item> Agent, \<open>stackhour-agent/src\<close> with \<open>stackhour-core/src\<close>: Fsutil (\<open>fsutil.rs\<close>), Agent_Lock (\<open>lock.rs\<close>), Agent_Queue
    (\<open>queue.rs\<close>), Tail (\<open>tail.rs\<close>), Agent_Tick (\<open>lib.rs\<close>, \<open>state.rs\<close>), Watch_Claude
    (\<open>watch_claude.rs\<close>), Project (\<open>project.rs\<close>), Pricing (\<open>pricing.rs\<close>).
  \<^item> Configuration, \<open>stackhour-core/src\<close>: Config, Paths, Module_Gates (\<open>modules.rs\<close>), Tokens, Jsnum,
    Timeparse.
  \<^item> Tracker store, \<open>stackhour-store/src\<close>: Summarize, Reattribute, Tracker_Db (\<open>db.rs\<close>).
  \<^item> Tracker server, \<open>stackhour-server/src\<close>: Server_Auth (\<open>auth.rs\<close>), Ingest (\<open>ingest.rs\<close>), Read_Api (\<open>read_api.rs\<close>,
    \<open>detail.rs\<close>). Tracker_Flow joins agent and server (\<open>http.rs\<close> of the agent).

  \<^bold>\<open>What the lemmas show.\<close>

  \<^item> Store_Log, Store_Steps, Store_Tables, Store_Entities, Store_Props: \<open>hub_step\<close> is any store operation with any
    failing statement. The locale \<open>dedup_log\<close> states what an idempotent append-only log promises; the
    command path and the node-event path are its interpretations. From it: exactly-once acceptance, gapless sequences,
    atomic bundles, final approvals, dispatches that stay queued until acknowledged.
  \<^item> Hub_Inv, Hub_Steps, Hub_Props: \<open>hs_step\<close> is any method of the hub process. The live bus is the tail of
    the log as long as reads succeed; an accepted command can be repeated; a started run reaches an
    eligible node.
  \<^item> Client_Link, Node_Link, Delivery: one client's stream, one node's connection, and both ends of the
    outbox; the locale \<open>event_sink\<close> is what a node relies on and the hub is its interpretation.
  \<^item> Cli_Engine, Engine_Argv, Backoff: every prompt reaches its process once, with the documented command
    line; the delays stay in their windows.
  \<^item> Assistant_Frame, Claire_Inv, Claire_Turns, Claire_Steps, Claire_Wakes, Claire_Props: triples over the state
    monad; \<open>claire_step\<close> interleaves chat, log, passes and supervisors; one turn at a time, wakes close only after
    delivery, refused answers do nothing.
  \<^item> Fsutil, Agent_Queue, Tail, Agent_Tick, Agent_Lock: crash safety as predicates on every state of the
    files that a killed process can leave behind (the trace of a sequence of calls).
  \<^item> Summarize, Reattribute, Tracker_Db, Ingest, Read_Api, Tracker_Flow: the credit model against a
    declarative definition, nearest-edit attribution, deduplicating ingest, tokens scoped to machines, and
    a heartbeat's way from the agent's tick into the database.
  \<^item> Jsnum, Timeparse, Project, Paths, Config, Tokens, Token_Props: round trips, the calendar, the repository of
    a path, the overlay of settings, and what a written or revoked token admits.
  \<^item> Entities and Events: the locale \<open>token_codec\<close> for the textual form of an enumeration, interpreted for each.

  \<^bold>\<open>Parameters.\<close> What is not under \<open>src\<close> is an argument: the text forms of UUIDs, times, JSON and messages
  (\<open>codec\<close> with \<open>codec_ok\<close>; Codec_Example is an instance), JSON printing and parsing (\<open>json_text\<close>),
  number formatting and parsing (\<open>f64_text\<close> with \<open>f64_text_ok\<close>), constant-time comparison (\<open>ct_eq_ok\<close>), lower-casing,
  URL and date parsers, the liveness probe of a process, the transport, and the failures of the operating system and of SQLite.

  \<^bold>\<open>Bounds, numbers and fuel.\<close> Machine integers that can wrap are words (sequences, connection ids, the
  backoff arithmetic, base64); the 64-bit day arithmetic of Timeparse is over unbounded integers, its inputs being far
  inside the range. Doubles are reals, each operation followed by the rounding \<open>rnd\<close>; negative zero is not
  told from zero. No definition uses fuel: each recursion is structural or has a measure. The supervisor's loop runs
  over the list of the ends of its sessions and has no result while that list is not decided.

  \<^bold>\<open>Granularity.\<close> A store operation, a method of the hub between two acquisitions of its locks, an operation of the assistant
  behind \<open>turn_gate\<close>, a start of the agent and a request of the tracker server are atomic steps; everything else is
  interleaved. Three places are finer: what other handlers do between the calls of a node's
  handshake is an argument of \<open>node_handshake\<close>; a supervisor of a turn is a list of stages; the steps of
  \<open>try_acquire\<close> are definitions, so that the race on a stale lock can be shown. Coarser than the code is the supervisor's update of the
  session, read and written in one stage without the gate.

  \<^bold>\<open>Not modelled.\<close> HTTP and WebSocket framing, TLS, the command line, installation, updates and diagnostics, the Telegram
  client, the dashboard, the watchers of other programs, backup, restore and import, and the SQL text itself: these are
  I/O around the modelled core or rest on libraries outside the repository.
\<close>

end
